(* ===== verification/EcPrelude.thy ===== *)
theory EcPrelude
  imports Main "HOL-Library.Word" "HOL-Library.Monad_Syntax"
begin

text \<open>
  Shared vocabulary of the development: the machine integers of \<^verbatim>\<open>osal/osal.h\<close>, byte
  buffers and the little-endian accessors the code applies to them, the failing
  computations every operation is written in, and the post-condition predicates with
  which the properties of such computations are stated.

  An operation of the code is a function into \<open>'a option\<close> that takes the state it
  mutates and returns the new one. \<open>Some r\<close> means that the code returns with result
  \<open>r\<close>; \<open>None\<close> means that it reads or writes outside an array, dereferences a pointer
  that is not there, or never leaves a loop.
\<close>

unbundle bit_operations_syntax

section \<open>Machine integers and buffers\<close>

type_synonym u8 = "8 word"
type_synonym u16 = "16 word"
type_synonym u32 = "32 word"
type_synonym u64 = "64 word"

text \<open>A C array of bytes whose bound is a constant of the code.\<close>

type_synonym buf = "nat \<Rightarrow> u8"

named_theorems returnsI \<open>rules that show that an operation returns with a post-condition\<close>
named_theorems buf_simps \<open>reading a buffer after a write\<close>

section \<open>Scripts of the environment\<close>

text \<open>
  What the calls of a function of the operating system deliver, one entry per call, for ever.
\<close>

type_synonym 'a script = "nat \<Rightarrow> 'a"

definition script_tl :: "'a script \<Rightarrow> 'a script" where
  "script_tl f n = f (Suc n)"

definition script_of :: "'a list \<Rightarrow> 'a \<Rightarrow> 'a script" where
  "script_of xs d n = (if n < length xs then xs ! n else d)"

lemma script_tl_apply [simp]: "script_tl f n = f (Suc n)"
  by (rule script_tl_def)

lemma script_of_0 [simp]: "script_of (x # xs) d 0 = x"
  by (simp add: script_of_def)

lemma script_of_Suc [simp]: "script_of (x # xs) d (Suc n) = script_of xs d n"
  by (simp add: script_of_def)

lemma script_of_Nil [simp]: "script_of [] d n = d"
  by (simp add: script_of_def)

lemma script_tl_of [simp]: "script_tl (script_of (x # xs) d) = script_of xs d"
  by (rule ext) simp

lemma script_tl_const [simp]: "script_tl (\<lambda>_. d) = (\<lambda>_. d)"
  by (rule ext) simp

lemma script_in_range: "f n = x \<Longrightarrow> x \<in> range f"
  by (rule range_eqI [of _ _ n]) simp

lemma range_script_tlD: "x \<in> range (script_tl f) \<Longrightarrow> x \<in> range f"
  by (erule rangeE) (simp only: script_tl_apply rangeI)

lemma range_script_tl: "range (script_tl f) \<subseteq> range f"
  by (rule subsetI) (rule range_script_tlD)

lemma range_script_of: "x \<in> range (script_of xs d) \<Longrightarrow> x \<in> set xs \<or> x = d"
  by (erule rangeE) (simp add: script_of_def split: if_splits)

section \<open>Little-endian encoding\<close>

definition lo8 :: "u16 \<Rightarrow> u8" where
  "lo8 w = ucast w"

definition hi8 :: "u16 \<Rightarrow> u8" where
  "hi8 w = ucast (drop_bit 8 w)"

definition mk16 :: "u8 \<Rightarrow> u8 \<Rightarrow> u16" where
  "mk16 lo hi = ucast lo OR push_bit 8 (ucast hi)"

definition enc16 :: "u16 \<Rightarrow> u8 list" where
  "enc16 w = [lo8 w, hi8 w]"

definition enc32 :: "u32 \<Rightarrow> u8 list" where
  "enc32 w = enc16 (ucast w) @ enc16 (ucast (drop_bit 16 w))"

definition enc64 :: "u64 \<Rightarrow> u8 list" where
  "enc64 w = enc32 (ucast w) @ enc32 (ucast (drop_bit 32 w))"

definition get16 :: "buf \<Rightarrow> nat \<Rightarrow> u16" where
  "get16 b i = mk16 (b i) (b (i + 1))"

definition get32 :: "buf \<Rightarrow> nat \<Rightarrow> u32" where
  "get32 b i = ucast (get16 b i) OR push_bit 16 (ucast (get16 b (i + 2)))"

definition get64 :: "buf \<Rightarrow> nat \<Rightarrow> u64" where
  "get64 b i = ucast (get32 b i) OR push_bit 32 (ucast (get32 b (i + 4)))"

definition put16 :: "buf \<Rightarrow> nat \<Rightarrow> u16 \<Rightarrow> buf" where
  "put16 b i w = b(i := lo8 w, i + 1 := hi8 w)"

text \<open>The network byte order of the Ethernet header (\<^verbatim>\<open>htons\<close>, \<^verbatim>\<open>ntohs\<close>).\<close>

definition put16be :: "buf \<Rightarrow> nat \<Rightarrow> u16 \<Rightarrow> buf" where
  "put16be b i w = b(i := hi8 w, i + 1 := lo8 w)"

definition get16be :: "buf \<Rightarrow> nat \<Rightarrow> u16" where
  "get16be b i = mk16 (b (i + 1)) (b i)"

definition list_buf :: "u8 list \<Rightarrow> buf" where
  "list_buf xs i = (if i < length xs then xs ! i else 0)"

definition dec16 :: "u8 list \<Rightarrow> u16" where
  "dec16 xs = get16 (list_buf xs) 0"

definition dec32 :: "u8 list \<Rightarrow> u32" where
  "dec32 xs = get32 (list_buf xs) 0"

definition dec64 :: "u8 list \<Rightarrow> u64" where
  "dec64 xs = get64 (list_buf xs) 0"

lemma mk16_lo8_hi8 [simp]: "mk16 (lo8 w) (hi8 w) = w"
  unfolding mk16_def lo8_def hi8_def
  by (rule bit_word_eqI) (auto simp: bit_simps)

lemma lo8_mk16 [simp]: "lo8 (mk16 a b) = a"
  unfolding mk16_def lo8_def
  by (rule bit_word_eqI) (auto simp: bit_simps)

lemma hi8_mk16 [simp]: "hi8 (mk16 a b) = b"
  unfolding mk16_def hi8_def
  by (rule bit_word_eqI) (auto simp: bit_simps dest: bit_imp_le_length)

lemma uint_mk16: "uint (mk16 a b) = uint a + 256 * uint b"
proof -
  have "mk16 a b = ucast a + push_bit 8 (ucast b)"
    unfolding mk16_def
    by (rule disjunctive_add [symmetric]) (auto simp: bit_simps dest: bit_imp_le_length)
  moreover have "uint (push_bit 8 (ucast b :: u16)) = 256 * uint b"
    using uint_lt2p [of b]
    by (simp add: push_bit_eq_mult uint_word_ariths uint_up_ucast is_up)
  moreover have "uint a < 256" "uint b < 256"
    using uint_lt2p [of a] uint_lt2p [of b] by simp_all
  ultimately show ?thesis
    by (simp add: uint_word_ariths uint_up_ucast is_up)
qed

lemma unat_mk16: "unat (mk16 a b) = unat a + 256 * unat b"
proof -
  have "int (unat (mk16 a b)) = int (unat a + 256 * unat b)"
    by (simp add: uint_mk16)
  then show ?thesis by (simp only: of_nat_eq_iff)
qed

lemma unat_of_nat_small: "n < 2 ^ LENGTH('a) \<Longrightarrow> unat (of_nat n :: 'a::len word) = n"
  by (simp add: unat_of_nat take_bit_nat_eq_self)

lemma unat_of_nat_u16: "n < 65536 \<Longrightarrow> unat (of_nat n :: u16) = n"
  by (rule unat_of_nat_small) simp

lemma unat_of_nat_u8: "n < 256 \<Longrightarrow> unat (of_nat n :: u8) = n"
  by (rule unat_of_nat_small) simp

lemma sint_small: "unat (w :: u32) < 2 ^ 31 \<Longrightarrow> sint w = int (unat w)"
proof -
  assume "unat w < 2 ^ 31"
  then have "unat w < 2147483648" by simp
  then have "int (unat w) < 2147483648" by linarith
  then have "uint w < 2147483648" by (simp only: uint_nat)
  moreover have "- 2147483648 \<le> uint w" by (rule order_trans [of _ 0]) simp_all
  ultimately show ?thesis by (simp add: sint_uint signed_take_bit_int_eq_self)
qed

lemma length_enc [simp]:
  "length (enc16 w) = 2" "length (enc32 x) = 4" "length (enc64 y) = 8"
  by (simp_all add: enc16_def enc32_def enc64_def)

lemma dec16_enc16 [simp]: "dec16 (enc16 w) = w"
  by (simp add: dec16_def get16_def list_buf_def enc16_def)

lemma dec32_enc32 [simp]: "dec32 (enc32 w) = w"
proof -
  have "dec32 (enc32 w) = ucast (ucast w :: u16) OR push_bit 16 (ucast (ucast (drop_bit 16 w) :: u16))"
    by (simp add: dec32_def get32_def get16_def list_buf_def enc32_def enc16_def)
  also have "\<dots> = w"
    by (rule bit_word_eqI) (auto simp: bit_simps)
  finally show ?thesis .
qed

lemma dec64_enc64 [simp]: "dec64 (enc64 w) = w"
proof -
  have 1: "get32 (list_buf (enc64 w)) 0 = dec32 (enc32 (ucast w))"
    by (simp add: dec32_def get32_def get16_def list_buf_def enc64_def nth_append)
  have 2: "get32 (list_buf (enc64 w)) 4 = dec32 (enc32 (ucast (drop_bit 32 w)))"
    by (simp add: dec32_def get32_def get16_def list_buf_def enc64_def nth_append numeral_2_eq_2 numeral_3_eq_3)
  have "dec64 (enc64 w) = ucast (ucast w :: u32) OR push_bit 32 (ucast (ucast (drop_bit 32 w) :: u32))"
    using 1 2 by (simp add: dec64_def get64_def)
  also have "\<dots> = w"
    by (rule bit_word_eqI) (auto simp: bit_simps)
  finally show ?thesis .
qed

lemma get16_put16_same [buf_simps]: "get16 (put16 b i w) i = w"
  by (simp add: get16_def put16_def)

lemma put16_other [buf_simps]: "j \<noteq> i \<Longrightarrow> j \<noteq> i + 1 \<Longrightarrow> put16 b i w j = b j"
  by (simp add: put16_def)

lemma get16_put16_other [buf_simps]:
  "j + 1 < i \<or> i + 1 < j \<Longrightarrow> get16 (put16 b i w) j = get16 b j"
  by (auto simp: get16_def put16_def)

lemma get16be_put16be_same [buf_simps]: "get16be (put16be b i w) i = w"
  by (simp add: get16be_def put16be_def)

section \<open>Block copies\<close>

text \<open>\<^verbatim>\<open>memcpy(&dst[d], &src[s], n)\<close> between two arrays, and the bytes \<^verbatim>\<open>src[s..s+n-1]\<close>.\<close>

definition blit :: "buf \<Rightarrow> nat \<Rightarrow> buf \<Rightarrow> nat \<Rightarrow> nat \<Rightarrow> buf" where
  "blit dst d src s n = (\<lambda>i. if d \<le> i \<and> i < d + n then src (s + (i - d)) else dst i)"

definition slice :: "buf \<Rightarrow> nat \<Rightarrow> nat \<Rightarrow> u8 list" where
  "slice b s n = map b [s ..< s + n]"

definition blit_list :: "buf \<Rightarrow> nat \<Rightarrow> u8 list \<Rightarrow> buf" where
  "blit_list dst d xs = (\<lambda>i. if d \<le> i \<and> i < d + length xs then xs ! (i - d) else dst i)"

lemma length_slice [simp]: "length (slice b s n) = n"
  by (simp add: slice_def)

lemma nth_slice [simp]: "i < n \<Longrightarrow> slice b s n ! i = b (s + i)"
  by (simp add: slice_def)

lemma blit_in [buf_simps]: "d \<le> i \<Longrightarrow> i < d + n \<Longrightarrow> blit dst d src s n i = src (s + (i - d))"
  by (simp add: blit_def)

lemma blit_out [buf_simps]: "i < d \<or> d + n \<le> i \<Longrightarrow> blit dst d src s n i = dst i"
  by (auto simp: blit_def)

lemma blit_list_in [buf_simps]: "d \<le> i \<Longrightarrow> i < d + length xs \<Longrightarrow> blit_list dst d xs i = xs ! (i - d)"
  by (simp add: blit_list_def)

lemma blit_list_out [buf_simps]: "i < d \<or> d + length xs \<le> i \<Longrightarrow> blit_list dst d xs i = dst i"
  by (auto simp: blit_list_def)

lemma slice_cong: "(\<And>i. s \<le> i \<Longrightarrow> i < s + n \<Longrightarrow> a i = b i) \<Longrightarrow> slice a s n = slice b s n"
  by (simp add: slice_def)

lemma slice_shift: "(\<And>i. i < n \<Longrightarrow> a (s + i) = b (t + i)) \<Longrightarrow> slice a s n = slice b t n"
  by (rule nth_equalityI) auto

lemma slice_blit_list [buf_simps]: "slice (blit_list b d xs) d (length xs) = xs"
  by (rule nth_equalityI) (auto simp: blit_list_def)

lemma slice_blit [buf_simps]: "slice (blit b d src s n) d n = slice src s n"
  by (rule slice_shift) (simp add: blit_def)

lemma slice_blit_list_out [buf_simps]:
  "s + n \<le> d \<or> d + length xs \<le> s \<Longrightarrow> slice (blit_list b d xs) s n = slice b s n"
  by (rule slice_cong) (auto simp: blit_list_def)

lemma slice_put16_out [buf_simps]:
  "s + n \<le> i \<or> i + 2 \<le> s \<Longrightarrow> slice (put16 b i w) s n = slice b s n"
  by (rule slice_cong) (auto simp: put16_def)

lemma take_slice: "take m (slice b s n) = slice b s (min m n)"
  by (rule nth_equalityI) auto

lemma drop_slice: "drop m (slice b s n) = slice b (s + m) (n - m)"
  by (rule nth_equalityI) (auto simp: add.assoc)

section \<open>Checked accesses\<close>

definition chk :: "bool \<Rightarrow> unit option" where
  "chk b = (if b then Some () else None)"

lemma chk_simps [simp]: "chk True = Some ()" "chk False = None"
  by (simp_all add: chk_def)

lemma chk_Some [simp]: "chk b = Some u \<longleftrightarrow> b"
  by (simp add: chk_def)

lemma chk_None [simp]: "chk b = None \<longleftrightarrow> \<not> b"
  by (simp add: chk_def)

text \<open>Read and write of an array held as a list (\<^verbatim>\<open>context->slavelist\<close> and the like).\<close>

definition arr_get :: "'a list \<Rightarrow> nat \<Rightarrow> 'a option" where
  "arr_get xs i = (if i < length xs then Some (xs ! i) else None)"

definition arr_set :: "'a list \<Rightarrow> nat \<Rightarrow> 'a \<Rightarrow> 'a list option" where
  "arr_set xs i v = (if i < length xs then Some (xs[i := v]) else None)"

lemma arr_get_Some [simp]: "arr_get xs i = Some v \<longleftrightarrow> i < length xs \<and> v = xs ! i"
  by (auto simp: arr_get_def)

lemma arr_set_Some [simp]: "arr_set xs i v = Some ys \<longleftrightarrow> i < length xs \<and> ys = xs[i := v]"
  by (auto simp: arr_set_def)

section \<open>Post-conditions of failing computations\<close>

text \<open>
  \<open>returns m Q\<close>: the computation returns, and its result satisfies \<open>Q\<close> (total
  correctness). \<open>ensures m Q\<close>: if it returns, its result satisfies \<open>Q\<close>.
\<close>

definition returns :: "'a option \<Rightarrow> ('a \<Rightarrow> bool) \<Rightarrow> bool" where
  "returns m Q = (case m of None \<Rightarrow> False | Some r \<Rightarrow> Q r)"

definition ensures :: "'a option \<Rightarrow> ('a \<Rightarrow> bool) \<Rightarrow> bool" where
  "ensures m Q = (case m of None \<Rightarrow> True | Some r \<Rightarrow> Q r)"

lemma returns_Some [simp]: "returns (Some r) Q = Q r"
  by (simp add: returns_def)

lemma returns_None [simp]: "\<not> returns None Q"
  by (simp add: returns_def)

lemma ensures_Some [simp]: "ensures (Some r) Q = Q r"
  by (simp add: ensures_def)

lemma ensures_None [simp]: "ensures None Q"
  by (simp add: ensures_def)

lemma returns_iff: "returns m Q \<longleftrightarrow> (\<exists>r. m = Some r \<and> Q r)"
  by (cases m) simp_all

lemma ensures_iff: "ensures m Q \<longleftrightarrow> (\<forall>r. m = Some r \<longrightarrow> Q r)"
  by (cases m) simp_all

lemma returns_bind [simp]: "returns (Option.bind m f) Q = returns m (\<lambda>r. returns (f r) Q)"
  by (cases m) simp_all

lemma ensures_bind [simp]: "ensures (Option.bind m f) Q = ensures m (\<lambda>r. ensures (f r) Q)"
  by (cases m) simp_all

lemma returns_chk [simp]: "returns (chk b) Q \<longleftrightarrow> b \<and> Q ()"
  by (simp add: chk_def)

lemma ensures_chk [simp]: "ensures (chk b) Q \<longleftrightarrow> (b \<longrightarrow> Q ())"
  by (simp add: chk_def)

lemma returns_arr_get [simp]: "returns (arr_get xs i) Q \<longleftrightarrow> i < length xs \<and> Q (xs ! i)"
  by (simp add: arr_get_def)

lemma ensures_arr_get [simp]: "ensures (arr_get xs i) Q \<longleftrightarrow> (i < length xs \<longrightarrow> Q (xs ! i))"
  by (simp add: arr_get_def)

lemma returns_arr_set [simp]: "returns (arr_set xs i v) Q \<longleftrightarrow> i < length xs \<and> Q (xs[i := v])"
  by (simp add: arr_set_def)

lemma ensures_arr_set [simp]: "ensures (arr_set xs i v) Q \<longleftrightarrow> (i < length xs \<longrightarrow> Q (xs[i := v]))"
  by (simp add: arr_set_def)

lemma returns_if: "returns (if b then m else n) Q = (if b then returns m Q else returns n Q)"
  by simp

lemma returns_mono: "returns m P \<Longrightarrow> (\<And>r. m = Some r \<Longrightarrow> P r \<Longrightarrow> Q r) \<Longrightarrow> returns m Q"
  by (cases m) simp_all

lemma ensures_mono: "ensures m P \<Longrightarrow> (\<And>r. m = Some r \<Longrightarrow> P r \<Longrightarrow> Q r) \<Longrightarrow> ensures m Q"
  by (cases m) simp_all

lemma returns_ensures: "returns m Q \<Longrightarrow> ensures m Q"
  by (cases m) simp_all

lemma returns_conj_ensures: "returns m P \<Longrightarrow> ensures m Q \<Longrightarrow> returns m (\<lambda>r. P r \<and> Q r)"
  by (cases m) simp_all

lemma ensuresD: "ensures m Q \<Longrightarrow> m = Some r \<Longrightarrow> Q r"
  by simp

lemma returns_split: "returns (case x of (a, b) \<Rightarrow> f a b) Q = (case x of (a, b) \<Rightarrow> returns (f a b) Q)"
  by (cases x) simp

lemma ensures_split: "ensures (case x of (a, b) \<Rightarrow> f a b) Q = (case x of (a, b) \<Rightarrow> ensures (f a b) Q)"
  by (cases x) simp

section \<open>Loops\<close>

text \<open>
  \<^verbatim>\<open>do body while (cond)\<close>: the body returns the new state and whether the condition
  held after it. A loop that does not end has the value \<open>None\<close>.
\<close>

partial_function (option) do_while :: "('s \<Rightarrow> ('s \<times> bool) option) \<Rightarrow> 's \<Rightarrow> 's option" where
  "do_while body s = do {
     (s', again) \<leftarrow> body s;
     if again then do_while body s' else Some s'
   }"

declare do_while.simps [code]

lemma do_while_unfold:
  "body s = Some (s', again) \<Longrightarrow> do_while body s = (if again then do_while body s' else Some s')"
  by (simp add: do_while.simps [of body s])

lemma do_while_stop: "body s = Some (s', False) \<Longrightarrow> do_while body s = Some s'"
  by (simp add: do_while.simps [of body s])

lemma do_while_fail: "body s = None \<Longrightarrow> do_while body s = None"
  by (simp add: do_while.simps [of body s])

text \<open>Partial correctness: an invariant of the states in which the body starts.\<close>

lemma do_while_ensures:
  assumes start: "P s"
    and body: "\<And>s. P s \<Longrightarrow> ensures (body s) (\<lambda>(s', again). if again then P s' else Q s')"
  shows "ensures (do_while body s) Q"
proof -
  have "Q r" if ret: "do_while body s = Some r" for r
  proof -
    have "P s \<longrightarrow> Q r"
    proof (rule do_while.raw_induct [where P = "\<lambda>b s r. b = body \<longrightarrow> P s \<longrightarrow> Q r", OF _ ret, THEN mp, OF _ refl])
      fix f b s r
      assume IH: "\<And>b s r. f b s = Some r \<Longrightarrow> b = body \<longrightarrow> P s \<longrightarrow> Q r"
        and eq: "Option.bind (b s) (\<lambda>(s', again). if again then f b s' else Some s') = Some r"
      show "b = body \<longrightarrow> P s \<longrightarrow> Q r"
      proof (intro impI)
        assume b: "b = body" and s: "P s"
        from eq b obtain s' again where *: "body s = Some (s', again)"
            "(if again then f body s' else Some s') = Some r"
          by (auto simp: Option.bind_eq_Some_conv)
        with body [OF s] IH [of body s' r] show "Q r"
          by (auto split: if_splits)
      qed
    qed
    with start show ?thesis by simp
  qed
  then show ?thesis by (simp add: ensures_iff)
qed

text \<open>Total correctness: a measure that every repetition decreases.\<close>

lemma do_while_returns:
  fixes f :: "'s \<Rightarrow> nat"
  assumes start: "P s"
    and body: "\<And>s. P s \<Longrightarrow> returns (body s) (\<lambda>(s', again). if again then P s' \<and> f s' < f s else Q s')"
  shows "returns (do_while body s) Q"
  using start
proof (induction "f s" arbitrary: s rule: less_induct)
  case less
  from body [OF less.prems] obtain s' again
    where b: "body s = Some (s', again)" and c: "if again then P s' \<and> f s' < f s else Q s'"
    by (auto simp: returns_iff)
  then show ?case
    using less.hyps [of s'] by (cases again) (auto simp: do_while_unfold)
qed

text \<open>\<^verbatim>\<open>while (b) body\<close>\<close>

definition while_loop :: "('s \<Rightarrow> bool) \<Rightarrow> ('s \<Rightarrow> 's option) \<Rightarrow> 's \<Rightarrow> 's option" where
  "while_loop b body s = (if b s then do_while (\<lambda>s. do { s \<leftarrow> body s; Some (s, b s) }) s else Some s)"

lemma while_loop_unfold:
  "while_loop b body s = (if b s then do { s \<leftarrow> body s; while_loop b body s } else Some s)"
  unfolding while_loop_def by (subst do_while.simps) (cases "body s"; simp)

lemma while_loop_end [simp]: "\<not> b s \<Longrightarrow> while_loop b body s = Some s"
  by (simp add: while_loop_def)

lemma while_loop_step: "b s \<Longrightarrow> body s = Some s' \<Longrightarrow> while_loop b body s = while_loop b body s'"
  by (subst while_loop_unfold) simp

lemma while_loop_returns:
  fixes f :: "'s \<Rightarrow> nat"
  assumes start: "P s"
    and body: "\<And>s. P s \<Longrightarrow> b s \<Longrightarrow> returns (body s) (\<lambda>s'. P s' \<and> (b s' \<longrightarrow> f s' < f s))"
  shows "returns (while_loop b body s) (\<lambda>s. P s \<and> \<not> b s)"
proof (cases "b s")
  case True
  have "returns (do_while (\<lambda>s. do { s \<leftarrow> body s; Some (s, b s) }) s) (\<lambda>s. P s \<and> \<not> b s)"
  proof (rule do_while_returns [where P = "\<lambda>s. P s \<and> b s" and f = f])
    fix s assume "P s \<and> b s"
    then have "returns (body s) (\<lambda>s'. P s' \<and> (b s' \<longrightarrow> f s' < f s))" by (simp add: body)
    then show "returns (do { s \<leftarrow> body s; Some (s, b s) }) (\<lambda>(s', again). if again then (P s' \<and> b s') \<and> f s' < f s else P s' \<and> \<not> b s')"
      unfolding returns_bind by (rule returns_mono) simp
  qed (use True start in simp)
  with True show ?thesis by (simp add: while_loop_def)
qed (simp add: start)

lemma while_loop_ensures:
  assumes start: "P s" and body: "\<And>s. P s \<Longrightarrow> b s \<Longrightarrow> ensures (body s) P"
  shows "ensures (while_loop b body s) (\<lambda>s. P s \<and> \<not> b s)"
proof (cases "b s")
  case True
  have "ensures (do_while (\<lambda>s. do { s \<leftarrow> body s; Some (s, b s) }) s) (\<lambda>s. P s \<and> \<not> b s)"
  proof (rule do_while_ensures [where P = "\<lambda>s. P s \<and> b s"])
    fix s assume "P s \<and> b s"
    then have "ensures (body s) P" by (simp add: body)
    then show "ensures (do { s \<leftarrow> body s; Some (s, b s) }) (\<lambda>(s', again). if again then P s' \<and> b s' else P s' \<and> \<not> b s')"
      unfolding ensures_bind by (rule ensures_mono) simp
  qed (use True start in simp)
  with True show ?thesis by (simp add: while_loop_def)
qed (simp add: start)

text \<open>\<^verbatim>\<open>for (i = a; i < a + n; i++) body\<close>\<close>

primrec for_loop :: "nat \<Rightarrow> nat \<Rightarrow> (nat \<Rightarrow> 's \<Rightarrow> 's option) \<Rightarrow> 's \<Rightarrow> 's option" where
  "for_loop 0 a body s = Some s"
| "for_loop (Suc n) a body s = do { s \<leftarrow> body a s; for_loop n (Suc a) body s }"

lemma for_loop_returns:
  assumes "P a s" "\<And>i s. a \<le> i \<Longrightarrow> i < a + n \<Longrightarrow> P i s \<Longrightarrow> returns (body i s) (P (Suc i))"
  shows "returns (for_loop n a body s) (P (a + n))"
  using assms
proof (induction n arbitrary: a s)
  case (Suc n)
  have "returns (body a s) (P (Suc a))" using Suc.prems by simp
  then show ?case
    unfolding for_loop.simps returns_bind
  proof (rule returns_mono)
    fix t assume "P (Suc a) t"
    then have "returns (for_loop n (Suc a) body t) (P (Suc a + n))"
      by (rule Suc.IH) (use Suc.prems(2) in simp)
    then show "returns (for_loop n (Suc a) body t) (P (a + Suc n))" by simp
  qed
qed simp

lemma for_loop_ensures:
  assumes "P a s" "\<And>i s. a \<le> i \<Longrightarrow> i < a + n \<Longrightarrow> P i s \<Longrightarrow> ensures (body i s) (P (Suc i))"
  shows "ensures (for_loop n a body s) (P (a + n))"
  using assms
proof (induction n arbitrary: a s)
  case (Suc n)
  have "ensures (body a s) (P (Suc a))" using Suc.prems by simp
  then show ?case
    unfolding for_loop.simps ensures_bind
  proof (rule ensures_mono)
    fix t assume "P (Suc a) t"
    then have "ensures (for_loop n (Suc a) body t) (P (Suc a + n))"
      by (rule Suc.IH) (use Suc.prems(2) in simp)
    then show "ensures (for_loop n (Suc a) body t) (P (a + Suc n))" by simp
  qed
qed simp

end
