(* ===== verification/Osal.thy ===== *)
theory Osal
  imports EcPrelude
begin

text \<open>
  The operating-system layer \<^verbatim>\<open>osal/linux/osal.c\<close>: clocks, interval timers and the
  difference of two time stamps. The two clocks of the operating system are parameters:
  \<open>mclock n\<close> and \<open>rclock n\<close> are what the \<open>n\<close>-th call of \<^verbatim>\<open>clock_gettime\<close> on
  \<^verbatim>\<open>CLOCK_MONOTONIC\<close> and \<^verbatim>\<open>CLOCK_REALTIME\<close> delivers (seconds, nanoseconds), and the
  state counts the calls. \<^verbatim>\<open>osal_usleep\<close> changes nothing but the readings of the clock
  that follow it, so that it has no counterpart in the state.
\<close>

record ec_timet =
  t_sec :: u32
  t_usec :: u32

record osal_clock =
  mclock :: "nat \<Rightarrow> int \<times> int"
  mtick :: nat
  rclock :: "nat \<Rightarrow> int \<times> int"
  rtick :: nat

definition USECS_PER_SEC :: int where
  "USECS_PER_SEC = 1000000"

definition osal_current_time :: "osal_clock \<Rightarrow> ec_timet \<times> osal_clock" where
  "osal_current_time c =
     (let ts = rclock c (rtick c)
      in (\<lparr>t_sec = word_of_int (fst ts), t_usec = word_of_int (snd ts div 1000)\<rparr>,
          c\<lparr>rtick := Suc (rtick c)\<rparr>))"

definition osal_time_diff :: "ec_timet \<Rightarrow> ec_timet \<Rightarrow> ec_timet" where
  "osal_time_diff start end' =
     (if t_usec end' < t_usec start
      then \<lparr>t_sec = t_sec end' - t_sec start - 1, t_usec = t_usec end' + 1000000 - t_usec start\<rparr>
      else \<lparr>t_sec = t_sec end' - t_sec start, t_usec = t_usec end' - t_usec start\<rparr>)"

definition osal_getrelativetime :: "osal_clock \<Rightarrow> (int \<times> int) \<times> osal_clock" where
  "osal_getrelativetime c =
     (let ts = mclock c (mtick c) in ((fst ts, snd ts div 1000), c\<lparr>mtick := Suc (mtick c)\<rparr>))"

text \<open>\<^verbatim>\<open>timeradd\<close> and \<^verbatim>\<open>timercmp(..., <)\<close> of the C library, on (seconds, microseconds).\<close>

definition timeradd :: "int \<times> int \<Rightarrow> int \<times> int \<Rightarrow> int \<times> int" where
  "timeradd a b =
     (let s = fst a + fst b; u = snd a + snd b
      in if u \<ge> 1000000 then (s + 1, u - 1000000) else (s, u))"

definition timer_less :: "int \<times> int \<Rightarrow> int \<times> int \<Rightarrow> bool" where
  "timer_less a b = (if fst a = fst b then snd a < snd b else fst a < fst b)"

text \<open>A timer is the stop time, kept in 32 bits each.\<close>

definition osal_timer_start :: "u32 \<Rightarrow> osal_clock \<Rightarrow> ec_timet \<times> osal_clock" where
  "osal_timer_start timeout_usec c =
     (let (start_time, c') = osal_getrelativetime c;
          timeout = (uint timeout_usec div USECS_PER_SEC, uint timeout_usec mod USECS_PER_SEC);
          stop_time = timeradd start_time timeout
      in (\<lparr>t_sec = word_of_int (fst stop_time), t_usec = word_of_int (snd stop_time)\<rparr>, c'))"

definition osal_timer_is_expired :: "ec_timet \<Rightarrow> osal_clock \<Rightarrow> bool \<times> osal_clock" where
  "osal_timer_is_expired self c =
     (let (current_time, c') = osal_getrelativetime c
      in (\<not> timer_less current_time (uint (t_sec self), uint (t_usec self)), c'))"

section \<open>What the operations leave unchanged\<close>

lemma osal_timer_start_clock [simp]:
  "mclock (snd (osal_timer_start t c)) = mclock c"
  "mtick (snd (osal_timer_start t c)) = Suc (mtick c)"
  "rclock (snd (osal_timer_start t c)) = rclock c"
  "rtick (snd (osal_timer_start t c)) = rtick c"
  by (simp_all add: osal_timer_start_def osal_getrelativetime_def Let_def)

lemma osal_timer_is_expired_clock [simp]:
  "mclock (snd (osal_timer_is_expired t c)) = mclock c"
  "mtick (snd (osal_timer_is_expired t c)) = Suc (mtick c)"
  "rclock (snd (osal_timer_is_expired t c)) = rclock c"
  "rtick (snd (osal_timer_is_expired t c)) = rtick c"
  by (simp_all add: osal_timer_is_expired_def osal_getrelativetime_def Let_def)

lemma osal_current_time_clock [simp]:
  "mclock (snd (osal_current_time c)) = mclock c"
  "mtick (snd (osal_current_time c)) = mtick c"
  "rclock (snd (osal_current_time c)) = rclock c"
  "rtick (snd (osal_current_time c)) = Suc (rtick c)"
  by (simp_all add: osal_current_time_def Let_def)

section \<open>Time passes\<close>

text \<open>
  What the loops of the library rely on: the monotonic clock eventually passes every
  bound, with microseconds inside a second. \<open>clock_bound c\<close> is a number of readings
  after which every 32-bit timer has expired.
\<close>

definition clock_live :: "osal_clock \<Rightarrow> bool" where
  "clock_live c \<longleftrightarrow> (\<exists>k. \<forall>j\<ge>k. 2 ^ 32 \<le> fst (mclock c j))"

definition clock_bound :: "osal_clock \<Rightarrow> nat" where
  "clock_bound c = (LEAST k. \<forall>j\<ge>k. 2 ^ 32 \<le> fst (mclock c j))"

text \<open>The number of readings before every timer has expired.\<close>

definition clock_left :: "osal_clock \<Rightarrow> nat" where
  "clock_left c = Suc (clock_bound c) - mtick c"

lemma clock_bound_cong: "mclock c' = mclock c \<Longrightarrow> clock_bound c' = clock_bound c"
  by (simp add: clock_bound_def)

lemma clock_live_cong: "mclock c' = mclock c \<Longrightarrow> clock_live c' = clock_live c"
  by (simp add: clock_live_def)

lemma clock_bound: "clock_live c \<Longrightarrow> clock_bound c \<le> j \<Longrightarrow> 2 ^ 32 \<le> fst (mclock c j)"
  unfolding clock_live_def clock_bound_def
  using LeastI_ex [of "\<lambda>k. \<forall>j\<ge>k. 2 ^ 32 \<le> fst (mclock c j)"] by blast

lemma not_expired_early:
  assumes "clock_live c" "\<not> fst (osal_timer_is_expired t c)"
  shows "mtick c < clock_bound c"
proof (rule ccontr)
  assume "\<not> mtick c < clock_bound c"
  with clock_bound [OF assms(1), of "mtick c"] have "2 ^ 32 \<le> fst (mclock c (mtick c))" by simp
  moreover have "uint (t_sec t) < 2 ^ 32" using uint_lt2p [of "t_sec t"] by simp
  ultimately show False
    using assms(2)
    by (simp add: osal_timer_is_expired_def osal_getrelativetime_def Let_def timer_less_def)
qed

lemma not_expired_left:
  assumes "clock_live c" "\<not> fst (osal_timer_is_expired t c)"
  shows "clock_left (snd (osal_timer_is_expired t c)) < clock_left c"
  using not_expired_early [OF assms]
  by (simp add: clock_left_def clock_bound_cong [of "snd (osal_timer_is_expired t c)" c])

section \<open>Timers and differences\<close>

definition usecs :: "ec_timet \<Rightarrow> int" where
  "usecs t = uint (t_sec t) * 1000000 + uint (t_usec t)"

definition wf_time :: "ec_timet \<Rightarrow> bool" where
  "wf_time t \<longleftrightarrow> uint (t_usec t) < 1000000"

lemma timer_less_usecs:
  assumes "0 \<le> snd a" "snd a < 1000000" "0 \<le> snd b" "snd b < 1000000"
  shows "timer_less a b \<longleftrightarrow> fst a * 1000000 + snd a < fst b * 1000000 + snd b"
  using assms by (auto simp: timer_less_def)

lemma timeradd_usecs: "fst (timeradd a b) * 1000000 + snd (timeradd a b)
    = (fst a * 1000000 + snd a) + (fst b * 1000000 + snd b)"
  by (simp add: timeradd_def Let_def algebra_simps)

lemma timeradd_range:
  assumes "0 \<le> snd a" "snd a < 1000000" "0 \<le> snd b" "snd b < 1000000"
  shows "0 \<le> snd (timeradd a b)" "snd (timeradd a b) < 1000000"
  using assms by (auto simp: timeradd_def Let_def)

lemma uint_diff_le: "(b :: u32) \<le> a \<Longrightarrow> uint (a - b) = uint a - uint b"
  by (simp add: uint_sub_if' word_le_def)

text \<open>
  A timer started with a timeout is expired at a later reading exactly when at least
  that many microseconds have passed, provided the stop time fits the 32-bit field that
  keeps its seconds.
\<close>

theorem osal_timer_correct:
  assumes start: "osal_timer_start timeout c = (timer, c')"
    and range: "0 \<le> fst (mclock c (mtick c))" "0 \<le> snd (mclock c (mtick c))"
      "snd (mclock c (mtick c)) < 1000000000"
    and fits: "fst (mclock c (mtick c)) + 4296 < 2 ^ 32"
    and now: "0 \<le> snd (mclock d (mtick d))" "snd (mclock d (mtick d)) < 1000000000"
  shows "fst (osal_timer_is_expired timer d) \<longleftrightarrow>
    fst (mclock c (mtick c)) * 1000000 + snd (mclock c (mtick c)) div 1000 + uint timeout
      \<le> fst (mclock d (mtick d)) * 1000000 + snd (mclock d (mtick d)) div 1000"
proof -
  let ?s = "(fst (mclock c (mtick c)), snd (mclock c (mtick c)) div 1000)"
  let ?t = "(uint timeout div 1000000, uint timeout mod 1000000)"
  let ?n = "(fst (mclock d (mtick d)), snd (mclock d (mtick d)) div 1000)"
  have to: "uint timeout < 2 ^ 32" using uint_lt2p [of timeout] by simp
  have r: "0 \<le> snd (timeradd ?s ?t)" "snd (timeradd ?s ?t) < 1000000"
    using timeradd_range [of ?s ?t] range by simp_all
  have "fst (timeradd ?s ?t) \<le> fst ?s + 4296"
  proof -
    have "uint timeout div 1000000 \<le> 4294" using to by simp
    then show ?thesis by (simp add: timeradd_def Let_def)
  qed
  moreover have "0 \<le> fst (timeradd ?s ?t)"
    using range(1) pos_imp_zdiv_nonneg_iff [of 1000000 "uint timeout"]
    by (simp add: timeradd_def Let_def)
  moreover have timer: "timer = \<lparr>t_sec = word_of_int (fst (timeradd ?s ?t)), t_usec = word_of_int (snd (timeradd ?s ?t))\<rparr>"
    using start by (simp add: osal_timer_start_def osal_getrelativetime_def Let_def USECS_PER_SEC_def)
  ultimately have "uint (t_sec timer) = fst (timeradd ?s ?t)"
      "uint (t_usec timer) = snd (timeradd ?s ?t)"
    using fits r unfolding timer by (simp_all add: uint_word_of_int mod_pos_pos_trivial)
  then have "fst (osal_timer_is_expired timer d) \<longleftrightarrow> \<not> timer_less ?n (timeradd ?s ?t)"
    by (simp add: osal_timer_is_expired_def osal_getrelativetime_def Let_def)
  also have "\<dots> \<longleftrightarrow> fst (timeradd ?s ?t) * 1000000 + snd (timeradd ?s ?t) \<le> fst ?n * 1000000 + snd ?n"
    using timer_less_usecs [of ?n "timeradd ?s ?t"] r now by (simp add: not_less)
  also have "fst (timeradd ?s ?t) * 1000000 + snd (timeradd ?s ?t)
      = fst ?s * 1000000 + snd ?s + uint timeout"
    by (simp add: timeradd_usecs)
  finally show ?thesis by simp
qed

definition demo_clock :: osal_clock where
  "demo_clock = \<lparr>mclock = (\<lambda>n. (int n, 0)), mtick = 5, rclock = (\<lambda>n. (int n, 0)), rtick = 0\<rparr>"

theorem osal_timer_correct_witness:
  "fst (osal_timer_is_expired (fst (osal_timer_start 2000 demo_clock)) (demo_clock\<lparr>mtick := 6\<rparr>))"
  using osal_timer_correct [of 2000 demo_clock "fst (osal_timer_start 2000 demo_clock)"
      "snd (osal_timer_start 2000 demo_clock)" "demo_clock\<lparr>mtick := 6\<rparr>"]
  by (simp add: demo_clock_def)

text \<open>
  The difference of two time stamps, the later one given as the end, is the number of
  microseconds between them, again with microseconds below a second.
\<close>

theorem osal_time_diff_correct:
  assumes "wf_time start" "wf_time end'" "usecs start \<le> usecs end'"
  shows "usecs (osal_time_diff start end') = usecs end' - usecs start
    \<and> wf_time (osal_time_diff start end')"
proof (cases "t_usec end' < t_usec start")
  case True
  have u: "uint (t_usec end') < uint (t_usec start)" using True by (simp add: word_less_def)
  then have s: "uint (t_sec start) < uint (t_sec end')"
    using assms by (simp add: usecs_def wf_time_def)
  have "uint (t_sec end' - t_sec start - 1) = uint (t_sec end') - uint (t_sec start) - 1"
    using s uint_lt2p [of "t_sec end'"] uint_ge_0 [of "t_sec start"]
    by (simp add: uint_word_ariths mod_simps) (rule mod_pos_pos_trivial;
        use uint_ge_0 [of "t_sec start"] in linarith)
  moreover have "uint (t_usec end' + 1000000 - t_usec start)
      = uint (t_usec end') + 1000000 - uint (t_usec start)"
    using u assms uint_ge_0 [of "t_usec end'"]
    by (simp add: uint_word_ariths wf_time_def mod_simps) (rule mod_pos_pos_trivial;
        use uint_ge_0 [of "t_usec end'"] in linarith)
  ultimately show ?thesis
    using True u assms by (simp add: osal_time_diff_def usecs_def wf_time_def)
next
  case False
  then have u: "uint (t_usec start) \<le> uint (t_usec end')" by (simp add: word_less_def)
  have s: "uint (t_sec start) \<le> uint (t_sec end')"
  proof (rule ccontr)
    assume "\<not> ?thesis"
    then have "uint (t_sec end') + 1 \<le> uint (t_sec start)" by simp
    with assms show False
      using uint_ge_0 [of "t_usec start"] unfolding usecs_def wf_time_def by linarith
  qed
  have "uint (t_sec end' - t_sec start) = uint (t_sec end') - uint (t_sec start)"
    using s by (intro uint_diff_le) (simp add: word_le_def)
  moreover have "uint (t_usec end' - t_usec start) = uint (t_usec end') - uint (t_usec start)"
    using u by (intro uint_diff_le) (simp add: word_le_def)
  ultimately show ?thesis
    using False u assms
    by (simp add: osal_time_diff_def usecs_def wf_time_def)
      (use uint_ge_0 [of "t_usec start"] in linarith)
qed

theorem osal_time_diff_correct_witness:
  "usecs (osal_time_diff \<lparr>t_sec = 3, t_usec = 900000\<rparr> \<lparr>t_sec = 5, t_usec = 100000\<rparr>) = 1200000"
  using osal_time_diff_correct [of "\<lparr>t_sec = 3, t_usec = 900000\<rparr>" "\<lparr>t_sec = 5, t_usec = 100000\<rparr>"]
  by (simp add: usecs_def wf_time_def)

end
