(* ===== verification/Nicdrv.thy ===== *)
theory Nicdrv
  imports Osal
begin

text \<open>
  The raw-socket driver \<^verbatim>\<open>oshw/linux/nicdrv.c\<close> and its data, \<^verbatim>\<open>nicdrv.h\<close>: frame
  buffers with an index, the life cycle of an index, sending, receiving and matching
  frames, the redundant second port, and the blocking send-and-confirm.

  The sockets belong to the operating system and are parameters of the state:
  \<open>rxscript\<close> is what the next calls of \<^verbatim>\<open>recv\<close> on the socket deliver (\<open>None\<close> for
  the result \<open>-1\<close>), \<open>sndscript\<close> what the next calls of \<^verbatim>\<open>send\<close> return
  (\<open>None\<close>: the whole frame is sent). \<open>txlog\<close> is a ghost: the frames handed to \<^verbatim>\<open>send\<close>, with the number of the stack. The mutexes of the
  port have no counterpart: every operation here is one critical section.
\<close>

section \<open>Constants and data\<close>

abbreviation EC_NOFRAME :: int where "EC_NOFRAME \<equiv> -1"
abbreviation EC_OTHERFRAME :: int where "EC_OTHERFRAME \<equiv> -2"
abbreviation EC_TIMEOUT :: int where "EC_TIMEOUT \<equiv> -5"
abbreviation EC_TIMEOUTRET :: int where "EC_TIMEOUTRET \<equiv> 2000"
abbreviation EC_TIMEOUTRET3 :: int where "EC_TIMEOUTRET3 \<equiv> 6000"
abbreviation EC_MAXBUF :: nat where "EC_MAXBUF \<equiv> 16"
abbreviation EC_BUFSIZE :: nat where "EC_BUFSIZE \<equiv> 1518"
abbreviation ETH_HEADERSIZE :: nat where "ETH_HEADERSIZE \<equiv> 14"
abbreviation EC_HEADERSIZE :: nat where "EC_HEADERSIZE \<equiv> 12"
abbreviation EC_WKCSIZE :: nat where "EC_WKCSIZE \<equiv> 2"
abbreviation EC_ELENGTHSIZE :: nat where "EC_ELENGTHSIZE \<equiv> 2"
abbreviation EC_CMDOFFSET :: nat where "EC_CMDOFFSET \<equiv> 2"
abbreviation ETH_P_ECAT :: u16 where "ETH_P_ECAT \<equiv> 0x88A4"
abbreviation RX_PRIM :: int where "RX_PRIM \<equiv> 0x0101"
abbreviation RX_SEC :: int where "RX_SEC \<equiv> 0x0404"
abbreviation priMAC :: u16 where "priMAC \<equiv> 0x0101"
abbreviation secMAC :: u16 where "secMAC \<equiv> 0x0404"

datatype ec_bufstate = EC_BUF_EMPTY | EC_BUF_ALLOC | EC_BUF_TX | EC_BUF_RCVD | EC_BUF_COMPLETE

text \<open>The numeric values of the states give the order in which a frame goes through them.\<close>

primrec bufstate_val :: "ec_bufstate \<Rightarrow> nat" where
  "bufstate_val EC_BUF_EMPTY = 0"
| "bufstate_val EC_BUF_ALLOC = 1"
| "bufstate_val EC_BUF_TX = 2"
| "bufstate_val EC_BUF_RCVD = 3"
| "bufstate_val EC_BUF_COMPLETE = 4"

lemma bufstate_val_inj: "bufstate_val a = bufstate_val b \<Longrightarrow> a = b"
  by (cases a; cases b) simp_all

instantiation ec_bufstate :: linorder
begin

definition less_eq_ec_bufstate :: "ec_bufstate \<Rightarrow> ec_bufstate \<Rightarrow> bool" where
  "less_eq_ec_bufstate a b \<longleftrightarrow> bufstate_val a \<le> bufstate_val b"

definition less_ec_bufstate :: "ec_bufstate \<Rightarrow> ec_bufstate \<Rightarrow> bool" where
  "less_ec_bufstate a b \<longleftrightarrow> bufstate_val a < bufstate_val b"

instance
  by standard (auto simp: less_eq_ec_bufstate_def less_ec_bufstate_def dest: bufstate_val_inj)

end

datatype ec_redstate = ECT_RED_NONE | ECT_RED_DOUBLE

text \<open>
  The receive side of a port, \<^verbatim>\<open>ec_stackT\<close> with the arrays it points to. The transmit
  buffers are shared between the two stacks and stay in the port.
\<close>

record ec_stack =
  sock :: int
  rxbuf :: "nat \<Rightarrow> buf"
  rxbufstat :: "nat \<Rightarrow> ec_bufstate"
  rxsa :: "nat \<Rightarrow> int"
  tempinbuf :: buf
  rxscript :: "u8 list option script"
  sndscript :: "int option script"

record ecx_port =
  prim :: ec_stack
  redport :: "ec_stack option"
  tempinbufs :: int
  txbuf :: "nat \<Rightarrow> buf"
  txbuflength :: "nat \<Rightarrow> int"
  txbuf2 :: buf
  txbuflength2 :: int
  lastidx :: u8
  redstate :: ec_redstate
  osclock :: osal_clock
  txlog :: "(nat \<times> u8 list) list"

text \<open>The stack selected by \<^verbatim>\<open>stacknumber\<close>; the secondary one may be a null pointer.\<close>

definition get_stack :: "nat \<Rightarrow> ecx_port \<Rightarrow> ec_stack option" where
  "get_stack n p = (if n = 0 then Some (prim p) else redport p)"

definition put_stack :: "nat \<Rightarrow> ec_stack \<Rightarrow> ecx_port \<Rightarrow> ecx_port" where
  "put_stack n st p = (if n = 0 then p\<lparr>prim := st\<rparr> else p\<lparr>redport := Some st\<rparr>)"

definition set_stat :: "nat \<Rightarrow> ec_bufstate \<Rightarrow> ec_stack \<Rightarrow> ec_stack" where
  "set_stat i s st = st\<lparr>rxbufstat := (rxbufstat st)(i := s)\<rparr>"

section \<open>Setting up the port\<close>

definition ecx_clear_rxbufstat :: "ec_stack \<Rightarrow> ec_stack" where
  "ecx_clear_rxbufstat st =
     st\<lparr>rxbufstat := (\<lambda>i. if i < EC_MAXBUF then EC_BUF_EMPTY else rxbufstat st i)\<rparr>"

text \<open>\<^verbatim>\<open>da0..da2\<close>, \<^verbatim>\<open>sa0..sa2\<close> and the EtherType, at offsets 0, 6 and 12.\<close>

definition ec_setupheader :: "buf \<Rightarrow> buf" where
  "ec_setupheader b =
     put16be (put16be (put16be (put16be (put16be (put16be (put16be b
       0 0xffff) 2 0xffff) 4 0xffff) 6 priMAC) 8 priMAC) 10 priMAC) 12 ETH_P_ECAT"

text \<open>
  \<^verbatim>\<open>fd\<close> and \<^verbatim>\<open>bound\<close> are what \<^verbatim>\<open>socket\<close> and \<^verbatim>\<open>bind\<close> return; the options and ioctls set
  on the socket in between leave the port alone.
\<close>

definition ecx_setupnic :: "int \<Rightarrow> int \<Rightarrow> bool \<Rightarrow> ecx_port \<Rightarrow> int \<times> ecx_port" where
  "ecx_setupnic fd bound secondary p =
     (let headers = (\<lambda>q. q\<lparr>txbuf := (\<lambda>i. if i < EC_MAXBUF then ec_setupheader (txbuf q i) else txbuf q i),
                           prim := ecx_clear_rxbufstat (prim q),
                           txbuf2 := ec_setupheader (txbuf2 q)\<rparr>);
          rval = (if bound = 0 then 1 else 0)
      in if secondary then
           (case redport p of
              None \<Rightarrow> (0, p)
            | Some rp \<Rightarrow> (rval, headers (p\<lparr>redstate := ECT_RED_DOUBLE,
                                        redport := Some (ecx_clear_rxbufstat (rp\<lparr>sock := fd\<rparr>))\<rparr>)))
         else
           (rval, headers (p\<lparr>lastidx := 0, redstate := ECT_RED_NONE,
                             prim := ecx_clear_rxbufstat ((prim p)\<lparr>sock := fd\<rparr>)\<rparr>)))"

section \<open>Frame indices\<close>

definition next_idx :: "u8 \<Rightarrow> u8" where
  "next_idx i = (let j = i + 1 in if unat j \<ge> EC_MAXBUF then 0 else j)"

text \<open>\<^verbatim>\<open>while ((rxbufstat[idx] != EC_BUF_EMPTY) && (cnt < EC_MAXBUF))\<close>; the counter runs down.\<close>

primrec getindex_scan :: "nat \<Rightarrow> (nat \<Rightarrow> ec_bufstate) \<Rightarrow> u8 \<Rightarrow> u8" where
  "getindex_scan 0 stat idx = idx"
| "getindex_scan (Suc left) stat idx =
     (if stat (unat idx) \<noteq> EC_BUF_EMPTY then getindex_scan left stat (next_idx idx) else idx)"

definition ecx_setbufstat :: "u8 \<Rightarrow> ec_bufstate \<Rightarrow> ecx_port \<Rightarrow> ecx_port option" where
  "ecx_setbufstat idx bufstat p = do {
     chk (unat idx < EC_MAXBUF);
     let p = p\<lparr>prim := set_stat (unat idx) bufstat (prim p)\<rparr>;
     if redstate p \<noteq> ECT_RED_NONE then do {
       rp \<leftarrow> redport p;
       Some (p\<lparr>redport := Some (set_stat (unat idx) bufstat rp)\<rparr>)
     } else Some p
   }"

definition ecx_getindex :: "ecx_port \<Rightarrow> (u8 \<times> ecx_port) option" where
  "ecx_getindex p = do {
     let idx = getindex_scan EC_MAXBUF (rxbufstat (prim p)) (next_idx (lastidx p));
     p \<leftarrow> ecx_setbufstat idx EC_BUF_ALLOC p;
     Some (idx, p\<lparr>lastidx := idx\<rparr>)
   }"

section \<open>Sending\<close>

definition sock_send :: "ec_stack \<Rightarrow> int \<Rightarrow> int \<times> ec_stack" where
  "sock_send st lp =
     (case sndscript st 0 of None \<Rightarrow> lp | Some r \<Rightarrow> r, st\<lparr>sndscript := script_tl (sndscript st)\<rparr>)"

definition ecx_outframe :: "u8 \<Rightarrow> nat \<Rightarrow> ecx_port \<Rightarrow> (int \<times> ecx_port) option" where
  "ecx_outframe idx stacknumber p = do {
     st \<leftarrow> get_stack stacknumber p;
     chk (unat idx < EC_MAXBUF);
     let lp = txbuflength p (unat idx);
     chk (0 \<le> lp \<and> lp \<le> int EC_BUFSIZE);
     let (rval, st) = sock_send (set_stat (unat idx) EC_BUF_TX st) lp;
     let st = (if rval = -1 then set_stat (unat idx) EC_BUF_EMPTY st else st);
     Some (rval, (put_stack stacknumber st p)
       \<lparr>txlog := txlog p @ [(stacknumber, slice (txbuf p (unat idx)) 0 (nat lp))]\<rparr>)
   }"

definition ecx_outframe_red :: "u8 \<Rightarrow> ecx_port \<Rightarrow> (int \<times> ecx_port) option" where
  "ecx_outframe_red idx p = do {
     chk (unat idx < EC_MAXBUF);
     let p = p\<lparr>txbuf := (txbuf p)(unat idx := put16be (txbuf p (unat idx)) 8 priMAC)\<rparr>;
     (rval, p) \<leftarrow> ecx_outframe idx 0 p;
     if redstate p \<noteq> ECT_RED_NONE then do {
       rp \<leftarrow> redport p;
       let p = p\<lparr>txbuf2 := put16be ((txbuf2 p)(ETH_HEADERSIZE + 3 := idx)) 8 secMAC\<rparr>;
       let lp = txbuflength2 p;
       chk (0 \<le> lp \<and> lp \<le> int EC_BUFSIZE);
       let (r2, rp) = sock_send (set_stat (unat idx) EC_BUF_TX rp) lp;
       let rp = (if r2 = -1 then set_stat (unat idx) EC_BUF_EMPTY rp else rp);
       Some (rval, p\<lparr>redport := Some rp,
                     txlog := txlog p @ [(1, slice (txbuf2 p) 0 (nat lp))]\<rparr>)
     } else Some (rval, p)
   }"

section \<open>Receiving\<close>

definition sock_recv :: "ec_stack \<Rightarrow> int \<times> ec_stack" where
  "sock_recv st =
     (let st' = st\<lparr>rxscript := script_tl (rxscript st)\<rparr>
      in case rxscript st 0 of
           None \<Rightarrow> (-1, st')
         | Some bs \<Rightarrow>
             (let bs = take EC_BUFSIZE bs
              in (int (length bs), st'\<lparr>tempinbuf := blit_list (tempinbuf st) 0 bs\<rparr>)))"

definition ecx_recvpkt :: "nat \<Rightarrow> ecx_port \<Rightarrow> (bool \<times> ecx_port) option" where
  "ecx_recvpkt stacknumber p = do {
     st \<leftarrow> get_stack stacknumber p;
     let (bytesrx, st) = sock_recv st;
     Some (bytesrx > 0, (put_stack stacknumber st p)\<lparr>tempinbufs := bytesrx\<rparr>)
   }"

text \<open>The work counter behind the datagrams of a frame, \<^verbatim>\<open>b[l] + (b[l + 1] << 8)\<close>.\<close>

definition wkc_at :: "buf \<Rightarrow> nat \<Rightarrow> int" where
  "wkc_at b l = uint (b l) + 256 * uint (b (l + 1))"

text \<open>The length field of the EtherCAT header, 12 bits.\<close>

definition frame_len :: "buf \<Rightarrow> nat \<Rightarrow> nat" where
  "frame_len b off = unat (get16 b off AND 0x0fff)"

text \<open>\<^verbatim>\<open>memcpy(rxbuf[i], &tempbuf[ETH_HEADERSIZE], txbuflength[i] - ETH_HEADERSIZE)\<close>\<close>

definition strip_copy :: "buf \<Rightarrow> buf \<Rightarrow> int \<Rightarrow> buf option" where
  "strip_copy rx temp len = do {
     chk (int ETH_HEADERSIZE \<le> len \<and> len \<le> int EC_BUFSIZE);
     Some (blit rx 0 temp ETH_HEADERSIZE (nat len - ETH_HEADERSIZE))
   }"

definition store_rx :: "nat \<Rightarrow> buf \<Rightarrow> ec_bufstate \<Rightarrow> ec_stack \<Rightarrow> ec_stack" where
  "store_rx i b s st = st\<lparr>rxbuf := (rxbuf st)(i := b), rxbufstat := (rxbufstat st)(i := s),
                          rxsa := (rxsa st)(i := uint (get16be (tempinbuf st) 8))\<rparr>"

definition ecx_inframe :: "u8 \<Rightarrow> nat \<Rightarrow> ecx_port \<Rightarrow> (int \<times> ecx_port) option" where
  "ecx_inframe idx stacknumber p = do {
     st \<leftarrow> get_stack stacknumber p;
     let i = unat idx;
     if i < EC_MAXBUF \<and> rxbufstat st i = EC_BUF_RCVD then do {
       let l = frame_len (rxbuf st i) 0;
       chk (l + 1 < EC_BUFSIZE);
       Some (wkc_at (rxbuf st i) l, put_stack stacknumber (set_stat i EC_BUF_COMPLETE st) p)
     } else do {
       (got, p) \<leftarrow> ecx_recvpkt stacknumber p;
       if \<not> got then Some (EC_NOFRAME, p)
       else do {
         st \<leftarrow> get_stack stacknumber p;
         let temp = tempinbuf st;
         if get16be temp 12 \<noteq> ETH_P_ECAT then Some (EC_OTHERFRAME, p)
         else do {
           let l = frame_len temp ETH_HEADERSIZE;
           let idxf = temp (ETH_HEADERSIZE + 3);
           if idxf = idx then do {
             chk (i < EC_MAXBUF);
             b \<leftarrow> strip_copy (rxbuf st i) temp (txbuflength p i);
             chk (l + 1 < EC_BUFSIZE);
             Some (wkc_at b l, put_stack stacknumber (store_rx i b EC_BUF_COMPLETE st) p)
           }
           else if unat idxf < EC_MAXBUF \<and> rxbufstat st (unat idxf) = EC_BUF_TX then do {
             b \<leftarrow> strip_copy (rxbuf st (unat idxf)) temp (txbuflength p (unat idxf));
             Some (EC_OTHERFRAME, put_stack stacknumber (store_rx (unat idxf) b EC_BUF_RCVD st) p)
           }
           else Some (EC_OTHERFRAME, p)
         }
       }
     }
   }"

section \<open>Waiting\<close>

definition port_timer_start :: "int \<Rightarrow> ecx_port \<Rightarrow> ec_timet \<times> ecx_port" where
  "port_timer_start timeout p =
     (let (t, c) = osal_timer_start (word_of_int timeout) (osclock p) in (t, p\<lparr>osclock := c\<rparr>))"

text \<open>The condition \<^verbatim>\<open>c && !osal_timer_is_expired(timer)\<close> at the end of a loop.\<close>

definition poll_again :: "bool \<Rightarrow> ec_timet \<Rightarrow> ecx_port \<Rightarrow> bool \<times> ecx_port" where
  "poll_again c timer p =
     (if c then (let (e, k) = osal_timer_is_expired timer (osclock p) in (\<not> e, p\<lparr>osclock := k\<rparr>))
      else (False, p))"

definition copy_red_rx :: "nat \<Rightarrow> ecx_port \<Rightarrow> ecx_port option" where
  "copy_red_rx i p = do {
     rp \<leftarrow> redport p;
     chk (int ETH_HEADERSIZE \<le> txbuflength p i \<and> txbuflength p i \<le> int EC_BUFSIZE + int ETH_HEADERSIZE);
     Some (p\<lparr>prim := (prim p)\<lparr>rxbuf := (rxbuf (prim p))
       (i := blit (rxbuf (prim p) i) 0 (rxbuf rp i) 0 (nat (txbuflength p i) - ETH_HEADERSIZE))\<rparr>\<rparr>)
   }"

text \<open>The body of the loop that waits for the primary and the secondary frame.\<close>

definition wait_both :: "u8 \<Rightarrow> ec_timet \<Rightarrow> int \<times> int \<times> ecx_port \<Rightarrow> ((int \<times> int \<times> ecx_port) \<times> bool) option" where
  "wait_both idx timer = (\<lambda>(wkc, wkc2, p). do {
     (wkc, p) \<leftarrow> (if wkc \<le> EC_NOFRAME then ecx_inframe idx 0 p else Some (wkc, p));
     (wkc2, p) \<leftarrow> (if redstate p \<noteq> ECT_RED_NONE \<and> wkc2 \<le> EC_NOFRAME
                   then ecx_inframe idx 1 p else Some (wkc2, p));
     let (again, p) = poll_again (wkc \<le> EC_NOFRAME \<or> wkc2 \<le> EC_NOFRAME) timer p;
     Some ((wkc, wkc2, p), again)
   })"

text \<open>The body of the loop that waits for the frame resent over the secondary socket.\<close>

definition wait_second :: "u8 \<Rightarrow> ec_timet \<Rightarrow> int \<times> ecx_port \<Rightarrow> ((int \<times> ecx_port) \<times> bool) option" where
  "wait_second idx timer = (\<lambda>(_, p). do {
     (wkc2, p) \<leftarrow> ecx_inframe idx 1 p;
     let (again, p) = poll_again (wkc2 \<le> EC_NOFRAME) timer p;
     Some ((wkc2, p), again)
   })"

text \<open>The transmit buffer is resent over the secondary socket and waited for.\<close>

definition red_resend :: "u8 \<Rightarrow> int \<Rightarrow> int \<Rightarrow> ecx_port \<Rightarrow> (int \<times> ecx_port) option" where
  "red_resend idx wkc wkc2 p = do {
     let (timer2, p) = port_timer_start EC_TIMEOUTRET p;
     (_, p) \<leftarrow> ecx_outframe idx 1 p;
     (wkc2, p) \<leftarrow> do_while (wait_second idx timer2) (wkc2, p);
     if wkc2 > EC_NOFRAME then do { p \<leftarrow> copy_red_rx (unat idx) p; Some (wkc2, p) } else Some (wkc, p)
   }"

text \<open>The decision tree of the redundant mode, after both sockets have been waited for.\<close>

definition red_decide :: "u8 \<Rightarrow> int \<Rightarrow> int \<Rightarrow> ecx_port \<Rightarrow> (int \<times> ecx_port) option" where
  "red_decide idx wkc wkc2 p = do {
     rp \<leftarrow> redport p;
     let i = unat idx;
     let primrx = (if wkc > EC_NOFRAME then rxsa (prim p) i else 0);
     let secrx = (if wkc2 > EC_NOFRAME then rxsa rp i else 0);
     (wkc, p) \<leftarrow> (if primrx = RX_SEC \<and> secrx = RX_PRIM
                   then do { p \<leftarrow> copy_red_rx i p; Some (wkc2, p) } else Some (wkc, p));
     if primrx = 0 \<and> secrx = RX_SEC \<or> primrx = RX_PRIM \<and> secrx = RX_SEC then do {
       p \<leftarrow> (if primrx = RX_PRIM \<and> secrx = RX_SEC then do {
               chk (int ETH_HEADERSIZE \<le> txbuflength p i \<and> txbuflength p i \<le> int EC_BUFSIZE);
               Some (p\<lparr>txbuf := (txbuf p)(i := blit (txbuf p i) ETH_HEADERSIZE (rxbuf (prim p) i) 0
                                                  (nat (txbuflength p i) - ETH_HEADERSIZE))\<rparr>)
             } else Some p);
       red_resend idx wkc wkc2 p
     } else Some (wkc, p)
   }"

definition ecx_waitinframe_red :: "u8 \<Rightarrow> ec_timet \<Rightarrow> ecx_port \<Rightarrow> (int \<times> ecx_port) option" where
  "ecx_waitinframe_red idx timer p = do {
     let wkc2 = (if redstate p = ECT_RED_NONE then 0 else EC_NOFRAME);
     (wkc, wkc2, p) \<leftarrow> do_while (wait_both idx timer) (EC_NOFRAME, wkc2, p);
     if redstate p \<noteq> ECT_RED_NONE then red_decide idx wkc wkc2 p else Some (wkc, p)
   }"

definition ecx_waitinframe :: "u8 \<Rightarrow> int \<Rightarrow> ecx_port \<Rightarrow> (int \<times> ecx_port) option" where
  "ecx_waitinframe idx timeout p =
     (let (timer, p) = port_timer_start timeout p in ecx_waitinframe_red idx timer p)"

definition srconfirm_body :: "u8 \<Rightarrow> int \<Rightarrow> ec_timet \<Rightarrow> int \<times> ecx_port \<Rightarrow> ((int \<times> ecx_port) \<times> bool) option" where
  "srconfirm_body idx timeout timer1 = (\<lambda>(_, p). do {
     (_, p) \<leftarrow> ecx_outframe_red idx p;
     let (timer2, p) = port_timer_start (if timeout < EC_TIMEOUTRET then timeout else EC_TIMEOUTRET) p;
     (wkc, p) \<leftarrow> ecx_waitinframe_red idx timer2 p;
     let (again, p) = poll_again (wkc \<le> EC_NOFRAME) timer1 p;
     Some ((wkc, p), again)
   })"

definition ecx_srconfirm :: "u8 \<Rightarrow> int \<Rightarrow> ecx_port \<Rightarrow> (int \<times> ecx_port) option" where
  "ecx_srconfirm idx timeout p =
     (let (timer1, p) = port_timer_start timeout p
      in do_while (srconfirm_body idx timeout timer1) (EC_NOFRAME, p))"

section \<open>The invariant of the port\<close>

text \<open>
  What the driver relies on the network for: a frame that carries anything carries the
  EtherCAT header, and its length field keeps the work counter inside the buffer. The
  driver itself checks neither (see \<open>inframe_overlong_faults\<close>).
\<close>

definition frame_ok :: "u8 list \<Rightarrow> bool" where
  "frame_ok bs \<longleftrightarrow> bs = [] \<or> 16 \<le> length bs \<and> frame_len (list_buf bs) ETH_HEADERSIZE + 1 < EC_BUFSIZE"

definition stack_inv :: "(nat \<Rightarrow> int) \<Rightarrow> ec_stack \<Rightarrow> bool" where
  "stack_inv txl st \<longleftrightarrow>
     (\<forall>i<EC_MAXBUF. rxbufstat st i = EC_BUF_RCVD \<longrightarrow> frame_len (rxbuf st i) 0 + 1 < EC_BUFSIZE) \<and>
     (\<forall>i<EC_MAXBUF. rxbufstat st i = EC_BUF_TX \<longrightarrow> 16 \<le> txl i \<and> txl i \<le> int EC_BUFSIZE) \<and>
     (\<forall>bs. Some bs \<in> range (rxscript st) \<longrightarrow> frame_ok bs)"

definition red_ok :: "ecx_port \<Rightarrow> bool" where
  "red_ok p \<longleftrightarrow> (redstate p \<noteq> ECT_RED_NONE \<longrightarrow>
     redport p \<noteq> None \<and> 0 \<le> txbuflength2 p \<and> txbuflength2 p \<le> int EC_BUFSIZE)"

definition port_inv :: "ecx_port \<Rightarrow> bool" where
  "port_inv p \<longleftrightarrow> stack_inv (txbuflength p) (prim p) \<and>
     (\<forall>rp. redport p = Some rp \<longrightarrow> stack_inv (txbuflength p) rp) \<and>
     red_ok p \<and> clock_live (osclock p)"

text \<open>An index whose transmit buffer has been set up.\<close>

definition idx_ok :: "ecx_port \<Rightarrow> u8 \<Rightarrow> bool" where
  "idx_ok p idx \<longleftrightarrow> unat idx < EC_MAXBUF \<and> 16 \<le> txbuflength p (unat idx) \<and>
     txbuflength p (unat idx) \<le> int EC_BUFSIZE"

text \<open>
  How an operation on the frame \<open>idx\<close> may change the rest of the port: the transmit
  lengths and the mode stay, the clock runs, and of the other indices only one that waits
  for its frame changes, by receiving it.
\<close>

definition stat_step :: "u8 \<Rightarrow> ec_stack \<Rightarrow> ec_stack \<Rightarrow> bool" where
  "stat_step idx st st' \<longleftrightarrow> (\<forall>i. i \<noteq> unat idx \<longrightarrow> rxbufstat st' i = rxbufstat st i \<or>
     rxbufstat st i = EC_BUF_TX \<and> rxbufstat st' i = EC_BUF_RCVD)"

definition evolves :: "u8 \<Rightarrow> ecx_port \<Rightarrow> ecx_port \<Rightarrow> bool" where
  "evolves idx p p' \<longleftrightarrow> txbuflength p' = txbuflength p \<and> redstate p' = redstate p \<and>
     (redport p' = None \<longleftrightarrow> redport p = None) \<and> txbuflength2 p' = txbuflength2 p \<and>
     lastidx p' = lastidx p \<and> clock_left (osclock p') \<le> clock_left (osclock p) \<and>
     stat_step idx (prim p) (prim p')"

lemma stat_step_refl [simp, intro]: "stat_step idx st st"
  by (simp add: stat_step_def)

lemma stat_step_trans: "stat_step idx a b \<Longrightarrow> stat_step idx b c \<Longrightarrow> stat_step idx a c"
  unfolding stat_step_def by (metis ec_bufstate.distinct(13))

lemma evolves_refl [simp, intro]: "evolves idx p p"
  by (simp add: evolves_def)

lemma evolves_trans [trans]: "evolves idx a b \<Longrightarrow> evolves idx b c \<Longrightarrow> evolves idx a c"
  by (auto simp: evolves_def intro: stat_step_trans)

lemma evolves_idx_ok: "evolves idx p p' \<Longrightarrow> idx_ok p' j = idx_ok p j"
  by (simp add: evolves_def idx_ok_def)

lemma evolves_stat_mono:
  "evolves idx p p' \<Longrightarrow> i \<noteq> unat idx \<Longrightarrow> rxbufstat (prim p) i \<le> rxbufstat (prim p') i"
  by (force simp: evolves_def stat_step_def less_eq_ec_bufstate_def)

section \<open>Selecting a stack\<close>

lemma put_stack_simps [simp]:
  "txbuflength (put_stack n st p) = txbuflength p"
  "txbuf (put_stack n st p) = txbuf p"
  "txbuf2 (put_stack n st p) = txbuf2 p"
  "txbuflength2 (put_stack n st p) = txbuflength2 p"
  "lastidx (put_stack n st p) = lastidx p"
  "redstate (put_stack n st p) = redstate p"
  "osclock (put_stack n st p) = osclock p"
  "tempinbufs (put_stack n st p) = tempinbufs p"
  "txlog (put_stack n st p) = txlog p"
  "prim (put_stack n st p) = (if n = 0 then st else prim p)"
  "redport (put_stack n st p) = (if n = 0 then redport p else Some st)"
  "get_stack n (put_stack n st p) = Some st"
  by (simp_all add: put_stack_def get_stack_def)

lemma get_stack_tempinbufs [simp]: "get_stack n (p\<lparr>tempinbufs := x\<rparr>) = get_stack n p"
  by (simp add: get_stack_def)

lemma set_stat_simps [simp]:
  "rxbufstat (set_stat i s st) = (rxbufstat st)(i := s)"
  "rxbuf (set_stat i s st) = rxbuf st"
  "rxsa (set_stat i s st) = rxsa st"
  "rxscript (set_stat i s st) = rxscript st"
  "sndscript (set_stat i s st) = sndscript st"
  "tempinbuf (set_stat i s st) = tempinbuf st"
  by (simp_all add: set_stat_def)

lemma port_inv_stack:
  "port_inv p \<Longrightarrow> get_stack n p = Some st \<Longrightarrow> stack_inv (txbuflength p) st"
  by (auto simp: port_inv_def get_stack_def split: if_splits)

lemma port_inv_put_stack:
  "port_inv p \<Longrightarrow> n = 0 \<or> redport p \<noteq> None \<Longrightarrow> stack_inv (txbuflength p) st \<Longrightarrow>
     port_inv (put_stack n st p)"
  by (auto simp: port_inv_def red_ok_def)

lemma evolves_put_stack:
  "get_stack n p = Some st \<Longrightarrow> stat_step idx st st' \<Longrightarrow> evolves idx p (put_stack n st' p)"
  by (auto simp: evolves_def get_stack_def split: if_splits)

lemma get_stack_Some: "n = 0 \<or> redport p \<noteq> None \<Longrightarrow> \<exists>st. get_stack n p = Some st"
  by (auto simp: get_stack_def)

lemma stat_step_set_stat: "stat_step idx st (set_stat (unat idx) s st)"
  by (simp add: stat_step_def)

lemma stack_inv_set_stat:
  "stack_inv txl st \<Longrightarrow> (s = EC_BUF_TX \<Longrightarrow> 16 \<le> txl i \<and> txl i \<le> int EC_BUFSIZE) \<Longrightarrow> s \<noteq> EC_BUF_RCVD \<Longrightarrow>
     stack_inv txl (set_stat i s st)"
  by (auto simp: stack_inv_def)

section \<open>Receiving a frame\<close>

lemma frame_len_bound: "frame_len b off < 4096"
proof -
  have "get16 b off AND 0x0fff \<le> (0x0fff :: u16)"
    by (rule word_and_le1)
  then show ?thesis by (simp add: frame_len_def word_le_nat_alt)
qed

lemma frame_len_cong:
  "a i = b j \<Longrightarrow> a (i + 1) = b (j + 1) \<Longrightarrow> frame_len a i = frame_len b j"
  by (simp add: frame_len_def get16_def)

lemma wkc_at_bounds: "0 \<le> wkc_at b l" "wkc_at b l < 65536"
  using uint_lt2p [of "b l"] uint_lt2p [of "b (l + 1)"] by (simp_all add: wkc_at_def)

lemma sock_recv_inv:
  assumes "stack_inv txl st"
  shows "stack_inv txl (snd (sock_recv st))"
  using assms
  by (auto simp: sock_recv_def stack_inv_def Let_def split: list.splits option.splits)

lemma sock_recv_stat [simp]:
  "rxbufstat (snd (sock_recv st)) = rxbufstat st"
  "rxbuf (snd (sock_recv st)) = rxbuf st"
  "rxsa (snd (sock_recv st)) = rxsa st"
  "sndscript (snd (sock_recv st)) = sndscript st"
  by (simp_all add: sock_recv_def Let_def split: list.splits option.splits)

lemma sock_recv_frame_ok:
  assumes "stack_inv txl st" "fst (sock_recv st) > 0"
  shows "frame_len (tempinbuf (snd (sock_recv st))) ETH_HEADERSIZE + 1 < EC_BUFSIZE"
proof -
  from assms(2) obtain bs where s: "rxscript st 0 = Some bs" "bs \<noteq> []"
    by (auto simp: sock_recv_def Let_def split: option.splits)
  then have "Some bs \<in> range (rxscript st)" by (intro script_in_range [of _ 0]) simp
  with assms(1) s(2) have ok: "16 \<le> length bs" "frame_len (list_buf bs) ETH_HEADERSIZE + 1 < EC_BUFSIZE"
    by (auto simp: stack_inv_def frame_ok_def)
  have "frame_len (tempinbuf (snd (sock_recv st))) ETH_HEADERSIZE = frame_len (list_buf bs) ETH_HEADERSIZE"
    using s ok(1)
    by (intro frame_len_cong) (auto simp: sock_recv_def Let_def blit_list_def list_buf_def)
  with ok(2) show ?thesis by simp
qed

lemma strip_copy_ok:
  "16 \<le> len \<Longrightarrow> len \<le> int EC_BUFSIZE \<Longrightarrow> strip_copy rx temp len = Some b \<Longrightarrow>
     frame_len b 0 = frame_len temp ETH_HEADERSIZE"
  by (intro frame_len_cong) (auto simp: strip_copy_def blit_def Option.bind_eq_Some_conv)

lemma strip_copy_returns:
  "16 \<le> len \<Longrightarrow> len \<le> int EC_BUFSIZE \<Longrightarrow> \<exists>b. strip_copy rx temp len = Some b"
  by (simp add: strip_copy_def)

lemma store_rx_simps [simp]:
  "rxbufstat (store_rx i b s st) = (rxbufstat st)(i := s)"
  "rxbuf (store_rx i b s st) = (rxbuf st)(i := b)"
  "rxsa (store_rx i b s st) = (rxsa st)(i := uint (get16be (tempinbuf st) 8))"
  "rxscript (store_rx i b s st) = rxscript st"
  by (simp_all add: store_rx_def)

lemma stack_inv_store_rx:
  "stack_inv txl st \<Longrightarrow> s \<noteq> EC_BUF_TX \<Longrightarrow> frame_len b 0 + 1 < EC_BUFSIZE \<Longrightarrow> stack_inv txl (store_rx i b s st)"
  by (auto simp: stack_inv_def)

text \<open>The state after the socket has been read, before the frame is looked at.\<close>

lemma recvpkt_eq:
  "get_stack n p = Some st \<Longrightarrow> ecx_recvpkt n p =
     Some (fst (sock_recv st) > 0, (put_stack n (snd (sock_recv st)) p)\<lparr>tempinbufs := fst (sock_recv st)\<rparr>)"
  by (simp add: ecx_recvpkt_def split: prod.splits)

lemma put_stack_tempinbufs [simp]:
  "put_stack n st (p\<lparr>tempinbufs := x\<rparr>) = (put_stack n st p)\<lparr>tempinbufs := x\<rparr>"
  "put_stack n st (put_stack n st' p) = put_stack n st p"
  by (simp_all add: put_stack_def)

lemma port_inv_tempinbufs [simp]: "port_inv (p\<lparr>tempinbufs := x\<rparr>) = port_inv p"
  by (simp add: port_inv_def red_ok_def)

lemma evolves_tempinbufs [simp]: "evolves idx p (q\<lparr>tempinbufs := x\<rparr>) = evolves idx p q"
  by (simp add: evolves_def)

lemma stack_inv_recv: "port_inv p \<Longrightarrow> get_stack n p = Some st \<Longrightarrow> stack_inv (txbuflength p) (snd (sock_recv st))"
  by (rule sock_recv_inv, rule port_inv_stack)

lemma stat_step_recv: "stat_step idx st (snd (sock_recv st))"
  by (simp add: stat_step_def)

lemma stat_step_store_own:
  "stat_step idx st (store_rx (unat idx) b s (snd (sock_recv st)))"
  by (simp add: stat_step_def)

lemma stat_step_store_other:
  "rxbufstat st j = EC_BUF_TX \<Longrightarrow> stat_step idx st (store_rx j b EC_BUF_RCVD (snd (sock_recv st)))"
  by (simp add: stat_step_def)

text \<open>Every branch of the receive function that is taken after a frame has been read.\<close>

definition inframe_post :: "u8 \<Rightarrow> nat \<Rightarrow> ecx_port \<Rightarrow> int \<times> ecx_port \<Rightarrow> bool" where
  "inframe_post idx n p = (\<lambda>(w, p'). port_inv p' \<and> evolves idx p p' \<and> osclock p' = osclock p \<and>
     EC_OTHERFRAME \<le> w \<and> w < 65536 \<and> txlog p' = txlog p \<and> txbuf p' = txbuf p \<and>
     (n \<noteq> 0 \<longrightarrow> prim p' = prim p) \<and>
     (\<forall>st'. get_stack n p' = Some st' \<longrightarrow> rxbufstat st' (unat idx) \<noteq> EC_BUF_RCVD \<and>
        (0 \<le> w \<longrightarrow> rxbufstat st' (unat idx) = EC_BUF_COMPLETE)))"

lemma inframe_post_put:
  assumes "port_inv p" "get_stack n p = Some st" "stack_inv (txbuflength p) st'" "stat_step idx st st'"
    "EC_OTHERFRAME \<le> w" "w < 65536" "0 \<le> w \<Longrightarrow> rxbufstat st' (unat idx) = EC_BUF_COMPLETE"
    "rxbufstat st' (unat idx) \<noteq> EC_BUF_RCVD"
  shows "inframe_post idx n p (w, put_stack n st' p)"
  using assms port_inv_put_stack [of p n st'] evolves_put_stack [of n p st idx st']
  by (auto simp: inframe_post_def get_stack_def split: if_splits)

lemma inframe_post_tempinbufs [simp]:
  "inframe_post idx n p (w, q\<lparr>tempinbufs := x\<rparr>) = inframe_post idx n p (w, q)"
  by (simp add: inframe_post_def)

lemma inframe_returns:
  assumes inv: "port_inv p" and ok: "idx_ok p idx" and n: "n = 0 \<or> redport p \<noteq> None"
  shows "returns (ecx_inframe idx n p) (inframe_post idx n p)"
proof -
  obtain st where st: "get_stack n p = Some st" using get_stack_Some [OF n] by blast
  note sinv = port_inv_stack [OF inv st]
  let ?r = "snd (sock_recv st)"
  let ?f = "tempinbuf ?r (ETH_HEADERSIZE + 3)"
  note put = inframe_post_put [OF inv st, where idx = idx]
  have rinv: "stack_inv (txbuflength p) ?r" by (rule stack_inv_recv [OF inv st])
  have unread: "inframe_post idx n p (EC_NOFRAME, put_stack n ?r p)"
      "inframe_post idx n p (EC_OTHERFRAME, put_stack n ?r p)" if "rxbufstat st (unat idx) \<noteq> EC_BUF_RCVD"
    using that by (intro put rinv stat_step_recv; simp)+
  show ?thesis
  proof (cases "unat idx < EC_MAXBUF \<and> rxbufstat st (unat idx) = EC_BUF_RCVD")
    case True
    then have "frame_len (rxbuf st (unat idx)) 0 + 1 < EC_BUFSIZE"
      using sinv by (auto simp: stack_inv_def)
    moreover have "inframe_post idx n p (wkc_at b l, put_stack n (set_stat (unat idx) EC_BUF_COMPLETE st) p)" for b l
      using wkc_at_bounds [of b l] sinv
      by (intro put stack_inv_set_stat stat_step_set_stat) auto
    ultimately show ?thesis using True by (simp add: ecx_inframe_def st Let_def)
  next
    case notrcvd: False
    with ok have ne: "rxbufstat st (unat idx) \<noteq> EC_BUF_RCVD" by (simp add: idx_ok_def)
    note unread = unread [OF ne]
    show ?thesis
    proof (cases "fst (sock_recv st) > 0 \<and> get16be (tempinbuf ?r) 12 = ETH_P_ECAT")
      case False
      with notrcvd show ?thesis
        by (auto simp: ecx_inframe_def st Let_def recvpkt_eq [OF st] returns_if unread)
    next
      case True
      then have len: "frame_len (tempinbuf ?r) ETH_HEADERSIZE + 1 < EC_BUFSIZE"
        using sock_recv_frame_ok [OF sinv] by simp
      have own: "returns (strip_copy (rxbuf ?r (unat idx)) (tempinbuf ?r) (txbuflength p (unat idx)))
          (\<lambda>b. inframe_post idx n p (wkc_at b l, put_stack n (store_rx (unat idx) b EC_BUF_COMPLETE ?r) p))" for l
      proof -
        from ok obtain b where b: "strip_copy (rxbuf ?r (unat idx)) (tempinbuf ?r) (txbuflength p (unat idx)) = Some b"
          unfolding idx_ok_def using strip_copy_returns by blast
        with ok len have "frame_len b 0 + 1 < EC_BUFSIZE"
          using strip_copy_ok [OF _ _ b] by (simp add: idx_ok_def)
        then show ?thesis unfolding b
          using wkc_at_bounds [of b l]
          by (auto intro!: put stack_inv_store_rx rinv stat_step_store_own)
      qed
      have other: "returns (strip_copy (rxbuf ?r j) (tempinbuf ?r) (txbuflength p j))
          (\<lambda>b. inframe_post idx n p (EC_OTHERFRAME, put_stack n (store_rx j b EC_BUF_RCVD ?r) p))"
        if j: "j < EC_MAXBUF" "rxbufstat st j = EC_BUF_TX" "j \<noteq> unat idx" for j
      proof -
        from j sinv have jl: "16 \<le> txbuflength p j" "txbuflength p j \<le> int EC_BUFSIZE"
          by (auto simp: stack_inv_def)
        then obtain b where b: "strip_copy (rxbuf ?r j) (tempinbuf ?r) (txbuflength p j) = Some b"
          using strip_copy_returns by blast
        with jl len have "frame_len b 0 + 1 < EC_BUFSIZE"
          using strip_copy_ok [OF _ _ b] by simp
        then show ?thesis unfolding b using j ne
          by (auto intro!: put stack_inv_store_rx rinv stat_step_store_other)
      qed
      from ok have i: "unat idx < EC_MAXBUF" by (simp add: idx_ok_def)
      have "?f \<noteq> idx \<Longrightarrow> unat ?f \<noteq> unat idx"
        by (simp add: word_unat_eq_iff)
      with i ne True len own other unread show ?thesis
        by (simp add: ecx_inframe_def st Let_def recvpkt_eq [OF st] returns_if)
    qed
  qed
qed

section \<open>Timers and loops\<close>

lemma clock_left_start: "clock_left (snd (osal_timer_start t c)) \<le> clock_left c"
  by (simp add: clock_left_def clock_bound_cong [of "snd (osal_timer_start t c)" c])

lemma clock_left_expired: "clock_left (snd (osal_timer_is_expired t c)) \<le> clock_left c"
  by (simp add: clock_left_def clock_bound_cong [of "snd (osal_timer_is_expired t c)" c])

lemma port_inv_osclock:
  "port_inv p \<Longrightarrow> mclock c = mclock (osclock p) \<Longrightarrow> port_inv (p\<lparr>osclock := c\<rparr>)"
  by (simp add: port_inv_def red_ok_def clock_live_cong [of c "osclock p"])

lemma evolves_osclock:
  "clock_left c \<le> clock_left (osclock p) \<Longrightarrow> evolves idx p (p\<lparr>osclock := c\<rparr>)"
  by (simp add: evolves_def)

lemma port_timer_start_eq:
  "snd (port_timer_start t p) = p\<lparr>osclock := snd (osal_timer_start (word_of_int t) (osclock p))\<rparr>"
  by (simp add: port_timer_start_def split: prod.splits)

lemma poll_again_eq:
  "poll_again c t p = (if c then (\<not> fst (osal_timer_is_expired t (osclock p)),
     p\<lparr>osclock := snd (osal_timer_is_expired t (osclock p))\<rparr>) else (False, p))"
  by (simp add: poll_again_def split: prod.splits)

lemma port_timer_start_inv: "port_inv p \<Longrightarrow> port_inv (snd (port_timer_start t p))"
  by (simp add: port_timer_start_eq port_inv_osclock)

lemma port_timer_start_evolves: "evolves idx p (snd (port_timer_start t p))"
  by (simp add: port_timer_start_eq evolves_osclock clock_left_start)

lemma port_timer_start_simps [simp]:
  "prim (snd (port_timer_start t p)) = prim p"
  "redport (snd (port_timer_start t p)) = redport p"
  "redstate (snd (port_timer_start t p)) = redstate p"
  "txbuf (snd (port_timer_start t p)) = txbuf p"
  "txbuflength (snd (port_timer_start t p)) = txbuflength p"
  "txlog (snd (port_timer_start t p)) = txlog p"
  by (simp_all add: port_timer_start_def split: prod.splits)

lemma poll_again_inv: "port_inv p \<Longrightarrow> port_inv (snd (poll_again c t p))"
  by (simp add: poll_again_eq port_inv_osclock)

lemma poll_again_evolves: "evolves idx p (snd (poll_again c t p))"
  by (simp add: poll_again_eq evolves_osclock clock_left_expired)

lemma poll_again_simps [simp]:
  "prim (snd (poll_again c t p)) = prim p"
  "redport (snd (poll_again c t p)) = redport p"
  "redstate (snd (poll_again c t p)) = redstate p"
  "txbuf (snd (poll_again c t p)) = txbuf p"
  "txbuflength (snd (poll_again c t p)) = txbuflength p"
  "txlog (snd (poll_again c t p)) = txlog p"
  "poll_again False t p = (False, p)"
  by (simp_all add: poll_again_def split: prod.splits)

text \<open>A loop that polls a timer goes on only while the clock has readings to spend.\<close>

lemma poll_again_left:
  "port_inv p \<Longrightarrow> fst (poll_again c t p) \<Longrightarrow>
     clock_left (osclock (snd (poll_again c t p))) < clock_left (osclock p) \<and> c"
  using not_expired_left [of "osclock p" t]
  by (auto simp: poll_again_eq port_inv_def split: if_splits)

text \<open>
  The shape of every loop of the driver: the body does its work in a step that keeps the
  invariant, and goes on only after having polled the clock.
\<close>

lemma polling_loop:
  assumes start: "R s" "port_inv (port s)" "evolves idx p0 (port s)"
    and body: "\<And>s. R s \<Longrightarrow> port_inv (port s) \<Longrightarrow> evolves idx p0 (port s) \<Longrightarrow>
      returns (body s) (\<lambda>(s', again). port_inv (port s') \<and> evolves idx p0 (port s') \<and>
        (if again then R s' \<and> clock_left (osclock (port s')) < clock_left (osclock (port s)) else Q s'))"
  shows "returns (do_while body s) (\<lambda>s'. Q s' \<and> port_inv (port s') \<and> evolves idx p0 (port s'))"
proof (rule do_while_returns [where f = "\<lambda>s. clock_left (osclock (port s))"
      and P = "\<lambda>s. R s \<and> port_inv (port s) \<and> evolves idx p0 (port s)"])
  show "R s \<and> port_inv (port s) \<and> evolves idx p0 (port s)" using start by simp
next
  fix s assume "R s \<and> port_inv (port s) \<and> evolves idx p0 (port s)"
  then show "returns (body s) (\<lambda>(s', again).
      if again then (R s' \<and> port_inv (port s') \<and> evolves idx p0 (port s')) \<and>
        clock_left (osclock (port s')) < clock_left (osclock (port s))
      else Q s' \<and> port_inv (port s') \<and> evolves idx p0 (port s'))"
    using body [of s] by (auto elim!: returns_mono split: if_splits)
qed

section \<open>Every operation of the driver returns\<close>

lemma sock_send_inv: "stack_inv txl (snd (sock_send st l)) = stack_inv txl st"
  by (simp add: sock_send_def stack_inv_def split: list.splits)

lemma sock_send_simps [simp]:
  "rxbufstat (snd (sock_send st l)) = rxbufstat st"
  "rxbuf (snd (sock_send st l)) = rxbuf st"
  "rxsa (snd (sock_send st l)) = rxsa st"
  "rxscript (snd (sock_send st l)) = rxscript st"
  "tempinbuf (snd (sock_send st l)) = tempinbuf st"
  by (simp_all add: sock_send_def split: list.splits)

lemma port_inv_txlog [simp]:
  "port_inv (p\<lparr>txlog := x\<rparr>) = port_inv p"
  "port_inv (p\<lparr>txbuf := y\<rparr>) = port_inv p"
  "port_inv (p\<lparr>txbuf2 := z\<rparr>) = port_inv p"
  "port_inv (p\<lparr>lastidx := i\<rparr>) = port_inv p"
  by (simp_all add: port_inv_def red_ok_def)

lemma evolves_txlog [simp]:
  "evolves idx p (q\<lparr>txlog := x\<rparr>) = evolves idx p q"
  "evolves idx p (q\<lparr>txbuf := y\<rparr>) = evolves idx p q"
  "evolves idx p (q\<lparr>txbuf2 := z\<rparr>) = evolves idx p q"
  by (simp_all add: evolves_def)

lemma idx_ok_upd [simp]:
  "idx_ok (p\<lparr>txlog := x\<rparr>) i = idx_ok p i"
  "idx_ok (p\<lparr>txbuf := y\<rparr>) i = idx_ok p i"
  "idx_ok (put_stack n st p) i = idx_ok p i"
  by (simp_all add: idx_ok_def)

text \<open>The stack after the frame has been handed to \<^verbatim>\<open>send\<close>.\<close>

definition sent_stack :: "nat \<Rightarrow> int \<Rightarrow> ec_stack \<Rightarrow> ec_stack" where
  "sent_stack i lp st = (let (r, st') = sock_send (set_stat i EC_BUF_TX st) lp
     in if r = -1 then set_stat i EC_BUF_EMPTY st' else st')"

lemma sent_stack_eq:
  "sent_stack i lp st = (if fst (sock_send (set_stat i EC_BUF_TX st) lp) = -1
     then set_stat i EC_BUF_EMPTY (snd (sock_send (set_stat i EC_BUF_TX st) lp))
     else snd (sock_send (set_stat i EC_BUF_TX st) lp))"
  by (simp add: sent_stack_def case_prod_unfold)

lemma sent_stack_inv:
  "stack_inv txl st \<Longrightarrow> 16 \<le> txl i \<and> txl i \<le> int EC_BUFSIZE \<Longrightarrow> stack_inv txl (sent_stack i lp st)"
  by (auto simp: sent_stack_eq sock_send_inv intro!: stack_inv_set_stat)

lemma sent_stack_stat_step: "stat_step idx st (sent_stack (unat idx) lp st)"
  by (simp add: sent_stack_eq stat_step_def)

lemma sent_stack_rx [simp]:
  "rxbuf (sent_stack i lp st) = rxbuf st"
  "rxscript (sent_stack i lp st) = rxscript st"
  "rxsa (sent_stack i lp st) = rxsa st"
  "rxbufstat (sent_stack i lp st) i \<noteq> EC_BUF_RCVD"
  by (simp_all add: sent_stack_eq)

lemma outframe_eq:
  assumes "get_stack n p = Some st" "idx_ok p idx"
  shows "ecx_outframe idx n p = Some
    (fst (sock_send (set_stat (unat idx) EC_BUF_TX st) (txbuflength p (unat idx))),
     (put_stack n (sent_stack (unat idx) (txbuflength p (unat idx)) st) p)
       \<lparr>txlog := txlog p @ [(n, slice (txbuf p (unat idx)) 0 (nat (txbuflength p (unat idx))))]\<rparr>)"
  using assms by (auto simp: ecx_outframe_def idx_ok_def sent_stack_eq Let_def case_prod_unfold)

text \<open>What every blocking operation on the frame \<open>idx\<close> guarantees.\<close>

definition op_post :: "u8 \<Rightarrow> ecx_port \<Rightarrow> int \<times> ecx_port \<Rightarrow> bool" where
  "op_post idx p = (\<lambda>(w, p'). port_inv p' \<and> evolves idx p p')"

lemma outframe_returns:
  assumes inv: "port_inv p" and ok: "idx_ok p idx" and n: "n = 0 \<or> redport p \<noteq> None"
  shows "returns (ecx_outframe idx n p) (op_post idx p)"
proof -
  obtain st where st: "get_stack n p = Some st" using get_stack_Some [OF n] by blast
  let ?s = "sent_stack (unat idx) (txbuflength p (unat idx)) st"
  have "port_inv (put_stack n ?s p)"
    using port_inv_stack [OF inv st] ok by (intro port_inv_put_stack inv n sent_stack_inv) (auto simp: idx_ok_def)
  moreover have "evolves idx p (put_stack n ?s p)"
    by (intro evolves_put_stack [OF st] sent_stack_stat_step)
  ultimately show ?thesis by (simp add: outframe_eq [OF st ok] op_post_def)
qed

lemma port_inv_red:
  "port_inv p \<Longrightarrow> redstate p \<noteq> ECT_RED_NONE \<Longrightarrow> redport p \<noteq> None \<and> 0 \<le> txbuflength2 p \<and>
     txbuflength2 p \<le> int EC_BUFSIZE"
  by (auto simp: port_inv_def red_ok_def)

lemma port_inv_redport:
  "port_inv p \<Longrightarrow> redport p = Some rp \<Longrightarrow> stack_inv (txbuflength p) st \<Longrightarrow> port_inv (p\<lparr>redport := Some st\<rparr>)"
  by (auto simp: port_inv_def red_ok_def)

lemma outframe_red_returns:
  assumes inv: "port_inv p" and ok: "idx_ok p idx"
  shows "returns (ecx_outframe_red idx p) (op_post idx p)"
proof -
  let ?p0 = "p\<lparr>txbuf := (txbuf p)(unat idx := put16be (txbuf p (unat idx)) 8 priMAC)\<rparr>"
  have "returns (ecx_outframe idx 0 ?p0) (op_post idx ?p0)"
    using inv ok by (intro outframe_returns) simp_all
  then obtain r q where q: "ecx_outframe idx 0 ?p0 = Some (r, q)" "port_inv q" "evolves idx p q"
    by (auto simp: returns_iff op_post_def evolves_def)
  have i: "unat idx < EC_MAXBUF" using ok by (simp add: idx_ok_def)
  show ?thesis
  proof (cases "redstate q = ECT_RED_NONE")
    case True
    with q i show ?thesis by (simp add: ecx_outframe_red_def Let_def op_post_def)
  next
    case False
    with port_inv_red [OF q(2)] obtain rp where rp: "redport q = Some rp"
      "0 \<le> txbuflength2 q" "txbuflength2 q \<le> int EC_BUFSIZE" by auto
    have "stack_inv (txbuflength q) rp" using q(2) rp(1) by (simp add: port_inv_def)
    moreover have "idx_ok q idx" using ok evolves_idx_ok [OF q(3)] by simp
    ultimately have "port_inv (q\<lparr>txbuf2 := y, redport := Some (sent_stack (unat idx) (txbuflength2 q) rp)\<rparr>)" for y
      using q(2) rp(1)
      by (intro port_inv_redport [where rp = rp]) (auto simp: idx_ok_def intro!: sent_stack_inv)
    moreover have "evolves idx p (q\<lparr>txbuf2 := y, redport := Some x\<rparr>)" for x y
      using q(3) rp(1) by (simp add: evolves_def)
    ultimately show ?thesis
      using q(1) i False rp
      by (cases "fst (sock_send (set_stat (unat idx) EC_BUF_TX rp) (txbuflength2 q)) = -1")
        (simp_all add: ecx_outframe_red_def Let_def op_post_def sent_stack_eq case_prod_unfold)
  qed
qed

lemma evolves_red: "evolves idx p q \<Longrightarrow> redstate q = redstate p \<and> (redport q = None \<longleftrightarrow> redport p = None)"
  by (simp add: evolves_def)

lemma evolves_clock: "evolves idx p q \<Longrightarrow> clock_left (osclock q) \<le> clock_left (osclock p)"
  by (simp add: evolves_def)

text \<open>The primary buffer of \<open>idx\<close> does not hold a frame that nobody has asked for.\<close>

definition taken :: "u8 \<Rightarrow> ecx_port \<Rightarrow> bool" where
  "taken idx p \<longleftrightarrow> rxbufstat (prim p) (unat idx) \<noteq> EC_BUF_RCVD"

text \<open>One optional receive: skipped when its frame is already there.\<close>

lemma inframe_if_returns:
  assumes "port_inv p" "idx_ok p idx" "b \<Longrightarrow> n = 0 \<or> redport p \<noteq> None" "EC_OTHERFRAME \<le> w" "w < 65536"
  shows "returns (if b then ecx_inframe idx n p else Some (w, p))
    (\<lambda>(w', p'). port_inv p' \<and> evolves idx p p' \<and> EC_OTHERFRAME \<le> w' \<and> w' < 65536 \<and> (\<not> b \<longrightarrow> w' = w) \<and>
       (b \<and> n = 0 \<or> taken idx p \<longrightarrow> taken idx p'))"
proof (cases b)
  case True
  show ?thesis
    using True inframe_returns [OF assms(1,2) assms(3) [OF True]]
    by (auto simp: inframe_post_def taken_def get_stack_def elim!: returns_mono)
next
  case False
  with assms show ?thesis by simp
qed

definition wkcs_ok :: "u8 \<Rightarrow> int \<times> int \<times> ecx_port \<Rightarrow> bool" where
  "wkcs_ok idx = (\<lambda>(w, w2, p). EC_OTHERFRAME \<le> w \<and> w < 65536 \<and> EC_OTHERFRAME \<le> w2 \<and> w2 < 65536 \<and>
     (EC_NOFRAME < w \<longrightarrow> taken idx p))"

lemma wait_both_returns:
  assumes inv: "port_inv p" and ok: "idx_ok p idx" and w: "wkcs_ok idx (w, w2, p)"
  shows "returns (wait_both idx timer (w, w2, p)) (\<lambda>((w', w2', q), again).
    port_inv q \<and> evolves idx p q \<and> wkcs_ok idx (w', w2', q) \<and> taken idx q \<and>
    (again \<longrightarrow> clock_left (osclock q) < clock_left (osclock p)))"
proof -
  have "returns (if w \<le> EC_NOFRAME then ecx_inframe idx 0 p else Some (w, p))
      (\<lambda>(w', p'). port_inv p' \<and> evolves idx p p' \<and> EC_OTHERFRAME \<le> w' \<and> w' < 65536 \<and>
        (\<not> w \<le> EC_NOFRAME \<longrightarrow> w' = w) \<and> (w \<le> EC_NOFRAME \<and> (0::nat) = 0 \<or> taken idx p \<longrightarrow> taken idx p'))"
    using w by (intro inframe_if_returns inv ok) (auto simp: wkcs_ok_def)
  then obtain w1 p1 where 1: "(if w \<le> EC_NOFRAME then ecx_inframe idx 0 p else Some (w, p)) = Some (w1, p1)"
    "port_inv p1" "evolves idx p p1" "EC_OTHERFRAME \<le> w1" "w1 < 65536" "taken idx p1"
    using w unfolding returns_iff wkcs_ok_def by auto
  let ?b = "redstate p1 \<noteq> ECT_RED_NONE \<and> w2 \<le> EC_NOFRAME"
  have "returns (if ?b then ecx_inframe idx 1 p1 else Some (w2, p1))
      (\<lambda>(w', p'). port_inv p' \<and> evolves idx p1 p' \<and> EC_OTHERFRAME \<le> w' \<and> w' < 65536 \<and> (\<not> ?b \<longrightarrow> w' = w2) \<and>
        (?b \<and> (1::nat) = 0 \<or> taken idx p1 \<longrightarrow> taken idx p'))"
    using w port_inv_red [OF 1(2)] ok evolves_idx_ok [OF 1(3)]
    by (intro inframe_if_returns 1(2)) (auto simp: wkcs_ok_def)
  then obtain v p2 where 2: "(if ?b then ecx_inframe idx 1 p1 else Some (w2, p1)) = Some (v, p2)"
    "port_inv p2" "evolves idx p1 p2" "EC_OTHERFRAME \<le> v" "v < 65536" "taken idx p2"
    using 1(6) unfolding returns_iff by blast
  let ?q = "poll_again (w1 \<le> EC_NOFRAME \<or> v \<le> EC_NOFRAME) timer p2"
  have e: "evolves idx p p2" by (rule evolves_trans [OF 1(3) 2(3)])
  have "wait_both idx timer (w, w2, p) = Some ((w1, v, snd ?q), fst ?q)"
    by (simp only: wait_both_def 1(1) 2(1) Option.bind.bind_lunit prod.case case_prod_unfold
        Let_def fst_conv snd_conv)
  moreover have "evolves idx p (snd ?q)"
    by (rule evolves_trans [OF e poll_again_evolves])
  moreover have "fst ?q \<Longrightarrow> clock_left (osclock (snd ?q)) < clock_left (osclock p)"
    using poll_again_left [OF 2(2)] evolves_clock [OF e] by fastforce
  moreover have "taken idx (snd (poll_again c timer p2))" for c using 2(6) by (simp add: taken_def)
  ultimately show ?thesis
    using poll_again_inv [OF 2(2)] 1(4,5) 2(4,5) by (simp add: wkcs_ok_def)
qed

lemma wait_second_returns:
  assumes inv: "port_inv p" and ok: "idx_ok p idx" and red: "redport p \<noteq> None"
  shows "returns (wait_second idx timer (w, p)) (\<lambda>((w', q), again).
    port_inv q \<and> evolves idx p q \<and> EC_OTHERFRAME \<le> w' \<and> w' < 65536 \<and> (taken idx p \<longrightarrow> taken idx q) \<and>
    (again \<longrightarrow> clock_left (osclock q) < clock_left (osclock p)))"
proof -
  obtain v p1 where 1: "ecx_inframe idx 1 p = Some (v, p1)" "port_inv p1" "evolves idx p p1"
    "EC_OTHERFRAME \<le> v" "v < 65536" "prim p1 = prim p"
    using inframe_returns [OF inv ok, of 1] red by (auto simp: returns_iff inframe_post_def)
  let ?q = "poll_again (v \<le> EC_NOFRAME) timer p1"
  have "wait_second idx timer (w, p) = Some ((v, snd ?q), fst ?q)"
    unfolding wait_second_def using 1(1) by (simp add: case_prod_unfold Let_def)
  moreover have "evolves idx p (snd ?q)"
    by (rule evolves_trans [OF 1(3) poll_again_evolves])
  moreover have "fst ?q \<Longrightarrow> clock_left (osclock (snd ?q)) < clock_left (osclock p)"
    using poll_again_left [OF 1(2)] evolves_clock [OF 1(3)] by fastforce
  ultimately show ?thesis
    using poll_again_inv [OF 1(2)] 1(4,5,6) by (simp add: taken_def)
qed

text \<open>The two waiting loops end, by the common loop rule.\<close>

lemma wait_both_loop:
  assumes inv: "port_inv p" and ok: "idx_ok p idx" and w: "wkcs_ok idx (w, w2, p)"
  shows "returns (do_while (wait_both idx timer) (w, w2, p))
    (\<lambda>s. (wkcs_ok idx s \<and> taken idx (snd (snd s))) \<and> port_inv (snd (snd s)) \<and> evolves idx p (snd (snd s)))"
proof (rule polling_loop [where R = "wkcs_ok idx"])
  fix s assume s: "wkcs_ok idx s" "port_inv (snd (snd s))" "evolves idx p (snd (snd s))"
  obtain a b q where [simp]: "s = (a, b, q)" by (cases s)
  have "idx_ok q idx" using s(3) ok evolves_idx_ok by simp
  with s wait_both_returns [of q idx a b timer]
  show "returns (wait_both idx timer s) (\<lambda>(s', again). port_inv (snd (snd s')) \<and> evolves idx p (snd (snd s')) \<and>
      (if again then wkcs_ok idx s' \<and> clock_left (osclock (snd (snd s'))) < clock_left (osclock (snd (snd s)))
       else wkcs_ok idx s' \<and> taken idx (snd (snd s'))))"
    by (auto elim!: returns_mono intro: evolves_trans)
qed (use assms in auto)

lemma wait_second_loop:
  assumes inv: "port_inv p" and ok: "idx_ok p idx" and red: "redport p \<noteq> None" and t: "taken idx p"
  shows "returns (do_while (wait_second idx timer) (w, p))
    (\<lambda>s. (EC_OTHERFRAME \<le> fst s \<and> fst s < 65536 \<and> taken idx (snd s)) \<and> port_inv (snd s) \<and> evolves idx p (snd s))"
proof (rule polling_loop [where R = "\<lambda>s. taken idx (snd s)"])
  fix s :: "int \<times> ecx_port" assume s: "taken idx (snd s)" "port_inv (snd s)" "evolves idx p (snd s)"
  obtain a q where [simp]: "s = (a, q)" by (cases s)
  have "idx_ok q idx" "redport q \<noteq> None" using s(3) ok red evolves_idx_ok evolves_red by auto
  with s wait_second_returns [of q idx timer a]
  show "returns (wait_second idx timer s) (\<lambda>(s', again). port_inv (snd s') \<and> evolves idx p (snd s') \<and>
      (if again then taken idx (snd s') \<and> clock_left (osclock (snd s')) < clock_left (osclock (snd s))
       else EC_OTHERFRAME \<le> fst s' \<and> fst s' < 65536 \<and> taken idx (snd s')))"
    by (auto elim!: returns_mono intro: evolves_trans)
qed (use assms in auto)

lemma copy_red_rx_returns:
  assumes "port_inv p" "idx_ok p idx" "redport p \<noteq> None" "taken idx p"
  shows "returns (copy_red_rx (unat idx) p) (\<lambda>q. port_inv q \<and> evolves idx p q \<and> taken idx q)"
proof -
  from assms(3) obtain rp where rp: "redport p = Some rp" by auto
  have "stack_inv (txbuflength p) (st\<lparr>rxbuf := (rxbuf st)(unat idx := b)\<rparr>)"
    if "stack_inv (txbuflength p) st" "rxbufstat st (unat idx) \<noteq> EC_BUF_RCVD" for st b
    using that by (auto simp: stack_inv_def)
  then have "port_inv (p\<lparr>prim := (prim p)\<lparr>rxbuf := (rxbuf (prim p))(unat idx := b)\<rparr>\<rparr>)" for b
    using assms(1,4) by (simp add: port_inv_def red_ok_def taken_def)
  then show ?thesis
    using assms rp by (auto simp: copy_red_rx_def idx_ok_def evolves_def stat_step_def taken_def)
qed

lemma wkc_op_post_trans:
  "evolves idx p q \<Longrightarrow> op_post idx q r \<Longrightarrow> op_post idx p r"
  by (auto simp: op_post_def intro: evolves_trans)

lemma returns_bindI:
  "returns m P \<Longrightarrow> (\<And>r. P r \<Longrightarrow> returns (f r) Q) \<Longrightarrow> returns (Option.bind m f) Q"
  by (cases m) simp_all

lemma op_post_bounded_refl:
  "port_inv p \<Longrightarrow> op_post idx p (w, p)"
  by (simp add: op_post_def)

text \<open>Resending over the secondary socket, the last part of the decision tree.\<close>

lemma red_resend_returns:
  assumes inv: "port_inv p" and ok: "idx_ok p idx" and red: "redport p \<noteq> None" and t: "taken idx p"
    and w: "EC_OTHERFRAME \<le> w" "w < 65536"
  shows "returns (red_resend idx w w2 p) (\<lambda>(v, q). op_post idx p (v, q) \<and> EC_OTHERFRAME \<le> v \<and> v < 65536)"
proof -
  obtain timer p1 where p1: "port_timer_start EC_TIMEOUTRET p = (timer, p1)" by (cases "port_timer_start EC_TIMEOUTRET p")
  have 1: "port_inv p1" "evolves idx p p1" "prim p1 = prim p" "redport p1 = redport p"
    using port_timer_start_inv [OF inv, of EC_TIMEOUTRET] port_timer_start_evolves [of idx p EC_TIMEOUTRET]
      port_timer_start_simps [of EC_TIMEOUTRET p] unfolding p1 by simp_all
  have ok1: "idx_ok p1 idx" using ok evolves_idx_ok [OF 1(2)] by simp
  have red1: "1 = (0::nat) \<or> redport p1 \<noteq> None" using red 1(4) by simp
  obtain st where st: "get_stack 1 p1 = Some st" using get_stack_Some [OF red1] by blast
  obtain r p2 where 2: "ecx_outframe idx 1 p1 = Some (r, p2)" "port_inv p2" "evolves idx p1 p2" "prim p2 = prim p1"
    using outframe_returns [OF 1(1) ok1 red1] outframe_eq [OF st ok1]
    by (auto simp: returns_iff op_post_def)
  have e2: "evolves idx p p2" by (rule evolves_trans [OF 1(2) 2(3)])
  have ok2: "idx_ok p2 idx" "redport p2 \<noteq> None" "taken idx p2"
    using ok red t e2 evolves_idx_ok [OF e2] evolves_red [OF e2] 2(4) 1(3) by (simp_all add: taken_def)
  have "returns (do_while (wait_second idx timer) (w2, p2))
      (\<lambda>s. (EC_OTHERFRAME \<le> fst s \<and> fst s < 65536 \<and> taken idx (snd s)) \<and> port_inv (snd s) \<and> evolves idx p2 (snd s))"
    by (rule wait_second_loop [OF 2(2) ok2])
  then obtain v p3 where 3: "do_while (wait_second idx timer) (w2, p2) = Some (v, p3)"
    "EC_OTHERFRAME \<le> v" "v < 65536" "taken idx p3" "port_inv p3" "evolves idx p2 p3"
    by (auto simp: returns_iff)
  have e3: "evolves idx p p3" by (rule evolves_trans [OF e2 3(6)])
  have "returns (copy_red_rx (unat idx) p3) (\<lambda>q. port_inv q \<and> evolves idx p3 q \<and> taken idx q)"
    using 3 ok red evolves_idx_ok [OF e3] evolves_red [OF e3] by (intro copy_red_rx_returns) simp_all
  then have "returns (copy_red_rx (unat idx) p3) (\<lambda>q. port_inv q \<and> evolves idx p q)"
    using e3 by (auto elim!: returns_mono intro: evolves_trans)
  then show ?thesis
    using p1 2(1) 3 e3 w by (auto simp: red_resend_def op_post_def returns_if)
qed

lemma red_decide_returns:
  assumes inv: "port_inv p" and ok: "idx_ok p idx" and red: "redport p \<noteq> None" and w: "wkcs_ok idx (w, w2, p)"
    and t: "taken idx p"
  shows "returns (red_decide idx w w2 p) (\<lambda>(v, q). op_post idx p (v, q) \<and> EC_OTHERFRAME \<le> v \<and> v < 65536)"
proof -
  from red obtain rp where rp: "redport p = Some rp" by auto
  let ?prx = "if w > EC_NOFRAME then rxsa (prim p) (unat idx) else 0"
  let ?srx = "if w2 > EC_NOFRAME then rxsa rp (unat idx) else 0"
  have bounds: "EC_OTHERFRAME \<le> w" "w < 65536" "EC_OTHERFRAME \<le> w2" "w2 < 65536"
    using w by (simp_all add: wkcs_ok_def)
  show ?thesis
  proof (cases "?prx = RX_SEC \<and> ?srx = RX_PRIM")
    case True
    have "returns (copy_red_rx (unat idx) p) (\<lambda>q. port_inv q \<and> evolves idx p q \<and> taken idx q)"
      by (rule copy_red_rx_returns [OF inv ok red t])
    with True bounds rp show ?thesis
      by (auto simp: red_decide_def Let_def op_post_def elim!: returns_mono)
  next
    case no: False
    show ?thesis
    proof (cases "?prx = 0 \<and> ?srx = RX_SEC \<or> ?prx = RX_PRIM \<and> ?srx = RX_SEC")
      case False
      with no inv bounds rp show ?thesis by (auto simp: red_decide_def Let_def op_post_def)
    next
      case True
      have resend: "returns (red_resend idx w w2 q) (\<lambda>(v, r). op_post idx p (v, r) \<and> EC_OTHERFRAME \<le> v \<and> v < 65536)"
        if "q = p\<lparr>txbuf := x\<rparr> \<or> q = p" for q x
      proof -
        have q: "port_inv q" "idx_ok q idx" "redport q \<noteq> None" "taken idx q" "evolves idx p q"
          using that inv ok red t by (auto simp: taken_def)
        show ?thesis
          by (rule returns_mono [OF red_resend_returns [OF q(1-4) bounds(1,2)]])
            (auto intro: wkc_op_post_trans [OF q(5)])
      qed
      have len: "int ETH_HEADERSIZE \<le> txbuflength p (unat idx)" "txbuflength p (unat idx) \<le> int EC_BUFSIZE"
        using ok by (simp_all add: idx_ok_def)
      show ?thesis
      proof (cases "?prx = RX_PRIM")
        case prx: True
        then have "red_decide idx w w2 p = red_resend idx w w2
            (p\<lparr>txbuf := (txbuf p)(unat idx := blit (txbuf p (unat idx))
              ETH_HEADERSIZE (rxbuf (prim p) (unat idx)) 0 (nat (txbuflength p (unat idx)) - ETH_HEADERSIZE))\<rparr>)"
          using True no rp len by (simp add: red_decide_def Let_def)
        then show ?thesis by (simp only: resend [OF disjI1 [OF refl]])
      next
        case prx: False
        then have "red_decide idx w w2 p = red_resend idx w w2 p"
          using True no rp by (auto simp: red_decide_def Let_def)
        then show ?thesis by (simp only: resend [OF disjI2 [OF refl]])
      qed
    qed
  qed
qed

text \<open>A blocking operation on \<open>idx\<close> returns a work counter or one of the two failures.\<close>

definition wkc_post :: "u8 \<Rightarrow> ecx_port \<Rightarrow> int \<times> ecx_port \<Rightarrow> bool" where
  "wkc_post idx p = (\<lambda>(v, q). op_post idx p (v, q) \<and> EC_OTHERFRAME \<le> v \<and> v < 65536)"

lemma wkc_post_trans: "evolves idx p q \<Longrightarrow> wkc_post idx q r \<Longrightarrow> wkc_post idx p r"
  by (auto simp: wkc_post_def intro: wkc_op_post_trans)

lemma waitinframe_red_returns:
  assumes inv: "port_inv p" and ok: "idx_ok p idx"
  shows "returns (ecx_waitinframe_red idx timer p) (wkc_post idx p)"
proof -
  let ?w2 = "if redstate p = ECT_RED_NONE then 0 else EC_NOFRAME"
  have "returns (do_while (wait_both idx timer) (EC_NOFRAME, ?w2, p))
    (\<lambda>s. (wkcs_ok idx s \<and> taken idx (snd (snd s))) \<and> port_inv (snd (snd s)) \<and> evolves idx p (snd (snd s)))"
    by (rule wait_both_loop [OF inv ok]) (simp add: wkcs_ok_def)
  then obtain w w2 q where q: "do_while (wait_both idx timer) (EC_NOFRAME, ?w2, p) = Some (w, w2, q)"
    "wkcs_ok idx (w, w2, q)" "taken idx q" "port_inv q" "evolves idx p q"
    by (auto simp: returns_iff)
  show ?thesis
  proof (cases "redstate q = ECT_RED_NONE")
    case True
    with q show ?thesis
      by (simp add: ecx_waitinframe_red_def Let_def wkc_post_def op_post_def wkcs_ok_def)
  next
    case False
    then have "redport q \<noteq> None" using port_inv_red [OF q(4)] by simp
    moreover have "idx_ok q idx" using ok evolves_idx_ok [OF q(5)] by simp
    ultimately have "returns (red_decide idx w w2 q) (wkc_post idx q)"
      unfolding wkc_post_def using q by (intro red_decide_returns)
    then have "returns (red_decide idx w w2 q) (wkc_post idx p)"
      by (rule returns_mono) (rule wkc_post_trans [OF q(5)])
    with q(1) False show ?thesis by (simp add: ecx_waitinframe_red_def Let_def)
  qed
qed

lemma port_timer_start_idx_ok: "idx_ok (snd (port_timer_start t p)) i = idx_ok p i"
  by (simp add: idx_ok_def)

lemma waitinframe_returns:
  assumes inv: "port_inv p" and ok: "idx_ok p idx"
  shows "returns (ecx_waitinframe idx timeout p) (wkc_post idx p)"
  unfolding ecx_waitinframe_def case_prod_unfold Let_def
  by (rule returns_mono [OF waitinframe_red_returns])
    (auto simp: inv ok port_timer_start_inv port_timer_start_idx_ok
      intro: wkc_post_trans [OF port_timer_start_evolves])

lemma srconfirm_body_returns:
  assumes inv: "port_inv p" and ok: "idx_ok p idx"
  shows "returns (srconfirm_body idx timeout timer (w, p)) (\<lambda>((v, q), again).
    port_inv q \<and> evolves idx p q \<and> EC_OTHERFRAME \<le> v \<and> v < 65536 \<and>
    (again \<longrightarrow> clock_left (osclock q) < clock_left (osclock p)))"
proof -
  let ?t = "if timeout < EC_TIMEOUTRET then timeout else EC_TIMEOUTRET"
  obtain r p1 where 1: "ecx_outframe_red idx p = Some (r, p1)" "port_inv p1" "evolves idx p p1"
    using outframe_red_returns [OF inv ok] by (auto simp: returns_iff op_post_def)
  obtain timer2 p2 where p2: "port_timer_start ?t p1 = (timer2, p2)" by (cases "port_timer_start ?t p1")
  have 2: "port_inv p2" "evolves idx p1 p2"
    using port_timer_start_inv [OF 1(2), of ?t] port_timer_start_evolves [of idx p1 ?t]
    unfolding p2 by simp_all
  have e2: "evolves idx p p2" by (rule evolves_trans [OF 1(3) 2(2)])
  obtain v p3 where 3: "ecx_waitinframe_red idx timer2 p2 = Some (v, p3)" "port_inv p3" "evolves idx p2 p3"
      "EC_OTHERFRAME \<le> v" "v < 65536"
    using waitinframe_red_returns [OF 2(1), of idx timer2] ok evolves_idx_ok [OF e2]
    by (auto simp: returns_iff wkc_post_def op_post_def)
  let ?q = "poll_again (v \<le> EC_NOFRAME) timer p3"
  have e3: "evolves idx p p3" by (rule evolves_trans [OF e2 3(3)])
  have "srconfirm_body idx timeout timer (w, p) = Some ((v, snd ?q), fst ?q)"
    by (simp only: srconfirm_body_def 1(1) p2 3(1) Option.bind.bind_lunit prod.case case_prod_unfold
        Let_def fst_conv snd_conv)
  moreover have "evolves idx p (snd ?q)"
    by (rule evolves_trans [OF e3 poll_again_evolves])
  moreover have "fst ?q \<Longrightarrow> clock_left (osclock (snd ?q)) < clock_left (osclock p)"
    using poll_again_left [OF 3(2)] evolves_clock [OF e3] by fastforce
  ultimately show ?thesis
    using poll_again_inv [OF 3(2)] 3(4,5) by simp
qed

lemma srconfirm_returns:
  assumes inv: "port_inv p" and ok: "idx_ok p idx"
  shows "returns (ecx_srconfirm idx timeout p) (wkc_post idx p)"
proof -
  obtain timer p1 where p1: "port_timer_start timeout p = (timer, p1)" by (cases "port_timer_start timeout p")
  have 1: "port_inv p1" "evolves idx p p1"
    using port_timer_start_inv [OF inv, of timeout] port_timer_start_evolves [of idx p timeout]
    unfolding p1 by simp_all
  have "returns (do_while (srconfirm_body idx timeout timer) (EC_NOFRAME, p1))
      (\<lambda>s. (EC_OTHERFRAME \<le> fst s \<and> fst s < 65536) \<and> port_inv (snd s) \<and> evolves idx p (snd s))"
  proof (rule polling_loop [where R = "\<lambda>_. True"])
    fix s :: "int \<times> ecx_port" assume s: "port_inv (snd s)" "evolves idx p (snd s)"
    obtain a q where [simp]: "s = (a, q)" by (cases s)
    have "idx_ok q idx" using s(2) ok evolves_idx_ok by simp
    with s srconfirm_body_returns [of q idx timeout timer a]
    show "returns (srconfirm_body idx timeout timer s) (\<lambda>(s', again). port_inv (snd s') \<and> evolves idx p (snd s') \<and>
        (if again then True \<and> clock_left (osclock (snd s')) < clock_left (osclock (snd s))
         else EC_OTHERFRAME \<le> fst s' \<and> fst s' < 65536))"
      by (auto elim!: returns_mono intro: evolves_trans)
  qed (use 1 in auto)
  with p1 show ?thesis
    by (auto simp: ecx_srconfirm_def wkc_post_def op_post_def elim!: returns_mono)
qed

section \<open>Allocating and releasing indices\<close>

lemma next_idx_range: "unat (next_idx i) < EC_MAXBUF"
  by (auto simp: next_idx_def Let_def)

lemma next_idx_step: "unat i < EC_MAXBUF \<Longrightarrow> unat (next_idx i) = (unat i + 1) mod EC_MAXBUF"
proof -
  assume i: "unat i < EC_MAXBUF"
  then have "unat (i + 1) = unat i + 1"
    by (simp add: unat_word_ariths)
  with i show ?thesis
    by (simp add: next_idx_def Let_def) presburger
qed

lemma getindex_scan_range: "unat i < EC_MAXBUF \<Longrightarrow> unat (getindex_scan n stat i) < EC_MAXBUF"
  by (induction n arbitrary: i) (auto simp: next_idx_range)

text \<open>The scan stops at the first empty buffer it meets.\<close>

lemma getindex_scan_hit:
  assumes "unat i < EC_MAXBUF" "k < n" "stat ((unat i + k) mod EC_MAXBUF) = EC_BUF_EMPTY"
  shows "stat (unat (getindex_scan n stat i)) = EC_BUF_EMPTY"
  using assms
proof (induction n arbitrary: i k)
  case 0
  then show ?case by simp
next
  case (Suc n)
  show ?case
  proof (cases "stat (unat i) = EC_BUF_EMPTY")
    case True
    then show ?thesis by simp
  next
    case False
    with Suc.prems obtain k' where k: "k = Suc k'" by (cases k) auto
    have n: "unat (next_idx i) = (unat i + 1) mod EC_MAXBUF" using Suc.prems(1) by (rule next_idx_step)
    have "(unat (next_idx i) + k') mod EC_MAXBUF = (unat i + k) mod EC_MAXBUF"
      unfolding n k by (simp add: mod_simps)
    with False Suc.IH [of "next_idx i" k'] Suc.prems k next_idx_range show ?thesis by simp
  qed
qed

lemma getindex_scan_full:
  "unat i < EC_MAXBUF \<Longrightarrow> (\<And>j. j < EC_MAXBUF \<Longrightarrow> stat j \<noteq> EC_BUF_EMPTY) \<Longrightarrow>
     unat (getindex_scan n stat i) = (unat i + n) mod EC_MAXBUF"
proof (induction n arbitrary: i)
  case 0
  then show ?case by simp
next
  case (Suc n)
  have n: "unat (next_idx i) = (unat i + 1) mod EC_MAXBUF" using Suc.prems(1) by (rule next_idx_step)
  have "unat (getindex_scan n stat (next_idx i)) = (unat (next_idx i) + n) mod EC_MAXBUF"
    by (rule Suc.IH [OF next_idx_range Suc.prems(2)])
  with Suc.prems n show ?case by (simp add: mod_simps)
qed

lemma setbufstat_eq:
  assumes "port_inv p" "unat idx < EC_MAXBUF"
  shows "ecx_setbufstat idx s p = Some (if redstate p \<noteq> ECT_RED_NONE
    then p\<lparr>prim := set_stat (unat idx) s (prim p), redport := Some (set_stat (unat idx) s (the (redport p)))\<rparr>
    else p\<lparr>prim := set_stat (unat idx) s (prim p)\<rparr>)"
  using assms port_inv_red [OF assms(1)] by (auto simp: ecx_setbufstat_def)

lemma port_inv_setbufstat:
  assumes "port_inv p" "unat idx < EC_MAXBUF" "s = EC_BUF_EMPTY \<or> s = EC_BUF_ALLOC"
  shows "returns (ecx_setbufstat idx s p) (\<lambda>q. port_inv q \<and> evolves idx p q \<and>
    rxbufstat (prim q) = (rxbufstat (prim p))(unat idx := s) \<and> rxbuf (prim q) = rxbuf (prim p) \<and>
    txbuf q = txbuf p \<and> txlog q = txlog p \<and> osclock q = osclock p)"
proof -
  have "stack_inv (txbuflength p) (prim p)" using assms(1) by (simp add: port_inv_def)
  then have 1: "stack_inv (txbuflength p) (set_stat (unat idx) s (prim p))"
    using assms(3) by (intro stack_inv_set_stat) auto
  have 2: "stack_inv (txbuflength p) (set_stat (unat idx) s (the (redport p)))" if "redstate p \<noteq> ECT_RED_NONE"
  proof (rule stack_inv_set_stat)
    show "stack_inv (txbuflength p) (the (redport p))"
      using assms(1) that by (auto simp: port_inv_def red_ok_def)
  qed (use assms(3) in auto)
  show ?thesis
    using assms(1,3) 1 2 port_inv_red [OF assms(1)]
    by (auto simp: setbufstat_eq [OF assms(1,2)] port_inv_def red_ok_def evolves_def stat_step_set_stat)
qed

lemma getindex_returns:
  assumes "port_inv p"
  shows "returns (ecx_getindex p) (\<lambda>(i, q). port_inv q \<and> unat i < EC_MAXBUF \<and> lastidx q = i \<and>
    i = getindex_scan EC_MAXBUF (rxbufstat (prim p)) (next_idx (lastidx p)) \<and>
    rxbufstat (prim q) = (rxbufstat (prim p))(unat i := EC_BUF_ALLOC) \<and> rxbuf (prim q) = rxbuf (prim p) \<and>
    txbuf q = txbuf p \<and> txlog q = txlog p \<and> osclock q = osclock p \<and>
    txbuflength q = txbuflength p \<and> redstate q = redstate p \<and> (redport q = None \<longleftrightarrow> redport p = None) \<and>
    txbuflength2 q = txbuflength2 p)"
proof -
  let ?i = "getindex_scan EC_MAXBUF (rxbufstat (prim p)) (next_idx (lastidx p))"
  have i: "unat ?i < EC_MAXBUF" by (rule getindex_scan_range [OF next_idx_range])
  show ?thesis
    using port_inv_setbufstat [OF assms i, of EC_BUF_ALLOC] i
    by (auto simp: ecx_getindex_def Let_def evolves_def elim!: returns_mono)
qed

section \<open>What a received frame does\<close>

text \<open>
  \<open>reply_for txl idx bs\<close>: the bytes are an EtherCAT frame that answers the frame sent from
  the transmit buffer \<open>idx\<close>: same index, at least as long, its length field inside what
  was sent.
\<close>

definition reply_for :: "(nat \<Rightarrow> int) \<Rightarrow> u8 \<Rightarrow> u8 list \<Rightarrow> bool" where
  "reply_for txl idx bs \<longleftrightarrow>
     get16be (list_buf bs) 12 = ETH_P_ECAT \<and> bs ! 17 = idx \<and> 28 \<le> txl (unat idx) \<and>
     txl (unat idx) \<le> int (length bs) \<and> length bs \<le> EC_BUFSIZE \<and>
     int (frame_len (list_buf bs) ETH_HEADERSIZE) + 2 \<le> txl (unat idx) - int ETH_HEADERSIZE"

definition reply_wkc :: "u8 list \<Rightarrow> int" where
  "reply_wkc bs = wkc_at (list_buf bs) (ETH_HEADERSIZE + frame_len (list_buf bs) ETH_HEADERSIZE)"

text \<open>The bytes of the frame that end up in the receive buffer: all after the Ethernet header.\<close>

definition reply_payload :: "(nat \<Rightarrow> int) \<Rightarrow> u8 \<Rightarrow> u8 list \<Rightarrow> u8 list" where
  "reply_payload txl idx bs = slice (list_buf bs) ETH_HEADERSIZE (nat (txl (unat idx)) - ETH_HEADERSIZE)"

definition reply_source :: "u8 list \<Rightarrow> int" where
  "reply_source bs = uint (get16be (list_buf bs) 8)"

text \<open>The stack after the frame \<open>bs\<close> has been read and stored for \<open>idx\<close> in state \<open>s\<close>.\<close>

definition stored :: "(nat \<Rightarrow> int) \<Rightarrow> u8 \<Rightarrow> u8 list \<Rightarrow> ec_bufstate \<Rightarrow> ec_stack \<Rightarrow> ec_stack" where
  "stored txl idx bs s st =
     (let st' = st\<lparr>rxscript := script_tl (rxscript st), tempinbuf := blit_list (tempinbuf st) 0 bs\<rparr>
      in store_rx (unat idx) (blit (rxbuf st (unat idx)) 0 (tempinbuf st') ETH_HEADERSIZE
           (nat (txl (unat idx)) - ETH_HEADERSIZE)) s st')"

lemma reply_buf:
  "reply_for txl idx bs \<Longrightarrow> i < nat (txl (unat idx)) \<Longrightarrow> blit_list b 0 bs i = list_buf bs i"
  by (auto simp: reply_for_def blit_list_def list_buf_def)

lemma reply_fields:
  assumes "reply_for txl idx bs"
  shows "get16be (blit_list b 0 bs) 12 = ETH_P_ECAT" "blit_list b 0 bs 17 = idx"
    "frame_len (blit_list b 0 bs) ETH_HEADERSIZE = frame_len (list_buf bs) ETH_HEADERSIZE"
    "get16be (blit_list b 0 bs) 8 = get16be (list_buf bs) 8"
  using assms
  by (auto simp: get16be_def blit_list_def list_buf_def reply_for_def frame_len_def get16_def)

lemma stored_payload:
  assumes "reply_for txl idx bs"
  shows "slice (rxbuf (stored txl idx bs s st) (unat idx)) 0 (nat (txl (unat idx)) - ETH_HEADERSIZE)
    = reply_payload txl idx bs"
proof (rule nth_equalityI)
  fix i assume "i < length (slice (rxbuf (stored txl idx bs s st) (unat idx)) 0 (nat (txl (unat idx)) - ETH_HEADERSIZE))"
  then have i: "i < nat (txl (unat idx)) - ETH_HEADERSIZE" by simp
  then show "slice (rxbuf (stored txl idx bs s st) (unat idx)) 0 (nat (txl (unat idx)) - ETH_HEADERSIZE) ! i
      = reply_payload txl idx bs ! i"
    using reply_buf [OF assms, of "ETH_HEADERSIZE + i"]
    by (simp add: stored_def Let_def blit_def reply_payload_def)
qed (simp add: reply_payload_def)

lemma stored_wkc:
  assumes "reply_for txl idx bs"
  shows "wkc_at (rxbuf (stored txl idx bs s st) (unat idx)) (frame_len (list_buf bs) ETH_HEADERSIZE) = reply_wkc bs"
proof -
  let ?l = "frame_len (list_buf bs) ETH_HEADERSIZE"
  have l: "?l + 2 \<le> nat (txl (unat idx)) - ETH_HEADERSIZE" using assms by (auto simp: reply_for_def)
  then have "rxbuf (stored txl idx bs s st) (unat idx) i = list_buf bs (ETH_HEADERSIZE + i)" if "i < ?l + 2" for i
    using that reply_buf [OF assms, of "ETH_HEADERSIZE + i"] by (simp add: stored_def Let_def blit_def)
  then show ?thesis by (simp add: wkc_at_def reply_wkc_def)
qed

lemma stored_simps:
  assumes "reply_for txl idx bs"
  shows "rxbufstat (stored txl idx bs s st) = (rxbufstat st)(unat idx := s)"
    "rxscript (stored txl idx bs s st) = script_tl (rxscript st)"
    "rxsa (stored txl idx bs s st) = (rxsa st)(unat idx := reply_source bs)"
    "j \<noteq> unat idx \<Longrightarrow> rxbuf (stored txl idx bs s st) j = rxbuf st j"
  using reply_fields(4) [OF assms]
  by (simp_all add: stored_def Let_def reply_source_def)

lemma sock_recv_frame:
  "rxscript st 0 = Some bs \<Longrightarrow> length bs \<le> EC_BUFSIZE \<Longrightarrow> sock_recv st =
     (int (length bs), st\<lparr>rxscript := script_tl (rxscript st), tempinbuf := blit_list (tempinbuf st) 0 bs\<rparr>)"
  by (simp add: sock_recv_def Let_def)

lemma inframe_match:
  assumes st: "get_stack n p = Some st" and i: "unat idx < EC_MAXBUF"
    and script: "rxscript st 0 = Some bs" and r: "reply_for (txbuflength p) idx bs"
    and ready: "rxbufstat st (unat idx) \<noteq> EC_BUF_RCVD"
  shows "ecx_inframe idx n p = Some (reply_wkc bs,
    (put_stack n (stored (txbuflength p) idx bs EC_BUF_COMPLETE st) p)\<lparr>tempinbufs := int (length bs)\<rparr>)"
proof -
  have len: "length bs \<le> EC_BUFSIZE" "bs \<noteq> []" "int ETH_HEADERSIZE \<le> txbuflength p (unat idx)"
      "txbuflength p (unat idx) \<le> int EC_BUFSIZE" "frame_len (list_buf bs) ETH_HEADERSIZE + 1 < EC_BUFSIZE"
    using r by (auto simp: reply_for_def)
  show ?thesis
    using ready i len reply_fields [OF r] stored_wkc [OF r, of EC_BUF_COMPLETE st]
    by (simp add: ecx_inframe_def st Let_def recvpkt_eq [OF st] sock_recv_frame [OF script] strip_copy_def
        stored_def script)
qed

lemma inframe_other:
  assumes st: "get_stack n p = Some st" and j: "unat j < EC_MAXBUF" and ne: "j \<noteq> idx"
    and script: "rxscript st 0 = Some bs" and r: "reply_for (txbuflength p) j bs"
    and ready: "\<not> (unat idx < EC_MAXBUF \<and> rxbufstat st (unat idx) = EC_BUF_RCVD)"
    and waiting: "rxbufstat st (unat j) = EC_BUF_TX"
  shows "ecx_inframe idx n p = Some (EC_OTHERFRAME,
    (put_stack n (stored (txbuflength p) j bs EC_BUF_RCVD st) p)\<lparr>tempinbufs := int (length bs)\<rparr>)"
proof -
  have len: "length bs \<le> EC_BUFSIZE" "bs \<noteq> []" "int ETH_HEADERSIZE \<le> txbuflength p (unat j)"
      "txbuflength p (unat j) \<le> int EC_BUFSIZE"
    using r by (auto simp: reply_for_def)
  have idle: "(unat idx < EC_MAXBUF \<and> rxbufstat st (unat idx) = EC_BUF_RCVD) = False"
    using ready by simp
  show ?thesis
    using j ne len reply_fields [OF r] waiting
    by (simp add: ecx_inframe_def idle st Let_def recvpkt_eq [OF st] sock_recv_frame [OF script] strip_copy_def
        stored_def script)
qed

lemma inframe_buffered:
  assumes "get_stack n p = Some st" "unat idx < EC_MAXBUF" "rxbufstat st (unat idx) = EC_BUF_RCVD"
    "frame_len (rxbuf st (unat idx)) 0 + 1 < EC_BUFSIZE"
  shows "ecx_inframe idx n p = Some (wkc_at (rxbuf st (unat idx)) (frame_len (rxbuf st (unat idx)) 0),
    put_stack n (set_stat (unat idx) EC_BUF_COMPLETE st) p)"
  using assms by (simp add: ecx_inframe_def Let_def)

lemma stored_frame_len:
  assumes "reply_for txl idx bs"
  shows "frame_len (rxbuf (stored txl idx bs s st) (unat idx)) 0 = frame_len (list_buf bs) ETH_HEADERSIZE"
proof -
  have "28 \<le> txl (unat idx)" using assms by (simp add: reply_for_def)
  then have "Suc 0 < nat (txl (unat idx)) - ETH_HEADERSIZE" "15 < nat (txl (unat idx))" by linarith+
  then show ?thesis
    using reply_buf [OF assms, of ETH_HEADERSIZE] reply_buf [OF assms, of "ETH_HEADERSIZE + 1"]
    by (intro frame_len_cong) (simp_all add: stored_def Let_def blit_def)
qed

section \<open>A concrete port\<close>

text \<open>
  A port with the given script of received frames, a clock that ticks 100 microseconds
  per reading, and two transmit buffers of 16 data bytes each; for the examples and witnesses.
\<close>

definition demo_stack :: "u8 list option list \<Rightarrow> ec_stack" where
  "demo_stack rx = \<lparr>sock = 3, rxbuf = (\<lambda>_ _. 0), rxbufstat = (\<lambda>_. EC_BUF_EMPTY), rxsa = (\<lambda>_. 0),
     tempinbuf = (\<lambda>_. 0), rxscript = script_of rx None, sndscript = (\<lambda>_. None)\<rparr>"

definition demo_port :: "u8 list option list \<Rightarrow> ecx_port" where
  "demo_port rx = \<lparr>prim = demo_stack rx, redport = None, tempinbufs = 0, txbuf = (\<lambda>_ _. 0),
     txbuflength = (\<lambda>_. 30), txbuf2 = (\<lambda>_. 0), txbuflength2 = 30, lastidx = 0,
     redstate = ECT_RED_NONE,
     osclock = \<lparr>mclock = (\<lambda>n. (int n div 10000, int n mod 10000 * 100000)), mtick = 0, rclock = (\<lambda>n. (int n, 0)), rtick = 0\<rparr>,
     txlog = []\<rparr>"

text \<open>A frame with one datagram of two data bytes, as it comes back from the slaves.\<close>

definition demo_frame :: "u8 \<Rightarrow> u8 \<Rightarrow> u8 list \<Rightarrow> u8 \<Rightarrow> u8 list" where
  "demo_frame cmd idx data wkc =
     [0xff,0xff,0xff,0xff,0xff,0xff, 1,1,1,1,1,1, 0x88,0xa4] @
     [of_nat (12 + length data), 0x10, cmd, idx, 1, 0x10, 0x30, 1, of_nat (length data), 0, 0, 0] @ data @ [wkc, 0]"


section \<open>Properties of the driver\<close>

lemma demo_clock_live:
  "clock_live \<lparr>mclock = (\<lambda>n. (int n div 10000, int n mod 10000 * 100000)), mtick = a, rclock = b, rtick = c\<rparr>"
proof -
  have "4294967296 \<le> int j div 10000" if "nat 42949672960000 \<le> j" for j :: nat
  proof -
    have "42949672960000 \<le> int j" using that by linarith
    from zdiv_mono1 [OF this, of 10000] show ?thesis by simp
  qed
  then show ?thesis unfolding clock_live_def by (intro exI [of _ "nat 42949672960000"]) auto
qed

lemma port_inv_demo: "(\<And>bs. Some bs \<in> set rx \<Longrightarrow> frame_ok bs) \<Longrightarrow> port_inv (demo_port rx)"
  by (auto simp: port_inv_def demo_port_def demo_stack_def stack_inv_def red_ok_def demo_clock_live
      dest!: range_script_of)

text \<open>
  As long as one of the 16 receive buffers is empty, the index allocated belongs to
  an empty one; it is marked as allocated and no other buffer changes its state.
\<close>

theorem getindex_fresh:
  assumes "port_inv p" "j < EC_MAXBUF" "rxbufstat (prim p) j = EC_BUF_EMPTY"
  shows "\<exists>idx q. ecx_getindex p = Some (idx, q) \<and> unat idx < EC_MAXBUF \<and>
    rxbufstat (prim p) (unat idx) = EC_BUF_EMPTY \<and> lastidx q = idx \<and>
    rxbufstat (prim q) = (rxbufstat (prim p))(unat idx := EC_BUF_ALLOC) \<and> port_inv q"
proof -
  let ?n = "unat (next_idx (lastidx p))"
  have n: "?n < EC_MAXBUF" by (rule next_idx_range)
  let ?k = "(j + EC_MAXBUF - ?n) mod EC_MAXBUF"
  have k: "(?n + ?k) mod EC_MAXBUF = j"
    using n assms(2) by (simp add: mod_simps)
  have "rxbufstat (prim p) (unat (getindex_scan EC_MAXBUF (rxbufstat (prim p)) (next_idx (lastidx p)))) = EC_BUF_EMPTY"
  proof (rule getindex_scan_hit [OF n])
    show "?k < EC_MAXBUF" by simp
    show "rxbufstat (prim p) ((?n + ?k) mod EC_MAXBUF) = EC_BUF_EMPTY" unfolding k by (rule assms(3))
  qed
  then show ?thesis
    using getindex_returns [OF assms(1)] by (auto simp: returns_iff)
qed

theorem getindex_fresh_witness:
  "\<exists>idx q. ecx_getindex (demo_port []) = Some (idx, q) \<and> unat idx < EC_MAXBUF \<and>
    rxbufstat (prim q) (unat idx) = EC_BUF_ALLOC"
  using getindex_fresh [of "demo_port []" 0] port_inv_demo [of "[]"]
  by (auto simp: demo_port_def demo_stack_def)

text \<open>
  With all 16 buffers in use the function does not fail: it hands out the index after
  the last one although its buffer belongs to somebody else, whose state is overwritten.
\<close>

theorem getindex_exhausted:
  assumes "port_inv p" "\<And>j. j < EC_MAXBUF \<Longrightarrow> rxbufstat (prim p) j \<noteq> EC_BUF_EMPTY"
  shows "\<exists>q. ecx_getindex p = Some (next_idx (lastidx p), q) \<and>
    rxbufstat (prim p) (unat (next_idx (lastidx p))) \<noteq> EC_BUF_EMPTY \<and>
    rxbufstat (prim q) (unat (next_idx (lastidx p))) = EC_BUF_ALLOC"
proof -
  let ?i = "getindex_scan EC_MAXBUF (rxbufstat (prim p)) (next_idx (lastidx p))"
  have "unat ?i = (unat (next_idx (lastidx p)) + EC_MAXBUF) mod EC_MAXBUF"
    by (rule getindex_scan_full [OF next_idx_range assms(2)])
  then have "?i = next_idx (lastidx p)"
    using next_idx_range [of "lastidx p"] by (simp add: word_unat_eq_iff)
  then show ?thesis
    using getindex_returns [OF assms(1)] assms(2) [OF next_idx_range] by (auto simp: returns_iff)
qed

definition busy_port :: ecx_port where
  "busy_port = (demo_port [])\<lparr>prim := (demo_stack [])\<lparr>rxbufstat := (\<lambda>_. EC_BUF_TX)\<rparr>\<rparr>"

lemma port_inv_busy: "port_inv busy_port"
  by (simp add: busy_port_def port_inv_def demo_port_def demo_stack_def stack_inv_def red_ok_def demo_clock_live)

theorem getindex_exhausted_witness:
  "\<exists>q. ecx_getindex busy_port = Some (next_idx 0, q) \<and> rxbufstat (prim q) (unat (next_idx 0)) = EC_BUF_ALLOC"
  using getindex_exhausted [OF port_inv_busy]
  by (auto simp: busy_port_def demo_port_def demo_stack_def)

text \<open>
  C18: frames may come back in another order than they were sent. While \<open>i\<close> is waited for,
  the answer to \<open>j\<close> is put away; the next call delivers the answer to \<open>i\<close>, and a call for
  \<open>j\<close> then delivers its own answer from the buffer without reading the socket again. Both
  work counters and both payloads are those of the right frames.
\<close>

theorem inframe_out_of_order:
  assumes ij: "unat i < EC_MAXBUF" "unat j < EC_MAXBUF" "i \<noteq> j"
    and script: "rxscript (prim p) 0 = Some fj" "rxscript (prim p) 1 = Some fi"
    and fi: "reply_for (txbuflength p) i fi" and fj: "reply_for (txbuflength p) j fj"
    and tx: "rxbufstat (prim p) (unat i) = EC_BUF_TX" "rxbufstat (prim p) (unat j) = EC_BUF_TX"
  shows "\<exists>p1 p2 p3. ecx_inframe i 0 p = Some (EC_OTHERFRAME, p1) \<and>
    ecx_inframe i 0 p1 = Some (reply_wkc fi, p2) \<and> ecx_inframe j 0 p2 = Some (reply_wkc fj, p3) \<and>
    rxscript (prim p3) = script_tl (script_tl (rxscript (prim p))) \<and>
    slice (rxbuf (prim p3) (unat i)) 0 (nat (txbuflength p (unat i)) - ETH_HEADERSIZE) = reply_payload (txbuflength p) i fi \<and>
    slice (rxbuf (prim p3) (unat j)) 0 (nat (txbuflength p (unat j)) - ETH_HEADERSIZE) = reply_payload (txbuflength p) j fj \<and>
    rxbufstat (prim p3) (unat i) = EC_BUF_COMPLETE \<and> rxbufstat (prim p3) (unat j) = EC_BUF_COMPLETE"
proof -
  let ?txl = "txbuflength p"
  let ?s1 = "stored ?txl j fj EC_BUF_RCVD (prim p)"
  let ?s2 = "stored ?txl i fi EC_BUF_COMPLETE ?s1"
  define p1 where "p1 = (put_stack 0 ?s1 p)\<lparr>tempinbufs := int (length fj)\<rparr>"
  define p2 where "p2 = (put_stack 0 ?s2 p1)\<lparr>tempinbufs := int (length fi)\<rparr>"
  have u: "unat i \<noteq> unat j" using ij(3) by (simp add: word_unat_eq_iff)
  note sj = stored_simps [OF fj] and si = stored_simps [OF fi]
  have 1: "ecx_inframe i 0 p = Some (EC_OTHERFRAME, p1)"
    unfolding p1_def using ij tx script fj
    by (intro inframe_other) (auto simp: get_stack_def)
  have 2: "ecx_inframe i 0 p1 = Some (reply_wkc fi, p2)"
    using inframe_match [of 0 p1 ?s1 i fi] ij tx script fi sj u
    by (simp add: p2_def) (simp add: p1_def get_stack_def)
  have fl: "frame_len (rxbuf ?s2 (unat j)) 0 = frame_len (list_buf fj) ETH_HEADERSIZE"
    using stored_frame_len [OF fj] si(4) u by simp
  have w: "wkc_at (rxbuf ?s2 (unat j)) (frame_len (list_buf fj) ETH_HEADERSIZE) = reply_wkc fj"
    using stored_wkc [OF fj] si(4) u by simp
  have "frame_len (list_buf fj) ETH_HEADERSIZE + 1 < EC_BUFSIZE" using fj by (auto simp: reply_for_def)
  then have 3: "ecx_inframe j 0 p2 = Some (reply_wkc fj, put_stack 0 (set_stat (unat j) EC_BUF_COMPLETE ?s2) p2)"
    using inframe_buffered [of 0 p2 ?s2 j] ij(2) si sj u fl w by (simp add: get_stack_def p2_def)
  show ?thesis
    by (rule exI [of _ p1], rule exI [of _ p2], rule exI, intro conjI, rule 1, rule 2, rule 3)
      (use si sj u script stored_payload [OF fi] stored_payload [OF fj] in simp_all)
qed

definition crossing_port :: ecx_port where
  "crossing_port = (demo_port [Some (demo_frame 4 2 [7, 8] 3), Some (demo_frame 4 1 [5, 6] 1)])
     \<lparr>prim := (demo_stack [Some (demo_frame 4 2 [7, 8] 3), Some (demo_frame 4 1 [5, 6] 1)])
        \<lparr>rxbufstat := (\<lambda>_. EC_BUF_TX)\<rparr>\<rparr>"

lemma demo_reply_for:
  "idx < 16 \<Longrightarrow> reply_for (\<lambda>_. 30) idx (demo_frame cmd idx [a, b] w)"
  by (simp add: reply_for_def demo_frame_def get16be_def list_buf_def mk16_def frame_len_def get16_def)

theorem inframe_out_of_order_witness:
  "\<exists>p1 p2 p3. ecx_inframe 1 0 crossing_port = Some (EC_OTHERFRAME, p1) \<and>
    ecx_inframe 1 0 p1 = Some (1, p2) \<and> ecx_inframe 2 0 p2 = Some (3, p3)"
proof -
  have w: "reply_wkc (demo_frame 4 1 [5, 6] 1) = 1" "reply_wkc (demo_frame 4 2 [7, 8] 3) = 3"
    by code_simp+
  have txl: "txbuflength crossing_port = (\<lambda>_. 30)"
    by (simp add: crossing_port_def demo_port_def)
  show ?thesis
    using inframe_out_of_order [of 1 2 crossing_port "demo_frame 4 2 [7, 8] 3" "demo_frame 4 1 [5, 6] 1"]
      demo_reply_for [of 1 4 5 6 1] demo_reply_for [of 2 4 7 8 3]
    unfolding txl w by (auto simp: crossing_port_def demo_stack_def)
qed

end
