(* ===== verification/NicdrvProps.thy ===== *)
theory NicdrvProps
  imports Nicdrv
begin

text \<open>
  Properties of the driver as a whole: it always returns, the data it hands out came from
  the wire, what a malformed frame does to it, the redundant ring, and the set-up.
\<close>

section \<open>Termination and range of the result\<close>


lemma frame_ok_demo: "frame_ok (demo_frame cmd idx [a, b] w)"
  by (simp add: frame_ok_def demo_frame_def frame_len_def get16_def list_buf_def mk16_def)


text \<open>
  The waiting function does not report a missing frame as \<^verbatim>\<open>EC_NOFRAME\<close> only: when the
  last frame read before the timeout was somebody else's, the result is
  \<^verbatim>\<open>EC_OTHERFRAME\<close>.
\<close>

theorem waitinframe_otherframe:
  assumes single: "redstate p = ECT_RED_NONE"
    and other: "ecx_inframe idx 0 (snd (port_timer_start timeout p)) = Some (EC_OTHERFRAME, q)"
    and late: "\<not> fst (poll_again True (fst (port_timer_start timeout p)) q)"
    and same: "redstate q = redstate p"
  shows "\<exists>r. ecx_waitinframe idx timeout p = Some (EC_OTHERFRAME, r)"
proof -
  let ?t = "fst (port_timer_start timeout p)" and ?p = "snd (port_timer_start timeout p)"
  have "wait_both idx ?t (EC_NOFRAME, 0, ?p) = Some ((EC_OTHERFRAME, 0, snd (poll_again True ?t q)), False)"
    using other late same single by (simp add: wait_both_def case_prod_unfold Let_def)
  then have "do_while (wait_both idx ?t) (EC_NOFRAME, 0, ?p) = Some (EC_OTHERFRAME, 0, snd (poll_again True ?t q))"
    by (rule do_while_stop)
  then show ?thesis
    using single same by (simp add: ecx_waitinframe_def ecx_waitinframe_red_def case_prod_unfold Let_def)
qed

theorem waitinframe_otherframe_witness:
  "\<exists>r. ecx_waitinframe 1 0 (demo_port [Some (demo_frame 4 2 [7, 8] 1)]) = Some (EC_OTHERFRAME, r)"
proof -
  let ?p = "demo_port [Some (demo_frame 4 2 [7, 8] 1)]"
  have 1: "map_option (\<lambda>(w, q). (w, fst (poll_again True (fst (port_timer_start 0 ?p)) q), redstate q))
      (ecx_inframe 1 0 (snd (port_timer_start 0 ?p))) = Some (EC_OTHERFRAME, False, ECT_RED_NONE)"
    by code_simp
  then obtain q where "ecx_inframe 1 0 (snd (port_timer_start 0 ?p)) = Some (EC_OTHERFRAME, q)"
    "\<not> fst (poll_again True (fst (port_timer_start 0 ?p)) q)" "redstate q = ECT_RED_NONE"
    by auto
  then show ?thesis
    by (intro waitinframe_otherframe) (simp_all add: demo_port_def)
qed

section \<open>Malformed frames\<close>

text \<open>
  The length field of a received frame is not checked. A frame that carries the index
  waited for and a length field beyond the buffer makes the driver read its work counter
  outside the receive buffer.
\<close>

theorem inframe_overlong_faults:
  assumes st: "get_stack n p = Some st"
    and script: "rxscript st 0 = Some bs" "bs \<noteq> []" "length bs \<le> EC_BUFSIZE"
    and frame: "get16be (blit_list (tempinbuf st) 0 bs) 12 = ETH_P_ECAT" "blit_list (tempinbuf st) 0 bs 17 = idx"
    and long: "EC_BUFSIZE \<le> frame_len (blit_list (tempinbuf st) 0 bs) ETH_HEADERSIZE + 1"
    and waiting: "rxbufstat st (unat idx) \<noteq> EC_BUF_RCVD"
  shows "ecx_inframe idx n p = None"
  using waiting script frame long
  by (auto simp: ecx_inframe_def st Let_def recvpkt_eq [OF st] sock_recv_frame [OF script(1,3)] Option.bind_eq_None_conv)

definition overlong_frame :: "u8 list" where
  "overlong_frame = [0xff,0xff,0xff,0xff,0xff,0xff, 1,1,1,1,1,1, 0x88,0xa4, 0xff, 0x1f, 4, 1, 0, 0]"

theorem inframe_overlong_faults_witness:
  "ecx_inframe 1 0 (demo_port [Some overlong_frame]) = None"
  by (rule inframe_overlong_faults [of 0 _ "demo_stack [Some overlong_frame]" overlong_frame])
    (simp_all add: demo_port_def demo_stack_def get_stack_def overlong_frame_def get16be_def blit_list_def
      mk16_def frame_len_def get16_def)

section \<open>Where the data comes from\<close>

text \<open>
  What the single-port driver is promised about the rest of the script: a frame that
  carries the index is a complete answer, and no frame is too short to carry an index.
\<close>

definition wire_ok :: "(nat \<Rightarrow> int) \<Rightarrow> u8 \<Rightarrow> ec_stack \<Rightarrow> bool" where
  "wire_ok txl idx st \<longleftrightarrow> (\<forall>bs. Some bs \<in> range (rxscript st) \<longrightarrow> bs = [] \<or>
     18 \<le> length bs \<and> length bs \<le> EC_BUFSIZE \<and>
     (get16be (list_buf bs) 12 = ETH_P_ECAT \<and> bs ! 17 = idx \<longrightarrow> reply_for txl idx bs))"

text \<open>The buffer of \<open>idx\<close> holds the answer \<open>bs\<close>.\<close>

definition holds_reply :: "u8 \<Rightarrow> int \<Rightarrow> u8 list \<Rightarrow> ecx_port \<Rightarrow> bool" where
  "holds_reply idx w bs p \<longleftrightarrow> reply_for (txbuflength p) idx bs \<and> w = reply_wkc bs \<and>
     slice (rxbuf (prim p) (unat idx)) 0 (nat (txbuflength p (unat idx)) - ETH_HEADERSIZE)
       = reply_payload (txbuflength p) idx bs \<and>
     rxbufstat (prim p) (unat idx) = EC_BUF_COMPLETE"

text \<open>The state of a wait for \<open>idx\<close> that began with the port \<open>p0\<close>.\<close>

definition waiting_since :: "ecx_port \<Rightarrow> u8 \<Rightarrow> ecx_port \<Rightarrow> bool" where
  "waiting_since p0 idx p \<longleftrightarrow> range (rxscript (prim p)) \<subseteq> range (rxscript (prim p0)) \<and>
     txbuflength p = txbuflength p0 \<and> redstate p = ECT_RED_NONE \<and> taken idx p"

definition genuine :: "ecx_port \<Rightarrow> u8 \<Rightarrow> int \<times> ecx_port \<Rightarrow> bool" where
  "genuine p0 idx = (\<lambda>(w, p). waiting_since p0 idx p \<and>
     (0 \<le> w \<longrightarrow> (\<exists>bs. Some bs \<in> range (rxscript (prim p0)) \<and> holds_reply idx w bs p)))"

lemma genuine_failure [simp]: "w < 0 \<Longrightarrow> genuine p0 idx (w, p) = waiting_since p0 idx p"
  by (simp add: genuine_def)

lemma inframe_genuine:
  assumes wire: "wire_ok (txbuflength p0) idx (prim p0)" and w: "waiting_since p0 idx p" and i: "unat idx < EC_MAXBUF"
  shows "ensures (ecx_inframe idx 0 p) (genuine p0 idx)"
proof -
  let ?st = "prim p"
  have st: "get_stack 0 p = Some ?st" by (simp add: get_stack_def)
  have ready: "rxbufstat ?st (unat idx) \<noteq> EC_BUF_RCVD" using w by (simp add: waiting_since_def taken_def)
  then have idle: "(unat idx < EC_MAXBUF \<and> rxbufstat ?st (unat idx) = EC_BUF_RCVD) = False" by simp
  show ?thesis
  proof (cases "\<exists>bs. rxscript ?st 0 = Some bs \<and> bs \<noteq> []")
    case False
    then have "\<not> 0 < fst (sock_recv ?st)" "range (rxscript (snd (sock_recv ?st))) \<subseteq> range (rxscript ?st)"
      by (auto simp: sock_recv_def Let_def split: list.splits option.splits)
    then show ?thesis
      using w by (auto simp: ecx_inframe_def st Let_def recvpkt_eq [OF st] idle waiting_since_def taken_def
          split: if_splits)
  next
    case True
    then obtain bs where s: "rxscript ?st 0 = Some bs" and ne: "bs \<noteq> []" by blast
    then have mem: "Some bs \<in> range (rxscript (prim p0))"
      using w script_in_range [of "rxscript ?st" 0 "Some bs"] by (auto simp: waiting_since_def)
    with wire ne have len: "18 \<le> length bs" "length bs \<le> EC_BUFSIZE"
      and rep: "get16be (list_buf bs) 12 = ETH_P_ECAT \<and> bs ! 17 = idx \<Longrightarrow> reply_for (txbuflength p) idx bs"
      using w by (auto simp: wire_ok_def waiting_since_def)
    have f: "get16be (blit_list b 0 bs) 12 = get16be (list_buf bs) 12" "blit_list b 0 bs 17 = bs ! 17" for b
      using len(1) by (simp_all add: get16be_def blit_list_def list_buf_def)
    show ?thesis
    proof (cases "get16be (list_buf bs) 12 = ETH_P_ECAT \<and> bs ! 17 = idx")
      case True
      note r = rep [OF True]
      show ?thesis
        using inframe_match [OF st i s r ready] mem w s r stored_simps [OF r] stored_payload [OF r]
        by (auto simp: genuine_def waiting_since_def holds_reply_def taken_def)
    next
      case False
      have u: "unat idx = unat (bs ! 17) \<Longrightarrow> bs ! 17 = idx" by (simp add: word_unat_eq_iff)
      from False show ?thesis
        using w s ne f ready u
        by (auto simp: ecx_inframe_def idle st Let_def recvpkt_eq [OF st] sock_recv_frame [OF s len(2)]
            waiting_since_def taken_def strip_copy_def ensures_iff Option.bind_eq_Some_conv split: if_splits)
    qed
  qed
qed

lemma waiting_since_osclock [simp]: "waiting_since p0 idx (p\<lparr>osclock := c\<rparr>) = waiting_since p0 idx p"
  by (simp add: waiting_since_def taken_def)

lemma genuine_osclock [simp]: "genuine p0 idx (w, p\<lparr>osclock := c\<rparr>) = genuine p0 idx (w, p)"
  by (simp add: genuine_def holds_reply_def)

lemma poll_again_cases: "\<exists>c'. snd (poll_again c t p) = p\<lparr>osclock := c'\<rparr>"
  by (auto simp: poll_again_eq intro: exI [of _ "osclock p"])

lemma genuine_poll [simp]: "genuine p0 idx (w, snd (poll_again c t p)) = genuine p0 idx (w, p)"
  using poll_again_cases [of c t p] by auto

lemma poll_again_only: "fst (poll_again c t p) \<Longrightarrow> c"
  by (auto simp: poll_again_eq split: if_splits)

lemma waitinframe_genuine:
  assumes wire: "wire_ok (txbuflength p0) idx (prim p0)" and w: "waiting_since p0 idx p" and i: "unat idx < EC_MAXBUF"
  shows "ensures (ecx_waitinframe_red idx timer p) (genuine p0 idx)"
proof -
  have "ensures (do_while (wait_both idx timer) (EC_NOFRAME, 0, p)) (\<lambda>(w, w2, q). genuine p0 idx (w, q))"
  proof (rule do_while_ensures [where P = "\<lambda>(w, w2, q). w \<le> EC_NOFRAME \<and> w2 = 0 \<and> waiting_since p0 idx q"])
    fix s :: "int \<times> int \<times> ecx_port"
    assume "case s of (w, w2, q) \<Rightarrow> w \<le> EC_NOFRAME \<and> w2 = 0 \<and> waiting_since p0 idx q"
    then obtain v q where [simp]: "s = (v, 0, q)" and v: "v \<le> EC_NOFRAME" "waiting_since p0 idx q" by auto
    show "ensures (wait_both idx timer s) (\<lambda>(s', again).
        if again then case s' of (w, w2, q) \<Rightarrow> w \<le> EC_NOFRAME \<and> w2 = 0 \<and> waiting_since p0 idx q
        else case s' of (w, w2, q) \<Rightarrow> genuine p0 idx (w, q))"
    proof (cases "ecx_inframe idx 0 q")
      case None
      with v show ?thesis by (simp add: wait_both_def)
    next
      case (Some r)
      obtain u q' where r: "r = (u, q')" by (cases r)
      have g: "genuine p0 idx (u, q')" using inframe_genuine [OF wire v(2) i] Some r by simp
      then have red: "redstate q' = ECT_RED_NONE" by (simp add: genuine_def waiting_since_def)
      let ?q = "poll_again (u \<le> EC_NOFRAME) timer q'"
      have "wait_both idx timer s = Some ((u, 0, snd ?q), fst ?q)"
        using Some r v red by (simp add: wait_both_def case_prod_unfold Let_def)
      moreover have "fst ?q \<Longrightarrow> u \<le> EC_NOFRAME" by (rule poll_again_only)
      moreover have "genuine p0 idx (u, snd ?q)" using g by simp
      ultimately show ?thesis by (auto simp: genuine_def)
    qed
  qed (use w in simp)
  then have "ensures (do_while (wait_both idx timer) (EC_NOFRAME, 0, p))
      (\<lambda>(w, w2, q). genuine p0 idx (w, q) \<and> redstate q = ECT_RED_NONE)"
    by (rule ensures_mono) (auto simp: genuine_def waiting_since_def)
  then show ?thesis
    using w by (auto simp: ecx_waitinframe_red_def Let_def waiting_since_def elim!: ensures_mono)
qed

lemma outframe_red_waiting:
  assumes "waiting_since p0 idx p \<or> p = p0 \<and> redstate p = ECT_RED_NONE"
  shows "ensures (ecx_outframe_red idx p) (\<lambda>(r, q). waiting_since p0 idx q)"
proof -
  have "redstate p = ECT_RED_NONE" using assms by (auto simp: waiting_since_def)
  then show ?thesis
    using assms
    by (auto simp: ecx_outframe_red_def ecx_outframe_def get_stack_def Let_def case_prod_unfold waiting_since_def
        taken_def put_stack_def)
qed

text \<open>
  Nothing is invented. When send-and-confirm on a single port reports a work counter,
  one of the frames received during the call carried the index, the counter is the one in
  that frame, and the receive buffer of the index holds the frame's datagrams byte for
  byte.
\<close>

lemma srconfirm_genuine:
  assumes wire: "wire_ok (txbuflength p) idx (prim p)" and i: "unat idx < EC_MAXBUF"
    and single: "redstate p = ECT_RED_NONE"
  shows "ensures (ecx_srconfirm idx timeout p) (genuine p idx)"
proof -
  let ?t = "fst (port_timer_start timeout p)"
  obtain c where p1: "snd (port_timer_start timeout p) = p\<lparr>osclock := c\<rparr>"
    by (auto simp: port_timer_start_eq)
  have "ensures (do_while (srconfirm_body idx timeout ?t) (EC_NOFRAME, p\<lparr>osclock := c\<rparr>)) (genuine (p\<lparr>osclock := c\<rparr>) idx)"
  proof (rule do_while_ensures [where P = "\<lambda>(w, q). waiting_since (p\<lparr>osclock := c\<rparr>) idx q \<or>
        q = p\<lparr>osclock := c\<rparr> \<and> redstate q = ECT_RED_NONE"])
    fix s :: "int \<times> ecx_port"
    let ?p0 = "p\<lparr>osclock := c\<rparr>"
    assume s: "case s of (w, q) \<Rightarrow> waiting_since ?p0 idx q \<or> q = ?p0 \<and> redstate q = ECT_RED_NONE"
    obtain v q where [simp]: "s = (v, q)" by (cases s)
    have wire': "wire_ok (txbuflength ?p0) idx (prim ?p0)" using wire by simp
    have "ensures (ecx_outframe_red idx q) (\<lambda>(r, q1). waiting_since ?p0 idx q1)"
      using s by (intro outframe_red_waiting) simp
    moreover have "ensures (ecx_waitinframe_red idx t2 (snd (port_timer_start t q1))) (genuine ?p0 idx)"
      if "waiting_since ?p0 idx q1" for q1 t2 t
      by (rule waitinframe_genuine [OF wire' _ i]) (use that in \<open>simp add: port_timer_start_eq\<close>)
    moreover have "if fst (poll_again (u \<le> EC_NOFRAME) ?t q3)
        then waiting_since ?p0 idx (snd (poll_again (u \<le> EC_NOFRAME) ?t q3))
        else genuine ?p0 idx (u, snd (poll_again (u \<le> EC_NOFRAME) ?t q3))" if "genuine ?p0 idx (u, q3)" for u q3
    proof -
      have "genuine ?p0 idx (u, snd (poll_again (u \<le> EC_NOFRAME) ?t q3))" using that by simp
      then show ?thesis by (simp add: genuine_def)
    qed
    ultimately show "ensures (srconfirm_body idx timeout ?t s) (\<lambda>(s', again).
        if again then case s' of (w, q) \<Rightarrow> waiting_since ?p0 idx q \<or> q = ?p0 \<and> redstate q = ECT_RED_NONE
        else genuine ?p0 idx s')"
      unfolding srconfirm_body_def by (fastforce simp: case_prod_unfold Let_def elim!: ensures_mono split: if_splits)
  qed (use single in simp)
  moreover have "genuine (p\<lparr>osclock := c\<rparr>) idx = genuine p idx"
    by (rule ext) (simp add: genuine_def waiting_since_def)
  ultimately show ?thesis
    using p1 by (simp add: ecx_srconfirm_def case_prod_unfold Let_def)
qed

lemma srconfirm_reply:
  assumes "wire_ok (txbuflength p) idx (prim p)" "unat idx < EC_MAXBUF" "redstate p = ECT_RED_NONE"
    and "ecx_srconfirm idx timeout p = Some (w, q)" "0 \<le> w"
  shows "\<exists>bs. Some bs \<in> range (rxscript (prim p)) \<and> holds_reply idx w bs q"
  using srconfirm_genuine [OF assms(1-3), of timeout] assms(4,5) by (auto simp: genuine_def)

section \<open>The redundant ring\<close>


definition ring_port :: ecx_port where
  "ring_port = (demo_port [])\<lparr>redstate := ECT_RED_DOUBLE,
     prim := demo_stack [Some ([0,0,0,0,0,0,1,1,4,4,1,1,0x88,0xa4] @ drop 14 (demo_frame 7 1 [0, 0] 0))],
     redport := Some (demo_stack [Some (demo_frame 4 1 [7, 8] 3)])\<rparr>"


section \<open>Set-up\<close>

definition has_header :: "buf \<Rightarrow> bool" where
  "has_header b \<longleftrightarrow> slice b 0 6 = [0xff, 0xff, 0xff, 0xff, 0xff, 0xff] \<and> get16be b 8 = priMAC \<and> get16be b 12 = ETH_P_ECAT"

lemma header_bytes:
  "hi8 0xffff = 0xff" "lo8 0xffff = 0xff" "hi8 0x0101 = 1" "lo8 0x0101 = 1" "hi8 ETH_P_ECAT = 0x88"
  "lo8 ETH_P_ECAT = 0xa4" "mk16 0xa4 0x88 = ETH_P_ECAT" "mk16 1 1 = 0x0101" "[0..<6] = [0, 1, 2, 3, 4, 5 :: nat]"
  by code_simp+

lemma has_header_setup: "has_header (ec_setupheader b)"
  by (simp add: has_header_def ec_setupheader_def put16be_def get16be_def slice_def header_bytes)

text \<open>
  Setting up a single port that is to receive well-formed frames establishes the
  invariant of the driver: no index is in use, every transmit buffer carries the Ethernet
  header, and the result tells whether the socket could be bound.
\<close>

theorem setupnic_establishes:
  assumes wire: "\<And>bs. Some bs \<in> range (rxscript (prim p)) \<Longrightarrow> frame_ok bs" and clock: "clock_live (osclock p)"
    and "redport p = None"
    and ret: "ecx_setupnic fd bound False p = (r, q)"
  shows "port_inv q \<and> (r = 1 \<longleftrightarrow> bound = 0) \<and> lastidx q = 0 \<and> redstate q = ECT_RED_NONE \<and> sock (prim q) = fd \<and>
    (\<forall>i < EC_MAXBUF. rxbufstat (prim q) i = EC_BUF_EMPTY \<and> has_header (txbuf q i)) \<and> has_header (txbuf2 q)"
  using assms has_header_setup
  by (auto simp: ecx_setupnic_def Let_def port_inv_def stack_inv_def red_ok_def ecx_clear_rxbufstat_def
      split: if_splits)

theorem setupnic_establishes_witness:
  "port_inv (snd (ecx_setupnic 3 0 False (demo_port [])))"
  using setupnic_establishes [of "demo_port []" 3 0 "fst (ecx_setupnic 3 0 False (demo_port []))"
      "snd (ecx_setupnic 3 0 False (demo_port []))"]
  by (simp add: demo_port_def demo_stack_def demo_clock_live)

end
