(* ===== verification/FrameLife.thy ===== *)
theory FrameLife
  imports NicdrvProps
begin

text \<open>
  The life of a frame index when several tasks of the application share one port: a task
  allocates an index, sends its frame (again, if need be), reads until its answer is
  there and releases the index. Every critical section of \<^verbatim>\<open>nicdrv.c\<close> is one step, and the
  steps of the tasks interleave in any order. The question is whether an index ever
  belongs to two tasks.
\<close>

datatype frame_op =
    Acquire nat
  | Transmit nat u8
  | Receive nat u8
  | Release nat u8

text \<open>\<open>owners s i\<close>: the tasks that have allocated the index \<open>i\<close> and not released it yet.\<close>

record frame_sys =
  fport :: ecx_port
  owners :: "nat \<Rightarrow> nat list"

text \<open>
  A task allocates only while fewer than all indices are owned, and uses only indices it
  owns: what the callers in the library do.
\<close>

definition index_free :: "frame_sys \<Rightarrow> bool" where
  "index_free s \<longleftrightarrow> list_ex (\<lambda>i. owners s i = []) [0 ..< EC_MAXBUF]"

fun frame_exec :: "frame_op \<Rightarrow> frame_sys \<Rightarrow> frame_sys option" where
  "frame_exec (Acquire t) s = do {
     chk (index_free s);
     (i, p) \<leftarrow> ecx_getindex (fport s);
     Some (s\<lparr>fport := p, owners := (owners s)(unat i := t # owners s (unat i))\<rparr>)
   }"
| "frame_exec (Transmit t i) s = do {
     chk (t \<in> set (owners s (unat i)));
     (_, p) \<leftarrow> ecx_outframe_red i (fport s);
     Some (s\<lparr>fport := p\<rparr>)
   }"
| "frame_exec (Receive t i) s = do {
     chk (t \<in> set (owners s (unat i)));
     (_, p) \<leftarrow> ecx_inframe i 0 (fport s);
     Some (s\<lparr>fport := p\<rparr>)
   }"
| "frame_exec (Release t i) s = do {
     chk (t \<in> set (owners s (unat i)));
     p \<leftarrow> ecx_setbufstat i EC_BUF_EMPTY (fport s);
     Some (s\<lparr>fport := p, owners := (owners s)(unat i := remove1 t (owners s (unat i)))\<rparr>)
   }"

fun frame_run :: "frame_op list \<Rightarrow> frame_sys \<Rightarrow> frame_sys option" where
  "frame_run [] s = Some s"
| "frame_run (x # xs) s = do { s \<leftarrow> frame_exec x s; frame_run xs s }"

inductive frame_reach :: "frame_sys \<Rightarrow> frame_sys \<Rightarrow> bool" for s0 where
  start: "frame_reach s0 s0"
| step: "frame_reach s0 s \<Longrightarrow> frame_exec x s = Some t \<Longrightarrow> frame_reach s0 t"

inductive_cases frame_reachE: "frame_reach s0 t"

lemma frame_run_reach: "frame_reach s0 s \<Longrightarrow> frame_run xs s = Some t \<Longrightarrow> frame_reach s0 t"
  by (induction xs arbitrary: s) (auto simp: Option.bind_eq_Some_conv intro: frame_reach.step)

section \<open>What the steps do to the buffer states\<close>

lemma setbufstat_Some:
  "ecx_setbufstat i s p = Some q \<Longrightarrow> unat i < EC_MAXBUF \<and>
     rxbufstat (prim q) = (rxbufstat (prim p))(unat i := s) \<and> sndscript (prim q) = sndscript (prim p)"
  by (auto simp: ecx_setbufstat_def Let_def Option.bind_eq_Some_conv split: if_splits)

lemma getindex_Some:
  "ecx_getindex p = Some (i, q) \<Longrightarrow> unat i < EC_MAXBUF \<and>
     i = getindex_scan EC_MAXBUF (rxbufstat (prim p)) (next_idx (lastidx p)) \<and>
     rxbufstat (prim q) = (rxbufstat (prim p))(unat i := EC_BUF_ALLOC) \<and> sndscript (prim q) = sndscript (prim p)"
  by (auto simp: ecx_getindex_def Let_def Option.bind_eq_Some_conv dest: setbufstat_Some)

lemma sent_stack_ok:
  assumes "Some (-1) \<notin> range (sndscript st)" "0 \<le> lp"
  shows "rxbufstat (sent_stack i lp st) = (rxbufstat st)(i := EC_BUF_TX) \<and>
     range (sndscript (sent_stack i lp st)) \<subseteq> range (sndscript st)"
proof -
  have "sndscript st 0 \<noteq> Some (-1)" using assms(1) by (metis rangeI)
  with assms(2) range_script_tl [of "sndscript st"] show ?thesis
    by (auto simp: sent_stack_eq sock_send_def simp del: range_subsetD split: option.splits)
qed

lemma outframe_red_Some:
  assumes "ecx_outframe_red i p = Some (r, q)" "Some (-1) \<notin> range (sndscript (prim p))"
  shows "rxbufstat (prim q) = (rxbufstat (prim p))(unat i := EC_BUF_TX) \<and> range (sndscript (prim q)) \<subseteq> range (sndscript (prim p))"
  using assms sent_stack_ok [of "prim p" "txbuflength p (unat i)" "unat i"]
  by (auto simp: ecx_outframe_red_def ecx_outframe_def get_stack_def Let_def case_prod_unfold sent_stack_eq
      put_stack_def Option.bind_eq_Some_conv split: if_splits)

text \<open>Receiving for \<open>idx\<close> completes \<open>idx\<close>, fills a waiting buffer, or changes nothing.\<close>

lemma inframe_Some:
  assumes "ecx_inframe idx 0 p = Some (w, q)"
  shows "sndscript (prim q) = sndscript (prim p) \<and>
    (rxbufstat (prim q) k = rxbufstat (prim p) k \<or> k = unat idx \<and> rxbufstat (prim q) k = EC_BUF_COMPLETE \<or>
     rxbufstat (prim p) k = EC_BUF_TX \<and> rxbufstat (prim q) k = EC_BUF_RCVD)"
proof -
  have st: "get_stack 0 p = Some (prim p)" by (simp add: get_stack_def)
  have store [simp]: "sndscript (store_rx i b s st) = sndscript st" for i b s st by (simp add: store_rx_def)
  show ?thesis
    using assms
    by (auto simp: ecx_inframe_def st recvpkt_eq [OF st] Let_def Option.bind_eq_Some_conv split: if_splits)
qed

section \<open>Exclusive ownership\<close>

definition life_inv :: "frame_sys \<Rightarrow> bool" where
  "life_inv s \<longleftrightarrow> (\<forall>i<EC_MAXBUF. (rxbufstat (prim (fport s)) i = EC_BUF_EMPTY \<longleftrightarrow> owners s i = []) \<and>
     length (owners s i) \<le> 1) \<and> Some (-1) \<notin> range (sndscript (prim (fport s)))"

lemma getindex_scan_free:
  assumes "j < EC_MAXBUF" "stat j = EC_BUF_EMPTY"
  shows "stat (unat (getindex_scan EC_MAXBUF stat (next_idx l))) = EC_BUF_EMPTY"
proof -
  let ?n = "unat (next_idx l)"
  let ?k = "(j + EC_MAXBUF - ?n) mod EC_MAXBUF"
  have n: "?n < EC_MAXBUF" by (rule next_idx_range)
  have k: "(?n + ?k) mod EC_MAXBUF = j" using n assms(1) by (simp add: mod_simps)
  show ?thesis
  proof (rule getindex_scan_hit [OF n])
    show "?k < EC_MAXBUF" by simp
    show "stat ((?n + ?k) mod EC_MAXBUF) = EC_BUF_EMPTY" unfolding k by (rule assms(2))
  qed
qed

lemma life_inv_step:
  assumes inv: "life_inv s" and ex: "frame_exec x s = Some t"
  shows "life_inv t"
proof (cases x)
  case (Acquire a)
  with ex obtain i p where g: "ecx_getindex (fport s) = Some (i, p)" and free: "index_free s"
    and t: "t = s\<lparr>fport := p, owners := (owners s)(unat i := a # owners s (unat i))\<rparr>"
    by (auto simp: Option.bind_eq_Some_conv)
  from free obtain j where "j < EC_MAXBUF" "owners s j = []"
    by (auto simp: index_free_def list_ex_iff)
  with inv have "j < EC_MAXBUF" "rxbufstat (prim (fport s)) j = EC_BUF_EMPTY" by (auto simp: life_inv_def)
  then have "rxbufstat (prim (fport s)) (unat i) = EC_BUF_EMPTY"
    using getindex_Some [OF g] getindex_scan_free by auto
  then have "owners s (unat i) = []" using inv getindex_Some [OF g] by (auto simp: life_inv_def)
  then show ?thesis using inv getindex_Some [OF g] by (auto simp: life_inv_def t)
next
  case (Transmit a i)
  with ex obtain r p where o: "ecx_outframe_red i (fport s) = Some (r, p)" and own: "a \<in> set (owners s (unat i))"
    and t: "t = s\<lparr>fport := p\<rparr>"
    by (auto simp: Option.bind_eq_Some_conv)
  have snd: "Some (-1) \<notin> range (sndscript (prim (fport s)))" using inv by (simp add: life_inv_def)
  from outframe_red_Some [OF o snd] inv own show ?thesis by (auto simp: life_inv_def t)
next
  case (Receive a i)
  with ex obtain r p where r: "ecx_inframe i 0 (fport s) = Some (r, p)" and own: "a \<in> set (owners s (unat i))"
    and t: "t = s\<lparr>fport := p\<rparr>"
    by (auto simp: Option.bind_eq_Some_conv)
  have "rxbufstat (prim p) k = EC_BUF_EMPTY \<longleftrightarrow> rxbufstat (prim (fport s)) k = EC_BUF_EMPTY" if "k < EC_MAXBUF" for k
    using inframe_Some [OF r, of k] inv own that by (auto simp: life_inv_def)
  with inv inframe_Some [OF r] show ?thesis by (auto simp: life_inv_def t)
next
  case (Release a i)
  with ex obtain p where r: "ecx_setbufstat i EC_BUF_EMPTY (fport s) = Some p" and own: "a \<in> set (owners s (unat i))"
    and t: "t = s\<lparr>fport := p, owners := (owners s)(unat i := remove1 a (owners s (unat i)))\<rparr>"
    by (auto simp: Option.bind_eq_Some_conv)
  have "length (owners s (unat i)) \<le> 1" using inv setbufstat_Some [OF r] by (auto simp: life_inv_def)
  with own have "owners s (unat i) = [a]" by (cases "owners s (unat i)") auto
  then show ?thesis using inv setbufstat_Some [OF r] by (auto simp: life_inv_def t)
qed

definition fresh_sys :: "ecx_port \<Rightarrow> frame_sys" where
  "fresh_sys p = \<lparr>fport = p, owners = (\<lambda>_. [])\<rparr>"

lemma frame_reach_inv: "frame_reach s0 s \<Longrightarrow> life_inv s0 \<Longrightarrow> life_inv s"
  by (induction rule: frame_reach.induct) (auto intro: life_inv_step)



text \<open>
  The hypothesis on the interface is needed. When \<^verbatim>\<open>send\<close> fails the driver marks the
  buffer empty although the caller still waits on the index and will release it; another
  task can then allocate the same index.
\<close>

definition failing_sys :: frame_sys where
  "failing_sys = fresh_sys ((demo_port [])\<lparr>prim := (demo_stack [])\<lparr>sndscript := script_of [Some (-1)] None\<rparr>\<rparr>)"

definition failing_ops :: "frame_op list" where
  "failing_ops = [Acquire 0, Transmit 0 1] @
     concat (map (\<lambda>i. [Acquire 1, Release 1 i]) [2, 3, 4, 5, 6, 7, 8, 9, 10, 11, 12, 13, 14, 15, 0]) @ [Acquire 1]"

theorem frame_index_shared_after_failed_send:
  "\<exists>s. frame_reach failing_sys s \<and> owners s 1 = [1, 0]"
proof -
  have "map_option (\<lambda>s. owners s 1) (frame_run failing_ops failing_sys) = Some [1, 0]"
    by code_simp
  then obtain s where "frame_run failing_ops failing_sys = Some s" "owners s 1 = [1, 0]" by auto
  then show ?thesis using frame_run_reach [OF frame_reach.start] by blast
qed

end
