(* ===== verification/Datagram.thy ===== *)
theory Datagram
  imports NicdrvProps
begin

text \<open>
  EtherCAT datagrams, \<^verbatim>\<open>soem/ethercatbase.c\<close>: writing a datagram into a transmit buffer,
  appending further ones to it, and the blocking primitives that send one datagram and
  hand back the data of its answer. A buffer passed by the caller is a list of bytes; a
  primitive that reads returns the buffer as it leaves it.
\<close>

section \<open>Commands\<close>

abbreviation EC_CMD_NOP :: u8 where "EC_CMD_NOP \<equiv> 0x00"
abbreviation EC_CMD_APRD :: u8 where "EC_CMD_APRD \<equiv> 0x01"
abbreviation EC_CMD_APWR :: u8 where "EC_CMD_APWR \<equiv> 0x02"
abbreviation EC_CMD_FPRD :: u8 where "EC_CMD_FPRD \<equiv> 0x04"
abbreviation EC_CMD_FPWR :: u8 where "EC_CMD_FPWR \<equiv> 0x05"
abbreviation EC_CMD_BRD :: u8 where "EC_CMD_BRD \<equiv> 0x07"
abbreviation EC_CMD_BWR :: u8 where "EC_CMD_BWR \<equiv> 0x08"
abbreviation EC_CMD_LRD :: u8 where "EC_CMD_LRD \<equiv> 0x0a"
abbreviation EC_CMD_LWR :: u8 where "EC_CMD_LWR \<equiv> 0x0b"
abbreviation EC_CMD_LRW :: u8 where "EC_CMD_LRW \<equiv> 0x0c"
abbreviation EC_CMD_ARMW :: u8 where "EC_CMD_ARMW \<equiv> 0x0d"
abbreviation EC_CMD_FRMW :: u8 where "EC_CMD_FRMW \<equiv> 0x0e"
abbreviation EC_ECATTYPE :: u16 where "EC_ECATTYPE \<equiv> 0x1000"
abbreviation EC_DATAGRAMFOLLOWS :: u16 where "EC_DATAGRAMFOLLOWS \<equiv> 0x8000"

text \<open>The largest data part of a single datagram that fits the buffer.\<close>

abbreviation EC_MAXDATA :: nat where "EC_MAXDATA \<equiv> 1490"

section \<open>Building frames\<close>

text \<open>The buffer a frame pointer points to: \<^verbatim>\<open>&(port->txbuf[i])\<close> or \<^verbatim>\<open>&(port->txbuf2)\<close>.\<close>

datatype frame_ref = Tx nat | Tx2

primrec get_frame :: "frame_ref \<Rightarrow> ecx_port \<Rightarrow> buf option" where
  "get_frame (Tx i) p = (if i < EC_MAXBUF then Some (txbuf p i) else None)"
| "get_frame Tx2 p = Some (txbuf2 p)"

primrec put_frame :: "frame_ref \<Rightarrow> buf \<Rightarrow> ecx_port \<Rightarrow> ecx_port" where
  "put_frame (Tx i) b p = p\<lparr>txbuf := (txbuf p)(i := b)\<rparr>"
| "put_frame Tx2 b p = p\<lparr>txbuf2 := b\<rparr>"

definition no_data_cmd :: "u8 \<Rightarrow> bool" where
  "no_data_cmd com \<longleftrightarrow> com = EC_CMD_NOP \<or> com = EC_CMD_APRD \<or> com = EC_CMD_FPRD \<or> com = EC_CMD_BRD \<or> com = EC_CMD_LRD"

definition ecx_writedatagramdata :: "buf \<Rightarrow> nat \<Rightarrow> u8 \<Rightarrow> u16 \<Rightarrow> u8 list \<Rightarrow> buf option" where
  "ecx_writedatagramdata b off com len data =
     (if len > 0 then do {
        chk (off + unat len \<le> EC_BUFSIZE);
        if no_data_cmd com then Some (blit_list b off (replicate (unat len) 0))
        else do { chk (unat len \<le> length data); Some (blit_list b off (take (unat len) data)) }
      } else Some b)"

text \<open>Command, index, addresses and length, two bytes behind \<open>off\<close> (where \<^verbatim>\<open>elength\<close> is).\<close>

definition put_header :: "buf \<Rightarrow> nat \<Rightarrow> u8 \<Rightarrow> u8 \<Rightarrow> u16 \<Rightarrow> u16 \<Rightarrow> u16 \<Rightarrow> buf" where
  "put_header b off com idx ADP ADO dlength =
     put16 (put16 (put16 (b(off + 2 := com, off + 3 := idx)) (off + 4) ADP) (off + 6) ADO) (off + 8) dlength"

definition ecx_setupdatagram ::
    "frame_ref \<Rightarrow> u8 \<Rightarrow> u8 \<Rightarrow> u16 \<Rightarrow> u16 \<Rightarrow> u16 \<Rightarrow> u8 list \<Rightarrow> ecx_port \<Rightarrow> ecx_port option" where
  "ecx_setupdatagram frame com idx ADP ADO len data p = do {
     b \<leftarrow> get_frame frame p;
     let n = unat len;
     chk (ETH_HEADERSIZE + EC_HEADERSIZE + n + 2 \<le> EC_BUFSIZE);
     let b = put16 b ETH_HEADERSIZE (EC_ECATTYPE + of_nat EC_HEADERSIZE + len);
     let b = put_header b ETH_HEADERSIZE com idx ADP ADO len;
     b \<leftarrow> ecx_writedatagramdata b (ETH_HEADERSIZE + EC_HEADERSIZE) com len data;
     let b = b(ETH_HEADERSIZE + EC_HEADERSIZE + n := 0, ETH_HEADERSIZE + EC_HEADERSIZE + n + 1 := 0);
     chk (unat idx < EC_MAXBUF);
     Some ((put_frame frame b p)\<lparr>txbuflength := (txbuflength p)
       (unat idx := int (ETH_HEADERSIZE + EC_HEADERSIZE + EC_WKCSIZE + n))\<rparr>)
   }"

definition ecx_adddatagram ::
    "frame_ref \<Rightarrow> u8 \<Rightarrow> u8 \<Rightarrow> bool \<Rightarrow> u16 \<Rightarrow> u16 \<Rightarrow> u16 \<Rightarrow> u8 list \<Rightarrow> ecx_port \<Rightarrow> (u16 \<times> ecx_port) option" where
  "ecx_adddatagram frame com idx follows ADP ADO len data p = do {
     b \<leftarrow> get_frame frame p;
     chk (unat idx < EC_MAXBUF);
     let prevlength = (word_of_int (txbuflength p (unat idx)) :: u16);
     let pl = unat prevlength;
     let n = unat len;
     chk (EC_ELENGTHSIZE \<le> pl \<and> pl + EC_HEADERSIZE - EC_ELENGTHSIZE + n + 2 \<le> EC_BUFSIZE);
     let b = put16 b ETH_HEADERSIZE (get16 b ETH_HEADERSIZE + of_nat EC_HEADERSIZE + len);
     let b = put16 b (ETH_HEADERSIZE + 8) (get16 b (ETH_HEADERSIZE + 8) OR EC_DATAGRAMFOLLOWS);
     let b = put_header b (pl - EC_ELENGTHSIZE) com idx ADP ADO (if follows then len OR EC_DATAGRAMFOLLOWS else len);
     let off = pl + EC_HEADERSIZE - EC_ELENGTHSIZE;
     b \<leftarrow> ecx_writedatagramdata b off com len data;
     let b = b(off + n := 0, off + n + 1 := 0);
     Some (of_nat off - of_nat ETH_HEADERSIZE, (put_frame frame b p)\<lparr>txbuflength := (txbuflength p)
       (unat idx := int (off + EC_WKCSIZE + n))\<rparr>)
   }"

section \<open>Primitives\<close>

text \<open>\<^verbatim>\<open>memcpy(data, &(port->rxbuf[idx][off]), n)\<close>: the caller's buffer afterwards.\<close>

definition copy_out :: "ecx_port \<Rightarrow> u8 \<Rightarrow> nat \<Rightarrow> nat \<Rightarrow> u8 list \<Rightarrow> u8 list option" where
  "copy_out p idx off n data = do {
     chk (unat idx < EC_MAXBUF \<and> off + n \<le> EC_BUFSIZE \<and> n \<le> length data);
     Some (slice (rxbuf (prim p) (unat idx)) off n @ drop n data)
   }"

text \<open>The body shared by the primitives that only write (BWR, APWR, FPWR, LWR).\<close>

definition write_primitive :: "u8 \<Rightarrow> u16 \<Rightarrow> u16 \<Rightarrow> u16 \<Rightarrow> u8 list \<Rightarrow> int \<Rightarrow> ecx_port \<Rightarrow> (int \<times> ecx_port) option" where
  "write_primitive com ADP ADO len data timeout p = do {
     (idx, p) \<leftarrow> ecx_getindex p;
     p \<leftarrow> ecx_setupdatagram (Tx (unat idx)) com idx ADP ADO len data p;
     (wkc, p) \<leftarrow> ecx_srconfirm idx timeout p;
     p \<leftarrow> ecx_setbufstat idx EC_BUF_EMPTY p;
     Some (wkc, p)
   }"

text \<open>
  The body shared by the primitives that read. \<open>accept\<close> is the further condition of the
  logical ones, on the command of the answer.
\<close>

definition read_primitive ::
    "(u8 \<Rightarrow> bool) \<Rightarrow> u8 \<Rightarrow> u16 \<Rightarrow> u16 \<Rightarrow> u16 \<Rightarrow> u8 list \<Rightarrow> int \<Rightarrow> ecx_port \<Rightarrow> (int \<times> u8 list \<times> ecx_port) option" where
  "read_primitive accept com ADP ADO len data timeout p = do {
     (idx, p) \<leftarrow> ecx_getindex p;
     p \<leftarrow> ecx_setupdatagram (Tx (unat idx)) com idx ADP ADO len data p;
     (wkc, p) \<leftarrow> ecx_srconfirm idx timeout p;
     data \<leftarrow> (if wkc > 0 \<and> accept (rxbuf (prim p) (unat idx) EC_CMDOFFSET)
              then copy_out p idx EC_HEADERSIZE (unat len) data else Some data);
     p \<leftarrow> ecx_setbufstat idx EC_BUF_EMPTY p;
     Some (wkc, data, p)
   }"

definition ecx_BWR :: "u16 \<Rightarrow> u16 \<Rightarrow> u16 \<Rightarrow> u8 list \<Rightarrow> int \<Rightarrow> ecx_port \<Rightarrow> (int \<times> ecx_port) option" where
  "ecx_BWR = write_primitive EC_CMD_BWR"

definition ecx_BRD :: "u16 \<Rightarrow> u16 \<Rightarrow> u16 \<Rightarrow> u8 list \<Rightarrow> int \<Rightarrow> ecx_port \<Rightarrow> (int \<times> u8 list \<times> ecx_port) option" where
  "ecx_BRD = read_primitive (\<lambda>_. True) EC_CMD_BRD"

definition ecx_APRD :: "u16 \<Rightarrow> u16 \<Rightarrow> u16 \<Rightarrow> u8 list \<Rightarrow> int \<Rightarrow> ecx_port \<Rightarrow> (int \<times> u8 list \<times> ecx_port) option" where
  "ecx_APRD = read_primitive (\<lambda>_. True) EC_CMD_APRD"

definition ecx_ARMW :: "u16 \<Rightarrow> u16 \<Rightarrow> u16 \<Rightarrow> u8 list \<Rightarrow> int \<Rightarrow> ecx_port \<Rightarrow> (int \<times> u8 list \<times> ecx_port) option" where
  "ecx_ARMW = read_primitive (\<lambda>_. True) EC_CMD_ARMW"

definition ecx_FRMW :: "u16 \<Rightarrow> u16 \<Rightarrow> u16 \<Rightarrow> u8 list \<Rightarrow> int \<Rightarrow> ecx_port \<Rightarrow> (int \<times> u8 list \<times> ecx_port) option" where
  "ecx_FRMW = read_primitive (\<lambda>_. True) EC_CMD_FRMW"

definition ecx_FPRD :: "u16 \<Rightarrow> u16 \<Rightarrow> u16 \<Rightarrow> u8 list \<Rightarrow> int \<Rightarrow> ecx_port \<Rightarrow> (int \<times> u8 list \<times> ecx_port) option" where
  "ecx_FPRD = read_primitive (\<lambda>_. True) EC_CMD_FPRD"

definition ecx_APWR :: "u16 \<Rightarrow> u16 \<Rightarrow> u16 \<Rightarrow> u8 list \<Rightarrow> int \<Rightarrow> ecx_port \<Rightarrow> (int \<times> ecx_port) option" where
  "ecx_APWR = write_primitive EC_CMD_APWR"

definition ecx_FPWR :: "u16 \<Rightarrow> u16 \<Rightarrow> u16 \<Rightarrow> u8 list \<Rightarrow> int \<Rightarrow> ecx_port \<Rightarrow> (int \<times> ecx_port) option" where
  "ecx_FPWR = write_primitive EC_CMD_FPWR"

definition ecx_APRDw :: "u16 \<Rightarrow> u16 \<Rightarrow> int \<Rightarrow> ecx_port \<Rightarrow> (u16 \<times> ecx_port) option" where
  "ecx_APRDw ADP ADO timeout p = do {
     (_, w, p) \<leftarrow> ecx_APRD ADP ADO 2 (enc16 0) timeout p;
     Some (dec16 w, p)
   }"

definition ecx_FPRDw :: "u16 \<Rightarrow> u16 \<Rightarrow> int \<Rightarrow> ecx_port \<Rightarrow> (u16 \<times> ecx_port) option" where
  "ecx_FPRDw ADP ADO timeout p = do {
     (_, w, p) \<leftarrow> ecx_FPRD ADP ADO 2 (enc16 0) timeout p;
     Some (dec16 w, p)
   }"

definition ecx_APWRw :: "u16 \<Rightarrow> u16 \<Rightarrow> u16 \<Rightarrow> int \<Rightarrow> ecx_port \<Rightarrow> (int \<times> ecx_port) option" where
  "ecx_APWRw ADP ADO data timeout p = ecx_APWR ADP ADO 2 (enc16 data) timeout p"

definition ecx_FPWRw :: "u16 \<Rightarrow> u16 \<Rightarrow> u16 \<Rightarrow> int \<Rightarrow> ecx_port \<Rightarrow> (int \<times> ecx_port) option" where
  "ecx_FPWRw ADP ADO data timeout p = ecx_FPWR ADP ADO 2 (enc16 data) timeout p"

definition LO_WORD :: "u32 \<Rightarrow> u16" where "LO_WORD l = ucast l"
definition HI_WORD :: "u32 \<Rightarrow> u16" where "HI_WORD l = ucast (drop_bit 16 l)"

definition ecx_LRW :: "u32 \<Rightarrow> u16 \<Rightarrow> u8 list \<Rightarrow> int \<Rightarrow> ecx_port \<Rightarrow> (int \<times> u8 list \<times> ecx_port) option" where
  "ecx_LRW LogAdr = read_primitive (\<lambda>c. c = EC_CMD_LRW) EC_CMD_LRW (LO_WORD LogAdr) (HI_WORD LogAdr)"

definition ecx_LRD :: "u32 \<Rightarrow> u16 \<Rightarrow> u8 list \<Rightarrow> int \<Rightarrow> ecx_port \<Rightarrow> (int \<times> u8 list \<times> ecx_port) option" where
  "ecx_LRD LogAdr = read_primitive (\<lambda>c. c = EC_CMD_LRD) EC_CMD_LRD (LO_WORD LogAdr) (HI_WORD LogAdr)"

definition ecx_LWR :: "u32 \<Rightarrow> u16 \<Rightarrow> u8 list \<Rightarrow> int \<Rightarrow> ecx_port \<Rightarrow> (int \<times> ecx_port) option" where
  "ecx_LWR LogAdr = write_primitive EC_CMD_LWR (LO_WORD LogAdr) (HI_WORD LogAdr)"

abbreviation ECT_REG_DCSYSTIME :: u16 where "ECT_REG_DCSYSTIME \<equiv> 0x0910"

text \<open>
  \<^verbatim>\<open>ecx_LRWDC\<close>. The length of the second datagram is \<^verbatim>\<open>sizeof(DCtime)\<close>, the size of a
  pointer of the target, here the parameter \<open>ptrsize\<close>; the copy back takes eight bytes.
\<close>

definition ecx_LRWDC ::
    "u16 \<Rightarrow> u32 \<Rightarrow> u16 \<Rightarrow> u8 list \<Rightarrow> u16 \<Rightarrow> u64 \<Rightarrow> int \<Rightarrow> ecx_port \<Rightarrow> (int \<times> u8 list \<times> u64 \<times> ecx_port) option" where
  "ecx_LRWDC ptrsize LogAdr len data DCrs DCtime timeout p = do {
     (idx, p) \<leftarrow> ecx_getindex p;
     p \<leftarrow> ecx_setupdatagram (Tx (unat idx)) EC_CMD_LRW idx (LO_WORD LogAdr) (HI_WORD LogAdr) len data p;
     (DCtO, p) \<leftarrow> ecx_adddatagram (Tx (unat idx)) EC_CMD_FRMW idx False DCrs ECT_REG_DCSYSTIME ptrsize (enc64 DCtime) p;
     (wkc, p) \<leftarrow> ecx_srconfirm idx timeout p;
     (wkc, data, DCtime) \<leftarrow> (if wkc > 0 \<and> rxbuf (prim p) (unat idx) EC_CMDOFFSET = EC_CMD_LRW then do {
         data \<leftarrow> copy_out p idx EC_HEADERSIZE (unat len) data;
         w \<leftarrow> copy_out p idx (EC_HEADERSIZE + unat len) EC_WKCSIZE (enc16 0);
         t \<leftarrow> copy_out p idx (unat DCtO) 8 (enc64 DCtime);
         Some (wkc - wkc mod 65536 + uint (dec16 w), data, dec64 t)
       } else Some (wkc, data, DCtime));
     p \<leftarrow> ecx_setbufstat idx EC_BUF_EMPTY p;
     Some (wkc, data, DCtime, p)
   }"

end
