(* ===== verification/DatagramProps.thy ===== *)
theory DatagramProps
  imports Datagram
begin

text \<open>
  Properties of the datagram layer: the primitives always return and give their frame index
  back, what a read hands out is what the slaves put into the frame, and a frame built
  datagram by datagram reads back as the requests that went into it.
\<close>

section \<open>How a primitive may change the port\<close>

text \<open>
  Seen from outside, a blocking primitive keeps the mode of the port and every index that
  was not in use is not in use afterwards. The layers above only see this.
\<close>

definition port_prog :: "ecx_port \<Rightarrow> ecx_port \<Rightarrow> bool" where
  "port_prog p q \<longleftrightarrow> redstate q = redstate p \<and> (redport q = None \<longleftrightarrow> redport p = None) \<and>
     txbuflength2 q = txbuflength2 p \<and> clock_left (osclock q) \<le> clock_left (osclock p) \<and>
     (\<forall>i. rxbufstat (prim p) i = EC_BUF_EMPTY \<longrightarrow> rxbufstat (prim q) i = EC_BUF_EMPTY)"

lemma port_prog_refl [simp, intro]: "port_prog p p"
  by (simp add: port_prog_def)

lemma port_prog_trans [trans]: "port_prog a b \<Longrightarrow> port_prog b c \<Longrightarrow> port_prog a c"
  by (auto simp: port_prog_def)

lemma port_prog_clock: "port_prog p q \<Longrightarrow> clock_left (osclock q) \<le> clock_left (osclock p)"
  by (simp add: port_prog_def)

text \<open>The condition under which an operation may be called, and what it guarantees after.\<close>

definition port_ok :: "ecx_port \<Rightarrow> ecx_port \<Rightarrow> bool" where
  "port_ok p q \<longleftrightarrow> port_inv q \<and> port_prog p q"

lemma port_ok_refl: "port_inv p \<Longrightarrow> port_ok p p"
  by (simp add: port_ok_def)

lemma port_ok_trans [trans]: "port_ok a b \<Longrightarrow> port_ok b c \<Longrightarrow> port_ok a c"
  by (auto simp: port_ok_def intro: port_prog_trans)

lemma port_ok_inv: "port_ok p q \<Longrightarrow> port_inv q"
  by (simp add: port_ok_def)

section \<open>Setting up a datagram\<close>

lemma writedatagramdata_Some:
  assumes "unat len \<le> length data" "off + unat len \<le> EC_BUFSIZE"
  shows "ecx_writedatagramdata b off com len data =
    Some (blit_list b off (if no_data_cmd com then replicate (unat len) 0 else take (unat len) data))"
proof (cases "len = 0")
  case True
  have "blit_list b off [] = b" by (rule ext) (auto simp: blit_list_def)
  with True show ?thesis by (simp add: ecx_writedatagramdata_def)
next
  case False
  then have "0 < len" by (simp add: word_neq_0_conv)
  with assms show ?thesis by (simp add: ecx_writedatagramdata_def)
qed

lemma port_inv_txbuflength:
  assumes "port_inv p" "16 \<le> n" "n \<le> int EC_BUFSIZE"
  shows "port_inv (p\<lparr>txbuflength := (txbuflength p)(i := n)\<rparr>)"
  using assms by (auto simp: port_inv_def stack_inv_def red_ok_def)

lemma setupdatagram_returns:
  assumes inv: "port_inv p" and i: "unat idx < EC_MAXBUF"
    and len: "unat len \<le> EC_MAXDATA" "unat len \<le> length data"
  shows "returns (ecx_setupdatagram (Tx (unat idx)) com idx ADP ADO len data p)
    (\<lambda>q. port_inv q \<and> idx_ok q idx \<and> prim q = prim p \<and> redport q = redport p \<and> redstate q = redstate p \<and>
       lastidx q = lastidx p \<and> osclock q = osclock p \<and> txbuflength2 q = txbuflength2 p \<and>
       txbuflength q = (txbuflength p)(unat idx := 28 + int (unat len)))"
proof -
  have w: "ecx_writedatagramdata b 26 com len data =
      Some (blit_list b 26
        (if no_data_cmd com then replicate (unat len) 0 else take (unat len) data))" for b
    using len by (intro writedatagramdata_Some) auto
  have "int (unat len) \<le> 1490" using len(1) by linarith
  then have uint_len: "uint len \<le> 1490" by simp
  have inv': "port_inv (p\<lparr>txbuf := x, txbuflength := (txbuflength p)(unat idx := 28 + int (unat len))\<rparr>)" for x
    using inv uint_len uint_ge_0 [of len] by (auto simp: port_inv_def stack_inv_def red_ok_def)
  from i len inv' show ?thesis
    unfolding ecx_setupdatagram_def
    by (simp add: Let_def w) (simp add: idx_ok_def uint_len algebra_simps)
qed

lemma adddatagram_returns:
  assumes inv: "port_inv p" and i: "idx_ok p idx"
    and len: "unat len \<le> length data" "txbuflength p (unat idx) + 12 + int (unat len) \<le> int EC_BUFSIZE"
  shows "returns (ecx_adddatagram (Tx (unat idx)) com idx follows ADP ADO len data p)
    (\<lambda>(r, q). port_inv q \<and> idx_ok q idx \<and> prim q = prim p \<and> redport q = redport p \<and> redstate q = redstate p \<and>
       lastidx q = lastidx p \<and> osclock q = osclock p \<and> txbuflength2 q = txbuflength2 p \<and>
       int (unat r) = txbuflength p (unat idx) - 4 \<and>
       txbuflength q = (txbuflength p)(unat idx := txbuflength p (unat idx) + 12 + int (unat len)))"
proof -
  let ?l = "txbuflength p (unat idx)"
  define n where "n = nat ?l"
  have b: "16 \<le> ?l" "?l \<le> int EC_BUFSIZE" "unat idx < EC_MAXBUF" "?l = int n" "16 \<le> n" "n \<le> EC_BUFSIZE"
    using i by (auto simp: idx_ok_def n_def)
  have u: "unat (word_of_int ?l :: u16) = n" using b(4,6) by (simp add: unat_of_nat_u16)
  have pre: "EC_ELENGTHSIZE \<le> n" "n + 10 + unat len + 2 \<le> EC_BUFSIZE" using len(2) b by linarith+
  have w: "ecx_writedatagramdata c (n + 10) com len data =
      Some (blit_list c (n + 10) (if no_data_cmd com then replicate (unat len) 0 else take (unat len) data))" for c
    using len(1) pre(2) by (intro writedatagramdata_Some) auto
  have r: "(of_nat (n + 10) :: u16) - of_nat ETH_HEADERSIZE = of_nat (n - 4)"
    using b(5) by (simp add: of_nat_diff)
  have ur: "int (unat (of_nat (n - 4) :: u16)) = int n - 4"
  proof -
    have "unat (of_nat (n - 4) :: u16) = n - 4" by (rule unat_of_nat_u16) (use b(6) in simp)
    then have "int (unat (of_nat (n - 4) :: u16)) = int (n - 4)" by (simp only:)
    also have "\<dots> = int n - 4" using b(5) by simp
    finally show ?thesis .
  qed
  have inv': "port_inv (p\<lparr>txbuf := x, txbuflength := (txbuflength p)(unat idx := ?l + 12 + int (unat len))\<rparr>)" for x
  proof -
    have "port_inv (p\<lparr>txbuf := x\<rparr>)" using inv by (simp add: port_inv_def red_ok_def)
    moreover have "16 \<le> ?l + 12 + int (unat len)" using b(1) by linarith
    ultimately show ?thesis using port_inv_txbuflength [OF _ _ len(2), of "p\<lparr>txbuf := x\<rparr>" "unat idx"] by simp
  qed
  have e: "n + EC_HEADERSIZE - EC_ELENGTHSIZE = n + 10" using b(5) by simp
  have ok: "16 \<le> int n + 12 + int (unat len)" using b(1,4) by linarith
  show ?thesis
    unfolding ecx_adddatagram_def u Let_def e r
    using b(3,5) pre w inv' len ok ur
    by (simp add: idx_ok_def b(4) del: of_nat_diff int_nat_eq uint_nat) (simp add: algebra_simps)
qed

section \<open>The primitives return\<close>

text \<open>Sending a frame that has been built on an index just allocated, and releasing the index.\<close>

lemma send_release:
  assumes get: "ecx_getindex p = Some (idx, p1)" "port_inv p"
    and built: "port_inv p2" "idx_ok p2 idx" "prim p2 = prim p1" "redport p2 = redport p1" "redstate p2 = redstate p1"
      "osclock p2 = osclock p1" "txbuflength2 p2 = txbuflength2 p1"
  obtains w p3 q where "ecx_srconfirm idx timeout p2 = Some (w, p3)" "EC_OTHERFRAME \<le> w" "w < 65536"
    "ecx_setbufstat idx EC_BUF_EMPTY p3 = Some q" "port_ok p q"
proof -
  have g: "rxbufstat (prim p1) = (rxbufstat (prim p))(unat idx := EC_BUF_ALLOC)" "redstate p1 = redstate p"
    "redport p1 = None \<longleftrightarrow> redport p = None" "txbuflength2 p1 = txbuflength2 p" "osclock p1 = osclock p"
    using getindex_returns [OF get(2)] get(1) by auto
  have i: "unat idx < EC_MAXBUF" using built(2) by (simp add: idx_ok_def)
  obtain w p3 where c: "ecx_srconfirm idx timeout p2 = Some (w, p3)" "port_inv p3" "evolves idx p2 p3"
    "EC_OTHERFRAME \<le> w" "w < 65536"
    using srconfirm_returns [OF built(1,2), of timeout] by (auto simp: returns_iff wkc_post_def op_post_def)
  obtain q where r: "ecx_setbufstat idx EC_BUF_EMPTY p3 = Some q" "port_inv q" "evolves idx p3 q"
    "rxbufstat (prim q) = (rxbufstat (prim p3))(unat idx := EC_BUF_EMPTY)"
    using port_inv_setbufstat [OF c(2) i, of EC_BUF_EMPTY] by (auto simp: returns_iff)
  have e: "evolves idx p2 q" by (rule evolves_trans [OF c(3) r(3)])
  have "rxbufstat (prim q) j = EC_BUF_EMPTY" if "rxbufstat (prim p) j = EC_BUF_EMPTY" for j
  proof (cases "j = unat idx")
    case True
    then show ?thesis using r(4) by simp
  next
    case False
    then have "rxbufstat (prim p2) j = EC_BUF_EMPTY" using that g(1) built(3) by simp
    with e False show ?thesis by (auto simp: evolves_def stat_step_def)
  qed
  then have "port_ok p q"
    using r(2) e g built by (auto simp: port_ok_def port_prog_def evolves_def)
  with c r show thesis by (intro that)
qed

text \<open>Sending on an index just allocated and releasing it afterwards.\<close>

lemma transact:
  assumes inv: "port_inv p" and len: "unat len \<le> EC_MAXDATA" "unat len \<le> length data"
  obtains idx p1 p2 w p3 q where
    "ecx_getindex p = Some (idx, p1)" "unat idx < EC_MAXBUF"
    "ecx_setupdatagram (Tx (unat idx)) com idx ADP ADO len data p1 = Some p2"
    "ecx_srconfirm idx timeout p2 = Some (w, p3)" "EC_OTHERFRAME \<le> w" "w < 65536"
    "ecx_setbufstat idx EC_BUF_EMPTY p3 = Some q" "port_ok p q" "rxbuf (prim q) = rxbuf (prim p3)"
    "prim p2 = prim p1" "redstate p1 = redstate p" "redstate p2 = redstate p"
    "txbuflength p2 = (txbuflength p)(unat idx := 28 + int (unat len))" "txbuflength p3 = txbuflength p2"
    "rxscript (prim p1) = rxscript (prim p)"
proof -
  obtain idx p1 where g: "ecx_getindex p = Some (idx, p1)" "port_inv p1" "unat idx < EC_MAXBUF"
    "rxbufstat (prim p1) = (rxbufstat (prim p))(unat idx := EC_BUF_ALLOC)" "redstate p1 = redstate p"
    "redport p1 = None \<longleftrightarrow> redport p = None" "txbuflength2 p1 = txbuflength2 p" "osclock p1 = osclock p"
    "txbuflength p1 = txbuflength p"
    using getindex_returns [OF inv] by (auto simp: returns_iff)
  obtain p2 where s: "ecx_setupdatagram (Tx (unat idx)) com idx ADP ADO len data p1 = Some p2" "port_inv p2"
    "idx_ok p2 idx" "prim p2 = prim p1" "redport p2 = redport p1" "redstate p2 = redstate p1"
    "osclock p2 = osclock p1" "txbuflength2 p2 = txbuflength2 p1"
    "txbuflength p2 = (txbuflength p1)(unat idx := 28 + int (unat len))"
    using setupdatagram_returns [OF g(2,3) len, of com ADP ADO] by (auto simp: returns_iff)
  obtain w p3 where c: "ecx_srconfirm idx timeout p2 = Some (w, p3)" "port_inv p3" "evolves idx p2 p3"
    "EC_OTHERFRAME \<le> w" "w < 65536"
    using srconfirm_returns [OF s(2,3), of timeout] by (auto simp: returns_iff wkc_post_def op_post_def)
  obtain q where r: "ecx_setbufstat idx EC_BUF_EMPTY p3 = Some q" "port_inv q" "evolves idx p3 q"
    "rxbufstat (prim q) = (rxbufstat (prim p3))(unat idx := EC_BUF_EMPTY)" "rxbuf (prim q) = rxbuf (prim p3)"
    using port_inv_setbufstat [OF c(2) g(3), of EC_BUF_EMPTY] by (auto simp: returns_iff)
  have e: "evolves idx p2 q" by (rule evolves_trans [OF c(3) r(3)])
  have "rxbufstat (prim q) i = EC_BUF_EMPTY" if "rxbufstat (prim p) i = EC_BUF_EMPTY" for i
  proof (cases "i = unat idx")
    case True
    then show ?thesis using r(4) by simp
  next
    case False
    then have "rxbufstat (prim p2) i = EC_BUF_EMPTY" using that g(4) s(4) by simp
    with e False show ?thesis by (auto simp: evolves_def stat_step_def)
  qed
  then have ok: "port_ok p q"
    using r(2) e s g by (auto simp: port_ok_def port_prog_def evolves_def)
  have rx: "rxscript (prim p1) = rxscript (prim p)"
    using g(1) by (auto simp: ecx_getindex_def ecx_setbufstat_def Let_def Option.bind_eq_Some_conv split: if_splits)
  show thesis
    by (rule that [OF g(1) g(3) s(1) c(1) c(4) c(5) r(1) ok r(5) s(4) g(5) _ _ _ rx])
      (use c(3) in \<open>simp_all add: s(6,9) g(5,9) evolves_def\<close>)
qed

lemma write_primitive_returns [returnsI]:
  assumes "port_inv p" "unat len \<le> EC_MAXDATA" "unat len \<le> length data"
  shows "returns (write_primitive com ADP ADO len data timeout p)
    (\<lambda>(w, q). port_ok p q \<and> EC_OTHERFRAME \<le> w \<and> w < 65536)"
  by (rule transact [OF assms, of com ADP ADO timeout]) (simp add: write_primitive_def)

lemma read_primitive_returns [returnsI]:
  assumes "port_inv p" "unat len \<le> EC_MAXDATA" "unat len \<le> length data"
  shows "returns (read_primitive accept com ADP ADO len data timeout p)
    (\<lambda>(w, data', q). port_ok p q \<and> EC_OTHERFRAME \<le> w \<and> w < 65536 \<and> length data' = length data \<and>
       drop (unat len) data' = drop (unat len) data \<and> (w \<le> 0 \<longrightarrow> data' = data))"
  by (rule transact [OF assms, of com ADP ADO timeout])
    (use assms in \<open>auto simp: read_primitive_def copy_out_def\<close>)

lemmas primitive_defs = ecx_BWR_def ecx_BRD_def ecx_APRD_def ecx_ARMW_def ecx_FRMW_def ecx_FPRD_def
  ecx_APWR_def ecx_FPWR_def ecx_LRW_def ecx_LRD_def ecx_LWR_def

text \<open>
  A read by node address always returns, whatever the wire does, with well-formed
  frames and a running clock: it faults nowhere, keeps the invariant of the port, gives its
  frame index back (every index free before is free after), and leaves the caller's buffer
  untouched beyond the length asked for, and altogether when no slave has answered.
\<close>

theorem FPRD_total:
  assumes "port_inv p" "unat len \<le> EC_MAXDATA" "unat len \<le> length data"
  shows "\<exists>w data' q. ecx_FPRD ADP ADO len data timeout p = Some (w, data', q) \<and> port_inv q \<and>
    (\<forall>i. rxbufstat (prim p) i = EC_BUF_EMPTY \<longrightarrow> rxbufstat (prim q) i = EC_BUF_EMPTY) \<and>
    EC_OTHERFRAME \<le> w \<and> w < 65536 \<and> length data' = length data \<and>
    drop (unat len) data' = drop (unat len) data \<and> (w \<le> 0 \<longrightarrow> data' = data)"
  using read_primitive_returns [OF assms, of "\<lambda>_. True" EC_CMD_FPRD ADP ADO timeout]
  by (auto simp: ecx_FPRD_def returns_iff port_ok_def port_prog_def)

theorem FPRD_total_witness:
  "\<exists>w data' q. ecx_FPRD 0x1001 0x130 2 [0, 0, 9] 2000 (demo_port [Some (demo_frame 4 1 [8, 0] 1)]) = Some (w, data', q) \<and>
     drop 2 data' = [9]"
proof -
  have "port_inv (demo_port [Some (demo_frame 4 1 [8, 0] 1)])"
    by (rule port_inv_demo) (auto simp: frame_ok_demo)
  from FPRD_total [OF this, where len = 2 and data = "[0, 0, 9]" and ADP = "0x1001" and ADO = "0x130" and timeout = 2000]
  show ?thesis by auto
qed

section \<open>What a read hands out\<close>

text \<open>
  C9: the data a read by node address hands out when it reports success are those of one
  frame that has been received during the call and that carries the index of the request,
  taken behind its datagram header; the work counter is that of the same frame.
\<close>

theorem FPRD_genuine:
  assumes inv: "port_inv p" and len: "unat len \<le> EC_MAXDATA" "unat len \<le> length data"
    and single: "redstate p = ECT_RED_NONE"
    and alloc: "ecx_getindex p = Some (idx, p1)"
    and wire: "wire_ok ((txbuflength p)(unat idx := 28 + int (unat len))) idx (prim p)"
    and ret: "ecx_FPRD ADP ADO len data timeout p = Some (w, data', q)" "0 < w"
  shows "\<exists>bs. Some bs \<in> range (rxscript (prim p)) \<and> bs ! 17 = idx \<and> w = reply_wkc bs \<and>
    take (unat len) data' = slice (list_buf bs) (ETH_HEADERSIZE + EC_HEADERSIZE) (unat len)"
proof (rule transact [OF inv len, of EC_CMD_FPRD ADP ADO timeout])
  fix i p1' p2 w' p3 q'
  assume t: "ecx_getindex p = Some (i, p1')" "unat i < EC_MAXBUF"
      "ecx_setupdatagram (Tx (unat i)) EC_CMD_FPRD i ADP ADO len data p1' = Some p2"
      "ecx_srconfirm i timeout p2 = Some (w', p3)" "ecx_setbufstat i EC_BUF_EMPTY p3 = Some q'"
      "prim p2 = prim p1'" "redstate p2 = redstate p"
      "txbuflength p2 = (txbuflength p)(unat i := 28 + int (unat len))" "txbuflength p3 = txbuflength p2"
      "rxscript (prim p1') = rxscript (prim p)"
  have i: "i = idx" using t(1) alloc by simp
  have w: "w' = w" and d: "data' = slice (rxbuf (prim p3) (unat i)) EC_HEADERSIZE (unat len) @ drop (unat len) data"
    using ret t(1-5) len by (auto simp: ecx_FPRD_def read_primitive_def copy_out_def split: if_splits)
  have "wire_ok (txbuflength p2) i (prim p2)"
    using wire t(6,8,10) i by (simp add: wire_ok_def)
  from srconfirm_reply [OF this t(2) _ t(4)] obtain bs where bs: "Some bs \<in> range (rxscript (prim p2))" "holds_reply i w bs p3"
    using t(7) single ret(2) w by auto
  have n: "nat (txbuflength p3 (unat i)) = 28 + unat len"
    using t(8,9) by (simp add: nat_add_distrib)
  then have "slice (rxbuf (prim p3) (unat i)) 0 (14 + unat len) = slice (list_buf bs) 14 (14 + unat len)"
    using bs(2) by (simp add: holds_reply_def reply_payload_def)
  then have "drop 12 (slice (rxbuf (prim p3) (unat i)) 0 (14 + unat len)) = drop 12 (slice (list_buf bs) 14 (14 + unat len))"
    by simp
  then have "slice (rxbuf (prim p3) (unat i)) 12 (unat len + 2) = slice (list_buf bs) 26 (unat len + 2)"
    by (simp add: drop_slice add.commute)
  then have "take (unat len) (slice (rxbuf (prim p3) (unat i)) 12 (unat len + 2)) = take (unat len) (slice (list_buf bs) 26 (unat len + 2))"
    by simp
  with d have "take (unat len) data' = slice (list_buf bs) 26 (unat len)"
    by (simp add: take_slice)
  with bs t(6,10) i show ?thesis
    by (auto simp: holds_reply_def reply_for_def)
qed

theorem FPRD_genuine_witness:
  "\<exists>data' q. ecx_FPRD 0x1001 0x130 2 [0, 0, 9] 2000 (demo_port [Some (demo_frame 4 1 [8, 0] 1)]) = Some (1, data', q) \<and>
     take 2 data' = [8, 0]"
proof -
  let ?f = "demo_frame 4 1 [8, 0] 1"
  let ?p = "demo_port [Some ?f]"
  have inv: "port_inv ?p"
    by (rule port_inv_demo) (auto simp: frame_ok_demo)
  have "map_option fst (ecx_getindex ?p) = Some 1" by code_simp
  then obtain p1 where alloc: "ecx_getindex ?p = Some (1, p1)" by auto
  have len: "length ?f = 30" by (simp add: demo_frame_def)
  have "(txbuflength ?p)(unat (1::u8) := 28 + int (unat (2::u16))) = (\<lambda>_. 30)"
    by (rule ext) (simp add: demo_port_def)
  then have wire: "wire_ok ((txbuflength ?p)(unat (1::u8) := 28 + int (unat (2::u16)))) 1 (prim ?p)"
    using demo_reply_for [of 1 4 8 0 1] len
    by (auto simp: wire_ok_def demo_port_def demo_stack_def dest!: range_script_of)
  have "map_option fst (ecx_FPRD 0x1001 0x130 2 [0, 0, 9] 2000 ?p) = Some 1" by code_simp
  then obtain data' q where r: "ecx_FPRD 0x1001 0x130 2 [0, 0, 9] 2000 ?p = Some (1, data', q)" by auto
  have "slice (list_buf ?f) (ETH_HEADERSIZE + EC_HEADERSIZE) (unat (2::u16)) = [8, 0]" by code_simp
  then have "take 2 data' = [8, 0]"
    using FPRD_genuine [OF inv _ _ _ alloc wire r] by (auto simp: demo_port_def demo_stack_def dest!: range_script_of)
  with r show ?thesis by blast
qed

section \<open>A silent wire\<close>

text \<open>A single port on which nothing is ever received.\<close>

definition silent :: "ecx_port \<Rightarrow> bool" where
  "silent p \<longleftrightarrow> redstate p = ECT_RED_NONE \<and> (\<forall>n. rxscript (prim p) n = None)"

lemma silent_range: "silent p \<Longrightarrow> Some bs \<notin> range (rxscript (prim p))"
  by (auto simp: silent_def)

lemma range_None: "range f \<subseteq> range g \<Longrightarrow> (\<And>n. g n = None) \<Longrightarrow> f n = None"
  by (metis rangeE rangeI subsetD)

lemma srconfirm_silent:
  assumes "silent p" "unat idx < EC_MAXBUF" "ecx_srconfirm idx timeout p = Some (w, q)"
  shows "w < 0 \<and> silent q"
proof -
  have "wire_ok (txbuflength p) idx (prim p)"
    using silent_range [OF assms(1)] by (simp add: wire_ok_def)
  then have "genuine p idx (w, q)"
    using srconfirm_genuine [of p idx timeout] assms by (simp add: silent_def)
  then show ?thesis
    using assms(1) silent_range [OF assms(1)]
    by (auto simp: genuine_def waiting_since_def silent_def intro: range_None)
qed

lemma setbufstat_frame:
  "ecx_setbufstat idx s p = Some q \<Longrightarrow> redstate q = redstate p \<and> rxscript (prim q) = rxscript (prim p) \<and>
     sndscript (prim q) = sndscript (prim p) \<and> lastidx q = lastidx p \<and> txbuflength q = txbuflength p \<and>
     osclock q = osclock p \<and> rxbuf (prim q) = rxbuf (prim p) \<and>
     rxbufstat (prim q) = (rxbufstat (prim p))(unat idx := s)"
  by (auto simp: ecx_setbufstat_def Let_def Option.bind_eq_Some_conv split: if_splits)

lemma transact_silent:
  assumes inv: "port_inv p" and len: "unat len \<le> EC_MAXDATA" "unat len \<le> length data" and quiet: "silent p"
  obtains idx p1 p2 w p3 q where
    "ecx_getindex p = Some (idx, p1)" "unat idx < EC_MAXBUF"
    "ecx_setupdatagram (Tx (unat idx)) com idx ADP ADO len data p1 = Some p2"
    "ecx_srconfirm idx timeout p2 = Some (w, p3)" "w < 0"
    "ecx_setbufstat idx EC_BUF_EMPTY p3 = Some q" "port_ok p q" "silent q"
proof (rule transact [OF inv len, of com ADP ADO timeout])
  fix idx p1 p2 w p3 q
  assume t: "ecx_getindex p = Some (idx, p1)" "unat idx < EC_MAXBUF"
    "ecx_setupdatagram (Tx (unat idx)) com idx ADP ADO len data p1 = Some p2"
    "ecx_srconfirm idx timeout p2 = Some (w, p3)" "ecx_setbufstat idx EC_BUF_EMPTY p3 = Some q" "port_ok p q"
    "prim p2 = prim p1" "redstate p2 = redstate p" "rxscript (prim p1) = rxscript (prim p)"
  have "silent p2" using quiet t(7-9) by (simp add: silent_def)
  from srconfirm_silent [OF this t(2,4)] have w: "w < 0" "silent p3" by simp_all
  then have "silent q" using setbufstat_frame [OF t(5)] by (simp add: silent_def)
  then show thesis by (rule that [OF t(1-4) w(1) t(5,6)])
qed

lemma read_primitive_silent:
  assumes "port_inv p" "unat len \<le> EC_MAXDATA" "unat len \<le> length data" "silent p"
  shows "returns (read_primitive accept com ADP ADO len data timeout p)
    (\<lambda>(w, data', q). port_ok p q \<and> w < 0 \<and> data' = data \<and> silent q)"
  by (rule transact_silent [OF assms, of com ADP ADO timeout]) (simp add: read_primitive_def)

lemma write_primitive_silent:
  assumes "port_inv p" "unat len \<le> EC_MAXDATA" "unat len \<le> length data" "silent p"
  shows "returns (write_primitive com ADP ADO len data timeout p) (\<lambda>(w, q). port_ok p q \<and> w < 0 \<and> silent q)"
  by (rule transact_silent [OF assms, of com ADP ADO timeout]) (simp add: write_primitive_def)

section \<open>An answered request\<close>

text \<open>
  The next frame received on the single port answers the next request: the state in which
  the primitives succeed at once.
\<close>

definition next_answer :: "nat \<Rightarrow> u8 list \<Rightarrow> ecx_port \<Rightarrow> bool" where
  "next_answer n bs p \<longleftrightarrow> redstate p = ECT_RED_NONE \<and> rxscript (prim p) 0 = Some bs \<and>
     (\<exists>idx p1. ecx_getindex p = Some (idx, p1) \<and> reply_for ((txbuflength p)(unat idx := 28 + int n)) idx bs)"

lemma srconfirm_answered:
  assumes ok: "idx_ok p idx" and single: "redstate p = ECT_RED_NONE" and script: "rxscript (prim p) 0 = Some bs"
    and r: "reply_for (txbuflength p) idx bs"
  shows "\<exists>q. ecx_srconfirm idx timeout p = Some (reply_wkc bs, q) \<and> rxscript (prim q) = script_tl (rxscript (prim p)) \<and>
    redstate q = ECT_RED_NONE \<and> lastidx q = lastidx p \<and> txbuflength q = txbuflength p \<and>
    slice (rxbuf (prim q) (unat idx)) 0 (nat (txbuflength p (unat idx)) - ETH_HEADERSIZE) = reply_payload (txbuflength p) idx bs \<and>
    (\<forall>i. i \<noteq> unat idx \<longrightarrow> rxbufstat (prim q) i = rxbufstat (prim p) i)"
proof -
  define p1 where "p1 = snd (port_timer_start timeout p)"
  define t1 where "t1 = fst (port_timer_start timeout p)"
  have 1: "prim p1 = prim p" "redstate p1 = ECT_RED_NONE" "txbuflength p1 = txbuflength p" "lastidx p1 = lastidx p"
    using single by (simp_all add: p1_def port_timer_start_eq)
  have ok1: "idx_ok p1 idx" using ok by (simp add: p1_def port_timer_start_idx_ok)
  have i: "unat idx < EC_MAXBUF" using ok by (simp add: idx_ok_def)
  let ?st = "sent_stack (unat idx) (txbuflength p (unat idx)) (prim p)"
  obtain w p2 where 2: "ecx_outframe_red idx p1 = Some (w, p2)" "prim p2 = ?st" "redstate p2 = ECT_RED_NONE"
      "txbuflength p2 = txbuflength p" "lastidx p2 = lastidx p"
    using ok1 i 1 outframe_eq [of 0 "p1\<lparr>txbuf := (txbuf p1)(unat idx := put16be (txbuf p1 (unat idx)) 8 priMAC)\<rparr>" "prim p" idx]
    by (auto simp: ecx_outframe_red_def Let_def get_stack_def idx_ok_def)
  let ?T = "if timeout < EC_TIMEOUTRET then timeout else EC_TIMEOUTRET"
  define p3 where "p3 = snd (port_timer_start ?T p2)"
  define t2 where "t2 = fst (port_timer_start ?T p2)"
  have 3: "prim p3 = ?st" "redstate p3 = ECT_RED_NONE" "txbuflength p3 = txbuflength p" "lastidx p3 = lastidx p"
    using 2 by (simp_all add: p3_def port_timer_start_eq)
  define q where "q = (put_stack 0 (stored (txbuflength p) idx bs EC_BUF_COMPLETE ?st) p3)\<lparr>tempinbufs := int (length bs)\<rparr>"
  have "ecx_inframe idx 0 p3 = Some (reply_wkc bs, q)"
    unfolding q_def using inframe_match [of 0 p3 ?st idx bs] script r i 3 by (simp add: get_stack_def)
  moreover have q: "redstate q = ECT_RED_NONE" using 3 by (simp add: q_def)
  moreover have pos: "0 \<le> reply_wkc bs" using wkc_at_bounds by (simp add: reply_wkc_def)
  ultimately have "wait_both idx t2 (EC_NOFRAME, 0, p3) = Some ((reply_wkc bs, 0, q), False)"
    by (simp add: wait_both_def)
  then have "ecx_waitinframe_red idx t2 p3 = Some (reply_wkc bs, q)"
    using 3 q by (simp add: ecx_waitinframe_red_def do_while_stop)
  then have "srconfirm_body idx timeout t1 (EC_NOFRAME, p1) = Some ((reply_wkc bs, q), False)"
    using 2(1) pos by (simp add: srconfirm_body_def case_prod_unfold Let_def p3_def t2_def)
  then have "ecx_srconfirm idx timeout p = Some (reply_wkc bs, q)"
    by (simp add: ecx_srconfirm_def case_prod_unfold Let_def do_while_stop flip: p1_def t1_def)
  moreover have "rxbufstat (prim q) j = rxbufstat (prim p) j" if "j \<noteq> unat idx" for j
    using that by (simp add: q_def stored_simps [OF r] sent_stack_eq)
  ultimately show ?thesis
    using q 3 stored_simps [OF r] stored_payload [OF r] by (simp add: q_def)
qed

text \<open>The state after an answered request, as far as the following requests depend on it.\<close>

definition answered :: "ecx_port \<Rightarrow> ecx_port \<Rightarrow> bool" where
  "answered p q \<longleftrightarrow> port_ok p q \<and> rxscript (prim q) = script_tl (rxscript (prim p)) \<and> redstate q = ECT_RED_NONE \<and>
     (\<exists>idx p1. ecx_getindex p = Some (idx, p1) \<and> lastidx q = idx \<and>
        rxbufstat (prim q) = (rxbufstat (prim p))(unat idx := EC_BUF_EMPTY))"

lemma transact_answered:
  assumes inv: "port_inv p" and len: "unat len \<le> EC_MAXDATA" "unat len \<le> length data"
    and ans: "next_answer (unat len) bs p"
  obtains idx p1 p2 p3 q where
    "ecx_getindex p = Some (idx, p1)" "unat idx < EC_MAXBUF"
    "ecx_setupdatagram (Tx (unat idx)) com idx ADP ADO len data p1 = Some p2"
    "ecx_srconfirm idx timeout p2 = Some (reply_wkc bs, p3)"
    "slice (rxbuf (prim p3) (unat idx)) 0 (14 + unat len) = slice (list_buf bs) 14 (14 + unat len)"
    "ecx_setbufstat idx EC_BUF_EMPTY p3 = Some q" "answered p q"
proof (rule transact [OF inv len, of com ADP ADO timeout])
  fix idx p1 p2 w p3 q
  assume t: "ecx_getindex p = Some (idx, p1)" "unat idx < EC_MAXBUF"
    "ecx_setupdatagram (Tx (unat idx)) com idx ADP ADO len data p1 = Some p2"
    "ecx_srconfirm idx timeout p2 = Some (w, p3)" "ecx_setbufstat idx EC_BUF_EMPTY p3 = Some q" "port_ok p q"
    "prim p2 = prim p1" "redstate p2 = redstate p"
    "txbuflength p2 = (txbuflength p)(unat idx := 28 + int (unat len))"
    "rxscript (prim p1) = rxscript (prim p)"
  have r: "reply_for (txbuflength p2) idx bs" and s: "rxscript (prim p2) 0 = Some bs" and single: "redstate p2 = ECT_RED_NONE"
    using ans t(1,7-10) by (auto simp: next_answer_def)
  have n: "nat (txbuflength p2 (unat idx)) = 28 + unat len"
    using t(9) by (simp add: nat_add_distrib)
  have "txbuflength p2 (unat idx) = int (28 + unat len)" using t(9) by simp
  with t(2) len(1) have "idx_ok p2 idx" unfolding idx_ok_def by linarith
  from srconfirm_answered [OF this single s r, of timeout] obtain q0 where
    q0: "ecx_srconfirm idx timeout p2 = Some (reply_wkc bs, q0)" "rxscript (prim q0) = script_tl (rxscript (prim p2))"
      "redstate q0 = ECT_RED_NONE" "lastidx q0 = lastidx p2"
      "slice (rxbuf (prim q0) (unat idx)) 0 (14 + unat len) = reply_payload (txbuflength p2) idx bs"
      "\<forall>i. i \<noteq> unat idx \<longrightarrow> rxbufstat (prim q0) i = rxbufstat (prim p2) i"
    by (auto simp: n)
  have eq: "q0 = p3" "reply_wkc bs = w" using q0(1) t(4) by simp_all
  have l: "lastidx p2 = idx"
    using t(1,3) by (auto simp: ecx_getindex_def ecx_setupdatagram_def Let_def Option.bind_eq_Some_conv)
  have "rxbufstat (prim p1) = (rxbufstat (prim p))(unat idx := EC_BUF_ALLOC)"
    using getindex_returns [OF inv] t(1) by simp
  then have "rxbufstat (prim q) = (rxbufstat (prim p))(unat idx := EC_BUF_EMPTY)"
    using setbufstat_frame [OF t(5)] q0(6) t(7) by (auto simp: eq fun_eq_iff)
  then have "answered p q"
    using t(1,6,7,10) q0(2,3,4) setbufstat_frame [OF t(5)] l by (simp add: answered_def eq)
  then show thesis
    using q0(5) by (intro that [OF t(1-3) q0(1)]) (simp_all add: eq t(5) reply_payload_def n)
qed

lemma write_primitive_answered:
  assumes "port_inv p" "unat len \<le> EC_MAXDATA" "unat len \<le> length data" "next_answer (unat len) bs p"
  shows "returns (write_primitive com ADP ADO len data timeout p) (\<lambda>(w, q). w = reply_wkc bs \<and> answered p q)"
  by (rule transact_answered [OF assms, of com ADP ADO timeout]) (simp add: write_primitive_def)

text \<open>The data of the first datagram of a frame of the given length.\<close>

definition reply_data :: "u8 list \<Rightarrow> nat \<Rightarrow> u8 list" where
  "reply_data bs n = slice (list_buf bs) (ETH_HEADERSIZE + EC_HEADERSIZE) n"

lemma read_primitive_answered:
  assumes "port_inv p" "unat len \<le> EC_MAXDATA" "unat len \<le> length data" "next_answer (unat len) bs p"
  shows "returns (read_primitive (\<lambda>_. True) com ADP ADO len data timeout p) (\<lambda>(w, data', q).
    w = reply_wkc bs \<and> data' = (if reply_wkc bs > 0 then reply_data bs (unat len) @ drop (unat len) data else data) \<and> answered p q)"
proof (rule transact_answered [OF assms(1,2) _ assms(4), of data com ADP ADO timeout])
  fix idx p1 p2 p3 q
  assume t: "ecx_getindex p = Some (idx, p1)" "unat idx < EC_MAXBUF"
    "ecx_setupdatagram (Tx (unat idx)) com idx ADP ADO len data p1 = Some p2"
    "ecx_srconfirm idx timeout p2 = Some (reply_wkc bs, p3)"
    "slice (rxbuf (prim p3) (unat idx)) 0 (14 + unat len) = slice (list_buf bs) 14 (14 + unat len)"
    "ecx_setbufstat idx EC_BUF_EMPTY p3 = Some q" "answered p q"
  have "take (unat len) (drop 12 (slice (rxbuf (prim p3) (unat idx)) 0 (14 + unat len))) =
      take (unat len) (drop 12 (slice (list_buf bs) 14 (14 + unat len)))"
    by (simp only: t(5))
  then have "slice (rxbuf (prim p3) (unat idx)) 12 (unat len) = reply_data bs (unat len)"
    by (simp add: drop_slice take_slice reply_data_def)
  with t assms(2,3) show ?thesis by (simp add: read_primitive_def copy_out_def)
qed (use assms(3) in simp)

end
