(* ===== verification/FrameFormat.thy ===== *)
theory FrameFormat
  imports DatagramProps
begin

text \<open>
  The format of an EtherCAT frame: what a reader of the wire sees of a transmit buffer, and
  the round trip from the requests of the master through \<^verbatim>\<open>ecx_setupdatagram\<close> and
  \<^verbatim>\<open>ecx_adddatagram\<close> back to them.
\<close>

section \<open>Reading a frame\<close>

record datagram =
  dg_com :: u8
  dg_idx :: u8
  dg_ADP :: u16
  dg_ADO :: u16
  dg_data :: "u8 list"

text \<open>
  The datagrams from the offset of the first command on: the length is the low 11 bits of
  the fourth field, its top bit says that another datagram follows. At most \<open>n\<close> are read.
\<close>

fun read_datagrams :: "nat \<Rightarrow> buf \<Rightarrow> nat \<Rightarrow> datagram list" where
  "read_datagrams 0 b off = []"
| "read_datagrams (Suc n) b off =
     (let f = get16 b (off + 6); l = unat (f AND 0x07ff)
      in \<lparr>dg_com = b off, dg_idx = b (off + 1), dg_ADP = get16 b (off + 2), dg_ADO = get16 b (off + 4),
          dg_data = slice b (off + 10) l\<rparr>
         # (if f AND EC_DATAGRAMFOLLOWS \<noteq> 0 then read_datagrams n b (off + 12 + l) else []))"

section \<open>Building a frame\<close>

definition setup_request :: "u8 \<Rightarrow> datagram \<Rightarrow> ecx_port \<Rightarrow> ecx_port option" where
  "setup_request idx d = ecx_setupdatagram (Tx (unat idx)) (dg_com d) idx (dg_ADP d) (dg_ADO d)
     (of_nat (length (dg_data d))) (dg_data d)"

fun add_requests :: "u8 \<Rightarrow> datagram list \<Rightarrow> ecx_port \<Rightarrow> ecx_port option" where
  "add_requests idx [] p = Some p"
| "add_requests idx (d # ds) p = do {
     (_, p) \<leftarrow> ecx_adddatagram (Tx (unat idx)) (dg_com d) idx (ds \<noteq> []) (dg_ADP d) (dg_ADO d)
                 (of_nat (length (dg_data d))) (dg_data d) p;
     add_requests idx ds p
   }"

text \<open>What a request is on the wire: the index is that of the frame, a read carries zeros.\<close>

definition on_wire :: "u8 \<Rightarrow> datagram \<Rightarrow> datagram" where
  "on_wire idx d = d\<lparr>dg_idx := idx,
     dg_data := (if no_data_cmd (dg_com d) then replicate (length (dg_data d)) 0 else dg_data d)\<rparr>"

lemma on_wire_length [simp]: "length (dg_data (on_wire idx d)) = length (dg_data d)"
  by (simp add: on_wire_def)

section \<open>The layout of a frame\<close>

text \<open>\<open>laid b off ds\<close>: the datagrams, each with its follow flag, lie in the buffer from \<open>off\<close> on.\<close>

fun laid :: "buf \<Rightarrow> nat \<Rightarrow> (datagram \<times> bool) list \<Rightarrow> bool" where
  "laid b off [] \<longleftrightarrow> True"
| "laid b off ((d, f) # ds) \<longleftrightarrow> b off = dg_com d \<and> b (off + 1) = dg_idx d \<and> get16 b (off + 2) = dg_ADP d \<and>
     get16 b (off + 4) = dg_ADO d \<and>
     get16 b (off + 6) = of_nat (length (dg_data d)) OR (if f then EC_DATAGRAMFOLLOWS else 0) \<and>
     slice b (off + 10) (length (dg_data d)) = dg_data d \<and> laid b (off + 12 + length (dg_data d)) ds"

definition dsize :: "datagram \<Rightarrow> nat" where
  "dsize d = 12 + length (dg_data d)"

definition lsize :: "(datagram \<times> bool) list \<Rightarrow> nat" where
  "lsize ds = (\<Sum>(d, f)\<leftarrow>ds. dsize d)"

lemma lsize_simps [simp]:
  "lsize [] = 0" "lsize ((d, f) # ds) = dsize d + lsize ds" "lsize (xs @ ys) = lsize xs + lsize ys"
  by (simp_all add: lsize_def)

lemma laid_append: "laid b off (xs @ ys) \<longleftrightarrow> laid b off xs \<and> laid b (off + lsize xs) ys"
  by (induction xs arbitrary: off) (auto simp: dsize_def add.assoc add.commute add.left_commute)

lemma get16_cong: "a i = b i \<Longrightarrow> a (i + 1) = b (i + 1) \<Longrightarrow> get16 a i = get16 b i"
  by (simp add: get16_def)

lemma laid_cong:
  "(\<And>i. off \<le> i \<Longrightarrow> i < off + lsize ds \<Longrightarrow> a i = b i) \<Longrightarrow> laid a off ds \<Longrightarrow> laid b off ds"
proof (induction ds arbitrary: off)
  case Nil
  then show ?case by simp
next
  case (Cons x ds)
  obtain d f where x: "x = (d, f)" by (cases x)
  have eq: "a i = b i" if "off \<le> i" "i < off + dsize d + lsize ds" for i
    using Cons.prems(1) that by (simp add: x)
  have "laid b (off + 12 + length (dg_data d)) ds"
    by (rule Cons.IH) (use eq Cons.prems(2) in \<open>simp_all add: x dsize_def\<close>)
  moreover have "get16 a (off + k) = get16 b (off + k)" if "k < 11" for k
    using that by (intro get16_cong; intro eq) (auto simp: dsize_def)
  moreover have "slice a (off + 10) (length (dg_data d)) = slice b (off + 10) (length (dg_data d))"
    by (intro slice_cong eq) (auto simp: dsize_def)
  moreover have "a off = b off" "a (off + 1) = b (off + 1)"
    by (intro eq; simp add: dsize_def)+
  ultimately show ?case using Cons.prems(2) by (simp add: x del: add_2_eq_Suc')
qed

text \<open>Marking the first datagram as followed by another.\<close>

lemma laid_follows:
  assumes "laid b off ((d, f) # ds)" "off = e"
  shows "laid (put16 b (e + 6) (get16 b (e + 6) OR EC_DATAGRAMFOLLOWS)) off ((d, True) # ds)"
proof -
  let ?b = "put16 b (e + 6) (get16 b (e + 6) OR EC_DATAGRAMFOLLOWS)"
  have "laid ?b (off + 12 + length (dg_data d)) ds"
    by (rule laid_cong [where a = b]) (use assms in \<open>auto simp: put16_def\<close>)
  with assms show ?thesis by (auto simp: buf_simps put16_other or.assoc)
qed

lemma small_length:
  assumes "n < 2048"
  shows "unat ((of_nat n OR (if f then EC_DATAGRAMFOLLOWS else 0) :: u16) AND 0x07ff) = n"
    "((of_nat n OR (if f then EC_DATAGRAMFOLLOWS else 0) :: u16) AND EC_DATAGRAMFOLLOWS \<noteq> 0) = f"
proof -
  have m: "(0x07ff :: u16) = mask 11" and t: "EC_DATAGRAMFOLLOWS = push_bit 15 1"
    by (simp_all add: mask_eq_exp_minus_1 push_bit_eq_mult)
  have n: "take_bit 11 (of_nat n :: u16) = of_nat n"
    using assms by (simp add: take_bit_nat_eq_self flip: of_nat_take_bit)
  have "(of_nat n OR (if f then EC_DATAGRAMFOLLOWS else 0) :: u16) AND 0x07ff = of_nat n"
  proof -
    have "(of_nat n OR (if f then EC_DATAGRAMFOLLOWS else 0) :: u16) AND 0x07ff
        = take_bit 11 (of_nat n) OR take_bit 11 (if f then EC_DATAGRAMFOLLOWS else 0)"
      unfolding m by (simp only: take_bit_eq_mask [symmetric] take_bit_or)
    also have "take_bit 11 (if f then EC_DATAGRAMFOLLOWS else 0 :: u16) = 0"
      by (auto simp: take_bit_eq_mask m [symmetric])
    finally show ?thesis by (simp add: n)
  qed
  then show "unat ((of_nat n OR (if f then EC_DATAGRAMFOLLOWS else 0) :: u16) AND 0x07ff) = n"
    using assms by (simp add: unat_of_nat)
  have z: "(of_nat n :: u16) AND EC_DATAGRAMFOLLOWS = 0"
  proof -
    have "(of_nat n :: u16) AND EC_DATAGRAMFOLLOWS = take_bit 11 (of_nat n) AND EC_DATAGRAMFOLLOWS"
      by (simp only: n)
    also have "\<dots> = of_nat n AND (0x07ff AND EC_DATAGRAMFOLLOWS)"
      by (simp only: take_bit_eq_mask m [symmetric] and.assoc)
    finally show ?thesis by simp
  qed
  show "((of_nat n OR (if f then EC_DATAGRAMFOLLOWS else 0) :: u16) AND EC_DATAGRAMFOLLOWS \<noteq> 0) = f"
    by (simp add: bit.conj_disj_distrib2 z)
qed

text \<open>A chain in which all but the last datagram are marked is read as it was laid.\<close>

definition chain :: "datagram list \<Rightarrow> (datagram \<times> bool) list" where
  "chain ds = zip ds (replicate (length ds - 1) True @ [False])"

lemma chain_simps: "chain [] = []" "chain [d] = [(d, False)]" "chain (d # e # ds) = (d, True) # chain (e # ds)"
  by (simp_all add: chain_def)

lemma read_laid:
  "laid b off (chain ds) \<Longrightarrow> ds \<noteq> [] \<Longrightarrow> length ds \<le> n \<Longrightarrow> (\<And>d. d \<in> set ds \<Longrightarrow> length (dg_data d) < 2048) \<Longrightarrow>
     read_datagrams n b off = ds"
proof (induction ds arbitrary: off n)
  case Nil
  then show ?case by simp
next
  case (Cons d ds)
  then obtain m where n: "n = Suc m" by (cases n) auto
  have d: "length (dg_data d) < 2048" using Cons.prems(4) by simp
  show ?case
  proof (cases ds)
    case Nil
    with Cons.prems(1) n small_length [OF d, of False] show ?thesis
      by (simp add: chain_simps Let_def)
  next
    case (Cons e es)
    have "read_datagrams m b (off + 12 + length (dg_data d)) = ds"
      using Cons.IH [of "off + 12 + length (dg_data d)" m] Cons.prems Cons n by (simp add: chain_simps)
    with Cons.prems(1) Cons n small_length [OF d, of True] show ?thesis
      by (simp add: chain_simps Let_def)
  qed
qed

section \<open>Writing one datagram\<close>

text \<open>The bytes of one datagram with its zero work counter, written at the offset \<open>o\<close>.\<close>

definition write_dgram :: "buf \<Rightarrow> nat \<Rightarrow> u8 \<Rightarrow> datagram \<Rightarrow> bool \<Rightarrow> buf" where
  "write_dgram b e idx d f = (let n = length (dg_data d) in
     (blit_list (put_header b (e - 2) (dg_com d) idx (dg_ADP d) (dg_ADO d)
        (if f then of_nat n OR EC_DATAGRAMFOLLOWS else of_nat n)) (e + 10) (dg_data (on_wire idx d)))
       (e + 10 + n := 0, e + 10 + n + 1 := 0))"

lemma put_header_out: "i < e + 2 \<or> e + 10 \<le> i \<Longrightarrow> put_header b e com idx ADP ADO l i = b i"
  by (auto simp: put_header_def put16_other)

lemma write_dgram_out:
  assumes "i < e \<or> e + dsize d \<le> i" "2 \<le> e"
  shows "write_dgram b e idx d f i = b i"
proof -
  have "put_header b (e - 2) com idx ADP ADO l i = b i" for com ADP ADO l
    using assms by (intro put_header_out) (auto simp: dsize_def)
  moreover have "i < e + 10 \<or> e + 10 + length (dg_data d) \<le> i" "i \<noteq> e + 10 + length (dg_data d)"
    "i \<noteq> e + 10 + length (dg_data d) + 1"
    using assms(1) by (auto simp: dsize_def)
  ultimately show ?thesis by (simp add: write_dgram_def Let_def blit_list_out)
qed

lemma get16_fun_upd [buf_simps]: "j \<noteq> i \<Longrightarrow> j \<noteq> i + 1 \<Longrightarrow> get16 (b(j := v)) i = get16 b i"
  by (simp add: get16_def)

lemma get16_blit_list_out [buf_simps]: "i + 1 < e \<Longrightarrow> get16 (blit_list b e xs) i = get16 b i"
  by (simp add: get16_def blit_list_def)

lemma write_dgram_laid:
  assumes "2 \<le> e"
  shows "laid (write_dgram b e idx d f) e [(on_wire idx d, f)]"
proof -
  let ?n = "length (dg_data d)"
  let ?w = "write_dgram b e idx d f"
  let ?x = "if f then of_nat ?n OR EC_DATAGRAMFOLLOWS else of_nat ?n"
  have e: "e - 2 + 2 = e" "e - 2 + 3 = e + 1" "e - 2 + 4 = e + 2" "e - 2 + 6 = e + 4" "e - 2 + 8 = e + 6"
    using assms by simp_all
  define h where "h = put16 (put16 (put16 (b(e := dg_com d, e + 1 := idx)) (e + 2) (dg_ADP d)) (e + 4) (dg_ADO d)) (e + 6) ?x"
  have h: "?w i = h i" if "i < e + 10" for i
    using that by (simp add: write_dgram_def Let_def put_header_def e h_def blit_list_def del: add_2_eq_Suc')
  have "h e = dg_com d" "h (e + 1) = idx" "get16 h (e + 2) = dg_ADP d" "get16 h (e + 4) = dg_ADO d" "get16 h (e + 6) = ?x"
    by (simp_all add: h_def buf_simps)
  moreover have "get16 ?w (e + k) = get16 h (e + k)" if "k < 9" for k
    using that by (intro get16_cong; intro h) simp_all
  ultimately have "?w e = dg_com d" "?w (e + 1) = idx" "get16 ?w (e + 2) = dg_ADP d" "get16 ?w (e + 4) = dg_ADO d"
    "get16 ?w (e + 6) = ?x"
    by (simp_all add: h del: add_2_eq_Suc')
  moreover have "slice ?w (e + 10) ?n = dg_data (on_wire idx d)"
    by (rule nth_equalityI) (auto simp: write_dgram_def Let_def blit_list_def)
  ultimately show ?thesis by (auto simp: on_wire_def simp del: add_2_eq_Suc')
qed

lemma adddatagram_eq:
  assumes i: "unat idx < EC_MAXBUF" and pl: "txbuflength p (unat idx) = int (16 + l)" "12 \<le> l"
    and size: "16 + l + dsize d \<le> EC_BUFSIZE"
  defines "b \<equiv> txbuf p (unat idx)" and "n \<equiv> (of_nat (length (dg_data d)) :: u16)"
  shows "ecx_adddatagram (Tx (unat idx)) (dg_com d) idx m (dg_ADP d) (dg_ADO d) n (dg_data d) p =
    Some (of_nat (l + 12), p\<lparr>
      txbuf := (txbuf p)(unat idx := write_dgram (put16 (put16 b 14 (get16 b 14 + of_nat (dsize d))) 22 (get16 b 22 OR EC_DATAGRAMFOLLOWS)) (16 + l) idx d m),
      txbuflength := (txbuflength p)(unat idx := int (16 + l + dsize d))\<rparr>)"
proof -
  have wl: "word_of_int (txbuflength p (unat idx)) = (of_nat (16 + l) :: u16)"
    unfolding pl(1) by (rule of_int_of_nat_eq)
  have l: "unat (of_nat (16 + l) :: u16) = 16 + l"
    using size by (simp only: unat_of_nat) (simp add: dsize_def take_bit_nat_eq_self)
  have n: "unat n = length (dg_data d)"
    unfolding n_def using size by (simp only: unat_of_nat) (simp add: dsize_def take_bit_nat_eq_self)
  have w: "ecx_writedatagramdata c (26 + l) com n (dg_data d) = Some (blit_list c (26 + l)
      (if no_data_cmd com then replicate (length (dg_data d)) 0 else dg_data d))" for c com
    using size by (subst writedatagramdata_Some) (simp_all add: n dsize_def)
  have ds: "of_nat (dsize d) = of_nat EC_HEADERSIZE + n"
    by (simp add: dsize_def n_def)
  have pre: "EC_ELENGTHSIZE \<le> 16 + l" "16 + l + EC_HEADERSIZE - EC_ELENGTHSIZE + length (dg_data d) + 2 \<le> EC_BUFSIZE"
    "16 + l + EC_HEADERSIZE - EC_ELENGTHSIZE = 26 + l" "16 + l - EC_ELENGTHSIZE = 14 + l"
    using size by (simp_all add: dsize_def)
  have nf: "(if m then n OR EC_DATAGRAMFOLLOWS else n) =
      (if m then of_nat (length (dg_data d)) OR EC_DATAGRAMFOLLOWS else of_nat (length (dg_data d)))"
    by (simp add: n_def)
  show ?thesis
    unfolding ecx_adddatagram_def wl Let_def l n pre nf w ds write_dgram_def b_def
    using i pre(2) by (simp add: w on_wire_def dsize_def get16_put16_other ac_simps)
qed

section \<open>Frames under construction\<close>

text \<open>
  The transmit buffer of \<open>idx\<close> holds the datagrams \<open>xs\<close>, its length and the length in the
  EtherCAT header say so, and the Ethernet header is that of \<open>p0\<close>.
\<close>

definition holds_frame :: "ecx_port \<Rightarrow> u8 \<Rightarrow> (datagram \<times> bool) list \<Rightarrow> ecx_port \<Rightarrow> bool" where
  "holds_frame p0 idx xs p \<longleftrightarrow> txbuflength p = (txbuflength p0)(unat idx := int (16 + lsize xs)) \<and>
     laid (txbuf p (unat idx)) 16 xs \<and> get16 (txbuf p (unat idx)) 14 = EC_ECATTYPE + of_nat (lsize xs) \<and>
     (\<forall>i<14. txbuf p (unat idx) i = txbuf p0 (unat idx) i) \<and>
     (\<forall>j. j \<noteq> unat idx \<longrightarrow> txbuf p j = txbuf p0 j)"

lemma setup_request_holds:
  assumes i: "unat idx < EC_MAXBUF" and size: "16 + dsize d \<le> EC_BUFSIZE"
  shows "returns (setup_request idx d p) (holds_frame p idx [(on_wire idx d, False)])"
proof -
  let ?n = "length (dg_data d)"
  have n: "unat (of_nat ?n :: u16) = ?n"
    using size by (simp only: unat_of_nat) (simp add: dsize_def take_bit_nat_eq_self)
  have n': "uint (of_nat ?n :: u16) = int ?n"
    using n by (metis uint_nat)
  have w: "ecx_writedatagramdata c 26 com (of_nat ?n) (dg_data d) = Some (blit_list c 26
      (if no_data_cmd com then replicate ?n 0 else dg_data d))" for c com
    using size by (subst writedatagramdata_Some) (simp_all add: n dsize_def)
  let ?b = "write_dgram (put16 (txbuf p (unat idx)) 14 (EC_ECATTYPE + of_nat (dsize d))) 16 idx d False"
  have "setup_request idx d p = Some (p\<lparr>txbuf := (txbuf p)(unat idx := ?b),
      txbuflength := (txbuflength p)(unat idx := int (16 + dsize d))\<rparr>)"
    using i size
    by (simp add: setup_request_def ecx_setupdatagram_def Let_def n n' w write_dgram_def on_wire_def dsize_def ac_simps)
  moreover have "laid ?b 16 [(on_wire idx d, False)]"
    by (rule write_dgram_laid) simp
  moreover have "get16 ?b 14 = EC_ECATTYPE + of_nat (dsize d)"
  proof -
    have "get16 ?b 14 = get16 (put16 (txbuf p (unat idx)) 14 (EC_ECATTYPE + of_nat (dsize d))) 14"
      by (intro get16_cong write_dgram_out) simp_all
    then show ?thesis by (simp add: get16_put16_same)
  qed
  moreover have "?b k = txbuf p (unat idx) k" if "k < 14" for k
    using that by (simp add: write_dgram_out put16_other)
  ultimately show ?thesis
    by (simp add: holds_frame_def) (simp add: dsize_def)
qed

lemma add_request_holds:
  assumes i: "unat idx < EC_MAXBUF" and h: "holds_frame p0 idx ((d0, f) # xs) p"
    and size: "16 + lsize ((d0, f) # xs) + dsize d \<le> EC_BUFSIZE"
  shows "returns (ecx_adddatagram (Tx (unat idx)) (dg_com d) idx m (dg_ADP d) (dg_ADO d) (of_nat (length (dg_data d))) (dg_data d) p)
    (\<lambda>(r, q). r = of_nat (lsize ((d0, f) # xs) + 12) \<and> holds_frame p0 idx ((d0, True) # xs @ [(on_wire idx d, m)]) q)"
proof -
  let ?l = "lsize ((d0, f) # xs)" and ?c = "txbuf p (unat idx)"
  let ?c' = "put16 (put16 ?c 14 (get16 ?c 14 + of_nat (dsize d))) 22 (get16 ?c 22 OR EC_DATAGRAMFOLLOWS)"
  let ?b = "write_dgram ?c' (16 + ?l) idx d m"
  have l: "txbuflength p (unat idx) = int (16 + ?l)" "12 \<le> ?l"
    using h by (simp_all add: holds_frame_def dsize_def)
  have "laid ?c 16 ((d0, f) # xs)" using h by (simp only: holds_frame_def)
  then have "laid (put16 ?c 14 (get16 ?c 14 + of_nat (dsize d))) 16 ((d0, f) # xs)"
    by (rule laid_cong [rotated]) (simp add: put16_other)
  from laid_follows [OF this refl] have "laid ?c' 16 ((d0, True) # xs)"
    by (simp add: get16_put16_other)
  then have "laid ?b 16 ((d0, True) # xs)"
    by (rule laid_cong [rotated]) (subst write_dgram_out, auto)
  moreover have "laid ?b (16 + ?l) [(on_wire idx d, m)]"
    by (rule write_dgram_laid) simp
  ultimately have "laid ?b 16 (((d0, True) # xs) @ [(on_wire idx d, m)])"
    by (simp only: laid_append) simp
  moreover have "get16 ?b 14 = EC_ECATTYPE + of_nat (?l + dsize d)"
  proof -
    have "get16 ?b 14 = get16 ?c' 14"
      by (intro get16_cong write_dgram_out) simp_all
    then show ?thesis using h by (simp add: get16_put16_other get16_put16_same holds_frame_def)
  qed
  moreover have "?b k = ?c k" if "k < 14" for k
    using that by (simp add: write_dgram_out put16_other)
  ultimately show ?thesis
    using h unfolding adddatagram_eq [OF i l size] by (simp add: holds_frame_def) (simp add: dsize_def)
qed

lemma chain_snoc: "chain (ws @ [x]) = map (\<lambda>w. (w, True)) ws @ [(x, False)]"
  by (induction ws) (auto simp: chain_def zip_append1 zip_replicate1)

lemma lsize_map_True [simp]: "lsize (map (\<lambda>w. (w, f w)) ws) = sum_list (map dsize ws)"
  by (induction ws) auto

lemma dsize_on_wire [simp]: "dsize (on_wire idx d) = dsize d"
  by (simp add: dsize_def)

lemma lsize_chain: "lsize (chain ds) = sum_list (map dsize ds)"
  by (induction ds rule: induct_list012) (simp_all add: chain_simps)

lemma add_requests_hold:
  assumes "unat idx < EC_MAXBUF" "holds_frame p0 idx ((d0, f) # map (\<lambda>w. (w, True)) ws) p" "ds \<noteq> []"
    "16 + dsize d0 + sum_list (map dsize ws) + sum_list (map dsize ds) \<le> EC_BUFSIZE"
  shows "returns (add_requests idx ds p) (holds_frame p0 idx ((d0, True) # chain (ws @ map (on_wire idx) ds)))"
  using assms
proof (induction ds arbitrary: ws p f)
  case Nil
  then show ?case by simp
next
  case (Cons d ds)
  have "16 + lsize ((d0, f) # map (\<lambda>w. (w, True)) ws) + dsize d \<le> EC_BUFSIZE"
    using Cons.prems(4) by simp
  from add_request_holds [OF Cons.prems(1,2) this, of "ds \<noteq> []"] obtain r q where
    a: "ecx_adddatagram (Tx (unat idx)) (dg_com d) idx (ds \<noteq> []) (dg_ADP d) (dg_ADO d) (of_nat (length (dg_data d))) (dg_data d) p = Some (r, q)"
      "holds_frame p0 idx ((d0, True) # map (\<lambda>w. (w, True)) ws @ [(on_wire idx d, ds \<noteq> [])]) q"
    by (auto simp: returns_iff)
  show ?case
  proof (cases "ds = []")
    case True
    with a show ?thesis by (simp add: chain_snoc)
  next
    case False
    with a(2) have "holds_frame p0 idx ((d0, True) # map (\<lambda>w. (w, True)) (ws @ [on_wire idx d])) q" by simp
    from Cons.IH [OF Cons.prems(1) this False] Cons.prems(4) a(1) False show ?thesis
      by simp
  qed
qed

lemma header_length: "n < 4096 \<Longrightarrow> unat ((EC_ECATTYPE + of_nat n) AND 0x0fff) = n"
proof -
  assume n: "n < 4096"
  have "(EC_ECATTYPE + of_nat n) AND 0x0fff = take_bit 12 (EC_ECATTYPE + of_nat n)"
    by (simp add: take_bit_eq_mask mask_eq_exp_minus_1)
  also have "unat (take_bit 12 (EC_ECATTYPE + of_nat n)) = (4096 + n) mod 2 ^ 12"
    using n by (simp add: unsigned_take_bit_eq unat_word_ariths take_bit_eq_mod unat_of_nat)
  finally show ?thesis using n by simp
qed

text \<open>
  C4: a frame built from any list of requests that fits the buffer reads back, datagram by
  datagram, as exactly these requests, each with the index of the frame, with the data of a
  write and zeros for a read; the length in the EtherCAT header and the length handed to the
  interface are those of the datagrams, and the Ethernet header is not touched.
\<close>

theorem build_frame_reads_back:
  assumes "unat idx < EC_MAXBUF" "16 + sum_list (map dsize (d # ds)) \<le> EC_BUFSIZE"
  shows "\<exists>q. Option.bind (setup_request idx d p) (add_requests idx ds) = Some q \<and>
    read_datagrams EC_BUFSIZE (txbuf q (unat idx)) 16 = map (on_wire idx) (d # ds) \<and>
    txbuflength q (unat idx) = int (16 + sum_list (map dsize (d # ds))) \<and>
    frame_len (txbuf q (unat idx)) ETH_HEADERSIZE = sum_list (map dsize (d # ds)) \<and>
    (\<forall>i<14. txbuf q (unat idx) i = txbuf p (unat idx) i)"
proof -
  let ?ws = "map (on_wire idx) (d # ds)"
  obtain p1 where s: "setup_request idx d p = Some p1" "holds_frame p idx [(on_wire idx d, False)] p1"
    using setup_request_holds [OF assms(1), of d p] assms(2) by (auto simp: returns_iff)
  have "returns (add_requests idx ds p1) (holds_frame p idx (chain ?ws))"
  proof (cases ds)
    case Nil
    with s(2) show ?thesis by (simp add: chain_simps)
  next
    case (Cons e es)
    have "holds_frame p idx ((on_wire idx d, False) # map (\<lambda>w. (w, True)) []) p1" using s(2) by simp
    from add_requests_hold [OF assms(1) this, of ds] assms(2) Cons show ?thesis
      by (simp add: chain_simps)
  qed
  then obtain q where q: "add_requests idx ds p1 = Some q" "holds_frame p idx (chain ?ws) q"
    by (auto simp: returns_iff)
  have size: "lsize (chain ?ws) = sum_list (map dsize (d # ds))"
    by (simp add: lsize_chain comp_def)
  have "12 * length xs \<le> sum_list (map dsize xs)" for xs
    by (induction xs) (auto simp: dsize_def)
  from this [of "d # ds"] have n: "length ?ws \<le> EC_BUFSIZE" using assms(2) by simp
  have data: "length (dg_data x) < 2048" if "x \<in> set ?ws" for x
  proof -
    have "dsize x \<le> sum_list (map dsize ?ws)" using that by (intro member_le_sum_list) auto
    moreover have "sum_list (map dsize ?ws) = sum_list (map dsize (d # ds))" by (simp add: comp_def)
    ultimately show ?thesis using assms(2) by (simp add: dsize_def)
  qed
  have "read_datagrams EC_BUFSIZE (txbuf q (unat idx)) 16 = ?ws"
  proof (rule read_laid)
    show "laid (txbuf q (unat idx)) 16 (chain ?ws)" using q(2) by (simp add: holds_frame_def)
  qed (use n data in auto)
  moreover have "frame_len (txbuf q (unat idx)) ETH_HEADERSIZE = sum_list (map dsize (d # ds))"
    using q(2) assms(2) size header_length [of "lsize (chain ?ws)"] by (simp add: holds_frame_def frame_len_def)
  ultimately show ?thesis
    using s(1) q size by (simp add: holds_frame_def)
qed

definition demo_write :: datagram where
  "demo_write = \<lparr>dg_com = EC_CMD_LRW, dg_idx = 0, dg_ADP = 0, dg_ADO = 1, dg_data = [1, 2]\<rparr>"

definition demo_read :: datagram where
  "demo_read = \<lparr>dg_com = EC_CMD_BRD, dg_idx = 0, dg_ADP = 0, dg_ADO = 0x130, dg_data = [7, 7]\<rparr>"

theorem build_frame_reads_back_witness:
  "\<exists>q. Option.bind (setup_request 1 demo_write (demo_port [])) (add_requests 1 [demo_read]) = Some q \<and>
    read_datagrams EC_BUFSIZE (txbuf q (unat (1::u8))) 16 =
      [demo_write\<lparr>dg_idx := 1\<rparr>, demo_read\<lparr>dg_idx := 1, dg_data := [0, 0]\<rparr>]"
proof -
  have "unat (1::u8) < EC_MAXBUF" "16 + sum_list (map dsize [demo_write, demo_read]) \<le> EC_BUFSIZE"
    by code_simp+
  moreover have "map (on_wire 1) [demo_write, demo_read] =
      [demo_write\<lparr>dg_idx := 1\<rparr>, demo_read\<lparr>dg_idx := 1, dg_data := [0, 0]\<rparr>]"
    by code_simp
  ultimately show ?thesis
    using build_frame_reads_back [of 1 demo_write "[demo_read]" "demo_port []"] by metis
qed

end
