(* ===== verification/Wire.thy ===== *)
theory Wire
  imports FrameFormat
begin

text \<open>
  A scripted wire: the frames the slaves send back, written as index, data and work
  counter, and the course of a request on a port at rest whose next frame answers it. The
  functional properties of the layers above are stated against such scripts.
\<close>

section \<open>Answer frames\<close>

definition answer :: "u8 \<Rightarrow> u8 list \<Rightarrow> u16 \<Rightarrow> u8 list" where
  "answer idx data w = replicate 12 0 @ [0x88, 0xa4] @ enc16 (EC_ECATTYPE + of_nat (12 + length data)) @
     [0, idx] @ replicate 8 0 @ data @ enc16 w"

lemma answer_length [simp]: "length (answer idx data w) = 28 + length data"
  by (simp add: answer_def)

lemma answer_nth:
  "answer idx data w ! 12 = 0x88" "answer idx data w ! 13 = 0xa4"
  "answer idx data w ! 14 = lo8 (EC_ECATTYPE + of_nat (12 + length data))"
  "answer idx data w ! 15 = hi8 (EC_ECATTYPE + of_nat (12 + length data))"
  "answer idx data w ! 17 = idx"
  by (simp_all add: answer_def nth_append enc16_def)

lemma answer_data:
  "i < length data \<Longrightarrow> answer idx data w ! (26 + i) = data ! i"
  "answer idx data w ! (26 + length data) = lo8 w" "answer idx data w ! (27 + length data) = hi8 w"
  by (simp_all add: answer_def nth_append enc16_def)

lemma answer_frame_len:
  assumes "length data \<le> EC_MAXDATA"
  shows "frame_len (list_buf (answer idx data w)) ETH_HEADERSIZE = 12 + length data"
  using assms answer_nth [of idx data w] header_length [of "12 + length data"]
  by (simp add: frame_len_def get16_def list_buf_def)

lemma answer_reply:
  assumes "length data \<le> EC_MAXDATA" "txl (unat idx) = 28 + int (length data)"
  shows "reply_for txl idx (answer idx data w)"
  using assms answer_nth [of idx data w] answer_frame_len [OF assms(1)]
  by (simp add: reply_for_def get16be_def list_buf_def mk16_def)

lemma answer_wkc:
  assumes "length data \<le> EC_MAXDATA"
  shows "reply_wkc (answer idx data w) = uint w"
proof -
  have "list_buf (answer idx data w) (26 + length data) = lo8 w" "list_buf (answer idx data w) (27 + length data) = hi8 w"
    using answer_data(2,3) [of idx data w] by (simp_all add: list_buf_def)
  then have "reply_wkc (answer idx data w) = uint (lo8 w) + 256 * uint (hi8 w)"
    using answer_frame_len [OF assms] by (simp add: reply_wkc_def wkc_at_def)
  also have "\<dots> = uint w" using uint_mk16 [of "lo8 w" "hi8 w"] by simp
  finally show ?thesis .
qed

lemma answer_reply_data: "reply_data (answer idx data w) (length data) = data"
  by (rule nth_equalityI) (simp_all add: reply_data_def list_buf_def answer_data)

section \<open>A port at rest\<close>

text \<open>No index is in use, the last one used was \<open>l\<close>, and the frames of \<open>fs\<close> are to come.\<close>

definition at_rest :: "u8 \<Rightarrow> u8 list option script \<Rightarrow> ecx_port \<Rightarrow> bool" where
  "at_rest l fs p \<longleftrightarrow> port_inv p \<and> redstate p = ECT_RED_NONE \<and> lastidx p = l \<and> rxscript (prim p) = fs \<and>
     (\<forall>i<EC_MAXBUF. rxbufstat (prim p) i = EC_BUF_EMPTY)"

lemma at_rest_inv: "at_rest l fs p \<Longrightarrow> port_inv p"
  by (simp add: at_rest_def)

lemma at_rest_getindex:
  assumes "at_rest l fs p"
  shows "\<exists>p1. ecx_getindex p = Some (next_idx l, p1)"
proof -
  have "getindex_scan EC_MAXBUF (rxbufstat (prim p)) (next_idx l) = next_idx l"
    using assms next_idx_range [of l] by (simp add: at_rest_def numeral_eq_Suc)
  then show ?thesis
    using getindex_returns [OF at_rest_inv [OF assms]] assms by (auto simp: returns_iff at_rest_def)
qed

lemma at_rest_answered:
  assumes "at_rest l fs p" "answered p q"
  shows "at_rest (next_idx l) (script_tl fs) q"
  using assms at_rest_getindex [OF assms(1)] by (auto simp: at_rest_def answered_def port_ok_def)

lemma at_rest_next_answer:
  assumes "at_rest l fs p" "fs 0 = Some (answer (next_idx l) data w)" "length data \<le> EC_MAXDATA"
  shows "next_answer (length data) (answer (next_idx l) data w) p"
  using assms at_rest_getindex [OF assms(1)] answer_reply [OF assms(3)]
  by (auto simp: next_answer_def at_rest_def)

text \<open>A request of a port at rest is served by the next frame.\<close>

lemma write_at_rest:
  assumes "at_rest l fs p" "fs 0 = Some (answer (next_idx l) ret w)" "unat len = length ret"
    "length ret \<le> EC_MAXDATA" "unat len \<le> length data"
  shows "returns (write_primitive com ADP ADO len data timeout p)
    (\<lambda>(v, q). v = uint w \<and> port_ok p q \<and> at_rest (next_idx l) (script_tl fs) q)"
proof -
  have "next_answer (unat len) (answer (next_idx l) ret w) p"
    using at_rest_next_answer [OF assms(1,2,4)] assms(3) by simp
  from write_primitive_answered [OF at_rest_inv [OF assms(1)] _ assms(5) this, of com ADP ADO timeout]
  show ?thesis
    using assms(3,4) answer_wkc [OF assms(4)] at_rest_answered [OF assms(1)]
    by (auto simp: answered_def elim!: returns_mono)
qed

lemma uint_pos: "0 < uint w \<longleftrightarrow> (w :: u16) \<noteq> 0"
  by (auto simp: order_less_le uint_0_iff)

lemma read_into_at_rest:
  assumes "at_rest l fs p" "fs 0 = Some (answer (next_idx l) ret w)" "unat len = length ret"
    "length ret \<le> EC_MAXDATA" "unat len \<le> length data"
  shows "returns (read_primitive (\<lambda>_. True) com ADP ADO len data timeout p)
    (\<lambda>(v, d, q). v = uint w \<and> d = (if w = 0 then data else ret @ drop (length ret) data) \<and> port_ok p q \<and> at_rest (next_idx l) (script_tl fs) q)"
proof -
  have "next_answer (unat len) (answer (next_idx l) ret w) p"
    using at_rest_next_answer [OF assms(1,2,4)] assms(3) by simp
  from read_primitive_answered [OF at_rest_inv [OF assms(1)] _ assms(5) this, of com ADP ADO timeout]
  show ?thesis
    using assms(3,4) answer_wkc [OF assms(4), of "next_idx l" w] answer_reply_data [of "next_idx l" ret w]
      at_rest_answered [OF assms(1)] uint_pos [of w]
    by (auto simp: answered_def elim!: returns_mono)
qed

lemma read_at_rest:
  assumes "at_rest l fs p" "fs 0 = Some (answer (next_idx l) ret w)" "unat len = length ret"
    "length ret \<le> EC_MAXDATA" "length data = unat len"
  shows "returns (read_primitive (\<lambda>_. True) com ADP ADO len data timeout p)
    (\<lambda>(v, d, q). v = uint w \<and> d = (if w = 0 then data else ret) \<and> port_ok p q \<and> at_rest (next_idx l) (script_tl fs) q)"
  by (rule returns_mono [OF read_into_at_rest [OF assms(1-4)]]) (use assms(3,5) in \<open>auto split: if_splits\<close>)

lemma at_rest_osclock:
  "at_rest l fs p \<Longrightarrow> mclock c = mclock (osclock p) \<Longrightarrow> at_rest l fs (p\<lparr>osclock := c\<rparr>)"
  by (simp add: at_rest_def port_inv_osclock)

lemma at_rest_timer: "at_rest l fs p \<Longrightarrow> at_rest l fs (snd (port_timer_start t p))"
  by (simp add: port_timer_start_eq at_rest_osclock)

lemma at_rest_again: "at_rest l fs p \<Longrightarrow> at_rest l fs (snd (poll_again b t p))"
  by (simp add: poll_again_eq at_rest_osclock)

lemma at_rest_demo:
  "(\<And>n bs. fs n = Some bs \<Longrightarrow> frame_ok bs) \<Longrightarrow>
     at_rest 0 fs ((demo_port [])\<lparr>prim := (demo_stack [])\<lparr>rxscript := fs\<rparr>\<rparr>)"
  by (auto simp: at_rest_def demo_port_def demo_stack_def port_inv_def stack_inv_def red_ok_def demo_clock_live)

lemma answer_frame_ok: "length data \<le> EC_MAXDATA \<Longrightarrow> frame_ok (answer idx data w)"
  using answer_frame_len [of data idx w] by (simp add: frame_ok_def)

end
