(* ===== verification/EcContext.thy ===== *)
theory EcContext
  imports Wire
begin

text \<open>
  The data of the master, \<^verbatim>\<open>soem/ethercatmain.h\<close> and \<^verbatim>\<open>soem/ethercattype.h\<close>: error records and
  their ring, slaves, groups, the stack of process-data frames, and the context that all
  \<^verbatim>\<open>ecx_\<close> functions share. A pointer into the IO map is an offset into the list of bytes
  \<open>iomap\<close>, which belongs to the application (\<open>None\<close> is the null pointer). The hooks are
  functions of the application; they see the mailbox and do not touch the context.
  \<^verbatim>\<open>osal_usleep\<close> only lets time pass, and any amount may pass between two readings of the
  clock, so that it has no counterpart.
\<close>

section \<open>Constants\<close>

abbreviation EC_MAXELIST :: nat where "EC_MAXELIST \<equiv> 64"
abbreviation EC_MAXNAME :: nat where "EC_MAXNAME \<equiv> 40"
abbreviation EC_MAXMBX :: nat where "EC_MAXMBX \<equiv> 1486"
abbreviation EC_MAXEEPDO :: nat where "EC_MAXEEPDO \<equiv> 0x200"
abbreviation EC_MAXSM :: nat where "EC_MAXSM \<equiv> 8"
abbreviation EC_MAXFMMU :: nat where "EC_MAXFMMU \<equiv> 4"
abbreviation EC_MAXIOSEGMENTS :: nat where "EC_MAXIOSEGMENTS \<equiv> 64"
abbreviation EC_MAXEEPBITMAP :: nat where "EC_MAXEEPBITMAP \<equiv> 128"
abbreviation EC_MAXEEPBUF :: nat where "EC_MAXEEPBUF \<equiv> 4096"
abbreviation EC_LOCALDELAY :: int where "EC_LOCALDELAY \<equiv> 200"
abbreviation EC_TIMEOUTEEP :: int where "EC_TIMEOUTEEP \<equiv> 20000"
abbreviation EC_TIMEOUTTXM :: int where "EC_TIMEOUTTXM \<equiv> 20000"
abbreviation EC_TIMEOUTRXM :: int where "EC_TIMEOUTRXM \<equiv> 700000"
abbreviation EC_DEFAULTRETRIES :: nat where "EC_DEFAULTRETRIES \<equiv> 3"

abbreviation EC_STATE_NONE :: u16 where "EC_STATE_NONE \<equiv> 0x00"
abbreviation EC_STATE_INIT :: u16 where "EC_STATE_INIT \<equiv> 0x01"
abbreviation EC_STATE_PRE_OP :: u16 where "EC_STATE_PRE_OP \<equiv> 0x02"
abbreviation EC_STATE_BOOT :: u16 where "EC_STATE_BOOT \<equiv> 0x03"
abbreviation EC_STATE_SAFE_OP :: u16 where "EC_STATE_SAFE_OP \<equiv> 0x04"
abbreviation EC_STATE_OPERATIONAL :: u16 where "EC_STATE_OPERATIONAL \<equiv> 0x08"
abbreviation EC_STATE_ERROR :: u16 where "EC_STATE_ERROR \<equiv> 0x10"

abbreviation ECT_REG_ALCTL :: u16 where "ECT_REG_ALCTL \<equiv> 0x0120"
abbreviation ECT_REG_ALSTAT :: u16 where "ECT_REG_ALSTAT \<equiv> 0x0130"
abbreviation ECT_REG_EEPCFG :: u16 where "ECT_REG_EEPCFG \<equiv> 0x0500"
abbreviation ECT_REG_EEPCTL :: u16 where "ECT_REG_EEPCTL \<equiv> 0x0502"
abbreviation ECT_REG_EEPSTAT :: u16 where "ECT_REG_EEPSTAT \<equiv> 0x0502"
abbreviation ECT_REG_EEPDAT :: u16 where "ECT_REG_EEPDAT \<equiv> 0x0508"
abbreviation ECT_REG_SM0STAT :: u16 where "ECT_REG_SM0STAT \<equiv> 0x0805"
abbreviation ECT_REG_SM1STAT :: u16 where "ECT_REG_SM1STAT \<equiv> 0x080d"
abbreviation ECT_REG_SM1CONTR :: u16 where "ECT_REG_SM1CONTR \<equiv> 0x080f"

section \<open>Errors\<close>

datatype ec_err_type =
    EC_ERR_TYPE_SDO_ERROR
  | EC_ERR_TYPE_EMERGENCY
  | EC_ERR_TYPE_PACKET_ERROR
  | EC_ERR_TYPE_SDOINFO_ERROR
  | EC_ERR_TYPE_FOE_ERROR
  | EC_ERR_TYPE_FOE_BUF2SMALL
  | EC_ERR_TYPE_FOE_PACKETNUMBER
  | EC_ERR_TYPE_SOE_ERROR
  | EC_ERR_TYPE_MBX_ERROR
  | EC_ERR_TYPE_FOE_FILE_NOTFOUND
  | EC_ERR_TYPE_EOE_INVALID_RX_DATA

text \<open>
  The union of \<^verbatim>\<open>ec_errort\<close> is kept as its second member; the first, a 32-bit abort code,
  occupies the bytes of \<open>ErrorCode\<close>, \<open>ErrorReg\<close> and \<open>b1\<close>.
\<close>

record ec_error =
  Time :: ec_timet
  Signal :: bool
  Slave :: u16
  Index :: u16
  SubIdx :: u8
  Etype :: ec_err_type
  ErrorCode :: u16
  ErrorReg :: u8
  b1 :: u8
  w1 :: u16
  w2 :: u16

definition AbortCode :: "ec_error \<Rightarrow> u32" where
  "AbortCode e = dec32 (enc16 (ErrorCode e) @ [ErrorReg e, b1 e])"

definition set_AbortCode :: "u32 \<Rightarrow> ec_error \<Rightarrow> ec_error" where
  "set_AbortCode a e = e\<lparr>ErrorCode := ucast a, ErrorReg := ucast (drop_bit 16 a), b1 := ucast (drop_bit 24 a)\<rparr>"

lemma AbortCode_set [simp]: "AbortCode (set_AbortCode a e) = a"
proof -
  have split: "n - 8 < 8" if "n < 32" "\<not> bit a (16 + (n - 16))" "bit a n" for n
    using that by (cases "16 \<le> n") auto
  show ?thesis
    unfolding AbortCode_def set_AbortCode_def dec32_def get32_def get16_def mk16_def list_buf_def enc16_def lo8_def hi8_def
    by (rule bit_word_eqI) (auto simp: bit_simps intro: split)
qed

text \<open>\<^verbatim>\<open>memset(&Ec, 0, sizeof(Ec))\<close>: the type with the value 0 is the SDO error.\<close>

definition no_error :: ec_error where
  "no_error = \<lparr>Time = \<lparr>t_sec = 0, t_usec = 0\<rparr>, Signal = False, Slave = 0, Index = 0, SubIdx = 0,
     Etype = EC_ERR_TYPE_SDO_ERROR, ErrorCode = 0, ErrorReg = 0, b1 = 0, w1 = 0, w2 = 0\<rparr>"

record ec_ering =
  ehead :: int
  etail :: int
  Error :: "ec_error list"

section \<open>Slaves and groups\<close>

record ec_fmmu =
  LogStart :: u32
  LogLength :: u16
  LogStartbit :: u8
  LogEndbit :: u8
  PhysStart :: u16
  PhysStartBit :: u8
  FMMUtype :: u8
  FMMUactive :: u8
  fmmu_unused1 :: u8
  fmmu_unused2 :: u16

record ec_sm =
  StartAddr :: u16
  SMlength :: u16
  SMflags :: u32

record ec_slave =
  s_state :: u16
  s_ALstatuscode :: u16
  s_configadr :: u16
  s_aliasadr :: u16
  s_eep_man :: u32
  s_eep_id :: u32
  s_eep_rev :: u32
  s_Itype :: u16
  s_Dtype :: u16
  s_Obits :: u16
  s_Obytes :: u32
  s_outputs :: "nat option"
  s_Ostartbit :: u8
  s_Ibits :: u16
  s_Ibytes :: u32
  s_inputs :: "nat option"
  s_Istartbit :: u8
  s_SM :: "ec_sm list"
  s_SMtype :: "u8 list"
  s_FMMU :: "ec_fmmu list"
  s_FMMUfunc :: "u8 list"
  s_mbx_l :: u16
  s_mbx_wo :: u16
  s_mbx_rl :: u16
  s_mbx_ro :: u16
  s_mbx_proto :: u16
  s_mbx_cnt :: u8
  s_hasdc :: bool
  s_ptype :: u8
  s_topology :: u8
  s_activeports :: u8
  s_consumedports :: u8
  s_parent :: u16
  s_parentport :: u8
  s_entryport :: u8
  s_DCrtA :: u32
  s_DCrtB :: u32
  s_DCrtC :: u32
  s_DCrtD :: u32
  s_pdelay :: u32
  s_DCnext :: u16
  s_DCprevious :: u16
  s_DCcycle :: u32
  s_DCshift :: u32
  s_DCactive :: u8
  s_configindex :: u16
  s_SIIindex :: u16
  s_eep_8byte :: u8
  s_eep_pdi :: u8
  s_CoEdetails :: u8
  s_FoEdetails :: u8
  s_EoEdetails :: u8
  s_SoEdetails :: u8
  s_Ebuscurrent :: u16
  s_blockLRW :: u8
  s_group :: u8
  s_FMMUunused :: u8
  s_islost :: bool
  s_name :: "u8 list"

record ec_group =
  g_logstartaddr :: u32
  g_Obytes :: u32
  g_outputs :: "nat option"
  g_Ibytes :: u32
  g_inputs :: "nat option"
  g_hasdc :: bool
  g_DCnext :: u16
  g_Ebuscurrent :: u16
  g_blockLRW :: u8
  g_nsegments :: u16
  g_Isegment :: u16
  g_Ioffset :: u16
  g_outputsWKC :: u16
  g_inputsWKC :: u16
  g_docheckstate :: bool
  g_IOsegment :: "u32 list"

text \<open>A slave and a group whose bytes are all zero.\<close>

definition no_fmmu :: ec_fmmu where
  "no_fmmu = \<lparr>LogStart = 0, LogLength = 0, LogStartbit = 0, LogEndbit = 0, PhysStart = 0, PhysStartBit = 0, FMMUtype = 0, FMMUactive = 0, fmmu_unused1 = 0, fmmu_unused2 = 0\<rparr>"

definition no_slave :: ec_slave where
  "no_slave = \<lparr>s_state = 0, s_ALstatuscode = 0, s_configadr = 0, s_aliasadr = 0, s_eep_man = 0, s_eep_id = 0,
     s_eep_rev = 0, s_Itype = 0, s_Dtype = 0, s_Obits = 0, s_Obytes = 0, s_outputs = None,
     s_Ostartbit = 0, s_Ibits = 0, s_Ibytes = 0, s_inputs = None, s_Istartbit = 0,
     s_SM = replicate EC_MAXSM \<lparr>StartAddr = 0, SMlength = 0, SMflags = 0\<rparr>,
     s_SMtype = replicate EC_MAXSM 0, s_FMMU = replicate EC_MAXFMMU no_fmmu,
     s_FMMUfunc = replicate EC_MAXFMMU 0, s_mbx_l = 0, s_mbx_wo = 0, s_mbx_rl = 0, s_mbx_ro = 0,
     s_mbx_proto = 0, s_mbx_cnt = 0, s_hasdc = False, s_ptype = 0, s_topology = 0, s_activeports = 0,
     s_consumedports = 0, s_parent = 0, s_parentport = 0, s_entryport = 0, s_DCrtA = 0, s_DCrtB = 0,
     s_DCrtC = 0, s_DCrtD = 0, s_pdelay = 0, s_DCnext = 0, s_DCprevious = 0, s_DCcycle = 0,
     s_DCshift = 0, s_DCactive = 0, s_configindex = 0, s_SIIindex = 0, s_eep_8byte = 0,
     s_eep_pdi = 0, s_CoEdetails = 0, s_FoEdetails = 0, s_EoEdetails = 0, s_SoEdetails = 0,
     s_Ebuscurrent = 0, s_blockLRW = 0, s_group = 0, s_FMMUunused = 0, s_islost = False,
     s_name = replicate (EC_MAXNAME + 1) 0\<rparr>"

definition no_group :: ec_group where
  "no_group = \<lparr>g_logstartaddr = 0, g_Obytes = 0, g_outputs = None, g_Ibytes = 0, g_inputs = None,
     g_hasdc = False, g_DCnext = 0, g_Ebuscurrent = 0, g_blockLRW = 0, g_nsegments = 0,
     g_Isegment = 0, g_Ioffset = 0, g_outputsWKC = 0, g_inputsWKC = 0, g_docheckstate = False,
     g_IOsegment = replicate EC_MAXIOSEGMENTS 0\<rparr>"

section \<open>The stack of process-data frames\<close>

record ec_idxstack =
  pushed :: u8
  pulled :: u8
  is_idx :: "u8 list"
  is_data :: "nat option list"
  is_length :: "u16 list"
  is_dcoffset :: "u16 list"

section \<open>The context\<close>

record ec_SMcommtype =
  smc_n :: u8
  smc_nu1 :: u8
  smc_SMtype :: "u8 list"

record ec_PDOassign =
  pa_n :: u8
  pa_nu1 :: u8
  pa_index :: "u16 list"

record ec_PDOdesc =
  pd_n :: u8
  pd_nu1 :: u8
  pd_PDO :: "u32 list"

record ecx_context =
  port :: ecx_port
  slavelist :: "ec_slave list"
  slavecount :: int
  maxslave :: int
  grouplist :: "ec_group list"
  maxgroup :: int
  esibuf :: buf
  esimap :: "nat \<Rightarrow> u32"
  esislave :: u16
  elist :: ec_ering
  idxstack :: ec_idxstack
  ecaterror :: bool
  DCtime :: u64
  SMcommtype :: ec_SMcommtype
  PDOassign :: ec_PDOassign
  PDOdesc :: ec_PDOdesc
  FOEhook :: "(u16 \<Rightarrow> int \<Rightarrow> int \<Rightarrow> int) option"
  EOEhook :: "(u16 \<Rightarrow> u8 list \<Rightarrow> int) option"
  manualstatechange :: int
  iomap :: "u8 list"

text \<open>\<^verbatim>\<open>context->slavelist[slave]\<close>, read and written.\<close>

definition get_slave :: "u16 \<Rightarrow> ecx_context \<Rightarrow> ec_slave option" where
  "get_slave slave c = arr_get (slavelist c) (unat slave)"

definition upd_slave :: "u16 \<Rightarrow> (ec_slave \<Rightarrow> ec_slave) \<Rightarrow> ecx_context \<Rightarrow> ecx_context option" where
  "upd_slave slave f c = do {
     s \<leftarrow> get_slave slave c;
     Some (c\<lparr>slavelist := (slavelist c)[unat slave := f s]\<rparr>)
   }"

text \<open>An operation of the port run in the context.\<close>

definition on_port :: "(ecx_port \<Rightarrow> ('a \<times> ecx_port) option) \<Rightarrow> ecx_context \<Rightarrow> ('a \<times> ecx_context) option" where
  "on_port f c = do { (r, p) \<leftarrow> f (port c); Some (r, c\<lparr>port := p\<rparr>) }"

definition on_port_buf ::
    "(ecx_port \<Rightarrow> ('a \<times> 'b \<times> ecx_port) option) \<Rightarrow> ecx_context \<Rightarrow> ('a \<times> 'b \<times> ecx_context) option" where
  "on_port_buf f c = do { (r, d, p) \<leftarrow> f (port c); Some (r, d, c\<lparr>port := p\<rparr>) }"

text \<open>The timers of the functions below, on the clock of the port.\<close>

definition ctx_timer_start :: "int \<Rightarrow> ecx_context \<Rightarrow> ec_timet \<times> ecx_context" where
  "ctx_timer_start timeout c =
     (let (t, p) = port_timer_start timeout (port c) in (t, c\<lparr>port := p\<rparr>))"

definition ctx_again :: "bool \<Rightarrow> ec_timet \<Rightarrow> ecx_context \<Rightarrow> bool \<times> ecx_context" where
  "ctx_again b timer c = (let (a, p) = poll_again b timer (port c) in (a, c\<lparr>port := p\<rparr>))"

section \<open>What every operation of the master keeps\<close>

text \<open>The ring of errors and the frame stack stay inside their arrays.\<close>

definition ring_inv :: "ec_ering \<Rightarrow> bool" where
  "ring_inv r \<longleftrightarrow> length (Error r) = EC_MAXELIST + 1 \<and> 0 \<le> ehead r \<and> ehead r \<le> int EC_MAXELIST \<and>
     0 \<le> etail r \<and> etail r \<le> int EC_MAXELIST"

definition idxstack_inv :: "ec_idxstack \<Rightarrow> bool" where
  "idxstack_inv s \<longleftrightarrow> length (is_idx s) = EC_MAXBUF \<and> length (is_data s) = EC_MAXBUF \<and>
     length (is_length s) = EC_MAXBUF \<and> length (is_dcoffset s) = EC_MAXBUF \<and>
     unat (pulled s) \<le> unat (pushed s) \<and> unat (pushed s) \<le> EC_MAXBUF"

definition ctx_inv :: "ecx_context \<Rightarrow> bool" where
  "ctx_inv c \<longleftrightarrow> port_inv (port c) \<and> ring_inv (elist c) \<and> idxstack_inv (idxstack c)"

text \<open>
  From outside, an operation gives its frame indices back, keeps the mode of the port and
  the sizes of the tables.
\<close>

definition ctx_ok :: "ecx_context \<Rightarrow> ecx_context \<Rightarrow> bool" where
  "ctx_ok c d \<longleftrightarrow> ctx_inv d \<and> port_ok (port c) (port d) \<and> length (slavelist d) = length (slavelist c) \<and>
     slavecount d = slavecount c \<and> length (grouplist d) = length (grouplist c) \<and>
     length (iomap d) = length (iomap c)"

text \<open>An operation that only talks to the slaves leaves all tables alone.\<close>

definition ctx_same :: "ecx_context \<Rightarrow> ecx_context \<Rightarrow> bool" where
  "ctx_same c d \<longleftrightarrow> (\<exists>p. d = c\<lparr>port := p\<rparr>)"

lemma ctx_ok_refl [intro]: "ctx_inv c \<Longrightarrow> ctx_ok c c"
  by (simp add: ctx_ok_def ctx_inv_def port_ok_refl)

lemma ctx_ok_trans [trans]: "ctx_ok a b \<Longrightarrow> ctx_ok b c \<Longrightarrow> ctx_ok a c"
  by (auto simp: ctx_ok_def intro: port_ok_trans)

lemma ctx_ok_inv: "ctx_ok a b \<Longrightarrow> ctx_inv b"
  by (simp add: ctx_ok_def)

lemma ctx_ok_port: "ctx_inv c \<Longrightarrow> port_ok (port c) p \<Longrightarrow> ctx_ok c (c\<lparr>port := p\<rparr>)"
  by (auto simp: ctx_ok_def ctx_inv_def port_ok_def)

lemma ctx_same_refl [simp, intro]: "ctx_same c c"
  by (auto simp: ctx_same_def intro: exI [of _ "port c"])

lemma ctx_same_trans [trans]: "ctx_same a b \<Longrightarrow> ctx_same b c \<Longrightarrow> ctx_same a c"
  by (auto simp: ctx_same_def)

lemma ctx_same_port [simp]: "ctx_same c (c\<lparr>port := p\<rparr>)"
  by (auto simp: ctx_same_def)

lemma ctx_same_eq:
  "ctx_same c d \<Longrightarrow> slavelist d = slavelist c \<and> slavecount d = slavecount c \<and> grouplist d = grouplist c \<and>
     esibuf d = esibuf c \<and> esimap d = esimap c \<and> esislave d = esislave c \<and> elist d = elist c \<and>
     idxstack d = idxstack c \<and> iomap d = iomap c \<and> EOEhook d = EOEhook c"
  by (auto simp: ctx_same_def)

lemma ctx_inv_port: "ctx_inv c \<Longrightarrow> port_inv (port c)"
  by (simp add: ctx_inv_def)

definition ctx_left :: "ecx_context \<Rightarrow> nat" where
  "ctx_left c = clock_left (osclock (port c))"

lemma ctx_ok_left: "ctx_ok c d \<Longrightarrow> ctx_left d \<le> ctx_left c"
  by (simp add: ctx_ok_def ctx_left_def port_ok_def port_prog_clock)

text \<open>What an operation that only talks to the slaves guarantees.\<close>

definition talks :: "ecx_context \<Rightarrow> ecx_context \<Rightarrow> bool" where
  "talks c d \<longleftrightarrow> ctx_ok c d \<and> ctx_same c d"

lemma talks_refl: "ctx_inv c \<Longrightarrow> talks c c"
  by (simp add: talks_def ctx_ok_refl)

lemma talks_trans [trans]: "talks a b \<Longrightarrow> talks b c \<Longrightarrow> talks a c"
  by (auto simp: talks_def intro: ctx_ok_trans ctx_same_trans)

lemma talks_inv: "talks a b \<Longrightarrow> ctx_inv b"
  by (auto simp: talks_def dest: ctx_ok_inv)

lemma talks_ok: "talks a b \<Longrightarrow> ctx_ok a b"
  by (simp add: talks_def)

lemma talks_left: "talks a b \<Longrightarrow> ctx_left b \<le> ctx_left a"
  by (auto simp: talks_def dest: ctx_ok_left)

lemma talks_slavelist: "talks a b \<Longrightarrow> slavelist b = slavelist a"
  by (simp add: talks_def ctx_same_eq)

lemma on_port_returns:
  assumes "ctx_inv c" "returns (f (port c)) (\<lambda>(r, p). port_ok (port c) p \<and> Q r)"
  shows "returns (on_port f c) (\<lambda>(r, d). talks c d \<and> Q r)"
  using assms
  by (auto simp: on_port_def returns_iff talks_def ctx_ok_port)

lemma on_port_buf_returns:
  assumes "ctx_inv c" "returns (f (port c)) (\<lambda>(r, d, p). port_ok (port c) p \<and> Q r d)"
  shows "returns (on_port_buf f c) (\<lambda>(r, d, c'). talks c c' \<and> Q r d)"
  using assms
  by (auto simp: on_port_buf_def returns_iff talks_def ctx_ok_port)

section \<open>Loops that poll a timer\<close>

lemma clock_ok: "port_inv p \<Longrightarrow> mclock c = mclock (osclock p) \<Longrightarrow> clock_left c \<le> clock_left (osclock p) \<Longrightarrow>
   port_ok p (p\<lparr>osclock := c\<rparr>)"
  by (simp add: port_ok_def port_prog_def port_inv_osclock)

lemma ctx_timer_start_talks: "ctx_inv c \<Longrightarrow> talks c (snd (ctx_timer_start t c))"
proof -
  assume c: "ctx_inv c"
  have "snd (ctx_timer_start t c) = c\<lparr>port := snd (port_timer_start t (port c))\<rparr>"
    by (simp add: ctx_timer_start_def case_prod_unfold Let_def)
  moreover have "port_ok (port c) (snd (port_timer_start t (port c)))"
    unfolding port_timer_start_eq by (rule clock_ok [OF ctx_inv_port [OF c]]) (simp_all add: clock_left_start)
  ultimately show ?thesis using c by (simp add: talks_def ctx_ok_port)
qed

lemma ctx_again_eq:
  "ctx_again b t c = (fst (poll_again b t (port c)), c\<lparr>port := snd (poll_again b t (port c))\<rparr>)"
  by (simp add: ctx_again_def case_prod_unfold Let_def)

lemma ctx_again_talks: "ctx_inv c \<Longrightarrow> talks c (snd (ctx_again b t c))"
proof -
  assume c: "ctx_inv c"
  have "port_ok (port c) (snd (poll_again b t (port c)))"
    using ctx_inv_port [OF c] clock_ok [OF ctx_inv_port [OF c]]
    by (auto simp: poll_again_eq port_ok_refl clock_left_expired)
  with c show ?thesis by (simp add: ctx_again_eq talks_def ctx_ok_port)
qed

lemma ctx_again_left:
  "ctx_inv c \<Longrightarrow> fst (ctx_again b t c) \<Longrightarrow> ctx_left (snd (ctx_again b t c)) < ctx_left c \<and> b"
  using poll_again_left [of "port c" b t] poll_again_left [of "port c" True t]
  by (cases b) (simp_all add: ctx_again_eq ctx_left_def ctx_inv_port)

lemma ctx_again_False [simp]: "ctx_again False t c = (False, c)"
  by (simp add: ctx_again_def)

text \<open>
  A loop whose body keeps \<open>K\<close> (a preorder on contexts such as \<open>talks\<close> or \<open>ctx_ok\<close>) and goes
  on only after the clock has been read ends, and keeps \<open>K\<close>.
\<close>

lemma polling_ctx:
  assumes start: "K c0 (ctx s)" "R s"
    and body: "\<And>s. R s \<Longrightarrow> K c0 (ctx s) \<Longrightarrow>
      returns (body s) (\<lambda>(s', again). K c0 (ctx s') \<and>
        (if again then R s' \<and> ctx_left (ctx s') < ctx_left (ctx s) else Q s'))"
  shows "returns (do_while body s) (\<lambda>s'. K c0 (ctx s') \<and> Q s')"
  by (rule do_while_returns [where P = "\<lambda>s. R s \<and> K c0 (ctx s)" and f = "\<lambda>s. ctx_left (ctx s)"])
    (use start in simp, fastforce dest!: body elim!: returns_mono split: if_splits)

section \<open>A retried access\<close>

text \<open>
  \<^verbatim>\<open>cnt = 0; do wkc = ... while ((wkc <= 0) && (cnt++ < EC_DEFAULTRETRIES))\<close>: at most four
  attempts; the state is whatever the access threads through.
\<close>

primrec retry :: "nat \<Rightarrow> ('s \<Rightarrow> (int \<times> 's) option) \<Rightarrow> 's \<Rightarrow> (int \<times> 's) option" where
  "retry 0 f s = f s"
| "retry (Suc n) f s = do {
     (wkc, s) \<leftarrow> f s;
     if wkc \<le> 0 then retry n f s else Some (wkc, s)
   }"

lemma retry_returns:
  assumes "P s" "\<And>s. P s \<Longrightarrow> returns (f s) (\<lambda>(w, s'). P s' \<and> Q w)"
  shows "returns (retry n f s) (\<lambda>(w, s'). P s' \<and> Q w)"
  using assms(1)
proof (induction n arbitrary: s)
  case 0
  then show ?case using assms(2) by simp
next
  case (Suc n)
  from assms(2) [OF Suc.prems] Suc.IH show ?case by (auto simp: returns_iff)
qed

section \<open>A context on a scripted wire\<close>

definition rests :: "ecx_context \<Rightarrow> u8 \<Rightarrow> u8 list option script \<Rightarrow> ecx_context \<Rightarrow> bool" where
  "rests c0 l fs c \<longleftrightarrow> talks c0 c \<and> at_rest l fs (port c)"

lemma rests_talks: "rests c0 l fs c \<Longrightarrow> talks c0 c"
  by (simp add: rests_def)

lemma rests_inv: "rests c0 l fs c \<Longrightarrow> ctx_inv c"
  by (auto simp: rests_def dest: talks_inv)

lemma rests_port: "rests c0 l fs c \<Longrightarrow> port_ok (port c) q \<Longrightarrow> at_rest l' fs' q \<Longrightarrow> rests c0 l' fs' (c\<lparr>port := q\<rparr>)"
proof -
  assume r: "rests c0 l fs c" and q: "port_ok (port c) q" "at_rest l' fs' q"
  have "talks c (c\<lparr>port := q\<rparr>)" using rests_inv [OF r] q(1) by (simp add: talks_def ctx_ok_port)
  with r q(2) show ?thesis by (auto simp: rests_def intro: talks_trans)
qed

lemma rests_timer: "rests c0 l fs c \<Longrightarrow> rests c0 l fs (snd (ctx_timer_start t c))"
proof -
  assume r: "rests c0 l fs c"
  then have "talks c0 (snd (ctx_timer_start t c))"
    using ctx_timer_start_talks [OF rests_inv [OF r]] by (auto simp: rests_def intro: talks_trans)
  with r show ?thesis
    by (simp add: rests_def ctx_timer_start_def case_prod_unfold Let_def at_rest_timer)
qed

lemma rests_again: "rests c0 l fs c \<Longrightarrow> rests c0 l fs (snd (ctx_again b t c))"
proof -
  assume r: "rests c0 l fs c"
  then have "talks c0 (snd (ctx_again b t c))"
    using ctx_again_talks [OF rests_inv [OF r]] by (auto simp: rests_def intro: talks_trans)
  with r show ?thesis by (simp add: rests_def ctx_again_eq at_rest_again)
qed

lemma on_port_rests:
  assumes "rests c0 l fs c"
    and "returns (f (port c)) (\<lambda>(v, q). P v \<and> port_ok (port c) q \<and> at_rest l' fs' q)"
  shows "returns (on_port f c) (\<lambda>(v, d). P v \<and> rests c0 l' fs' d)"
  using assms rests_port [OF assms(1)] by (auto simp: on_port_def returns_iff)

lemma on_port_buf_rests:
  assumes "rests c0 l fs c"
    and "returns (f (port c)) (\<lambda>(v, b, q). P v b \<and> port_ok (port c) q \<and> at_rest l' fs' q)"
  shows "returns (on_port_buf f c) (\<lambda>(v, b, d). P v b \<and> rests c0 l' fs' d)"
  using assms rests_port [OF assms(1)] by (auto simp: on_port_buf_def returns_iff)

lemma retry_now: "returns (f s) (\<lambda>(w, s'). 0 < w \<and> Q (w, s')) \<Longrightarrow> returns (retry n f s) Q"
  by (cases n) (auto simp: returns_iff)

end
