(* ===== verification/ErrorRing.thy ===== *)
theory ErrorRing
  imports EcContext
begin

text \<open>
  The error list of the master, \<^verbatim>\<open>ecx_pusherror\<close>, \<^verbatim>\<open>ecx_poperror\<close>, \<^verbatim>\<open>ecx_iserror\<close> and the three
  functions that report errors, \<^verbatim>\<open>soem/ethercatmain.c\<close>. The list is a ring of 65 slots that
  holds at most 64 errors and drops the oldest; the interface \<open>drop_oldest\<close> states that
  contract, and its lemmas are what the reporting layers above rely on.
\<close>

section \<open>Operations\<close>

definition ecx_pusherror :: "ec_error \<Rightarrow> ecx_context \<Rightarrow> ecx_context option" where
  "ecx_pusherror Ec c = do {
     let r = elist c;
     chk (0 \<le> ehead r);
     errs \<leftarrow> arr_set (Error r) (nat (ehead r)) (Ec\<lparr>Signal := True\<rparr>);
     let head = ehead r + 1;
     let head = (if head > int EC_MAXELIST then 0 else head);
     let tail = (if head = etail r then etail r + 1 else etail r);
     let tail = (if tail > int EC_MAXELIST then 0 else tail);
     Some (c\<lparr>elist := \<lparr>ehead = head, etail = tail, Error = errs\<rparr>, ecaterror := True\<rparr>)
   }"

definition ecx_poperror :: "ecx_context \<Rightarrow> (bool \<times> ec_error \<times> ecx_context) option" where
  "ecx_poperror c = do {
     let r = elist c;
     let notEmpty = (ehead r \<noteq> etail r);
     chk (0 \<le> etail r);
     Ec \<leftarrow> arr_get (Error r) (nat (etail r));
     errs \<leftarrow> arr_set (Error r) (nat (etail r)) (Ec\<lparr>Signal := False\<rparr>);
     let r = r\<lparr>Error := errs\<rparr>;
     if notEmpty then do {
       let tail = etail r + 1;
       let tail = (if tail > int EC_MAXELIST then 0 else tail);
       Some (True, Ec, c\<lparr>elist := r\<lparr>etail := tail\<rparr>\<rparr>)
     } else Some (False, Ec, c\<lparr>elist := r, ecaterror := False\<rparr>)
   }"

definition ecx_iserror :: "ecx_context \<Rightarrow> bool" where
  "ecx_iserror c \<longleftrightarrow> ehead (elist c) \<noteq> etail (elist c)"

definition ctx_current_time :: "ecx_context \<Rightarrow> ec_timet \<times> ecx_context" where
  "ctx_current_time c = (let (t, k) = osal_current_time (osclock (port c))
     in (t, c\<lparr>port := (port c)\<lparr>osclock := k\<rparr>\<rparr>))"

definition ecx_packeterror :: "u16 \<Rightarrow> u16 \<Rightarrow> u8 \<Rightarrow> u16 \<Rightarrow> ecx_context \<Rightarrow> ecx_context option" where
  "ecx_packeterror slave idx subidx code c =
     (let (t, c) = ctx_current_time c
      in ecx_pusherror (no_error\<lparr>Time := t, Slave := slave, Index := idx, SubIdx := subidx,
           Etype := EC_ERR_TYPE_PACKET_ERROR, ErrorCode := code\<rparr>) (c\<lparr>ecaterror := True\<rparr>))"

definition ecx_mbxerror :: "u16 \<Rightarrow> u16 \<Rightarrow> ecx_context \<Rightarrow> ecx_context option" where
  "ecx_mbxerror slave detail c =
     (let (t, c) = ctx_current_time c
      in ecx_pusherror (no_error\<lparr>Time := t, Slave := slave, Index := 0, SubIdx := 0,
           Etype := EC_ERR_TYPE_MBX_ERROR, ErrorCode := detail\<rparr>) c)"

definition ecx_mbxemergencyerror :: "u16 \<Rightarrow> u16 \<Rightarrow> u16 \<Rightarrow> u8 \<Rightarrow> u16 \<Rightarrow> u16 \<Rightarrow> ecx_context \<Rightarrow> ecx_context option" where
  "ecx_mbxemergencyerror slave code reg e1 v1 v2 c =
     (let (t, c) = ctx_current_time c
      in ecx_pusherror (no_error\<lparr>Time := t, Slave := slave, Index := 0, SubIdx := 0,
           Etype := EC_ERR_TYPE_EMERGENCY, ErrorCode := code, ErrorReg := ucast reg, b1 := e1, w1 := v1, w2 := v2\<rparr>) c)"

section \<open>The interface: a bounded queue that drops the oldest entry\<close>

text \<open>Putting in a list of entries, and taking out until the queue reports that it is empty.\<close>

primrec push_all :: "('e \<Rightarrow> 's \<Rightarrow> 's option) \<Rightarrow> 'e list \<Rightarrow> 's \<Rightarrow> 's option" where
  "push_all push [] s = Some s"
| "push_all push (e # es) s = Option.bind (push e s) (push_all push es)"

primrec pop_all :: "('s \<Rightarrow> (bool \<times> 'e \<times> 's) option) \<Rightarrow> nat \<Rightarrow> 's \<Rightarrow> ('e list \<times> 's) option" where
  "pop_all pop 0 s = Some ([], s)"
| "pop_all pop (Suc n) s = do {
     (ok, e, s) \<leftarrow> pop s;
     if ok then do { (es, s) \<leftarrow> pop_all pop n s; Some (e # es, s) } else Some ([], s)
   }"

locale drop_oldest =
  fixes valid :: "'s \<Rightarrow> bool"
    and content :: "'s \<Rightarrow> 'e list"
    and cap :: nat
    and mark :: "'e \<Rightarrow> 'e"
    and push :: "'e \<Rightarrow> 's \<Rightarrow> 's option"
    and pop :: "'s \<Rightarrow> (bool \<times> 'e \<times> 's) option"
  assumes push_law: "valid s \<Longrightarrow> returns (push e s) (\<lambda>s'. valid s' \<and>
      content s' = drop (Suc (length (content s)) - cap) (content s @ [mark e]))"
    and pop_law: "valid s \<Longrightarrow> content s = e # es \<Longrightarrow>
      returns (pop s) (\<lambda>(ok, e', s'). ok \<and> e' = e \<and> valid s' \<and> content s' = es)"
    and pop_empty: "valid s \<Longrightarrow> content s = [] \<Longrightarrow>
      returns (pop s) (\<lambda>(ok, _, s'). \<not> ok \<and> valid s' \<and> content s' = [])"
    and bounded: "valid s \<Longrightarrow> length (content s) \<le> cap"
    and cap_pos: "0 < cap"
begin

lemma push_all_law:
  "valid s \<Longrightarrow> returns (push_all push es s) (\<lambda>s'. valid s' \<and>
     content s' = drop (length (content s) + length es - cap) (content s @ map mark es))"
proof (induction es arbitrary: s)
  case Nil
  then show ?case using bounded by simp
next
  case (Cons e es)
  obtain s' where p: "push e s = Some s'" "valid s'"
      "content s' = drop (Suc (length (content s)) - cap) (content s @ [mark e])"
    using push_law [OF Cons.prems] by (auto simp: returns_iff)
  have le: "length (content s) \<le> cap" by (rule bounded [OF Cons.prems])
  have "drop (length (content s') + length es - cap) (content s' @ map mark es)
      = drop (length (content s) + Suc (length es) - cap) (content s @ mark e # map mark es)"
  proof (cases "length (content s) = cap")
    case True
    then have "content s' = drop 1 (content s @ [mark e])" "length (content s') = cap" by (simp_all add: p(3))
    moreover have "drop 1 (content s @ [mark e]) @ map mark es = drop 1 (content s @ mark e # map mark es)"
      by (cases "content s") simp_all
    ultimately show ?thesis using True cap_pos by (cases cap) simp_all
  next
    case False
    with le have "content s' = content s @ [mark e]" by (simp add: p(3))
    then show ?thesis by simp
  qed
  with Cons.IH [OF p(2)] p(1) show ?case by (auto elim!: returns_mono)
qed

lemma pop_all_law:
  "valid s \<Longrightarrow> length (content s) < n \<Longrightarrow>
     returns (pop_all pop n s) (\<lambda>(es, s'). es = content s \<and> valid s' \<and> content s' = [])"
proof (induction n arbitrary: s)
  case 0
  then show ?case by simp
next
  case (Suc n)
  show ?case
  proof (cases "content s")
    case Nil
    with pop_empty [OF Suc.prems(1)] show ?thesis by (auto simp: returns_iff)
  next
    case (Cons e es)
    from pop_law [OF Suc.prems(1) Cons] obtain s' where
      "pop s = Some (True, e, s')" "valid s'" "content s' = es"
      by (auto simp: returns_iff)
    with Suc.IH [of s'] Suc.prems(2) Cons show ?thesis by (auto simp: returns_iff)
  qed
qed

text \<open>What is read after a burst of reports: the last \<open>cap\<close> of them, in order.\<close>

lemma burst:
  assumes "valid s" "content s = []" "cap < n"
  shows "returns (Option.bind (push_all push es s) (pop_all pop n))
    (\<lambda>(es', s'). es' = drop (length es - cap) (map mark es) \<and> valid s' \<and> content s' = [])"
proof -
  obtain s' where p: "push_all push es s = Some s'" "valid s'" "content s' = drop (length es - cap) (map mark es)"
    using push_all_law [OF assms(1), of es] assms(2) by (auto simp: returns_iff)
  have "length (content s') < n" using bounded [OF p(2)] assms(3) by simp
  from pop_all_law [OF p(2) this] p show ?thesis by (auto elim!: returns_mono)
qed

end

section \<open>The ring implements it\<close>

definition ring_len :: "ec_ering \<Rightarrow> nat" where
  "ring_len r = nat ((ehead r - etail r) mod 65)"

definition ring_content :: "ec_ering \<Rightarrow> ec_error list" where
  "ring_content r = map (\<lambda>k. Error r ! nat ((etail r + int k) mod 65)) [0 ..< ring_len r]"

definition errors :: "ecx_context \<Rightarrow> ec_error list" where
  "errors c = ring_content (elist c)"

lemma diff_mod65:
  assumes "0 \<le> x" "x \<le> 64" "0 \<le> y" "y \<le> (64 :: int)"
  shows "(x - y) mod 65 = (if y \<le> x then x - y else x - y + 65)"
proof (cases "y \<le> x")
  case False
  have "(x - y) mod 65 = (x - y + 65) mod 65" by simp
  also have "\<dots> = x - y + 65" using assms False by (intro mod_pos_pos_trivial) auto
  finally show ?thesis using False by simp
qed (use assms in \<open>simp add: mod_pos_pos_trivial\<close>)

lemma succ_mod65: "0 \<le> x \<Longrightarrow> x \<le> (64 :: int) \<Longrightarrow> (x + 1) mod 65 = (if x = 64 then 0 else x + 1)"
  by auto

lemma ring_slot_ne:
  assumes "ring_inv r" "k < ring_len r"
  shows "nat ((etail r + int k) mod 65) \<noteq> nat (ehead r)"
proof
  assume "nat ((etail r + int k) mod 65) = nat (ehead r)"
  then have "(etail r + int k) mod 65 = ehead r" using assms(1) by (simp add: ring_inv_def nat_eq_iff)
  then have "(ehead r - etail r) mod 65 = (etail r + int k - etail r) mod 65" by (metis mod_diff_left_eq)
  then have "(ehead r - etail r) mod 65 = int k mod 65" by simp
  moreover have "int k < (ehead r - etail r) mod 65" using assms(2) by (simp add: ring_len_def zless_nat_eq_int_zless)
  moreover have "int k mod 65 = int k" using calculation(2) pos_mod_bound [of 65 "ehead r - etail r"] by simp
  ultimately show False by simp
qed

lemma ring_content_length [simp]: "length (ring_content r) = ring_len r"
  by (simp add: ring_content_def)

lemma ring_len_bound: "ring_len r \<le> EC_MAXELIST"
  using pos_mod_bound [of 65 "ehead r - etail r"] pos_mod_sign [of 65 "ehead r - etail r"]
  by (simp add: ring_len_def)

lemma ring_content_put:
  assumes "ring_inv r"
  shows "map (\<lambda>k. (Error r)[nat (ehead r) := e] ! nat ((etail r + int k) mod 65)) [0 ..< ring_len r] = ring_content r"
  unfolding ring_content_def
  using ring_slot_ne [OF assms] by (intro map_cong refl) (metis atLeastLessThan_iff nth_list_update_neq set_upt)

lemma ring_head:
  assumes "ring_inv r"
  shows "nat ((etail r + int (ring_len r)) mod 65) = nat (ehead r)"
proof -
  have "int (ring_len r) = (ehead r - etail r) mod 65" by (simp add: ring_len_def)
  then have "(etail r + int (ring_len r)) mod 65 = ehead r mod 65" by (simp add: mod_simps)
  with assms show ?thesis by (simp add: ring_inv_def)
qed

lemma ring_step: "0 \<le> x \<Longrightarrow> x \<le> 64 \<Longrightarrow> (if x + 1 > int EC_MAXELIST then 0 else x + 1) = (x + 1) mod 65"
  by (cases "x = 64") auto

text \<open>The two moves of the ring: room is left, or the oldest entry goes.\<close>

lemma ring_content_put_room:
  assumes "ring_inv r" "ring_len r < EC_MAXELIST"
  shows "ring_content \<lparr>ehead = (ehead r + 1) mod 65, etail = etail r, Error = (Error r)[nat (ehead r) := e]\<rparr>
    = ring_content r @ [e]"
proof -
  let ?r = "\<lparr>ehead = (ehead r + 1) mod 65, etail = etail r, Error = (Error r)[nat (ehead r) := e]\<rparr>"
  have "int (ring_len ?r) = int (Suc (ring_len r))"
  proof -
    have "((ehead r + 1) mod 65 - etail r) mod 65 = ((ehead r - etail r) mod 65 + 1) mod 65"
      by (simp add: mod_simps algebra_simps)
    also have "\<dots> = (ehead r - etail r) mod 65 + 1"
      using assms(2) pos_mod_sign [of 65 "ehead r - etail r"] by (simp add: ring_len_def nat_less_iff)
    finally show ?thesis by (simp add: ring_len_def)
  qed
  then have n: "ring_len ?r = Suc (ring_len r)" by (simp only: of_nat_eq_iff)
  have "ring_content ?r = map (\<lambda>k. (Error r)[nat (ehead r) := e] ! nat ((etail r + int k) mod 65)) [0 ..< Suc (ring_len r)]"
    unfolding ring_content_def n by simp
  also have "\<dots> = ring_content r @ [(Error r)[nat (ehead r) := e] ! nat (ehead r)]"
    using ring_content_put [OF assms(1), of e] ring_head [OF assms(1)] by simp
  finally show ?thesis using assms(1) by (simp add: ring_inv_def nat_less_iff)
qed

lemma ring_content_drop:
  assumes "ring_inv r" "0 < ring_len r"
  shows "ring_content (r\<lparr>etail := (etail r + 1) mod 65\<rparr>) = List.tl (ring_content r)"
    "hd (ring_content r) = Error r ! nat (etail r)"
proof -
  let ?r = "r\<lparr>etail := (etail r + 1) mod 65\<rparr>"
  have n: "ring_len r = Suc (ring_len ?r)"
  proof -
    have "(ehead r - (etail r + 1) mod 65) mod 65 = ((ehead r - etail r) mod 65 - 1) mod 65"
      by (simp add: mod_simps algebra_simps)
    also have "\<dots> = (ehead r - etail r) mod 65 - 1"
      using assms(2) pos_mod_bound [of 65 "ehead r - etail r"] by (simp add: ring_len_def)
    finally show ?thesis using assms(2) by (simp add: ring_len_def)
  qed
  have "ring_content r = map (\<lambda>k. Error r ! nat ((etail r + int k) mod 65)) (0 # map Suc [0 ..< ring_len ?r])"
    unfolding ring_content_def n by (simp only: upt_conv_Cons map_Suc_upt zero_less_Suc)
  then have "ring_content r = Error r ! nat (etail r) # ring_content ?r"
    using assms(1) by (simp add: ring_content_def ring_inv_def mod_simps comp_def algebra_simps)
  then show "ring_content ?r = List.tl (ring_content r)" "hd (ring_content r) = Error r ! nat (etail r)"
    by simp_all
qed

lemma pusherror_eq:
  assumes "ring_inv (elist c)"
  shows "ecx_pusherror e c = Some (c\<lparr>elist := \<lparr>ehead = (ehead (elist c) + 1) mod 65,
      etail = (if (ehead (elist c) + 1) mod 65 = etail (elist c) then (etail (elist c) + 1) mod 65 else etail (elist c)),
      Error = (Error (elist c))[nat (ehead (elist c)) := e\<lparr>Signal := True\<rparr>]\<rparr>, ecaterror := True\<rparr>)"
proof -
  have b: "0 \<le> ehead (elist c)" "ehead (elist c) \<le> 64" "0 \<le> etail (elist c)" "etail (elist c) \<le> 64" "length (Error (elist c)) = 65"
    using assms by (simp_all add: ring_inv_def)
  show ?thesis
    using b by (cases "ehead (elist c) = 64"; cases "etail (elist c) = 64")
      (auto simp: ecx_pusherror_def Let_def arr_set_def nat_less_iff)
qed

lemma pusherror_returns:
  assumes "ring_inv (elist c)"
  shows "returns (ecx_pusherror e c) (\<lambda>d. ring_inv (elist d) \<and> ecaterror d \<and> ecx_iserror d \<and>
    errors d = drop (Suc (length (errors c)) - EC_MAXELIST) (errors c @ [e\<lparr>Signal := True\<rparr>]) \<and>
    (\<exists>r. d = c\<lparr>elist := r, ecaterror := True\<rparr>))"
proof -
  let ?r = "elist c" and ?e = "e\<lparr>Signal := True\<rparr>"
  let ?h = "(ehead ?r + 1) mod 65"
  let ?r' = "\<lparr>ehead = ?h, etail = etail ?r, Error = (Error ?r)[nat (ehead ?r) := ?e]\<rparr>"
  have b: "0 \<le> ehead ?r" "ehead ?r \<le> 64" "0 \<le> etail ?r" "etail ?r \<le> 64" "length (Error ?r) = 65"
    using assms by (simp_all add: ring_inv_def)
  have hb: "0 \<le> ?h" "?h \<le> 64" using pos_mod_bound [of 65 "ehead ?r + 1"] by simp_all
  show ?thesis
  proof (cases "?h = etail ?r")
    case False
    have "ecx_pusherror e c = Some (c\<lparr>elist := ?r', ecaterror := True\<rparr>)"
      using False by (simp add: pusherror_eq [OF assms])
    moreover have "ring_len ?r < EC_MAXELIST"
    proof (rule ccontr)
      assume "\<not> ring_len ?r < EC_MAXELIST"
      with ring_len_bound [of ?r] have "ring_len ?r = 64" by simp
      then have "(ehead ?r - etail ?r) mod 65 = 64" by (simp add: ring_len_def)
      with b have "?h = etail ?r" by (auto simp: diff_mod65 succ_mod65 split: if_splits)
      with False show False by simp
    qed
    moreover note ring_content_put_room [OF assms this, of ?e]
    ultimately show ?thesis
      using b hb False by (simp add: errors_def ring_inv_def ecx_iserror_def) blast
  next
    case True
    have full: "ring_len ?r = EC_MAXELIST"
    proof -
      have "(ehead ?r - etail ?r) mod 65 = (ehead ?r - ?h) mod 65" using True by simp
      also have "\<dots> = (- 1) mod 65" by (simp add: mod_simps)
      finally show ?thesis by (simp add: ring_len_def)
    qed
    define s where "s = ?r\<lparr>etail := (etail ?r + 1) mod 65\<rparr>"
    have s: "ring_inv s" "ring_len s < EC_MAXELIST" "ring_content s = List.tl (ring_content ?r)"
    proof -
      show "ring_inv s" using assms pos_mod_bound [of 65 "etail ?r + 1"] by (simp add: ring_inv_def s_def)
      show c: "ring_content s = List.tl (ring_content ?r)"
        unfolding s_def by (rule ring_content_drop(1) [OF assms]) (simp add: full)
      have "length (ring_content s) = length (List.tl (ring_content ?r))" by (simp only: c)
      then show "ring_len s < EC_MAXELIST" using full by simp
    qed
    define r where "r = \<lparr>ehead = ?h, etail = etail s, Error = (Error s)[nat (ehead s) := ?e]\<rparr>"
    have eq: "ecx_pusherror e c = Some (c\<lparr>elist := r, ecaterror := True\<rparr>)"
      using True by (simp add: pusherror_eq [OF assms] s_def r_def)
    have ne: "?h \<noteq> etail s" using True b by (cases "etail ?r = 64") (simp_all add: s_def)
    have inv: "ring_inv r" using s(1) hb by (simp add: ring_inv_def r_def)
    have "ring_content r = List.tl (ring_content ?r) @ [?e]"
      using ring_content_put_room [OF s(1,2), of ?e] s(3) by (simp add: r_def s_def)
    moreover have "drop 1 (ring_content ?r @ [?e]) = List.tl (ring_content ?r) @ [?e]"
      using full by (cases "ring_content ?r") (auto simp flip: ring_content_length)
    ultimately have con: "ring_content r = drop (Suc (length (ring_content ?r)) - EC_MAXELIST) (ring_content ?r @ [?e])"
      using full by simp
    have "ehead r \<noteq> etail r" using ne by (simp add: r_def)
    then show ?thesis
      unfolding eq using inv con by (simp add: errors_def ecx_iserror_def, intro exI) (rule refl)
  qed
qed

lemma poperror_returns:
  assumes "ring_inv (elist c)"
  shows "returns (ecx_poperror c) (\<lambda>(ok, e, d). ring_inv (elist d) \<and> ok = (errors c \<noteq> []) \<and>
    (ok \<longrightarrow> e = hd (errors c) \<and> ecaterror d = ecaterror c) \<and> (\<not> ok \<longrightarrow> \<not> ecaterror d) \<and>
    errors d = List.tl (errors c))"
proof -
  let ?r = "elist c"
  have b: "0 \<le> ehead ?r" "ehead ?r \<le> 64" "0 \<le> etail ?r" "etail ?r \<le> 64" "length (Error ?r) = 65"
    using assms by (simp_all add: ring_inv_def)
  let ?errs = "(Error ?r)[nat (etail ?r) := (Error ?r ! nat (etail ?r))\<lparr>Signal := False\<rparr>]"
  have empty: "ring_len ?r = 0 \<longleftrightarrow> ehead ?r = etail ?r"
    using b by (simp add: ring_len_def diff_mod65)
  have ne: "errors c \<noteq> [] \<longleftrightarrow> ehead ?r \<noteq> etail ?r"
    using empty by (auto simp: errors_def simp flip: length_greater_0_conv)
  show ?thesis
  proof (cases "ehead ?r = etail ?r")
    case True
    then show ?thesis
      using b ne empty by (simp add: ecx_poperror_def Let_def nat_less_iff ring_inv_def errors_def)
        (simp add: ring_content_def ring_len_def)
  next
    case False
    then have len: "0 < ring_len ?r" using empty by simp
    let ?t = "(etail ?r + 1) mod 65"
    have t: "(if etail ?r + 1 > int EC_MAXELIST then 0 else etail ?r + 1) = ?t"
      by (rule ring_step [OF b(3,4)])
    have "ecx_poperror c = Some (True, Error ?r ! nat (etail ?r), c\<lparr>elist := ?r\<lparr>Error := ?errs, etail := ?t\<rparr>\<rparr>)"
      using b False by (cases "etail ?r = 64") (auto simp: ecx_poperror_def Let_def arr_get_def arr_set_def nat_less_iff)
    moreover have "ring_content (?r\<lparr>Error := ?errs, etail := ?t\<rparr>) = ring_content (?r\<lparr>etail := ?t\<rparr>)"
    proof -
      have "nat ((?t + int k) mod 65) \<noteq> nat (etail ?r)" if "k < ring_len (?r\<lparr>etail := ?t\<rparr>)" for k
      proof
        assume "nat ((?t + int k) mod 65) = nat (etail ?r)"
        then have "(?t + int k) mod 65 = etail ?r" using b by (simp add: nat_eq_iff)
        moreover have "int k < (ehead ?r - ?t) mod 65" using that by (simp add: ring_len_def zless_nat_eq_int_zless)
        moreover have "0 \<le> ?t" "?t \<le> 64" using pos_mod_bound [of 65 "etail ?r + 1"] by simp_all
        ultimately have k: "int k < 65" "(?t + int k) mod 65 = etail ?r"
          using pos_mod_bound [of 65 "ehead ?r - ?t"] by linarith+
        have "(etail ?r - ?t) mod 65 = (?t + int k - ?t) mod 65" using k(2) by (metis mod_diff_left_eq)
        then have "(etail ?r - ?t) mod 65 = int k" using k(1) by simp
        moreover have "(etail ?r - ?t) mod 65 = 64"
          using b by (auto simp: succ_mod65)
        ultimately have "64 < (ehead ?r - ?t) mod 65"
          using \<open>int k < (ehead ?r - ?t) mod 65\<close> by simp
        then show False using pos_mod_bound [of 65 "ehead ?r - ?t"] by simp
      qed
      then show ?thesis
        unfolding ring_content_def
        by (intro map_cong) (simp_all add: ring_len_def nth_list_update_neq [OF not_sym])
    qed
    ultimately show ?thesis
      using b len ring_content_drop [OF assms len] ne False
      by (simp add: errors_def ring_inv_def)
  qed
qed

interpretation ering: drop_oldest "\<lambda>c. ring_inv (elist c)" errors EC_MAXELIST "\<lambda>e. e\<lparr>Signal := True\<rparr>"
    ecx_pusherror ecx_poperror
proof unfold_locales
  fix c :: ecx_context and e assume c: "ring_inv (elist c)"
  from pusherror_returns [OF c, of e]
  show "returns (ecx_pusherror e c) (\<lambda>d. ring_inv (elist d) \<and>
      errors d = drop (Suc (length (errors c)) - EC_MAXELIST) (errors c @ [e\<lparr>Signal := True\<rparr>]))"
    by (rule returns_mono) auto
next
  fix c :: ecx_context and e es assume "ring_inv (elist c)" "errors c = e # es"
  with poperror_returns [of c]
  show "returns (ecx_poperror c) (\<lambda>(ok, e', d). ok \<and> e' = e \<and> ring_inv (elist d) \<and> errors d = es)"
    by (auto elim!: returns_mono)
next
  fix c :: ecx_context assume "ring_inv (elist c)" "errors c = []"
  with poperror_returns [of c]
  show "returns (ecx_poperror c) (\<lambda>(ok, _, d). \<not> ok \<and> ring_inv (elist d) \<and> errors d = [])"
    by (auto elim!: returns_mono)
next
  fix c :: ecx_context
  show "length (errors c) \<le> EC_MAXELIST" by (simp only: errors_def ring_content_length ring_len_bound)
qed simp

lemma iserror_errors: "ring_inv (elist c) \<Longrightarrow> ecx_iserror c \<longleftrightarrow> errors c \<noteq> []"
  by (auto simp: ecx_iserror_def errors_def ring_inv_def ring_len_def diff_mod65 simp flip: length_greater_0_conv)

section \<open>Reporting\<close>

text \<open>What an operation that talks to the slaves and may report errors guarantees.\<close>

definition reports :: "ecx_context \<Rightarrow> ecx_context \<Rightarrow> bool" where
  "reports c d \<longleftrightarrow> (\<exists>p r b. d = c\<lparr>port := p, elist := r, ecaterror := b\<rparr>)"

definition chats :: "ecx_context \<Rightarrow> ecx_context \<Rightarrow> bool" where
  "chats c d \<longleftrightarrow> ctx_ok c d \<and> reports c d"

lemma reportsI: "d = c\<lparr>port := p, elist := r, ecaterror := b\<rparr> \<Longrightarrow> reports c d"
  by (auto simp: reports_def)

lemma reports_refl [simp]: "reports c c"
  by (rule reportsI [where p = "port c" and r = "elist c" and b = "ecaterror c"]) simp

lemma reports_trans: "reports a b \<Longrightarrow> reports b c \<Longrightarrow> reports a c"
  by (auto simp: reports_def[of a b] reports_def[of b c] intro: reportsI)

lemma chats_refl: "ctx_inv c \<Longrightarrow> chats c c"
  by (simp add: chats_def ctx_ok_refl)

lemma chats_trans [trans]: "chats a b \<Longrightarrow> chats b c \<Longrightarrow> chats a c"
  by (auto simp: chats_def intro: ctx_ok_trans reports_trans)

lemma chats_inv: "chats a b \<Longrightarrow> ctx_inv b"
  by (auto simp: chats_def dest: ctx_ok_inv)

lemma chats_left: "chats a b \<Longrightarrow> ctx_left b \<le> ctx_left a"
  by (auto simp: chats_def dest: ctx_ok_left)

lemma chats_ok: "chats a b \<Longrightarrow> ctx_ok a b"
  by (simp add: chats_def)

lemma talks_chats: "talks c d \<Longrightarrow> chats c d"
proof -
  assume t: "talks c d"
  then obtain p where "d = c\<lparr>port := p\<rparr>" by (auto simp: talks_def ctx_same_def)
  then have "reports c d" by (intro reportsI [where p = p and r = "elist c" and b = "ecaterror c"]) simp
  with t show ?thesis by (simp add: talks_def chats_def)
qed

lemma chats_slavelist: "chats c d \<Longrightarrow> slavelist d = slavelist c \<and> slavecount d = slavecount c \<and> EOEhook d = EOEhook c"
  by (auto simp: chats_def reports_def)

lemma current_time_talks: "ctx_inv c \<Longrightarrow> talks c (snd (ctx_current_time c))"
proof -
  assume c: "ctx_inv c"
  let ?k = "snd (osal_current_time (osclock (port c)))"
  have k: "mclock ?k = mclock (osclock (port c))" "mtick ?k = mtick (osclock (port c))"
    by (simp_all add: osal_current_time_def Let_def)
  then have "clock_left ?k = clock_left (osclock (port c))"
    by (simp add: clock_left_def clock_bound_cong [OF k(1)])
  with k(1) have "mclock ?k = mclock (osclock (port c))" "clock_left ?k \<le> clock_left (osclock (port c))"
    by simp_all
  then have "port_ok (port c) ((port c)\<lparr>osclock := ?k\<rparr>)"
    by (rule clock_ok [OF ctx_inv_port [OF c]])
  with c show ?thesis
    by (simp add: talks_def ctx_ok_port ctx_current_time_def case_prod_unfold Let_def)
qed

lemma pusherror_chats:
  assumes "ctx_inv c"
  shows "returns (ecx_pusherror e c) (\<lambda>d. chats c d \<and>
    errors d = drop (Suc (length (errors c)) - EC_MAXELIST) (errors c @ [e\<lparr>Signal := True\<rparr>]))"
proof -
  have "ring_inv (elist c)" using assms by (simp add: ctx_inv_def)
  from pusherror_returns [OF this, of e] show ?thesis
  proof (rule returns_mono)
    fix d
    assume d: "ring_inv (elist d) \<and> ecaterror d \<and> ecx_iserror d \<and>
      errors d = drop (Suc (length (errors c)) - EC_MAXELIST) (errors c @ [e\<lparr>Signal := True\<rparr>]) \<and>
      (\<exists>r. d = c\<lparr>elist := r, ecaterror := True\<rparr>)"
    then obtain r where r: "d = c\<lparr>elist := r, ecaterror := True\<rparr>" by blast
    with d assms have "ctx_ok c d" by (auto simp: ctx_ok_def ctx_inv_def port_ok_refl)
    with d r show "chats c d \<and> errors d = drop (Suc (length (errors c)) - EC_MAXELIST) (errors c @ [e\<lparr>Signal := True\<rparr>])"
      by (auto simp: chats_def intro!: reportsI [where p = "port c" and r = r and b = True])
  qed
qed

lemma report_chats:
  assumes "ctx_inv c"
  shows "returns (case ctx_current_time c of (t, c) \<Rightarrow> ecx_pusherror (f t) c) (chats c)"
proof -
  have t: "talks c (snd (ctx_current_time c))" by (rule current_time_talks [OF assms])
  show ?thesis
    unfolding case_prod_unfold
    by (rule returns_mono [OF pusherror_chats [OF talks_inv [OF t]]])
      (blast intro: chats_trans talks_chats [OF t])
qed

lemma mbxerror_chats: "ctx_inv c \<Longrightarrow> returns (ecx_mbxerror slave detail c) (chats c)"
  unfolding ecx_mbxerror_def Let_def by (rule report_chats)

lemma mbxemergencyerror_chats: "ctx_inv c \<Longrightarrow> returns (ecx_mbxemergencyerror slave code reg e1 v1 v2 c) (chats c)"
  unfolding ecx_mbxemergencyerror_def Let_def by (rule report_chats)

lemma packeterror_chats: "ctx_inv c \<Longrightarrow> returns (ecx_packeterror slave i si code c) (chats c)"
proof -
  assume c: "ctx_inv c"
  have t: "talks c (snd (ctx_current_time c))" by (rule current_time_talks [OF c])
  let ?d = "(snd (ctx_current_time c))\<lparr>ecaterror := True\<rparr>"
  have d: "ctx_inv ?d" using talks_inv [OF t] by (simp add: ctx_inv_def)
  have "chats (snd (ctx_current_time c)) ?d"
    using talks_inv [OF t]
    by (auto simp: chats_def ctx_ok_def ctx_inv_def port_ok_refl
        intro!: reportsI [where p = "port (snd (ctx_current_time c))" and r = "elist (snd (ctx_current_time c))" and b = True])
  with talks_chats [OF t] have "chats c ?d" by (rule chats_trans)
  then show ?thesis
    unfolding ecx_packeterror_def case_prod_unfold Let_def
    by (blast intro: returns_mono [OF pusherror_chats [OF d]] chats_trans)
qed

section \<open>Properties of the error list\<close>

text \<open>
  C3: after any burst of reports on an empty list, popping until the list reports that it is
  empty delivers the last 64 of them, oldest first, each marked as signalled; older ones are
  dropped and nothing else is.
\<close>

theorem error_list_keeps_last:
  assumes "ring_inv (elist c)" "errors c = []"
  shows "\<exists>d. Option.bind (push_all ecx_pusherror es c) (pop_all ecx_poperror (EC_MAXELIST + 1)) =
      Some (drop (length es - EC_MAXELIST) (map (\<lambda>e. e\<lparr>Signal := True\<rparr>) es), d) \<and>
    \<not> ecx_iserror d"
  using ering.burst [OF assms, of "EC_MAXELIST + 1" es] by (auto simp: returns_iff iserror_errors)

definition demo_context :: "ecx_port \<Rightarrow> ec_slave list \<Rightarrow> ecx_context" where
  "demo_context p sl = \<lparr>port = p, slavelist = sl, slavecount = int (length sl) - 1, maxslave = 200,
     grouplist = [], maxgroup = 2, esibuf = (\<lambda>_. 0), esimap = (\<lambda>_. 0), esislave = 0,
     elist = \<lparr>ehead = 0, etail = 0, Error = replicate 65 no_error\<rparr>,
     idxstack = \<lparr>pushed = 0, pulled = 0, is_idx = replicate 16 0, is_data = replicate 16 None,
       is_length = replicate 16 0, is_dcoffset = replicate 16 0\<rparr>,
     ecaterror = False, DCtime = 0,
     SMcommtype = \<lparr>smc_n = 0, smc_nu1 = 0, smc_SMtype = []\<rparr>,
     PDOassign = \<lparr>pa_n = 0, pa_nu1 = 0, pa_index = []\<rparr>, PDOdesc = \<lparr>pd_n = 0, pd_nu1 = 0, pd_PDO = []\<rparr>,
     FOEhook = None, EOEhook = None, manualstatechange = 0, iomap = []\<rparr>"

lemma ctx_inv_demo: "port_inv p \<Longrightarrow> ctx_inv (demo_context p sl)"
  by (simp add: ctx_inv_def demo_context_def ring_inv_def idxstack_inv_def)

lemma demo_context_errors [simp]: "ring_inv (elist (demo_context p sl))" "errors (demo_context p sl) = []"
  by (simp_all add: demo_context_def ring_inv_def errors_def ring_content_def ring_len_def)

theorem error_list_keeps_last_witness:
  "\<exists>d. Option.bind (push_all ecx_pusherror [no_error, no_error\<lparr>Slave := 1\<rparr>] (demo_context (demo_port []) []))
      (pop_all ecx_poperror 65) =
    Some ([no_error\<lparr>Signal := True\<rparr>, no_error\<lparr>Slave := 1, Signal := True\<rparr>], d)"
  using error_list_keeps_last [of "demo_context (demo_port []) []" "[no_error, no_error\<lparr>Slave := 1\<rparr>]"]
  by auto

text \<open>
  The flag \<^verbatim>\<open>ecaterror\<close> is not the same as \<open>errors are pending\<close>: popping the last error
  leaves it set on an empty list, and only a further, unsuccessful pop clears it.
\<close>

theorem ecaterror_outlives_list:
  assumes "ring_inv (elist c)" "errors c = [e]" "ecaterror c"
  shows "\<exists>d e' d'. ecx_poperror c = Some (True, e, d) \<and> \<not> ecx_iserror d \<and> ecaterror d \<and>
    ecx_poperror d = Some (False, e', d') \<and> \<not> ecaterror d'"
proof -
  obtain d where d: "ecx_poperror c = Some (True, e, d)" "ring_inv (elist d)" "errors d = []" "ecaterror d"
    using poperror_returns [OF assms(1)] assms(2,3) by (auto simp: returns_iff)
  with poperror_returns [OF d(2)] show ?thesis by (auto simp: returns_iff iserror_errors)
qed

theorem ecaterror_outlives_list_witness:
  "\<exists>c d. ecx_pusherror no_error (demo_context (demo_port []) []) = Some c \<and>
     ecx_poperror c = Some (True, no_error\<lparr>Signal := True\<rparr>, d) \<and> ecaterror d \<and> \<not> ecx_iserror d"
proof -
  obtain c where c: "ecx_pusherror no_error (demo_context (demo_port []) []) = Some c" "ring_inv (elist c)"
      "ecaterror c" "errors c = [no_error\<lparr>Signal := True\<rparr>]"
    using pusherror_returns [of "demo_context (demo_port []) []" no_error] by (auto simp: returns_iff)
  with ecaterror_outlives_list [OF c(2,4,3)] show ?thesis by blast
qed

end
