(* ===== verification/Eeprom.thy ===== *)
theory Eeprom
  imports ErrorRing
begin

text \<open>
  EEPROM access through the registers of a slave, \<^verbatim>\<open>soem/ethercatmain.c\<close>: handing the
  EEPROM over between master and slave application, waiting until its interface is idle,
  reading and writing words, and the dump of the whole memory. The code has every function
  twice, once for auto-increment and once for configured addresses; here each is one
  definition over the two register primitives, and the properties are proved once, in the
  interface \<open>slave_access\<close>, which both pairs of primitives implement.
\<close>

abbreviation EC_ESTAT_R64 :: u16 where "EC_ESTAT_R64 \<equiv> 0x0040"
abbreviation EC_ESTAT_BUSY :: u16 where "EC_ESTAT_BUSY \<equiv> 0x8000"
abbreviation EC_ESTAT_EMASK :: u16 where "EC_ESTAT_EMASK \<equiv> 0x7800"
abbreviation EC_ESTAT_NACK :: u16 where "EC_ESTAT_NACK \<equiv> 0x2000"
abbreviation EC_ECMD_NOP :: u16 where "EC_ECMD_NOP \<equiv> 0x0000"
abbreviation EC_ECMD_READ :: u16 where "EC_ECMD_READ \<equiv> 0x0100"
abbreviation EC_ECMD_WRITE :: u16 where "EC_ECMD_WRITE \<equiv> 0x0201"
abbreviation ECT_SII_START :: u16 where "ECT_SII_START \<equiv> 0x0040"

text \<open>A register primitive with the slave already chosen: offset, length, data, timeout.\<close>

type_synonym reg_read = "u16 \<Rightarrow> u16 \<Rightarrow> u8 list \<Rightarrow> int \<Rightarrow> ecx_port \<Rightarrow> (int \<times> u8 list \<times> ecx_port) option"
type_synonym reg_write = "u16 \<Rightarrow> u16 \<Rightarrow> u8 list \<Rightarrow> int \<Rightarrow> ecx_port \<Rightarrow> (int \<times> ecx_port) option"

section \<open>Control of the EEPROM\<close>

definition ecx_eeprom2master :: "u16 \<Rightarrow> ecx_context \<Rightarrow> (int \<times> ecx_context) option" where
  "ecx_eeprom2master slave c = do {
     s \<leftarrow> get_slave slave c;
     if s_eep_pdi s \<noteq> 0 then do {
       (_, c) \<leftarrow> retry EC_DEFAULTRETRIES (on_port (ecx_FPWR (s_configadr s) ECT_REG_EEPCFG 1 [2] EC_TIMEOUTRET)) c;
       (wkc, c) \<leftarrow> retry EC_DEFAULTRETRIES (on_port (ecx_FPWR (s_configadr s) ECT_REG_EEPCFG 1 [0] EC_TIMEOUTRET)) c;
       c \<leftarrow> upd_slave slave (\<lambda>s. s\<lparr>s_eep_pdi := 0\<rparr>) c;
       Some (wkc, c)
     } else Some (1, c)
   }"

definition ecx_eeprom2pdi :: "u16 \<Rightarrow> ecx_context \<Rightarrow> (int \<times> ecx_context) option" where
  "ecx_eeprom2pdi slave c = do {
     s \<leftarrow> get_slave slave c;
     if s_eep_pdi s = 0 then do {
       (wkc, c) \<leftarrow> retry EC_DEFAULTRETRIES (on_port (ecx_FPWR (s_configadr s) ECT_REG_EEPCFG 1 [1] EC_TIMEOUTRET)) c;
       c \<leftarrow> upd_slave slave (\<lambda>s. s\<lparr>s_eep_pdi := 1\<rparr>) c;
       Some (wkc, c)
     } else Some (1, c)
   }"

section \<open>Waiting, reading, writing\<close>

definition waitnotbusy_body :: "reg_read \<Rightarrow> ec_timet \<Rightarrow> u16 \<times> ecx_context \<Rightarrow> ((u16 \<times> ecx_context) \<times> bool) option" where
  "waitnotbusy_body rd timer = (\<lambda>(_, c). do {
     (wkc, w, c) \<leftarrow> on_port_buf (rd ECT_REG_EEPSTAT 2 (enc16 0) EC_TIMEOUTRET) c;
     let estat = dec16 w;
     let (again, c) = ctx_again (wkc \<le> 0 \<or> estat AND EC_ESTAT_BUSY > 0) timer c;
     Some ((estat, c), again)
   })"

text \<open>The result is the return value, the last status read and the context.\<close>

definition eeprom_waitnotbusy :: "reg_read \<Rightarrow> int \<Rightarrow> ecx_context \<Rightarrow> (u16 \<times> u16 \<times> ecx_context) option" where
  "eeprom_waitnotbusy rd timeout c = do {
     let (timer, c) = ctx_timer_start timeout c;
     (estat, c) \<leftarrow> do_while (waitnotbusy_body rd timer) (0, c);
     Some (if estat AND EC_ESTAT_BUSY = 0 then 1 else 0, estat, c)
   }"

text \<open>The command record \<^verbatim>\<open>ec_eepromt\<close>.\<close>

definition eeprom_cmd :: "u16 \<Rightarrow> u16 \<Rightarrow> u8 list" where
  "eeprom_cmd comm addr = enc16 comm @ enc16 addr @ enc16 0"

lemma length_eeprom_cmd [simp]: "length (eeprom_cmd comm addr) = 6"
  by (simp add: eeprom_cmd_def)

text \<open>Clearing the error bits; the status is left as it was read.\<close>

definition clear_errors :: "reg_write \<Rightarrow> u16 \<Rightarrow> ecx_context \<Rightarrow> ecx_context option" where
  "clear_errors wr estat c =
     (if estat AND EC_ESTAT_EMASK \<noteq> 0 then do {
        (_, c) \<leftarrow> on_port (wr ECT_REG_EEPCTL 2 (enc16 EC_ECMD_NOP) EC_TIMEOUTRET3) c;
        Some c
      } else Some c)"

text \<open>A retried register read into a buffer.\<close>

definition read_retried :: "reg_read \<Rightarrow> u16 \<Rightarrow> u8 list \<Rightarrow> ecx_context \<Rightarrow> (u8 list \<times> ecx_context) option" where
  "read_retried rd ado buf c = do {
     (_, buf, c) \<leftarrow> retry EC_DEFAULTRETRIES
       (\<lambda>(buf, c). on_port_buf (rd ado (of_nat (length buf)) buf EC_TIMEOUTRET) c) (buf, c);
     Some (buf, c)
   }"

text \<open>
  One round of the loop that repeats a read while the slave does not acknowledge; the state
  is \<^verbatim>\<open>edat64\<close>, \<^verbatim>\<open>edat32\<close>, \<^verbatim>\<open>nackcnt\<close> and the context.
\<close>

definition readeeprom_body ::
    "reg_read \<Rightarrow> reg_write \<Rightarrow> u16 \<Rightarrow> int \<Rightarrow> u64 \<times> u32 \<times> int \<times> ecx_context
       \<Rightarrow> ((u64 \<times> u32 \<times> int \<times> ecx_context) \<times> bool) option" where
  "readeeprom_body rd wr eeproma timeout = (\<lambda>(edat64, edat32, nackcnt, c). do {
     (wkc, c) \<leftarrow> retry EC_DEFAULTRETRIES
       (on_port (wr ECT_REG_EEPCTL 6 (eeprom_cmd EC_ECMD_READ eeproma) EC_TIMEOUTRET)) c;
     (edat64, edat32, nackcnt, c) \<leftarrow>
       (if wkc \<noteq> 0 then do {
          (ready, estat, c) \<leftarrow> eeprom_waitnotbusy rd timeout c;
          if ready = 0 then Some (edat64, edat32, nackcnt, c)
          else if estat AND EC_ESTAT_NACK \<noteq> 0 then Some (edat64, edat32, nackcnt + 1, c)
          else if estat AND EC_ESTAT_R64 \<noteq> 0 then do {
            (b, c) \<leftarrow> read_retried rd ECT_REG_EEPDAT (enc64 edat64) c;
            Some (dec64 b, edat32, 0, c)
          } else do {
            (b, c) \<leftarrow> read_retried rd ECT_REG_EEPDAT (enc32 edat32) c;
            Some (ucast (dec32 b), dec32 b, 0, c)
          }
        } else Some (edat64, edat32, nackcnt, c));
     Some ((edat64, edat32, nackcnt, c), 0 < nackcnt \<and> nackcnt < 3)
   })"

definition readeeprom :: "reg_read \<Rightarrow> reg_write \<Rightarrow> u16 \<Rightarrow> int \<Rightarrow> ecx_context \<Rightarrow> (u64 \<times> ecx_context) option" where
  "readeeprom rd wr eeproma timeout c = do {
     (ready, estat, c) \<leftarrow> eeprom_waitnotbusy rd timeout c;
     if ready \<noteq> 0 then do {
       c \<leftarrow> clear_errors wr estat c;
       (edat64, _, _, c) \<leftarrow> do_while (readeeprom_body rd wr eeproma timeout) (0, 0, 0, c);
       Some (edat64, c)
     } else Some (0, c)
   }"

definition writeeeprom_body ::
    "reg_read \<Rightarrow> reg_write \<Rightarrow> u16 \<Rightarrow> u16 \<Rightarrow> int \<Rightarrow> int \<times> int \<times> ecx_context \<Rightarrow> ((int \<times> int \<times> ecx_context) \<times> bool) option" where
  "writeeeprom_body rd wr eeproma data timeout = (\<lambda>(rval, nackcnt, c). do {
     (_, c) \<leftarrow> retry EC_DEFAULTRETRIES (on_port (wr ECT_REG_EEPDAT 2 (enc16 data) EC_TIMEOUTRET)) c;
     (wkc, c) \<leftarrow> retry EC_DEFAULTRETRIES
       (on_port (wr ECT_REG_EEPCTL 6 (eeprom_cmd EC_ECMD_WRITE eeproma) EC_TIMEOUTRET)) c;
     (rval, nackcnt, c) \<leftarrow>
       (if wkc \<noteq> 0 then do {
          (ready, estat, c) \<leftarrow> eeprom_waitnotbusy rd timeout c;
          if ready = 0 then Some (rval, nackcnt, c)
          else if estat AND EC_ESTAT_NACK \<noteq> 0 then Some (rval, nackcnt + 1, c)
          else Some (1, 0, c)
        } else Some (rval, nackcnt, c));
     Some ((rval, nackcnt, c), 0 < nackcnt \<and> nackcnt < 3)
   })"

definition writeeeprom :: "reg_read \<Rightarrow> reg_write \<Rightarrow> u16 \<Rightarrow> u16 \<Rightarrow> int \<Rightarrow> ecx_context \<Rightarrow> (int \<times> ecx_context) option" where
  "writeeeprom rd wr eeproma data timeout c = do {
     (ready, estat, c) \<leftarrow> eeprom_waitnotbusy rd timeout c;
     if ready \<noteq> 0 then do {
       c \<leftarrow> clear_errors wr estat c;
       (rval, _, c) \<leftarrow> do_while (writeeeprom_body rd wr eeproma data timeout) (0, 0, c);
       Some (rval, c)
     } else Some (0, c)
   }"

section \<open>The functions of the library\<close>

definition ecx_eeprom_waitnotbusyAP :: "u16 \<Rightarrow> int \<Rightarrow> ecx_context \<Rightarrow> (u16 \<times> u16 \<times> ecx_context) option" where
  "ecx_eeprom_waitnotbusyAP aiadr = eeprom_waitnotbusy (ecx_APRD aiadr)"

definition ecx_eeprom_waitnotbusyFP :: "u16 \<Rightarrow> int \<Rightarrow> ecx_context \<Rightarrow> (u16 \<times> u16 \<times> ecx_context) option" where
  "ecx_eeprom_waitnotbusyFP configadr = eeprom_waitnotbusy (ecx_FPRD configadr)"

definition ecx_readeepromAP :: "u16 \<Rightarrow> u16 \<Rightarrow> int \<Rightarrow> ecx_context \<Rightarrow> (u64 \<times> ecx_context) option" where
  "ecx_readeepromAP aiadr = readeeprom (ecx_APRD aiadr) (ecx_APWR aiadr)"

definition ecx_readeepromFP :: "u16 \<Rightarrow> u16 \<Rightarrow> int \<Rightarrow> ecx_context \<Rightarrow> (u64 \<times> ecx_context) option" where
  "ecx_readeepromFP configadr = readeeprom (ecx_FPRD configadr) (ecx_FPWR configadr)"

definition ecx_writeeepromAP :: "u16 \<Rightarrow> u16 \<Rightarrow> u16 \<Rightarrow> int \<Rightarrow> ecx_context \<Rightarrow> (int \<times> ecx_context) option" where
  "ecx_writeeepromAP aiadr = writeeeprom (ecx_APRD aiadr) (ecx_APWR aiadr)"

definition ecx_writeeepromFP :: "u16 \<Rightarrow> u16 \<Rightarrow> u16 \<Rightarrow> int \<Rightarrow> ecx_context \<Rightarrow> (int \<times> ecx_context) option" where
  "ecx_writeeepromFP configadr = writeeeprom (ecx_FPRD configadr) (ecx_FPWR configadr)"

definition ecx_readeeprom :: "u16 \<Rightarrow> u16 \<Rightarrow> int \<Rightarrow> ecx_context \<Rightarrow> (u32 \<times> ecx_context) option" where
  "ecx_readeeprom slave eeproma timeout c = do {
     (_, c) \<leftarrow> ecx_eeprom2master slave c;
     s \<leftarrow> get_slave slave c;
     (e, c) \<leftarrow> ecx_readeepromFP (s_configadr s) eeproma timeout c;
     Some (ucast e, c)
   }"

definition ecx_writeeeprom :: "u16 \<Rightarrow> u16 \<Rightarrow> u16 \<Rightarrow> int \<Rightarrow> ecx_context \<Rightarrow> (int \<times> ecx_context) option" where
  "ecx_writeeeprom slave eeproma data timeout c = do {
     (_, c) \<leftarrow> ecx_eeprom2master slave c;
     s \<leftarrow> get_slave slave c;
     ecx_writeeepromFP (s_configadr s) eeproma data timeout c
   }"

definition ecx_readeeprom1 :: "u16 \<Rightarrow> u16 \<Rightarrow> ecx_context \<Rightarrow> ecx_context option" where
  "ecx_readeeprom1 slave eeproma c = do {
     (_, c) \<leftarrow> ecx_eeprom2master slave c;
     s \<leftarrow> get_slave slave c;
     (ready, estat, c) \<leftarrow> ecx_eeprom_waitnotbusyFP (s_configadr s) EC_TIMEOUTEEP c;
     if ready \<noteq> 0 then do {
       c \<leftarrow> clear_errors (ecx_FPWR (s_configadr s)) estat c;
       (_, c) \<leftarrow> retry EC_DEFAULTRETRIES
         (on_port (ecx_FPWR (s_configadr s) ECT_REG_EEPCTL 6 (eeprom_cmd EC_ECMD_READ eeproma) EC_TIMEOUTRET)) c;
       Some c
     } else Some c
   }"

definition ecx_readeeprom2 :: "u16 \<Rightarrow> int \<Rightarrow> ecx_context \<Rightarrow> (u32 \<times> ecx_context) option" where
  "ecx_readeeprom2 slave timeout c = do {
     s \<leftarrow> get_slave slave c;
     (ready, _, c) \<leftarrow> ecx_eeprom_waitnotbusyFP (s_configadr s) timeout c;
     if ready \<noteq> 0 then do {
       (b, c) \<leftarrow> read_retried (ecx_FPRD (s_configadr s)) ECT_REG_EEPDAT (enc32 0) c;
       Some (dec32 b, c)
     } else Some (0, c)
   }"

text \<open>
  \<^verbatim>\<open>ecx_esidump\<close>: the caller's buffer is a list; eight bytes are stored at every step. The
  buffer, the word address and the store position are the state of the loop.
\<close>

definition esidump_body :: "u16 \<Rightarrow> nat \<Rightarrow> u8 list \<times> u16 \<times> nat \<times> ecx_context
    \<Rightarrow> ((u8 list \<times> u16 \<times> nat \<times> ecx_context) \<times> bool) option" where
  "esidump_body configadr incr = (\<lambda>(esi, address, pos, c). do {
     (edat, c) \<leftarrow> ecx_readeepromFP configadr address EC_TIMEOUTEEP c;
     chk (pos + 8 \<le> length esi);
     let esi = take pos esi @ enc64 edat @ drop (pos + 8) esi;
     let address = address + of_nat incr;
     Some ((esi, address, pos + 2 * incr, c),
       unat address \<le> EC_MAXEEPBUF div 2 \<and> (ucast edat :: u32) \<noteq> 0xffffffff)
   })"

definition ecx_esidump :: "u16 \<Rightarrow> u8 list \<Rightarrow> ecx_context \<Rightarrow> (u8 list \<times> ecx_context) option" where
  "ecx_esidump slave esi c = do {
     s0 \<leftarrow> get_slave slave c;
     (_, c) \<leftarrow> ecx_eeprom2master slave c;
     s \<leftarrow> get_slave slave c;
     (esi, _, _, c) \<leftarrow> do_while (esidump_body (s_configadr s) (if s_eep_8byte s \<noteq> 0 then 4 else 2))
       (esi, ECT_SII_START, 0, c);
     if s_eep_pdi s0 \<noteq> 0 then do { (_, c) \<leftarrow> ecx_eeprom2pdi slave c; Some (esi, c) } else Some (esi, c)
   }"

section \<open>The interface: access to the registers of one slave\<close>

text \<open>
  A read and a write that return, keep the invariants, leave the buffer alone on failure,
  and fail on a silent wire. Both address modes provide it.
\<close>

locale slave_access =
  fixes rd :: reg_read and wr :: reg_write
  assumes rd_law: "port_inv p \<Longrightarrow> unat len \<le> EC_MAXDATA \<Longrightarrow> unat len \<le> length data \<Longrightarrow>
      returns (rd ado len data timeout p) (\<lambda>(w, data', q). port_ok p q \<and> length data' = length data \<and> (w \<le> 0 \<longrightarrow> data' = data))"
    and wr_law: "port_inv p \<Longrightarrow> unat len \<le> EC_MAXDATA \<Longrightarrow> unat len \<le> length data \<Longrightarrow>
      returns (wr ado len data timeout p) (\<lambda>(w, q). port_ok p q)"
    and rd_silent: "port_inv p \<Longrightarrow> unat len \<le> EC_MAXDATA \<Longrightarrow> unat len \<le> length data \<Longrightarrow> silent p \<Longrightarrow>
      returns (rd ado len data timeout p) (\<lambda>(w, data', q). w < 0 \<and> silent q)"
    and wr_silent: "port_inv p \<Longrightarrow> unat len \<le> EC_MAXDATA \<Longrightarrow> unat len \<le> length data \<Longrightarrow> silent p \<Longrightarrow>
      returns (wr ado len data timeout p) (\<lambda>(w, q). w < 0 \<and> silent q)"
begin

text \<open>What holds of a context when \<open>b\<close> says whether the wire is silent.\<close>

definition heard :: "bool \<Rightarrow> ecx_context \<Rightarrow> ecx_context \<Rightarrow> bool" where
  "heard b c d \<longleftrightarrow> talks c d \<and> (b \<longrightarrow> silent (port d))"

lemma heard_refl: "ctx_inv c \<Longrightarrow> (b \<Longrightarrow> silent (port c)) \<Longrightarrow> heard b c c"
  by (simp add: heard_def talks_refl)

lemma heard_trans: "heard b c d \<Longrightarrow> heard b d e \<Longrightarrow> heard b c e"
  by (auto simp: heard_def intro: talks_trans)

lemma heardD: "heard b c d \<Longrightarrow> ctx_inv d \<and> (b \<longrightarrow> silent (port d))"
  by (auto simp: heard_def dest: talks_inv)

lemma heard_talks: "heard b c d \<Longrightarrow> talks c d"
  by (simp add: heard_def)

lemma heard_port:
  "heard b c0 c \<Longrightarrow> port_ok (port c) q \<Longrightarrow> (b \<Longrightarrow> silent q) \<Longrightarrow>
     heard b c0 (c\<lparr>port := q\<rparr>) \<and> ctx_left (c\<lparr>port := q\<rparr>) \<le> ctx_left c"
proof -
  assume h: "heard b c0 c" and q: "port_ok (port c) q" "b \<Longrightarrow> silent q"
  have "talks c (c\<lparr>port := q\<rparr>)"
    using heardD [OF h] q(1) by (simp add: talks_def ctx_ok_port)
  with h q(2) show ?thesis
    by (auto simp: heard_def intro: talks_trans dest: talks_left)
qed

lemma rd_heard:
  assumes h: "heard b c0 c" and len: "unat len \<le> EC_MAXDATA" "unat len \<le> length data"
  shows "returns (on_port_buf (rd ado len data timeout) c) (\<lambda>(w, data', d). heard b c0 d \<and>
    length data' = length data \<and> (w \<le> 0 \<longrightarrow> data' = data) \<and> (b \<longrightarrow> w < 0) \<and> ctx_left d \<le> ctx_left c)"
proof -
  have inv: "port_inv (port c)" and quiet: "b \<Longrightarrow> silent (port c)"
    using heardD [OF h] by (auto simp: ctx_inv_def)
  obtain w data' q where r: "rd ado len data timeout (port c) = Some (w, data', q)" "port_ok (port c) q"
      "length data' = length data" "w \<le> 0 \<longrightarrow> data' = data"
    using rd_law [OF inv len, of ado timeout] by (auto simp: returns_iff)
  moreover have "w < 0 \<and> silent q" if b
    using rd_silent [OF inv len quiet [OF that], of ado timeout] r(1) by simp
  ultimately show ?thesis
    using heard_port [OF h r(2)] by (simp add: on_port_buf_def)
qed

lemma wr_heard:
  assumes h: "heard b c0 c" and len: "unat len \<le> EC_MAXDATA" "unat len \<le> length data"
  shows "returns (on_port (wr ado len data timeout) c) (\<lambda>(w, d). heard b c0 d \<and> (b \<longrightarrow> w < 0) \<and> ctx_left d \<le> ctx_left c)"
proof -
  have inv: "port_inv (port c)" and quiet: "b \<Longrightarrow> silent (port c)"
    using heardD [OF h] by (auto simp: ctx_inv_def)
  obtain w q where r: "wr ado len data timeout (port c) = Some (w, q)" "port_ok (port c) q"
    using wr_law [OF inv len, of ado timeout] by (auto simp: returns_iff)
  moreover have "w < 0 \<and> silent q" if b
    using wr_silent [OF inv len quiet [OF that], of ado timeout] r(1) by simp
  ultimately show ?thesis
    using heard_port [OF h r(2)] by (simp add: on_port_def)
qed

lemma wr_retry:
  assumes "heard b c0 c" "unat len \<le> EC_MAXDATA" "unat len \<le> length data"
  shows "returns (retry n (on_port (wr ado len data timeout)) c) (\<lambda>(w, d). heard b c0 d \<and> (b \<longrightarrow> w < 0))"
  by (rule retry_returns [where P = "heard b c0"])
    (use assms in \<open>auto intro!: returns_mono [OF wr_heard]\<close>)

lemma rd_retry:
  assumes "heard b c0 c" "length buf \<le> EC_MAXDATA"
  shows "returns (read_retried rd ado buf c) (\<lambda>(buf', d). heard b c0 d \<and> length buf' = length buf \<and> (b \<longrightarrow> buf' = buf))"
proof -
  have "returns (retry EC_DEFAULTRETRIES (\<lambda>(buf, c). on_port_buf (rd ado (of_nat (length buf)) buf EC_TIMEOUTRET) c) (buf, c))
      (\<lambda>(w, s). (heard b c0 (snd s) \<and> length (fst s) = length buf \<and> (b \<longrightarrow> fst s = buf)) \<and> True)"
  proof (rule retry_returns)
    fix s :: "u8 list \<times> ecx_context"
    assume s: "heard b c0 (snd s) \<and> length (fst s) = length buf \<and> (b \<longrightarrow> fst s = buf)"
    have "unat (of_nat (length (fst s)) :: u16) = length (fst s)"
      using s assms(2) by (simp add: unat_of_nat take_bit_nat_eq_self)
    with s assms(2) show "returns (case s of (buf, c) \<Rightarrow> on_port_buf (rd ado (of_nat (length buf)) buf EC_TIMEOUTRET) c)
        (\<lambda>(w, s'). (heard b c0 (snd s') \<and> length (fst s') = length buf \<and> (b \<longrightarrow> fst s' = buf)) \<and> True)"
      unfolding case_prod_unfold by (intro returns_mono [OF rd_heard]) auto
  qed (use assms in simp)
  then show ?thesis by (auto simp: read_retried_def elim!: returns_mono)
qed

lemma waitnotbusy_body_returns:
  assumes h: "heard b c0 (snd s)"
  shows "returns (waitnotbusy_body rd timer s) (\<lambda>(s', again). heard b c0 (snd s') \<and> (b \<longrightarrow> fst s' = 0) \<and>
    (again \<longrightarrow> ctx_left (snd s') < ctx_left (snd s)))"
proof -
  obtain e c where [simp]: "s = (e, c)" by (cases s)
  obtain w d c1 where r: "on_port_buf (rd ECT_REG_EEPSTAT 2 (enc16 0) EC_TIMEOUTRET) c = Some (w, d, c1)"
      "heard b c0 c1" "w \<le> 0 \<longrightarrow> d = enc16 0" "b \<longrightarrow> w < 0" "ctx_left c1 \<le> ctx_left c"
    using rd_heard [of b c0 c 2 "enc16 0" ECT_REG_EEPSTAT EC_TIMEOUTRET] h by (auto simp: returns_iff)
  let ?a = "ctx_again (w \<le> 0 \<or> dec16 d AND EC_ESTAT_BUSY > 0) timer c1"
  have inv: "ctx_inv c1" using heardD [OF r(2)] by simp
  have "talks c1 (snd ?a)" by (rule ctx_again_talks [OF inv])
  moreover have "b \<Longrightarrow> silent (port (snd ?a))"
    using heardD [OF r(2)] by (simp add: ctx_again_eq silent_def)
  ultimately have "heard b c0 (snd ?a)" using r(2) by (auto simp: heard_def intro: talks_trans)
  moreover have "fst ?a \<Longrightarrow> ctx_left (snd ?a) < ctx_left c"
    using ctx_again_left [OF inv] r(5) by fastforce
  ultimately show ?thesis
    using r(1,3,4) by (auto simp: waitnotbusy_body_def case_prod_unfold Let_def)
qed

lemma waitnotbusy_returns:
  assumes h: "heard b c0 c"
  shows "returns (eeprom_waitnotbusy rd timeout c) (\<lambda>(ready, estat, d). heard b c0 d \<and>
    (ready = 1 \<longleftrightarrow> estat AND EC_ESTAT_BUSY = 0) \<and> (ready = 0 \<or> ready = 1) \<and> (b \<longrightarrow> ready = 1 \<and> estat = 0))"
proof -
  let ?c = "snd (ctx_timer_start timeout c)" and ?t = "fst (ctx_timer_start timeout c)"
  have "talks c ?c" using heardD [OF h] by (simp add: ctx_timer_start_talks)
  moreover have "b \<Longrightarrow> silent (port ?c)"
    using heardD [OF h] by (simp add: ctx_timer_start_def case_prod_unfold Let_def silent_def)
  ultimately have h1: "heard b c0 ?c" using h by (auto simp: heard_def intro: talks_trans)
  have "returns (do_while (waitnotbusy_body rd ?t) (0, ?c)) (\<lambda>s. heard b c0 (snd s) \<and> (b \<longrightarrow> fst s = 0))"
  proof (rule polling_ctx [where R = "\<lambda>_. True"])
    fix s :: "u16 \<times> ecx_context" assume "heard b c0 (snd s)"
    from waitnotbusy_body_returns [OF this, of ?t]
    show "returns (waitnotbusy_body rd ?t s) (\<lambda>(s', again). heard b c0 (snd s') \<and>
        (if again then True \<and> ctx_left (snd s') < ctx_left (snd s) else b \<longrightarrow> fst s' = 0))"
      by (rule returns_mono) auto
  qed (use h1 in simp_all)
  then show ?thesis
    by (auto simp: eeprom_waitnotbusy_def case_prod_unfold Let_def elim!: returns_mono)
qed

lemma clear_errors_returns:
  assumes "heard b c0 c"
  shows "returns (clear_errors wr estat c) (heard b c0)"
  using wr_heard [OF assms, of 2 "enc16 EC_ECMD_NOP" ECT_REG_EEPCTL EC_TIMEOUTRET3] assms
  by (auto simp: clear_errors_def elim!: returns_mono)

lemma readeeprom_body_returns:
  assumes h: "heard b c0 c"
  shows "returns (readeeprom_body rd wr a timeout (e64, e32, n, c)) (\<lambda>((e64', e32', n', d), again).
    heard b c0 d \<and> again = (0 < n' \<and> n' < 3) \<and> (n' = n \<or> n' = n + 1 \<or> n' = 0) \<and> (b \<longrightarrow> n' = 0 \<and> e64' = ucast e32))"
proof -
  obtain w c1 where 1: "retry EC_DEFAULTRETRIES (on_port (wr ECT_REG_EEPCTL 6 (eeprom_cmd EC_ECMD_READ a) EC_TIMEOUTRET)) c = Some (w, c1)"
      "heard b c0 c1" "b \<longrightarrow> w < 0"
    using wr_retry [OF h, of 6 "eeprom_cmd EC_ECMD_READ a" EC_DEFAULTRETRIES ECT_REG_EEPCTL EC_TIMEOUTRET]
    by (auto simp: returns_iff eeprom_cmd_def)
  obtain ready estat c2 where 2: "eeprom_waitnotbusy rd timeout c1 = Some (ready, estat, c2)" "heard b c0 c2"
      "b \<longrightarrow> ready = 1 \<and> estat = 0"
    using waitnotbusy_returns [OF 1(2), of timeout] by (auto simp: returns_iff)
  obtain b8 c3 where 3: "read_retried rd ECT_REG_EEPDAT (enc64 e64) c2 = Some (b8, c3)" "heard b c0 c3"
    using rd_retry [OF 2(2), of "enc64 e64" ECT_REG_EEPDAT] by (auto simp: returns_iff)
  obtain b4 c4 where 4: "read_retried rd ECT_REG_EEPDAT (enc32 e32) c2 = Some (b4, c4)" "heard b c0 c4" "b \<longrightarrow> b4 = enc32 e32"
    using rd_retry [OF 2(2), of "enc32 e32" ECT_REG_EEPDAT] by (auto simp: returns_iff)
  show ?thesis
    using 1 2 3 4 by (auto simp: readeeprom_body_def)
qed

lemma writeeeprom_body_returns:
  assumes h: "heard b c0 c"
  shows "returns (writeeeprom_body rd wr a data timeout (r, n, c)) (\<lambda>((r', n', d), again).
    heard b c0 d \<and> again = (0 < n' \<and> n' < 3) \<and> (n' = n \<or> n' = n + 1 \<or> n' = 0) \<and> (b \<longrightarrow> n' = 0 \<and> r' = 1))"
proof -
  obtain w0 c0' where 0: "retry EC_DEFAULTRETRIES (on_port (wr ECT_REG_EEPDAT 2 (enc16 data) EC_TIMEOUTRET)) c = Some (w0, c0')"
      "heard b c0 c0'"
    using wr_retry [OF h, of 2 "enc16 data" EC_DEFAULTRETRIES ECT_REG_EEPDAT EC_TIMEOUTRET]
    by (auto simp: returns_iff)
  obtain w c1 where 1: "retry EC_DEFAULTRETRIES (on_port (wr ECT_REG_EEPCTL 6 (eeprom_cmd EC_ECMD_WRITE a) EC_TIMEOUTRET)) c0' = Some (w, c1)"
      "heard b c0 c1" "b \<longrightarrow> w < 0"
    using wr_retry [OF 0(2), of 6 "eeprom_cmd EC_ECMD_WRITE a" EC_DEFAULTRETRIES ECT_REG_EEPCTL EC_TIMEOUTRET]
    by (auto simp: returns_iff eeprom_cmd_def)
  obtain ready estat c2 where 2: "eeprom_waitnotbusy rd timeout c1 = Some (ready, estat, c2)" "heard b c0 c2"
      "b \<longrightarrow> ready = 1 \<and> estat = 0"
    using waitnotbusy_returns [OF 1(2), of timeout] by (auto simp: returns_iff)
  show ?thesis
    using 0 1 2 by (auto simp: writeeeprom_body_def)
qed

text \<open>
  A read that returns leaves everything but the port alone. It need not return: see
  \<open>stuck\<close> below.
\<close>

lemma readeeprom_ensures:
  assumes "ctx_inv c"
  shows "ensures (readeeprom rd wr a timeout c) (\<lambda>(e, d). talks c d)"
proof -
  obtain ready estat c1 where 1: "eeprom_waitnotbusy rd timeout c = Some (ready, estat, c1)" "heard False c c1"
    using waitnotbusy_returns [OF heard_refl [OF assms], of False timeout] by (auto simp: returns_iff)
  obtain c2 where 2: "clear_errors wr estat c1 = Some c2" "heard False c c2"
    using clear_errors_returns [OF 1(2), of estat] by (auto simp: returns_iff)
  have "ensures (do_while (readeeprom_body rd wr a timeout) (0, 0, 0, c2)) (\<lambda>(e, _, _, d). heard False c d)"
  proof (rule do_while_ensures [where P = "\<lambda>(e64, e32, n, d). heard False c d"])
    fix s :: "u64 \<times> u32 \<times> int \<times> ecx_context"
    obtain e64 e32 n d where s: "s = (e64, e32, n, d)" by (cases s)
    assume "case s of (e64, e32, n, d) \<Rightarrow> heard False c d"
    then have "heard False c d" by (simp add: s)
    from returns_ensures [OF readeeprom_body_returns [OF this, of a timeout e64 e32 n]]
    show "ensures (readeeprom_body rd wr a timeout s) (\<lambda>(s', again).
        if again then case s' of (e64, e32, n, d) \<Rightarrow> heard False c d else case s' of (e, _, _, d) \<Rightarrow> heard False c d)"
      unfolding s by (rule ensures_mono) auto
  qed (use 2 in simp)
  with 1 2 show ?thesis
    by (auto simp: readeeprom_def heard_talks elim!: ensures_mono)
qed

text \<open>On a silent wire a read ends with zero, and a write claims success.\<close>

lemma readeeprom_silent:
  assumes "ctx_inv c" "silent (port c)"
  shows "returns (readeeprom rd wr a timeout c) (\<lambda>(e, d). e = 0 \<and> talks c d \<and> silent (port d))"
proof -
  have h: "heard True c c" by (rule heard_refl [OF assms(1)]) (rule assms(2))
  obtain ready estat c1 where 1: "eeprom_waitnotbusy rd timeout c = Some (ready, estat, c1)" "heard True c c1"
    using waitnotbusy_returns [OF h, of timeout] by (auto simp: returns_iff)
  obtain c2 where 2: "clear_errors wr estat c1 = Some c2" "heard True c c2"
    using clear_errors_returns [OF 1(2), of estat] by (auto simp: returns_iff)
  obtain s' where 3: "readeeprom_body rd wr a timeout (0, 0, 0, c2) = Some (s', False)" "heard True c (snd (snd (snd s')))" "fst s' = 0"
    using readeeprom_body_returns [OF 2(2), of a timeout 0 0 0] by (auto simp: returns_iff)
  have "do_while (readeeprom_body rd wr a timeout) (0, 0, 0, c2) = Some s'"
    using 3(1) by (rule do_while_stop)
  with 1 2 3 heardD [OF 1(2)] heardD [OF 3(2)] show ?thesis
    by (cases s') (auto simp: readeeprom_def heard_talks)
qed

lemma writeeeprom_silent:
  assumes "ctx_inv c" "silent (port c)"
  shows "returns (writeeeprom rd wr a data timeout c) (\<lambda>(r, d). r = 1 \<and> talks c d)"
proof -
  have h: "heard True c c" by (rule heard_refl [OF assms(1)]) (rule assms(2))
  obtain estat c1 where 1: "eeprom_waitnotbusy rd timeout c = Some (1, estat, c1)" "heard True c c1"
    using waitnotbusy_returns [OF h, of timeout] by (auto simp: returns_iff)
  obtain c2 where 2: "clear_errors wr estat c1 = Some c2" "heard True c c2"
    using clear_errors_returns [OF 1(2), of estat] by (auto simp: returns_iff)
  obtain n' d where 3: "writeeeprom_body rd wr a data timeout (0, 0, c2) = Some ((1, n', d), False)" "heard True c d"
    using writeeeprom_body_returns [OF 2(2), of a data timeout 0 0] by (auto simp: returns_iff)
  have "do_while (writeeeprom_body rd wr a data timeout) (0, 0, c2) = Some (1, n', d)"
    using 3(1) by (rule do_while_stop)
  with 1 2 3 show ?thesis
    by (simp add: writeeeprom_def heard_talks)
qed

text \<open>
  The loop of a read keeps its count when the command is not taken. Once the slave has
  failed to acknowledge and is then gone (every write comes back with work counter 0), the
  loop never ends.
\<close>

lemma stuck:
  assumes gone: "\<And>c. G c \<Longrightarrow> \<exists>c'. retry EC_DEFAULTRETRIES
      (on_port (wr ECT_REG_EEPCTL 6 (eeprom_cmd EC_ECMD_READ a) EC_TIMEOUTRET)) c = Some (0, c') \<and> G c'"
    and start: "G c" "0 < n" "n < 3"
  shows "do_while (readeeprom_body rd wr a timeout) (e64, e32, n, c) = None"
proof -
  have "ensures (do_while (readeeprom_body rd wr a timeout) (e64, e32, n, c)) (\<lambda>_. False)"
  proof (rule do_while_ensures [where P = "\<lambda>(_, _, m, c). m = n \<and> G c"])
    fix s :: "u64 \<times> u32 \<times> int \<times> ecx_context"
    obtain f64 f32 m d where s: "s = (f64, f32, m, d)" by (cases s)
    assume "case s of (_, _, m, c) \<Rightarrow> m = n \<and> G c"
    then have m: "m = n" "G d" by (simp_all add: s)
    from gone [OF m(2)] show "ensures (readeeprom_body rd wr a timeout s) (\<lambda>(s', again).
        if again then case s' of (_, _, m, c) \<Rightarrow> m = n \<and> G c else False)"
      using start by (auto simp: s m readeeprom_body_def)
  qed (use start in simp)
  then show ?thesis by (cases "do_while (readeeprom_body rd wr a timeout) (e64, e32, n, c)") simp_all
qed

end

section \<open>The interface on a scripted wire\<close>

text \<open>A request on a port at rest is served by the next frame, if it has the right size.\<close>

locale wired_access = slave_access +
  assumes rd_at_rest: "at_rest l fs p \<Longrightarrow> fs 0 = Some (answer (next_idx l) ret w) \<Longrightarrow> unat len = length ret \<Longrightarrow>
      length ret \<le> EC_MAXDATA \<Longrightarrow> length data = unat len \<Longrightarrow>
      returns (rd ado len data timeout p) (\<lambda>(v, d, q). v = uint w \<and> d = (if w = 0 then data else ret) \<and>
        port_ok p q \<and> at_rest (next_idx l) (script_tl fs) q)"
    and wr_at_rest: "at_rest l fs p \<Longrightarrow> fs 0 = Some (answer (next_idx l) ret w) \<Longrightarrow> unat len = length ret \<Longrightarrow>
      length ret \<le> EC_MAXDATA \<Longrightarrow> unat len \<le> length data \<Longrightarrow>
      returns (wr ado len data timeout p) (\<lambda>(v, q). v = uint w \<and> port_ok p q \<and> at_rest (next_idx l) (script_tl fs) q)"
begin

lemma rd_rests:
  assumes "rests c0 l fs c" "fs 0 = Some (answer (next_idx l) ret w)" "unat len = length ret"
    "length ret \<le> EC_MAXDATA" "length data = unat len"
  shows "returns (on_port_buf (rd ado len data timeout) c) (\<lambda>(v, d, c').
    (v = uint w \<and> d = (if w = 0 then data else ret)) \<and> rests c0 (next_idx l) (script_tl fs) c')"
proof (rule on_port_buf_rests [OF assms(1)])
  have "at_rest l fs (port c)" using assms(1) by (simp add: rests_def)
  from rd_at_rest [OF this assms(2-5)]
  show "returns (rd ado len data timeout (port c)) (\<lambda>(v, d, q). (v = uint w \<and> d = (if w = 0 then data else ret)) \<and>
      port_ok (port c) q \<and> at_rest (next_idx l) (script_tl fs) q)"
    by (rule returns_mono) auto
qed

lemma wr_rests:
  assumes "rests c0 l fs c" "fs 0 = Some (answer (next_idx l) ret w)" "unat len = length ret"
    "length ret \<le> EC_MAXDATA" "unat len \<le> length data"
  shows "returns (on_port (wr ado len data timeout) c) (\<lambda>(v, c'). v = uint w \<and> rests c0 (next_idx l) (script_tl fs) c')"
proof (rule on_port_rests [OF assms(1)])
  have "at_rest l fs (port c)" using assms(1) by (simp add: rests_def)
  from wr_at_rest [OF this assms(2-5)]
  show "returns (wr ado len data timeout (port c)) (\<lambda>(v, q). v = uint w \<and>
      port_ok (port c) q \<and> at_rest (next_idx l) (script_tl fs) q)"
    by (rule returns_mono) auto
qed

text \<open>The status register answers: the wait ends at once.\<close>

lemma waitnotbusy_rests:
  assumes "rests c0 l fs c" "fs 0 = Some (answer (next_idx l) (enc16 st) w)" "w \<noteq> 0" "st AND EC_ESTAT_BUSY = 0"
  shows "returns (eeprom_waitnotbusy rd timeout c) (\<lambda>(r, e, c'). r = 1 \<and> e = st \<and> rests c0 (next_idx l) (script_tl fs) c')"
proof -
  let ?c = "snd (ctx_timer_start timeout c)" and ?t = "fst (ctx_timer_start timeout c)"
  obtain c1 where 1: "on_port_buf (rd ECT_REG_EEPSTAT 2 (enc16 0) EC_TIMEOUTRET) ?c = Some (uint w, enc16 st, c1)"
      "rests c0 (next_idx l) (script_tl fs) c1"
    using rd_rests [OF rests_timer [OF assms(1)] assms(2), of 2 "enc16 0" ECT_REG_EEPSTAT EC_TIMEOUTRET] assms(3)
    by (auto simp: returns_iff)
  have "waitnotbusy_body rd ?t (0, ?c) = Some ((st, c1), False)"
    using 1(1) assms(3,4) uint_pos [of w] by (simp add: waitnotbusy_body_def)
  then have "do_while (waitnotbusy_body rd ?t) (0, ?c) = Some (st, c1)" by (rule do_while_stop)
  with 1(2) assms(4) show ?thesis
    by (simp add: eeprom_waitnotbusy_def case_prod_unfold Let_def)
qed

lemma wr_retry_rests:
  assumes "rests c0 l fs c" "fs 0 = Some (answer (next_idx l) ret w)" "unat len = length ret"
    "length ret \<le> EC_MAXDATA" "unat len \<le> length data" "w \<noteq> 0"
  shows "returns (retry n (on_port (wr ado len data timeout)) c) (\<lambda>(v, c'). v = uint w \<and> rests c0 (next_idx l) (script_tl fs) c')"
  using wr_rests [OF assms(1-5), of ado timeout] uint_pos [of w] assms(6)
  by (intro retry_now) (auto elim!: returns_mono)

lemma rd_retry_rests:
  assumes "rests c0 l fs c" "fs 0 = Some (answer (next_idx l) ret w)" "length buf = length ret"
    "length ret \<le> EC_MAXDATA" "w \<noteq> 0"
  shows "returns (read_retried rd ado buf c) (\<lambda>(d, c'). d = ret \<and> rests c0 (next_idx l) (script_tl fs) c')"
proof -
  have n: "unat (of_nat (length ret) :: u16) = length ret"
    using assms(4) by (simp add: unat_of_nat take_bit_nat_eq_self)
  have "returns (retry EC_DEFAULTRETRIES (\<lambda>(buf, c). on_port_buf (rd ado (of_nat (length buf)) buf EC_TIMEOUTRET) c) (buf, c))
      (\<lambda>(v, d, c'). d = ret \<and> rests c0 (next_idx l) (script_tl fs) c')"
    using rd_rests [OF assms(1,2) n assms(4), of buf ado EC_TIMEOUTRET] uint_pos [of w] assms(3,5) n
    by (intro retry_now) (auto elim!: returns_mono)
  then show ?thesis by (auto simp: read_retried_def elim!: returns_mono)
qed

text \<open>
  The four frames of a successful read: status idle, command taken, status idle with the
  width of the data, data.
\<close>

definition read_script :: "u8 \<Rightarrow> u16 \<Rightarrow> u8 list \<Rightarrow> u8 list option script \<Rightarrow> bool" where
  "read_script l st d fs \<longleftrightarrow>
     (\<exists>st0 w0 r1 w1 w2 w3. fs 0 = Some (answer (next_idx l) (enc16 st0) w0) \<and> st0 AND EC_ESTAT_BUSY = 0 \<and>
        st0 AND EC_ESTAT_EMASK = 0 \<and>
        fs 1 = Some (answer ((next_idx ^^ 2) l) r1 w1) \<and> length r1 = 6 \<and>
        fs 2 = Some (answer ((next_idx ^^ 3) l) (enc16 st) w2) \<and>
        fs 3 = Some (answer ((next_idx ^^ 4) l) d w3) \<and>
        w0 \<noteq> 0 \<and> w1 \<noteq> 0 \<and> w2 \<noteq> 0 \<and> w3 \<noteq> 0)"

lemma readeeprom_rests:
  assumes "rests c0 l fs c" "read_script l st d fs" "st AND EC_ESTAT_BUSY = 0" "st AND EC_ESTAT_NACK = 0"
    and len: "length d = (if st AND EC_ESTAT_R64 \<noteq> 0 then 8 else 4)"
  shows "returns (readeeprom rd wr a timeout c) (\<lambda>(e, c').
    e = (if st AND EC_ESTAT_R64 \<noteq> 0 then dec64 d else ucast (dec32 d)) \<and>
    rests c0 ((next_idx ^^ 4) l) (\<lambda>n. fs (n + 4)) c')"
proof -
  obtain st0 w0 r1 w1 w2 w3 where f: "fs 0 = Some (answer (next_idx l) (enc16 st0) w0)" "st0 AND EC_ESTAT_BUSY = 0"
      "st0 AND EC_ESTAT_EMASK = 0" "fs 1 = Some (answer ((next_idx ^^ 2) l) r1 w1)" "length r1 = 6"
      "fs 2 = Some (answer ((next_idx ^^ 3) l) (enc16 st) w2)" "fs 3 = Some (answer ((next_idx ^^ 4) l) d w3)"
      "w0 \<noteq> 0" "w1 \<noteq> 0" "w2 \<noteq> 0" "w3 \<noteq> 0"
    using assms(2) unfolding read_script_def by blast
  let ?f = "\<lambda>k. (script_tl ^^ k) fs" and ?l = "\<lambda>k. (next_idx ^^ k) l"
  have fk: "?f k n = fs (n + k)" for k n by (induction k arbitrary: n) simp_all
  obtain c1 where 1: "eeprom_waitnotbusy rd timeout c = Some (1, st0, c1)" "rests c0 (?l 1) (?f 1) c1"
    using waitnotbusy_rests [OF assms(1) f(1,8,2), of timeout] by (auto simp: returns_iff)
  have l2: "?l 2 = next_idx (?l 1)" and s2: "?f 2 = script_tl (?f 1)"
    and l3: "?l 3 = next_idx (?l 2)" and s3: "?f 3 = script_tl (?f 2)"
    and l4: "?l 4 = next_idx (?l 3)" and s4: "?f 4 = script_tl (?f 3)"
    by (simp_all only: numeral_eq_Suc One_nat_def pred_numeral_simps arith_simps funpow.simps o_apply)
  have f1: "?f 1 0 = Some (answer (next_idx (?l 1)) r1 w1)"
    unfolding fk l2 [symmetric] using f(4) by simp
  have six: "unat (6 :: u16) = length r1" "length r1 \<le> EC_MAXDATA" "unat (6 :: u16) \<le> length (eeprom_cmd EC_ECMD_READ a)"
    using f(5) by simp_all
  from wr_retry_rests [OF 1(2) f1 six f(9), of EC_DEFAULTRETRIES ECT_REG_EEPCTL EC_TIMEOUTRET]
  obtain c2 where 2: "retry EC_DEFAULTRETRIES (on_port (wr ECT_REG_EEPCTL 6 (eeprom_cmd EC_ECMD_READ a) EC_TIMEOUTRET)) c1 = Some (uint w1, c2)"
      "rests c0 (?l 2) (?f 2) c2"
    unfolding returns_iff l2 s2 by auto
  have f2: "?f 2 0 = Some (answer (next_idx (?l 2)) (enc16 st) w2)" "?f 3 0 = Some (answer (next_idx (?l 3)) d w3)"
    unfolding fk l3 [symmetric] l4 [symmetric] using f(6,7) by (simp_all only: add_0)
  from waitnotbusy_rests [OF 2(2) f2(1) f(10) assms(3), of timeout]
  obtain c3 where 3: "eeprom_waitnotbusy rd timeout c2 = Some (1, st, c3)" "rests c0 (?l 3) (?f 3) c3"
    unfolding returns_iff l3 s3 by auto
  define buf where "buf = (if st AND EC_ESTAT_R64 \<noteq> 0 then enc64 0 else enc32 0)"
  have "length buf = length d" using len by (simp add: buf_def)
  moreover have "length d \<le> EC_MAXDATA" using len by simp
  ultimately have "returns (read_retried rd ECT_REG_EEPDAT buf c3)
      (\<lambda>(b, c'). b = d \<and> rests c0 (next_idx (?l 3)) (script_tl (?f 3)) c')"
    using f(11) by (rule rd_retry_rests [OF 3(2) f2(2)])
  then obtain c4 where 4: "read_retried rd ECT_REG_EEPDAT buf c3 = Some (d, c4)" "rests c0 (?l 4) (?f 4) c4"
    unfolding returns_iff l4 s4 by auto
  have e: "clear_errors wr st0 c1 = Some c1" using f(3) by (simp add: clear_errors_def)
  have w1: "uint w1 \<noteq> 0" using f(9) uint_pos [of w1] by simp
  define r where "r = (if st AND EC_ESTAT_R64 \<noteq> 0 then dec64 d else ucast (dec32 d))"
  have "\<exists>x. readeeprom_body rd wr a timeout (0, 0, 0, c1) = Some ((r, x, 0, c4), False)"
  proof (cases "st AND EC_ESTAT_R64 = 0")
    case True
    with 4(1) have "read_retried rd ECT_REG_EEPDAT (enc32 0) c3 = Some (d, c4)" by (simp only: buf_def if_False not_True_eq_False simp_thms)
    with True 2(1) 3(1) assms(4) w1 show ?thesis by (simp add: readeeprom_body_def r_def del: of_int_eq_0_iff)
  next
    case False
    with 4(1) have "read_retried rd ECT_REG_EEPDAT (enc64 0) c3 = Some (d, c4)" by (simp only: buf_def if_True not_False_eq_True simp_thms)
    with False 2(1) 3(1) assms(4) w1 show ?thesis by (simp add: readeeprom_body_def r_def)
  qed
  then obtain x where "do_while (readeeprom_body rd wr a timeout) (0, 0, 0, c1) = Some (r, x, 0, c4)"
    by (blast dest: do_while_stop)
  moreover have "?f 4 = (\<lambda>n. fs (n + 4))" by (rule ext) (rule fk)
  ultimately show ?thesis
    using 1(1) e 4(2) by (simp add: readeeprom_def r_def)
qed

text \<open>A slave that no longer takes a command: all frames come back with work counter 0.\<close>

definition gone :: "u8 \<Rightarrow> u8 list option script \<Rightarrow> bool" where
  "gone l fs \<longleftrightarrow> (\<forall>n. \<exists>r. fs n = Some (answer ((next_idx ^^ Suc n) l) r 0) \<and> length r = 6)"

lemma gone_step: "gone l fs \<Longrightarrow> (\<exists>r. fs 0 = Some (answer (next_idx l) r 0) \<and> length r = 6) \<and> gone (next_idx l) (script_tl fs)"
  unfolding gone_def
proof (intro conjI allI)
  assume g: "\<forall>n. \<exists>r. fs n = Some (answer ((next_idx ^^ Suc n) l) r 0) \<and> length r = 6"
  show "\<exists>r. fs 0 = Some (answer (next_idx l) r 0) \<and> length r = 6" using spec [OF g, of 0] by simp
  show "\<exists>r. script_tl fs n = Some (answer ((next_idx ^^ Suc n) (next_idx l)) r 0) \<and> length r = 6" for n
    using spec [OF g, of "Suc n"] by (simp add: funpow_swap1)
qed

lemma wr_retry_gone:
  "rests c0 l fs c \<Longrightarrow> gone l fs \<Longrightarrow> unat len = 6 \<Longrightarrow> 6 \<le> length data \<Longrightarrow>
     \<exists>c' l' fs'. retry n (on_port (wr ado len data timeout)) c = Some (0, c') \<and> rests c0 l' fs' c' \<and> gone l' fs'"
proof (induction n arbitrary: l fs c)
  case (Suc n)
  obtain r where r: "fs 0 = Some (answer (next_idx l) r 0)" "length r = 6" and g: "gone (next_idx l) (script_tl fs)"
    using gone_step [OF Suc.prems(2)] by blast
  obtain c1 where 1: "on_port (wr ado len data timeout) c = Some (0, c1)" "rests c0 (next_idx l) (script_tl fs) c1"
    using wr_rests [OF Suc.prems(1) r(1), of len data ado timeout] r(2) Suc.prems(3,4) by (auto simp: returns_iff)
  from Suc.IH [OF 1(2) g Suc.prems(3,4)] show ?case by (simp add: 1(1))
next
  case 0
  obtain r where r: "fs 0 = Some (answer (next_idx l) r 0)" "length r = 6" and g: "gone (next_idx l) (script_tl fs)"
    using gone_step [OF 0(2)] by blast
  show ?case
    using wr_rests [OF 0(1) r(1), of len data ado timeout] r(2) 0(3,4) g by (auto simp: returns_iff)
qed

text \<open>A slave that does not acknowledge the first read and is gone after it.\<close>

definition lost_script :: "u8 \<Rightarrow> u8 list option script \<Rightarrow> bool" where
  "lost_script l fs \<longleftrightarrow>
     (\<exists>st0 st r1. fs 0 = Some (answer (next_idx l) (enc16 st0) 1) \<and> st0 AND EC_ESTAT_BUSY = 0 \<and>
        st0 AND EC_ESTAT_EMASK = 0 \<and>
        fs 1 = Some (answer ((next_idx ^^ 2) l) r1 1) \<and> length r1 = 6 \<and>
        fs 2 = Some (answer ((next_idx ^^ 3) l) (enc16 st) 1) \<and> st AND EC_ESTAT_BUSY = 0 \<and>
        st AND EC_ESTAT_NACK \<noteq> 0) \<and>
     gone ((next_idx ^^ 3) l) (\<lambda>n. fs (n + 3))"

lemma readeeprom_lost:
  assumes "rests c0 l fs c" "lost_script l fs"
  shows "readeeprom rd wr a timeout c = None"
proof -
  obtain st0 st r1 where f: "fs 0 = Some (answer (next_idx l) (enc16 st0) 1)" "st0 AND EC_ESTAT_BUSY = 0"
      "st0 AND EC_ESTAT_EMASK = 0" "fs 1 = Some (answer ((next_idx ^^ 2) l) r1 1)" "length r1 = 6"
      "fs 2 = Some (answer ((next_idx ^^ 3) l) (enc16 st) 1)" "st AND EC_ESTAT_BUSY = 0" "st AND EC_ESTAT_NACK \<noteq> 0"
    and g: "gone ((next_idx ^^ 3) l) (\<lambda>n. fs (n + 3))"
    using assms(2) unfolding lost_script_def by blast
  define l1 l2 l3 where l: "l1 = next_idx l" "l2 = next_idx l1" "l3 = next_idx l2"
  have idx: "(next_idx ^^ 2) l = l2" "(next_idx ^^ 3) l = l3"
    by (simp_all add: l numeral_eq_Suc)
  have tl3: "script_tl (script_tl (script_tl fs)) = (\<lambda>n. fs (n + 3))" by (rule ext) (simp add: numeral_eq_Suc)
  have f1: "script_tl fs 0 = Some (answer (next_idx l1) r1 1)" and f2: "script_tl (script_tl fs) 0 = Some (answer (next_idx l2) (enc16 st) 1)"
    using f(4,6) by (simp_all add: idx l numeral_eq_Suc)
  obtain c1 where 1: "eeprom_waitnotbusy rd timeout c = Some (1, st0, c1)" "rests c0 l1 (script_tl fs) c1"
    using waitnotbusy_rests [OF assms(1) f(1) _ f(2), of timeout] unfolding returns_iff l(1) by auto
  have six: "unat (6 :: u16) = length r1" "length r1 \<le> EC_MAXDATA" "unat (6 :: u16) \<le> length (eeprom_cmd EC_ECMD_READ a)"
    using f(5) by simp_all
  from wr_retry_rests [OF 1(2) f1 six, of EC_DEFAULTRETRIES ECT_REG_EEPCTL EC_TIMEOUTRET]
  obtain c2 where 2: "retry EC_DEFAULTRETRIES (on_port (wr ECT_REG_EEPCTL 6 (eeprom_cmd EC_ECMD_READ a) EC_TIMEOUTRET)) c1 = Some (1, c2)"
      "rests c0 l2 (script_tl (script_tl fs)) c2"
    unfolding returns_iff l(2) by auto
  obtain c3 where 3: "eeprom_waitnotbusy rd timeout c2 = Some (1, st, c3)" "rests c0 l3 (\<lambda>n. fs (n + 3)) c3"
    using waitnotbusy_rests [OF 2(2) f2 _ f(7), of timeout] unfolding returns_iff l(3) tl3 by auto
  have e: "clear_errors wr st0 c1 = Some c1" using f(3) by (simp add: clear_errors_def)
  have body: "readeeprom_body rd wr a timeout (0, 0, 0, c1) = Some ((0, 0, 1, c3), True)"
    using 2(1) 3(1) f(8) by (simp add: readeeprom_body_def)
  have "do_while (readeeprom_body rd wr a timeout) (0, 0, 1, c3) = None"
  proof (rule stuck [where G = "\<lambda>c. \<exists>l fs. rests c0 l fs c \<and> gone l fs"])
    show "\<exists>l fs. rests c0 l fs c3 \<and> gone l fs" using 3(2) g unfolding idx by blast
    fix d assume "\<exists>l fs. rests c0 l fs d \<and> gone l fs"
    then obtain k gs where "rests c0 k gs d" "gone k gs" by blast
    from wr_retry_gone [OF this, of 6 "eeprom_cmd EC_ECMD_READ a"]
    show "\<exists>c'. retry EC_DEFAULTRETRIES (on_port (wr ECT_REG_EEPCTL 6 (eeprom_cmd EC_ECMD_READ a) EC_TIMEOUTRET)) d =
        Some (0, c') \<and> (\<exists>l fs. rests c0 l fs c' \<and> gone l fs)"
      by (fastforce simp: unsigned_numeral)
  qed simp_all
  then have "do_while (readeeprom_body rd wr a timeout) (0, 0, 0, c1) = None"
    using do_while.simps [of "readeeprom_body rd wr a timeout" "(0, 0, 0, c1)"] by (simp add: body)
  with 1(1) e show ?thesis by (simp add: readeeprom_def)
qed

end

section \<open>Both address modes implement it\<close>

interpretation fp: wired_access "ecx_FPRD adp" "ecx_FPWR adp" for adp
proof unfold_locales
  fix p :: ecx_port and len :: u16 and data :: "u8 list" and ado :: u16 and timeout :: int
  assume a: "port_inv p" "unat len \<le> EC_MAXDATA" "unat len \<le> length data"
  show "returns (ecx_FPRD adp ado len data timeout p)
      (\<lambda>(w, data', q). port_ok p q \<and> length data' = length data \<and> (w \<le> 0 \<longrightarrow> data' = data))"
    unfolding ecx_FPRD_def by (rule returns_mono [OF read_primitive_returns [OF a]]) auto
  show "returns (ecx_FPWR adp ado len data timeout p) (\<lambda>(w, q). port_ok p q)"
    unfolding ecx_FPWR_def by (rule returns_mono [OF write_primitive_returns [OF a]]) auto
  assume s: "silent p"
  show "returns (ecx_FPRD adp ado len data timeout p) (\<lambda>(w, data', q). w < 0 \<and> silent q)"
    unfolding ecx_FPRD_def by (rule returns_mono [OF read_primitive_silent [OF a s]]) auto
  show "returns (ecx_FPWR adp ado len data timeout p) (\<lambda>(w, q). w < 0 \<and> silent q)"
    unfolding ecx_FPWR_def by (rule returns_mono [OF write_primitive_silent [OF a s]]) auto
qed (unfold ecx_FPRD_def ecx_FPWR_def, (rule read_at_rest write_at_rest; assumption)+)

interpretation ap: wired_access "ecx_APRD adp" "ecx_APWR adp" for adp
proof unfold_locales
  fix p :: ecx_port and len :: u16 and data :: "u8 list" and ado :: u16 and timeout :: int
  assume a: "port_inv p" "unat len \<le> EC_MAXDATA" "unat len \<le> length data"
  show "returns (ecx_APRD adp ado len data timeout p)
      (\<lambda>(w, data', q). port_ok p q \<and> length data' = length data \<and> (w \<le> 0 \<longrightarrow> data' = data))"
    unfolding ecx_APRD_def by (rule returns_mono [OF read_primitive_returns [OF a]]) auto
  show "returns (ecx_APWR adp ado len data timeout p) (\<lambda>(w, q). port_ok p q)"
    unfolding ecx_APWR_def by (rule returns_mono [OF write_primitive_returns [OF a]]) auto
  assume s: "silent p"
  show "returns (ecx_APRD adp ado len data timeout p) (\<lambda>(w, data', q). w < 0 \<and> silent q)"
    unfolding ecx_APRD_def by (rule returns_mono [OF read_primitive_silent [OF a s]]) auto
  show "returns (ecx_APWR adp ado len data timeout p) (\<lambda>(w, q). w < 0 \<and> silent q)"
    unfolding ecx_APWR_def by (rule returns_mono [OF write_primitive_silent [OF a s]]) auto
qed (unfold ecx_APRD_def ecx_APWR_def, (rule read_at_rest write_at_rest; assumption)+)

section \<open>Properties\<close>

lemma port_inv_demo_nil: "port_inv (demo_port [])"
  by (rule port_inv_demo) simp

lemma ctx_inv_wire: "(\<And>n bs. fs n = Some bs \<Longrightarrow> frame_ok bs) \<Longrightarrow>
    rests c 0 fs c" if "c = demo_context ((demo_port [])\<lparr>prim := (demo_stack [])\<lparr>rxscript := fs\<rparr>\<rparr>) sl"
proof -
  assume f: "\<And>n bs. fs n = Some bs \<Longrightarrow> frame_ok bs"
  let ?p = "(demo_port [])\<lparr>prim := (demo_stack [])\<lparr>rxscript := fs\<rparr>\<rparr>"
  have "at_rest 0 fs ?p" by (rule at_rest_demo) (rule f)
  moreover from at_rest_inv [OF this] have "ctx_inv c" unfolding that by (rule ctx_inv_demo)
  moreover have "port c = ?p" by (simp add: that demo_context_def)
  ultimately show "rests c 0 fs c" by (simp add: rests_def talks_refl)
qed

text \<open>
  Waiting for the EEPROM always ends, whatever the slave and the wire do, and leaves all
  tables of the master alone; its result says whether the last status it read was idle.
\<close>

theorem waitnotbusyFP_total:
  assumes "ctx_inv c"
  shows "returns (ecx_eeprom_waitnotbusyFP configadr timeout c)
    (\<lambda>(ready, estat, d). talks c d \<and> ready = (if estat AND EC_ESTAT_BUSY = 0 then 1 else 0))"
  unfolding ecx_eeprom_waitnotbusyFP_def
  using fp.waitnotbusy_returns [OF fp.heard_refl [OF assms], of False configadr timeout]
  by (auto simp: fp.heard_talks elim!: returns_mono)

theorem waitnotbusyFP_total_witness:
  "\<exists>ready estat d. ecx_eeprom_waitnotbusyFP 0x1001 20000 (demo_context (demo_port []) []) = Some (ready, estat, d) \<and>
     ready = (if estat AND EC_ESTAT_BUSY = 0 then 1 else 0)"
  using waitnotbusyFP_total [OF ctx_inv_demo [OF port_inv_demo_nil], where configadr = "0x1001" and timeout = 20000 and sl1 = "[]"] by (auto simp: returns_iff)

text \<open>
  C8: a read whose four requests are answered (status idle, command taken, status idle and
  acknowledged, data) returns the data of the slave: eight bytes when the slave announces the
  64-bit interface, four otherwise; it uses exactly these four frames.
\<close>

theorem readeepromFP_reads:
  assumes "ctx_inv c" "at_rest l fs (port c)" "fp.read_script l st d fs"
    "st AND EC_ESTAT_BUSY = 0" "st AND EC_ESTAT_NACK = 0" "length d = (if st AND EC_ESTAT_R64 \<noteq> 0 then 8 else 4)"
  shows "returns (ecx_readeepromFP configadr eeproma timeout c) (\<lambda>(e, c').
    e = (if st AND EC_ESTAT_R64 \<noteq> 0 then dec64 d else ucast (dec32 d)) \<and> talks c c' \<and>
    at_rest ((next_idx ^^ 4) l) (\<lambda>n. fs (n + 4)) (port c'))"
proof -
  have r: "rests c l fs c" using assms(1,2) by (simp add: rests_def talks_refl)
  show ?thesis
    unfolding ecx_readeepromFP_def using fp.readeeprom_rests [OF r assms(3-6), of configadr eeproma timeout]
    by (rule returns_mono) (auto simp: rests_def)
qed

lemma demo_indices:
  "next_idx 0 = 1" "(next_idx ^^ 2) 0 = 2" "(next_idx ^^ 3) 0 = 3" "(next_idx ^^ 4) 0 = 4"
  by code_simp+

definition demo_read_frames :: "u8 list option script" where
  "demo_read_frames = script_of [Some (answer 1 (enc16 0) 1), Some (answer 2 [0, 0, 0, 0, 0, 0] 1),
     Some (answer 3 (enc16 0x40) 1), Some (answer 4 [1, 2, 3, 4, 5, 6, 7, 8] 1)] None"

definition demo_wire :: "u8 list option script \<Rightarrow> ecx_context" where
  "demo_wire fs = demo_context ((demo_port [])\<lparr>prim := (demo_stack [])\<lparr>rxscript := fs\<rparr>\<rparr>) []"

lemma demo_wire_rests: "(\<And>n bs. fs n = Some bs \<Longrightarrow> frame_ok bs) \<Longrightarrow> ctx_inv (demo_wire fs) \<and> at_rest 0 fs (port (demo_wire fs))"
  using ctx_inv_wire [OF demo_wire_def, of fs] by (auto simp: rests_def dest: talks_inv)

theorem readeepromFP_reads_witness:
  "\<exists>c'. ecx_readeepromFP 0x1001 4 20000 (demo_wire demo_read_frames) = Some (0x0807060504030201, c')"
proof -
  let ?d = "[1, 2, 3, 4, 5, 6, 7, 8] :: u8 list"
  have ok: "frame_ok bs" if "demo_read_frames n = Some bs" for n bs
    using that range_script_of [OF rangeI, of _ _ n] by (auto simp: demo_read_frames_def script_of_def less_Suc_eq answer_frame_ok split: if_splits)
  have "fp.read_script 0 0x40 ?d demo_read_frames"
    unfolding fp.read_script_def demo_indices
    by (rule exI [of _ 0], rule exI [of _ 1], rule exI [of _ "[0, 0, 0, 0, 0, 0]"], (rule exI [of _ 1])+)
      (simp add: demo_read_frames_def script_of_def)
  from readeepromFP_reads [OF _ _ this, where c = "demo_wire demo_read_frames" and configadr = "0x1001" and eeproma = 4 and timeout = 20000] demo_wire_rests [OF ok]
  have "returns (ecx_readeepromFP 0x1001 4 20000 (demo_wire demo_read_frames)) (\<lambda>(e, c'). e = dec64 ?d)"
    by (auto elim!: returns_mono)
  moreover have "dec64 ?d = 0x0807060504030201" by code_simp
  ultimately show ?thesis by (auto simp: returns_iff)
qed

text \<open>
  On a wire where nothing answers a write to the EEPROM reports success: the status stays
  at its initial 0, which reads as idle and acknowledged, and the negative work counter of the
  lost command passes the test \<^verbatim>\<open>if (wkc)\<close>.
\<close>

theorem writeeepromFP_silent_success:
  assumes "ctx_inv c" "silent (port c)"
  shows "returns (ecx_writeeepromFP configadr eeproma data timeout c) (\<lambda>(r, d). r = 1 \<and> talks c d)"
  unfolding ecx_writeeepromFP_def by (rule fp.writeeeprom_silent [OF assms])

theorem writeeepromFP_silent_success_witness:
  "\<exists>d. ecx_writeeepromFP 0x1001 4 0xabcd 20000 (demo_context (demo_port []) []) = Some (1, d)"
proof -
  have "silent (port (demo_context (demo_port []) []))"
    by (simp add: silent_def demo_context_def demo_port_def demo_stack_def)
  from writeeepromFP_silent_success [OF ctx_inv_demo [OF port_inv_demo_nil] this, where configadr = "0x1001" and eeproma = 4 and data = "0xabcd" and timeout = 20000]
  show ?thesis by (auto simp: returns_iff)
qed


definition demo_lost_frames :: "u8 list option script" where
  "demo_lost_frames n = Some (if n = 0 then answer 1 (enc16 0) 1 else if n = 1 then answer 2 [0, 0, 0, 0, 0, 0] 1
     else if n = 2 then answer 3 (enc16 0x2000) 1 else answer ((next_idx ^^ (n + 1)) 0) [0, 0, 0, 0, 0, 0] 0)"


end
