(* ===== verification/Sii.thy ===== *)
theory Sii
  imports Eeprom
begin

text \<open>
  The slave information in the EEPROM, \<^verbatim>\<open>soem/ethercatmain.c\<close>: the cache of bytes, the
  search for a category, and the categories the master reads (strings, FMMUs, sync managers,
  process data objects). Addresses are 16-bit numbers that wrap around, as \<^verbatim>\<open>int16\<close> and
  \<^verbatim>\<open>uint16\<close> do in the code.
\<close>

abbreviation ECT_SII_STRING :: u16 where "ECT_SII_STRING \<equiv> 10"
abbreviation ECT_SII_FMMU :: u16 where "ECT_SII_FMMU \<equiv> 40"
abbreviation ECT_SII_SM :: u16 where "ECT_SII_SM \<equiv> 41"
abbreviation ECT_SII_PDO :: u16 where "ECT_SII_PDO \<equiv> 50"

record ec_eepromFMMU =
  f_Startpos :: u16
  f_nFMMU :: u8
  f_FMMU0 :: u8
  f_FMMU1 :: u8
  f_FMMU2 :: u8
  f_FMMU3 :: u8

record ec_eepromSM =
  m_Startpos :: u16
  m_nSM :: u8
  m_PhStart :: u16
  m_Plength :: u16
  m_Creg :: u8
  m_Sreg :: u8
  m_Activate :: u8
  m_PDIctrl :: u8

record ec_eepromPDO =
  p_Startpos :: u16
  p_Length :: u16
  p_nPDO :: u16
  p_Index :: "nat \<Rightarrow> u16"
  p_SyncM :: "nat \<Rightarrow> u16"
  p_BitSize :: "nat \<Rightarrow> u16"
  p_SMbitsize :: "nat \<Rightarrow> u16"

section \<open>The cache\<close>

definition sii_cached :: "ecx_context \<Rightarrow> u16 \<Rightarrow> bool" where
  "sii_cached c a \<longleftrightarrow> bit (esimap c (unat (drop_bit 5 a))) (unat (a - push_bit 5 (drop_bit 5 a)))"

text \<open>Marking \<open>cnt\<close> bytes in the bit map, from bit \<open>mapb\<close> of word \<open>mapw\<close>.\<close>

primrec sii_mark :: "nat \<Rightarrow> nat \<Rightarrow> nat \<Rightarrow> (nat \<Rightarrow> u32) \<Rightarrow> (nat \<Rightarrow> u32) option" where
  "sii_mark 0 mapw mapb m = Some m"
| "sii_mark (Suc cnt) mapw mapb m = do {
     chk (mapw < EC_MAXEEPBITMAP);
     let m = m(mapw := m mapw OR push_bit mapb 1);
     if mapb + 1 > 31 then sii_mark cnt (mapw + 1) 0 m else sii_mark cnt mapw (mapb + 1) m
   }"

text \<open>Filling the cache with the bytes a read of the EEPROM delivered.\<close>

definition sii_fill :: "u16 \<Rightarrow> u8 list \<Rightarrow> ecx_context \<Rightarrow> ecx_context option" where
  "sii_fill eadr bytes c = do {
     let base = unat (push_bit 1 eadr);
     chk (base + length bytes \<le> EC_MAXEEPBUF);
     let mapw = drop_bit 4 eadr;
     m \<leftarrow> sii_mark (length bytes) (unat mapw) (unat (push_bit 1 eadr - push_bit 5 mapw)) (esimap c);
     Some (c\<lparr>esibuf := blit_list (esibuf c) base bytes, esimap := m\<rparr>)
   }"

text \<open>The cache belongs to one slave, and is emptied for another one.\<close>

definition sii_select :: "u16 \<Rightarrow> ecx_context \<Rightarrow> ecx_context" where
  "sii_select slave c = (if slave \<noteq> esislave c
     then c\<lparr>esimap := (\<lambda>i. if i < EC_MAXEEPBITMAP then 0 else esimap c i), esislave := slave\<rparr> else c)"

definition ecx_siigetbyte :: "u16 \<Rightarrow> u16 \<Rightarrow> ecx_context \<Rightarrow> (u8 \<times> ecx_context) option" where
  "ecx_siigetbyte slave address c = do {
     let c = sii_select slave c;
     if unat address < EC_MAXEEPBUF then
       if sii_cached c address then Some (esibuf c (unat address), c)
       else do {
         s \<leftarrow> get_slave slave c;
         (_, c) \<leftarrow> ecx_eeprom2master slave c;
         let eadr = drop_bit 1 address;
         (edat64, c) \<leftarrow> ecx_readeepromFP (s_configadr s) eadr EC_TIMEOUTEEP c;
         s \<leftarrow> get_slave slave c;
         c \<leftarrow> sii_fill eadr (if s_eep_8byte s \<noteq> 0 then enc64 edat64 else enc32 (ucast edat64)) c;
         Some (esibuf c (unat address), c)
       }
     else Some (0xff, c)
   }"

text \<open>\<^verbatim>\<open>p = ecx_siigetbyte(context, slave, a++); p += (ecx_siigetbyte(context, slave, a++) << 8);\<close>\<close>

definition sii_word :: "u16 \<Rightarrow> u16 \<Rightarrow> ecx_context \<Rightarrow> (u16 \<times> ecx_context) option" where
  "sii_word slave a c = do {
     (lo, c) \<leftarrow> ecx_siigetbyte slave a c;
     (hi, c) \<leftarrow> ecx_siigetbyte slave (a + 1) c;
     Some (mk16 lo hi, c)
   }"

text \<open>\<^verbatim>\<open>if (eectl) ecx_eeprom2pdi(context, slave)\<close> at the end of the functions below.\<close>

definition sii_done :: "u8 \<Rightarrow> u16 \<Rightarrow> ecx_context \<Rightarrow> ecx_context option" where
  "sii_done eectl slave c =
     (if eectl \<noteq> 0 then do { (_, c) \<leftarrow> ecx_eeprom2pdi slave c; Some c } else Some c)"

section \<open>Searching a category\<close>

definition siifind_body :: "u16 \<Rightarrow> u16 \<times> u16 \<times> ecx_context \<Rightarrow> (u16 \<times> u16 \<times> ecx_context) option" where
  "siifind_body slave = (\<lambda>(a, _, c). do {
     (l, c) \<leftarrow> sii_word slave a c;
     let a = a + 2 + push_bit 1 l;
     (p, c) \<leftarrow> sii_word slave a c;
     Some (a + 2, p, c)
   })"

definition ecx_siifind :: "u16 \<Rightarrow> u16 \<Rightarrow> ecx_context \<Rightarrow> (u16 \<times> ecx_context) option" where
  "ecx_siifind slave cat c = do {
     s \<leftarrow> get_slave slave c;
     let a = push_bit 1 ECT_SII_START;
     (p, c) \<leftarrow> sii_word slave a c;
     (a, p, c) \<leftarrow> while_loop (\<lambda>(_, p, _). p \<noteq> cat \<and> p \<noteq> 0xffff) (siifind_body slave) (a + 2, p, c);
     c \<leftarrow> sii_done (s_eep_pdi s) slave c;
     Some (if p \<noteq> cat then 0 else a, c)
   }"

section \<open>Strings\<close>

text \<open>Skipping strings: each is a length byte and that many characters.\<close>

primrec sii_skip :: "nat \<Rightarrow> u16 \<Rightarrow> u16 \<Rightarrow> ecx_context \<Rightarrow> (u16 \<times> ecx_context) option" where
  "sii_skip 0 slave ba c = Some (ba, c)"
| "sii_skip (Suc n) slave ba c = do {
     (l, c) \<leftarrow> ecx_siigetbyte slave ba c;
     sii_skip n slave (ba + 1 + ucast l) c
   }"

primrec sii_chars :: "nat \<Rightarrow> u16 \<Rightarrow> u16 \<Rightarrow> ecx_context \<Rightarrow> (u8 list \<times> ecx_context) option" where
  "sii_chars 0 slave ba c = Some ([], c)"
| "sii_chars (Suc n) slave ba c = do {
     (ch, c) \<leftarrow> ecx_siigetbyte slave ba c;
     (str, c) \<leftarrow> sii_chars n slave (ba + 1) c;
     Some (ch # str, c)
   }"

text \<open>The bytes written to the caller's \<^verbatim>\<open>str\<close>; \<open>None\<close> when it is left alone.\<close>

definition ecx_siistring :: "u16 \<Rightarrow> u16 \<Rightarrow> ecx_context \<Rightarrow> (u8 list option \<times> ecx_context) option" where
  "ecx_siistring slave Sn c = do {
     s \<leftarrow> get_slave slave c;
     (a, c) \<leftarrow> ecx_siifind slave ECT_SII_STRING c;
     (str, c) \<leftarrow> (if a > 0 then do {
         let ba = a + 2;
         (n, c) \<leftarrow> ecx_siigetbyte slave ba c;
         if Sn \<le> ucast n then
           if Sn = 0 then Some (Some [0], c)
           else do {
             (ba, c) \<leftarrow> sii_skip (unat Sn - 1) slave (ba + 1) c;
             (l, c) \<leftarrow> ecx_siigetbyte slave ba c;
             (str, c) \<leftarrow> sii_chars (min (unat l) EC_MAXNAME) slave (ba + 1) c;
             Some (Some (str @ [0]), c)
           }
         else Some (Some [0], c)
       } else Some (None, c));
     c \<leftarrow> sii_done (s_eep_pdi s) slave c;
     Some (str, c)
   }"

section \<open>FMMUs and sync managers\<close>

definition ecx_siiFMMU :: "u16 \<Rightarrow> ecx_context \<Rightarrow> (ec_eepromFMMU \<times> ecx_context) option" where
  "ecx_siiFMMU slave c = do {
     s \<leftarrow> get_slave slave c;
     (a, c) \<leftarrow> ecx_siifind slave ECT_SII_FMMU c;
     let F = \<lparr>f_Startpos = a, f_nFMMU = 0, f_FMMU0 = 0, f_FMMU1 = 0, f_FMMU2 = 0, f_FMMU3 = 0\<rparr>;
     (F, c) \<leftarrow> (if a > 0 then do {
         (lo, c) \<leftarrow> ecx_siigetbyte slave a c;
         (hi, c) \<leftarrow> ecx_siigetbyte slave (a + 1) c;
         let n = (lo + ucast (push_bit 8 (ucast hi :: u16))) * 2;
         (f0, c) \<leftarrow> ecx_siigetbyte slave (a + 2) c;
         (f1, c) \<leftarrow> ecx_siigetbyte slave (a + 3) c;
         let F = F\<lparr>f_nFMMU := n, f_FMMU0 := f0, f_FMMU1 := f1\<rparr>;
         if n > 2 then do {
           (f2, c) \<leftarrow> ecx_siigetbyte slave (a + 4) c;
           (f3, c) \<leftarrow> ecx_siigetbyte slave (a + 5) c;
           Some (F\<lparr>f_FMMU2 := f2, f_FMMU3 := f3\<rparr>, c)
         } else Some (F, c)
       } else Some (F, c));
     c \<leftarrow> sii_done (s_eep_pdi s) slave c;
     Some (F, c)
   }"

text \<open>The eight bytes of one sync manager.\<close>

definition sii_sm_entry :: "u16 \<Rightarrow> u16 \<Rightarrow> ec_eepromSM \<Rightarrow> ecx_context \<Rightarrow> (ec_eepromSM \<times> ecx_context) option" where
  "sii_sm_entry slave a SM c = do {
     (ph, c) \<leftarrow> sii_word slave a c;
     (pl, c) \<leftarrow> sii_word slave (a + 2) c;
     (cr, c) \<leftarrow> ecx_siigetbyte slave (a + 4) c;
     (sr, c) \<leftarrow> ecx_siigetbyte slave (a + 5) c;
     (ac, c) \<leftarrow> ecx_siigetbyte slave (a + 6) c;
     (pd, c) \<leftarrow> ecx_siigetbyte slave (a + 7) c;
     Some (SM\<lparr>m_PhStart := ph, m_Plength := pl, m_Creg := cr, m_Sreg := sr, m_Activate := ac, m_PDIctrl := pd\<rparr>, c)
   }"

definition ecx_siiSM :: "u16 \<Rightarrow> ec_eepromSM \<Rightarrow> ecx_context \<Rightarrow> (ec_eepromSM \<times> ecx_context) option" where
  "ecx_siiSM slave SM c = do {
     s \<leftarrow> get_slave slave c;
     (a, c) \<leftarrow> ecx_siifind slave ECT_SII_SM c;
     let SM = SM\<lparr>m_nSM := 0, m_Startpos := a\<rparr>;
     (SM, c) \<leftarrow> (if a > 0 then do {
         (w, c) \<leftarrow> sii_word slave a c;
         sii_sm_entry slave (a + 2) (SM\<lparr>m_nSM := ucast (w div 4)\<rparr>) c
       } else Some (SM, c));
     c \<leftarrow> sii_done (s_eep_pdi s) slave c;
     Some (SM, c)
   }"

definition ecx_siiSMnext :: "u16 \<Rightarrow> ec_eepromSM \<Rightarrow> u16 \<Rightarrow> ecx_context \<Rightarrow> (u16 \<times> ec_eepromSM \<times> ecx_context) option" where
  "ecx_siiSMnext slave SM n c = do {
     s \<leftarrow> get_slave slave c;
     (r, SM, c) \<leftarrow> (if n < ucast (m_nSM SM) then do {
         (SM, c) \<leftarrow> sii_sm_entry slave (m_Startpos SM + 2 + n * 8) SM c;
         Some (1, SM, c)
       } else Some (0, SM, c));
     c \<leftarrow> sii_done (s_eep_pdi s) slave c;
     Some (r, SM, c)
   }"

section \<open>Process data objects\<close>

text \<open>The entries of one PDO, eight bytes each, with the length in bits at offset 5.\<close>

primrec sii_pdo_entries :: "nat \<Rightarrow> u16 \<Rightarrow> u16 \<Rightarrow> u16 \<Rightarrow> ecx_context \<Rightarrow> (u16 \<times> ecx_context) option" where
  "sii_pdo_entries 0 slave a bits c = Some (bits, c)"
| "sii_pdo_entries (Suc n) slave a bits c = do {
     (l, c) \<leftarrow> ecx_siigetbyte slave (a + 5) c;
     sii_pdo_entries n slave (a + 8) (bits + ucast l) c
   }"

text \<open>One PDO; the state is the result, the address, the words counted, and the size in bits.\<close>

definition siiPDO_body :: "u16 \<Rightarrow> ec_eepromPDO \<times> u16 \<times> u16 \<times> u16 \<times> ecx_context \<Rightarrow>
    ((ec_eepromPDO \<times> u16 \<times> u16 \<times> u16 \<times> ecx_context) \<times> bool) option" where
  "siiPDO_body slave = (\<lambda>(P, a, cnt, Size, c). do {
     let n = p_nPDO P + 1;
     let i = unat n;
     chk (i < EC_MAXEEPDO);
     (ix, c) \<leftarrow> sii_word slave a c;
     (e, c) \<leftarrow> ecx_siigetbyte slave (a + 2) c;
     (sm, c) \<leftarrow> ecx_siigetbyte slave (a + 3) c;
     let P = P\<lparr>p_nPDO := n, p_Index := (p_Index P)(i := ix), p_BitSize := (p_BitSize P)(i := 0),
              p_SyncM := (p_SyncM P)(i := ucast sm)\<rparr>;
     (P, Size, c) \<leftarrow> (if unat sm < EC_MAXSM then do {
         (bits, c) \<leftarrow> sii_pdo_entries (unat e) slave (a + 8) 0 c;
         Some (P\<lparr>p_BitSize := (p_BitSize P)(i := bits),
                p_SMbitsize := (p_SMbitsize P)(unat sm := p_SMbitsize P (unat sm) + bits)\<rparr>, Size + bits, c)
       } else Some (P, Size, c));
     let cnt = (if unat n \<ge> EC_MAXEEPDO - 1 then p_Length P else cnt + 4 + 4 * ucast e);
     Some ((P, a + 8 + 8 * ucast e, cnt, Size, c), cnt < p_Length P)
   })"

definition ecx_siiPDO :: "u16 \<Rightarrow> ec_eepromPDO \<Rightarrow> u8 \<Rightarrow> ecx_context \<Rightarrow> (u16 \<times> ec_eepromPDO \<times> ecx_context) option" where
  "ecx_siiPDO slave PDO t c = do {
     s \<leftarrow> get_slave slave c;
     let t = (if t > 1 then 1 else t);
     (a, c) \<leftarrow> ecx_siifind slave (ECT_SII_PDO + ucast t) c;
     let P = PDO\<lparr>p_nPDO := 0, p_Length := 0, p_Index := (p_Index PDO)(1 := 0),
               p_SMbitsize := (\<lambda>i. if i < EC_MAXSM then 0 else p_SMbitsize PDO i), p_Startpos := a\<rparr>;
     (P, Size, c) \<leftarrow> (if a > 0 then do {
         (w, c) \<leftarrow> sii_word slave a c;
         (P, _, _, Size, c) \<leftarrow> do_while (siiPDO_body slave) (P\<lparr>p_Length := w\<rparr>, a + 2, 1, 0, c);
         Some (P, Size, c)
       } else Some (P, 0, c));
     c \<leftarrow> sii_done (s_eep_pdi s) slave c;
     Some (Size, P, c)
   }"

section \<open>The bit map\<close>

lemma unat_line: "unat (drop_bit n (a :: u16)) = unat a div 2 ^ n"
  using unat_drop_bit_eq [of n a] by (simp only: drop_bit_eq_div)

lemma unat_take_bit: "unat (take_bit n (a :: u16)) = unat a mod 2 ^ n"
proof -
  have "unat (take_bit n a) = take_bit n (unat a)" by (rule unsigned_take_bit_eq)
  then show ?thesis by (simp only: take_bit_eq_mod)
qed

lemma unat_offset: "unat (a - push_bit n (drop_bit n (a :: u16))) = unat a mod 2 ^ n"
proof -
  have "a - push_bit n (drop_bit n a) = take_bit n a"
    using bits_ident [of n a] by (simp add: algebra_simps)
  then show ?thesis by (simp only: unat_take_bit)
qed

lemma sii_cached_iff: "sii_cached c a \<longleftrightarrow> bit (esimap c (unat a div 32)) (unat a mod 32)"
  unfolding sii_cached_def unat_offset unat_line by simp

lemma unat_even: "unat (push_bit 1 (drop_bit 1 (a :: u16))) = 2 * (unat a div 2)"
proof -
  have "push_bit 1 (drop_bit 1 a) = a - take_bit 1 a"
    using bits_ident [of 1 a] by (simp add: algebra_simps)
  moreover have "take_bit 1 a \<le> a" by (simp only: word_le_nat_alt unat_take_bit power_one_right mod_less_eq_dividend)
  ultimately have "unat (push_bit 1 (drop_bit 1 a)) = unat a - unat a mod 2"
    by (simp only: unat_sub unat_take_bit power_one_right)
  then show ?thesis by (simp add: minus_mod_eq_mult_div)
qed

lemma sii_mark_returns:
  "mapb < 32 \<Longrightarrow> 32 * mapw + mapb + cnt \<le> EC_MAXEEPBUF \<Longrightarrow>
     returns (sii_mark cnt mapw mapb m) (\<lambda>m'. \<forall>k<EC_MAXEEPBUF. bit (m' (k div 32)) (k mod 32) \<longleftrightarrow>
       bit (m (k div 32)) (k mod 32) \<or> 32 * mapw + mapb \<le> k \<and> k < 32 * mapw + mapb + cnt)"
proof (induction cnt arbitrary: mapw mapb m)
  case (Suc cnt)
  let ?m = "m(mapw := m mapw OR push_bit mapb 1)"
  have w: "mapw < EC_MAXEEPBITMAP" using Suc.prems by linarith
  have one: "bit (?m (k div 32)) (k mod 32) \<longleftrightarrow> bit (m (k div 32)) (k mod 32) \<or> k = 32 * mapw + mapb" for k
  proof (cases "k div 32 = mapw")
    case True
    have "bit (push_bit mapb 1 :: u32) (k mod 32) \<longleftrightarrow> k mod 32 = mapb"
      using Suc.prems(1) by (auto simp: bit_simps)
    moreover have "k mod 32 = mapb \<longleftrightarrow> k = 32 * mapw + mapb"
    proof -
      have "(32 * mapw + mapb) mod 32 = mapb" using Suc.prems(1) by simp
      moreover have "32 * mapw + k mod 32 = k" using mult_div_mod_eq [of 32 k] True by simp
      ultimately show ?thesis by metis
    qed
    ultimately show ?thesis using True by (simp add: bit_or_iff)
  next
    case False
    then have "k \<noteq> 32 * mapw + mapb" using Suc.prems(1) by auto
    with False show ?thesis by simp
  qed
  show ?case
  proof (cases "mapb = 31")
    case True
    have "returns (sii_mark cnt (mapw + 1) 0 ?m) (\<lambda>m'. \<forall>k<EC_MAXEEPBUF. bit (m' (k div 32)) (k mod 32) \<longleftrightarrow>
        bit (?m (k div 32)) (k mod 32) \<or> 32 * (mapw + 1) + 0 \<le> k \<and> k < 32 * (mapw + 1) + 0 + cnt)"
      by (rule Suc.IH) (use Suc.prems True in simp_all)
    then have "returns (sii_mark cnt (mapw + 1) 0 ?m) (\<lambda>m'. \<forall>k<EC_MAXEEPBUF. bit (m' (k div 32)) (k mod 32) \<longleftrightarrow>
        bit (m (k div 32)) (k mod 32) \<or> 32 * mapw + mapb \<le> k \<and> k < 32 * mapw + mapb + Suc cnt)"
      by (rule returns_mono) (unfold one, use True in auto)
    with w True show ?thesis by simp
  next
    case False
    have "returns (sii_mark cnt mapw (mapb + 1) ?m) (\<lambda>m'. \<forall>k<EC_MAXEEPBUF. bit (m' (k div 32)) (k mod 32) \<longleftrightarrow>
        bit (?m (k div 32)) (k mod 32) \<or> 32 * mapw + (mapb + 1) \<le> k \<and> k < 32 * mapw + (mapb + 1) + cnt)"
      by (rule Suc.IH) (use Suc.prems False in simp_all)
    then have "returns (sii_mark cnt mapw (mapb + 1) ?m) (\<lambda>m'. \<forall>k<EC_MAXEEPBUF. bit (m' (k div 32)) (k mod 32) \<longleftrightarrow>
        bit (m (k div 32)) (k mod 32) \<or> 32 * mapw + mapb \<le> k \<and> k < 32 * mapw + mapb + Suc cnt)"
      by (rule returns_mono) (unfold one, auto)
    with w False Suc.prems(1) show ?thesis by simp
  qed
qed auto

lemma sii_fill_returns:
  assumes "2 * (unat a div 2) + length bytes \<le> EC_MAXEEPBUF"
  shows "returns (sii_fill (drop_bit 1 a) bytes c) (\<lambda>d.
    (\<exists>m. d = c\<lparr>esibuf := blit_list (esibuf c) (2 * (unat a div 2)) bytes, esimap := m\<rparr>) \<and>
    (\<forall>b. unat b < EC_MAXEEPBUF \<longrightarrow> (sii_cached d b \<longleftrightarrow>
       sii_cached c b \<or> 2 * (unat a div 2) \<le> unat b \<and> unat b < 2 * (unat a div 2) + length bytes)))"
proof -
  let ?e = "push_bit 1 (drop_bit 1 a)" and ?n = "2 * (unat a div 2)"
  have line: "drop_bit 4 (drop_bit 1 a) = drop_bit 5 ?e"
    by (rule bit_word_eqI) (auto simp: bit_simps ac_simps dest: bit_imp_le_length)
  have start: "32 * unat (drop_bit 5 ?e) + unat (?e - push_bit 5 (drop_bit 5 ?e)) = ?n"
  proof -
    have "(2 :: nat) ^ 5 = 32" by simp
    then show ?thesis unfolding unat_offset unat_line unat_even by (simp only: mult_div_mod_eq)
  qed
  have "unat (?e - push_bit 5 (drop_bit 5 ?e)) < 32" unfolding unat_offset by simp
  from sii_mark_returns [OF this, of "unat (drop_bit 5 ?e)" "length bytes" "esimap c"] assms
  obtain m where m: "sii_mark (length bytes) (unat (drop_bit 5 ?e)) (unat (?e - push_bit 5 (drop_bit 5 ?e))) (esimap c) = Some m"
      "\<And>k. k < EC_MAXEEPBUF \<Longrightarrow> bit (m (k div 32)) (k mod 32) \<longleftrightarrow> bit (esimap c (k div 32)) (k mod 32) \<or> ?n \<le> k \<and> k < ?n + length bytes"
    unfolding returns_iff start by auto
  from m(1) have "sii_fill (drop_bit 1 a) bytes c = Some (c\<lparr>esibuf := blit_list (esibuf c) ?n bytes, esimap := m\<rparr>)"
    using assms unfolding sii_fill_def Let_def line unat_even by simp
  with m(2) show ?thesis
    by (auto simp: sii_cached_iff)
qed

section \<open>Interface: the information of a slave as a memory\<close>

text \<open>
  What the parsers of the categories rely on: in the states \<open>I\<close> every address of \<open>ok\<close> can be
  read and holds the byte \<open>rom\<close>, and the EEPROM is under the control of the master.
\<close>

locale sii_rom =
  fixes slave :: u16 and rom :: "u16 \<Rightarrow> u8" and ok :: "u16 \<Rightarrow> bool" and I :: "ecx_context \<Rightarrow> bool"
  assumes getbyte: "I c \<Longrightarrow> ok a \<Longrightarrow> returns (ecx_siigetbyte slave a c) (\<lambda>(b, d). b = rom a \<and> I d)"
    and control: "I c \<Longrightarrow> \<exists>s. get_slave slave c = Some s \<and> s_eep_pdi s = 0"
begin

definition romw :: "u16 \<Rightarrow> u16" where
  "romw a = mk16 (rom a) (rom (a + 1))"

definition okw :: "u16 \<Rightarrow> bool" where
  "okw a \<longleftrightarrow> ok a \<and> ok (a + 1)"

lemma getbyteE:
  assumes "I c" "ok a"
  obtains d where "ecx_siigetbyte slave a c = Some (rom a, d)" "I d"
  using getbyte [OF assms] by (auto simp: returns_iff)

lemma wordE:
  assumes "I c" "okw a"
  obtains d where "sii_word slave a c = Some (romw a, d)" "I d"
proof -
  have o: "ok a" "ok (a + 1)" using assms(2) by (simp_all add: okw_def)
  obtain d where d: "ecx_siigetbyte slave a c = Some (rom a, d)" "I d" by (rule getbyteE [OF assms(1) o(1)])
  obtain e where "ecx_siigetbyte slave (a + 1) d = Some (rom (a + 1), e)" "I e" by (rule getbyteE [OF d(2) o(2)])
  with d(1) that show thesis by (simp add: sii_word_def romw_def)
qed

text \<open>
  The chain of categories: from the address of a category word to the address behind it
  where the category is found, or to 0 where the chain ends.
\<close>

inductive section_at :: "u16 \<Rightarrow> u16 \<Rightarrow> u16 \<Rightarrow> bool" for cat where
  found: "okw a \<Longrightarrow> romw a = cat \<Longrightarrow> section_at cat a (a + 2)"
| ended: "okw a \<Longrightarrow> romw a = 0xffff \<Longrightarrow> cat \<noteq> 0xffff \<Longrightarrow> section_at cat a 0"
| skipped: "okw a \<Longrightarrow> romw a \<noteq> cat \<Longrightarrow> romw a \<noteq> 0xffff \<Longrightarrow> okw (a + 2) \<Longrightarrow>
     section_at cat (a + 4 + push_bit 1 (romw (a + 2))) r \<Longrightarrow> section_at cat a r"

lemma siifind_loop:
  "section_at cat a r \<Longrightarrow> I c \<Longrightarrow>
     \<exists>b p d. while_loop (\<lambda>(_, p, _). p \<noteq> cat \<and> p \<noteq> 0xffff) (siifind_body slave) (a + 2, romw a, c) = Some (b, p, d) \<and>
       I d \<and> r = (if p \<noteq> cat then 0 else b)"
proof (induction arbitrary: c rule: section_at.induct)
  case (skipped a r)
  let ?a = "a + 4 + push_bit 1 (romw (a + 2))"
  obtain d where d: "sii_word slave (a + 2) c = Some (romw (a + 2), d)" "I d"
    by (rule wordE [OF skipped.prems skipped.hyps(4)])
  have "okw ?a" using skipped.hyps(5) by (cases rule: section_at.cases) simp_all
  then obtain e where e: "sii_word slave ?a d = Some (romw ?a, e)" "I e"
    by (rule wordE [OF d(2)])
  have "siifind_body slave (a + 2, romw a, c) = Some (?a + 2, romw ?a, e)"
    using d(1) e(1) by (simp add: siifind_body_def algebra_simps)
  with skipped.IH [OF e(2)] show ?case
    by (subst while_loop_step) (use skipped.hyps in auto)
qed auto

lemma sii_done_0 [simp]: "sii_done 0 slave c = Some c"
  by (simp add: sii_done_def)

lemma siifind:
  assumes "section_at cat (push_bit 1 ECT_SII_START) r" "I c"
  shows "returns (ecx_siifind slave cat c) (\<lambda>(a, d). a = r \<and> I d)"
proof -
  obtain s where s: "get_slave slave c = Some s" "s_eep_pdi s = 0" using control [OF assms(2)] by blast
  have "okw (push_bit 1 ECT_SII_START)" using assms(1) by (cases rule: section_at.cases) simp_all
  then obtain d where d: "sii_word slave (push_bit 1 ECT_SII_START) c = Some (romw (push_bit 1 ECT_SII_START), d)" "I d"
    by (rule wordE [OF assms(2)])
  from siifind_loop [OF assms(1) d(2)] d(1) s show ?thesis
    by (auto simp: ecx_siifind_def)
qed

text \<open>A section whose length leads back to itself keeps the search going for ever.\<close>

lemma siifind_cycle:
  assumes start: "I c" "okw (push_bit 1 ECT_SII_START)" "okw (push_bit 1 ECT_SII_START + 2)"
    and cyc: "romw (push_bit 1 ECT_SII_START) \<notin> {cat, 0xffff}" "romw (push_bit 1 ECT_SII_START + 2) = 0x7ffe"
  shows "ecx_siifind slave cat c = None"
proof -
  let ?a = "push_bit 1 ECT_SII_START"
  obtain s where s: "get_slave slave c = Some s" using control [OF start(1)] by blast
  obtain d where d: "sii_word slave ?a c = Some (romw ?a, d)" "I d" by (rule wordE [OF start(1,2)])
  have "ensures (while_loop (\<lambda>(_, p, _). p \<noteq> cat \<and> p \<noteq> 0xffff) (siifind_body slave) (?a + 2, romw ?a, d))
      (\<lambda>x. (case x of (b, p, e) \<Rightarrow> b = ?a + 2 \<and> p = romw ?a \<and> I e) \<and> \<not> (case x of (_, p, _) \<Rightarrow> p \<noteq> cat \<and> p \<noteq> 0xffff))"
  proof (rule while_loop_ensures)
    fix x :: "u16 \<times> u16 \<times> ecx_context"
    assume x: "case x of (b, p, e) \<Rightarrow> b = ?a + 2 \<and> p = romw ?a \<and> I e"
    obtain e where [simp]: "x = (?a + 2, romw ?a, e)" and e: "I e" using x by (cases x) auto
    obtain f where f: "sii_word slave (?a + 2) e = Some (0x7ffe, f)" "I f"
      using wordE [OF e start(3)] cyc(2) by metis
    obtain g where g: "sii_word slave ?a f = Some (romw ?a, g)" "I g" by (rule wordE [OF f(2) start(2)])
    have wrap: "(0x10080 :: u16) = 0x80" by simp
    show "ensures (siifind_body slave x) (\<lambda>x. case x of (b, p, e) \<Rightarrow> b = ?a + 2 \<and> p = romw ?a \<and> I e)"
      using f(1) g by (simp add: siifind_body_def wrap)
  qed (use d(2) in simp)
  then have "while_loop (\<lambda>(_, p, _). p \<noteq> cat \<and> p \<noteq> 0xffff) (siifind_body slave) (?a + 2, romw ?a, d) = None"
    using cyc(1) by (cases "while_loop (\<lambda>(_, p, _). p \<noteq> cat \<and> p \<noteq> 0xffff) (siifind_body slave) (?a + 2, romw ?a, d)") auto
  with s d(1) show ?thesis by (simp add: ecx_siifind_def)
qed

end

section \<open>The cache implements it\<close>

definition rom_bytes :: "(u16 \<Rightarrow> u8) \<Rightarrow> u16 \<Rightarrow> nat \<Rightarrow> u8 list" where
  "rom_bytes rom ea w = map (\<lambda>i. rom (push_bit 1 ea + of_nat i)) [0 ..< w]"

lemma length_rom_bytes [simp]: "length (rom_bytes rom ea w) = w"
  by (simp add: rom_bytes_def)

lemma rom_bytes_nth: "i < w \<Longrightarrow> rom_bytes rom ea w ! i = rom (push_bit 1 ea + of_nat i)"
  by (simp add: rom_bytes_def)

text \<open>
  A port on which the slave at \<open>adr\<close> answers every read of its EEPROM, now and after every
  read, with \<open>w\<close> bytes of its content \<open>rom\<close>.
\<close>

coinductive serves :: "(u16 \<Rightarrow> u8) \<Rightarrow> nat \<Rightarrow> u16 \<Rightarrow> ecx_port \<Rightarrow> bool" for rom w adr where
  serves: "(\<And>ea c. port c = p \<Longrightarrow> ctx_inv c \<Longrightarrow> 2 * unat ea + w \<le> EC_MAXEEPBUF \<Longrightarrow> \<exists>e q. ecx_readeepromFP adr ea EC_TIMEOUTEEP c = Some (e, c\<lparr>port := q\<rparr>) \<and>
      port_ok p q \<and> take w (enc64 e) = rom_bytes rom ea w \<and> serves rom w adr q) \<Longrightarrow> serves rom w adr p"

lemma servesE:
  assumes "serves rom w adr (port c)" "ctx_inv c" "2 * unat ea + w \<le> EC_MAXEEPBUF"
  obtains e q where "ecx_readeepromFP adr ea EC_TIMEOUTEEP c = Some (e, c\<lparr>port := q\<rparr>)" "port_ok (port c) q"
    "take w (enc64 e) = rom_bytes rom ea w" "serves rom w adr q"
  using assms by (cases rule: serves.cases) blast

definition reads :: "ecx_context \<Rightarrow> ecx_context \<Rightarrow> bool" where
  "reads c d \<longleftrightarrow> ctx_ok c d \<and> 
     d = c\<lparr>port := port d, esibuf := esibuf d, esimap := esimap d, esislave := esislave d\<rparr>"

text \<open>\<open>K\<close> are addresses known to be in the cache; the others must be far enough from its end.\<close>

definition sii_ok :: "nat \<Rightarrow> u16 set \<Rightarrow> u16 \<Rightarrow> bool" where
  "sii_ok w K a \<longleftrightarrow> EC_MAXEEPBUF \<le> unat a \<or> 2 * (unat a div 2) + w \<le> EC_MAXEEPBUF \<or> a \<in> K"

definition sii_state :: "ecx_context \<Rightarrow> u16 \<Rightarrow> (u16 \<Rightarrow> u8) \<Rightarrow> nat \<Rightarrow> u16 set \<Rightarrow> ecx_context \<Rightarrow> bool" where
  "sii_state c0 slave rom w K c \<longleftrightarrow> reads c0 c \<and>
     (\<exists>s. get_slave slave c = Some s \<and> s_eep_pdi s = 0 \<and> w = (if s_eep_8byte s \<noteq> 0 then 8 else 4) \<and>
        (K = UNIV \<or> serves rom w (s_configadr s) (port c))) \<and>
     (\<forall>a. EC_MAXEEPBUF \<le> unat a \<longrightarrow> rom a = 0xff) \<and>
     (\<forall>a. unat a < EC_MAXEEPBUF \<longrightarrow> sii_cached (sii_select slave c) a \<longrightarrow> esibuf c (unat a) = rom a) \<and>
     (\<forall>a\<in>K. unat a < EC_MAXEEPBUF \<longrightarrow> sii_cached (sii_select slave c) a)"

lemma reads_refl: "ctx_inv c \<Longrightarrow> reads c c"
  by (simp add: reads_def ctx_ok_refl)

lemma reads_trans [trans]: "reads a b \<Longrightarrow> reads b c \<Longrightarrow> reads a c"
  unfolding reads_def by (intro conjI, blast intro: ctx_ok_trans, cases a; cases b; cases c; simp)

lemma reads_inv: "reads a b \<Longrightarrow> ctx_inv b"
  by (auto simp: reads_def dest: ctx_ok_inv)

lemma reads_port: "ctx_inv c \<Longrightarrow> port_ok (port c) q \<Longrightarrow> reads c (c\<lparr>port := q, esibuf := b, esimap := m, esislave := s\<rparr>)"
  unfolding reads_def by (auto simp: ctx_ok_def ctx_inv_def port_ok_def)

lemma sii_select_eq: "sii_select slave c = c\<lparr>esimap := esimap (sii_select slave c), esislave := slave\<rparr>"
  by (simp add: sii_select_def)

lemma sii_select_again [simp]: "esislave c = slave \<Longrightarrow> sii_select slave c = c"
  by (simp add: sii_select_def)

lemma sii_select_slave [simp]: "esislave (sii_select slave c) = slave"
  by (simp add: sii_select_def)

lemma sii_select_get [simp]: "get_slave s (sii_select slave c) = get_slave s c"
  by (simp add: sii_select_def get_slave_def)

lemma sii_select_same [simp]:
  "port (sii_select slave c) = port c" "esibuf (sii_select slave c) = esibuf c"
  by (simp_all add: sii_select_def)

lemma sii_select_reads: "ctx_inv c \<Longrightarrow> reads c (sii_select slave c)"
  using reads_port [of c "port c", where b = "esibuf c" and m = "esimap (sii_select slave c)" and s = slave] sii_select_eq [of slave c]
  by (simp add: ctx_inv_port port_ok_refl)

lemma sii_select_state: "sii_state c0 slave rom w K c \<Longrightarrow> sii_state c0 slave rom w K (sii_select slave c)"
  using sii_select_reads [of c slave] by (auto simp: sii_state_def intro: reads_trans dest: reads_inv)

lemma enc32_take: "enc32 (ucast e) = take 4 (enc64 e)"
  by (simp add: enc64_def)

lemma of_nat_unat_id: "of_nat (unat (b :: u16)) = b"
  by simp

lemma rom_bytes_at:
  assumes "2 * (unat a div 2) \<le> unat b" "unat b < 2 * (unat a div 2) + w"
  shows "rom_bytes rom (drop_bit 1 a) w ! (unat b - 2 * (unat a div 2)) = rom b"
proof -
  have "push_bit 1 (drop_bit 1 a) + of_nat (unat b - 2 * (unat a div 2)) = (of_nat (unat b) :: u16)"
  proof -
    have "push_bit 1 (drop_bit 1 a) = (of_nat (2 * (unat a div 2)) :: u16)"
    proof -
      have "push_bit 1 (drop_bit 1 a) = of_nat (unat (push_bit 1 (drop_bit 1 a)))" by simp
      then show ?thesis by (simp only: unat_even)
    qed
    with assms(1) show ?thesis by (simp only: of_nat_add [symmetric] le_add_diff_inverse)
  qed
  moreover have "unat b - 2 * (unat a div 2) < w" using assms by linarith
  ultimately show ?thesis by (simp only: rom_bytes_nth of_nat_unat_id)
qed

lemma sii_state_getbyte:
  assumes "sii_state c0 slave rom w K c" "sii_ok w K a"
  shows "returns (ecx_siigetbyte slave a c) (\<lambda>(b, d). b = rom a \<and> sii_state c0 slave rom w K d)"
proof -
  define c1 where "c1 = sii_select slave c"
  have st: "sii_state c0 slave rom w K c1" and sl: "esislave c1 = slave"
    using sii_select_state [OF assms(1)] by (simp_all add: c1_def)
  obtain s where s: "get_slave slave c1 = Some s" "s_eep_pdi s = 0" "w = (if s_eep_8byte s \<noteq> 0 then 8 else 4)"
      "K = UNIV \<or> serves rom w (s_configadr s) (port c1)"
    using st unfolding sii_state_def by blast
  have inv: "ctx_inv c1" and r: "reads c0 c1" using st by (auto simp: sii_state_def dest: reads_inv)
  have mem: "\<And>a. unat a < EC_MAXEEPBUF \<Longrightarrow> sii_cached c1 a \<Longrightarrow> esibuf c1 (unat a) = rom a"
    and K: "\<And>a. a \<in> K \<Longrightarrow> unat a < EC_MAXEEPBUF \<Longrightarrow> sii_cached c1 a"
    and out: "\<And>a. EC_MAXEEPBUF \<le> unat a \<Longrightarrow> rom a = 0xff"
    using st sl by (simp_all add: sii_state_def)
  show ?thesis
  proof (cases "unat a < EC_MAXEEPBUF \<and> \<not> sii_cached c1 a")
    case False
    then show ?thesis
      using st mem [of a] out [of a] by (auto simp: ecx_siigetbyte_def c1_def [symmetric] not_less)
  next
    case True
    let ?n = "2 * (unat a div 2)"
    have fits: "?n + w \<le> EC_MAXEEPBUF" using assms(2) True K [of a] by (auto simp: sii_ok_def)
    obtain e q where e: "ecx_readeepromFP (s_configadr s) (drop_bit 1 a) EC_TIMEOUTEEP c1 = Some (e, c1\<lparr>port := q\<rparr>)"
        "port_ok (port c1) q" "take w (enc64 e) = rom_bytes rom (drop_bit 1 a) w" "serves rom w (s_configadr s) q"
    proof -
      have "serves rom w (s_configadr s) (port c1)" using s(4) K [of a] True by auto
      moreover have "2 * unat (drop_bit 1 a) + w \<le> EC_MAXEEPBUF" using fits unat_line [of 1 a] by simp
      ultimately show thesis using servesE [OF _ inv] that by blast
    qed
    let ?c2 = "c1\<lparr>port := q\<rparr>"
    have g2: "get_slave slave ?c2 = Some s" using s(1) by (simp add: get_slave_def)
    have bytes: "(if s_eep_8byte s \<noteq> 0 then enc64 e else enc32 (ucast e)) = rom_bytes rom (drop_bit 1 a) w"
      using e(3) s(3) by (auto simp: enc32_take)
    obtain d m where d: "sii_fill (drop_bit 1 a) (rom_bytes rom (drop_bit 1 a) w) ?c2 = Some d"
        "d = ?c2\<lparr>esibuf := blit_list (esibuf ?c2) ?n (rom_bytes rom (drop_bit 1 a) w), esimap := m\<rparr>"
        "\<And>b. unat b < EC_MAXEEPBUF \<Longrightarrow> sii_cached d b \<longleftrightarrow> sii_cached ?c2 b \<or> ?n \<le> unat b \<and> unat b < ?n + w"
      using sii_fill_returns [of a "rom_bytes rom (drop_bit 1 a) w" ?c2] fits unfolding returns_iff length_rom_bytes by auto
    have same: "sii_cached ?c2 b = sii_cached c1 b" for b by (simp add: sii_cached_def)
    have val: "esibuf d (unat b) = rom b" if "unat b < EC_MAXEEPBUF" "sii_cached d b" for b
    proof (cases "?n \<le> unat b \<and> unat b < ?n + w")
      case True
      then show ?thesis using rom_bytes_at [of a b w rom] unfolding d(2) by (simp add: blit_list_def)
    next
      case False
      with that d(3) [of b] mem [of b] show ?thesis by (auto simp: d(2) same blit_list_out not_le not_less)
    qed
    have "?n \<le> unat a" "unat a < ?n + 2" by presburger+
    then have da: "sii_cached d a" using d(3) [of a] True s(3) by (auto split: if_splits)
    have "d = c1\<lparr>port := q, esibuf := esibuf d, esimap := esimap d, esislave := slave\<rparr>"
      using d(2) sl by (cases c1) simp
    then have "reads c1 d"
      using reads_port [OF inv e(2), where b = "esibuf d" and m = "esimap d" and s = slave] by metis
    then have "reads c0 d" using r by (rule reads_trans [rotated])
    moreover have "get_slave slave d = Some s" "port d = q" "esislave d = slave"
      using s(1) sl by (simp_all add: d(2) get_slave_def)
    ultimately have "sii_state c0 slave rom w K d"
      unfolding sii_state_def using s(2,3) e(4) out val K d(3) by (auto simp: same)
    moreover have "ecx_siigetbyte slave a c = Some (rom a, d)"
      unfolding ecx_siigetbyte_def c1_def [symmetric]
      using True s(1,2) e(1) g2 d(1) val [OF _ da] by (simp add: ecx_eeprom2master_def bytes)
    ultimately show ?thesis by simp
  qed
qed

section \<open>What the categories deliver\<close>

context sii_rom begin

text \<open>A run of bytes read one by one.\<close>

lemma charsE:
  "I c \<Longrightarrow> (\<And>i. i < n \<Longrightarrow> ok (ba + of_nat i)) \<Longrightarrow>
     \<exists>d. sii_chars n slave ba c = Some (map (\<lambda>i. rom (ba + of_nat i)) [0 ..< n], d) \<and> I d"
proof (induction n arbitrary: ba c)
  case (Suc n)
  have "ok ba" using Suc.prems(2) [of 0] by simp
  then obtain d where d: "ecx_siigetbyte slave ba c = Some (rom ba, d)" "I d" by (rule getbyteE [OF Suc.prems(1)])
  have "\<exists>e. sii_chars n slave (ba + 1) d = Some (map (\<lambda>i. rom (ba + 1 + of_nat i)) [0 ..< n], e) \<and> I e"
  proof (rule Suc.IH [OF d(2)])
    fix i assume "i < n"
    then show "ok (ba + 1 + of_nat i)" using Suc.prems(2) [of "Suc i"] by (simp add: ac_simps)
  qed
  moreover have "map (\<lambda>i. rom (ba + of_nat i)) [0 ..< Suc n] = rom ba # map (\<lambda>i. rom (ba + 1 + of_nat i)) [0 ..< n]"
    by (simp add: upt_conv_Cons map_Suc_upt [symmetric] comp_def ac_simps del: upt_Suc)
  ultimately show ?case using d(1) by auto
qed simp

text \<open>The address of the string behind \<open>k\<close> others.\<close>

primrec str_start :: "nat \<Rightarrow> u16 \<Rightarrow> u16" where
  "str_start 0 ba = ba"
| "str_start (Suc k) ba = str_start k (ba + 1 + ucast (rom ba))"

primrec str_ok :: "nat \<Rightarrow> u16 \<Rightarrow> bool" where
  "str_ok 0 ba = True"
| "str_ok (Suc k) ba = (ok ba \<and> str_ok k (ba + 1 + ucast (rom ba)))"

lemma skipE: "I c \<Longrightarrow> str_ok k ba \<Longrightarrow> \<exists>d. sii_skip k slave ba c = Some (str_start k ba, d) \<and> I d"
proof (induction k arbitrary: ba c)
  case (Suc k)
  have "ok ba" using Suc.prems(2) by simp
  then obtain d where d: "ecx_siigetbyte slave ba c = Some (rom ba, d)" "I d" by (rule getbyteE [OF Suc.prems(1)])
  with Suc.IH [OF d(2)] Suc.prems(2) show ?case by simp
qed simp

lemma str_ok_last: "str_ok (Suc k) ba \<Longrightarrow> str_ok k ba \<and> ok (str_start k ba)"
proof (induction k arbitrary: ba)
  case (Suc k)
  from Suc.IH [of "ba + 1 + ucast (rom ba)"] Suc.prems show ?case by simp
qed simp

text \<open>The string \<open>n\<close> (from 1) of the section at \<open>a\<close>, cut at 40 characters.\<close>

definition nth_string :: "u16 \<Rightarrow> u16 \<Rightarrow> u8 list" where
  "nth_string a n = (let s = str_start (unat n - 1) (a + 3)
     in map (\<lambda>i. rom (s + 1 + of_nat i)) [0 ..< min (unat (rom s)) EC_MAXNAME])"

lemma siistring:
  assumes I: "I c" and sec: "section_at ECT_SII_STRING (push_bit 1 ECT_SII_START) a" "a \<noteq> 0"
    and n: "0 < n" "n \<le> ucast (rom (a + 2))"
    and ok: "ok (a + 2)" "str_ok (unat n) (a + 3)"
      "\<And>i. i < EC_MAXNAME \<Longrightarrow> ok (str_start (unat n - 1) (a + 3) + 1 + of_nat i)"
  shows "returns (ecx_siistring slave n c) (\<lambda>(str, d). str = Some (nth_string a n @ [0]) \<and> I d)"
proof -
  obtain s where s: "get_slave slave c = Some s" "s_eep_pdi s = 0" using control [OF I] by blast
  obtain c1 where 1: "ecx_siifind slave ECT_SII_STRING c = Some (a, c1)" "I c1"
    using siifind [OF sec(1) I] by (auto simp: returns_iff)
  obtain c2 where 2: "ecx_siigetbyte slave (a + 2) c1 = Some (rom (a + 2), c2)" "I c2"
    by (rule getbyteE [OF 1(2) ok(1)])
  let ?k = "unat n - 1"
  have k: "unat n = Suc ?k" using n(1) by (simp add: word_less_nat_alt)
  have sk: "str_ok ?k (a + 3)" "ok (str_start ?k (a + 3))"
    using str_ok_last [of ?k "a + 3"] ok(2) k by metis+
  obtain c3 where 3: "sii_skip ?k slave (a + 3) c2 = Some (str_start ?k (a + 3), c3)" "I c3"
    using skipE [OF 2(2) sk(1)] by blast
  obtain c4 where 4: "ecx_siigetbyte slave (str_start ?k (a + 3)) c3 = Some (rom (str_start ?k (a + 3)), c4)" "I c4"
    by (rule getbyteE [OF 3(2) sk(2)])
  let ?m = "min (unat (rom (str_start ?k (a + 3)))) EC_MAXNAME"
  have "ok (str_start ?k (a + 3) + 1 + of_nat i)" if "i < ?m" for i using ok(3) [of i] that by simp
  from charsE [OF 4(2) this] obtain c5 where 5: "sii_chars ?m slave (str_start ?k (a + 3) + 1) c4 = Some (nth_string a n, c5)" "I c5"
    unfolding nth_string_def Let_def by blast
  have "0 < a" "n \<noteq> 0" using sec(2) n(1) by (simp_all add: word_gt_0)
  then show ?thesis
    using s 1(1) 2(1) 3(1) 4(1) 5 n(2) by (simp add: ecx_siistring_def add.assoc)
qed

lemma siiSM:
  assumes I: "I c" and sec: "section_at ECT_SII_SM (push_bit 1 ECT_SII_START) a" "a \<noteq> 0"
    and ok: "\<And>i. i < 10 \<Longrightarrow> ok (a + of_nat i)"
  shows "returns (ecx_siiSM slave SM c) (\<lambda>(SM', d). SM' = \<lparr>m_Startpos = a, m_nSM = ucast (romw a div 4),
     m_PhStart = romw (a + 2), m_Plength = romw (a + 4), m_Creg = rom (a + 6), m_Sreg = rom (a + 7),
     m_Activate = rom (a + 8), m_PDIctrl = rom (a + 9)\<rparr> \<and> I d)"
proof -
  obtain s where s: "get_slave slave c = Some s" "s_eep_pdi s = 0" using control [OF I] by blast
  obtain c1 where 1: "ecx_siifind slave ECT_SII_SM c = Some (a, c1)" "I c1"
    using siifind [OF sec(1) I] by (auto simp: returns_iff)
  have o: "okw a" "okw (a + 2)" "okw (a + 2 + 2)" "ok (a + 2 + 4)" "ok (a + 2 + 5)" "ok (a + 2 + 6)" "ok (a + 2 + 7)"
    using ok [of 0] ok [of 1] ok [of 2] ok [of 3] ok [of 4] ok [of 5] ok [of 6] ok [of 7] ok [of 8] ok [of 9]
    by (simp_all add: okw_def add.assoc)
  obtain c2 where 2: "sii_word slave a c1 = Some (romw a, c2)" "I c2" by (rule wordE [OF 1(2) o(1)])
  obtain c3 where 3: "sii_word slave (a + 2) c2 = Some (romw (a + 2), c3)" "I c3" by (rule wordE [OF 2(2) o(2)])
  obtain c4 where 4: "sii_word slave (a + 2 + 2) c3 = Some (romw (a + 2 + 2), c4)" "I c4" by (rule wordE [OF 3(2) o(3)])
  obtain c5 where 5: "ecx_siigetbyte slave (a + 2 + 4) c4 = Some (rom (a + 2 + 4), c5)" "I c5" by (rule getbyteE [OF 4(2) o(4)])
  obtain c6 where 6: "ecx_siigetbyte slave (a + 2 + 5) c5 = Some (rom (a + 2 + 5), c6)" "I c6" by (rule getbyteE [OF 5(2) o(5)])
  obtain c7 where 7: "ecx_siigetbyte slave (a + 2 + 6) c6 = Some (rom (a + 2 + 6), c7)" "I c7" by (rule getbyteE [OF 6(2) o(6)])
  obtain c8 where 8: "ecx_siigetbyte slave (a + 2 + 7) c7 = Some (rom (a + 2 + 7), c8)" "I c8" by (rule getbyteE [OF 7(2) o(7)])
  have "0 < a" using sec(2) by (simp add: word_gt_0)
  then show ?thesis
    using s 1(1) 2(1) 3(1) 4(1) 5(1) 6(1) 7(1) 8
    by (cases SM) (simp add: ecx_siiSM_def sii_sm_entry_def add.assoc)
qed

lemma entriesE:
  "I c \<Longrightarrow> (\<And>i. i < n \<Longrightarrow> ok (a + of_nat (8 * i + 5))) \<Longrightarrow>
     \<exists>d. sii_pdo_entries n slave a bits c = Some (bits + (\<Sum>i<n. ucast (rom (a + of_nat (8 * i + 5)))), d) \<and> I d"
proof (induction n arbitrary: a bits c)
  case (Suc n)
  have "ok (a + 5)" using Suc.prems(2) [of 0] by simp
  then obtain d where d: "ecx_siigetbyte slave (a + 5) c = Some (rom (a + 5), d)" "I d" by (rule getbyteE [OF Suc.prems(1)])
  have shift: "a + of_nat (8 * Suc i + 5) = a + 8 + of_nat (8 * i + 5)" for i by (simp add: algebra_simps)
  have "\<exists>e. sii_pdo_entries n slave (a + 8) (bits + ucast (rom (a + 5))) d =
      Some (bits + ucast (rom (a + 5)) + (\<Sum>i<n. ucast (rom (a + 8 + of_nat (8 * i + 5)))), e) \<and> I e"
  proof (rule Suc.IH [OF d(2)])
    fix i assume "i < n"
    then show "ok (a + 8 + of_nat (8 * i + 5))" using Suc.prems(2) [of "Suc i"] unfolding shift by simp
  qed
  moreover have "(\<Sum>i<Suc n. ucast (rom (a + of_nat (8 * i + 5))) :: u16) =
      ucast (rom (a + 5)) + (\<Sum>i<n. ucast (rom (a + 8 + of_nat (8 * i + 5))))"
    unfolding sum.lessThan_Suc_shift shift by simp
  ultimately show ?case using d(1) by (auto simp: add.assoc)
qed simp

end

text \<open>A slave of which every address can be read, such as one whose information is cached.\<close>

locale sii_whole = sii_rom +
  assumes whole: "ok a"
begin

lemma siiPDO_body:
  assumes "I c" "unat (p_nPDO P) < EC_MAXEEPDO - 1" "Size = (\<Sum>i<EC_MAXSM. p_SMbitsize P i)"
  shows "returns (siiPDO_body slave (P, a, cnt, Size, c)) (\<lambda>((P', a', cnt', Size', d), again).
    I d \<and> Size' = (\<Sum>i<EC_MAXSM. p_SMbitsize P' i) \<and> unat (p_nPDO P') = Suc (unat (p_nPDO P)) \<and>
    p_Startpos P' = p_Startpos P \<and> (again \<longrightarrow> unat (p_nPDO P') < EC_MAXEEPDO - 1))"
proof -
  let ?n = "p_nPDO P + 1"
  have n: "unat ?n = Suc (unat (p_nPDO P))" using assms(2) by (simp add: unat_word_ariths)
  obtain c1 where 1: "sii_word slave a c = Some (romw a, c1)" "I c1" by (rule wordE [OF assms(1)]) (simp add: okw_def whole)
  obtain c2 where 2: "ecx_siigetbyte slave (a + 2) c1 = Some (rom (a + 2), c2)" "I c2" by (rule getbyteE [OF 1(2) whole])
  obtain c3 where 3: "ecx_siigetbyte slave (a + 3) c2 = Some (rom (a + 3), c3)" "I c3" by (rule getbyteE [OF 2(2) whole])
  obtain bits c4 where 4: "sii_pdo_entries (unat (rom (a + 2))) slave (a + 8) 0 c3 = Some (bits, c4)" "I c4"
    using entriesE [OF 3(2) whole] by blast
  have add: "(\<Sum>i<EC_MAXSM. ((p_SMbitsize P)(j := p_SMbitsize P j + bits)) i) = (\<Sum>i<EC_MAXSM. p_SMbitsize P i) + bits"
    if "j < EC_MAXSM" for j
    using that by (simp add: sum.remove [of "{..<EC_MAXSM}" j])
  show ?thesis
    using n assms(2,3) 1(1) 2(1) 3 4 add [of "unat (rom (a + 3))"]
    by (auto simp: siiPDO_body_def Let_def)
qed

lemma siiPDO:
  assumes I: "I c" and sec: "section_at (ECT_SII_PDO + ucast (if t > 1 then 1 else t)) (push_bit 1 ECT_SII_START) a"
  shows "returns (ecx_siiPDO slave PDO t c) (\<lambda>(Size, P, d). I d \<and> p_Startpos P = a \<and>
    unat (p_nPDO P) < EC_MAXEEPDO \<and> Size = (\<Sum>i<EC_MAXSM. p_SMbitsize P i))"
proof -
  let ?P = "PDO\<lparr>p_nPDO := 0, p_Length := 0, p_Index := (p_Index PDO)(1 := 0),
      p_SMbitsize := (\<lambda>i. if i < EC_MAXSM then 0 else p_SMbitsize PDO i), p_Startpos := a\<rparr>"
  obtain s where s: "get_slave slave c = Some s" "s_eep_pdi s = 0" using control [OF I] by blast
  obtain c1 where 1: "ecx_siifind slave (ECT_SII_PDO + ucast (if t > 1 then 1 else t)) c = Some (a, c1)" "I c1"
    using siifind [OF sec I] by (auto simp: returns_iff)
  obtain c2 where 2: "sii_word slave a c1 = Some (romw a, c2)" "I c2" by (rule wordE [OF 1(2)]) (simp add: okw_def whole)
  have "returns (do_while (siiPDO_body slave) (?P\<lparr>p_Length := romw a\<rparr>, a + 2, 1, 0, c2))
      (\<lambda>(P', _, _, Size', d). I d \<and> Size' = (\<Sum>i<EC_MAXSM. p_SMbitsize P' i) \<and>
         unat (p_nPDO P') < EC_MAXEEPDO \<and> p_Startpos P' = a)"
  proof (rule do_while_returns [where P = "\<lambda>(P', _, _, Size', d). I d \<and> Size' = (\<Sum>i<EC_MAXSM. p_SMbitsize P' i) \<and>
        unat (p_nPDO P') < EC_MAXEEPDO - 1 \<and> p_Startpos P' = a" and f = "\<lambda>(P', _). EC_MAXEEPDO - unat (p_nPDO P')"])
    fix x :: "ec_eepromPDO \<times> u16 \<times> u16 \<times> u16 \<times> ecx_context"
    obtain P' a' cnt' Size' d where x: "x = (P', a', cnt', Size', d)" by (cases x)
    assume "case x of (P', _, _, Size', d) \<Rightarrow> I d \<and> Size' = (\<Sum>i<EC_MAXSM. p_SMbitsize P' i) \<and>
        unat (p_nPDO P') < EC_MAXEEPDO - 1 \<and> p_Startpos P' = a"
    then have h: "I d" "unat (p_nPDO P') < EC_MAXEEPDO - 1" "Size' = (\<Sum>i<EC_MAXSM. p_SMbitsize P' i)" "p_Startpos P' = a"
      by (simp_all add: x)
    show "returns (siiPDO_body slave x) (\<lambda>(s', again). if again
        then (case s' of (P', _, _, Size', d) \<Rightarrow> I d \<and> Size' = (\<Sum>i<EC_MAXSM. p_SMbitsize P' i) \<and>
            unat (p_nPDO P') < EC_MAXEEPDO - 1 \<and> p_Startpos P' = a) \<and>
          (case s' of (P', _) \<Rightarrow> EC_MAXEEPDO - unat (p_nPDO P')) < (case x of (P', _) \<Rightarrow> EC_MAXEEPDO - unat (p_nPDO P'))
        else (case s' of (P', _, _, Size', d) \<Rightarrow> I d \<and> Size' = (\<Sum>i<EC_MAXSM. p_SMbitsize P' i) \<and>
            unat (p_nPDO P') < EC_MAXEEPDO \<and> p_Startpos P' = a))"
      using siiPDO_body [OF h(1-3), of a' cnt'] h(2,4) unfolding x by (auto elim!: returns_mono)
  qed (use 2(2) in simp)
  then obtain P' a' cnt' d where 3: "do_while (siiPDO_body slave) (?P\<lparr>p_Length := romw a\<rparr>, a + 2, 1, 0, c2) =
      Some (P', a', cnt', \<Sum>i<EC_MAXSM. p_SMbitsize P' i, d)" "I d" "unat (p_nPDO P') < EC_MAXEEPDO" "p_Startpos P' = a"
    by (auto simp: returns_iff)
  show ?thesis
  proof (cases "0 < a")
    case True
    then show ?thesis using s 1(1) 2(1) 3 by (simp add: ecx_siiPDO_def Let_def)
  next
    case False
    then show ?thesis using s 1 by (simp add: ecx_siiPDO_def Let_def)
  qed
qed

end

interpretation sii: sii_rom slave rom "sii_ok w K" "sii_state c0 slave rom w K" for slave rom w K c0
proof unfold_locales
  fix c a
  assume "sii_state c0 slave rom w K c"
  then show "\<exists>s. get_slave slave c = Some s \<and> s_eep_pdi s = 0" by (auto simp: sii_state_def)
  assume "sii_ok w K a"
  with \<open>sii_state c0 slave rom w K c\<close>
  show "returns (ecx_siigetbyte slave a c) (\<lambda>(b, d). b = rom a \<and> sii_state c0 slave rom w K d)"
    by (rule sii_state_getbyte)
qed

interpretation whole: sii_whole slave rom "sii_ok w UNIV" "sii_state c0 slave rom w UNIV" for slave rom w c0
  by unfold_locales (simp add: sii_ok_def)

text \<open>A silent wire serves an EEPROM of zeros.\<close>

lemma serves_silent:
  assumes "silent p" "\<And>a. unat a < EC_MAXEEPBUF \<Longrightarrow> rom a = 0" "w \<le> 8"
  shows "serves rom w adr p"
  using assms(1)
proof (coinduction arbitrary: p)
  case (serves p)
  show ?case
  proof (rule exI [of _ p], intro conjI refl allI impI)
    fix ea :: u16 and c :: ecx_context
    assume c: "port c = p" "ctx_inv c" and e: "2 * unat ea + w \<le> EC_MAXEEPBUF"
    obtain d where d: "ecx_readeepromFP adr ea EC_TIMEOUTEEP c = Some (0, d)" "talks c d" "silent (port d)"
      using fp.readeeprom_silent [of c adr ea EC_TIMEOUTEEP] c serves unfolding ecx_readeepromFP_def
      by (auto simp: returns_iff)
    have "rom_bytes rom ea w = replicate w 0"
    proof (rule nth_equalityI)
      fix i assume "i < length (rom_bytes rom ea w)"
      then have i: "i < w" by simp
      have "unat (push_bit 1 ea + of_nat i) = 2 * unat ea + i"
      proof -
        have "push_bit 1 ea + of_nat i = (of_nat (2 * unat ea + i) :: u16)" by (simp add: push_bit_eq_mult mult.commute)
        moreover have "2 * unat ea + i < 2 ^ 16" using e i by simp
        ultimately show ?thesis by (simp only:) (rule unat_of_nat_u16, simp)
      qed
      then have "rom (push_bit 1 ea + of_nat i) = 0" using assms(2) e i by simp
      with i show "rom_bytes rom ea w ! i = replicate w 0 ! i" by (simp add: rom_bytes_nth)
    qed simp
    moreover have "enc64 0 = replicate 8 0" by code_simp
    ultimately have "take w (enc64 0) = rom_bytes rom ea w" using assms(3) by (simp add: min_def)
    moreover have "d = c\<lparr>port := port d\<rparr>" using d(2) by (auto simp: talks_def ctx_same_def)
    moreover have "port_ok p (port d)" using d(2) c(1) by (auto simp: talks_def ctx_ok_def)
    ultimately show "\<exists>e q. ecx_readeepromFP adr ea EC_TIMEOUTEEP c = Some (e, c\<lparr>port := q\<rparr>) \<and>
        port_ok p q \<and> take w (enc64 e) = rom_bytes rom ea w \<and> ((\<exists>p. q = p \<and> silent p) \<or> serves rom w adr q)"
      using d(1,3) by metis
  qed
qed

section \<open>Properties\<close>

text \<open>A context whose cache holds the whole information of slave 1.\<close>

definition sii_context :: "u8 list \<Rightarrow> ecx_context" where
  "sii_context bytes = (demo_context (demo_port []) [no_slave, no_slave\<lparr>s_configadr := 0x1001\<rparr>])
     \<lparr>esislave := 1, esimap := (\<lambda>_. - 1), esibuf := (\<lambda>i. if i < length bytes then bytes ! i else 0xff)\<rparr>"

definition sii_content :: "u8 list \<Rightarrow> u16 \<Rightarrow> u8" where
  "sii_content bytes a = (if unat a < length bytes then bytes ! unat a else 0xff)"

lemma sii_context_state:
  assumes "length bytes \<le> EC_MAXEEPBUF"
  shows "sii_state (sii_context bytes) 1 (sii_content bytes) 4 UNIV (sii_context bytes)"
proof -
  have "ctx_inv (sii_context bytes)"
    using ctx_inv_demo [OF port_inv_demo_nil, of "[no_slave, no_slave\<lparr>s_configadr := 0x1001\<rparr>]"]
    by (simp add: sii_context_def ctx_inv_def)
  then have "reads (sii_context bytes) (sii_context bytes)" by (rule reads_refl)
  moreover have "get_slave 1 (sii_context bytes) = Some (no_slave\<lparr>s_configadr := 0x1001\<rparr>)"
    by (simp add: sii_context_def demo_context_def get_slave_def)
  moreover have "sii_select 1 (sii_context bytes) = sii_context bytes"
    by (simp add: sii_context_def)
  moreover have "sii_cached (sii_context bytes) a" for a
  proof -
    have "unat a mod 32 < 32" by simp
    then show ?thesis by (simp add: sii_cached_iff sii_context_def bit_simps)
  qed
  ultimately show ?thesis
    using assms by (auto simp: sii_state_def sii_content_def no_slave_def sii_context_def)
qed



text \<open>
  Reading one of the last bytes of the image of a slave with the 64-bit interface, when it
  is not cached, never succeeds: the eight bytes of the answer do not fit the buffer, and the
  code writes behind its end.
\<close>

theorem siigetbyte_overrun:
  assumes "ctx_inv c" "get_slave slave c = Some s" "s_eep_pdi s = 0" "s_eep_8byte s \<noteq> 0"
    and "\<not> sii_cached (sii_select slave c) a" "EC_MAXEEPBUF - 6 \<le> unat a" "unat a < EC_MAXEEPBUF"
  shows "ecx_siigetbyte slave a c = None"
proof -
  let ?c = "sii_select slave c"
  have inv: "ctx_inv ?c" by (rule reads_inv [OF sii_select_reads [OF assms(1)]])
  show ?thesis
  proof (cases "ecx_readeepromFP (s_configadr s) (drop_bit 1 a) EC_TIMEOUTEEP ?c")
    case None
    then show ?thesis
      using assms(2-5,7) by (simp add: ecx_siigetbyte_def ecx_eeprom2master_def)
  next
    case (Some r)
    obtain e d where r: "r = (e, d)" by (cases r)
    have "ensures (ecx_readeepromFP (s_configadr s) (drop_bit 1 a) EC_TIMEOUTEEP ?c) (\<lambda>(e, d). talks ?c d)"
      unfolding ecx_readeepromFP_def by (rule fp.readeeprom_ensures [OF inv])
    then have "talks ?c d" using Some r by simp
    then have g: "get_slave slave d = Some s"
      using assms(2) by (simp add: get_slave_def talks_slavelist sii_select_def split: if_splits)
    have "\<not> unat (push_bit 1 (drop_bit 1 a)) + length (enc64 e) \<le> EC_MAXEEPBUF"
      unfolding unat_even using assms(6) by simp
    then have "sii_fill (drop_bit 1 a) (enc64 e) d = None"
      unfolding sii_fill_def Let_def by (simp only: chk_simps bind.bind_lzero not_False_eq_True if_False simp_thms)
    then show ?thesis
      using assms(2-5,7) Some r g by (simp add: ecx_siigetbyte_def ecx_eeprom2master_def)
  qed
qed

theorem siigetbyte_overrun_witness:
  "ecx_siigetbyte 0 0xffa (demo_context (demo_port []) [no_slave\<lparr>s_eep_8byte := 1\<rparr>]) = None"
proof -
  let ?c = "demo_context (demo_port []) [no_slave\<lparr>s_eep_8byte := 1\<rparr>]"
  show ?thesis
  proof (rule siigetbyte_overrun)
    show "ctx_inv ?c" by (rule ctx_inv_demo [OF port_inv_demo_nil])
    show "get_slave 0 ?c = Some (no_slave\<lparr>s_eep_8byte := 1\<rparr>)" by (simp add: get_slave_def demo_context_def)
    show "\<not> sii_cached (sii_select 0 ?c) 0xffa" by (simp add: sii_cached_def sii_select_def demo_context_def)
  qed (simp_all add: no_slave_def)
qed

text \<open>
  C26: the search for a category follows the chain of sections from the start of the category
  area and returns the address behind the category word where the chain has the category, and
  0 where the chain ends without it.
\<close>

theorem siifind_follows_chain:
  assumes "sii_state c0 slave rom w K c" "sii.section_at rom w K cat (push_bit 1 ECT_SII_START) r"
  shows "returns (ecx_siifind slave cat c) (\<lambda>(a, d). a = r \<and> sii_state c0 slave rom w K d)"
  by (rule sii.siifind [OF assms(2,1)])

definition demo_sii :: "u8 list" where
  "demo_sii = replicate 128 0xff @ [10, 0, 3, 0, 1, 3, 65, 66, 67, 0] @
     [41, 0, 4, 0, 0, 0x10, 0x80, 0, 0x26, 0, 1, 1] @ [50, 0, 8, 0, 0, 0x1a, 1, 3, 0, 0, 0, 0, 0, 0, 0, 0, 0, 16, 0, 0]"

lemma demo_sii_state: "sii_state (sii_context demo_sii) 1 (sii_content demo_sii) 4 UNIV (sii_context demo_sii)"
  by (rule sii_context_state) (simp add: demo_sii_def)

lemma demo_sii_ok: "sii.okw 4 UNIV a"
  by (simp add: sii.okw_def sii_ok_def)

lemma demo_sii_words:
  "sii.romw (sii_content demo_sii) 0x80 = 10" "sii.romw (sii_content demo_sii) 0x82 = 3"
  "sii.romw (sii_content demo_sii) 0x8a = 41" "sii.romw (sii_content demo_sii) 0x8c = 4"
  "sii.romw (sii_content demo_sii) 0x96 = 50"
  unfolding sii.romw_def by code_simp+

lemma demo_sii_skip:
  "sii.section_at (sii_content demo_sii) 4 UNIV cat b r \<Longrightarrow> sii.romw (sii_content demo_sii) a \<noteq> cat \<Longrightarrow>
     sii.romw (sii_content demo_sii) a \<noteq> 0xffff \<Longrightarrow> b = a + 4 + push_bit 1 (sii.romw (sii_content demo_sii) (a + 2)) \<Longrightarrow>
     sii.section_at (sii_content demo_sii) 4 UNIV cat a r"
  by (rule sii.section_at.skipped) (simp_all add: demo_sii_ok)

lemma demo_sii_sections:
  "sii.section_at (sii_content demo_sii) 4 UNIV ECT_SII_STRING 0x80 0x82"
  "sii.section_at (sii_content demo_sii) 4 UNIV ECT_SII_SM 0x80 0x8c"
  "sii.section_at (sii_content demo_sii) 4 UNIV ECT_SII_PDO 0x80 0x98"
proof -
  note found = sii.section_at.found [OF demo_sii_ok]
  show "sii.section_at (sii_content demo_sii) 4 UNIV ECT_SII_STRING 0x80 0x82"
    using found [of "sii_content demo_sii" "0x80" ECT_SII_STRING] demo_sii_words by simp
  have "sii.section_at (sii_content demo_sii) 4 UNIV ECT_SII_SM 0x8a 0x8c"
    using found [of "sii_content demo_sii" "0x8a" ECT_SII_SM] demo_sii_words by simp
  then show "sii.section_at (sii_content demo_sii) 4 UNIV ECT_SII_SM 0x80 0x8c"
    by (rule demo_sii_skip) (simp_all add: demo_sii_words)
  have "sii.section_at (sii_content demo_sii) 4 UNIV ECT_SII_PDO 0x96 0x98"
    using found [of "sii_content demo_sii" "0x96" ECT_SII_PDO] demo_sii_words by simp
  then have "sii.section_at (sii_content demo_sii) 4 UNIV ECT_SII_PDO 0x8a 0x98"
    by (rule demo_sii_skip) (simp_all add: demo_sii_words)
  then show "sii.section_at (sii_content demo_sii) 4 UNIV ECT_SII_PDO 0x80 0x98"
    by (rule demo_sii_skip) (simp_all add: demo_sii_words)
qed

theorem siifind_follows_chain_witness:
  "\<exists>d. ecx_siifind 1 ECT_SII_SM (sii_context demo_sii) = Some (0x8c, d)"
  using siifind_follows_chain [OF demo_sii_state, of ECT_SII_SM "0x8c"] demo_sii_sections(2)
  by (auto simp: returns_iff)

text \<open>
  A section length that leads back to the section itself (32766 words, the addresses wrap
  around) keeps the search going for ever.
\<close>

theorem siifind_livelock:
  assumes "sii_state c0 slave rom w K c" "\<And>i. i < 4 \<Longrightarrow> sii_ok w K (0x80 + of_nat i)"
    and "mk16 (rom 0x80) (rom 0x81) \<notin> {cat, 0xffff}" "mk16 (rom 0x82) (rom 0x83) = 0x7ffe"
  shows "ecx_siifind slave cat c = None"
proof (rule sii.siifind_cycle [OF assms(1)])
  have "sii_ok w K 0x80" "sii_ok w K 0x81" "sii_ok w K 0x82" "sii_ok w K 0x83"
    using assms(2) [of 0] assms(2) [of 1] assms(2) [of 2] assms(2) [of 3] by simp_all
  then show "sii.okw w K (push_bit 1 ECT_SII_START)" "sii.okw w K (push_bit 1 ECT_SII_START + 2)"
    by (simp_all add: sii.okw_def)
qed (use assms(3,4) in \<open>simp_all add: sii.romw_def\<close>)

theorem siifind_livelock_witness:
  "ecx_siifind 1 ECT_SII_SM (sii_context (replicate 128 0xff @ [10, 0, 0xfe, 0x7f])) = None"
proof (rule siifind_livelock)
  let ?b = "replicate 128 0xff @ [10, 0, 0xfe, 0x7f] :: u8 list"
  show "sii_state (sii_context ?b) 1 (sii_content ?b) 4 UNIV (sii_context ?b)"
    by (rule sii_context_state) simp
  have "mk16 (sii_content ?b 0x80) (sii_content ?b 0x81) = 10" by code_simp
  then show "mk16 (sii_content ?b 0x80) (sii_content ?b 0x81) \<notin> {ECT_SII_SM, 0xffff}" by simp
  show "mk16 (sii_content ?b 0x82) (sii_content ?b 0x83) = 0x7ffe" by code_simp
qed (simp add: sii_ok_def)

text \<open>
  When the string section exists and has the string asked for, the string handed out is
  the one of the section, at most 40 characters of it, with a zero behind it.
\<close>

theorem siistring_reads:
  assumes "sii_state c0 slave rom w UNIV c"
    and "sii.section_at rom w UNIV ECT_SII_STRING (push_bit 1 ECT_SII_START) a" "a \<noteq> 0"
    and "0 < n" "n \<le> ucast (rom (a + 2))"
  shows "returns (ecx_siistring slave n c) (\<lambda>(str, d).
    str = Some (sii.nth_string rom a n @ [0]) \<and> length (sii.nth_string rom a n) \<le> EC_MAXNAME \<and> reads c0 d)"
proof -
  have ok: "sii_ok w UNIV x" for x by (simp add: sii_ok_def)
  have "sii.str_ok rom w UNIV k ba" for k ba
    by (induction k arbitrary: ba) (simp_all add: ok)
  from sii.siistring [OF assms(1-5) ok this ok] show ?thesis
    by (rule returns_mono) (auto simp: sii.nth_string_def Let_def sii_state_def)
qed

theorem siistring_reads_witness:
  "\<exists>d. ecx_siistring 1 1 (sii_context demo_sii) = Some (Some [65, 66, 67, 0], d)"
proof -
  have "sii_content demo_sii (0x82 + 2) = 1" by code_simp
  moreover have "sii.nth_string (sii_content demo_sii) 0x82 1 = [65, 66, 67]"
    unfolding sii.nth_string_def Let_def by simp code_simp
  ultimately show ?thesis
    using siistring_reads [OF demo_sii_state, of "0x82" 1] demo_sii_sections(1)
    by (auto simp: returns_iff)
qed


definition no_PDO :: ec_eepromPDO where
  "no_PDO = \<lparr>p_Startpos = 0, p_Length = 0, p_nPDO = 0, p_Index = (\<lambda>_. 0), p_SyncM = (\<lambda>_. 0),
     p_BitSize = (\<lambda>_. 0), p_SMbitsize = (\<lambda>_. 7)\<rparr>"


end
