(* ===== verification/SlaveState.thy ===== *)
theory SlaveState
  imports Sii
begin

text \<open>
  The states of the slaves, \<^verbatim>\<open>soem/ethercatmain.c\<close>: reading the status registers of many
  slaves with one frame, refreshing the states of all slaves, requesting a state and waiting
  for one.
\<close>

section \<open>Operations\<close>

abbreviation MAX_FPRD_MULTI :: nat where "MAX_FPRD_MULTI \<equiv> 64"

record ec_alstatus =
  alstatus :: u16
  al_unused :: u16
  alstatuscode :: u16

definition enc_alstatus :: "ec_alstatus \<Rightarrow> u8 list" where
  "enc_alstatus s = enc16 (alstatus s) @ enc16 (al_unused s) @ enc16 (alstatuscode s)"

definition dec_alstatus :: "u8 list \<Rightarrow> ec_alstatus" where
  "dec_alstatus b = \<lparr>alstatus = dec16 b, al_unused = dec16 (drop 2 b), alstatuscode = dec16 (drop 4 b)\<rparr>"

definition no_alstatus :: ec_alstatus where
  "no_alstatus = \<lparr>alstatus = 0, al_unused = 0, alstatuscode = 0\<rparr>"

text \<open>The datagrams behind the first; the positions of their data are collected.\<close>

definition fprd_add :: "int \<Rightarrow> u8 \<Rightarrow> u16 list \<Rightarrow> ec_alstatus list \<Rightarrow> nat \<Rightarrow> u16 list \<times> ecx_port \<Rightarrow> (u16 list \<times> ecx_port) option" where
  "fprd_add n idx configlst slstatlst slcnt = (\<lambda>(sldatapos, p). do {
     chk (slcnt < MAX_FPRD_MULTI);
     adr \<leftarrow> arr_get configlst slcnt;
     st \<leftarrow> arr_get slstatlst slcnt;
     (pos, p) \<leftarrow> ecx_adddatagram (Tx (unat idx)) EC_CMD_FPRD idx (int slcnt < n - 1) adr ECT_REG_ALSTAT 6 (enc_alstatus st) p;
     Some (sldatapos @ [pos], p)
   })"

definition fprd_copy :: "ecx_port \<Rightarrow> u8 \<Rightarrow> u16 list \<Rightarrow> nat \<Rightarrow> ec_alstatus list \<Rightarrow> ec_alstatus list option" where
  "fprd_copy p idx sldatapos slcnt slstatlst = do {
     pos \<leftarrow> arr_get sldatapos slcnt;
     b \<leftarrow> copy_out p idx (unat pos) 6 (replicate 6 0);
     arr_set slstatlst slcnt (dec_alstatus b)
   }"

definition ecx_FPRD_multi :: "int \<Rightarrow> u16 list \<Rightarrow> ec_alstatus list \<Rightarrow> int \<Rightarrow> ecx_port \<Rightarrow> (int \<times> ec_alstatus list \<times> ecx_port) option" where
  "ecx_FPRD_multi n configlst slstatlst timeout p = do {
     (idx, p) \<leftarrow> ecx_getindex p;
     adr \<leftarrow> arr_get configlst 0;
     st \<leftarrow> arr_get slstatlst 0;
     p \<leftarrow> ecx_setupdatagram (Tx (unat idx)) EC_CMD_FPRD idx adr ECT_REG_ALSTAT 6 (enc_alstatus st) p;
     (sldatapos, p) \<leftarrow> for_loop (nat (n - 1)) 1 (fprd_add n idx configlst slstatlst) ([of_nat EC_HEADERSIZE], p);
     (wkc, p) \<leftarrow> ecx_srconfirm idx timeout p;
     slstatlst \<leftarrow> (if wkc \<ge> 0 then for_loop (nat n) 0 (fprd_copy p idx sldatapos) slstatlst else Some slstatlst);
     p \<leftarrow> ecx_setbufstat idx EC_BUF_EMPTY p;
     Some (wkc, slstatlst, p)
   }"

text \<open>Collecting the addresses of the slaves of one frame, and storing what it brought.\<close>

definition collect_adr :: "ecx_context \<Rightarrow> nat \<Rightarrow> u16 list \<Rightarrow> u16 list option" where
  "collect_adr c slave slca = do {
     s \<leftarrow> arr_get (slavelist c) slave;
     chk (length slca < MAX_FPRD_MULTI);
     Some (slca @ [s_configadr s])
   }"

definition store_status :: "nat \<Rightarrow> ec_alstatus list \<Rightarrow> nat \<Rightarrow> u16 \<times> ecx_context \<Rightarrow> (u16 \<times> ecx_context) option" where
  "store_status fslave sl slave = (\<lambda>(lowest, c). do {
     x \<leftarrow> arr_get sl (slave - fslave);
     s \<leftarrow> arr_get (slavelist c) slave;
     let rval = alstatus x;
     let list = (slavelist c)[slave := s\<lparr>s_ALstatuscode := alstatuscode x, s_state := rval\<rparr>];
     m \<leftarrow> arr_get list 0;
     let list = list[0 := m\<lparr>s_ALstatuscode := s_ALstatuscode m OR s_ALstatuscode (list ! slave)\<rparr>];
     Some (if rval AND 0xf < lowest then rval AND 0xf else lowest, c\<lparr>slavelist := list\<rparr>)
   })"

definition readstate_body :: "u16 \<times> u16 \<times> ecx_context \<Rightarrow> ((u16 \<times> u16 \<times> ecx_context) \<times> bool) option" where
  "readstate_body = (\<lambda>(fslave, lowest, c). do {
     let lslave = (word_of_int (slavecount c) :: u16);
     let lslave = (if int (unat lslave) - int (unat fslave) \<ge> int MAX_FPRD_MULTI then fslave + of_nat MAX_FPRD_MULTI - 1 else lslave);
     chk (lslave < 0xffff);
     let k = unat lslave + 1 - unat fslave;
     slca \<leftarrow> for_loop k (unat fslave) (collect_adr c) [];
     (_, sl, c) \<leftarrow> on_port_buf (ecx_FPRD_multi (int (unat lslave) - int (unat fslave) + 1) slca (replicate k no_alstatus) EC_TIMEOUTRET3) c;
     (lowest, c) \<leftarrow> for_loop k (unat fslave) (store_status (unat fslave) sl) (lowest, c);
     Some ((lslave + 1, lowest, c), int (unat lslave) < slavecount c)
   })"

definition set_state :: "u16 \<Rightarrow> nat \<Rightarrow> ec_slave list \<Rightarrow> ec_slave list option" where
  "set_state st slave list = do {
     s \<leftarrow> arr_get list slave;
     Some (list[slave := s\<lparr>s_ALstatuscode := 0, s_state := st\<rparr>])
   }"

definition ecx_readstate :: "ecx_context \<Rightarrow> (u16 \<times> ecx_context) option" where
  "ecx_readstate c = do {
     (wkc, b, c) \<leftarrow> on_port_buf (ecx_BRD 0 ECT_REG_ALSTAT 2 (enc16 0) EC_TIMEOUTRET) c;
     let allslavespresent = (wkc \<ge> slavecount c);
     let rval = dec16 b;
     let bitwisestate = rval AND 0x0f;
     let noerrorflag = (rval AND EC_STATE_ERROR = 0);
     c \<leftarrow> (if noerrorflag then upd_slave 0 (\<lambda>s. s\<lparr>s_ALstatuscode := 0\<rparr>) c else Some c);
     let allslavessamestate = (bitwisestate \<in> {EC_STATE_INIT, EC_STATE_PRE_OP, EC_STATE_SAFE_OP, EC_STATE_OPERATIONAL});
     c \<leftarrow> (if allslavessamestate then upd_slave 0 (\<lambda>s. s\<lparr>s_state := bitwisestate\<rparr>) c else Some c);
     if noerrorflag \<and> allslavessamestate \<and> allslavespresent then do {
       list \<leftarrow> for_loop (nat (slavecount c)) 1 (set_state bitwisestate) (slavelist c);
       Some (bitwisestate, c\<lparr>slavelist := list\<rparr>)
     } else do {
       c \<leftarrow> upd_slave 0 (\<lambda>s. s\<lparr>s_ALstatuscode := 0\<rparr>) c;
       (_, lowest, c) \<leftarrow> do_while readstate_body (1, 0xff, c);
       c \<leftarrow> upd_slave 0 (\<lambda>s. s\<lparr>s_state := lowest\<rparr>) c;
       Some (lowest, c)
     }
   }"

definition ecx_writestate :: "u16 \<Rightarrow> ecx_context \<Rightarrow> (int \<times> ecx_context) option" where
  "ecx_writestate slave c = do {
     s \<leftarrow> get_slave slave c;
     if slave = 0 then on_port (ecx_BWR 0 ECT_REG_ALCTL 2 (enc16 (s_state s)) EC_TIMEOUTRET3) c
     else on_port (ecx_FPWRw (s_configadr s) ECT_REG_ALCTL (s_state s) EC_TIMEOUTRET3) c
   }"

text \<open>One round of the wait for a state; the status last read is kept.\<close>

definition statecheck_read :: "u16 \<Rightarrow> u16 \<Rightarrow> ecx_context \<Rightarrow> (u16 \<times> ecx_context) option" where
  "statecheck_read slave configadr c =
     (if slave < 1 then do {
         (_, b, c) \<leftarrow> on_port_buf (ecx_BRD 0 ECT_REG_ALSTAT 2 (enc16 0) EC_TIMEOUTRET) c;
         Some (dec16 b, c)
       } else do {
         (_, b, c) \<leftarrow> on_port_buf (ecx_FPRD configadr ECT_REG_ALSTAT 6 (enc_alstatus no_alstatus) EC_TIMEOUTRET) c;
         c \<leftarrow> upd_slave slave (\<lambda>s. s\<lparr>s_ALstatuscode := alstatuscode (dec_alstatus b)\<rparr>) c;
         Some (alstatus (dec_alstatus b), c)
       })"

definition statecheck_body :: "u16 \<Rightarrow> u16 \<Rightarrow> u16 \<Rightarrow> ec_timet \<Rightarrow> u16 \<times> ecx_context \<Rightarrow> ((u16 \<times> ecx_context) \<times> bool) option" where
  "statecheck_body slave configadr reqstate timer = (\<lambda>(_, c). do {
     (rval, c) \<leftarrow> statecheck_read slave configadr c;
     let (again, c) = ctx_again (rval AND 0xf \<noteq> reqstate) timer c;
     Some ((rval, c), again)
   })"

definition ecx_statecheck :: "u16 \<Rightarrow> u16 \<Rightarrow> int \<Rightarrow> ecx_context \<Rightarrow> (u16 \<times> ecx_context) option" where
  "ecx_statecheck slave reqstate timeout c =
     (if int (unat slave) > slavecount c then Some (0, c)
      else do {
        let (timer, c) = ctx_timer_start timeout c;
        s \<leftarrow> get_slave slave c;
        (rval, c) \<leftarrow> do_while (statecheck_body slave (s_configadr s) reqstate timer) (0, c);
        c \<leftarrow> upd_slave slave (\<lambda>s. s\<lparr>s_state := rval\<rparr>) c;
        Some (rval AND 0xf, c)
      })"

section \<open>They return\<close>

text \<open>How far a frame under construction on the index \<open>idx\<close> may have changed the port.\<close>

definition building :: "u8 \<Rightarrow> ecx_port \<Rightarrow> ecx_port \<Rightarrow> bool" where
  "building idx p1 p2 \<longleftrightarrow> port_inv p2 \<and> idx_ok p2 idx \<and> prim p2 = prim p1 \<and> redport p2 = redport p1 \<and>
     redstate p2 = redstate p1 \<and> osclock p2 = osclock p1 \<and> txbuflength2 p2 = txbuflength2 p1"

lemma length_enc_alstatus [simp]: "length (enc_alstatus s) = 6"
  by (simp add: enc_alstatus_def)

lemma copy_out_returns:
  "unat idx < EC_MAXBUF \<Longrightarrow> off + n \<le> EC_BUFSIZE \<Longrightarrow> n \<le> length data \<Longrightarrow>
     copy_out p idx off n data = Some (slice (rxbuf (prim p) (unat idx)) off n @ drop n data)"
  by (simp add: copy_out_def)

lemma fprd_add_loop:
  assumes b: "building idx p1 p2" "txbuflength p2 (unat idx) = 34"
    and n: "n \<le> MAX_FPRD_MULTI" "n \<le> length configlst" "n \<le> length slstatlst" "0 < n"
  shows "returns (for_loop (n - 1) 1 (fprd_add m idx configlst slstatlst) ([of_nat EC_HEADERSIZE], p2))
    (\<lambda>(pos, p). building idx p1 p \<and> length pos = n \<and> (\<forall>k<n. unat (pos ! k) + 6 \<le> EC_BUFSIZE))"
proof -
  define P where "P = (\<lambda>i (pos, p). building idx p1 p \<and> txbuflength p (unat idx) = 16 + 18 * int i \<and>
    length pos = i \<and> (\<forall>k<i. unat (pos ! k :: u16) + 6 \<le> EC_BUFSIZE))"
  have "returns (for_loop (n - 1) 1 (fprd_add m idx configlst slstatlst) ([of_nat EC_HEADERSIZE], p2)) (P (1 + (n - 1)))"
  proof (rule for_loop_returns [where P = P])
    show "P 1 ([of_nat EC_HEADERSIZE], p2)" using b by (simp add: P_def)
    fix i s assume i: "1 \<le> i" "i < 1 + (n - 1)" and s: "P i s"
    obtain pos p where [simp]: "s = (pos, p)" by (cases s)
    have h: "building idx p1 p" "txbuflength p (unat idx) = 16 + 18 * int i" "length pos = i"
        "\<And>k. k < i \<Longrightarrow> unat (pos ! k) + 6 \<le> EC_BUFSIZE"
      using s by (auto simp: P_def)
    have inv: "port_inv p" "idx_ok p idx" using h(1) by (simp_all add: building_def)
    have size: "txbuflength p (unat idx) + 12 + int (unat (6 :: u16)) \<le> int EC_BUFSIZE"
      using h(2) i n by simp
    obtain r q where q: "ecx_adddatagram (Tx (unat idx)) EC_CMD_FPRD idx (int i < m - 1) (configlst ! i) ECT_REG_ALSTAT 6
          (enc_alstatus (slstatlst ! i)) p = Some (r, q)" "port_inv q" "idx_ok q idx" "prim q = prim p"
        "redport q = redport p" "redstate q = redstate p" "osclock q = osclock p" "txbuflength2 q = txbuflength2 p"
        "int (unat r) = txbuflength p (unat idx) - 4"
        "txbuflength q = (txbuflength p)(unat idx := txbuflength p (unat idx) + 12 + int (unat (6 :: u16)))"
      using adddatagram_returns [OF inv _ size, of "enc_alstatus (slstatlst ! i)" EC_CMD_FPRD "int i < m - 1" "configlst ! i" ECT_REG_ALSTAT]
      by (auto simp: returns_iff)
    have "unat r + 6 \<le> EC_BUFSIZE" using q(9) h(2) i n by linarith
    then have "P (Suc i) (pos @ [r], q)"
      using h q by (auto simp: P_def building_def nth_append less_Suc_eq)
    then show "returns (fprd_add m idx configlst slstatlst i s) (P (Suc i))"
      using i n q(1) by (simp add: fprd_add_def)
  qed
  then show ?thesis
    by (rule returns_mono) (use n in \<open>auto simp: P_def\<close>)
qed

lemma FPRD_multi_returns:
  assumes inv: "port_inv p"
    and n: "n \<le> MAX_FPRD_MULTI" "n \<le> length configlst" "n \<le> length slstatlst" "0 < n"
  shows "returns (ecx_FPRD_multi (int n) configlst slstatlst timeout p)
    (\<lambda>(w, sl, q). port_ok p q \<and> length sl = length slstatlst)"
proof -
  obtain idx p1 where g: "ecx_getindex p = Some (idx, p1)" "port_inv p1" "unat idx < EC_MAXBUF"
    using getindex_returns [OF inv] by (auto simp: returns_iff)
  obtain p2 where s: "ecx_setupdatagram (Tx (unat idx)) EC_CMD_FPRD idx (configlst ! 0) ECT_REG_ALSTAT 6 (enc_alstatus (slstatlst ! 0)) p1 = Some p2"
      "building idx p1 p2" "txbuflength p2 (unat idx) = 34"
    using setupdatagram_returns [OF g(2,3), of 6 "enc_alstatus (slstatlst ! 0)" EC_CMD_FPRD "configlst ! 0" ECT_REG_ALSTAT]
    by (auto simp: returns_iff building_def)
  obtain pos p3 where a: "for_loop (n - 1) 1 (fprd_add (int n) idx configlst slstatlst) ([of_nat EC_HEADERSIZE], p2) = Some (pos, p3)"
      "building idx p1 p3" "length pos = n" "\<And>k. k < n \<Longrightarrow> unat (pos ! k) + 6 \<le> EC_BUFSIZE"
    using fprd_add_loop [OF s(2,3) n, of "int n"] by (auto simp: returns_iff)
  have b: "port_inv p3" "idx_ok p3 idx" "prim p3 = prim p1" "redport p3 = redport p1" "redstate p3 = redstate p1"
      "osclock p3 = osclock p1" "txbuflength2 p3 = txbuflength2 p1"
    using a(2) by (simp_all add: building_def)
  obtain w p4 q where c: "ecx_srconfirm idx timeout p3 = Some (w, p4)" "ecx_setbufstat idx EC_BUF_EMPTY p4 = Some q" "port_ok p q"
    by (rule send_release [OF g(1) inv b])
  have "returns (for_loop n 0 (fprd_copy p4 idx pos) slstatlst) (\<lambda>sl. length sl = length slstatlst)"
  proof (rule for_loop_returns [where P = "\<lambda>_ sl. length sl = length slstatlst"])
    fix i and sl :: "ec_alstatus list" assume "i < 0 + n" "length sl = length slstatlst"
    then show "returns (fprd_copy p4 idx pos i sl) (\<lambda>sl. length sl = length slstatlst)"
      using a(3,4) n g(3) by (simp add: fprd_copy_def copy_out_returns)
  qed simp
  then obtain sl where l: "for_loop n 0 (fprd_copy p4 idx pos) slstatlst = Some sl" "length sl = length slstatlst"
    by (auto simp: returns_iff)
  have m: "nat (int n - 1) = n - 1" by simp
  have ne: "configlst \<noteq> []" "slstatlst \<noteq> []" using n by auto
  show ?thesis
    using g(1) s(1) a(1) c l ne n(4) by (simp add: ecx_FPRD_multi_def m del: nat_minus_as_int)
qed

section \<open>The states of all slaves\<close>

definition slave_st :: "ecx_context \<Rightarrow> nat \<Rightarrow> u16" where
  "slave_st c k = s_state (slavelist c ! k) AND 0xf"

text \<open>\<open>low\<close> is the least state of the slaves \<open>1\<close> to \<open>i - 1\<close>.\<close>

definition least_state :: "ecx_context \<Rightarrow> nat \<Rightarrow> u16 \<Rightarrow> bool" where
  "least_state c i low \<longleftrightarrow> (\<forall>k. 1 \<le> k \<longrightarrow> k < i \<longrightarrow> low \<le> slave_st c k) \<and>
     (low = 0xff \<or> (\<exists>k. 1 \<le> k \<and> k < i \<and> low = slave_st c k))"

lemma ctx_ok_slavelist: "ctx_ok c d \<Longrightarrow> length l = length (slavelist c) \<Longrightarrow> ctx_ok c (d\<lparr>slavelist := l\<rparr>)"
  by (simp add: ctx_ok_def ctx_inv_def)

lemma upd_slave_ok:
  assumes "ctx_ok c d" "unat k < length (slavelist c)"
  shows "returns (upd_slave k f d) (\<lambda>e. ctx_ok c e \<and> e = d\<lparr>slavelist := (slavelist d)[unat k := f (slavelist d ! unat k)]\<rparr>)"
proof -
  have "length (slavelist d) = length (slavelist c)" using assms(1) by (simp add: ctx_ok_def)
  with assms show ?thesis by (simp add: upd_slave_def get_slave_def ctx_ok_slavelist)
qed

lemma store_status_step:
  assumes "least_state c i low" "1 \<le> i" "i < length (slavelist c)" "i - f < length sl"
  shows "returns (store_status f sl i (low, c)) (\<lambda>(low', d). least_state d (Suc i) low' \<and>
    (\<exists>l. length l = length (slavelist c) \<and> d = c\<lparr>slavelist := l\<rparr>))"
proof -
  let ?x = "sl ! (i - f)" and ?L = "slavelist c"
  let ?l = "?L[i := (?L ! i)\<lparr>s_ALstatuscode := alstatuscode ?x, s_state := alstatus ?x\<rparr>]"
  let ?l' = "?l[0 := (?l ! 0)\<lparr>s_ALstatuscode := s_ALstatuscode (?l ! 0) OR s_ALstatuscode (?l ! i)\<rparr>]"
  let ?low = "if alstatus ?x AND 0xf < low then alstatus ?x AND 0xf else low"
  have st: "slave_st (c\<lparr>slavelist := ?l'\<rparr>) k = (if k = i then alstatus ?x AND 0xf else slave_st c k)" if "1 \<le> k" for k
    using that assms(2,3) by (simp add: slave_st_def)
  have "least_state (c\<lparr>slavelist := ?l'\<rparr>) (Suc i) ?low"
  proof -
    have "?low \<le> slave_st (c\<lparr>slavelist := ?l'\<rparr>) k" if "1 \<le> k" "k < Suc i" for k
      using that assms(1) st [OF that(1)] by (cases "k = i") (auto simp: least_state_def not_less dest: less_imp_le intro: order_trans)
    moreover have "?low = 0xff \<or> (\<exists>k. 1 \<le> k \<and> k < Suc i \<and> ?low = slave_st (c\<lparr>slavelist := ?l'\<rparr>) k)"
    proof (cases "alstatus ?x AND 0xf < low")
      case True
      then show ?thesis using st [OF assms(2)] assms(2) by (intro disjI2 exI [of _ i]) simp
    next
      case False
      show ?thesis
      proof (cases "low = 0xff")
        case False
        with assms(1) obtain k where "1 \<le> k" "k < i" "low = slave_st c k" by (auto simp: least_state_def)
        with st [of k] \<open>\<not> alstatus ?x AND 0xf < low\<close> show ?thesis by (intro disjI2 exI [of _ k]) simp
      qed (use False in simp)
    qed
    ultimately show ?thesis by (simp only: least_state_def) blast
  qed
  moreover have "store_status f sl i (low, c) = Some (?low, c\<lparr>slavelist := ?l'\<rparr>)"
    using assms(2-4) by (auto simp: store_status_def Let_def arr_get_def)
  moreover have "length ?l' = length ?L" by simp
  ultimately show ?thesis by (simp only: returns_Some prod.case) blast
qed

lemma collect_adr_loop:
  assumes "f + k \<le> length (slavelist c)" "k \<le> MAX_FPRD_MULTI"
  shows "returns (for_loop k f (collect_adr c) []) (\<lambda>l. length l = k)"
proof -
  have "returns (for_loop k f (collect_adr c) []) (\<lambda>l. length l = f + k - f)"
    by (rule for_loop_returns [where P = "\<lambda>i l. length l = i - f"]) (use assms in \<open>auto simp: collect_adr_def\<close>)
  then show ?thesis by simp
qed

text \<open>One frame of the slow path: the states of the next at most 64 slaves.\<close>

lemma readstate_body_step:
  assumes ok: "ctx_ok c0 c" and low: "least_state c (unat f) low"
    and n: "slavecount c0 < int (length (slavelist c0))" "slavecount c0 < 0x7fff" "1 \<le> unat f" "int (unat f) \<le> slavecount c0"
  shows "returns (readstate_body (f, low, c)) (\<lambda>((f', low', d), again). ctx_ok c0 d \<and> least_state d (unat f') low' \<and>
    unat f < unat f' \<and> (if again then int (unat f') \<le> slavecount c0 else int (unat f') = slavecount c0 + 1))"
proof -
  let ?n = "slavecount c0"
  have c: "slavecount c = ?n" "length (slavelist c) = length (slavelist c0)" "ctx_inv c" "port_inv (port c)"
    using ok by (simp_all add: ctx_ok_def ctx_inv_def)
  define l where "l = (if int (unat (word_of_int ?n :: u16)) - int (unat f) \<ge> int MAX_FPRD_MULTI
    then f + of_nat MAX_FPRD_MULTI - 1 else word_of_int ?n)"
  have "0 \<le> ?n" using n(3,4) by linarith
  then have un: "int (unat (word_of_int ?n :: u16)) = ?n"
    using n(2) by (simp add: uint_word_of_int_eq take_bit_int_eq_self)
  have l: "unat f \<le> unat l" "unat l < unat f + MAX_FPRD_MULTI" "int (unat l) \<le> ?n"
    "\<not> int (unat l) < ?n \<Longrightarrow> int (unat l) = ?n"
  proof -
    have "unat f \<le> unat l \<and> unat l < unat f + MAX_FPRD_MULTI \<and> int (unat l) \<le> ?n"
    proof (cases "int (unat (word_of_int ?n :: u16)) - int (unat f) \<ge> int MAX_FPRD_MULTI")
      case True
      have "unat (f + of_nat MAX_FPRD_MULTI - 1) = unat f + 63"
      proof -
        have "f + of_nat MAX_FPRD_MULTI - 1 = (of_nat (unat f + 63) :: u16)" by simp
        moreover have "unat f + 63 < 65536" using n(2,4) by linarith
        ultimately show ?thesis by (simp only: unat_of_nat_u16)
      qed
      with True un show ?thesis unfolding l_def by simp
    next
      case False
      then have "l = word_of_int ?n" unfolding l_def by (simp only: if_False)
      then have "int (unat l) = ?n" using un by (simp only:)
      with False un n(4) show ?thesis by linarith
    qed
    then show "unat f \<le> unat l" "unat l < unat f + MAX_FPRD_MULTI" "int (unat l) \<le> ?n"
      "\<not> int (unat l) < ?n \<Longrightarrow> int (unat l) = ?n" by auto
  qed
  define k where "k = unat l + 1 - unat f"
  have k: "0 < k" "k \<le> MAX_FPRD_MULTI" "unat f + k = unat l + 1" "unat f + k \<le> length (slavelist c)"
    using l(1-3) n(1) c(2) unfolding k_def by linarith+
  have "unat l < 0xffff" using l(3) n(2) by linarith
  then have lt: "l < 0xffff" by (simp add: word_less_nat_alt)
  obtain cfg where cfg: "for_loop k (unat f) (collect_adr c) [] = Some cfg" "length cfg = k"
    using collect_adr_loop [OF k(4,2)] by (auto simp: returns_iff)
  have multi: "returns (ecx_FPRD_multi (int k) cfg (replicate k no_alstatus) EC_TIMEOUTRET3 (port c))
      (\<lambda>(w, sl, q). port_ok (port c) q \<and> length sl = k)"
    using FPRD_multi_returns [OF c(4) k(2), of cfg "replicate k no_alstatus"] cfg(2) k(1) by simp
  have "returns (on_port_buf (ecx_FPRD_multi (int k) cfg (replicate k no_alstatus) EC_TIMEOUTRET3) c)
      (\<lambda>(w, sl, d). talks c d \<and> length sl = k)"
    by (rule on_port_buf_returns [where Q = "\<lambda>_ sl. length sl = k"]) (fact c(3) multi)+
  then obtain w sl d where d:
      "on_port_buf (ecx_FPRD_multi (int k) cfg (replicate k no_alstatus) EC_TIMEOUTRET3) c = Some (w, sl, d)" "talks c d" "length sl = k"
    by (auto simp: returns_iff)
  have dok: "ctx_ok c0 d" using ok talks_ok [OF d(2)] by (rule ctx_ok_trans)
  have low_d: "least_state d (unat f) low" using low d(2) by (simp add: least_state_def slave_st_def talks_slavelist)
  have "returns (for_loop k (unat f) (store_status (unat f) sl) (low, d)) (\<lambda>(low', e). least_state e (unat f + k) low' \<and>
      (\<exists>x. length x = length (slavelist d) \<and> e = d\<lparr>slavelist := x\<rparr>))"
  proof (rule for_loop_returns [where P = "\<lambda>i (low', e). least_state e i low' \<and> (\<exists>x. length x = length (slavelist d) \<and> e = d\<lparr>slavelist := x\<rparr>)"])
    show "case (low, d) of (low', e) \<Rightarrow> least_state e (unat f) low' \<and> (\<exists>x. length x = length (slavelist d) \<and> e = d\<lparr>slavelist := x\<rparr>)"
      using low_d by (auto intro: exI [of _ "slavelist d"])
  next
    fix i s assume i: "unat f \<le> i" "i < unat f + k"
      and "case s of (low', e) \<Rightarrow> least_state e i low' \<and> (\<exists>x. length x = length (slavelist d) \<and> e = d\<lparr>slavelist := x\<rparr>)"
    then obtain low' e x where s: "s = (low', e)" and e: "least_state e i low'" "length x = length (slavelist d)"
        "e = d\<lparr>slavelist := x\<rparr>" by (cases s) blast
    have "length (slavelist e) = length (slavelist c)" using e(2,3) d(2) by (simp add: talks_slavelist)
    then have "returns (store_status (unat f) sl i (low', e)) (\<lambda>(low', e'). least_state e' (Suc i) low' \<and>
        (\<exists>y. length y = length (slavelist e) \<and> e' = e\<lparr>slavelist := y\<rparr>))"
      using i k(4) n(3) d(3) by (intro store_status_step [OF e(1)]) simp_all
    then show "returns (store_status (unat f) sl i s) (\<lambda>(low', e). least_state e (Suc i) low' \<and>
        (\<exists>x. length x = length (slavelist d) \<and> e = d\<lparr>slavelist := x\<rparr>))"
      unfolding s by (rule returns_mono) (auto simp: e(3) e(2))
  qed
  then obtain low' e x where e: "for_loop k (unat f) (store_status (unat f) sl) (low, d) = Some (low', e)"
      "least_state e (unat f + k) low'" "length x = length (slavelist d)" "e = d\<lparr>slavelist := x\<rparr>"
    by (auto simp: returns_iff)
  have e_ok: "ctx_ok c0 e" unfolding e(4) by (rule ctx_ok_slavelist [OF dok]) (use e(3) dok in \<open>simp add: ctx_ok_def\<close>)
  then have "slavecount e = ?n" by (simp add: ctx_ok_def)
  moreover have next_f: "unat (l + 1) = unat l + 1"
    using lt by (simp add: word_less_nat_alt unat_word_ariths)
  moreover have num: "int (unat l) - int (unat f) + 1 = int k" using l(1) by (simp add: k_def)
  ultimately have "readstate_body (f, low, c) = Some ((l + 1, low', e), int (unat l) < ?n)"
    unfolding readstate_body_def Let_def c(1) l_def [symmetric] prod.case
    using lt cfg(1) d(1) e(1) k_def [symmetric] by simp
  then show ?thesis
    using e(2) k(1,3) l(3,4) e_ok next_f by auto
qed

lemma slow_path:
  assumes ok: "ctx_ok c0 c"
    and n: "1 \<le> slavecount c0" "slavecount c0 < int (length (slavelist c0))" "slavecount c0 < 0x7fff"
  shows "returns (do_while readstate_body (1, 0xff, c)) (\<lambda>(_, low, d). ctx_ok c0 d \<and>
    least_state d (nat (slavecount c0) + 1) low)"
proof (rule do_while_returns [where P = "\<lambda>(f, low, d). ctx_ok c0 d \<and> least_state d (unat f) low \<and> 1 \<le> unat f \<and> int (unat f) \<le> slavecount c0"
      and f = "\<lambda>(f, _, _). nat (slavecount c0 + 1) - unat f"])
  show "case (1 :: u16, 0xff, c) of (f, low, d) \<Rightarrow> ctx_ok c0 d \<and> least_state d (unat f) low \<and> 1 \<le> unat f \<and> int (unat f) \<le> slavecount c0"
    using ok n(1) by (simp add: least_state_def)
next
  fix s :: "u16 \<times> u16 \<times> ecx_context"
  assume "case s of (f, low, d) \<Rightarrow> ctx_ok c0 d \<and> least_state d (unat f) low \<and> 1 \<le> unat f \<and> int (unat f) \<le> slavecount c0"
  then obtain f low d where s: "s = (f, low, d)"
    and h: "ctx_ok c0 d" "least_state d (unat f) low" "1 \<le> unat f" "int (unat f) \<le> slavecount c0"
    by (cases s) auto
  have le: "uint x \<le> slavecount c0 \<longleftrightarrow> unat x \<le> nat (slavecount c0)" for x :: u16
    using n(1) unfolding uint_nat by linarith
  have eq: "uint x = slavecount c0 + 1 \<longleftrightarrow> unat x = Suc (nat (slavecount c0))" for x :: u16
    using n(1) unfolding uint_nat by linarith
  show "returns (readstate_body s) (\<lambda>(s', again).
      if again then (case s' of (f, low, d) \<Rightarrow> ctx_ok c0 d \<and> least_state d (unat f) low \<and> 1 \<le> unat f \<and> int (unat f) \<le> slavecount c0) \<and>
        (case s' of (f, _, _) \<Rightarrow> nat (slavecount c0 + 1) - unat f) < (case s of (f, _, _) \<Rightarrow> nat (slavecount c0 + 1) - unat f)
      else case s' of (_, low, d) \<Rightarrow> ctx_ok c0 d \<and> least_state d (nat (slavecount c0) + 1) low)"
    unfolding s
    by (rule returns_mono [OF readstate_body_step [OF h(1,2) n(2,3) h(3,4)]])
      (use n(1) in \<open>auto split: if_splits simp: nat_add_distrib le eq\<close>)
qed

lemma set_state_loop:
  assumes "n < length l"
  shows "returns (for_loop n 1 (set_state st) l) (\<lambda>l'. length l' = length l \<and> l' ! 0 = l ! 0 \<and>
    (\<forall>k. 1 \<le> k \<longrightarrow> k \<le> n \<longrightarrow> s_state (l' ! k) = st))"
proof -
  have "returns (for_loop n 1 (set_state st) l) ((\<lambda>i l'. length l' = length l \<and> l' ! 0 = l ! 0 \<and>
      (\<forall>k. 1 \<le> k \<longrightarrow> k < i \<longrightarrow> s_state (l' ! k) = st)) (1 + n))"
    by (rule for_loop_returns)
      (use assms in \<open>auto simp: set_state_def nth_list_update less_Suc_eq\<close>)
  then show ?thesis by (rule returns_mono) auto
qed

text \<open>What \<^verbatim>\<open>ecx_readstate\<close> leaves in the tables.\<close>

definition state_summary :: "nat \<Rightarrow> u16 \<Rightarrow> ecx_context \<Rightarrow> bool" where
  "state_summary n low d \<longleftrightarrow> s_state (slavelist d ! 0) = low \<and> (\<forall>k\<in>{1..n}. low \<le> slave_st d k) \<and> (\<exists>k\<in>{1..n}. low = slave_st d k)"

lemma least_state_summary:
  assumes "least_state d (n + 1) low" "1 \<le> n" "0 < length (slavelist d)"
  shows "state_summary n low (d\<lparr>slavelist := (slavelist d)[0 := (slavelist d ! 0)\<lparr>s_state := low\<rparr>]\<rparr>)"
proof -
  let ?d = "d\<lparr>slavelist := (slavelist d)[0 := (slavelist d ! 0)\<lparr>s_state := low\<rparr>]\<rparr>"
  have st: "slave_st ?d k = slave_st d k" if "1 \<le> k" for k using that by (simp add: slave_st_def)
  have "low \<le> slave_st d 1" using assms(1,2) by (simp add: least_state_def)
  also have "slave_st d 1 \<le> 0xf" unfolding slave_st_def by (rule word_and_le1)
  finally have "low \<noteq> 0xff" by auto
  then obtain k where "1 \<le> k" "k \<le> n" "low = slave_st d k" using assms(1) by (auto simp: least_state_def)
  then have "\<exists>k\<in>{1..n}. low = slave_st ?d k" using st by auto
  moreover have "\<forall>k\<in>{1..n}. low \<le> slave_st ?d k" using assms(1) st by (auto simp: least_state_def)
  ultimately show ?thesis using assms(3) by (simp add: state_summary_def)
qed

section \<open>Accesses from the context\<close>

lemma ctx_reads:
  assumes "ctx_inv c" "unat n \<le> EC_MAXDATA" "unat n \<le> length data"
  shows "returns (on_port_buf (ecx_FPRD adp ado n data t) c) (\<lambda>(w, b, d). talks c d \<and> length b = length data)" (is ?F)
    and "returns (on_port_buf (ecx_BRD ado' ado n data t) c) (\<lambda>(w, b, d). talks c d \<and> length b = length data)" (is ?B)
proof -
  note port = ctx_inv_port [OF assms(1)]
  show ?F
    by (rule on_port_buf_returns [where Q = "\<lambda>_ b. length b = length data", OF assms(1)])
      (auto simp: ecx_FPRD_def intro!: returns_mono [OF read_primitive_returns [OF port assms(2,3)]])
  show ?B
    by (rule on_port_buf_returns [where Q = "\<lambda>_ b. length b = length data", OF assms(1)])
      (auto simp: ecx_BRD_def intro!: returns_mono [OF read_primitive_returns [OF port assms(2,3)]])
qed

text \<open>Only entry \<open>k\<close> of the table of slaves may have changed.\<close>

definition one_slave :: "nat \<Rightarrow> ecx_context \<Rightarrow> ecx_context \<Rightarrow> bool" where
  "one_slave k c d \<longleftrightarrow> ctx_ok c d \<and> (\<forall>j. j \<noteq> k \<longrightarrow> slavelist d ! j = slavelist c ! j)"

lemma one_slave_talks: "one_slave k c d \<Longrightarrow> talks d e \<Longrightarrow> one_slave k c e"
  by (auto simp: one_slave_def talks_slavelist dest: talks_ok intro: ctx_ok_trans)

lemma one_slave_upd:
  assumes "one_slave (unat k) c d" "unat k < length (slavelist c)"
  shows "returns (upd_slave k f d) (\<lambda>e. one_slave (unat k) c e \<and> e = d\<lparr>slavelist := (slavelist d)[unat k := f (slavelist d ! unat k)]\<rparr>)"
  using upd_slave_ok [of c d k f] assms by (auto simp: one_slave_def returns_iff)

lemma one_slave_inv: "one_slave k c d \<Longrightarrow> ctx_inv d"
  by (auto simp: one_slave_def dest: ctx_ok_inv)

lemma statecheck_body_step:
  assumes h: "one_slave (unat slave) c0 c" and n: "unat slave < length (slavelist c0)"
  shows "returns (statecheck_body slave adr req timer (r, c)) (\<lambda>((r', d), again). one_slave (unat slave) c0 d \<and>
    (again \<longrightarrow> ctx_left d < ctx_left c))"
proof -
  note inv = one_slave_inv [OF h]
  have "returns (statecheck_read slave adr c) (\<lambda>(_, d). one_slave (unat slave) c0 d \<and> ctx_left d \<le> ctx_left c)"
  proof (cases "slave < 1")
    case True
    obtain w b d where "on_port_buf (ecx_BRD 0 ECT_REG_ALSTAT 2 (enc16 0) EC_TIMEOUTRET) c = Some (w, b, d)" "talks c d"
      using ctx_reads(2) [OF inv, of 2 "enc16 0" 0 ECT_REG_ALSTAT EC_TIMEOUTRET] by (auto simp: returns_iff)
    with True one_slave_talks [OF h] show ?thesis by (simp add: statecheck_read_def talks_left)
  next
    case False
    obtain w b d where d: "on_port_buf (ecx_FPRD adr ECT_REG_ALSTAT 6 (enc_alstatus no_alstatus) EC_TIMEOUTRET) c = Some (w, b, d)" "talks c d"
      using ctx_reads(1) [OF inv, of 6 "enc_alstatus no_alstatus" adr ECT_REG_ALSTAT EC_TIMEOUTRET] by (auto simp: returns_iff)
    from one_slave_upd [OF one_slave_talks [OF h d(2)] n] False d(1) talks_left [OF d(2)] show ?thesis
      by (auto simp: statecheck_read_def returns_iff ctx_left_def)
  qed
  then obtain r' d where m: "statecheck_read slave adr c = Some (r', d)" "one_slave (unat slave) c0 d" "ctx_left d \<le> ctx_left c"
    by (auto simp: returns_iff)
  let ?a = "ctx_again (r' AND 0xf \<noteq> req) timer d"
  have "one_slave (unat slave) c0 (snd ?a)"
    by (rule one_slave_talks [OF m(2) ctx_again_talks [OF one_slave_inv [OF m(2)]]])
  moreover have "fst ?a \<longrightarrow> ctx_left (snd ?a) < ctx_left c"
    using ctx_again_left [OF one_slave_inv [OF m(2)]] m(3) by fastforce
  ultimately show ?thesis
    using m(1) by (simp add: statecheck_body_def case_prod_unfold Let_def)
qed

section \<open>Properties\<close>

text \<open>
  C14: refreshing the states of at least one slave (and of fewer slaves than the table has
  entries) always ends; it returns the lowest state found, which is the state of one of the
  slaves, and stores it in entry 0, whether all slaves answered with one state or the slaves
  had to be asked one by one, 64 to a frame.
\<close>

theorem readstate_lowest:
  assumes "ctx_inv c" "1 \<le> slavecount c" "slavecount c < int (length (slavelist c))" "slavecount c < 0x7fff"
  shows "returns (ecx_readstate c) (\<lambda>(low, d). ctx_ok c d \<and> state_summary (nat (slavecount c)) low d)"
proof -
  have "returns (on_port_buf (ecx_BRD 0 ECT_REG_ALSTAT 2 (enc16 0) EC_TIMEOUTRET) c) (\<lambda>(w, b, d). talks c d \<and> length b = 2)"
    by (rule on_port_buf_returns [where Q = "\<lambda>_ b. length b = 2"])
      (use assms(1) in \<open>auto simp: ecx_BRD_def intro!: returns_mono [OF read_primitive_returns] dest: ctx_inv_port\<close>)
  then obtain w b d where brd: "on_port_buf (ecx_BRD 0 ECT_REG_ALSTAT 2 (enc16 0) EC_TIMEOUTRET) c = Some (w, b, d)" "talks c d"
    by (auto simp: returns_iff)
  have slavecount: "slavecount d = slavecount c" using brd(2) by (simp add: talks_def ctx_same_eq)
  let ?st = "dec16 b AND 0x0f"
  let ?all = "?st \<in> {EC_STATE_INIT, EC_STATE_PRE_OP, EC_STATE_SAFE_OP, EC_STATE_OPERATIONAL}"
  have n: "0 < length (slavelist c)" using assms(2,3) by linarith
  have upd: "returns (if B then upd_slave 0 f d else Some d) (\<lambda>e. ctx_ok c e \<and> slavecount e = slavecount c)" if "ctx_ok c d" for B f d
    using upd_slave_ok [OF that, of 0 f] that n by (auto simp: returns_iff ctx_ok_def)
  obtain d1 where d1: "(if dec16 b AND EC_STATE_ERROR = 0 then upd_slave 0 (\<lambda>s. s\<lparr>s_ALstatuscode := 0\<rparr>) d else Some d) = Some d1" "ctx_ok c d1"
    using upd [OF talks_ok [OF brd(2)]] by (auto simp only: returns_iff)
  obtain d2 where d2: "(if ?all then upd_slave 0 (\<lambda>s. s\<lparr>s_state := ?st\<rparr>) d1 else Some d1) = Some d2" "ctx_ok c d2" "slavecount d2 = slavecount c"
    using upd [OF d1(2)] by (auto simp only: returns_iff)
  show ?thesis
  proof (cases "dec16 b AND EC_STATE_ERROR = 0 \<and> ?all \<and> w \<ge> slavecount c")
    case True
    have len: "length (slavelist d2) = length (slavelist c)" using d2(2) by (simp add: ctx_ok_def)
    then have "nat (slavecount c) < length (slavelist d2)" using assms(2,3) by linarith
    then obtain l where l: "for_loop (nat (slavecount c)) 1 (set_state ?st) (slavelist d2) = Some l"
        "length l = length (slavelist d2)" "l ! 0 = slavelist d2 ! 0" "\<And>k. 1 \<le> k \<Longrightarrow> k \<le> nat (slavecount c) \<Longrightarrow> s_state (l ! k) = ?st"
      using set_state_loop [of "nat (slavecount c)" "slavelist d2" ?st] by (auto simp: returns_iff)
    have "upd_slave 0 (\<lambda>s. s\<lparr>s_state := ?st\<rparr>) d1 = Some d2" using d2(1) conjunct1 [OF conjunct2 [OF True]] by (simp only: if_True)
    then have "slavelist d2 = (slavelist d1)[0 := (slavelist d1 ! 0)\<lparr>s_state := ?st\<rparr>]"
      using upd_slave_ok [OF d1(2), of 0 "\<lambda>s. s\<lparr>s_state := ?st\<rparr>"] n by simp
    then have "s_state (slavelist d2 ! 0) = ?st" using len n by (cases "slavelist d1") auto
    then have "state_summary (nat (slavecount c)) ?st (d2\<lparr>slavelist := l\<rparr>)"
      using l(3,4) assms(2) by (auto simp: state_summary_def slave_st_def and.assoc intro!: bexI [of _ 1])
    moreover have "ctx_ok c (d2\<lparr>slavelist := l\<rparr>)" using d2(2) l(2) len by (simp add: ctx_ok_slavelist)
    ultimately show ?thesis
      using True brd(1) d1(1) d2(1,3) l(1) slavecount by (simp add: ecx_readstate_def Let_def)
  next
    case False
    obtain d3 where d3: "upd_slave 0 (\<lambda>s. s\<lparr>s_ALstatuscode := 0\<rparr>) d2 = Some d3" "ctx_ok c d3"
      using upd_slave_ok [OF d2(2), of 0] n by (auto simp: returns_iff)
    obtain f low d4 where d4: "do_while readstate_body (1, 0xff, d3) = Some (f, low, d4)" "ctx_ok c d4"
        "least_state d4 (nat (slavecount c) + 1) low"
      using slow_path [OF d3(2) assms(2-4)] by (auto simp: returns_iff)
    have n4: "0 < length (slavelist d4)" using n d4(2) by (simp add: ctx_ok_def)
    have n0: "unat (0 :: u16) < length (slavelist c)" using n by simp
    have "returns (upd_slave 0 (\<lambda>s. s\<lparr>s_state := low\<rparr>) d4) (\<lambda>e. ctx_ok c e \<and> state_summary (nat (slavecount c)) low e)"
      by (rule returns_mono [OF upd_slave_ok [OF d4(2) n0]]) (use least_state_summary [OF d4(3) _ n4] assms(2) in simp)
    with False brd(1) d1(1) d2(1) d3(1) d4(1) slavecount show ?thesis
      by (auto simp: ecx_readstate_def Let_def)
  qed
qed

theorem readstate_lowest_witness:
  "\<exists>low d. ecx_readstate (demo_context (demo_port []) [no_slave, no_slave]) = Some (low, d) \<and> state_summary 1 low d"
  using readstate_lowest [OF ctx_inv_demo [OF port_inv_demo_nil], of "[no_slave, no_slave]"]
  by (auto simp: returns_iff demo_context_def)

text \<open>
  Waiting for a state always ends; the result is the state of the slave as it is stored
  in the table, and no other slave is touched.
\<close>

theorem statecheck_total:
  assumes "ctx_inv c" "unat slave < length (slavelist c)" "int (unat slave) \<le> slavecount c"
  shows "returns (ecx_statecheck slave reqstate timeout c) (\<lambda>(st, d). one_slave (unat slave) c d \<and> st = slave_st d (unat slave))"
proof -
  let ?c = "snd (ctx_timer_start timeout c)" and ?t = "fst (ctx_timer_start timeout c)"
  let ?s = "slavelist c ! unat slave"
  have "one_slave (unat slave) c c" using assms(1) by (simp add: one_slave_def ctx_ok_refl)
  from one_slave_talks [OF this ctx_timer_start_talks [OF assms(1)]] have c: "one_slave (unat slave) c ?c" .
  have sl: "slavelist ?c = slavelist c" by (rule talks_slavelist [OF ctx_timer_start_talks [OF assms(1)]])
  have "returns (do_while (statecheck_body slave (s_configadr ?s) reqstate ?t) (0, ?c)) (\<lambda>s. one_slave (unat slave) c (snd s) \<and> True)"
  proof (rule polling_ctx [where R = "\<lambda>_. True"])
    fix s :: "u16 \<times> ecx_context" assume "one_slave (unat slave) c (snd s)"
    from statecheck_body_step [OF this assms(2), of "s_configadr ?s" reqstate ?t "fst s"]
    show "returns (statecheck_body slave (s_configadr ?s) reqstate ?t s) (\<lambda>(s', again). one_slave (unat slave) c (snd s') \<and>
        (if again then True \<and> ctx_left (snd s') < ctx_left (snd s) else True))"
      unfolding prod.collapse by (rule returns_mono) auto
  qed (use c in simp_all)
  then obtain rval d where d: "do_while (statecheck_body slave (s_configadr ?s) reqstate ?t) (0, ?c) = Some (rval, d)" "one_slave (unat slave) c d"
    by (auto simp: returns_iff)
  have "length (slavelist d) = length (slavelist c)" using d(2) by (simp add: one_slave_def ctx_ok_def)
  then have "returns (upd_slave slave (\<lambda>s. s\<lparr>s_state := rval\<rparr>) d) (\<lambda>e. one_slave (unat slave) c e \<and> rval AND 0xf = slave_st e (unat slave))"
    by (intro returns_mono [OF one_slave_upd [OF d(2) assms(2)]]) (use assms(2) in \<open>auto simp: slave_st_def\<close>)
  then obtain e where e: "upd_slave slave (\<lambda>s. s\<lparr>s_state := rval\<rparr>) d = Some e" "one_slave (unat slave) c e" "rval AND 0xf = slave_st e (unat slave)"
    by (auto simp: returns_iff)
  have "ecx_statecheck slave reqstate timeout c = Some (rval AND 0xf, e)"
    using assms(2,3) d(1) e(1) sl by (simp add: ecx_statecheck_def case_prod_unfold Let_def get_slave_def arr_get_def)
  with e(2,3) show ?thesis by simp
qed

theorem statecheck_total_witness:
  "\<exists>st d. ecx_statecheck 1 EC_STATE_OPERATIONAL 2000 (demo_context (demo_port []) [no_slave, no_slave]) = Some (st, d) \<and> st = slave_st d 1"
  using statecheck_total [OF ctx_inv_demo [OF port_inv_demo_nil], where sl1 = "[no_slave, no_slave]" and slave = 1]
  by (auto simp: returns_iff demo_context_def)

end
