(* ===== verification/Mailbox.thy ===== *)
theory Mailbox
  imports SlaveState
begin

text \<open>
  The mailbox link layer, \<^verbatim>\<open>soem/ethercatmain.c\<close>: waiting for an empty input mailbox, sending
  a mailbox, and receiving one, with the repeat request when the read was lost. A mailbox
  buffer (\<^verbatim>\<open>ec_mbxbuft\<close>) is the list of its \<open>EC_MAXMBX + 1\<close> bytes; error replies and
  emergencies are put on the error list and never delivered.
\<close>

section \<open>Operations\<close>

type_synonym ec_mbxbuf = "u8 list"

abbreviation ECT_MBXT_ERR :: u8 where "ECT_MBXT_ERR \<equiv> 0x00"
abbreviation ECT_MBXT_EOE :: u8 where "ECT_MBXT_EOE \<equiv> 0x02"
abbreviation ECT_MBXT_COE :: u8 where "ECT_MBXT_COE \<equiv> 0x03"
abbreviation ECT_MBXT_FOE :: u8 where "ECT_MBXT_FOE \<equiv> 0x04"
abbreviation ECT_MBXT_SOE :: u8 where "ECT_MBXT_SOE \<equiv> 0x05"
abbreviation EOE_FRAG_DATA :: u16 where "EOE_FRAG_DATA \<equiv> 0"

definition ec_nextmbxcnt :: "u8 \<Rightarrow> u8" where
  "ec_nextmbxcnt cnt = (let cnt = cnt + 1 in if cnt > 7 then 1 else cnt)"

definition ec_clearmbx :: "ec_mbxbuf \<Rightarrow> ec_mbxbuf" where
  "ec_clearmbx mbx = replicate EC_MAXMBX 0 @ drop EC_MAXMBX mbx"

text \<open>Byte \<open>i\<close> and the word at byte \<open>i\<close> of a mailbox; \<open>mbxtype\<close> is byte 5 of its header.\<close>

definition mbx8 :: "ec_mbxbuf \<Rightarrow> nat \<Rightarrow> u8" where
  "mbx8 mbx i = list_buf mbx i"

definition mbx16 :: "ec_mbxbuf \<Rightarrow> nat \<Rightarrow> u16" where
  "mbx16 mbx i = get16 (list_buf mbx) i"

definition mbx_kind :: "ec_mbxbuf \<Rightarrow> u8" where
  "mbx_kind mbx = mbx8 mbx 5 AND 0x0f"

definition mbxempty_body :: "u16 \<Rightarrow> ec_timet \<Rightarrow> int \<times> u8 \<times> ecx_context \<Rightarrow> ((int \<times> u8 \<times> ecx_context) \<times> bool) option" where
  "mbxempty_body configadr timer = (\<lambda>(_, _, c). do {
     (wkc, b, c) \<leftarrow> on_port_buf (ecx_FPRD configadr ECT_REG_SM0STAT 1 [0] EC_TIMEOUTRET) c;
     let SMstat = b ! 0;
     let (again, c) = ctx_again (wkc \<le> 0 \<or> SMstat AND 0x08 \<noteq> 0) timer c;
     Some ((wkc, SMstat, c), again)
   })"

definition ecx_mbxempty :: "u16 \<Rightarrow> int \<Rightarrow> ecx_context \<Rightarrow> (int \<times> ecx_context) option" where
  "ecx_mbxempty slave timeout c = do {
     let (timer, c) = ctx_timer_start timeout c;
     s \<leftarrow> get_slave slave c;
     (wkc, SMstat, c) \<leftarrow> do_while (mbxempty_body (s_configadr s) timer) (0, 0, c);
     Some (if wkc > 0 \<and> SMstat AND 0x08 = 0 then 1 else 0, c)
   }"

definition ecx_mbxsend :: "u16 \<Rightarrow> ec_mbxbuf \<Rightarrow> int \<Rightarrow> ecx_context \<Rightarrow> (int \<times> ecx_context) option" where
  "ecx_mbxsend slave mbx timeout c = do {
     s \<leftarrow> get_slave slave c;
     let mbxl = s_mbx_l s;
     if mbxl > 0 \<and> unat mbxl \<le> EC_MAXMBX then do {
       (empty, c) \<leftarrow> ecx_mbxempty slave timeout c;
       if empty \<noteq> 0 then on_port (ecx_FPWR (s_configadr s) (s_mbx_wo s) mbxl mbx EC_TIMEOUTRET3) c
       else Some (0, c)
     } else Some (0, c)
   }"

text \<open>
  Waiting for a full output mailbox: the status register is cleared before each read in the
  first wait and kept in the wait after a repeat request.
\<close>

definition mbxavail_body :: "bool \<Rightarrow> u16 \<Rightarrow> ec_timet \<Rightarrow> int \<times> u16 \<times> ecx_context \<Rightarrow> ((int \<times> u16 \<times> ecx_context) \<times> bool) option" where
  "mbxavail_body clear configadr timer = (\<lambda>(_, SMstat, c). do {
     (wkc, b, c) \<leftarrow> on_port_buf (ecx_FPRD configadr ECT_REG_SM1STAT 2 (enc16 (if clear then 0 else SMstat)) EC_TIMEOUTRET) c;
     let SMstat = dec16 b;
     let (again, c) = ctx_again (wkc \<le> 0 \<or> SMstat AND 0x08 = 0) timer c;
     Some ((wkc, SMstat, c), again)
   })"

text \<open>
  Waiting for the toggle to be acknowledged. \<^verbatim>\<open>SMcontr\<close> is only looked at after a read that
  has filled it.
\<close>

definition mbxtoggle_body :: "u16 \<Rightarrow> u16 \<Rightarrow> ec_timet \<Rightarrow> ecx_context \<Rightarrow> (ecx_context \<times> bool) option" where
  "mbxtoggle_body SMstat configadr timer c = do {
     (wkc2, b, c) \<leftarrow> on_port_buf (ecx_FPRD configadr ECT_REG_SM1CONTR 1 [0] EC_TIMEOUTRET) c;
     let (again, c) = ctx_again (wkc2 \<le> 0 \<or> b ! 0 AND 0x02 \<noteq> hi8 SMstat AND 0x02) timer c;
     Some (c, again)
   }"

definition mbx_repeat :: "u16 \<Rightarrow> ec_timet \<Rightarrow> u16 \<Rightarrow> ecx_context \<Rightarrow> (u16 \<times> ecx_context) option" where
  "mbx_repeat configadr timer SMstat c = do {
     let SMstat = SMstat XOR 0x0200;
     (_, c) \<leftarrow> on_port (ecx_FPWR configadr ECT_REG_SM1STAT 2 (enc16 SMstat) EC_TIMEOUTRET) c;
     c \<leftarrow> do_while (mbxtoggle_body SMstat configadr timer) c;
     (_, SMstat, c) \<leftarrow> do_while (mbxavail_body False configadr timer) (0, SMstat, c);
     Some (SMstat, c)
   }"

text \<open>What is done with the mailbox that the read with result \<open>wkc\<close> has brought.\<close>

definition mbx_handle :: "u16 \<Rightarrow> u16 \<Rightarrow> ec_timet \<Rightarrow> ec_mbxbuf \<Rightarrow> int \<Rightarrow> u16 \<Rightarrow> ecx_context \<Rightarrow> (int \<times> u16 \<times> ecx_context) option" where
  "mbx_handle slave configadr timer mbx wkc SMstat c =
     (if wkc > 0 \<and> mbx_kind mbx = ECT_MBXT_ERR then do {
        c \<leftarrow> ecx_mbxerror slave (mbx16 mbx 8) c;
        Some (0, SMstat, c)
      } else if wkc > 0 \<and> mbx_kind mbx = ECT_MBXT_COE then
        if drop_bit 12 (mbx16 mbx 6) = 0x01 then do {
          c \<leftarrow> ecx_mbxemergencyerror slave (mbx16 mbx 8) (ucast (mbx8 mbx 10)) (mbx8 mbx 11) (mbx16 mbx 12) (mbx16 mbx 14) c;
          Some (0, SMstat, c)
        } else Some (wkc, SMstat, c)
      else if wkc > 0 \<and> mbx_kind mbx = ECT_MBXT_EOE then
        if mbx16 mbx 6 AND 0xf = EOE_FRAG_DATA then
          case EOEhook c of
            Some hook \<Rightarrow> Some (if hook slave mbx > 0 then 0 else wkc, SMstat, c)
          | None \<Rightarrow> Some (wkc, SMstat, c)
        else Some (wkc, SMstat, c)
      else if wkc \<le> 0 then do {
        (SMstat, c) \<leftarrow> mbx_repeat configadr timer SMstat c;
        Some (wkc, SMstat, c)
      } else Some (wkc, SMstat, c))"

definition mbxreceive_body :: "u16 \<Rightarrow> ec_slave \<Rightarrow> ec_timet \<Rightarrow> int \<times> u16 \<times> ec_mbxbuf \<times> ecx_context \<Rightarrow>
    ((int \<times> u16 \<times> ec_mbxbuf \<times> ecx_context) \<times> bool) option" where
  "mbxreceive_body slave s timer = (\<lambda>(_, SMstat, mbx, c). do {
     (wkc, mbx, c) \<leftarrow> on_port_buf (ecx_FPRD (s_configadr s) (s_mbx_ro s) (s_mbx_rl s) mbx EC_TIMEOUTRET) c;
     (wkc, SMstat, c) \<leftarrow> mbx_handle slave (s_configadr s) timer mbx wkc SMstat c;
     let (again, c) = ctx_again (wkc \<le> 0) timer c;
     Some ((wkc, SMstat, mbx, c), again)
   })"

definition ecx_mbxreceive :: "u16 \<Rightarrow> ec_mbxbuf \<Rightarrow> int \<Rightarrow> ecx_context \<Rightarrow> (int \<times> ec_mbxbuf \<times> ecx_context) option" where
  "ecx_mbxreceive slave mbx timeout c = do {
     s \<leftarrow> get_slave slave c;
     let mbxl = s_mbx_rl s;
     if mbxl > 0 \<and> unat mbxl \<le> EC_MAXMBX then do {
       let (timer, c) = ctx_timer_start timeout c;
       (wkc, SMstat, c) \<leftarrow> do_while (mbxavail_body True (s_configadr s) timer) (0, 0, c);
       if wkc > 0 \<and> SMstat AND 0x08 > 0 then do {
         (wkc, _, mbx, c) \<leftarrow> do_while (mbxreceive_body slave s timer) (wkc, SMstat, mbx, c);
         Some (wkc, mbx, c)
       } else Some (if wkc > 0 then EC_TIMEOUT else wkc, mbx, c)
     } else Some (0, mbx, c)
   }"

section \<open>They return\<close>

text \<open>One read followed by a look at the timer.\<close>

definition polled :: "ecx_context \<Rightarrow> ecx_context \<Rightarrow> ecx_context \<Rightarrow> bool" where
  "polled c0 c d \<longleftrightarrow> talks c0 d \<and> ctx_left d \<le> ctx_left c"

lemma polled_again:
  assumes "polled c0 c d"
  shows "talks c0 (snd (ctx_again B timer d))"
    and "fst (ctx_again B timer d) \<Longrightarrow> ctx_left (snd (ctx_again B timer d)) < ctx_left c"
proof -
  have d: "talks c0 d" "ctx_inv d" using assms talks_inv by (auto simp: polled_def)
  show "talks c0 (snd (ctx_again B timer d))" by (rule talks_trans [OF d(1) ctx_again_talks [OF d(2)]])
  show "ctx_left (snd (ctx_again B timer d)) < ctx_left c" if "fst (ctx_again B timer d)"
    using ctx_again_left [OF d(2) that] assms unfolding polled_def by linarith
qed

lemma read_polled:
  assumes "talks c0 c" "unat n \<le> EC_MAXDATA" "unat n \<le> length data"
  shows "returns (on_port_buf (ecx_FPRD adp ado n data t) c) (\<lambda>(w, b, d). polled c0 c d \<and> length b = length data)"
  using ctx_reads(1) [OF talks_inv [OF assms(1)] assms(2,3), of adp ado t]
  by (rule returns_mono) (auto simp: polled_def talks_left intro: talks_trans [OF assms(1)])

text \<open>A wait whose rounds only talk to the slave ends.\<close>

lemma wait_talks:
  assumes start: "talks c0 (ctx s)"
    and body: "\<And>s. talks c0 (ctx s) \<Longrightarrow> returns (body s) (\<lambda>(s', again). talks c0 (ctx s') \<and> (again \<longrightarrow> ctx_left (ctx s') < ctx_left (ctx s)))"
  shows "returns (do_while body s) (\<lambda>s'. talks c0 (ctx s'))"
proof -
  have "returns (do_while body s) (\<lambda>s'. talks c0 (ctx s') \<and> True)"
  proof (rule polling_ctx [where R = "\<lambda>_. True"])
    fix s assume "talks c0 (ctx s)"
    from body [OF this] show "returns (body s) (\<lambda>(s', again). talks c0 (ctx s') \<and>
        (if again then True \<and> ctx_left (ctx s') < ctx_left (ctx s) else True))"
      by (rule returns_mono) auto
  qed (use start in simp_all)
  then show ?thesis by simp
qed

lemma mbxempty_returns:
  assumes "talks c0 c" "unat slave < length (slavelist c)"
  shows "returns (ecx_mbxempty slave timeout c) (\<lambda>(r, d). talks c0 d \<and> (r = 0 \<or> r = 1))"
proof -
  let ?c = "snd (ctx_timer_start timeout c)" and ?t = "fst (ctx_timer_start timeout c)"
  have t: "talks c ?c" by (rule ctx_timer_start_talks [OF talks_inv [OF assms(1)]])
  have "returns (do_while (mbxempty_body a ?t) (0, 0, ?c)) (\<lambda>s. talks c0 (snd (snd s)))" for a
  proof (rule wait_talks [where ctx = "\<lambda>s. snd (snd s)"])
    fix s :: "int \<times> u8 \<times> ecx_context" assume "talks c0 (snd (snd s))"
    from read_polled [OF this, of 1 "[0]" a ECT_REG_SM0STAT EC_TIMEOUTRET]
    show "returns (mbxempty_body a ?t s) (\<lambda>(s', again). talks c0 (snd (snd s')) \<and> (again \<longrightarrow> ctx_left (snd (snd s')) < ctx_left (snd (snd s))))"
      by (auto simp: mbxempty_body_def case_prod_unfold Let_def polled_again elim!: returns_mono)
  qed (use t assms(1) in \<open>auto intro: talks_trans\<close>)
  from this [of "s_configadr (slavelist c ! unat slave)"] obtain w st d
    where "do_while (mbxempty_body (s_configadr (slavelist c ! unat slave)) ?t) (0, 0, ?c) = Some (w, st, d)" "talks c0 d"
    by (auto simp: returns_iff)
  with assms(2) talks_slavelist [OF t] show ?thesis
    by (simp add: ecx_mbxempty_def case_prod_unfold Let_def get_slave_def arr_get_def)
qed

lemma mbxavail_returns:
  assumes "talks c0 c"
  shows "returns (do_while (mbxavail_body clear a timer) (w, st, c)) (\<lambda>s. talks c0 (snd (snd s)))"
proof (rule wait_talks [where ctx = "\<lambda>s. snd (snd s)"])
  fix s :: "int \<times> u16 \<times> ecx_context" assume "talks c0 (snd (snd s))"
  from read_polled [OF this, of 2 "enc16 (if clear then 0 else fst (snd s))" a ECT_REG_SM1STAT EC_TIMEOUTRET]
  show "returns (mbxavail_body clear a timer s) (\<lambda>(s', again). talks c0 (snd (snd s')) \<and> (again \<longrightarrow> ctx_left (snd (snd s')) < ctx_left (snd (snd s))))"
    by (auto simp: mbxavail_body_def case_prod_unfold Let_def polled_again elim!: returns_mono)
qed (use assms in simp)

lemma mbxtoggle_returns:
  assumes "talks c0 c"
  shows "returns (do_while (mbxtoggle_body st a timer) c) (talks c0)"
proof (rule wait_talks [where ctx = "\<lambda>s. s"])
  fix s assume "talks c0 s"
  from read_polled [OF this, of 1 "[0]" a ECT_REG_SM1CONTR EC_TIMEOUTRET]
  show "returns (mbxtoggle_body st a timer s) (\<lambda>(s', again). talks c0 s' \<and> (again \<longrightarrow> ctx_left s' < ctx_left s))"
    by (auto simp: mbxtoggle_body_def case_prod_unfold Let_def polled_again elim!: returns_mono)
qed (use assms in simp)

lemma ctx_writes:
  assumes "talks c0 c" "unat n \<le> EC_MAXDATA" "unat n \<le> length data"
  shows "returns (on_port (ecx_FPWR adp ado n data t) c) (\<lambda>(w, d). talks c0 d)"
    and "returns (on_port (ecx_BWR adp ado n data t) c) (\<lambda>(w, d). talks c0 d)"
proof -
  have "returns (on_port (write_primitive com adp ado n data t) c) (\<lambda>(w, d). talks c d \<and> True)" for com
    using write_primitive_returns [OF ctx_inv_port [OF talks_inv [OF assms(1)]] assms(2,3), of com adp ado t]
    by (intro on_port_returns talks_inv [OF assms(1)]) (auto elim!: returns_mono)
  then have "returns (on_port (write_primitive com adp ado n data t) c) (\<lambda>(w, d). talks c0 d)" for com
    by (rule returns_mono) (use talks_trans [OF assms(1)] in auto)
  then show "returns (on_port (ecx_FPWR adp ado n data t) c) (\<lambda>(w, d). talks c0 d)"
    "returns (on_port (ecx_BWR adp ado n data t) c) (\<lambda>(w, d). talks c0 d)"
    by (simp_all add: ecx_FPWR_def ecx_BWR_def)
qed

lemma mbx_repeat_returns:
  assumes "talks c0 c"
  shows "returns (mbx_repeat a timer st c) (\<lambda>(_, d). talks c0 d)"
proof -
  obtain w d where d: "on_port (ecx_FPWR a ECT_REG_SM1STAT 2 (enc16 (st XOR 0x0200)) EC_TIMEOUTRET) c = Some (w, d)" "talks c0 d"
    using ctx_writes(1) [OF assms, of 2 "enc16 (st XOR 0x0200)" a ECT_REG_SM1STAT EC_TIMEOUTRET] by (auto simp: returns_iff)
  obtain e where e: "do_while (mbxtoggle_body (st XOR 0x0200) a timer) d = Some e" "talks c0 e"
    using mbxtoggle_returns [OF d(2), of "st XOR 0x0200" a timer] by (auto simp: returns_iff)
  obtain w' st' c' where "do_while (mbxavail_body False a timer) (0, st XOR 0x0200, e) = Some (w', st', c')" "talks c0 c'"
    using mbxavail_returns [OF e(2), of False a timer 0 "st XOR 0x0200"] by (auto simp: returns_iff)
  with d(1) e(1) show ?thesis by (simp add: mbx_repeat_def)
qed

text \<open>
  A mailbox that may be handed to the caller: not an error reply, not an emergency, and not a
  fragment that the hook has taken.
\<close>

definition deliverable :: "ecx_context \<Rightarrow> u16 \<Rightarrow> ec_mbxbuf \<Rightarrow> bool" where
  "deliverable c slave mbx \<longleftrightarrow> mbx_kind mbx \<noteq> ECT_MBXT_ERR \<and>
     \<not> (mbx_kind mbx = ECT_MBXT_COE \<and> drop_bit 12 (mbx16 mbx 6) = 0x01) \<and>
     \<not> (mbx_kind mbx = ECT_MBXT_EOE \<and> mbx16 mbx 6 AND 0xf = EOE_FRAG_DATA \<and> (\<exists>hook. EOEhook c = Some hook \<and> hook slave mbx > 0))"

lemma mbx_handle_returns:
  assumes "ctx_inv c"
  shows "returns (mbx_handle slave a timer mbx wkc st c) (\<lambda>(w, st', d). chats c d \<and> (w > 0 \<longrightarrow> deliverable c slave mbx \<and> w = wkc))"
proof -
  consider (err) "wkc > 0" "mbx_kind mbx = ECT_MBXT_ERR" | (coe) "wkc > 0" "mbx_kind mbx = ECT_MBXT_COE"
    | (eoe) "wkc > 0" "mbx_kind mbx = ECT_MBXT_EOE"
    | (other) "wkc > 0" "mbx_kind mbx \<notin> {ECT_MBXT_ERR, ECT_MBXT_COE, ECT_MBXT_EOE}" | (lost) "wkc \<le> 0"
    by force
  then show ?thesis
  proof cases
    case err
    then show ?thesis using mbxerror_chats [OF assms] by (auto simp: mbx_handle_def elim!: returns_mono)
  next
    case coe
    then show ?thesis using mbxemergencyerror_chats [OF assms] chats_refl [OF assms]
      by (auto simp: mbx_handle_def deliverable_def elim!: returns_mono)
  next
    case eoe
    then show ?thesis using chats_refl [OF assms]
      by (auto simp: mbx_handle_def deliverable_def split: option.splits)
  next
    case other
    then show ?thesis using chats_refl [OF assms] by (auto simp: mbx_handle_def deliverable_def)
  next
    case lost
    then show ?thesis using mbx_repeat_returns [OF talks_refl [OF assms], of a timer st]
      by (auto simp: mbx_handle_def returns_iff intro: talks_chats)
  qed
qed

lemma mbxreceive_body_returns:
  assumes c: "chats c0 c" and n: "unat (s_mbx_rl s) \<le> EC_MAXMBX" "length mbx = EC_MAXMBX + 1"
  shows "returns (mbxreceive_body slave s timer (w, st, mbx, c)) (\<lambda>((w', st', mbx', d), again).
    chats c0 d \<and> length mbx' = EC_MAXMBX + 1 \<and> (w' > 0 \<longrightarrow> deliverable c0 slave mbx') \<and>
    (again \<longrightarrow> ctx_left d < ctx_left c))"
proof -
  obtain w1 b c1 where 1: "on_port_buf (ecx_FPRD (s_configadr s) (s_mbx_ro s) (s_mbx_rl s) mbx EC_TIMEOUTRET) c = Some (w1, b, c1)"
      "talks c c1" "length b = EC_MAXMBX + 1"
    using ctx_reads(1) [OF chats_inv [OF c], of "s_mbx_rl s" mbx "s_configadr s" "s_mbx_ro s" EC_TIMEOUTRET] n
    by (auto simp: returns_iff)
  have c1: "chats c0 c1" by (rule chats_trans [OF c talks_chats [OF 1(2)]])
  obtain w2 st2 c2 where 2: "mbx_handle slave (s_configadr s) timer b w1 st c1 = Some (w2, st2, c2)" "chats c1 c2"
      "w2 > 0 \<longrightarrow> deliverable c1 slave b"
    using mbx_handle_returns [OF chats_inv [OF c1], of slave "s_configadr s" timer b w1 st] by (auto simp: returns_iff)
  have c2: "chats c0 c2" by (rule chats_trans [OF c1 2(2)])
  let ?a = "ctx_again (w2 \<le> 0) timer c2"
  have "chats c0 (snd ?a)" by (rule chats_trans [OF c2 talks_chats [OF ctx_again_talks [OF chats_inv [OF c2]]]])
  moreover have "fst ?a \<longrightarrow> ctx_left (snd ?a) < ctx_left c"
    using ctx_again_left [OF chats_inv [OF c2], of "w2 \<le> 0" timer] chats_left [OF 2(2)] talks_left [OF 1(2)] by linarith
  moreover have "deliverable c1 slave b = deliverable c0 slave b"
    using chats_slavelist [OF c1] by (simp add: deliverable_def)
  ultimately show ?thesis
    using 1(1,3) 2(1,3) by (simp add: mbxreceive_body_def case_prod_unfold Let_def)
qed

lemma mbxreceive_returns:
  assumes "ctx_inv c" "unat slave < length (slavelist c)" "length mbx = EC_MAXMBX + 1"
  shows "returns (ecx_mbxreceive slave mbx timeout c) (\<lambda>(w, mbx', d). chats c d \<and> length mbx' = EC_MAXMBX + 1 \<and>
    (w > 0 \<longrightarrow> deliverable c slave mbx'))"
proof (cases "s_mbx_rl (slavelist c ! unat slave) > 0 \<and> unat (s_mbx_rl (slavelist c ! unat slave)) \<le> EC_MAXMBX")
  case False
  then have "ecx_mbxreceive slave mbx timeout c = Some (0, mbx, c)"
    using assms(2) by (auto simp: ecx_mbxreceive_def get_slave_def Let_def arr_get_def)
  with assms show ?thesis by (simp add: chats_refl)
next
  case True
  let ?s = "slavelist c ! unat slave"
  let ?c = "snd (ctx_timer_start timeout c)" and ?t = "fst (ctx_timer_start timeout c)"
  have t: "talks c ?c" by (rule ctx_timer_start_talks [OF assms(1)])
  obtain w st d where d: "do_while (mbxavail_body True (s_configadr ?s) ?t) (0, 0, ?c) = Some (w, st, d)" "talks c d"
    using mbxavail_returns [OF t, of True "s_configadr ?s" ?t 0 0] by (auto simp: returns_iff)
  define Q where "Q = (\<lambda>(w :: int, st :: u16, m, e). chats c e \<and> length m = EC_MAXMBX + 1 \<and> (w > 0 \<longrightarrow> deliverable c slave m))"
  have "returns (do_while (mbxreceive_body slave ?s ?t) (w, st, mbx, d)) Q"
  proof (rule do_while_returns [where P = "\<lambda>(_, _, m, e). chats c e \<and> length m = EC_MAXMBX + 1" and f = "\<lambda>(_, _, _, e). ctx_left e"])
    show "case (w, st, mbx, d) of (_, _, m, e) \<Rightarrow> chats c e \<and> length m = EC_MAXMBX + 1"
      using assms(3) talks_chats [OF d(2)] by simp
  next
    fix s :: "int \<times> u16 \<times> u8 list \<times> ecx_context"
    assume "case s of (_, _, m, e) \<Rightarrow> chats c e \<and> length m = EC_MAXMBX + 1"
    then obtain w st m e where s: "s = (w, st, m, e)" and h: "chats c e" "length m = EC_MAXMBX + 1" by (cases s) auto
    show "returns (mbxreceive_body slave ?s ?t s) (\<lambda>(s', again).
        if again then (case s' of (_, _, m, e) \<Rightarrow> chats c e \<and> length m = EC_MAXMBX + 1) \<and>
          (case s' of (_, _, _, e) \<Rightarrow> ctx_left e) < (case s of (_, _, _, e) \<Rightarrow> ctx_left e) else Q s')"
      unfolding s by (rule returns_mono [OF mbxreceive_body_returns [OF h(1) conjunct2 [OF True] h(2)]]) (auto simp: Q_def)
  qed
  then obtain w' st' m e where e: "do_while (mbxreceive_body slave ?s ?t) (w, st, mbx, d) = Some (w', st', m, e)"
      "chats c e" "length m = EC_MAXMBX + 1" "w' > 0 \<longrightarrow> deliverable c slave m"
    by (auto simp: returns_iff Q_def)
  show ?thesis
    using True assms(2,3) d(1) e talks_chats [OF d(2)]
    by (simp add: ecx_mbxreceive_def get_slave_def Let_def case_prod_unfold arr_get_def)
qed

lemma mbxsend_returns:
  assumes "ctx_inv c" "unat slave < length (slavelist c)" "length mbx = EC_MAXMBX + 1"
  shows "returns (ecx_mbxsend slave mbx timeout c) (\<lambda>(w, d). talks c d)"
proof (cases "s_mbx_l (slavelist c ! unat slave) > 0 \<and> unat (s_mbx_l (slavelist c ! unat slave)) \<le> EC_MAXMBX")
  case False
  then have "ecx_mbxsend slave mbx timeout c = Some (0, c)"
    using assms(2) by (auto simp: ecx_mbxsend_def get_slave_def Let_def arr_get_def)
  with assms show ?thesis by (simp add: talks_refl)
next
  case True
  let ?s = "slavelist c ! unat slave"
  obtain r d where d: "ecx_mbxempty slave timeout c = Some (r, d)" "talks c d"
    using mbxempty_returns [OF talks_refl [OF assms(1)] assms(2), of timeout] by (auto simp: returns_iff)
  then show ?thesis
    using True assms(2,3) ctx_writes(1) [OF d(2), of "s_mbx_l ?s" mbx "s_configadr ?s" "s_mbx_wo ?s" EC_TIMEOUTRET3]
    by (simp add: ecx_mbxsend_def get_slave_def Let_def arr_get_def)
qed

section \<open>The interface: a transport for mailboxes\<close>

text \<open>
  The protocols above the mailbox (CoE, FoE, SoE, EoE) rely on this contract only: sending and
  receiving return whatever the slave does, keep the tables of the master, and a mailbox that
  is received with a positive result is one they may look at.
\<close>

locale mbx_transport =
  fixes ok :: "'c \<Rightarrow> bool"
    and valid :: "'c \<Rightarrow> u16 \<Rightarrow> bool"
    and upto :: "'c \<Rightarrow> 'c \<Rightarrow> bool"
    and fit :: "'m \<Rightarrow> bool"
    and good :: "'c \<Rightarrow> u16 \<Rightarrow> 'm \<Rightarrow> bool"
    and send :: "u16 \<Rightarrow> 'm \<Rightarrow> int \<Rightarrow> 'c \<Rightarrow> (int \<times> 'c) option"
    and recv :: "u16 \<Rightarrow> 'm \<Rightarrow> int \<Rightarrow> 'c \<Rightarrow> (int \<times> 'm \<times> 'c) option"
  assumes upto_refl: "ok c \<Longrightarrow> upto c c"
    and upto_trans: "upto a b \<Longrightarrow> upto b c \<Longrightarrow> upto a c"
    and upto_ok: "upto a b \<Longrightarrow> ok b"
    and upto_valid: "upto a b \<Longrightarrow> valid b s = valid a s"
    and upto_good: "upto a b \<Longrightarrow> good b s m = good a s m"
    and send_law: "ok c \<Longrightarrow> valid c s \<Longrightarrow> fit m \<Longrightarrow> returns (send s m t c) (\<lambda>(w, d). upto c d)"
    and recv_law: "ok c \<Longrightarrow> valid c s \<Longrightarrow> fit m \<Longrightarrow>
      returns (recv s m t c) (\<lambda>(w, m', d). upto c d \<and> fit m' \<and> (w > 0 \<longrightarrow> good c s m'))"
begin

text \<open>From a reference context: the form in which the loops of the protocols use the laws.\<close>

lemma send_from:
  "upto c0 c \<Longrightarrow> valid c0 s \<Longrightarrow> fit m \<Longrightarrow> returns (send s m t c) (\<lambda>(w, d). upto c0 d)"
  using send_law [OF upto_ok, of c0 c s m t] by (auto simp: upto_valid elim!: returns_mono intro: upto_trans)

lemma recv_from:
  "upto c0 c \<Longrightarrow> valid c0 s \<Longrightarrow> fit m \<Longrightarrow>
     returns (recv s m t c) (\<lambda>(w, m', d). upto c0 d \<and> fit m' \<and> (w > 0 \<longrightarrow> good c0 s m'))"
  using recv_law [OF upto_ok, of c0 c s m t] by (auto simp: upto_valid upto_good elim!: returns_mono intro: upto_trans)

end

definition mbx_fit :: "ec_mbxbuf \<Rightarrow> bool" where
  "mbx_fit m \<longleftrightarrow> length m = EC_MAXMBX + 1"

definition slave_valid :: "ecx_context \<Rightarrow> u16 \<Rightarrow> bool" where
  "slave_valid c slave \<longleftrightarrow> unat slave < length (slavelist c)"

interpretation mbx: mbx_transport ctx_inv slave_valid chats mbx_fit deliverable ecx_mbxsend ecx_mbxreceive
proof
  show "chats c c" if "ctx_inv c" for c using that by (rule chats_refl)
  show "chats a c" if "chats a b" "chats b c" for a b c using that by (rule chats_trans)
  show "ctx_inv b" if "chats a b" for a b using that by (rule chats_inv)
  show "slave_valid b s = slave_valid a s" if "chats a b" for a b s
    using chats_slavelist [OF that] by (simp add: slave_valid_def)
  show "deliverable b s m = deliverable a s m" if "chats a b" for a b s m
    using chats_slavelist [OF that] by (simp add: deliverable_def)
  show "returns (ecx_mbxsend s m t c) (\<lambda>(w, d). chats c d)" if "ctx_inv c" "slave_valid c s" "mbx_fit m" for c s m t
    using mbxsend_returns [of c s m t] that
    by (auto simp: slave_valid_def mbx_fit_def elim!: returns_mono intro: talks_chats)
  show "returns (ecx_mbxreceive s m t c) (\<lambda>(w, m', d). chats c d \<and> mbx_fit m' \<and> (w > 0 \<longrightarrow> deliverable c s m'))"
    if "ctx_inv c" "slave_valid c s" "mbx_fit m" for c s m t
    using mbxreceive_returns [of c s m t] that by (auto simp: slave_valid_def mbx_fit_def)
qed

section \<open>Properties\<close>

text \<open>
  C13: receiving a mailbox always ends, whatever the slave and the wire do, and changes nothing
  of the master but its error list; a positive result means that the buffer holds a mailbox
  that is neither an error reply nor an emergency nor a fragment that the hook has consumed.
\<close>

theorem mbxreceive_delivers:
  assumes "ctx_inv c" "slave_valid c slave" "mbx_fit m"
  shows "returns (ecx_mbxreceive slave m timeout c) (\<lambda>(w, m', d). chats c d \<and> mbx_fit m' \<and> (w > 0 \<longrightarrow> deliverable c slave m'))"
  by (rule mbx.recv_law [OF assms])

theorem mbxreceive_delivers_witness:
  "\<exists>w m' d. ecx_mbxreceive 1 (replicate (EC_MAXMBX + 1) 0) 700000 (demo_context (demo_port []) [no_slave, no_slave\<lparr>s_mbx_rl := 128\<rparr>]) = Some (w, m', d) \<and>
     length m' = EC_MAXMBX + 1"
proof -
  have "slave_valid (demo_context (demo_port []) [no_slave, no_slave\<lparr>s_mbx_rl := 128\<rparr>]) 1"
    by (simp add: slave_valid_def demo_context_def)
  from mbxreceive_delivers [OF ctx_inv_demo [OF port_inv_demo_nil] this, of "replicate (EC_MAXMBX + 1) 0" 700000]
  show ?thesis by (auto simp: returns_iff mbx_fit_def)
qed

text \<open>
  A mailbox that is withheld is reported instead: an error reply and an emergency each
  put exactly one entry for the slave on the error list, with the code that the slave sent,
  and the caller sees the result 0.
\<close>

theorem mbx_withheld_reported:
  assumes "ctx_inv c" "wkc > 0"
    and "mbx_kind m = ECT_MBXT_ERR \<or> mbx_kind m = ECT_MBXT_COE \<and> drop_bit 12 (mbx16 m 6) = 0x01"
  shows "returns (mbx_handle slave a timer m wkc st c) (\<lambda>(w, st', d). w = 0 \<and> (\<exists>e. Slave e = slave \<and> Signal e \<and>
    ErrorCode e = mbx16 m 8 \<and> Etype e = (if mbx_kind m = ECT_MBXT_ERR then EC_ERR_TYPE_MBX_ERROR else EC_ERR_TYPE_EMERGENCY) \<and>
    errors d = drop (Suc (length (errors c)) - EC_MAXELIST) (errors c @ [e])))"
proof -
  let ?c = "snd (ctx_current_time c)" and ?t = "fst (ctx_current_time c)"
  have t: "talks c ?c" by (rule current_time_talks [OF assms(1)])
  then have "errors ?c = errors c" by (auto simp: talks_def ctx_same_def errors_def)
  then have push: "returns (ecx_pusherror e ?c) (\<lambda>d. errors d = drop (Suc (length (errors c)) - EC_MAXELIST) (errors c @ [e\<lparr>Signal := True\<rparr>]))" for e
    using pusherror_chats [OF talks_inv [OF t], of e] by (auto elim!: returns_mono)
  show ?thesis
  proof (cases "mbx_kind m = ECT_MBXT_ERR")
    case True
    let ?e = "no_error\<lparr>Time := ?t, Slave := slave, Index := 0, SubIdx := 0, Etype := EC_ERR_TYPE_MBX_ERROR, ErrorCode := mbx16 m 8\<rparr>"
    have "ecx_mbxerror slave (mbx16 m 8) c = ecx_pusherror ?e ?c" by (simp add: ecx_mbxerror_def case_prod_unfold Let_def)
    with True assms(2) push [of ?e] show ?thesis
      by (auto simp: mbx_handle_def elim!: returns_mono intro: exI [of _ "?e\<lparr>Signal := True\<rparr>"])
  next
    case False
    let ?e = "no_error\<lparr>Time := ?t, Slave := slave, Index := 0, SubIdx := 0, Etype := EC_ERR_TYPE_EMERGENCY, ErrorCode := mbx16 m 8,
      ErrorReg := ucast (ucast (mbx8 m 10) :: u16), b1 := mbx8 m 11, w1 := mbx16 m 12, w2 := mbx16 m 14\<rparr>"
    have "ecx_mbxemergencyerror slave (mbx16 m 8) (ucast (mbx8 m 10)) (mbx8 m 11) (mbx16 m 12) (mbx16 m 14) c = ecx_pusherror ?e ?c"
      by (simp add: ecx_mbxemergencyerror_def case_prod_unfold Let_def)
    with False assms(2,3) push [of ?e] show ?thesis
      by (auto simp: mbx_handle_def elim!: returns_mono intro: exI [of _ "?e\<lparr>Signal := True\<rparr>"])
  qed
qed

theorem mbx_withheld_reported_witness:
  "\<exists>st d e. mbx_handle 1 0x1001 \<lparr>t_sec = 0, t_usec = 0\<rparr> [0, 0, 0, 0, 0, 3, 0, 0x10, 0x10, 0x81] 1 8 (demo_context (demo_port []) []) = Some (0, st, d) \<and>
     errors d = [e] \<and> Etype e = EC_ERR_TYPE_EMERGENCY \<and> ErrorCode e = 0x8110"
proof -
  let ?m = "[0, 0, 0, 0, 0, 3, 0, 0x10, 0x10, 0x81] :: u8 list"
  have k: "mbx_kind ?m = ECT_MBXT_COE" "mbx16 ?m 6 = 0x1000" "mbx16 ?m 8 = 0x8110"
    by (simp_all add: mbx_kind_def mbx8_def mbx16_def list_buf_def get16_def mk16_def)
  have "mbx_kind ?m = ECT_MBXT_ERR \<or> mbx_kind ?m = ECT_MBXT_COE \<and> drop_bit 12 (mbx16 ?m 6) = 0x01"
    unfolding k by code_simp
  from mbx_withheld_reported [where c = "demo_context (demo_port []) []" and slave = 1 and a = "0x1001" and timer = "\<lparr>t_sec = 0, t_usec = 0\<rparr>" and st = 8,
      OF ctx_inv_demo [OF port_inv_demo_nil] zero_less_one this]
  show ?thesis unfolding k by (auto simp: returns_iff)
qed

text \<open>
  The mailbox counter runs through 1 to 7 and never takes the value 0, which is reserved
  for a mailbox without a counter; two consecutive mailboxes never have the same counter.
\<close>

theorem nextmbxcnt_cycle:
  assumes "cnt \<le> 7"
  shows "1 \<le> ec_nextmbxcnt cnt \<and> ec_nextmbxcnt cnt \<le> 7 \<and> ec_nextmbxcnt cnt \<noteq> cnt"
proof -
  have "\<forall>n\<in>set [0..<8]. 1 \<le> ec_nextmbxcnt (of_nat n) \<and> ec_nextmbxcnt (of_nat n) \<le> 7 \<and> ec_nextmbxcnt (of_nat n) \<noteq> of_nat n"
    by code_simp
  moreover have "unat cnt \<in> set [0..<8]" using assms by (simp add: word_le_nat_alt)
  ultimately have "1 \<le> ec_nextmbxcnt (of_nat (unat cnt)) \<and> ec_nextmbxcnt (of_nat (unat cnt)) \<le> 7 \<and> ec_nextmbxcnt (of_nat (unat cnt)) \<noteq> of_nat (unat cnt)"
    by blast
  then show ?thesis by simp
qed

theorem nextmbxcnt_cycle_witness: "1 \<le> ec_nextmbxcnt 7 \<and> ec_nextmbxcnt 7 \<le> 7 \<and> ec_nextmbxcnt 7 \<noteq> 7"
  by (rule nextmbxcnt_cycle) simp

end
