(* ===== verification/ProcessData.thy ===== *)
theory ProcessData
  imports Mailbox
begin

text \<open>
  The cyclic exchange of process data, \<^verbatim>\<open>soem/ethercatmain.c\<close>: the frames of a group are
  sent with their indices pushed on a stack, and received in the order of the stack, with the
  inputs copied into the IO map. The stack is a queue (it is read from the bottom), and is
  cleared when it has been read.
\<close>

section \<open>The stack of frames\<close>

definition ecx_pushindex :: "u8 \<Rightarrow> nat option \<Rightarrow> u16 \<Rightarrow> u16 \<Rightarrow> ecx_context \<Rightarrow> ecx_context" where
  "ecx_pushindex idx data len DCO c =
     (let s = idxstack c; n = unat (pushed s)
      in if n < EC_MAXBUF then
           c\<lparr>idxstack := s\<lparr>is_idx := (is_idx s)[n := idx], is_data := (is_data s)[n := data],
               is_length := (is_length s)[n := len], is_dcoffset := (is_dcoffset s)[n := DCO], pushed := pushed s + 1\<rparr>\<rparr>
         else c)"

definition ecx_pullindex :: "ecx_context \<Rightarrow> int \<times> ecx_context" where
  "ecx_pullindex c =
     (let s = idxstack c
      in if pulled s < pushed s then (int (unat (pulled s)), c\<lparr>idxstack := s\<lparr>pulled := pulled s + 1\<rparr>\<rparr>) else (-1, c))"

definition ecx_clearindex :: "ecx_context \<Rightarrow> ecx_context" where
  "ecx_clearindex c = c\<lparr>idxstack := (idxstack c)\<lparr>pushed := 0, pulled := 0\<rparr>\<rparr>"

section \<open>Sending\<close>

definition get_group :: "u8 \<Rightarrow> ecx_context \<Rightarrow> ec_group option" where
  "get_group grp c = arr_get (grouplist c) (unat grp)"

text \<open>A pointer into the IO map moved forward, and the bytes from it on.\<close>

definition ptr_add :: "nat option \<Rightarrow> nat \<Rightarrow> nat option" where
  "ptr_add data n = map_option (\<lambda>a. a + n) data"

definition iomap_from :: "nat option \<Rightarrow> ecx_context \<Rightarrow> u8 list" where
  "iomap_from data c = (case data of None \<Rightarrow> [] | Some a \<Rightarrow> drop a (iomap c))"

definition iomap_write :: "nat option \<Rightarrow> u8 list \<Rightarrow> ecx_context \<Rightarrow> ecx_context option" where
  "iomap_write data bs c =
     (if bs = [] then Some c
      else case data of
        None \<Rightarrow> None
      | Some a \<Rightarrow> do {
          chk (a + length bs \<le> length (iomap c));
          Some (c\<lparr>iomap := take a (iomap c) @ bs @ drop (a + length bs) (iomap c)\<rparr>)
        })"

text \<open>
  One frame: the datagram with the process data, the distributed clock in a second datagram of
  the first frame, the sending, and the entry on the stack.
\<close>

definition pd_frame :: "u8 \<Rightarrow> u8 \<Rightarrow> u32 \<Rightarrow> u16 \<Rightarrow> nat option \<Rightarrow> nat option \<Rightarrow> bool \<Rightarrow> ecx_context \<Rightarrow> ecx_context option" where
  "pd_frame com grp LogAdr sublength data store first c = do {
     (idx, c) \<leftarrow> on_port ecx_getindex c;
     p \<leftarrow> ecx_setupdatagram (Tx (unat idx)) com idx (LO_WORD LogAdr) (HI_WORD LogAdr) sublength (iomap_from data c) (port c);
     (DCO, p) \<leftarrow> (if first then do {
         g \<leftarrow> get_group grp c;
         s \<leftarrow> get_slave (g_DCnext g) c;
         ecx_adddatagram (Tx (unat idx)) EC_CMD_FRMW idx False (s_configadr s) ECT_REG_DCSYSTIME 8 (enc64 (DCtime c)) p
       } else Some (0, p));
     (_, p) \<leftarrow> ecx_outframe_red idx p;
     Some (ecx_pushindex idx store sublength DCO (c\<lparr>port := p\<rparr>))
   }"

text \<open>
  The three loops over the segments. The state is the length still to send, the logical
  address, the pointer to the data, the next segment, and whether the clock is still to be sent.
\<close>

type_synonym pd_state = "int \<times> u32 \<times> nat option \<times> u16 \<times> bool \<times> ecx_context"

definition pd_next :: "ec_group \<Rightarrow> u16 \<Rightarrow> int \<times> u32 \<times> nat option \<times> u16 \<Rightarrow> ecx_context \<Rightarrow> pd_state \<times> bool" where
  "pd_next g sublength = (\<lambda>(len, LogAdr, data, segment) c.
     (let len = len - int (unat sublength); segment = segment + 1
      in ((len, LogAdr + ucast sublength, ptr_add data (unat sublength), segment, False, c),
          len \<noteq> 0 \<and> segment < g_nsegments g)))"

definition pd_lrd_body :: "u8 \<Rightarrow> pd_state \<Rightarrow> (pd_state \<times> bool) option" where
  "pd_lrd_body grp = (\<lambda>(len, LogAdr, data, segment, first, c). do {
     g \<leftarrow> get_group grp c;
     seg \<leftarrow> arr_get (g_IOsegment g) (unat segment);
     let sublength = (if segment = g_Isegment g then ucast (seg - ucast (g_Ioffset g)) else ucast seg);
     c \<leftarrow> pd_frame EC_CMD_LRD grp LogAdr sublength data data first c;
     Some (pd_next g sublength (len, LogAdr, data, segment) c)
   })"

definition pd_lwr_body :: "u8 \<Rightarrow> pd_state \<Rightarrow> (pd_state \<times> bool) option" where
  "pd_lwr_body grp = (\<lambda>(len, LogAdr, data, segment, first, c). do {
     g \<leftarrow> get_group grp c;
     seg \<leftarrow> arr_get (g_IOsegment g) (unat segment);
     let sublength = ucast seg;
     let sublength = (if len - int (unat sublength) < 0 then word_of_int len else sublength);
     c \<leftarrow> pd_frame EC_CMD_LWR grp LogAdr sublength data data first c;
     Some (pd_next g sublength (len, LogAdr, data, segment) c)
   })"

definition pd_lrw_body :: "u8 \<Rightarrow> u32 \<Rightarrow> pd_state \<Rightarrow> (pd_state \<times> bool) option" where
  "pd_lrw_body grp iomapinputoffset = (\<lambda>(len, LogAdr, data, segment, first, c). do {
     g \<leftarrow> get_group grp c;
     seg \<leftarrow> arr_get (g_IOsegment g) (unat segment);
     let sublength = ucast seg;
     c \<leftarrow> pd_frame EC_CMD_LRW grp LogAdr sublength data (ptr_add data (unat iomapinputoffset)) first c;
     Some (pd_next g sublength (len, LogAdr, data, segment) c)
   })"

definition ecx_main_send_processdata :: "u8 \<Rightarrow> bool \<Rightarrow> ecx_context \<Rightarrow> (int \<times> ecx_context) option" where
  "ecx_main_send_processdata grp use_overlap_io c = do {
     g \<leftarrow> get_group grp c;
     let first = g_hasdc g;
     let len = sint (if use_overlap_io then (if g_Obytes g > g_Ibytes g then g_Obytes g else g_Ibytes g)
                     else g_Obytes g + g_Ibytes g);
     let iomapinputoffset = (if use_overlap_io then g_Obytes g else 0);
     let LogAdr = g_logstartaddr g;
     if len \<noteq> 0 then
       if g_blockLRW g \<noteq> 0 then do {
         (first, c) \<leftarrow> (if g_Ibytes g \<noteq> 0 then do {
             (_, _, _, _, first, c) \<leftarrow> do_while (pd_lrd_body grp)
               (sint (g_Ibytes g), LogAdr + g_Obytes g, g_inputs g, g_Isegment g, first, c);
             Some (first, c)
           } else Some (first, c));
         c \<leftarrow> (if g_Obytes g \<noteq> 0 then do {
             (_, _, _, _, _, c) \<leftarrow> do_while (pd_lwr_body grp)
               (sint (g_Obytes g), g_logstartaddr g, g_outputs g, 0, first, c);
             Some c
           } else Some c);
         Some (1, c)
       } else do {
         let data = (if g_Obytes g \<noteq> 0 then g_outputs g else g_inputs g);
         let iomapinputoffset = (if g_Obytes g \<noteq> 0 then iomapinputoffset else 0);
         (_, _, _, _, _, c) \<leftarrow> do_while (pd_lrw_body grp iomapinputoffset) (len, LogAdr, data, 0, first, c);
         Some (1, c)
       }
     else Some (0, c)
   }"

definition ecx_send_overlap_processdata_group :: "u8 \<Rightarrow> ecx_context \<Rightarrow> (int \<times> ecx_context) option" where
  "ecx_send_overlap_processdata_group grp = ecx_main_send_processdata grp True"

definition ecx_send_processdata_group :: "u8 \<Rightarrow> ecx_context \<Rightarrow> (int \<times> ecx_context) option" where
  "ecx_send_processdata_group grp = ecx_main_send_processdata grp False"

section \<open>Receiving\<close>

text \<open>
  What is taken from the frame with entry \<open>pos\<close> of the stack. The work counter and the clock of
  a frame with two datagrams are read behind the process data and at the pushed offset.
\<close>

definition pd_store :: "nat \<Rightarrow> u8 \<Rightarrow> int \<Rightarrow> int \<Rightarrow> bool \<Rightarrow> ecx_context \<Rightarrow> (int \<times> bool \<times> ecx_context) option" where
  "pd_store pos idx wkc2 wkc valid_wkc c = do {
     let s = idxstack c;
     chk (unat idx < EC_MAXBUF);
     let com = rxbuf (prim (port c)) (unat idx) EC_CMDOFFSET;
     len \<leftarrow> arr_get (is_length s) pos;
     DCO \<leftarrow> arr_get (is_dcoffset s) pos;
     data \<leftarrow> arr_get (is_data s) pos;
     if com = EC_CMD_LRD \<or> com = EC_CMD_LRW then do {
       bs \<leftarrow> copy_out (port c) idx EC_HEADERSIZE (unat len) (replicate (unat len) 0);
       c \<leftarrow> iomap_write data bs c;
       if DCO > 0 then do {
         le_wkc \<leftarrow> copy_out (port c) idx (EC_HEADERSIZE + unat len) EC_WKCSIZE (enc16 0);
         le_DCtime \<leftarrow> copy_out (port c) idx (unat DCO) 8 (enc64 0);
         Some (int (unat (dec16 le_wkc)), True, c\<lparr>DCtime := dec64 le_DCtime\<rparr>)
       } else Some (wkc + wkc2, True, c)
     } else if com = EC_CMD_LWR then
       if DCO > 0 then do {
         le_wkc \<leftarrow> copy_out (port c) idx (EC_HEADERSIZE + unat len) EC_WKCSIZE (enc16 0);
         le_DCtime \<leftarrow> copy_out (port c) idx (unat DCO) 8 (enc64 0);
         Some (int (unat (dec16 le_wkc)) * 2, True, c\<lparr>DCtime := dec64 le_DCtime\<rparr>)
       } else Some (wkc + wkc2 * 2, True, c)
     else Some (wkc, valid_wkc, c)
   }"

definition pd_receive_body :: "int \<Rightarrow> int \<times> bool \<times> int \<times> ecx_context \<Rightarrow> (int \<times> bool \<times> int \<times> ecx_context) option" where
  "pd_receive_body timeout = (\<lambda>(wkc, valid_wkc, pos, c). do {
     idx \<leftarrow> arr_get (is_idx (idxstack c)) (nat pos);
     (wkc2, c) \<leftarrow> on_port (ecx_waitinframe idx timeout) c;
     (wkc, valid_wkc, c) \<leftarrow> (if wkc2 > EC_NOFRAME then pd_store (nat pos) idx wkc2 wkc valid_wkc c
                            else Some (wkc, valid_wkc, c));
     p \<leftarrow> ecx_setbufstat idx EC_BUF_EMPTY (port c);
     let (pos, c) = ecx_pullindex (c\<lparr>port := p\<rparr>);
     Some (wkc, valid_wkc, pos, c)
   })"

definition ecx_receive_processdata_group :: "u8 \<Rightarrow> int \<Rightarrow> ecx_context \<Rightarrow> (int \<times> ecx_context) option" where
  "ecx_receive_processdata_group grp timeout c = do {
     let (pos, c) = ecx_pullindex c;
     (wkc, valid_wkc, _, c) \<leftarrow> while_loop (\<lambda>(_, _, pos, _). pos \<ge> 0) (pd_receive_body timeout) (0, False, pos, c);
     let c = ecx_clearindex c;
     Some (if valid_wkc then wkc else EC_NOFRAME, c)
   }"

definition ecx_send_processdata :: "ecx_context \<Rightarrow> (int \<times> ecx_context) option" where
  "ecx_send_processdata = ecx_send_processdata_group 0"

definition ecx_send_overlap_processdata :: "ecx_context \<Rightarrow> (int \<times> ecx_context) option" where
  "ecx_send_overlap_processdata = ecx_send_overlap_processdata_group 0"

definition ecx_receive_processdata :: "int \<Rightarrow> ecx_context \<Rightarrow> (int \<times> ecx_context) option" where
  "ecx_receive_processdata = ecx_receive_processdata_group 0"

section \<open>The interface: a queue with a limited number of places\<close>

locale bounded_fifo =
  fixes valid :: "'s \<Rightarrow> bool"
    and content :: "'s \<Rightarrow> 'e list"
    and places :: "'s \<Rightarrow> nat"
    and put :: "'e \<Rightarrow> 's \<Rightarrow> 's"
    and get :: "'s \<Rightarrow> 'e option \<times> 's"
  assumes put_law: "valid s \<Longrightarrow> 0 < places s \<Longrightarrow>
      valid (put e s) \<and> content (put e s) = content s @ [e] \<and> places (put e s) = places s - 1"
    and put_full: "valid s \<Longrightarrow> places s = 0 \<Longrightarrow> put e s = s"
    and get_law: "valid s \<Longrightarrow> content s = e # es \<Longrightarrow>
      fst (get s) = Some e \<and> valid (snd (get s)) \<and> content (snd (get s)) = es \<and> places (snd (get s)) = places s"
    and get_empty: "valid s \<Longrightarrow> content s = [] \<Longrightarrow> get s = (None, s)"
begin

lemma put_all:
  "valid s \<Longrightarrow> valid (fold put es s) \<and> content (fold put es s) = content s @ take (places s) es \<and>
     places (fold put es s) = places s - length es"
proof (induction es arbitrary: s)
  case (Cons e es)
  show ?case
  proof (cases "places s = 0")
    case True
    with Cons put_full [OF Cons.prems True] show ?thesis by simp
  next
    case False
    then have p: "valid (put e s)" "content (put e s) = content s @ [e]" "places (put e s) = places s - 1"
      using put_law [OF Cons.prems] by auto
    with Cons.IH [OF p(1)] False show ?thesis by (cases "places s") simp_all
  qed
qed simp

text \<open>Taking until the queue is empty.\<close>

primrec drain :: "nat \<Rightarrow> 's \<Rightarrow> 'e list" where
  "drain 0 s = []"
| "drain (Suc n) s = (case get s of (None, _) \<Rightarrow> [] | (Some e, s') \<Rightarrow> e # drain n s')"

lemma drain_all: "valid s \<Longrightarrow> length (content s) \<le> n \<Longrightarrow> drain n s = content s"
proof (induction n arbitrary: s)
  case (Suc n)
  show ?case
  proof (cases "content s")
    case Nil
    then show ?thesis using get_empty [OF Suc.prems(1)] by simp
  next
    case (Cons e es)
    then show ?thesis
      using get_law [OF Suc.prems(1) Cons] Suc.IH [of "snd (get s)"] Suc.prems(2) by (simp add: case_prod_unfold)
  qed
qed simp

end

text \<open>The entries still to be read, first the one to be read first.\<close>

type_synonym pd_entry = "u8 \<times> nat option \<times> u16 \<times> u16"

definition entry_at :: "ec_idxstack \<Rightarrow> nat \<Rightarrow> pd_entry" where
  "entry_at s i = (is_idx s ! i, is_data s ! i, is_length s ! i, is_dcoffset s ! i)"

definition frames :: "ecx_context \<Rightarrow> pd_entry list" where
  "frames c = map (entry_at (idxstack c)) [unat (pulled (idxstack c)) ..< unat (pushed (idxstack c))]"

definition stack_places :: "ecx_context \<Rightarrow> nat" where
  "stack_places c = EC_MAXBUF - unat (pushed (idxstack c))"

definition push_entry :: "pd_entry \<Rightarrow> ecx_context \<Rightarrow> ecx_context" where
  "push_entry = (\<lambda>(idx, data, len, DCO). ecx_pushindex idx data len DCO)"

definition pull_entry :: "ecx_context \<Rightarrow> pd_entry option \<times> ecx_context" where
  "pull_entry c = (let (pos, d) = ecx_pullindex c in (if pos \<ge> 0 then Some (entry_at (idxstack d) (nat pos)) else None, d))"

lemma unat_Suc_u8: "unat (x :: u8) < 16 \<Longrightarrow> unat (x + 1) = unat x + 1"
  by (simp add: unat_word_ariths)

lemma pushindex_law:
  assumes "idxstack_inv (idxstack c)" "0 < stack_places c"
  shows "idxstack_inv (idxstack (ecx_pushindex idx data len DCO c)) \<and>
    frames (ecx_pushindex idx data len DCO c) = frames c @ [(idx, data, len, DCO)] \<and>
    stack_places (ecx_pushindex idx data len DCO c) = stack_places c - 1 \<and>
    pulled (idxstack (ecx_pushindex idx data len DCO c)) = pulled (idxstack c)"
proof -
  have n: "unat (pushed (idxstack c)) < 16" "unat (pulled (idxstack c)) \<le> unat (pushed (idxstack c))"
    using assms by (auto simp: stack_places_def idxstack_inv_def)
  show ?thesis
    using assms(1) n
    by (auto simp: ecx_pushindex_def Let_def idxstack_inv_def frames_def stack_places_def entry_at_def unat_Suc_u8)
qed

lemma pullindex_law:
  assumes "idxstack_inv (idxstack c)" "frames c = e # es"
  shows "\<exists>pos d. ecx_pullindex c = (int pos, d) \<and> pos < EC_MAXBUF \<and> entry_at (idxstack d) pos = e \<and> idxstack_inv (idxstack d) \<and>
    frames d = es \<and> stack_places d = stack_places c \<and> d = c\<lparr>idxstack := idxstack d\<rparr>"
proof -
  let ?s = "idxstack c"
  let ?a = "unat (pulled ?s)" and ?b = "unat (pushed ?s)"
  have n: "?a < ?b" "?b \<le> 16" using assms by (auto simp: frames_def idxstack_inv_def upt_eq_Cons_conv)
  let ?d = "c\<lparr>idxstack := ?s\<lparr>pulled := pulled ?s + 1\<rparr>\<rparr>"
  have p: "unat (pulled ?s + 1) = ?a + 1" using n by (intro unat_Suc_u8) simp
  have "frames c = entry_at ?s ?a # map (entry_at ?s) [?a + 1 ..< ?b]"
    using n(1) by (simp add: frames_def upt_conv_Cons)
  then have e: "e = entry_at ?s ?a" "es = map (entry_at ?s) [?a + 1 ..< ?b]" using assms(2) by simp_all
  have at: "entry_at (idxstack ?d) i = entry_at ?s i" for i by (simp add: entry_at_def)
  have "ecx_pullindex c = (int ?a, ?d)" using n(1) by (simp add: ecx_pullindex_def Let_def word_less_nat_alt)
  moreover have "frames ?d = es" using e(2) p by (simp add: frames_def at [simplified])
  moreover have "idxstack_inv (idxstack ?d)" using assms(1) n p by (simp add: idxstack_inv_def)
  ultimately show ?thesis
    using n e(1) at by (intro exI [of _ ?a] exI [of _ ?d]) (simp add: stack_places_def)
qed

lemma pullindex_empty: "idxstack_inv (idxstack c) \<Longrightarrow> frames c = [] \<Longrightarrow> ecx_pullindex c = (-1, c)"
  by (auto simp: frames_def ecx_pullindex_def Let_def idxstack_inv_def word_less_nat_alt)

interpretation pdq: bounded_fifo "\<lambda>c. idxstack_inv (idxstack c)" frames stack_places push_entry pull_entry
proof
  fix s :: ecx_context and e :: pd_entry assume s: "idxstack_inv (idxstack s)" "0 < stack_places s"
  obtain i d l o' where e: "e = (i, d, l, o')" by (cases e) auto
  show "idxstack_inv (idxstack (push_entry e s)) \<and> frames (push_entry e s) = frames s @ [e] \<and> stack_places (push_entry e s) = stack_places s - 1"
    using pushindex_law [OF s, of i d l o'] by (simp add: e push_entry_def)
next
  fix s :: ecx_context and e :: pd_entry assume "stack_places s = 0"
  then show "push_entry e s = s" by (cases e) (simp add: push_entry_def ecx_pushindex_def stack_places_def Let_def)
next
  fix s :: ecx_context and e :: pd_entry and es assume s: "idxstack_inv (idxstack s)" "frames s = e # es"
  from pullindex_law [OF this] show "fst (pull_entry s) = Some e \<and> idxstack_inv (idxstack (snd (pull_entry s))) \<and>
      frames (snd (pull_entry s)) = es \<and> stack_places (snd (pull_entry s)) = stack_places s"
    by (auto simp: pull_entry_def)
next
  fix s :: ecx_context assume "idxstack_inv (idxstack s)" "frames s = []"
  then show "pull_entry s = (None, s)" by (simp add: pull_entry_def pullindex_empty)
qed

section \<open>An exchange under way\<close>

text \<open>
  An entry of the stack that can be received: its index has a transmit buffer, its data fit the
  receive buffer and the part of the IO map they are copied to.
\<close>

definition entry_ok :: "ecx_context \<Rightarrow> pd_entry \<Rightarrow> bool" where
  "entry_ok c = (\<lambda>(idx, data, len, DCO). idx_ok (port c) idx \<and> EC_HEADERSIZE + unat len + EC_WKCSIZE \<le> EC_BUFSIZE \<and>
     unat DCO + 8 \<le> EC_BUFSIZE \<and> (len = 0 \<or> (\<exists>a. data = Some a \<and> a + unat len \<le> length (iomap c))))"

text \<open>
  Between sending and receiving: like \<open>ctx_ok\<close>, except that the indices on the stack are in use.
\<close>

definition exchange :: "ecx_context \<Rightarrow> ecx_context \<Rightarrow> bool" where
  "exchange c0 c \<longleftrightarrow> ctx_inv c \<and> (\<forall>e\<in>set (frames c). entry_ok c e) \<and>
     redstate (port c) = redstate (port c0) \<and> (redport (port c) = None \<longleftrightarrow> redport (port c0) = None) \<and>
     txbuflength2 (port c) = txbuflength2 (port c0) \<and> ctx_left c \<le> ctx_left c0 \<and>
     (\<forall>i. rxbufstat (prim (port c0)) i = EC_BUF_EMPTY \<longrightarrow> rxbufstat (prim (port c)) i = EC_BUF_EMPTY \<or> i \<in> (unat \<circ> fst) ` set (frames c)) \<and>
     slavelist c = slavelist c0 \<and> slavecount c = slavecount c0 \<and> grouplist c = grouplist c0 \<and> length (iomap c) = length (iomap c0)"

lemma exchange_refl: "ctx_inv c \<Longrightarrow> frames c = [] \<Longrightarrow> exchange c c"
  by (simp add: exchange_def)

text \<open>When the stack has been read, all indices have been given back.\<close>

lemma exchange_end: "exchange c0 c \<Longrightarrow> frames c = [] \<Longrightarrow> ctx_ok c0 c"
  by (auto simp: exchange_def ctx_ok_def ctx_inv_def port_ok_def port_prog_def ctx_left_def)

lemma exchange_inv: "exchange c0 c \<Longrightarrow> ctx_inv c"
  by (simp add: exchange_def)

lemma length_iomap_from: "a \<le> length (iomap c) \<Longrightarrow> length (iomap_from (Some a) c) = length (iomap c) - a"
  by (simp add: iomap_from_def)

lemma entry_ok_port:
  "entry_ok c e \<Longrightarrow> txbuflength q = (txbuflength (port c))(j := n) \<Longrightarrow> 16 \<le> n \<Longrightarrow> n \<le> int EC_BUFSIZE \<Longrightarrow>
     iomap d = iomap c \<Longrightarrow> port d = q \<Longrightarrow> entry_ok d e"
  by (auto simp: entry_ok_def idx_ok_def)

text \<open>The port while a frame of process data is built and sent on a fresh index.\<close>

lemma pd_frame_port:
  assumes inv: "port_inv p" and len: "unat sub + (if first then 20 else 0) \<le> EC_MAXDATA" "unat sub \<le> length bs"
  obtains idx p1 p2 DCO p3 w q n where "ecx_getindex p = Some (idx, p1)"
    "ecx_setupdatagram (Tx (unat idx)) com idx a1 a2 sub bs p1 = Some p2"
    "(if first then ecx_adddatagram (Tx (unat idx)) EC_CMD_FRMW idx False adr ECT_REG_DCSYSTIME 8 (enc64 t) p2 else Some (0, p2)) = Some (DCO, p3)"
    "ecx_outframe_red idx p3 = Some (w, q)"
    "port_inv q" "idx_ok q idx" "unat DCO + 8 \<le> EC_BUFSIZE" "txbuflength q = (txbuflength p)(unat idx := n)"
    "16 \<le> n" "n \<le> int EC_BUFSIZE" "redstate q = redstate p" "redport q = None \<longleftrightarrow> redport p = None"
    "txbuflength2 q = txbuflength2 p" "clock_left (osclock q) \<le> clock_left (osclock p)"
    "\<And>i. i \<noteq> unat idx \<Longrightarrow> rxbufstat (prim p) i = EC_BUF_EMPTY \<Longrightarrow> rxbufstat (prim q) i = EC_BUF_EMPTY"
proof -
  obtain idx p1 where g: "ecx_getindex p = Some (idx, p1)" "port_inv p1" "unat idx < EC_MAXBUF"
      "rxbufstat (prim p1) = (rxbufstat (prim p))(unat idx := EC_BUF_ALLOC)" "redstate p1 = redstate p"
      "redport p1 = None \<longleftrightarrow> redport p = None" "txbuflength2 p1 = txbuflength2 p" "osclock p1 = osclock p"
      "txbuflength p1 = txbuflength p"
    using getindex_returns [OF inv] by (auto simp: returns_iff)
  have "unat sub \<le> EC_MAXDATA" using len(1) by (cases first) simp_all
  then obtain p2 where s: "ecx_setupdatagram (Tx (unat idx)) com idx a1 a2 sub bs p1 = Some p2" "port_inv p2"
      "idx_ok p2 idx" "prim p2 = prim p1" "redport p2 = redport p1" "redstate p2 = redstate p1"
      "osclock p2 = osclock p1" "txbuflength2 p2 = txbuflength2 p1"
      "txbuflength p2 = (txbuflength p1)(unat idx := 28 + int (unat sub))"
    using setupdatagram_returns [OF g(2,3) _ len(2), of com a1 a2] by (auto simp: returns_iff)
  have "returns (if first then ecx_adddatagram (Tx (unat idx)) EC_CMD_FRMW idx False adr ECT_REG_DCSYSTIME 8 (enc64 t) p2 else Some (0, p2))
    (\<lambda>(DCO, q). port_inv q \<and> idx_ok q idx \<and> prim q = prim p1 \<and> redport q = redport p1 \<and> redstate q = redstate p1 \<and>
      osclock q = osclock p1 \<and> txbuflength2 q = txbuflength2 p1 \<and> unat DCO + 8 \<le> EC_BUFSIZE \<and>
      (\<exists>n. txbuflength q = (txbuflength p1)(unat idx := n) \<and> 16 \<le> n \<and> n \<le> int EC_BUFSIZE))" (is "returns ?m ?Q")
  proof (cases first)
    case False
    have "16 \<le> 28 + int (unat sub)" "28 + int (unat sub) \<le> int EC_BUFSIZE"
      using \<open>unat sub \<le> EC_MAXDATA\<close> by linarith+
    with False s show ?thesis by auto
  next
    case True
    have size: "txbuflength p2 (unat idx) + 12 + int (unat (8 :: u16)) \<le> int EC_BUFSIZE"
    proof -
      have "unat (8 :: u16) = 8" by simp
      moreover have "unat sub + 20 \<le> EC_MAXDATA" using len(1) True by simp
      moreover have "txbuflength p2 (unat idx) = 28 + int (unat sub)" by (simp only: s(9) fun_upd_same)
      ultimately show ?thesis by linarith
    qed
    obtain r q where q: "ecx_adddatagram (Tx (unat idx)) EC_CMD_FRMW idx False adr ECT_REG_DCSYSTIME 8 (enc64 t) p2 = Some (r, q)"
        "port_inv q" "idx_ok q idx" "prim q = prim p2" "redport q = redport p2" "redstate q = redstate p2" "osclock q = osclock p2"
        "txbuflength2 q = txbuflength2 p2" "int (unat r) = txbuflength p2 (unat idx) - 4"
        "txbuflength q = (txbuflength p2)(unat idx := txbuflength p2 (unat idx) + 12 + int (unat (8 :: u16)))"
      using adddatagram_returns [OF s(2,3) _ size, of "enc64 t" EC_CMD_FRMW False adr ECT_REG_DCSYSTIME] by (auto simp: returns_iff)
    have "int (unat r) = 24 + int (unat sub)" using q(9) by (simp only: s(9) fun_upd_same)
    moreover have "unat sub + 20 \<le> EC_MAXDATA" using len(1) True by simp
    ultimately have r8: "unat r + 8 \<le> EC_BUFSIZE" by linarith
    have "0 \<le> uint sub" by simp
    with True q s size show ?thesis by (simp add: exI [of _ "48 + uint sub"]) (use r8 in linarith)
  qed
  then obtain DCO p3 n where a: "?m = Some (DCO, p3)" "port_inv p3" "idx_ok p3 idx" "prim p3 = prim p1" "redport p3 = redport p1"
      "redstate p3 = redstate p1" "osclock p3 = osclock p1" "txbuflength2 p3 = txbuflength2 p1" "unat DCO + 8 \<le> EC_BUFSIZE"
      "txbuflength p3 = (txbuflength p1)(unat idx := n)" "16 \<le> n" "n \<le> int EC_BUFSIZE"
    unfolding returns_iff by fast
  obtain w q where o': "ecx_outframe_red idx p3 = Some (w, q)" "port_inv q" "evolves idx p3 q"
    using outframe_red_returns [OF a(2,3)] by (auto simp: returns_iff op_post_def)
  have tx: "txbuflength q = (txbuflength p)(unat idx := n)" using o'(3) a(10) g(9) by (simp add: evolves_def)
  have ok: "idx_ok q idx" using a(3) evolves_idx_ok [OF o'(3)] by simp
  have mode: "redstate q = redstate p" "redport q = None \<longleftrightarrow> redport p = None" "txbuflength2 q = txbuflength2 p"
      "clock_left (osclock q) \<le> clock_left (osclock p)"
    using o'(3) a(5-8) g(5-8) by (auto simp: evolves_def)
  have "rxbufstat (prim q) i = EC_BUF_EMPTY" if "i \<noteq> unat idx" "rxbufstat (prim p) i = EC_BUF_EMPTY" for i
    using o'(3) that g(4) a(4) by (auto simp: evolves_def stat_step_def)
  then show thesis
    by (rule that [OF g(1) s(1) a(1) o'(1,2) ok a(9) tx a(11,12) mode])
qed

lemma exchange_frame:
  assumes ex: "exchange c0 c" and places: "0 < stack_places c"
    and q: "port_inv q" "idx_ok q idx" "unat DCO + 8 \<le> EC_BUFSIZE" "txbuflength q = (txbuflength (port c))(unat idx := n)"
      "16 \<le> n" "n \<le> int EC_BUFSIZE" "redstate q = redstate (port c)" "redport q = None \<longleftrightarrow> redport (port c) = None"
      "txbuflength2 q = txbuflength2 (port c)" "clock_left (osclock q) \<le> clock_left (osclock (port c))"
      "\<And>i. i \<noteq> unat idx \<Longrightarrow> rxbufstat (prim (port c)) i = EC_BUF_EMPTY \<Longrightarrow> rxbufstat (prim q) i = EC_BUF_EMPTY"
    and len: "EC_HEADERSIZE + unat sub + EC_WKCSIZE \<le> EC_BUFSIZE"
    and store: "sub = 0 \<or> (\<exists>b. store = Some b \<and> b + unat sub \<le> length (iomap c))"
  defines "d \<equiv> ecx_pushindex idx store sub DCO (c\<lparr>port := q\<rparr>)"
  shows "exchange c0 d \<and> frames d = frames c @ [(idx, store, sub, DCO)] \<and> stack_places d = stack_places c - 1 \<and>
    iomap d = iomap c \<and> port d = q"
proof -
  let ?c = "c\<lparr>port := q\<rparr>"
  have inv: "ctx_inv c" by (rule exchange_inv [OF ex])
  have s: "idxstack_inv (idxstack ?c)" "0 < stack_places ?c" using inv places by (simp_all add: ctx_inv_def stack_places_def)
  have fr: "frames ?c = frames c" "stack_places ?c = stack_places c" by (simp_all add: frames_def stack_places_def)
  have f: "frames d = frames c @ [(idx, store, sub, DCO)]" "stack_places d = stack_places c - 1" "idxstack_inv (idxstack d)"
    using pushindex_law [OF s, of idx store sub DCO] unfolding d_def fr by simp_all
  have d: "port d = q" "iomap d = iomap c" "elist d = elist c" "slavelist d = slavelist c" "slavecount d = slavecount c" "grouplist d = grouplist c"
    by (simp_all add: d_def ecx_pushindex_def Let_def)
  have "entry_ok d e" if "e \<in> set (frames c)" for e
    using ex that entry_ok_port [OF _ q(4-6) d(2,1)] by (auto simp: exchange_def)
  moreover have "entry_ok d (idx, store, sub, DCO)" using q(2,3) len store by (simp add: entry_ok_def d)
  ultimately have "\<forall>e\<in>set (frames d). entry_ok d e" by (auto simp: f(1))
  moreover have "rxbufstat (prim (port d)) i = EC_BUF_EMPTY \<or> i \<in> (unat \<circ> fst) ` set (frames d)"
    if "rxbufstat (prim (port c0)) i = EC_BUF_EMPTY" for i
    using ex that q(11) [of i] unfolding f(1) d(1) exchange_def by auto
  moreover have "ctx_inv d" using inv q(1) f(3) d by (simp add: ctx_inv_def)
  ultimately show ?thesis
    using ex f d q(7-10) unfolding exchange_def ctx_left_def by auto
qed

lemma pd_frame_returns:
  assumes ex: "exchange c0 c" and places: "0 < stack_places c"
    and len: "unat sub + (if first then 20 else 0) \<le> EC_MAXDATA"
    and data: "data = Some a" "a + unat sub \<le> length (iomap c)"
    and store: "sub = 0 \<or> (\<exists>b. store = Some b \<and> b + unat sub \<le> length (iomap c))"
    and clock: "first \<Longrightarrow> get_group grp c = Some g \<and> unat (g_DCnext g) < length (slavelist c)"
  shows "returns (pd_frame com grp LogAdr sub data store first c) (\<lambda>d. exchange c0 d \<and>
    (\<exists>idx DCO. frames d = frames c @ [(idx, store, sub, DCO)]) \<and> stack_places d = stack_places c - 1 \<and> iomap d = iomap c)"
proof -
  let ?bs = "iomap_from data c" and ?adr = "s_configadr (slavelist c ! unat (g_DCnext g))"
  have bs: "unat sub \<le> length ?bs" using data by (simp add: iomap_from_def)
  have port: "port_inv (port c)" by (rule ctx_inv_port [OF exchange_inv [OF ex]])
  obtain idx p1 p2 DCO p3 w q n where g: "ecx_getindex (port c) = Some (idx, p1)"
      and s: "ecx_setupdatagram (Tx (unat idx)) com idx (LO_WORD LogAdr) (HI_WORD LogAdr) sub ?bs p1 = Some p2"
      and a: "(if first then ecx_adddatagram (Tx (unat idx)) EC_CMD_FRMW idx False ?adr ECT_REG_DCSYSTIME 8 (enc64 (DCtime c)) p2 else Some (0, p2)) = Some (DCO, p3)"
      and o': "ecx_outframe_red idx p3 = Some (w, q)"
      and q: "port_inv q" "idx_ok q idx" "unat DCO + 8 \<le> EC_BUFSIZE" "txbuflength q = (txbuflength (port c))(unat idx := n)"
      "16 \<le> n" "n \<le> int EC_BUFSIZE" "redstate q = redstate (port c)" "redport q = None \<longleftrightarrow> redport (port c) = None"
      "txbuflength2 q = txbuflength2 (port c)" "clock_left (osclock q) \<le> clock_left (osclock (port c))"
      "\<And>i. i \<noteq> unat idx \<Longrightarrow> rxbufstat (prim (port c)) i = EC_BUF_EMPTY \<Longrightarrow> rxbufstat (prim q) i = EC_BUF_EMPTY"
    by (rule pd_frame_port [OF port len bs, of com "LO_WORD LogAdr" "HI_WORD LogAdr" ?adr "DCtime c"]) (rule that)
  have "(if first then do { g \<leftarrow> get_group grp (c\<lparr>port := p1\<rparr>); s \<leftarrow> get_slave (g_DCnext g) (c\<lparr>port := p1\<rparr>);
      ecx_adddatagram (Tx (unat idx)) EC_CMD_FRMW idx False (s_configadr s) ECT_REG_DCSYSTIME 8 (enc64 (DCtime (c\<lparr>port := p1\<rparr>))) p2 } else Some (0, p2)) = Some (DCO, p3)"
    using a clock by (cases first) (simp_all add: get_group_def get_slave_def arr_get_def)
  moreover have "iomap_from data (c\<lparr>port := p1\<rparr>) = ?bs" by (cases data) (simp_all add: iomap_from_def)
  ultimately have "pd_frame com grp LogAdr sub data store first c = Some (ecx_pushindex idx store sub DCO (c\<lparr>port := q\<rparr>))"
    using g s o' by (simp add: pd_frame_def on_port_def)
  moreover have "EC_HEADERSIZE + unat sub + EC_WKCSIZE \<le> EC_BUFSIZE" using len by (cases first) simp_all
  ultimately show ?thesis
    using exchange_frame [OF ex places q _ store] by simp
qed

section \<open>The segments of a group\<close>

text \<open>
  \<open>layout d segs\<close>: consecutive parts of the IO map from \<open>d\<close> on, with the lengths \<open>segs\<close>.
\<close>

primrec layout :: "nat option \<Rightarrow> u16 list \<Rightarrow> (nat option \<times> u16) list" where
  "layout d [] = []"
| "layout d (s # ss) = (d, s) # layout (ptr_add d (unat s)) ss"

definition seg_bytes :: "u16 list \<Rightarrow> nat" where
  "seg_bytes segs = sum_list (map unat segs)"

definition stored_parts :: "ecx_context \<Rightarrow> (nat option \<times> u16) list" where
  "stored_parts c = map (\<lambda>(_, data, len, _). (data, len)) (frames c)"

lemma seg_bytes_simps [simp]: "seg_bytes [] = 0" "seg_bytes (s # ss) = unat s + seg_bytes ss"
  by (simp_all add: seg_bytes_def)

lemma ptr_add_simps [simp]: "ptr_add (Some a) n = Some (a + n)" "ptr_add None n = None" "ptr_add d 0 = d"
  by (simp_all add: ptr_add_def option.map_ident)

lemma seg_bytes_append [simp]: "seg_bytes (xs @ ys) = seg_bytes xs + seg_bytes ys"
  by (simp add: seg_bytes_def)

lemma stack_places_exchange: "exchange c0 c \<Longrightarrow> stack_places c \<le> EC_MAXBUF"
  by (simp add: stack_places_def)

text \<open>
  One round of a loop over segments: it sends the segment \<open>sub\<close>, pushes the part of the IO map
  at \<open>store\<close>, and goes on unless everything is sent or the segments are used up.
\<close>

definition pd_round :: "ecx_context \<Rightarrow> nat \<Rightarrow> (pd_state \<Rightarrow> (pd_state \<times> bool) option) \<Rightarrow> pd_state \<Rightarrow> nat option \<Rightarrow> u16 \<Rightarrow> bool" where
  "pd_round c0 nseg body s store sub \<longleftrightarrow> (case s of (len, la, data, seg, first, c) \<Rightarrow>
     returns (body s) (\<lambda>((len', la', data', seg', first', c'), again).
       exchange c0 c' \<and> stored_parts c' = stored_parts c @ [(store, sub)] \<and> stack_places c' = stack_places c - 1 \<and>
       len' = len - int (unat sub) \<and> data' = ptr_add data (unat sub) \<and> seg' = seg + 1 \<and> \<not> first' \<and>
       (again \<longleftrightarrow> len' \<noteq> 0 \<and> unat (seg + 1) < nseg)))"

lemma pd_loop:
  assumes seg: "\<And>s. s \<in> set segs \<Longrightarrow> 0 < unat s" and n: "k0 + length segs \<le> nseg" "nseg < 65536"
    and round: "\<And>pre sub rest la first c. segs = pre @ sub # rest \<Longrightarrow> exchange c0 c \<Longrightarrow> 0 < stack_places c \<Longrightarrow> (first \<longrightarrow> pre = [] \<and> first0) \<Longrightarrow>
      pd_round c0 nseg body (int (seg_bytes (sub # rest)), la, Some (a0 + seg_bytes pre), of_nat (k0 + length pre), first, c)
        (Some (b0 + seg_bytes pre)) sub"
    and start: "segs = pre @ rest" "rest \<noteq> []" "exchange c0 c" "length rest \<le> stack_places c" "first \<longrightarrow> pre = [] \<and> first0"
  shows "returns (do_while body (int (seg_bytes rest), la, Some (a0 + seg_bytes pre), of_nat (k0 + length pre), first, c))
    (\<lambda>(_, _, _, _, first', d). exchange c0 d \<and> stored_parts d = stored_parts c @ layout (Some (b0 + seg_bytes pre)) rest \<and>
       stack_places d = stack_places c - length rest \<and> \<not> first')"
  using start
proof (induction rest arbitrary: pre la first c)
  case (Cons sub rest)
  let ?s = "(int (seg_bytes (sub # rest)), la, Some (a0 + seg_bytes pre), of_nat (k0 + length pre) :: u16, first, c)"
  have "0 < stack_places c" using Cons.prems(4) by simp
  from round [OF Cons.prems(1,3) this Cons.prems(5), of la]
  obtain la' c' again where b: "body ?s = Some ((int (seg_bytes rest), la', Some (a0 + (seg_bytes pre + unat sub)), of_nat (k0 + length (pre @ [sub])), False, c'), again)"
      and c': "exchange c0 c'" "stored_parts c' = stored_parts c @ [(Some (b0 + seg_bytes pre), sub)]" "stack_places c' = stack_places c - 1"
      and ag: "again \<longleftrightarrow> int (seg_bytes rest) \<noteq> 0 \<and> unat (of_nat (k0 + length pre) + 1 :: u16) < nseg"
    by (auto simp: pd_round_def returns_iff add_ac)
  have pos: "rest \<noteq> [] \<Longrightarrow> 0 < seg_bytes rest"
    using seg Cons.prems(1) by (cases rest) auto
  show ?case
  proof (cases "rest = []")
    case True
    then have "\<not> again" using ag by simp
    with b have "do_while body ?s = Some (int (seg_bytes rest), la', Some (a0 + (seg_bytes pre + unat sub)), of_nat (k0 + length (pre @ [sub])), False, c')"
      by (auto intro: do_while_stop)
    with c' True show ?thesis by simp
  next
    case False
    have "Suc (k0 + length pre) < k0 + length segs" using Cons.prems(1) False by simp
    then have "k0 + length pre + 1 < nseg" using n(1) by linarith
    then have "unat (of_nat (k0 + length pre) + 1 :: u16) < nseg"
      using n(2) unat_of_nat_u16 [of "k0 + length pre + 1"] by (simp add: add.commute)
    then have again using ag pos [OF False] by simp
    with b have step: "do_while body ?s = do_while body (int (seg_bytes rest), la', Some (a0 + seg_bytes (pre @ [sub])), of_nat (k0 + length (pre @ [sub])), False, c')"
      by (simp add: do_while_unfold)
    have "length rest \<le> stack_places c'" using Cons.prems(4) c'(3) by simp
    from Cons.IH [OF _ False c'(1) this, of "pre @ [sub]" False la'] Cons.prems(1)
    show ?thesis unfolding step by (auto simp: c'(2,3) add.assoc elim!: returns_mono)
  qed
qed simp

lemma frame_round:
  assumes ex: "exchange c0 c" and places: "0 < stack_places c" and g: "get_group grp c0 = Some g"
    and clock: "first \<longrightarrow> unat (g_DCnext g) < length (slavelist c0)"
    and sub: "unat sub \<le> 1470" "a + unat sub \<le> length (iomap c0)" "b + unat sub \<le> length (iomap c0)"
    and body: "get_group grp c = Some g \<Longrightarrow> body (len, la, Some a, seg, first, c) = do {
      c \<leftarrow> pd_frame com grp la sub (Some a) (Some b) first c;
      Some (pd_next g sub (len, la, Some a, seg) c) }"
  shows "pd_round c0 (unat (g_nsegments g)) body (len, la, Some a, seg, first, c) (Some b) sub"
proof -
  have c: "get_group grp c = Some g" "slavelist c = slavelist c0" "length (iomap c) = length (iomap c0)"
    using ex g by (simp_all add: exchange_def get_group_def)
  have "unat sub + (if first then 20 else 0) \<le> EC_MAXDATA" using sub(1) by simp
  then have "returns (pd_frame com grp la sub (Some a) (Some b) first c) (\<lambda>d. exchange c0 d \<and>
      (\<exists>idx DCO. frames d = frames c @ [(idx, Some b, sub, DCO)]) \<and> stack_places d = stack_places c - 1 \<and> iomap d = iomap c)"
    by (rule pd_frame_returns [OF ex places _ refl, where g = g]) (use sub clock c in auto)
  then show ?thesis
    by (auto simp: pd_round_def body [OF c(1)] pd_next_def Let_def stored_parts_def word_less_nat_alt elim!: returns_mono)
qed

text \<open>Segments that can be sent from the IO map at \<open>a\<close>, with room for the clock behind them.\<close>

definition pd_fit :: "ecx_context \<Rightarrow> nat \<Rightarrow> u16 list \<Rightarrow> bool" where
  "pd_fit c a segs \<longleftrightarrow> (\<forall>s\<in>set segs. 0 < unat s \<and> unat s \<le> 1470) \<and> a + seg_bytes segs \<le> length (iomap c)"

definition group_segments :: "ec_group \<Rightarrow> u16 list" where
  "group_segments g = map ucast (take (unat (g_nsegments g)) (g_IOsegment g))"

lemma segments_loop:
  assumes c0: "get_group grp c0 = Some g" and segs: "segs \<noteq> []" "k0 + length segs \<le> unat (g_nsegments g)"
    and fit: "pd_fit c0 a0 segs" "pd_fit c0 (a0 + off) segs"
    and clock: "first \<longrightarrow> unat (g_DCnext g) < length (slavelist c0)"
    and start: "exchange c0 c" "length segs \<le> stack_places c"
    and body: "\<And>pre sub rest la a first d. segs = pre @ sub # rest \<Longrightarrow> get_group grp d = Some g \<Longrightarrow>
      body (int (seg_bytes (sub # rest)), la, Some a, of_nat (k0 + length pre), first, d) = do {
        c \<leftarrow> pd_frame com grp la sub (Some a) (Some (a + off)) first d;
        Some (pd_next g sub (int (seg_bytes (sub # rest)), la, Some a, of_nat (k0 + length pre)) c) }"
  shows "returns (do_while body (int (seg_bytes segs), la, Some a0, of_nat k0, first, c))
    (\<lambda>(_, _, _, _, first', d). exchange c0 d \<and> stored_parts d = stored_parts c @ layout (Some (a0 + off)) segs \<and>
       stack_places d = stack_places c - length segs \<and> \<not> first')"
proof -
  let ?n = "unat (g_nsegments g)"
  have "returns (do_while body (int (seg_bytes segs), la, Some (a0 + seg_bytes []), of_nat (k0 + length ([] :: u16 list)), first, c))
      (\<lambda>(_, _, _, _, first', d). exchange c0 d \<and> stored_parts d = stored_parts c @ layout (Some ((a0 + off) + seg_bytes [])) segs \<and>
         stack_places d = stack_places c - length segs \<and> \<not> first')"
  proof (rule pd_loop [where segs = segs and nseg = ?n and ?first0.0 = first])
    fix pre sub rest la' first' d
    assume s: "segs = pre @ sub # rest" and ex: "exchange c0 d" and places: "0 < stack_places d" and f: "first' \<longrightarrow> pre = [] \<and> first"
    have "sub \<in> set segs" by (simp add: s)
    then have "unat sub \<le> 1470" using fit(1) by (simp add: pd_fit_def)
    moreover have "a0 + seg_bytes pre + unat sub \<le> length (iomap c0)" "a0 + seg_bytes pre + off + unat sub \<le> length (iomap c0)"
      using fit s by (simp_all add: pd_fit_def)
    moreover have "first' \<longrightarrow> unat (g_DCnext g) < length (slavelist c0)" using clock f by blast
    ultimately have "pd_round c0 ?n body (int (seg_bytes (sub # rest)), la', Some (a0 + seg_bytes pre), of_nat (k0 + length pre), first', d)
        (Some (a0 + seg_bytes pre + off)) sub"
      by (intro frame_round [where com = com and grp = grp, OF ex places c0]) (assumption | rule body [OF s])+
    then show "pd_round c0 ?n body (int (seg_bytes (sub # rest)), la', Some (a0 + seg_bytes pre), of_nat (k0 + length pre), first', d)
        (Some (a0 + off + seg_bytes pre)) sub" by (simp only: ac_simps)
  qed (use fit(1) segs start unsigned_less [of "g_nsegments g", where 'a = nat] in \<open>auto simp: pd_fit_def\<close>)
  then show ?thesis by simp
qed

text \<open>The index of the segment at the place \<open>pre\<close> of a list of segments that starts at \<open>k0\<close>.\<close>

lemma segment_index:
  "segs = pre @ sub # rest \<Longrightarrow> k0 + length segs \<le> unat (n :: u16) \<Longrightarrow>
     unat (of_nat (k0 + length pre) :: u16) = k0 + length pre \<and> k0 + length pre < unat n"
proof -
  assume a: "segs = pre @ sub # rest" "k0 + length segs \<le> unat n"
  then have "k0 + length pre < unat n" by simp
  moreover have "unat n < 65536" using unsigned_less [of n, where 'a = nat] by simp
  ultimately show ?thesis using unat_of_nat_u16 [of "k0 + length pre"] by simp
qed

text \<open>The segments of the three kinds of transfer.\<close>

definition lrw_segments :: "ec_group \<Rightarrow> u16 list" where
  "lrw_segments g = map ucast (take (unat (g_nsegments g)) (g_IOsegment g))"

definition lrd_segments :: "ec_group \<Rightarrow> u16 list" where
  "lrd_segments g = map (\<lambda>k. if k = unat (g_Isegment g) then ucast (g_IOsegment g ! k - ucast (g_Ioffset g)) else ucast (g_IOsegment g ! k))
     [unat (g_Isegment g) ..< unat (g_nsegments g)]"

text \<open>The outputs end inside a segment, the last part is cut to what is left.\<close>

definition lwr_segments :: "ec_group \<Rightarrow> u16 list \<Rightarrow> bool" where
  "lwr_segments g segs \<longleftrightarrow> length segs \<le> unat (g_nsegments g) \<and> (\<forall>k<length segs.
     segs ! k = (let io = ucast (g_IOsegment g ! k) in if seg_bytes (drop k segs) < unat io then of_nat (seg_bytes (drop k segs)) else io))"

lemma lrw_loop:
  assumes "get_group grp c0 = Some g" "lrw_segments g \<noteq> []" "unat (g_nsegments g) \<le> length (g_IOsegment g)"
    and "pd_fit c0 a0 (lrw_segments g)" "pd_fit c0 (a0 + unat off) (lrw_segments g)"
    and "first \<longrightarrow> unat (g_DCnext g) < length (slavelist c0)" "exchange c0 c" "length (lrw_segments g) \<le> stack_places c"
  shows "returns (do_while (pd_lrw_body grp off) (int (seg_bytes (lrw_segments g)), la, Some a0, of_nat 0, first, c))
    (\<lambda>(_, _, _, _, first', d). exchange c0 d \<and> stored_parts d = stored_parts c @ layout (Some (a0 + unat off)) (lrw_segments g) \<and>
       stack_places d = stack_places c - length (lrw_segments g) \<and> \<not> first')"
proof (rule segments_loop [OF assms(1,2) _ assms(4-8), where com = EC_CMD_LRW])
  show n: "0 + length (lrw_segments g) \<le> unat (g_nsegments g)" by (simp add: lrw_segments_def)
  fix pre sub rest la a first d assume s: "lrw_segments g = pre @ sub # rest" and d: "get_group grp d = Some g"
  have "lrw_segments g ! length pre = sub" by (simp add: s)
  then have "sub = ucast (g_IOsegment g ! length pre)"
    using segment_index [OF s n] assms(3) by (simp add: lrw_segments_def)
  then show "pd_lrw_body grp off (int (seg_bytes (sub # rest)), la, Some a, of_nat (0 + length pre), first, d) = do {
      c \<leftarrow> pd_frame EC_CMD_LRW grp la sub (Some a) (Some (a + unat off)) first d;
      Some (pd_next g sub (int (seg_bytes (sub # rest)), la, Some a, of_nat (0 + length pre)) c) }"
    using segment_index [OF s n] assms(3) d by (simp add: pd_lrw_body_def arr_get_def Let_def)
qed

lemma lrd_loop:
  assumes "get_group grp c0 = Some g" "lrd_segments g \<noteq> []" "unat (g_nsegments g) \<le> length (g_IOsegment g)"
    and "pd_fit c0 a0 (lrd_segments g)"
    and "first \<longrightarrow> unat (g_DCnext g) < length (slavelist c0)" "exchange c0 c" "length (lrd_segments g) \<le> stack_places c"
  shows "returns (do_while (pd_lrd_body grp) (int (seg_bytes (lrd_segments g)), la, Some a0, g_Isegment g, first, c))
    (\<lambda>(_, _, _, _, first', d). exchange c0 d \<and> stored_parts d = stored_parts c @ layout (Some a0) (lrd_segments g) \<and>
       stack_places d = stack_places c - length (lrd_segments g) \<and> \<not> first')"
proof -
  let ?k = "unat (g_Isegment g)"
  have "returns (do_while (pd_lrd_body grp) (int (seg_bytes (lrd_segments g)), la, Some a0, of_nat ?k, first, c))
    (\<lambda>(_, _, _, _, first', d). exchange c0 d \<and> stored_parts d = stored_parts c @ layout (Some (a0 + 0)) (lrd_segments g) \<and>
       stack_places d = stack_places c - length (lrd_segments g) \<and> \<not> first')"
  proof (rule segments_loop [OF assms(1,2) _ assms(4) _ assms(5-7), where com = EC_CMD_LRD])
    show n: "?k + length (lrd_segments g) \<le> unat (g_nsegments g)" using assms(2) by (auto simp: lrd_segments_def)
    show "pd_fit c0 (a0 + 0) (lrd_segments g)" using assms(4) by simp
    fix pre sub rest la a first d assume s: "lrd_segments g = pre @ sub # rest" and d: "get_group grp d = Some g"
    let ?i = "?k + length pre" and ?w = "of_nat (?k + length pre) :: u16"
    have i: "unat ?w = ?i" "?i < unat (g_nsegments g)" using segment_index [OF s n] by auto
    have "lrd_segments g ! length pre = sub" by (simp add: s)
    then have sub: "sub = (if ?i = ?k then ucast (g_IOsegment g ! ?i - ucast (g_Ioffset g)) else ucast (g_IOsegment g ! ?i))"
      using i(2) by (cases "pre = []") (simp_all add: lrd_segments_def)
    have "?w = g_Isegment g \<longleftrightarrow> ?i = ?k" using i(1) by (metis word_unat_eq_iff)
    with i assms(3) d sub show "pd_lrd_body grp (int (seg_bytes (sub # rest)), la, Some a, ?w, first, d) = do {
        c \<leftarrow> pd_frame EC_CMD_LRD grp la sub (Some a) (Some (a + 0)) first d;
        Some (pd_next g sub (int (seg_bytes (sub # rest)), la, Some a, ?w) c) }"
      by (simp add: pd_lrd_body_def arr_get_def Let_def)
  qed
  then show ?thesis by simp
qed

lemma lwr_loop:
  assumes "get_group grp c0 = Some g" "segs \<noteq> []" "unat (g_nsegments g) \<le> length (g_IOsegment g)" "lwr_segments g segs"
    and "pd_fit c0 a0 segs"
    and "first \<longrightarrow> unat (g_DCnext g) < length (slavelist c0)" "exchange c0 c" "length segs \<le> stack_places c"
  shows "returns (do_while (pd_lwr_body grp) (int (seg_bytes segs), la, Some a0, of_nat 0, first, c))
    (\<lambda>(_, _, _, _, first', d). exchange c0 d \<and> stored_parts d = stored_parts c @ layout (Some a0) segs \<and>
       stack_places d = stack_places c - length segs \<and> \<not> first')"
proof -
  have "returns (do_while (pd_lwr_body grp) (int (seg_bytes segs), la, Some a0, of_nat 0, first, c))
    (\<lambda>(_, _, _, _, first', d). exchange c0 d \<and> stored_parts d = stored_parts c @ layout (Some (a0 + 0)) segs \<and>
       stack_places d = stack_places c - length segs \<and> \<not> first')"
  proof (rule segments_loop [OF assms(1,2) _ assms(5) _ assms(6-8), where com = EC_CMD_LWR])
    show n: "0 + length segs \<le> unat (g_nsegments g)" using assms(4) by (simp add: lwr_segments_def)
    show "pd_fit c0 (a0 + 0) segs" using assms(5) by simp
    fix pre sub rest la a first d assume s: "segs = pre @ sub # rest" and d: "get_group grp d = Some g"
    let ?w = "of_nat (0 + length pre) :: u16" and ?io = "ucast (g_IOsegment g ! length pre) :: u16"
    have i: "unat ?w = length pre" "length pre < unat (g_nsegments g)" using segment_index [OF s n] by auto
    have "segs ! length pre = sub" "drop (length pre) segs = sub # rest" "length pre < length segs" by (simp_all add: s)
    then have sub: "sub = (if seg_bytes (sub # rest) < unat ?io then of_nat (seg_bytes (sub # rest)) else ?io)"
      using assms(4) unfolding lwr_segments_def Let_def by metis
    have "int (seg_bytes (sub # rest)) - int (unat ?io) < 0 \<longleftrightarrow> seg_bytes (sub # rest) < unat ?io" by linarith
    then have "(if int (seg_bytes (sub # rest)) - int (unat ?io) < 0 then word_of_int (int (seg_bytes (sub # rest))) else ?io) = sub"
      using sub by (simp only: of_int_of_nat_eq)
    with i assms(3) d show "pd_lwr_body grp (int (seg_bytes (sub # rest)), la, Some a, ?w, first, d) = do {
        c \<leftarrow> pd_frame EC_CMD_LWR grp la sub (Some a) (Some (a + 0)) first d;
        Some (pd_next g sub (int (seg_bytes (sub # rest)), la, Some a, ?w) c) }"
      by (simp only: pd_lwr_body_def prod.case arr_get_def Let_def if_True order.strict_trans2 bind.simps add_0_right)
  qed
  then show ?thesis by simp
qed

section \<open>Receiving\<close>

lemma iomap_write_returns:
  assumes "bs = [] \<or> (\<exists>a. data = Some a \<and> a + length bs \<le> length (iomap c))"
  shows "returns (iomap_write data bs c) (\<lambda>d. \<exists>m. d = c\<lparr>iomap := m\<rparr> \<and> length m = length (iomap c))"
proof (cases "bs = []")
  case True
  have "\<exists>m. c = c\<lparr>iomap := m\<rparr> \<and> length m = length (iomap c)" by (rule exI [of _ "iomap c"]) simp
  with True show ?thesis by (simp add: iomap_write_def)
next
  case False
  with assms obtain a where a: "data = Some a" "a + length bs \<le> length (iomap c)" by auto
  with False show ?thesis
    by (simp add: iomap_write_def) (rule exI [of _ "take a (iomap c) @ bs @ drop (a + length bs) (iomap c)"], simp)
qed

lemma pd_store_returns:
  assumes e: "entry_at (idxstack c) pos = (idx, data, len, DCO)" "entry_ok c (idx, data, len, DCO)"
    and pos: "pos < EC_MAXBUF" "idxstack_inv (idxstack c)" and w: "0 \<le> wkc" "0 \<le> wkc2"
  shows "returns (pd_store pos idx wkc2 wkc v c) (\<lambda>(w, v', d). 0 \<le> w \<and> (\<exists>m t. d = c\<lparr>iomap := m, DCtime := t\<rparr> \<and> length m = length (iomap c)))"
proof -
  have s: "arr_get (is_length (idxstack c)) pos = Some len" "arr_get (is_dcoffset (idxstack c)) pos = Some DCO"
      "arr_get (is_data (idxstack c)) pos = Some data"
    using e(1) pos by (simp_all add: entry_at_def idxstack_inv_def)
  have i: "unat idx < EC_MAXBUF" and fit: "EC_HEADERSIZE + unat len + EC_WKCSIZE \<le> EC_BUFSIZE" "unat DCO + 8 \<le> EC_BUFSIZE"
    and data: "len = 0 \<or> (\<exists>a. data = Some a \<and> a + unat len \<le> length (iomap c))"
    using e(2) by (auto simp: entry_ok_def idx_ok_def)
  let ?bs = "slice (rxbuf (prim (port c)) (unat idx)) EC_HEADERSIZE (unat len)"
  have same: "\<exists>m t. c\<lparr>DCtime := t0\<rparr> = c\<lparr>iomap := m, DCtime := t\<rparr> \<and> length m = length (iomap c)" for t0
    by (rule exI [of _ "iomap c"], rule exI [of _ t0]) simp
  have same': "\<exists>m t. c = c\<lparr>iomap := m, DCtime := t\<rparr> \<and> length m = length (iomap c)"
    by (rule exI [of _ "iomap c"], rule exI [of _ "DCtime c"]) simp
  have "?bs = [] \<or> (\<exists>a. data = Some a \<and> a + length ?bs \<le> length (iomap c))" using data by (auto simp: slice_def)
  then obtain m where m: "iomap_write data ?bs c = Some (c\<lparr>iomap := m\<rparr>)" "length m = length (iomap c)"
    using iomap_write_returns [of ?bs data c] by (auto simp: returns_iff)
  have t: "\<exists>m' t. c\<lparr>iomap := m\<rparr> = c\<lparr>iomap := m', DCtime := t\<rparr> \<and> length m' = length (iomap c)"
    by (rule exI [of _ m], rule exI [of _ "DCtime c"]) (simp add: m(2))
  let ?com = "rxbuf (prim (port c)) (unat idx) EC_CMDOFFSET"
  consider (rd) "?com = EC_CMD_LRD \<or> ?com = EC_CMD_LRW" | (wr) "?com = EC_CMD_LWR" | (other) "?com \<notin> {EC_CMD_LRD, EC_CMD_LRW, EC_CMD_LWR}"
    by auto
  then show ?thesis
  proof cases
    case rd
    with m t i fit w show ?thesis
      by (cases "DCO > 0") (auto simp: pd_store_def s Let_def copy_out_returns)
  next
    case wr
    with same same' i fit w show ?thesis
      by (cases "DCO > 0") (auto simp: pd_store_def s Let_def copy_out_returns)
  next
    case other
    with same' i w show ?thesis by (simp add: pd_store_def s Let_def)
  qed
qed

text \<open>One round: the frame of the entry just pulled is waited for, stored, and its index given back.\<close>

lemma pd_receive_round:
  assumes ex: "exchange c0 c" and f: "frames c = (idx, data, len, DCO) # es" and w: "0 \<le> wkc"
  obtains w' v' pos d c' where "ecx_pullindex c = (int pos, d)"
    "pd_receive_body timeout (wkc, v, int pos, d) = Some (w', v', ecx_pullindex c')" "0 \<le> w'" "exchange c0 c'" "frames c' = es"
proof -
  let ?e = "(idx, data, len, DCO)"
  have inv: "ctx_inv c" by (rule exchange_inv [OF ex])
  then have "idxstack_inv (idxstack c)" by (simp add: ctx_inv_def)
  from pullindex_law [OF this f] obtain pos d where d: "ecx_pullindex c = (int pos, d)" "pos < EC_MAXBUF"
      "entry_at (idxstack d) pos = ?e" "idxstack_inv (idxstack d)" "frames d = es" "d = c\<lparr>idxstack := idxstack d\<rparr>"
    by blast
  have same: "port d = port c" "iomap d = iomap c" "elist d = elist c" "slavelist d = slavelist c" "slavecount d = slavecount c"
      "grouplist d = grouplist c" by (subst d(6), simp)+
  have oks: "entry_ok c x" if "x \<in> set (?e # es)" for x using ex f that by (auto simp: exchange_def)
  then have "entry_ok c ?e" by simp
  then have e: "entry_ok d ?e" by (simp add: entry_ok_def same)
  then have ok: "idx_ok (port c) idx" "unat idx < EC_MAXBUF" by (simp_all add: entry_ok_def idx_ok_def same)
  have i: "arr_get (is_idx (idxstack d)) pos = Some idx" using d(2-4) by (simp add: entry_at_def idxstack_inv_def)
  obtain wkc2 q where q: "ecx_waitinframe idx timeout (port c) = Some (wkc2, q)" "port_inv q" "evolves idx (port c) q"
    using waitinframe_returns [OF ctx_inv_port [OF inv] ok(1), of timeout] by (auto simp: returns_iff wkc_post_def op_post_def)
  let ?d = "d\<lparr>port := q\<rparr>"
  have "entry_ok ?d ?e" using e evolves_idx_ok [OF q(3)] by (simp add: entry_ok_def same)
  then have "returns (if wkc2 > EC_NOFRAME then pd_store pos idx wkc2 wkc v ?d else Some (wkc, v, ?d))
      (\<lambda>(w, v', e). 0 \<le> w \<and> (\<exists>m t. e = ?d\<lparr>iomap := m, DCtime := t\<rparr> \<and> length m = length (iomap ?d)))"
  proof (cases "wkc2 > EC_NOFRAME")
    case True
    then have "0 \<le> wkc2" by simp
    moreover have "entry_at (idxstack ?d) pos = ?e" "idxstack_inv (idxstack ?d)" using d(3,4) by simp_all
    ultimately show ?thesis
      using True pd_store_returns [of ?d pos idx data len DCO wkc wkc2 v] \<open>entry_ok ?d ?e\<close> d(2) w by simp
  next
    case False
    have "\<exists>m t. ?d = ?d\<lparr>iomap := m, DCtime := t\<rparr> \<and> length m = length (iomap ?d)"
      by (rule exI [of _ "iomap d"], rule exI [of _ "DCtime d"]) simp
    with False w show ?thesis by simp
  qed
  then obtain w' v' m t where st: "(if wkc2 > EC_NOFRAME then pd_store pos idx wkc2 wkc v ?d else Some (wkc, v, ?d))
      = Some (w', v', ?d\<lparr>iomap := m, DCtime := t\<rparr>)" "0 \<le> w'" "length m = length (iomap ?d)"
    unfolding returns_iff by fast
  obtain r where r: "ecx_setbufstat idx EC_BUF_EMPTY q = Some r" "port_inv r" "evolves idx q r"
      "rxbufstat (prim r) = (rxbufstat (prim q))(unat idx := EC_BUF_EMPTY)"
    using port_inv_setbufstat [OF q(2) ok(2), of EC_BUF_EMPTY] by (auto simp: returns_iff)
  let ?c' = "?d\<lparr>iomap := m, DCtime := t, port := r\<rparr>"
  have ev: "evolves idx (port c) r" by (rule evolves_trans [OF q(3) r(3)])
  have "frames ?c' = es" using d(5) by (simp add: frames_def)
  moreover have "exchange c0 ?c'"
  proof -
    have "entry_ok ?c' x" if "x \<in> set es" for x
      using oks [of x] that st(3) evolves_idx_ok [OF ev] by (simp add: entry_ok_def same case_prod_unfold)
    moreover have "rxbufstat (prim r) j = EC_BUF_EMPTY \<or> j \<in> (unat \<circ> fst) ` set es"
      if "rxbufstat (prim (port c0)) j = EC_BUF_EMPTY" for j
    proof (cases "j = unat idx")
      case True
      then show ?thesis using r(4) by simp
    next
      case False
      with ex that f have "rxbufstat (prim (port c)) j = EC_BUF_EMPTY \<or> j \<in> (unat \<circ> fst) ` set es"
        by (auto simp: exchange_def)
      with ev False show ?thesis by (auto simp: evolves_def stat_step_def)
    qed
    moreover have "ctx_inv ?c'" using inv r(2) d(4) by (simp add: ctx_inv_def same)
    ultimately show ?thesis
      using ex ev st(3) \<open>frames ?c' = es\<close> by (auto simp: exchange_def evolves_def ctx_left_def same)
  qed
  moreover have "pd_receive_body timeout (wkc, v, int pos, d) = Some (w', v', ecx_pullindex ?c')"
    using i q(1) st(1) r(1) by (simp add: pd_receive_body_def on_port_def same Let_def del: arr_get_Some cong: if_cong split: prod.split split del: if_split)
  ultimately show thesis using that d(1) st(2) by blast
qed

lemma pd_receive_loop:
  "exchange c0 c \<Longrightarrow> frames c = es \<Longrightarrow> 0 \<le> wkc \<Longrightarrow>
     returns (while_loop (\<lambda>(_, _, pos, _). pos \<ge> 0) (pd_receive_body timeout) (wkc, v, ecx_pullindex c))
       (\<lambda>(w, _, _, d). 0 \<le> w \<and> exchange c0 d \<and> frames d = [])"
proof (induction es arbitrary: c wkc v)
  case Nil
  then have "ecx_pullindex c = (-1, c)" by (intro pullindex_empty) (auto simp: exchange_def ctx_inv_def)
  with Nil show ?case by simp
next
  case (Cons e es)
  obtain idx data len DCO where e: "e = (idx, data, len, DCO)" by (cases e) auto
  obtain w' v' pos d c' where r: "ecx_pullindex c = (int pos, d)"
      "pd_receive_body timeout (wkc, v, int pos, d) = Some (w', v', ecx_pullindex c')" "0 \<le> w'" "exchange c0 c'" "frames c' = es"
    by (rule pd_receive_round [OF Cons.prems(1) Cons.prems(2) [unfolded e] Cons.prems(3)])
  have "while_loop (\<lambda>(_, _, pos, _). pos \<ge> 0) (pd_receive_body timeout) (wkc, v, ecx_pullindex c) =
      while_loop (\<lambda>(_, _, pos, _). pos \<ge> 0) (pd_receive_body timeout) (w', v', ecx_pullindex c')"
    unfolding r(1) by (rule while_loop_step) (use r(2) in simp_all)
  with Cons.IH [OF r(4,5,3)] show ?case by simp
qed

lemma receive_returns:
  assumes "exchange c0 c"
  shows "returns (ecx_receive_processdata_group grp timeout c) (\<lambda>(w, d). ctx_ok c0 d \<and> EC_NOFRAME \<le> w \<and>
    frames d = [] \<and> stack_places d = EC_MAXBUF)"
proof -
  obtain w v pos d where l: "while_loop (\<lambda>(_, _, pos, _). pos \<ge> 0) (pd_receive_body timeout) (0, False, ecx_pullindex c) = Some (w, v, pos, d)"
      "0 \<le> w" "exchange c0 d" "frames d = []"
    using pd_receive_loop [OF assms refl, of 0 timeout False] by (auto simp: returns_iff)
  let ?d = "ecx_clearindex d"
  have clear: "frames ?d = []" "stack_places ?d = EC_MAXBUF" "port ?d = port d" "elist ?d = elist d" "slavelist ?d = slavelist d"
      "slavecount ?d = slavecount d" "grouplist ?d = grouplist d" "iomap ?d = iomap d"
    by (simp_all add: ecx_clearindex_def frames_def stack_places_def)
  have "idxstack_inv (idxstack ?d)" using exchange_inv [OF l(3)] by (simp add: ctx_inv_def idxstack_inv_def ecx_clearindex_def)
  then have "ctx_inv ?d" using exchange_inv [OF l(3)] by (simp add: ctx_inv_def clear)
  then have "ctx_ok c0 ?d" using exchange_end [OF l(3,4)] by (simp add: ctx_ok_def clear)
  moreover have "ecx_receive_processdata_group grp timeout c = Some (if v then w else EC_NOFRAME, ?d)"
    using l(1) by (cases "ecx_pullindex c") (simp add: ecx_receive_processdata_group_def Let_def)
  ultimately show ?thesis using clear(1,2) l(2) by simp
qed

section \<open>Sending\<close>

lemma sint_sum: "unat (x :: u32) + unat y < 2 ^ 31 \<Longrightarrow> sint (x + y) = int (unat x + unat y)"
proof -
  assume a: "unat x + unat y < 2 ^ 31"
  then have "unat (x + y) = unat x + unat y" by (simp add: unat_word_ariths)
  with a show ?thesis by (simp only: sint_small)
qed

text \<open>What the frames of a group that is sent with LRW carry, and where they are to be stored.\<close>

definition pd_length :: "ec_group \<Rightarrow> bool \<Rightarrow> nat" where
  "pd_length g overlap = (if overlap then max (unat (g_Obytes g)) (unat (g_Ibytes g)) else unat (g_Obytes g) + unat (g_Ibytes g))"

definition pd_base :: "ec_group \<Rightarrow> nat option" where
  "pd_base g = (if g_Obytes g \<noteq> 0 then g_outputs g else g_inputs g)"

definition pd_offset :: "ec_group \<Rightarrow> bool \<Rightarrow> nat" where
  "pd_offset g overlap = (if overlap then unat (g_Obytes g) else 0)"

definition lrw_ready :: "ecx_context \<Rightarrow> u8 \<Rightarrow> bool \<Rightarrow> ec_group \<Rightarrow> nat \<Rightarrow> bool" where
  "lrw_ready c grp overlap g a \<longleftrightarrow> get_group grp c = Some g \<and> g_blockLRW g = 0 \<and>
     (g_hasdc g \<longrightarrow> unat (g_DCnext g) < length (slavelist c)) \<and>
     0 < unat (g_nsegments g) \<and> unat (g_nsegments g) \<le> length (g_IOsegment g) \<and> unat (g_nsegments g) \<le> stack_places c \<and>
     seg_bytes (lrw_segments g) = pd_length g overlap \<and> pd_length g overlap < 2 ^ 31 \<and>
     pd_base g = Some a \<and> pd_fit c a (lrw_segments g) \<and> pd_fit c (a + pd_offset g overlap) (lrw_segments g)"

lemma pd_length_sint:
  "pd_length g overlap < 2 ^ 31 \<Longrightarrow>
     sint (if overlap then (if g_Obytes g > g_Ibytes g then g_Obytes g else g_Ibytes g) else g_Obytes g + g_Ibytes g) = int (pd_length g overlap)"
  by (cases overlap) (auto simp: pd_length_def max_def word_less_nat_alt sint_small sint_sum simp del: uint_nat)

lemma send_lrw:
  assumes ex: "exchange c0 c" and r: "lrw_ready c grp overlap g a"
  shows "returns (ecx_main_send_processdata grp overlap c) (\<lambda>(w, d). w = 1 \<and> exchange c0 d \<and>
    stored_parts d = stored_parts c @ layout (Some (a + pd_offset g overlap)) (lrw_segments g))"
proof -
  let ?segs = "lrw_segments g"
  have n: "length ?segs = unat (g_nsegments g)" using r by (simp add: lrw_segments_def lrw_ready_def)
  have ne: "?segs \<noteq> []" using n r by (auto simp: lrw_ready_def)
  then have pos: "0 < seg_bytes ?segs" using r by (cases ?segs) (auto simp: lrw_ready_def pd_fit_def)
  let ?off = "if g_Obytes g \<noteq> 0 then (if overlap then g_Obytes g else 0) else (0 :: u32)"
  have off: "unat ?off = pd_offset g overlap" by (simp add: pd_offset_def)
  have c0: "get_group grp c0 = Some g" "slavelist c0 = slavelist c" "length (iomap c0) = length (iomap c)"
    using ex r by (auto simp: exchange_def get_group_def lrw_ready_def)
  have "returns (do_while (pd_lrw_body grp ?off) (int (seg_bytes ?segs), g_logstartaddr g, Some a, of_nat 0, g_hasdc g, c))
    (\<lambda>(_, _, _, _, first', d). exchange c0 d \<and> stored_parts d = stored_parts c @ layout (Some (a + unat ?off)) ?segs \<and>
       stack_places d = stack_places c - length ?segs \<and> \<not> first')"
    using r c0(2,3) n unfolding lrw_ready_def
    by (intro lrw_loop [OF c0(1) ne _ _ _ _ ex]) (auto simp: off pd_fit_def)
  then obtain s1 s2 s3 s4 s5 d where d: "do_while (pd_lrw_body grp ?off) (int (seg_bytes ?segs), g_logstartaddr g, Some a, of_nat 0, g_hasdc g, c) = Some (s1, s2, s3, s4, s5, d)"
      "exchange c0 d" "stored_parts d = stored_parts c @ layout (Some (a + pd_offset g overlap)) ?segs"
    unfolding returns_iff off by fast
  have "sint (if overlap then (if g_Obytes g > g_Ibytes g then g_Obytes g else g_Ibytes g) else g_Obytes g + g_Ibytes g) = int (seg_bytes ?segs)"
    using r pd_length_sint [of g overlap] by (simp add: lrw_ready_def)
  moreover have "(if g_Obytes g \<noteq> 0 then g_outputs g else g_inputs g) = Some a" using r by (simp add: lrw_ready_def pd_base_def)
  ultimately have "ecx_main_send_processdata grp overlap c = Some (1, d)"
    using d(1) r pos by (simp add: ecx_main_send_processdata_def Let_def lrw_ready_def cong: if_cong split del: if_split)
  with d(2,3) show ?thesis by simp
qed

lemma pd_fit_pos: "pd_fit c a segs \<Longrightarrow> segs \<noteq> [] \<Longrightarrow> 0 < seg_bytes segs"
  by (cases segs) (auto simp: pd_fit_def)

lemma send_split:
  assumes ex: "exchange c0 c" and g: "get_group grp c = Some g" "g_blockLRW g \<noteq> 0" "unat (g_nsegments g) \<le> length (g_IOsegment g)"
    and clock: "g_hasdc g \<longrightarrow> unat (g_DCnext g) < length (slavelist c)"
    and out: "g_outputs g = Some a" "lwr_segments g segs" "seg_bytes segs = unat (g_Obytes g)" "pd_fit c a segs"
    and inp: "g_inputs g = Some b" "seg_bytes (lrd_segments g) = unat (g_Ibytes g)" "pd_fit c b (lrd_segments g)"
    and some: "segs \<noteq> []" "lrd_segments g \<noteq> []"
    and bound: "pd_length g False < 2 ^ 31" "length (lrd_segments g) + length segs \<le> stack_places c"
  shows "returns (ecx_send_processdata_group grp c) (\<lambda>(w, d). w = 1 \<and> exchange c0 d \<and>
    stored_parts d = stored_parts c @ layout (Some b) (lrd_segments g) @ layout (Some a) segs)"
proof -
  let ?in = "lrd_segments g"
  have c0: "get_group grp c0 = Some g" "slavelist c0 = slavelist c" "length (iomap c0) = length (iomap c)"
    using ex g(1) by (auto simp: exchange_def get_group_def)
  have fit: "pd_fit c0 a segs" "pd_fit c0 b ?in" using out(4) inp(3) c0(3) by (simp_all add: pd_fit_def)
  have clock0: "g_hasdc g \<longrightarrow> unat (g_DCnext g) < length (slavelist c0)" using clock c0(2) by simp
  have pos: "0 < seg_bytes segs" "0 < seg_bytes ?in"
    using some fit by (simp_all add: pd_fit_pos)
  have len: "sint (g_Obytes g) = int (seg_bytes segs)" "sint (g_Ibytes g) = int (seg_bytes ?in)"
      "sint (g_Obytes g + g_Ibytes g) = int (seg_bytes segs + seg_bytes ?in)"
    using bound(1) sint_small [of "g_Obytes g"] sint_small [of "g_Ibytes g"] sint_sum [of "g_Obytes g" "g_Ibytes g"]
    by (simp_all only: out(3) inp(2) pd_length_def if_False)
  obtain s1 s2 s3 s4 f d where d: "do_while (pd_lrd_body grp) (int (seg_bytes ?in), g_logstartaddr g + g_Obytes g, Some b, g_Isegment g, g_hasdc g, c)
        = Some (s1, s2, s3, s4, f, d)" "exchange c0 d" "stored_parts d = stored_parts c @ layout (Some b) ?in"
      "stack_places d = stack_places c - length ?in" "\<not> f"
    using lrd_loop [OF c0(1) some(2) g(3) fit(2) clock0 ex, of "g_logstartaddr g + g_Obytes g"] bound(2)
    unfolding returns_iff by fastforce
  have "length segs \<le> stack_places d" using bound(2) d(4) by linarith
  moreover have "f \<longrightarrow> unat (g_DCnext g) < length (slavelist c0)" using d(5) by simp
  ultimately obtain t1 t2 t3 t4 f' e where e: "do_while (pd_lwr_body grp) (int (seg_bytes segs), g_logstartaddr g, Some a, of_nat 0, f, d)
        = Some (t1, t2, t3, t4, f', e)" "exchange c0 e" "stored_parts e = stored_parts d @ layout (Some a) segs"
    using lwr_loop [OF c0(1) some(1) g(3) out(2) fit(1) _ d(2), of f "g_logstartaddr g"] unfolding returns_iff by fastforce
  have "g_Obytes g \<noteq> 0" "g_Ibytes g \<noteq> 0" using pos out(3) inp(2) by auto
  then have "ecx_send_processdata_group grp c = Some (1, e)"
    using d(1) e(1) g(1,2) out(1) inp(1) len pos
    by (simp add: ecx_send_processdata_group_def ecx_main_send_processdata_def Let_def)
  with d(3) e(2,3) show ?thesis by simp
qed

section \<open>Properties\<close>


definition demo_group :: ec_group where
  "demo_group = no_group\<lparr>g_Obytes := 2, g_outputs := Some 0, g_Ibytes := 4, g_inputs := Some 2, g_nsegments := 2,
     g_IOsegment := [4, 2]\<rparr>"

definition demo_pd_context :: ecx_context where
  "demo_pd_context = (demo_context (demo_port []) [no_slave])\<lparr>grouplist := [demo_group], iomap := replicate 6 7\<rparr>"

lemma demo_pd_inv: "ctx_inv demo_pd_context" "frames demo_pd_context = []" "stack_places demo_pd_context = 16"
  using ctx_inv_demo [OF port_inv_demo_nil, of "[no_slave]"]
  by (simp_all add: demo_pd_context_def ctx_inv_def frames_def demo_context_def stack_places_def)

lemma demo_lrw_ready: "lrw_ready demo_pd_context 0 False demo_group 0"
proof -
  have "lrw_segments demo_group = [4, 2]" by (simp add: lrw_segments_def demo_group_def)
  then show ?thesis
    by (simp add: lrw_ready_def demo_pd_inv pd_fit_def pd_length_def pd_base_def pd_offset_def)
      (simp add: demo_pd_context_def get_group_def demo_group_def no_group_def demo_context_def)
qed


text \<open>
  Where LRW is not allowed, the inputs are read and the outputs written in separate frames:
  the entries pushed are the consecutive parts of the inputs, then those of the outputs, with
  the last part of the outputs cut to what is left of them.
\<close>

theorem send_split_covers_image:
  assumes "ctx_inv c" "frames c = []" "get_group grp c = Some g" "g_blockLRW g \<noteq> 0" "unat (g_nsegments g) \<le> length (g_IOsegment g)"
    and "g_hasdc g \<longrightarrow> unat (g_DCnext g) < length (slavelist c)"
    and "g_outputs g = Some a" "lwr_segments g segs" "seg_bytes segs = unat (g_Obytes g)" "pd_fit c a segs"
    and "g_inputs g = Some b" "seg_bytes (lrd_segments g) = unat (g_Ibytes g)" "pd_fit c b (lrd_segments g)"
    and "segs \<noteq> []" "lrd_segments g \<noteq> []" "pd_length g False < 2 ^ 31" "length (lrd_segments g) + length segs \<le> stack_places c"
  shows "returns (ecx_send_processdata_group grp c) (\<lambda>(w, d). w = 1 \<and> exchange c d \<and>
    stored_parts d = layout (Some b) (lrd_segments g) @ layout (Some a) segs)"
  using send_split [OF exchange_refl [OF assms(1,2)] assms(3-17)] assms(2) by (simp add: stored_parts_def)

definition split_group :: ec_group where
  "split_group = demo_group\<lparr>g_blockLRW := 1, g_Isegment := 0, g_Ioffset := 2\<rparr>"

lemma split_group_fields:
  "g_Obytes split_group = 2" "g_outputs split_group = Some 0" "g_Ibytes split_group = 4" "g_inputs split_group = Some 2"
  "g_nsegments split_group = 2" "g_IOsegment split_group = [4, 2]" "g_Isegment split_group = 0" "g_Ioffset split_group = 2"
  "g_blockLRW split_group = 1" "\<not> g_hasdc split_group"
  by (simp_all add: split_group_def demo_group_def no_group_def)

theorem send_split_covers_image_witness:
  "\<exists>d. ecx_send_processdata_group 0 (demo_pd_context\<lparr>grouplist := [split_group]\<rparr>) = Some (1, d) \<and>
     stored_parts d = [(Some 2, 2), (Some 4, 2), (Some 0, 2)]"
proof -
  let ?c = "demo_pd_context\<lparr>grouplist := [split_group]\<rparr>"
  have c: "ctx_inv ?c" "frames ?c = []" "stack_places ?c = 16" "iomap ?c = replicate 6 7"
    using demo_pd_inv by (simp_all add: ctx_inv_def frames_def stack_places_def demo_pd_context_def)
  have segs: "lrd_segments split_group = [2, 2]"
    by (simp add: lrd_segments_def split_group_fields upt_conv_Cons)
  have "lwr_segments split_group [2]" by (simp add: lwr_segments_def split_group_fields)
  moreover have "get_group 0 ?c = Some split_group" by (simp add: get_group_def)
  ultimately show ?thesis
    using send_split_covers_image [where c = ?c and grp = 0 and g = split_group and a = 0 and b = 2 and segs = "[2]"] segs c
    by (auto simp: split_group_fields pd_fit_def pd_length_def returns_iff)
qed



text \<open>
  The stack hands the entries out in the order in which they were pushed, but it has room
  for 16 only: what is pushed on a full stack is dropped without notice, so that the frames
  behind the sixteenth of a group are sent and never received.
\<close>

theorem frames_beyond_16_dropped:
  assumes "idxstack_inv (idxstack c)"
  shows "frames (fold push_entry es (ecx_clearindex c)) = take EC_MAXBUF es"
proof -
  have "idxstack_inv (idxstack (ecx_clearindex c))" using assms by (simp add: ecx_clearindex_def idxstack_inv_def)
  from pdq.put_all [OF this, of es] show ?thesis by (simp add: ecx_clearindex_def frames_def stack_places_def)
qed

theorem frames_beyond_16_dropped_witness:
  "frames (fold push_entry (map (\<lambda>i. (of_nat i, None, 0, 0)) [0..<17]) (ecx_clearindex demo_pd_context)) =
     map (\<lambda>i. (of_nat i, None, 0, 0)) [0..<16]"
  using frames_beyond_16_dropped [of demo_pd_context "map (\<lambda>i. (of_nat i, None, 0, 0)) [0..<17]"] demo_pd_inv(1)
  by (simp add: ctx_inv_def take_map)

end
