(* ===== verification/Dc.thy ===== *)
theory Dc
  imports ProcessData "HOL-Library.Signed_Division"
begin

text \<open>
  Distributed clocks, \<^verbatim>\<open>soem/ethercatdc.c\<close>: the cyclic sync pulses of a slave, and finding the
  slaves with a clock, their order, their parents and their propagation delays. The signed
  32-bit fields of a slave are words that are read with \<open>sint\<close>; signed arithmetic wraps around.
\<close>

section \<open>Sync pulses\<close>

abbreviation ECT_REG_DCTIME0 :: u16 where "ECT_REG_DCTIME0 \<equiv> 0x0900"
abbreviation ECT_REG_DCTIME1 :: u16 where "ECT_REG_DCTIME1 \<equiv> 0x0904"
abbreviation ECT_REG_DCTIME2 :: u16 where "ECT_REG_DCTIME2 \<equiv> 0x0908"
abbreviation ECT_REG_DCTIME3 :: u16 where "ECT_REG_DCTIME3 \<equiv> 0x090c"
abbreviation ECT_REG_DCSOF :: u16 where "ECT_REG_DCSOF \<equiv> 0x0918"
abbreviation ECT_REG_DCSYSOFFSET :: u16 where "ECT_REG_DCSYSOFFSET \<equiv> 0x0920"
abbreviation ECT_REG_DCSYSDELAY :: u16 where "ECT_REG_DCSYSDELAY \<equiv> 0x0928"
abbreviation ECT_REG_DCCUC :: u16 where "ECT_REG_DCCUC \<equiv> 0x0980"
abbreviation ECT_REG_DCSYNCACT :: u16 where "ECT_REG_DCSYNCACT \<equiv> 0x0981"
abbreviation ECT_REG_DCSTART0 :: u16 where "ECT_REG_DCSTART0 \<equiv> 0x0990"
abbreviation ECT_REG_DCCYCLE0 :: u16 where "ECT_REG_DCCYCLE0 \<equiv> 0x09a0"
abbreviation ECT_REG_DCCYCLE1 :: u16 where "ECT_REG_DCCYCLE1 \<equiv> 0x09a4"
abbreviation SyncDelay :: int where "SyncDelay \<equiv> 100000000"

text \<open>The first trigger; a division by zero is a fault.\<close>

definition dc_start :: "u64 \<Rightarrow> u32 \<Rightarrow> u32 \<Rightarrow> u32 \<Rightarrow> u64 option" where
  "dc_start t1 CyclTime period CyclShift =
     (if CyclTime > 0 then do {
        chk (period \<noteq> 0);
        Some (word_of_int (((sint t1 + SyncDelay) sdiv int (unat period)) * int (unat period) + int (unat period) + sint CyclShift))
      } else Some (word_of_int (sint t1 + SyncDelay + sint CyclShift)))"

definition dc_write :: "u16 \<Rightarrow> u16 \<Rightarrow> u8 list \<Rightarrow> ecx_context \<Rightarrow> ecx_context option" where
  "dc_write slaveh reg bs c = do {
     (_, c) \<leftarrow> on_port (ecx_FPWR slaveh reg (of_nat (length bs)) bs EC_TIMEOUTRET) c;
     Some c
   }"

definition dc_read :: "u16 \<Rightarrow> u16 \<Rightarrow> u8 list \<Rightarrow> ecx_context \<Rightarrow> (u8 list \<times> ecx_context) option" where
  "dc_read slaveh reg bs c = do {
     (_, bs, c) \<leftarrow> on_port_buf (ecx_FPRD slaveh reg (of_nat (length bs)) bs EC_TIMEOUTRET) c;
     Some (bs, c)
   }"

definition set_dc :: "bool \<Rightarrow> u32 \<Rightarrow> u32 \<Rightarrow> ec_slave \<Rightarrow> ec_slave" where
  "set_dc act CyclShift CyclTime s = s\<lparr>s_DCactive := (if act then 1 else 0), s_DCshift := CyclShift, s_DCcycle := CyclTime\<rparr>"

definition ecx_dcsync0 :: "u16 \<Rightarrow> bool \<Rightarrow> u32 \<Rightarrow> u32 \<Rightarrow> ecx_context \<Rightarrow> ecx_context option" where
  "ecx_dcsync0 slave act CyclTime CyclShift c = do {
     s \<leftarrow> get_slave slave c;
     let slaveh = s_configadr s;
     c \<leftarrow> dc_write slaveh ECT_REG_DCSYNCACT [0] c;
     let RA = (if act then 1 + 2 else 0);
     c \<leftarrow> dc_write slaveh ECT_REG_DCCUC [0] c;
     (t1, c) \<leftarrow> dc_read slaveh ECT_REG_DCSYSTIME (enc64 0) c;
     t \<leftarrow> dc_start (dec64 t1) CyclTime CyclTime CyclShift;
     c \<leftarrow> dc_write slaveh ECT_REG_DCSTART0 (enc64 t) c;
     c \<leftarrow> dc_write slaveh ECT_REG_DCCYCLE0 (enc32 CyclTime) c;
     c \<leftarrow> dc_write slaveh ECT_REG_DCSYNCACT [RA] c;
     upd_slave slave (set_dc act CyclShift CyclTime) c
   }"

definition ecx_dcsync01 :: "u16 \<Rightarrow> bool \<Rightarrow> u32 \<Rightarrow> u32 \<Rightarrow> u32 \<Rightarrow> ecx_context \<Rightarrow> ecx_context option" where
  "ecx_dcsync01 slave act CyclTime0 CyclTime1 CyclShift c = do {
     chk (CyclTime0 \<noteq> 0);
     let TrueCyclTime = (CyclTime1 div CyclTime0 + 1) * CyclTime0;
     s \<leftarrow> get_slave slave c;
     let slaveh = s_configadr s;
     c \<leftarrow> dc_write slaveh ECT_REG_DCSYNCACT [0] c;
     let RA = (if act then 1 + 2 + 4 else 0);
     c \<leftarrow> dc_write slaveh ECT_REG_DCCUC [0] c;
     (t1, c) \<leftarrow> dc_read slaveh ECT_REG_DCSYSTIME (enc64 0) c;
     t \<leftarrow> dc_start (dec64 t1) CyclTime0 TrueCyclTime CyclShift;
     c \<leftarrow> dc_write slaveh ECT_REG_DCSTART0 (enc64 t) c;
     c \<leftarrow> dc_write slaveh ECT_REG_DCCYCLE0 (enc32 CyclTime0) c;
     c \<leftarrow> dc_write slaveh ECT_REG_DCCYCLE1 (enc32 CyclTime1) c;
     c \<leftarrow> dc_write slaveh ECT_REG_DCSYNCACT [RA] c;
     upd_slave slave (set_dc act CyclShift CyclTime0) c
   }"

section \<open>Ports\<close>

definition PORTM :: "u8 \<Rightarrow> u8 \<Rightarrow> bool" where
  "PORTM b n \<longleftrightarrow> b AND push_bit (unat n) 1 \<noteq> 0"

definition ecx_porttime :: "ec_slave \<Rightarrow> u8 \<Rightarrow> u32" where
  "ecx_porttime s p =
     (if p = 0 then s_DCrtA s else if p = 1 then s_DCrtB s else if p = 2 then s_DCrtC s else if p = 3 then s_DCrtD s else 0)"

definition ecx_prevport :: "ec_slave \<Rightarrow> u8 \<Rightarrow> u8" where
  "ecx_prevport s p =
     (let aport = s_activeports s
      in if p = 0 then (if PORTM aport 2 then 2 else if PORTM aport 1 then 1 else if PORTM aport 3 then 3 else p)
         else if p = 1 then (if PORTM aport 3 then 3 else if PORTM aport 0 then 0 else if PORTM aport 2 then 2 else p)
         else if p = 2 then (if PORTM aport 1 then 1 else if PORTM aport 3 then 3 else if PORTM aport 0 then 0 else p)
         else if p = 3 then (if PORTM aport 0 then 0 else if PORTM aport 2 then 2 else if PORTM aport 1 then 1 else p)
         else p)"

definition clear_port :: "u8 \<Rightarrow> u8 \<Rightarrow> u8" where
  "clear_port b n = b AND NOT (push_bit (unat n) 1)"

definition ecx_parentport :: "u16 \<Rightarrow> ecx_context \<Rightarrow> (u8 \<times> ecx_context) option" where
  "ecx_parentport parent c = do {
     s \<leftarrow> get_slave parent c;
     let b = s_consumedports s;
     let (parentport, b) = (if PORTM b 3 then (3, clear_port b 3) else if PORTM b 1 then (1, clear_port b 1)
        else if PORTM b 2 then (2, clear_port b 2) else if PORTM b 0 then (0, clear_port b 0) else (0, b));
     c \<leftarrow> upd_slave parent (\<lambda>s. s\<lparr>s_consumedports := b\<rparr>) c;
     Some (parentport, c)
   }"

text \<open>The active ports with their time stamps, and the one with the lowest stamp.\<close>

definition dc_ports :: "ec_slave \<Rightarrow> (u8 \<times> u32) list" where
  "dc_ports s = (let a = s_activeports s in
     (if PORTM a 0 then [(0, s_DCrtA s)] else []) @ (if PORTM a 3 then [(3, s_DCrtD s)] else []) @
     (if PORTM a 1 then [(1, s_DCrtB s)] else []) @ (if PORTM a 2 then [(2, s_DCrtC s)] else []))"

definition dc_entry :: "(u8 \<times> u32) list \<Rightarrow> u8 option" where
  "dc_entry l = do {
     let n = length l;
     let t = (\<lambda>i. sint (snd (l ! i)));
     let e = 0;
     let e = (if n > 1 \<and> t 1 < t e then 1 else e);
     let e = (if n > 2 \<and> t 2 < t e then 2 else e);
     let e = (if n > 3 \<and> t 3 < t e then 3 else e);
     (p, _) \<leftarrow> arr_get l e;
     Some p
   }"

section \<open>Finding the clocks\<close>

text \<open>Reading the latched times; \<^verbatim>\<open>ht\<close> and \<^verbatim>\<open>hrt\<close> keep what they held when a read fails.\<close>

definition dc_times :: "u64 \<Rightarrow> nat \<Rightarrow> u32 \<times> u64 \<times> ecx_context \<Rightarrow> (u32 \<times> u64 \<times> ecx_context) option" where
  "dc_times mastertime64 i = (\<lambda>(ht, hrt, c). do {
     s \<leftarrow> arr_get (slavelist c) i;
     let slaveh = s_configadr s;
     (b, c) \<leftarrow> dc_read slaveh ECT_REG_DCTIME0 (enc32 ht) c;
     let ht = dec32 b;
     c \<leftarrow> upd_slave (of_nat i) (\<lambda>s. s\<lparr>s_DCrtA := ht\<rparr>) c;
     (b, c) \<leftarrow> dc_read slaveh ECT_REG_DCSOF (enc64 hrt) c;
     let hrt = mastertime64 - dec64 b;
     c \<leftarrow> dc_write slaveh ECT_REG_DCSYSOFFSET (enc64 hrt) c;
     (b, c) \<leftarrow> dc_read slaveh ECT_REG_DCTIME1 (enc32 ht) c;
     let ht = dec32 b;
     c \<leftarrow> upd_slave (of_nat i) (\<lambda>s. s\<lparr>s_DCrtB := ht\<rparr>) c;
     (b, c) \<leftarrow> dc_read slaveh ECT_REG_DCTIME2 (enc32 ht) c;
     let ht = dec32 b;
     c \<leftarrow> upd_slave (of_nat i) (\<lambda>s. s\<lparr>s_DCrtC := ht\<rparr>) c;
     (b, c) \<leftarrow> dc_read slaveh ECT_REG_DCTIME3 (enc32 ht) c;
     let ht = dec32 b;
     c \<leftarrow> upd_slave (of_nat i) (\<lambda>s. s\<lparr>s_DCrtD := ht\<rparr>) c;
     Some (ht, hrt, c)
   })"

text \<open>One step up the tree of slaves; the walk ends at the master or at a slave with a clock.\<close>

definition dc_parent_body :: "ecx_context \<Rightarrow> u16 \<times> u16 \<Rightarrow> ((u16 \<times> u16) \<times> bool) option" where
  "dc_parent_body c = (\<lambda>(_, parent). do {
     let child = parent;
     s \<leftarrow> get_slave parent c;
     let parent = s_parent s;
     t \<leftarrow> get_slave parent c;
     Some ((child, parent), \<not> (parent = 0 \<or> s_hasdc t))
   })"

text \<open>The delay of slave \<open>s\<close> behind its parent \<open>t\<close>; \<open>far\<close> says that it is not the next slave.\<close>

definition dc_delay :: "ec_slave \<Rightarrow> ec_slave \<Rightarrow> bool \<Rightarrow> u32" where
  "dc_delay s t far =
     (let pp = s_parentport s;
          dt3 = ecx_porttime t pp - ecx_porttime t (ecx_prevport t pp);
          dt1 = (if s_topology s > 1 then ecx_porttime s (ecx_prevport s (s_entryport s)) - ecx_porttime s (s_entryport s) else 0);
          dt1 = (if sint dt1 > sint dt3 then - dt1 else dt1);
          dt2 = (if far then ecx_porttime t (ecx_prevport t pp) - ecx_porttime t (s_entryport t) else 0);
          dt2 = (if sint dt2 < 0 then - dt2 else dt2)
      in word_of_int (sint (dt3 - dt1) sdiv 2) + dt2 + s_pdelay t)"

definition dc_propagation :: "nat \<Rightarrow> u32 \<Rightarrow> ecx_context \<Rightarrow> (u32 \<times> ecx_context) option" where
  "dc_propagation i ht c = do {
     (child, parent) \<leftarrow> do_while (dc_parent_body c) (0, of_nat i);
     if parent > 0 then do {
       (pp, c) \<leftarrow> ecx_parentport parent c;
       c \<leftarrow> upd_slave (of_nat i) (\<lambda>s. s\<lparr>s_parentport := pp\<rparr>) c;
       t \<leftarrow> get_slave parent c;
       c \<leftarrow> (if s_topology t = 1 then upd_slave (of_nat i) (\<lambda>s. s\<lparr>s_parentport := s_entryport t\<rparr>) c else Some c);
       s \<leftarrow> get_slave (of_nat i) c;
       t \<leftarrow> get_slave parent c;
       let delay = dc_delay s t (int (unat child) - int (unat parent) > 1);
       c \<leftarrow> upd_slave (of_nat i) (\<lambda>s. s\<lparr>s_pdelay := delay\<rparr>) c;
       c \<leftarrow> dc_write (s_configadr s) ECT_REG_DCSYSDELAY (enc32 delay) c;
       Some (delay, c)
     } else Some (ht, c)
   }"

text \<open>The link of slave \<open>i\<close> into the list of slaves with a clock.\<close>

definition upd_group :: "u8 \<Rightarrow> (ec_group \<Rightarrow> ec_group) \<Rightarrow> ecx_context \<Rightarrow> ecx_context option" where
  "upd_group grp f c = do {
     g \<leftarrow> get_group grp c;
     Some (c\<lparr>grouplist := (grouplist c)[unat grp := f g]\<rparr>)
   }"

definition dc_link :: "nat \<Rightarrow> u16 \<Rightarrow> ecx_context \<Rightarrow> ecx_context option" where
  "dc_link i prevDCslave c = do {
     m \<leftarrow> get_slave 0 c;
     s \<leftarrow> get_slave (of_nat i) c;
     if \<not> s_hasdc m then do {
       c \<leftarrow> upd_slave 0 (\<lambda>m. m\<lparr>s_hasdc := True, s_DCnext := of_nat i\<rparr>) c;
       c \<leftarrow> upd_slave (of_nat i) (\<lambda>s. s\<lparr>s_DCprevious := 0\<rparr>) c;
       upd_group (s_group s) (\<lambda>g. g\<lparr>g_hasdc := True, g_DCnext := of_nat i\<rparr>) c
     } else do {
       c \<leftarrow> upd_slave prevDCslave (\<lambda>s. s\<lparr>s_DCnext := of_nat i\<rparr>) c;
       upd_slave (of_nat i) (\<lambda>s. s\<lparr>s_DCprevious := prevDCslave\<rparr>) c
     }
   }"

definition dc_with_clock :: "u64 \<Rightarrow> nat \<Rightarrow> u16 \<Rightarrow> u32 \<Rightarrow> u64 \<Rightarrow> ecx_context \<Rightarrow> (u32 \<times> u64 \<times> ecx_context) option" where
  "dc_with_clock mastertime64 i prevDCslave ht hrt c = do {
     c \<leftarrow> dc_link i prevDCslave c;
     (ht, hrt, c) \<leftarrow> dc_times mastertime64 i (ht, hrt, c);
     s \<leftarrow> get_slave (of_nat i) c;
     entryport \<leftarrow> dc_entry (dc_ports s);
     c \<leftarrow> upd_slave (of_nat i) (\<lambda>s. s\<lparr>s_entryport := entryport, s_consumedports := clear_port (s_consumedports s) entryport\<rparr>) c;
     (ht, c) \<leftarrow> dc_propagation i ht c;
     Some (ht, hrt, c)
   }"

definition dc_without_clock :: "nat \<Rightarrow> u16 \<Rightarrow> ecx_context \<Rightarrow> (u16 \<times> ecx_context) option" where
  "dc_without_clock i parenthold c = do {
     c \<leftarrow> upd_slave (of_nat i) (\<lambda>s. s\<lparr>s_DCrtA := 0, s_DCrtB := 0, s_DCrtC := 0, s_DCrtD := 0\<rparr>) c;
     s \<leftarrow> get_slave (of_nat i) c;
     let parent = s_parent s;
     t \<leftarrow> (if parent > 0 then get_slave parent c else Some s);
     let parenthold = (if parent > 0 \<and> s_topology t > 2 then parent else parenthold);
     if parenthold \<noteq> 0 \<and> s_topology s = 1 then do {
       (_, c) \<leftarrow> ecx_parentport parenthold c;
       Some (0, c)
     } else Some (parenthold, c)
   }"

type_synonym dc_state = "u16 \<times> u16 \<times> u32 \<times> u64 \<times> ecx_context"

definition dc_slave :: "u64 \<Rightarrow> nat \<Rightarrow> dc_state \<Rightarrow> dc_state option" where
  "dc_slave mastertime64 i = (\<lambda>(parenthold, prevDCslave, ht, hrt, c). do {
     c \<leftarrow> upd_slave (of_nat i) (\<lambda>s. s\<lparr>s_consumedports := s_activeports s\<rparr>) c;
     s \<leftarrow> get_slave (of_nat i) c;
     if s_hasdc s then do {
       (ht, hrt, c) \<leftarrow> dc_with_clock mastertime64 i prevDCslave ht hrt c;
       Some (0, of_nat i, ht, hrt, c)
     } else do {
       (parenthold, c) \<leftarrow> dc_without_clock i parenthold c;
       Some (parenthold, prevDCslave, ht, hrt, c)
     }
   })"

text \<open>\<open>hrt\<close> is what the variable of that name holds before it is assigned.\<close>

definition ecx_configdc :: "u64 \<Rightarrow> ecx_context \<Rightarrow> (bool \<times> ecx_context) option" where
  "ecx_configdc hrt c = do {
     c \<leftarrow> upd_slave 0 (\<lambda>s. s\<lparr>s_hasdc := False\<rparr>) c;
     c \<leftarrow> upd_group 0 (\<lambda>g. g\<lparr>g_hasdc := False\<rparr>) c;
     (_, c) \<leftarrow> on_port (ecx_BWR 0 ECT_REG_DCTIME0 4 (enc32 0) EC_TIMEOUTRET) c;
     let (mastertime, c) = ctx_current_time c;
     let sec = t_sec mastertime - 946684800;
     let mastertime64 = (ucast sec * 1000000 + ucast (t_usec mastertime)) * 1000;
     chk (slavecount c < 0xffff);
     (_, _, _, _, c) \<leftarrow> for_loop (nat (slavecount c)) 1 (dc_slave mastertime64) (0, 0, 0, hrt, c);
     m \<leftarrow> get_slave 0 c;
     Some (s_hasdc m, c)
   }"

section \<open>What the operations keep\<close>

text \<open>The place of a slave in the tree and in the list of clocks; only \<open>dc_link\<close> changes the links.\<close>

definition skel :: "ec_slave \<Rightarrow> u16 \<times> bool \<times> u8 \<times> u8 \<times> u16 \<times> u16" where
  "skel s = (s_parent s, s_hasdc s, s_activeports s, s_group s, s_DCnext s, s_DCprevious s)"

definition keeps :: "ecx_context \<Rightarrow> ecx_context \<Rightarrow> bool" where
  "keeps c d \<longleftrightarrow> ctx_ok c d \<and> (\<forall>k. skel (slavelist d ! k) = skel (slavelist c ! k))"

lemma keeps_refl: "ctx_inv c \<Longrightarrow> keeps c c"
  by (simp add: keeps_def ctx_ok_refl)

lemma keeps_trans: "keeps a b \<Longrightarrow> keeps b c \<Longrightarrow> keeps a c"
  by (auto simp: keeps_def intro: ctx_ok_trans)

lemma keeps_talks: "keeps c d \<Longrightarrow> talks d e \<Longrightarrow> keeps c e"
  by (auto simp: keeps_def talks_slavelist intro: ctx_ok_trans dest: talks_ok)

lemma keeps_inv: "keeps c d \<Longrightarrow> ctx_inv d"
  by (auto simp: keeps_def dest: ctx_ok_inv)

lemma keeps_length: "keeps c d \<Longrightarrow> length (slavelist d) = length (slavelist c)"
  by (simp add: keeps_def ctx_ok_def)

lemma keeps_upd:
  assumes "keeps c d" "unat k < length (slavelist c)" "\<And>s. skel (f s) = skel s"
  shows "returns (upd_slave k f d) (keeps c)"
proof -
  have "ctx_ok c d" using assms(1) by (simp add: keeps_def)
  from upd_slave_ok [OF this assms(2), of f] show ?thesis
  proof (rule returns_mono)
    fix e assume e: "ctx_ok c e \<and> e = d\<lparr>slavelist := (slavelist d)[unat k := f (slavelist d ! unat k)]\<rparr>"
    have "skel (slavelist e ! j) = skel (slavelist d ! j)" for j
      using e assms(3) by (cases "j = unat k"; cases "j < length (slavelist d)") (auto simp: list_update_beyond)
    with assms(1) conjunct1 [OF e] show "keeps c e" unfolding keeps_def by auto
  qed
qed

lemma keeps_get: "keeps c d \<Longrightarrow> unat k < length (slavelist c) \<Longrightarrow> get_slave k d = Some (slavelist d ! unat k)"
  by (simp add: get_slave_def keeps_length)

lemma dc_write_keeps:
  assumes "keeps c d" "length bs \<le> 8"
  shows "returns (dc_write a reg bs d) (keeps c)"
proof -
  have n: "unat (of_nat (length bs) :: u16) = length bs" using assms(2) by (intro unat_of_nat_u16) simp
  have "returns (on_port (ecx_FPWR a reg (of_nat (length bs)) bs EC_TIMEOUTRET) d) (\<lambda>(w, e). talks d e)"
    by (rule ctx_writes(1) [OF talks_refl [OF keeps_inv [OF assms(1)]]]) (use n assms(2) in simp_all)
  then show ?thesis using keeps_talks [OF assms(1)] by (auto simp: dc_write_def elim!: returns_mono)
qed

lemma dc_read_keeps:
  assumes "keeps c d" "length bs \<le> 8"
  shows "returns (dc_read a reg bs d) (\<lambda>(b, e). keeps c e)"
proof -
  have n: "unat (of_nat (length bs) :: u16) = length bs" using assms(2) by (intro unat_of_nat_u16) simp
  have "returns (on_port_buf (ecx_FPRD a reg (of_nat (length bs)) bs EC_TIMEOUTRET) d) (\<lambda>(w, b, e). talks d e \<and> length b = length bs)"
    by (rule ctx_reads(1) [OF keeps_inv [OF assms(1)]]) (use n assms(2) in simp_all)
  then show ?thesis using keeps_talks [OF assms(1)] by (auto simp: dc_read_def elim!: returns_mono)
qed

lemmas keeps_steps = returns_bindI [OF dc_read_keeps] returns_bindI [OF dc_write_keeps] returns_bindI [OF keeps_upd]

lemma skel_updates [simp]:
  "skel (s\<lparr>s_DCrtA := a\<rparr>) = skel s" "skel (s\<lparr>s_DCrtB := a\<rparr>) = skel s" "skel (s\<lparr>s_DCrtC := a\<rparr>) = skel s" "skel (s\<lparr>s_DCrtD := a\<rparr>) = skel s"
  "skel (s\<lparr>s_entryport := p\<rparr>) = skel s" "skel (s\<lparr>s_consumedports := p\<rparr>) = skel s" "skel (s\<lparr>s_parentport := p\<rparr>) = skel s"
  "skel (s\<lparr>s_pdelay := a\<rparr>) = skel s" "skel (s\<lparr>s_DCactive := p\<rparr>) = skel s" "skel (s\<lparr>s_DCshift := a\<rparr>) = skel s" "skel (s\<lparr>s_DCcycle := a\<rparr>) = skel s"
  by (simp_all add: skel_def)

lemma dc_times_keeps:
  assumes "keeps c0 c" "unat (of_nat i :: u16) = i" "i < length (slavelist c0)"
  shows "returns (dc_times mt i (ht, hrt, c)) (\<lambda>(_, _, d). keeps c0 d)"
  using assms keeps_length [OF assms(1)]
  unfolding dc_times_def prod.case Let_def
  by (auto simp: arr_get_def intro!: keeps_steps simp del: returns_bind)

lemma parentport_keeps:
  assumes "keeps c d" "unat k < length (slavelist c)"
  shows "returns (ecx_parentport k d) (\<lambda>(_, e). keeps c e)"
  using assms
  by (auto simp: ecx_parentport_def keeps_get Let_def case_prod_unfold simp del: returns_bind intro!: keeps_steps)

section \<open>The entry port\<close>

lemma dc_entry_lowest:
  assumes "l \<noteq> []" "length l \<le> 4"
  obtains i where "i < length l" "dc_entry l = Some (fst (l ! i))" "\<And>j. j < length l \<Longrightarrow> sint (snd (l ! i)) \<le> sint (snd (l ! j))"
proof -
  let ?t = "\<lambda>i. sint (snd (l ! i))" and ?n = "length l"
  define e1 where "e1 = (if ?n > 1 \<and> ?t 1 < ?t 0 then 1 else (0 :: nat))"
  define e2 where "e2 = (if ?n > 2 \<and> ?t 2 < ?t e1 then 2 else e1)"
  define e3 where "e3 = (if ?n > 3 \<and> ?t 3 < ?t e2 then 3 else e2)"
  have 1: "e1 < ?n" "?t e1 \<le> ?t 0" "?n > 1 \<Longrightarrow> ?t e1 \<le> ?t 1" using assms(1) by (auto simp: e1_def)
  have 2: "e2 < ?n" "?t e2 \<le> ?t e1" "?n > 2 \<Longrightarrow> ?t e2 \<le> ?t 2" using 1 by (auto simp: e2_def)
  have 3: "e3 < ?n" "?t e3 \<le> ?t e2" "?n > 3 \<Longrightarrow> ?t e3 \<le> ?t 3" using 2 by (auto simp: e3_def)
  have "?t e3 \<le> ?t j" if "j < ?n" for j
  proof -
    from that assms(2) consider "j = 0" | "j = 1" | "j = 2" | "j = 3" by linarith
    then show ?thesis using 1 2 3 that by cases force+
  qed
  moreover have "dc_entry l = Some (fst (l ! e3))"
    unfolding dc_entry_def Let_def e1_def [symmetric] e2_def [symmetric] e3_def [symmetric]
    using 3(1) by (simp add: arr_get_def case_prod_unfold)
  ultimately show thesis using that 3(1) by blast
qed

lemma dc_ports_length: "length (dc_ports s) \<le> 4"
  by (simp add: dc_ports_def Let_def)

lemma dc_ports_nonempty: "s_activeports s AND 0xf \<noteq> 0 \<Longrightarrow> dc_ports s \<noteq> []"
proof
  assume a: "s_activeports s AND 0xf \<noteq> 0" and "dc_ports s = []"
  then have z: "s_activeports s AND 1 = 0" "s_activeports s AND 2 = 0" "s_activeports s AND 4 = 0" "s_activeports s AND 8 = 0"
    by (simp_all add: dc_ports_def Let_def PORTM_def split: if_splits)
  have eq: "(0xf :: u8) = 1 OR (2 OR (4 OR 8))" by code_simp
  have "s_activeports s AND 0xf = 0" unfolding eq by (simp only: bit.conj_disj_distrib z or.right_neutral)
  with a show False by (rule notE)
qed

section \<open>The tree of slaves\<close>

text \<open>
  What the configuration establishes before: a slave comes after its parent, and a slave with a
  clock has an active port and a group.
\<close>

definition dc_tree :: "ecx_context \<Rightarrow> bool" where
  "dc_tree c \<longleftrightarrow> 0 \<le> slavecount c \<and> slavecount c < int (length (slavelist c)) \<and> slavecount c < 0xffff \<and> grouplist c \<noteq> [] \<and>
     (\<forall>i. 1 \<le> i \<longrightarrow> int i \<le> slavecount c \<longrightarrow> unat (s_parent (slavelist c ! i)) < i \<and>
       (s_hasdc (slavelist c ! i) \<longrightarrow> s_activeports (slavelist c ! i) AND 0xf \<noteq> 0 \<and> unat (s_group (slavelist c ! i)) < length (grouplist c)))"

lemma skel_eqs: "skel s = skel t \<Longrightarrow> s_parent s = s_parent t \<and> s_hasdc s = s_hasdc t \<and> s_activeports s = s_activeports t \<and>
    s_group s = s_group t \<and> s_DCnext s = s_DCnext t \<and> s_DCprevious s = s_DCprevious t"
  by (simp add: skel_def)

lemma dc_parent_walk:
  assumes tree: "\<And>k. 1 \<le> k \<Longrightarrow> k \<le> i \<Longrightarrow> unat (s_parent (slavelist c ! k)) < k" and i: "1 \<le> unat i0" "unat i0 \<le> i" "i < length (slavelist c)"
  shows "returns (do_while (dc_parent_body c) (ch0, i0)) (\<lambda>(ch, p). unat p < unat ch \<and> unat ch \<le> unat i0 \<and>
    (p = 0 \<or> s_hasdc (slavelist c ! unat p)))"
proof (rule do_while_returns [where P = "\<lambda>(_, p). 1 \<le> unat p \<and> unat p \<le> unat i0" and f = "\<lambda>(_, p). unat p"])
  show "case (ch0, i0) of (_, p) \<Rightarrow> 1 \<le> unat p \<and> unat p \<le> unat i0" using i by simp
  fix s :: "u16 \<times> u16" assume "case s of (_, p) \<Rightarrow> 1 \<le> unat p \<and> unat p \<le> unat i0"
  then obtain ch p where s: "s = (ch, p)" "1 \<le> unat p" "unat p \<le> unat i0" by (cases s) simp
  let ?q = "s_parent (slavelist c ! unat p)"
  have "unat p \<le> i" using s(3) i(2) by simp
  then have q: "unat ?q < unat p" by (rule tree [OF s(2)])
  have len: "unat p < length (slavelist c)" "unat ?q < length (slavelist c)" using q \<open>unat p \<le> i\<close> i(3) by linarith+
  then have "dc_parent_body c s = Some ((p, ?q), \<not> (?q = 0 \<or> s_hasdc (slavelist c ! unat ?q)))"
    by (simp add: dc_parent_body_def s(1) get_slave_def arr_get_def Let_def)
  moreover have "?q \<noteq> 0 \<Longrightarrow> 1 \<le> unat ?q" by (simp add: unat_eq_0 Suc_le_eq unat_gt_0)
  ultimately show "returns (dc_parent_body c s) (\<lambda>(s', again). if again
      then (case s' of (_, p) \<Rightarrow> 1 \<le> unat p \<and> unat p \<le> unat i0) \<and> (case s' of (_, p) \<Rightarrow> unat p) < (case s of (_, p) \<Rightarrow> unat p)
      else case s' of (ch, p) \<Rightarrow> unat p < unat ch \<and> unat ch \<le> unat i0 \<and> (p = 0 \<or> s_hasdc (slavelist c ! unat p)))"
    using q s(1,3) by simp
qed

lemma dc_propagation_keeps:
  assumes k: "keeps c0 c" and tree: "\<And>k. 1 \<le> k \<Longrightarrow> k \<le> i \<Longrightarrow> unat (s_parent (slavelist c0 ! k)) < k"
    and i: "1 \<le> i" "i < length (slavelist c0)" "unat (of_nat i :: u16) = i"
  shows "returns (dc_propagation i ht c) (\<lambda>(_, d). keeps c0 d)"
proof -
  have p: "s_parent (slavelist c ! k) = s_parent (slavelist c0 ! k)" for k using k by (auto simp: keeps_def dest: skel_eqs)
  have "returns (do_while (dc_parent_body c) (0, of_nat i)) (\<lambda>(ch, p). unat p < unat ch \<and> unat ch \<le> unat (of_nat i :: u16) \<and>
      (p = 0 \<or> s_hasdc (slavelist c ! unat p)))"
    by (rule dc_parent_walk [where i = i]) (use tree i p keeps_length [OF k] in simp_all)
  then obtain ch q where w: "do_while (dc_parent_body c) (0, of_nat i) = Some (ch, q)" "unat q < i"
    using i(3) by (auto simp: returns_iff)
  then have q: "unat q < length (slavelist c0)" using i(2) by simp
  have at_i: "get_slave (of_nat i) d = Some (slavelist d ! i)" if "keeps c0 d" for d
    using keeps_get [OF that, of "of_nat i"] i(2,3) by simp
  show ?thesis
  proof (cases "q > 0")
    case True
    have "returns (do {
       (pp, c) \<leftarrow> ecx_parentport q c;
       c \<leftarrow> upd_slave (of_nat i) (\<lambda>s. s\<lparr>s_parentport := pp\<rparr>) c;
       t \<leftarrow> get_slave q c;
       c \<leftarrow> (if s_topology t = 1 then upd_slave (of_nat i) (\<lambda>s. s\<lparr>s_parentport := s_entryport t\<rparr>) c else Some c);
       s \<leftarrow> get_slave (of_nat i) c;
       t \<leftarrow> get_slave q c;
       let delay = dc_delay s t (int (unat ch) - int (unat q) > 1);
       c \<leftarrow> upd_slave (of_nat i) (\<lambda>s. s\<lparr>s_pdelay := delay\<rparr>) c;
       c \<leftarrow> dc_write (s_configadr s) ECT_REG_DCSYSDELAY (enc32 delay) c;
       Some (delay, c)
     }) (\<lambda>(_, d). keeps c0 d)"
      using k q i keeps_length [OF k]
      by (auto simp: keeps_get at_i Let_def simp del: returns_bind
          intro!: keeps_steps [where c = c0] returns_bindI [OF parentport_keeps [where c = c0]])
    with w(1) True show ?thesis by (simp add: dc_propagation_def)
  next
    case False
    with w(1) k show ?thesis by (simp add: dc_propagation_def)
  qed
qed

lemma dc_without_clock_keeps:
  assumes k: "keeps c0 c" and i: "i < length (slavelist c0)" "unat (of_nat i :: u16) = i"
    and p: "unat (s_parent (slavelist c0 ! i)) < length (slavelist c0)" "unat ph < length (slavelist c0)"
  shows "returns (dc_without_clock i ph c) (\<lambda>(ph', d). keeps c0 d \<and> unat ph' < length (slavelist c0))"
proof -
  have at_i: "get_slave (of_nat i) d = Some (slavelist d ! i)" if "keeps c0 d" for d
    using keeps_get [OF that, of "of_nat i"] i by simp
  have par: "s_parent (slavelist d ! i) = s_parent (slavelist c0 ! i)" if "keeps c0 d" for d
    using that by (auto simp: keeps_def dest: skel_eqs)
  have 0: "skel (s\<lparr>s_DCrtA := 0, s_DCrtB := 0, s_DCrtC := 0, s_DCrtD := 0\<rparr>) = skel s" for s by simp
  have len: "0 < length (slavelist c0)" using i(1) by linarith
  show ?thesis
    using k i p len 0
    by (auto simp: dc_without_clock_def keeps_get at_i par Let_def case_prod_unfold simp del: returns_bind
        intro!: keeps_steps [where c = c0] returns_bindI [OF parentport_keeps [where c = c0]])
qed

section \<open>The list of clocks\<close>

definition dc_stat :: "ec_slave \<Rightarrow> u16 \<times> bool \<times> u8 \<times> u8" where
  "dc_stat s = (s_parent s, s_hasdc s, s_activeports s, s_group s)"

definition dc_same :: "ecx_context \<Rightarrow> ecx_context \<Rightarrow> bool" where
  "dc_same c0 c \<longleftrightarrow> ctx_ok c0 c \<and> (\<forall>k\<ge>1. dc_stat (slavelist c ! k) = dc_stat (slavelist c0 ! k))"

lemma dc_same_keeps:
  assumes "dc_same a b" "keeps b c"
  shows "dc_same a c"
proof -
  have "dc_stat (slavelist c ! k) = dc_stat (slavelist b ! k)" for k
  proof -
    have "skel (slavelist c ! k) = skel (slavelist b ! k)" using assms(2) by (simp add: keeps_def)
    from skel_eqs [OF this] show ?thesis by (simp add: dc_stat_def)
  qed
  then show ?thesis using assms by (auto simp: dc_same_def keeps_def intro: ctx_ok_trans)
qed

lemma dc_same_length: "dc_same a b \<Longrightarrow> length (slavelist b) = length (slavelist a) \<and> length (grouplist b) = length (grouplist a)"
  by (simp add: dc_same_def ctx_ok_def)

lemma dc_same_upd:
  assumes "dc_same c0 c" "unat k < length (slavelist c0)" "\<And>s. unat k \<noteq> 0 \<Longrightarrow> dc_stat (f s) = dc_stat s"
  shows "returns (upd_slave k f c) (\<lambda>d. dc_same c0 d \<and> d = c\<lparr>slavelist := (slavelist c)[unat k := f (slavelist c ! unat k)]\<rparr>)"
proof -
  have ok: "ctx_ok c0 c" using assms(1) by (simp add: dc_same_def)
  show ?thesis
  proof (rule returns_mono [OF upd_slave_ok [OF ok assms(2), of f]])
    fix d assume d: "ctx_ok c0 d \<and> d = c\<lparr>slavelist := (slavelist c)[unat k := f (slavelist c ! unat k)]\<rparr>"
    have "dc_stat (slavelist d ! j) = dc_stat (slavelist c0 ! j)" if "j \<ge> 1" for j
    proof (cases "j = unat k")
      case True
      then have "slavelist d ! j = f (slavelist c ! j)" using d assms(2) dc_same_length [OF assms(1)] by simp
      then have "dc_stat (slavelist d ! j) = dc_stat (slavelist c ! j)" using assms(3) True that by simp
      then show ?thesis using assms(1) that by (simp add: dc_same_def)
    next
      case False
      then have "slavelist d ! j = slavelist c ! j" using d by simp
      then show ?thesis using assms(1) that by (simp add: dc_same_def)
    qed
    then show "dc_same c0 d \<and> d = c\<lparr>slavelist := (slavelist c)[unat k := f (slavelist c ! unat k)]\<rparr>"
      using d conjunct1 [OF d] by (simp only: dc_same_def) blast
  qed
qed

lemma dc_same_group:
  assumes "dc_same c0 c" "unat k < length (grouplist c0)"
  shows "returns (upd_group k f c) (\<lambda>d. dc_same c0 d \<and> slavelist d = slavelist c)"
  using assms by (simp add: upd_group_def get_group_def dc_same_def ctx_ok_def ctx_inv_def)

lemma dc_link_step:
  assumes c: "dc_same c0 c" and i: "1 \<le> i" "i < length (slavelist c0)" "unat (of_nat i :: u16) = i"
    and prev: "unat prev < i" "s_hasdc (slavelist c ! 0) \<or> prev = 0"
    and grp: "unat (s_group (slavelist c0 ! i)) < length (grouplist c0)"
  shows "returns (dc_link i prev c) (\<lambda>d. dc_same c0 d \<and> s_hasdc (slavelist d ! 0) \<and>
    s_DCnext (slavelist d ! unat prev) = of_nat i \<and> s_DCprevious (slavelist d ! i) = prev \<and>
    (\<forall>k. k \<noteq> unat prev \<longrightarrow> s_DCnext (slavelist d ! k) = s_DCnext (slavelist c ! k)) \<and>
    (\<forall>k. k \<noteq> i \<longrightarrow> s_DCprevious (slavelist d ! k) = s_DCprevious (slavelist c ! k)))"
proof -
  have len: "length (slavelist c) = length (slavelist c0)" using dc_same_length [OF c] by simp
  have n: "0 < length (slavelist c0)" "unat prev < length (slavelist c0)" "unat prev \<noteq> i" using i prev by linarith+
  have g: "get_slave 0 c = Some (slavelist c ! 0)" "get_slave (of_nat i) c = Some (slavelist c ! i)"
    using n i len by (simp_all add: get_slave_def arr_get_def)
  have grp': "unat (s_group (slavelist c ! i)) < length (grouplist c0)" using c i(1) grp by (simp add: dc_same_def dc_stat_def)
  show ?thesis
  proof (cases "s_hasdc (slavelist c ! 0)")
    case False
    with prev have p0: "prev = 0" by simp
    obtain d where d: "upd_slave 0 (\<lambda>m. m\<lparr>s_hasdc := True, s_DCnext := of_nat i\<rparr>) c = Some d" "dc_same c0 d"
        "d = c\<lparr>slavelist := (slavelist c)[0 := (slavelist c ! 0)\<lparr>s_hasdc := True, s_DCnext := of_nat i\<rparr>]\<rparr>"
      using dc_same_upd [OF c, of 0 "\<lambda>m. m\<lparr>s_hasdc := True, s_DCnext := of_nat i\<rparr>"] n(1) by (auto simp: returns_iff)
    obtain e where e: "upd_slave (of_nat i) (\<lambda>s. s\<lparr>s_DCprevious := 0\<rparr>) d = Some e" "dc_same c0 e"
        "e = d\<lparr>slavelist := (slavelist d)[i := (slavelist d ! i)\<lparr>s_DCprevious := 0\<rparr>]\<rparr>"
      using dc_same_upd [OF d(2), of "of_nat i" "\<lambda>s. s\<lparr>s_DCprevious := 0\<rparr>"] i by (auto simp: returns_iff dc_stat_def)
    obtain h where h: "upd_group (s_group (slavelist c ! i)) (\<lambda>g. g\<lparr>g_hasdc := True, g_DCnext := of_nat i\<rparr>) e = Some h"
        "dc_same c0 h" "slavelist h = slavelist e"
      using dc_same_group [OF e(2) grp'] by (auto simp: returns_iff)
    have "dc_link i prev c = Some h" using g d(1) e(1) h(1) False by (simp add: dc_link_def)
    moreover have "slavelist h = (slavelist c)[0 := (slavelist c ! 0)\<lparr>s_hasdc := True, s_DCnext := of_nat i\<rparr>, i := (slavelist c ! i)\<lparr>s_DCprevious := 0\<rparr>]"
      using i(1) by (simp add: h(3) e(3) d(3))
    ultimately show ?thesis using h(2) i n len by (simp add: p0 nth_list_update)
  next
    case True
    obtain d where d: "upd_slave prev (\<lambda>s. s\<lparr>s_DCnext := of_nat i\<rparr>) c = Some d" "dc_same c0 d"
        "d = c\<lparr>slavelist := (slavelist c)[unat prev := (slavelist c ! unat prev)\<lparr>s_DCnext := of_nat i\<rparr>]\<rparr>"
      using dc_same_upd [OF c n(2), of "\<lambda>s. s\<lparr>s_DCnext := of_nat i\<rparr>"] by (auto simp: returns_iff dc_stat_def)
    obtain e where e: "upd_slave (of_nat i) (\<lambda>s. s\<lparr>s_DCprevious := prev\<rparr>) d = Some e" "dc_same c0 e"
        "e = d\<lparr>slavelist := (slavelist d)[i := (slavelist d ! i)\<lparr>s_DCprevious := prev\<rparr>]\<rparr>"
      using dc_same_upd [OF d(2), of "of_nat i" "\<lambda>s. s\<lparr>s_DCprevious := prev\<rparr>"] i by (auto simp: returns_iff dc_stat_def)
    have "dc_link i prev c = Some e" using g d(1) e(1) True by (simp add: dc_link_def)
    moreover have "slavelist e = (slavelist c)[unat prev := (slavelist c ! unat prev)\<lparr>s_DCnext := of_nat i\<rparr>, i := (slavelist c ! i)\<lparr>s_DCprevious := prev\<rparr>]"
      using n(3) by (simp add: e(3) d(3))
    ultimately show ?thesis
      using e(2) i n len True by (simp add: nth_list_update)
  qed
qed

text \<open>The doubly linked list: from slave \<open>p\<close> over the slaves \<open>xs\<close>.\<close>

fun dc_chain :: "ec_slave list \<Rightarrow> nat \<Rightarrow> nat list \<Rightarrow> bool" where
  "dc_chain sl p [] = True"
| "dc_chain sl p (x # xs) = (unat (s_DCnext (sl ! p)) = x \<and> unat (s_DCprevious (sl ! x)) = p \<and> dc_chain sl x xs)"

lemma dc_chain_snoc: "dc_chain sl p (xs @ [y]) \<longleftrightarrow>
    dc_chain sl p xs \<and> unat (s_DCnext (sl ! last (p # xs))) = y \<and> unat (s_DCprevious (sl ! y)) = last (p # xs)"
  by (induction xs arbitrary: p) auto

lemma dc_chain_cong:
  assumes "\<And>k. k \<in> set (butlast (p # xs)) \<Longrightarrow> s_DCnext (sl ! k) = s_DCnext (sl' ! k)" "\<And>k. k \<in> set xs \<Longrightarrow> s_DCprevious (sl ! k) = s_DCprevious (sl' ! k)"
  shows "dc_chain sl p xs = dc_chain sl' p xs"
  using assms by (induction xs arbitrary: p) auto

definition dc_clocks :: "ecx_context \<Rightarrow> nat \<Rightarrow> nat list" where
  "dc_clocks c n = filter (\<lambda>k. s_hasdc (slavelist c ! k)) [1..<n]"

lemma dc_clocks_Suc: "1 \<le> i \<Longrightarrow> dc_clocks c (Suc i) = dc_clocks c i @ (if s_hasdc (slavelist c ! i) then [i] else [])"
  by (simp add: dc_clocks_def)

lemma dc_clocks_set: "k \<in> set (dc_clocks c i) \<longleftrightarrow> 1 \<le> k \<and> k < i \<and> s_hasdc (slavelist c ! k)"
  by (auto simp: dc_clocks_def)

lemma dc_clocks_butlast: "last (0 # dc_clocks c i) \<notin> set (butlast (0 # dc_clocks c i))"
proof -
  have "distinct (0 # dc_clocks c i)" by (auto simp: dc_clocks_def)
  then show ?thesis by (metis append_butlast_last_id distinct_append list.distinct(1) list.set_intros(1) not_distinct_conv_prefix)
qed

definition dc_linked :: "ecx_context \<Rightarrow> nat \<Rightarrow> u16 \<Rightarrow> ecx_context \<Rightarrow> bool" where
  "dc_linked c0 i prev c \<longleftrightarrow> dc_same c0 c \<and> s_hasdc (slavelist c ! 0) = (dc_clocks c0 i \<noteq> []) \<and>
     unat prev = last (0 # dc_clocks c0 i) \<and> dc_chain (slavelist c) 0 (dc_clocks c0 i)"

lemma dc_linked_keeps:
  assumes "dc_linked c0 i prev c" "keeps c d"
  shows "dc_linked c0 i prev d"
proof -
  have s: "s_hasdc (slavelist d ! k) = s_hasdc (slavelist c ! k)" "s_DCnext (slavelist d ! k) = s_DCnext (slavelist c ! k)"
    "s_DCprevious (slavelist d ! k) = s_DCprevious (slavelist c ! k)" for k
    using assms(2) skel_eqs [of "slavelist d ! k" "slavelist c ! k"] by (simp_all add: keeps_def)
  have "dc_chain (slavelist d) 0 (dc_clocks c0 i) = dc_chain (slavelist c) 0 (dc_clocks c0 i)"
    by (rule dc_chain_cong) (simp_all add: s)
  then show ?thesis using assms dc_same_keeps [of c0 c d] by (simp add: dc_linked_def s)
qed

lemma dc_linked_same: "dc_linked c0 i prev c \<Longrightarrow> dc_same c0 c"
  by (simp add: dc_linked_def)

lemma dc_linked_link:
  assumes c: "dc_linked c0 i prev c" and i: "1 \<le> i" "i < length (slavelist c0)" "unat (of_nat i :: u16) = i"
    and s: "s_hasdc (slavelist c0 ! i)" "unat (s_group (slavelist c0 ! i)) < length (grouplist c0)"
  shows "returns (dc_link i prev c) (dc_linked c0 (Suc i) (of_nat i))"
proof -
  have pi: "unat prev = last (0 # dc_clocks c0 i)" using c by (simp add: dc_linked_def)
  have "last (0 # dc_clocks c0 i) \<in> set (0 # dc_clocks c0 i)" by (rule last_in_set) simp
  then have lt: "unat prev < i" using i(1) pi by (auto simp: dc_clocks_set)
  have z: "s_hasdc (slavelist c ! 0) \<or> prev = 0" using c by (auto simp: dc_linked_def unat_eq_0)
  show ?thesis
  proof (rule returns_mono [OF dc_link_step [OF dc_linked_same [OF c] i lt z s(2)]])
    fix d assume d: "dc_same c0 d \<and> s_hasdc (slavelist d ! 0) \<and>
      s_DCnext (slavelist d ! unat prev) = of_nat i \<and> s_DCprevious (slavelist d ! i) = prev \<and>
      (\<forall>k. k \<noteq> unat prev \<longrightarrow> s_DCnext (slavelist d ! k) = s_DCnext (slavelist c ! k)) \<and>
      (\<forall>k. k \<noteq> i \<longrightarrow> s_DCprevious (slavelist d ! k) = s_DCprevious (slavelist c ! k))"
    have "dc_chain (slavelist d) 0 (dc_clocks c0 i) = dc_chain (slavelist c) 0 (dc_clocks c0 i)"
    proof (rule dc_chain_cong)
      fix k assume "k \<in> set (butlast (0 # dc_clocks c0 i))"
      then have "k \<noteq> unat prev" using dc_clocks_butlast [of c0 i] pi by metis
      then show "s_DCnext (slavelist d ! k) = s_DCnext (slavelist c ! k)" using d by simp
    next
      fix k assume "k \<in> set (dc_clocks c0 i)"
      then have "k \<noteq> i" by (auto simp: dc_clocks_set)
      then show "s_DCprevious (slavelist d ! k) = s_DCprevious (slavelist c ! k)" using d by simp
    qed
    then have "dc_chain (slavelist d) 0 (dc_clocks c0 i)" using c by (simp add: dc_linked_def)
    then show "dc_linked c0 (Suc i) (of_nat i) d"
      using d s(1) i(3) pi unfolding dc_linked_def dc_clocks_Suc [OF i(1)] by (simp add: dc_chain_snoc)
  qed
qed

lemma dc_entry_returns: "s_activeports s AND 0xf \<noteq> 0 \<Longrightarrow> \<exists>p. dc_entry (dc_ports s) = Some p"
  by (rule dc_entry_lowest [OF dc_ports_nonempty dc_ports_length]) auto

lemma dc_same_stat: "dc_same c0 c \<Longrightarrow> 1 \<le> k \<Longrightarrow> s_parent (slavelist c ! k) = s_parent (slavelist c0 ! k) \<and>
    s_hasdc (slavelist c ! k) = s_hasdc (slavelist c0 ! k) \<and> s_activeports (slavelist c ! k) = s_activeports (slavelist c0 ! k)"
  by (auto simp: dc_same_def dc_stat_def)

lemma dc_same_refl: "dc_same c0 c \<Longrightarrow> keeps c c"
  by (rule keeps_refl) (auto simp: dc_same_def dest: ctx_ok_inv)

text \<open>What is known of slave \<open>i\<close> when its turn comes.\<close>

definition dc_place :: "ecx_context \<Rightarrow> nat \<Rightarrow> bool" where
  "dc_place c0 i \<longleftrightarrow> 1 \<le> i \<and> i < length (slavelist c0) \<and> i < 0xffff \<and>
     (\<forall>k. 1 \<le> k \<longrightarrow> k \<le> i \<longrightarrow> unat (s_parent (slavelist c0 ! k)) < k) \<and>
     (s_hasdc (slavelist c0 ! i) \<longrightarrow> s_activeports (slavelist c0 ! i) AND 0xf \<noteq> 0 \<and>
       unat (s_group (slavelist c0 ! i)) < length (grouplist c0))"

lemma dc_place: "dc_tree c0 \<Longrightarrow> 1 \<le> i \<Longrightarrow> int i \<le> slavecount c0 \<Longrightarrow> dc_place c0 i"
  by (auto simp: dc_tree_def dc_place_def)

lemma dc_place_index: "dc_place c0 i \<Longrightarrow> unat (of_nat i :: u16) = i"
  by (intro unat_of_nat_u16) (simp add: dc_place_def)

lemma dc_with_clock_links:
  assumes c: "dc_linked c0 i prev c" and i: "dc_place c0 i" "s_hasdc (slavelist c0 ! i)"
  shows "returns (dc_with_clock mt i prev ht hrt c) (\<lambda>(_, _, d). dc_linked c0 (Suc i) (of_nat i) d)"
proof -
  note n = dc_place_index [OF i(1)]
  have b: "1 \<le> i" "i < length (slavelist c0)" using i(1) by (simp_all add: dc_place_def)
  have g: "unat (s_group (slavelist c0 ! i)) < length (grouplist c0)" using i by (simp add: dc_place_def)
  obtain d where d: "dc_link i prev c = Some d" "dc_linked c0 (Suc i) (of_nat i) d"
    using dc_linked_link [OF c b n i(2) g] by (auto simp: returns_iff)
  note same = dc_linked_same [OF d(2)]
  have len: "i < length (slavelist d)" using b dc_same_length [OF same] by simp
  have tree: "unat (s_parent (slavelist d ! k)) < k" if "1 \<le> k" "k \<le> i" for k
    using that i(1) dc_same_stat [OF same that(1)] by (simp add: dc_place_def)
  obtain ht1 hrt1 e where e: "dc_times mt i (ht, hrt, d) = Some (ht1, hrt1, e)" "keeps d e"
    using dc_times_keeps [OF dc_same_refl [OF same] n len, of mt ht hrt] by (auto simp: returns_iff)
  have "s_activeports (slavelist e ! i) = s_activeports (slavelist d ! i)"
    using e(2) skel_eqs [of "slavelist e ! i" "slavelist d ! i"] by (simp add: keeps_def)
  then have "s_activeports (slavelist e ! i) AND 0xf \<noteq> 0" using i dc_same_stat [OF same b(1)] by (simp add: dc_place_def)
  then obtain p where p: "dc_entry (dc_ports (slavelist e ! i)) = Some p" using dc_entry_returns by blast
  obtain h where h: "upd_slave (of_nat i) (\<lambda>s. s\<lparr>s_entryport := p, s_consumedports := clear_port (s_consumedports s) p\<rparr>) e = Some h" "keeps d h"
    using keeps_upd [OF e(2), of "of_nat i" "\<lambda>s. s\<lparr>s_entryport := p, s_consumedports := clear_port (s_consumedports s) p\<rparr>"] len n
    by (auto simp: returns_iff)
  have "get_slave (of_nat i) e = Some (slavelist e ! i)" using keeps_get [OF e(2), of "of_nat i"] len n by simp
  moreover obtain ht2 k where k: "dc_propagation i ht1 h = Some (ht2, k)" "keeps d k"
    using dc_propagation_keeps [OF h(2) tree b(1) len n, of ht1] by (auto simp: returns_iff)
  ultimately show ?thesis
    using d(1) e(1) p h(1) dc_linked_keeps [OF d(2) k(2)] by (simp add: dc_with_clock_def)
qed

lemma dc_slave_links:
  assumes c: "dc_linked c0 i prev c" and ph: "unat ph < length (slavelist c0)" and i: "dc_place c0 i"
  shows "returns (dc_slave mt i (ph, prev, ht, hrt, c))
    (\<lambda>(ph, prev, ht, hrt, d). dc_linked c0 (Suc i) prev d \<and> unat ph < length (slavelist c0))"
proof -
  note n = dc_place_index [OF i]
  note same = dc_linked_same [OF c]
  have b: "1 \<le> i" "i < length (slavelist c0)" "i < length (slavelist c)" "unat ph < length (slavelist c)" "0 < length (slavelist c0)"
    using i ph dc_same_length [OF same] by (auto simp: dc_place_def)
  obtain d where d: "upd_slave (of_nat i) (\<lambda>s. s\<lparr>s_consumedports := s_activeports s\<rparr>) c = Some d" "keeps c d"
    using keeps_upd [OF dc_same_refl [OF same], of "of_nat i" "\<lambda>s. s\<lparr>s_consumedports := s_activeports s\<rparr>"] b n
    by (auto simp: returns_iff)
  have ld: "dc_linked c0 i prev d" by (rule dc_linked_keeps [OF c d(2)])
  have g: "get_slave (of_nat i) d = Some (slavelist d ! i)" using keeps_get [OF d(2), of "of_nat i"] b n by simp
  have st: "s_hasdc (slavelist d ! i) = s_hasdc (slavelist c0 ! i)" using dc_same_stat [OF dc_linked_same [OF ld] b(1)] by simp
  show ?thesis
  proof (cases "s_hasdc (slavelist c0 ! i)")
    case True
    obtain ht' hrt' e where "dc_with_clock mt i prev ht hrt d = Some (ht', hrt', e)" "dc_linked c0 (Suc i) (of_nat i) e"
      using dc_with_clock_links [OF ld i True, of mt ht hrt] by (auto simp: returns_iff)
    then show ?thesis using d(1) g st True b(5) by (simp add: dc_slave_def)
  next
    case False
    have "unat (s_parent (slavelist c0 ! i)) < i" using i by (simp add: dc_place_def)
    then have p: "unat (s_parent (slavelist c ! i)) < length (slavelist c)" using dc_same_stat [OF same b(1)] b by simp
    obtain ph' e where e: "dc_without_clock i ph d = Some (ph', e)" "keeps c e" "unat ph' < length (slavelist c)"
      using dc_without_clock_keeps [OF d(2) b(3) n p b(4)] by (auto simp: returns_iff)
    have "dc_linked c0 i prev e" by (rule dc_linked_keeps [OF c e(2)])
    then have "dc_linked c0 (Suc i) prev e" using False by (simp add: dc_linked_def dc_clocks_Suc [OF b(1)])
    then show ?thesis using d(1) g st False e dc_same_length [OF same] by (simp add: dc_slave_def)
  qed
qed

lemma configdc_linked:
  assumes inv: "ctx_inv c" and tree: "dc_tree c"
  shows "returns (ecx_configdc hrt c) (\<lambda>(r, d). r = (dc_clocks c (nat (slavecount c) + 1) \<noteq> []) \<and>
    dc_chain (slavelist d) 0 (dc_clocks c (nat (slavecount c) + 1)) \<and> dc_same c d)"
proof -
  let ?n = "nat (slavecount c)"
  have n: "slavecount c = int ?n" "?n < 0xffff" "?n < length (slavelist c)" "0 < length (slavelist c)" "0 < length (grouplist c)"
    using tree by (auto simp: dc_tree_def)
  have same: "dc_same c c" by (simp add: dc_same_def ctx_ok_refl inv)
  obtain d where d: "upd_slave 0 (\<lambda>s. s\<lparr>s_hasdc := False\<rparr>) c = Some d" "dc_same c d"
      "d = c\<lparr>slavelist := (slavelist c)[0 := (slavelist c ! 0)\<lparr>s_hasdc := False\<rparr>]\<rparr>"
    using dc_same_upd [OF same, of 0 "\<lambda>s. s\<lparr>s_hasdc := False\<rparr>"] n by (auto simp: returns_iff)
  obtain e where e: "upd_group 0 (\<lambda>g. g\<lparr>g_hasdc := False\<rparr>) d = Some e" "dc_same c e" "slavelist e = slavelist d"
    using dc_same_group [OF d(2), of 0 "\<lambda>g. g\<lparr>g_hasdc := False\<rparr>"] n by (auto simp: returns_iff)
  have "dc_linked c 1 0 e" using e d(3) n by (simp add: dc_linked_def dc_clocks_def)
  have ie: "ctx_inv e" using e(2) by (auto simp: dc_same_def dest: ctx_ok_inv)
  obtain w h where h: "on_port (ecx_BWR 0 ECT_REG_DCTIME0 4 (enc32 0) EC_TIMEOUTRET) e = Some (w, h)" "talks e h"
    using ctx_writes(2) [OF talks_refl [OF ie], of 4 "enc32 0" 0 ECT_REG_DCTIME0 EC_TIMEOUTRET] by (auto simp: returns_iff)
  obtain mt k where k: "ctx_current_time h = (mt, k)" by (cases "ctx_current_time h")
  have "talks h k" using current_time_talks [OF talks_inv [OF h(2)]] k by simp
  then have "keeps e k" using keeps_talks [OF keeps_talks [OF keeps_refl [OF ie] h(2)]] by blast
  then have start: "dc_linked c 1 0 k" by (rule dc_linked_keeps [OF \<open>dc_linked c 1 0 e\<close>])
  let ?P = "\<lambda>i (ph :: u16, prev, ht :: u32, hrt :: u64, d). dc_linked c i prev d \<and> unat ph < length (slavelist c)"
  have loop: "returns (for_loop ?n 1 (dc_slave mt64) (0, 0, 0, hrt, k)) (?P (1 + ?n))" for mt64
  proof (rule for_loop_returns)
    show "?P 1 (0, 0, 0, hrt, k)" using start n by simp
    fix i s assume i: "1 \<le> i" "i < 1 + ?n" and "?P i s"
    then obtain ph prev ht hrt d where s: "s = (ph, prev, ht, hrt, d)" "dc_linked c i prev d" "unat ph < length (slavelist c)"
      by (cases s) auto
    have "dc_place c i" by (rule dc_place [OF tree i(1)]) (use i n in linarith)
    from dc_slave_links [OF s(2,3) this] show "returns (dc_slave mt64 i s) (?P (Suc i))" by (simp add: s(1))
  qed
  have sc: "slavecount k = slavecount c" using dc_linked_same [OF start] by (simp add: dc_same_def ctx_ok_def)
  let ?mt64 = "(ucast (t_sec mt - 946684800) * 1000000 + ucast (t_usec mt)) * 1000"
  obtain ph prev ht hrt' f where f: "for_loop ?n 1 (dc_slave ?mt64) (0, 0, 0, hrt, k) = Some (ph, prev, ht, hrt', f)"
      "dc_linked c (1 + ?n) prev f"
    using loop [of ?mt64] by (auto simp: returns_iff)
  have "get_slave 0 f = Some (slavelist f ! 0)"
    using n dc_same_length [OF dc_linked_same [OF f(2)]] by (simp add: get_slave_def arr_get_def)
  moreover have "slavecount c < 0xffff" using n by linarith
  ultimately show ?thesis
    using d(1) e(1) h(1) k f sc by (simp add: ecx_configdc_def Let_def dc_linked_def)
qed

lemma grid_below:
  fixes a p :: int
  assumes "0 \<le> a" "0 < p"
  shows "0 \<le> a div p * p" "a div p * p \<le> a" "a < a div p * p + p"
proof -
  have "a div p * p = a - a mod p" by (simp add: minus_mod_eq_div_mult)
  then show "a div p * p \<le> a" "a < a div p * p + p" using assms pos_mod_bound [of p a] pos_mod_sign [of p a] by linarith+
  show "0 \<le> a div p * p" using assms by (simp add: pos_imp_zdiv_nonneg_iff)
qed

lemma dc_start_signed:
  assumes "v = q * p + p + s" "0 \<le> q * p" "q * p \<le> a" "a < 2 ^ 62 + 2 ^ 32" "0 < p" "p < 2 ^ 32" "- (2 ^ 31) \<le> s" "s < 2 ^ 31"
  shows "sint (word_of_int v :: u64) = v"
proof -
  have "- (2 ^ 63) \<le> v \<and> v < 2 ^ 63" using assms by simp
  then show ?thesis by (simp add: sint_sbintrunc' signed_take_bit_int_eq_self)
qed

text \<open>
  The first pulse that \<^verbatim>\<open>ecx_dcsync0\<close> programs lies on the grid of the cycle, moved by the
  shift: it is the first multiple of the cycle time more than \<open>SyncDelay\<close> (100 ms) after the time
  of the slave.
\<close>

theorem dc_start_aligned:
  assumes "0 \<le> sint t1" "sint t1 < 2 ^ 62" "CyclTime > 0"
  shows "\<exists>t. dc_start t1 CyclTime CyclTime CyclShift = Some t \<and> int (unat CyclTime) dvd sint t - sint CyclShift \<and>
    sint t1 + 100000000 < sint t - sint CyclShift \<and> sint t - sint CyclShift \<le> sint t1 + 100000000 + int (unat CyclTime)"
proof -
  let ?p = "int (unat CyclTime)" and ?a = "sint t1 + SyncDelay" and ?s = "sint CyclShift"
  have "0 < unat CyclTime" "unat CyclTime < 4294967296"
    using assms(3) unsigned_less [of CyclTime, where 'a = nat] by (simp_all add: unat_gt_0 word_gt_0)
  moreover have "(2 :: int) ^ 32 = 4294967296" by simp
  ultimately have p: "0 < ?p" "?p < 2 ^ 32" by linarith+
  have s: "- (2 ^ 31) \<le> ?s" "?s < 2 ^ 31" using sint_greater_eq [of CyclShift] sint_lt [of CyclShift] by simp_all
  have q: "?a sdiv ?p = ?a div ?p" using assms(1) p(1) by (simp add: signed_divide_int_def sgn_if)
  have m: "0 \<le> ?a div ?p * ?p" "?a div ?p * ?p \<le> ?a" "?a < ?a div ?p * ?p + ?p"
    by (rule grid_below [OF _ p(1)]; use assms(1) in simp)+
  let ?v = "?a div ?p * ?p + ?p + ?s"
  have e: "sint (word_of_int ?v :: u64) = ?v"
    by (rule dc_start_signed [OF refl m(1,2) _ p s]) (use assms(2) in simp)
  have "dc_start t1 CyclTime CyclTime CyclShift = Some (word_of_int ?v)"
    using assms(3) unfolding dc_start_def q by (simp add: word_gt_0)
  moreover have "?p dvd sint (word_of_int ?v :: u64) - ?s" unfolding e by simp
  moreover have "?a < sint (word_of_int ?v :: u64) - ?s" "sint (word_of_int ?v :: u64) - ?s \<le> ?a + ?p"
    unfolding e using m by linarith+
  ultimately show ?thesis by blast
qed

theorem dc_start_aligned_witness: "\<exists>t. dc_start 5 1000000 1000000 0 = Some t \<and> 1000000 dvd sint t"
  using dc_start_aligned [of 5 1000000 0] by (auto simp: word_gt_0)

text \<open>
  C28: \<^verbatim>\<open>ecx_configdc\<close> always returns, whatever the slaves answer; it reports a clock exactly if
  a slave has one, and links the slaves with a clock, in the order of their position, into a
  list linked in both directions that starts at the master.
\<close>

theorem configdc_links:
  assumes "ctx_inv c" "dc_tree c" "xs = filter (\<lambda>k. s_hasdc (slavelist c ! k)) [1..<nat (slavecount c) + 1]"
  shows "returns (ecx_configdc hrt c) (\<lambda>(r, d). r = (xs \<noteq> []) \<and> dc_chain (slavelist d) 0 xs)"
  using configdc_linked [OF assms(1,2), of hrt] by (auto simp: assms(3) dc_clocks_def returns_iff)

definition demo_dc_context :: ecx_context where
  "demo_dc_context = (demo_context (demo_port [])
     [no_slave, no_slave\<lparr>s_hasdc := True, s_activeports := 3\<rparr>, no_slave\<lparr>s_parent := 1\<rparr>,
      no_slave\<lparr>s_hasdc := True, s_activeports := 1, s_parent := 2\<rparr>])\<lparr>grouplist := [no_group]\<rparr>"

lemma demo_dc_inv: "ctx_inv demo_dc_context" "dc_tree demo_dc_context"
proof -
  show "ctx_inv demo_dc_context"
    using ctx_inv_demo [OF port_inv_demo_nil] by (simp add: demo_dc_context_def ctx_inv_def demo_context_def)
  have no: "s_parent no_slave = 0" "s_hasdc no_slave = False" "s_group no_slave = 0" by (simp_all add: no_slave_def)
  have "unat (s_parent (slavelist demo_dc_context ! i)) < i \<and> (s_hasdc (slavelist demo_dc_context ! i) \<longrightarrow>
      s_activeports (slavelist demo_dc_context ! i) AND 0xf \<noteq> 0 \<and> unat (s_group (slavelist demo_dc_context ! i)) < 1)"
    if "1 \<le> i" "int i \<le> 3" for i
  proof -
    from that consider "i = 1" | "i = 2" | "i = 3" by linarith
    then show ?thesis by cases (simp_all add: demo_dc_context_def demo_context_def no)
  qed
  then show "dc_tree demo_dc_context" by (simp add: dc_tree_def) (simp add: demo_dc_context_def demo_context_def)
qed

theorem configdc_links_witness:
  "\<exists>d. ecx_configdc 0 demo_dc_context = Some (True, d) \<and>
     unat (s_DCnext (slavelist d ! 0)) = 1 \<and> unat (s_DCnext (slavelist d ! 1)) = 3 \<and> unat (s_DCprevious (slavelist d ! 3)) = 1"
proof -
  have xs: "[1, 3] = filter (\<lambda>k. s_hasdc (slavelist demo_dc_context ! k)) [1..<nat (slavecount demo_dc_context) + 1]"
    by (simp add: demo_dc_context_def demo_context_def no_slave_def upt_conv_Cons)
  from configdc_links [OF demo_dc_inv xs, of 0] show ?thesis by (auto simp: returns_iff)
qed

text \<open>
  The entry port that \<^verbatim>\<open>ecx_configdc\<close> selects is an active port, and no active port has a
  lower time stamp.
\<close>

theorem entry_port_first:
  assumes "s_activeports s AND 0xf \<noteq> 0"
  shows "\<exists>p t. dc_entry (dc_ports s) = Some p \<and> (p, t) \<in> set (dc_ports s) \<and> t = ecx_porttime s p \<and>
    (\<forall>(q, u) \<in> set (dc_ports s). PORTM (s_activeports s) q \<and> sint t \<le> sint u)"
proof -
  obtain i where i: "i < length (dc_ports s)" "dc_entry (dc_ports s) = Some (fst (dc_ports s ! i))"
      "\<And>j. j < length (dc_ports s) \<Longrightarrow> sint (snd (dc_ports s ! i)) \<le> sint (snd (dc_ports s ! j))"
    by (rule dc_entry_lowest [OF dc_ports_nonempty [OF assms] dc_ports_length]) (rule that)
  have p: "t = ecx_porttime s q \<and> PORTM (s_activeports s) q" if "(q, t) \<in> set (dc_ports s)" for q t
    using that by (auto simp: dc_ports_def Let_def ecx_porttime_def split: if_splits)
  have m: "dc_ports s ! i \<in> set (dc_ports s)" using i(1) by simp
  obtain q t where qt: "dc_ports s ! i = (q, t)" by (cases "dc_ports s ! i")
  have "sint t \<le> sint u" if "(r, u) \<in> set (dc_ports s)" for r u
    using that i(3) qt by (auto simp: in_set_conv_nth) (metis snd_conv)
  then show ?thesis using i(2) m p qt by (intro exI [of _ q] exI [of _ t]) auto
qed

theorem entry_port_first_witness:
  "\<exists>t. dc_entry (dc_ports (no_slave\<lparr>s_activeports := 3, s_DCrtA := 9, s_DCrtB := 7\<rparr>)) = Some 1 \<and>
     t = ecx_porttime (no_slave\<lparr>s_activeports := 3, s_DCrtA := 9, s_DCrtB := 7\<rparr>) 1"
proof -
  let ?s = "no_slave\<lparr>s_activeports := 3, s_DCrtA := 9, s_DCrtB := 7\<rparr>"
  have p: "dc_ports ?s = [(0, 9), (1, 7)]" by (simp add: dc_ports_def Let_def PORTM_def)
  have "s_activeports ?s AND 0xf \<noteq> 0" by simp
  from entry_port_first [OF this] p show ?thesis by auto
qed

text \<open>The two-pulse variant tests the first cycle time for 0, but only after it has divided by it.\<close>

lemma dcsync01_zero_faults: "ecx_dcsync01 slave act 0 CyclTime1 CyclShift c = None"
  by (simp add: ecx_dcsync01_def)

end
