(* ===== verification/MbxClient.thy ===== *)
theory MbxClient
  imports Mailbox
begin

text \<open>
  What the mailbox protocols (CoE, FoE, SoE, EoE) share: access to mailbox buffers and to the
  memory of the caller, the header of a mailbox, the session counter of a slave and the exchange
  of a request for an answer. The interface \<open>mbx_transport\<close> of the link layer is extended by the
  counter to the interface that the clients use.
\<close>

section \<open>Memory\<close>

text \<open>\<^verbatim>\<open>memcpy\<close> out of and into an object; leaving the object is a fault.\<close>

definition mem_read :: "u8 list \<Rightarrow> nat \<Rightarrow> nat \<Rightarrow> u8 list option" where
  "mem_read m off n = do { chk (off + n \<le> length m); Some (take n (drop off m)) }"

definition mem_write :: "u8 list \<Rightarrow> nat \<Rightarrow> u8 list \<Rightarrow> u8 list option" where
  "mem_write m off bs = do { chk (off + length bs \<le> length m); Some (take off m @ bs @ drop (off + length bs) m) }"

text \<open>Fields at fixed places of a mailbox, which is large enough for all of them.\<close>

definition put_bytes :: "nat \<Rightarrow> u8 list \<Rightarrow> u8 list \<Rightarrow> u8 list" where
  "put_bytes off bs m = take off m @ bs @ drop (off + length bs) m"

text \<open>\<^verbatim>\<open>strncpy\<close>: up to the first zero, and zeros behind it.\<close>

definition strncpy :: "nat \<Rightarrow> u8 list \<Rightarrow> u8 list" where
  "strncpy n src = (let s = takeWhile (\<lambda>b. b \<noteq> 0) (take n src) in s @ replicate (n - length s) 0)"

definition mbx32 :: "ec_mbxbuf \<Rightarrow> nat \<Rightarrow> u32" where
  "mbx32 mbx i = get32 (list_buf mbx) i"

text \<open>
  A local mailbox buffer after \<^verbatim>\<open>ec_clearmbx\<close>; the last byte, which it does not clear, is never
  sent nor received.
\<close>

definition new_mbx :: ec_mbxbuf where
  "new_mbx = replicate (EC_MAXMBX + 1) 0"

definition mbx_header :: "u16 \<Rightarrow> u16 \<Rightarrow> u8 \<Rightarrow> u8 \<Rightarrow> u8 list" where
  "mbx_header len adr mbxtype cnt = enc16 len @ enc16 adr @ [0, mbxtype + push_bit 4 cnt]"

lemma mem_read_returns [simp]: "returns (mem_read m off n) Q \<longleftrightarrow> off + n \<le> length m \<and> Q (take n (drop off m))"
  by (simp add: mem_read_def)

lemma mem_write_returns [simp]:
  "returns (mem_write m off bs) Q \<longleftrightarrow> off + length bs \<le> length m \<and> Q (put_bytes off bs m)"
  by (simp add: mem_write_def put_bytes_def)

lemma mem_write_Some: "mem_write m off bs = Some m' \<longleftrightarrow> off + length bs \<le> length m \<and> m' = put_bytes off bs m"
  by (auto simp: mem_write_def put_bytes_def Option.bind_eq_Some_conv)

lemma mem_read_Some: "mem_read m off n = Some bs \<longleftrightarrow> off + n \<le> length m \<and> bs = take n (drop off m)"
  by (auto simp: mem_read_def Option.bind_eq_Some_conv)

lemma length_put_bytes [simp]: "off + length bs \<le> length m \<Longrightarrow> length (put_bytes off bs m) = length m"
  by (simp add: put_bytes_def)

lemma length_mbx_header [simp]: "length (mbx_header len adr ty cnt) = 6"
  by (simp add: mbx_header_def)

lemma length_strncpy [simp]: "length (strncpy n src) = n"
  using length_takeWhile_le [of "\<lambda>b. b \<noteq> 0" "take n src"] by (simp add: strncpy_def Let_def)

lemma take_put_bytes: "n \<le> off \<Longrightarrow> off + length bs \<le> length m \<Longrightarrow> take n (put_bytes off bs m) = take n m"
  by (simp add: put_bytes_def)

lemma drop_take_put_bytes: "off + length bs \<le> length m \<Longrightarrow> take (length bs) (drop off (put_bytes off bs m)) = bs"
  by (simp add: put_bytes_def)

lemma nth_put_bytes:
  "off + length bs \<le> length m \<Longrightarrow> i < length m \<Longrightarrow>
     put_bytes off bs m ! i = (if off \<le> i \<and> i < off + length bs then bs ! (i - off) else m ! i)"
  by (auto simp: put_bytes_def nth_append min_def)

lemma new_mbx_fit [simp]: "mbx_fit new_mbx"
  by (simp add: new_mbx_def mbx_fit_def)

lemma clearmbx_fit [simp]: "mbx_fit m \<Longrightarrow> mbx_fit (ec_clearmbx m)"
  by (simp add: mbx_fit_def ec_clearmbx_def)

lemma put_bytes_fit [simp]: "mbx_fit m \<Longrightarrow> off + length bs \<le> EC_MAXMBX + 1 \<Longrightarrow> mbx_fit (put_bytes off bs m)"
  by (simp add: mbx_fit_def)

section \<open>Counter and exchange\<close>

definition mbx_session :: "u16 \<Rightarrow> ecx_context \<Rightarrow> (u8 \<times> ecx_context) option" where
  "mbx_session slave c = do {
     s \<leftarrow> get_slave slave c;
     let cnt = ec_nextmbxcnt (s_mbx_cnt s);
     c \<leftarrow> upd_slave slave (\<lambda>s. s\<lparr>s_mbx_cnt := cnt\<rparr>) c;
     Some (cnt, c)
   }"

text \<open>Emptying the output mailbox of a slave before a request.\<close>

definition mbx_flush :: "u16 \<Rightarrow> ecx_context \<Rightarrow> (ec_mbxbuf \<times> ecx_context) option" where
  "mbx_flush slave c = do {
     (_, MbxIn, c) \<leftarrow> ecx_mbxreceive slave new_mbx 0 c;
     Some (MbxIn, c)
   }"

definition mbx_exchange :: "u16 \<Rightarrow> ec_mbxbuf \<Rightarrow> ec_mbxbuf \<Rightarrow> int \<Rightarrow> ecx_context \<Rightarrow> (int \<times> ec_mbxbuf \<times> ecx_context) option" where
  "mbx_exchange slave MbxOut MbxIn timeout c = do {
     (wkc, c) \<leftarrow> ecx_mbxsend slave MbxOut EC_TIMEOUTTXM c;
     if wkc > 0 then ecx_mbxreceive slave (ec_clearmbx MbxIn) timeout c
     else Some (wkc, MbxIn, c)
   }"

section \<open>The interface of the clients\<close>

text \<open>
  A client of the transport also counts its requests. An exchange is a send and, when that was
  successful, a receive; its answer is fit to be looked at when its result is positive.
\<close>

locale mbx_client = mbx_transport ok valid upto fit good send recv
  for ok :: "'c \<Rightarrow> bool" and valid :: "'c \<Rightarrow> u16 \<Rightarrow> bool" and upto :: "'c \<Rightarrow> 'c \<Rightarrow> bool" and fit :: "'m \<Rightarrow> bool"
    and good :: "'c \<Rightarrow> u16 \<Rightarrow> 'm \<Rightarrow> bool" and send :: "u16 \<Rightarrow> 'm \<Rightarrow> int \<Rightarrow> 'c \<Rightarrow> (int \<times> 'c) option"
    and recv :: "u16 \<Rightarrow> 'm \<Rightarrow> int \<Rightarrow> 'c \<Rightarrow> (int \<times> 'm \<times> 'c) option" +
  fixes count :: "u16 \<Rightarrow> 'c \<Rightarrow> (u8 \<times> 'c) option"
    and fresh :: "u8 \<Rightarrow> bool"
  assumes count_law: "ok c \<Longrightarrow> valid c s \<Longrightarrow> returns (count s c) (\<lambda>(n, d). upto c d \<and> fresh n)"
begin

lemma count_from: "upto c0 c \<Longrightarrow> valid c0 s \<Longrightarrow> returns (count s c) (\<lambda>(n, d). upto c0 d \<and> fresh n)"
  using count_law [OF upto_ok, of c0 c s] by (auto simp: upto_valid elim!: returns_mono intro: upto_trans)

lemma mbx_exchange_keeps:
  assumes "upto c0 c" "valid c0 s" "fit out" "fit inb" "fit inb'"
  shows "returns (Option.bind (send s out t c) (\<lambda>(w, d). if w > 0 then recv s inb' t' d else Some (w, inb, d)))
    (\<lambda>(w, m, d). upto c0 d \<and> fit m \<and> (w > 0 \<longrightarrow> good c0 s m))"
proof -
  obtain w d where d: "send s out t c = Some (w, d)" "upto c0 d"
    using send_from [OF assms(1,2,3), of t] by (auto simp: returns_iff)
  show ?thesis
    using d assms(4) recv_from [OF d(2) assms(2,5), of t'] by simp
qed

end

section \<open>Requests change nothing but the counter\<close>

definition nocnt :: "ecx_context \<Rightarrow> ecx_context" where
  "nocnt c = c\<lparr>slavelist := map (\<lambda>s. s\<lparr>s_mbx_cnt := 0\<rparr>) (slavelist c)\<rparr>"

definition asks :: "ecx_context \<Rightarrow> ecx_context \<Rightarrow> bool" where
  "asks c d \<longleftrightarrow> chats (nocnt c) (nocnt d)"

lemma nocnt_inv: "ctx_inv (nocnt c) = ctx_inv c"
  by (simp add: nocnt_def ctx_inv_def)

lemma chats_asks:
  assumes "chats c d"
  shows "asks c d"
proof -
  obtain p r b where d: "d = c\<lparr>port := p, elist := r, ecaterror := b\<rparr>" using assms by (auto simp: chats_def reports_def)
  then have "nocnt d = (nocnt c)\<lparr>port := p, elist := r, ecaterror := b\<rparr>" by (simp add: nocnt_def)
  then have "reports (nocnt c) (nocnt d)" by (rule reportsI)
  moreover have "ctx_ok (nocnt c) (nocnt d)"
    using assms unfolding chats_def ctx_ok_def nocnt_inv by (simp add: nocnt_def)
  ultimately show ?thesis by (simp add: asks_def chats_def)
qed

lemma asks_refl: "ctx_inv c \<Longrightarrow> asks c c"
  by (simp add: asks_def chats_refl nocnt_inv)

lemma asks_trans [trans]: "asks a b \<Longrightarrow> asks b c \<Longrightarrow> asks a c"
  by (auto simp: asks_def intro: chats_trans)

lemma asks_inv: "asks a b \<Longrightarrow> ctx_inv b"
  by (auto simp: asks_def nocnt_inv dest: chats_inv)

lemma asks_length: "asks a b \<Longrightarrow> length (slavelist b) = length (slavelist a)"
  using chats_slavelist [of "nocnt a" "nocnt b"] by (auto simp: asks_def nocnt_def dest: arg_cong [of _ _ length])

lemma asks_ok: "asks a b \<Longrightarrow> ctx_ok a b"
  using asks_length [of a b] asks_inv [of a b] by (auto simp: asks_def chats_def ctx_ok_def) (auto simp: nocnt_def)

lemma asks_hook: "asks a b \<Longrightarrow> EOEhook b = EOEhook a"
  using chats_slavelist [of "nocnt a" "nocnt b"] by (simp add: asks_def nocnt_def)

lemma asks_deliverable: "asks a b \<Longrightarrow> deliverable b s m = deliverable a s m"
  by (simp add: deliverable_def asks_hook)

lemma asks_slave:
  assumes "asks a b" "k < length (slavelist a)"
  shows "\<exists>n. slavelist b ! k = (slavelist a ! k)\<lparr>s_mbx_cnt := n\<rparr>"
proof -
  have "slavelist (nocnt b) ! k = slavelist (nocnt a) ! k" using chats_slavelist assms(1) by (simp add: asks_def)
  then have "(slavelist b ! k)\<lparr>s_mbx_cnt := 0\<rparr> = (slavelist a ! k)\<lparr>s_mbx_cnt := 0\<rparr>"
    using assms asks_length [OF assms(1)] by (simp add: nocnt_def)
  then have "(slavelist b ! k)\<lparr>s_mbx_cnt := 0\<rparr>\<lparr>s_mbx_cnt := s_mbx_cnt (slavelist b ! k)\<rparr> =
      (slavelist a ! k)\<lparr>s_mbx_cnt := 0\<rparr>\<lparr>s_mbx_cnt := s_mbx_cnt (slavelist b ! k)\<rparr>"
    by (rule arg_cong [of _ _ "\<lambda>s. s\<lparr>s_mbx_cnt := s_mbx_cnt (slavelist b ! k)\<rparr>"])
  then show ?thesis by (intro exI [of _ "s_mbx_cnt (slavelist b ! k)"]) simp
qed

lemma session_asks:
  assumes "ctx_inv c" "slave_valid c slave"
  shows "returns (mbx_session slave c) (\<lambda>(n, d). asks c d \<and> n = ec_nextmbxcnt (s_mbx_cnt (slavelist c ! unat slave)))"
proof -
  let ?s = "slavelist c ! unat slave" and ?n = "ec_nextmbxcnt (s_mbx_cnt (slavelist c ! unat slave))"
  let ?d = "c\<lparr>slavelist := (slavelist c)[unat slave := ?s\<lparr>s_mbx_cnt := ?n\<rparr>]\<rparr>"
  have v: "unat slave < length (slavelist c)" using assms(2) by (simp add: slave_valid_def)
  have "nocnt ?d = nocnt c" using v by (simp add: nocnt_def map_update) (metis list_update_id nth_map)
  then have "asks c ?d" using chats_refl [of "nocnt c"] assms(1) by (simp add: asks_def nocnt_inv)
  with v show ?thesis by (simp add: mbx_session_def get_slave_def upd_slave_def arr_get_def Let_def)
qed

interpretation client: mbx_client ctx_inv slave_valid asks mbx_fit deliverable ecx_mbxsend ecx_mbxreceive mbx_session "\<lambda>n. n \<le> 7"
proof
  show "asks c c" if "ctx_inv c" for c using that by (rule asks_refl)
  show "asks a c" if "asks a b" "asks b c" for a b c using that by (rule asks_trans)
  show "ctx_inv b" if "asks a b" for a b using that by (rule asks_inv)
  show "slave_valid b s = slave_valid a s" if "asks a b" for a b s
    using asks_length [OF that] by (simp add: slave_valid_def)
  show "deliverable b s m = deliverable a s m" if "asks a b" for a b s m using that by (rule asks_deliverable)
  show "returns (ecx_mbxsend s m t c) (\<lambda>(w, d). asks c d)" if "ctx_inv c" "slave_valid c s" "mbx_fit m" for c s m t
    using mbx.send_law [OF that, of t] by (auto elim!: returns_mono intro: chats_asks)
  show "returns (ecx_mbxreceive s m t c) (\<lambda>(w, m', d). asks c d \<and> mbx_fit m' \<and> (w > 0 \<longrightarrow> deliverable c s m'))"
    if "ctx_inv c" "slave_valid c s" "mbx_fit m" for c s m t
    using mbx.recv_law [OF that, of t] by (auto elim!: returns_mono intro: chats_asks)
  show "returns (mbx_session s c) (\<lambda>(n, d). asks c d \<and> n \<le> 7)" if "ctx_inv c" "slave_valid c s" for c s
    using session_asks [OF that] by (rule returns_mono) (auto simp: ec_nextmbxcnt_def Let_def)
qed

lemma flush_from:
  assumes "asks c0 c" "slave_valid c0 slave"
  shows "returns (mbx_flush slave c) (\<lambda>(m, d). asks c0 d \<and> mbx_fit m)"
  using client.recv_from [OF assms new_mbx_fit, of 0] by (auto simp: mbx_flush_def elim!: returns_mono)

lemma exchange_from:
  assumes "asks c0 c" "slave_valid c0 slave" "mbx_fit out" "mbx_fit m"
  shows "returns (mbx_exchange slave out m t c) (\<lambda>(w, m', d). asks c0 d \<and> mbx_fit m' \<and> (w > 0 \<longrightarrow> deliverable c0 slave m'))"
  unfolding mbx_exchange_def by (rule client.mbx_exchange_keeps [OF assms clearmbx_fit [OF assms(4)]])

lemma packeterror_from: "asks c0 c \<Longrightarrow> returns (ecx_packeterror slave i si code c) (asks c0)"
  using packeterror_chats [OF asks_inv, of c0 c slave i si code] by (auto elim!: returns_mono intro: asks_trans chats_asks)

text \<open>The steps of a protocol, for the proofs that an operation returns.\<close>

lemmas client_steps = returns_bindI [OF client.count_from] returns_bindI [OF client.send_from] returns_bindI [OF client.recv_from]
  returns_bindI [OF flush_from] returns_bindI [OF exchange_from] returns_bindI [OF packeterror_from]

text \<open>Counting loops on a 16-bit counter: one whose last value is the largest word never ends.\<close>

definition for_u16 :: "u16 \<Rightarrow> u16 \<Rightarrow> (u16 \<Rightarrow> 's \<Rightarrow> 's option) \<Rightarrow> 's \<Rightarrow> 's option" where
  "for_u16 first fin body s = do {
     (_, s) \<leftarrow> while_loop (\<lambda>(i, _). i \<le> fin) (\<lambda>(i, s). do { s \<leftarrow> body i s; Some (i + 1, s) }) (first, s);
     Some s
   }"

lemma for_u16_step: "i \<le> fin \<Longrightarrow> for_u16 i fin body s = Option.bind (body i s) (for_u16 (i + 1) fin body)"
  by (cases "body i s") (simp_all add: for_u16_def while_loop_unfold)

lemma for_u16_end: "fin < i \<Longrightarrow> for_u16 i fin body s = Some s"
  by (simp add: for_u16_def)

lemma for_u16_returns:
  assumes "P i s" "fin < 0xffff" "i \<le> fin + 1" "\<And>i s. i \<le> fin \<Longrightarrow> P i s \<Longrightarrow> returns (body i s) (P (i + 1))"
  shows "returns (for_u16 i fin body s) (P (fin + 1))"
  using assms(1,3)
proof (induction "unat (fin + 1) - unat i" arbitrary: i s)
  case 0
  then have "i = fin + 1" by (simp add: word_le_nat_alt word_unat_eq_iff)
  moreover have "fin < fin + 1" using assms(2) by (simp add: word_less_nat_alt unat_plus_if')
  ultimately show ?case using 0 by (simp add: for_u16_end)
next
  case (Suc n)
  have u: "unat (fin + 1) = unat fin + 1" using assms(2) by (simp add: word_less_nat_alt unat_plus_if')
  with Suc.hyps(2) have i: "i \<le> fin" by (simp add: word_le_nat_alt)
  then have i1: "unat (i + 1) = unat i + 1" using assms(2) by (simp add: word_le_nat_alt word_less_nat_alt unat_plus_if')
  obtain t where t: "body i s = Some t" "P (i + 1) t" using assms(4) [OF i Suc.prems(1)] by (auto simp: returns_iff)
  have "returns (for_u16 (i + 1) fin body t) (P (fin + 1))"
    by (rule Suc.hyps(1) [OF _ t(2)]) (use Suc.hyps(2) u i1 i in \<open>simp_all add: word_le_nat_alt\<close>)
  with t(1) i show ?case by (simp add: for_u16_step)
qed

lemma for_u16_endless: "for_u16 i 0xffff body s = None"
proof -
  have "ensures (while_loop (\<lambda>(i :: u16, _). i \<le> 0xffff) (\<lambda>(i, s). do { s \<leftarrow> body i s; Some (i + 1, s) }) (i, s)) (\<lambda>_. False)"
  proof (rule ensures_mono [OF while_loop_ensures [where P = "\<lambda>_. True"]])
    fix r :: "u16 \<times> 'a" assume "True \<and> \<not> (case r of (i, _) \<Rightarrow> i \<le> 0xffff)"
    moreover have "fst r \<le> 0xffff" using unsigned_less [of "fst r", where 'a = nat] by (simp add: word_le_nat_alt)
    ultimately show False by (simp add: case_prod_unfold)
  qed (simp_all add: ensures_iff)
  then show ?thesis
    by (cases "while_loop (\<lambda>(i :: u16, _). i \<le> 0xffff) (\<lambda>(i, s). do { s \<leftarrow> body i s; Some (i + 1, s) }) (i, s)")
      (simp_all add: for_u16_def)
qed

end
