(* ===== verification/Coe.thy ===== *)
theory Coe
  imports MbxClient
begin

text \<open>
  CANopen over EtherCAT, \<^verbatim>\<open>soem/ethercatcoe.c\<close>: reading and writing of objects (SDO), also in
  segments, and the PDO services. In a CoE mailbox the word of the service is at byte 6, the
  command at 8, the index at 9, the subindex at 11 and the data from 12 on. The memory of the
  caller is a list of bytes next to the size that he claims; leaving a buffer is a fault.
\<close>

section \<open>Constants and error reports\<close>

abbreviation ECT_COES_EMERGENCY :: u16 where "ECT_COES_EMERGENCY \<equiv> 1"
abbreviation ECT_COES_SDOREQ :: u16 where "ECT_COES_SDOREQ \<equiv> 2"
abbreviation ECT_COES_SDORES :: u16 where "ECT_COES_SDORES \<equiv> 3"
abbreviation ECT_COES_TXPDO :: u16 where "ECT_COES_TXPDO \<equiv> 4"
abbreviation ECT_COES_RXPDO :: u16 where "ECT_COES_RXPDO \<equiv> 5"
abbreviation ECT_COES_TXPDO_RR :: u16 where "ECT_COES_TXPDO_RR \<equiv> 6"
abbreviation ECT_COES_SDOINFO :: u16 where "ECT_COES_SDOINFO \<equiv> 8"
abbreviation ECT_SDO_DOWN_INIT :: u8 where "ECT_SDO_DOWN_INIT \<equiv> 0x21"
abbreviation ECT_SDO_DOWN_EXP :: u8 where "ECT_SDO_DOWN_EXP \<equiv> 0x23"
abbreviation ECT_SDO_DOWN_INIT_CA :: u8 where "ECT_SDO_DOWN_INIT_CA \<equiv> 0x31"
abbreviation ECT_SDO_UP_REQ :: u8 where "ECT_SDO_UP_REQ \<equiv> 0x40"
abbreviation ECT_SDO_UP_REQ_CA :: u8 where "ECT_SDO_UP_REQ_CA \<equiv> 0x50"
abbreviation ECT_SDO_SEG_UP_REQ :: u8 where "ECT_SDO_SEG_UP_REQ \<equiv> 0x60"
abbreviation ECT_SDO_ABORT :: u8 where "ECT_SDO_ABORT \<equiv> 0x80"

definition ecx_SDOerror :: "u16 \<Rightarrow> u16 \<Rightarrow> u8 \<Rightarrow> u32 \<Rightarrow> ecx_context \<Rightarrow> ecx_context option" where
  "ecx_SDOerror slave idx subidx code c =
     (let (t, c) = ctx_current_time c
      in ecx_pusherror (set_AbortCode code (no_error\<lparr>Time := t, Slave := slave, Index := idx, SubIdx := subidx,
           Etype := EC_ERR_TYPE_SDO_ERROR\<rparr>)) (c\<lparr>ecaterror := True\<rparr>))"

definition ecx_SDOinfoerror :: "u16 \<Rightarrow> u16 \<Rightarrow> u8 \<Rightarrow> u32 \<Rightarrow> ecx_context \<Rightarrow> ecx_context option" where
  "ecx_SDOinfoerror slave idx subidx code c =
     ecx_pusherror (set_AbortCode code (no_error\<lparr>Slave := slave, Index := idx, SubIdx := subidx,
       Etype := EC_ERR_TYPE_SDOINFO_ERROR\<rparr>)) (c\<lparr>ecaterror := True\<rparr>)"

section \<open>Requests and answers\<close>

text \<open>Header, service word and command of a CoE mailbox.\<close>

definition coe_head :: "u16 \<Rightarrow> u8 \<Rightarrow> u16 \<Rightarrow> u8 list" where
  "coe_head len cnt service = mbx_header len 0 ECT_MBXT_COE cnt @ enc16 service"

definition sdo_request :: "u16 \<Rightarrow> u8 \<Rightarrow> u8 \<Rightarrow> u16 \<Rightarrow> u8 \<Rightarrow> u8 list" where
  "sdo_request len cnt cmd idx subidx = coe_head len cnt (push_bit 12 ECT_COES_SDOREQ) @ [cmd] @ enc16 idx @ [subidx]"

definition coe_service :: "u16 \<Rightarrow> ec_mbxbuf \<Rightarrow> bool" where
  "coe_service svc m \<longleftrightarrow> mbx_kind m = ECT_MBXT_COE \<and> drop_bit 12 (mbx16 m 6) = svc"

text \<open>The report of an answer that is not the expected one.\<close>

definition sdo_unexpected :: "u16 \<Rightarrow> u16 \<Rightarrow> u8 \<Rightarrow> ec_mbxbuf \<Rightarrow> ecx_context \<Rightarrow> ecx_context option" where
  "sdo_unexpected slave idx subidx m c =
     (if mbx8 m 8 = ECT_SDO_ABORT then ecx_SDOerror slave idx subidx (mbx32 m 12) c
      else ecx_packeterror slave idx subidx 1 c)"

section \<open>Reading an object\<close>

text \<open>Result, size and memory of the caller.\<close>

type_synonym sdo_result = "int \<times> int \<times> u8 list \<times> ecx_context"

definition sdo_expedited :: "u16 \<Rightarrow> u16 \<Rightarrow> u8 \<Rightarrow> ec_mbxbuf \<Rightarrow> sdo_result \<Rightarrow> sdo_result option" where
  "sdo_expedited slave idx subidx m = (\<lambda>(wkc, psize, p, c). do {
     let bytesize = 4 - unat (drop_bit 2 (mbx8 m 8) AND 0x03);
     if psize \<ge> int bytesize then do {
       bs \<leftarrow> mem_read m 12 bytesize;
       p \<leftarrow> mem_write p 0 bs;
       Some (wkc, int bytesize, p, c)
     } else do {
       c \<leftarrow> ecx_packeterror slave idx subidx 3 c;
       Some (0, psize, p, c)
     }
   })"

text \<open>A segment of the answer, put at offset \<open>hp\<close>; the flag says that another follows.\<close>

definition sdo_up_segment :: "u16 \<Rightarrow> u16 \<Rightarrow> u8 \<Rightarrow> ec_mbxbuf \<Rightarrow> nat \<Rightarrow> sdo_result \<Rightarrow> ((nat \<times> sdo_result) \<times> bool) option" where
  "sdo_up_segment slave idx subidx m hp = (\<lambda>(wkc, psize, p, c).
     if coe_service ECT_COES_SDORES m \<and> mbx8 m 8 AND 0xe0 = 0x00 then do {
       let Framedatasize = mbx16 m 0 - 3;
       if mbx8 m 8 AND 0x01 > 0 then do {
         let Framedatasize = (if Framedatasize = 7 then Framedatasize - ucast (drop_bit 1 (mbx8 m 8 AND 0x0e)) else Framedatasize);
         bs \<leftarrow> mem_read m 9 (unat Framedatasize);
         p \<leftarrow> mem_write p hp bs;
         Some ((hp, wkc, psize + int (unat Framedatasize), p, c), False)
       } else do {
         bs \<leftarrow> mem_read m 9 (unat Framedatasize);
         p \<leftarrow> mem_write p hp bs;
         Some ((hp + unat Framedatasize, wkc, psize + int (unat Framedatasize), p, c), True)
       }
     } else do {
       c \<leftarrow> sdo_unexpected slave idx subidx m c;
       Some ((hp, 0, psize, p, c), False)
     })"

type_synonym sdo_up_state = "u8 \<times> nat \<times> ec_mbxbuf \<times> ec_mbxbuf \<times> sdo_result"

definition sdo_up_body :: "u16 \<Rightarrow> u16 \<Rightarrow> u8 \<Rightarrow> int \<Rightarrow> sdo_up_state \<Rightarrow> (sdo_up_state \<times> bool) option" where
  "sdo_up_body slave idx subidx timeout = (\<lambda>(toggle, hp, MbxIn, MbxOut, wkc, psize, p, c). do {
     (cnt, c) \<leftarrow> mbx_session slave c;
     let MbxOut = put_bytes 0 (sdo_request 0x000a cnt (ECT_SDO_SEG_UP_REQ + toggle) idx subidx @ enc32 0) MbxOut;
     (wkc, MbxIn, c) \<leftarrow> mbx_exchange slave MbxOut MbxIn timeout c;
     ((hp, r), NotLast) \<leftarrow>
       (if wkc > 0 then sdo_up_segment slave idx subidx MbxIn hp (wkc, psize, p, c)
        else Some ((hp, wkc, psize, p, c), True));
     Some ((toggle XOR 0x10, hp, MbxIn, MbxOut, r), NotLast)
   })"

definition sdo_normal :: "u16 \<Rightarrow> u16 \<Rightarrow> u8 \<Rightarrow> int \<Rightarrow> ec_mbxbuf \<Rightarrow> ec_mbxbuf \<Rightarrow> sdo_result \<Rightarrow> sdo_result option" where
  "sdo_normal slave idx subidx timeout MbxIn MbxOut = (\<lambda>(wkc, psize, p, c). do {
     let SDOlen = sint (mbx32 MbxIn 12);
     if SDOlen \<le> psize then do {
       let Framedatasize = mbx16 MbxIn 0 - 10;
       if int (unat Framedatasize) < SDOlen then do {
         bs \<leftarrow> mem_read MbxIn 16 (unat Framedatasize);
         p \<leftarrow> mem_write p 0 bs;
         (_, _, _, _, r) \<leftarrow> do_while (sdo_up_body slave idx subidx timeout)
           (0, unat Framedatasize, MbxIn, MbxOut, wkc, int (unat Framedatasize), p, c);
         Some r
       } else do {
         chk (0 \<le> SDOlen);
         bs \<leftarrow> mem_read MbxIn 16 (nat SDOlen);
         p \<leftarrow> mem_write p 0 bs;
         Some (wkc, SDOlen, p, c)
       }
     } else do {
       c \<leftarrow> ecx_packeterror slave idx subidx 3 c;
       Some (0, psize, p, c)
     }
   })"

text \<open>The answer to a request to read.\<close>

definition sdo_up_answer :: "u16 \<Rightarrow> u16 \<Rightarrow> u8 \<Rightarrow> int \<Rightarrow> ec_mbxbuf \<Rightarrow> ec_mbxbuf \<Rightarrow> sdo_result \<Rightarrow> sdo_result option" where
  "sdo_up_answer slave idx subidx timeout MbxIn MbxOut = (\<lambda>(wkc, psize, p, c).
     if coe_service ECT_COES_SDORES MbxIn \<and> mbx16 MbxIn 9 = idx then
       if mbx8 MbxIn 8 AND 0x02 > 0 then sdo_expedited slave idx subidx MbxIn (wkc, psize, p, c)
       else sdo_normal slave idx subidx timeout MbxIn MbxOut (wkc, psize, p, c)
     else do {
       c \<leftarrow> sdo_unexpected slave idx subidx MbxIn c;
       Some (0, psize, p, c)
     })"

definition ecx_SDOread :: "u16 \<Rightarrow> u16 \<Rightarrow> u8 \<Rightarrow> bool \<Rightarrow> int \<Rightarrow> u8 list \<Rightarrow> int \<Rightarrow> ecx_context \<Rightarrow> sdo_result option" where
  "ecx_SDOread slave idx subidx CA psize p timeout c = do {
     (MbxIn, c) \<leftarrow> mbx_flush slave c;
     (cnt, c) \<leftarrow> mbx_session slave c;
     let subidx = (if CA \<and> subidx > 1 then 1 else subidx);
     let MbxOut = put_bytes 0 (sdo_request 0x000a cnt (if CA then ECT_SDO_UP_REQ_CA else ECT_SDO_UP_REQ) idx subidx @ enc32 0) new_mbx;
     (wkc, MbxIn, c) \<leftarrow> mbx_exchange slave MbxOut MbxIn timeout c;
     if wkc > 0 then sdo_up_answer slave idx subidx timeout MbxIn MbxOut (wkc, psize, p, c)
     else Some (wkc, psize, p, c)
   }"

section \<open>Writing an object\<close>

text \<open>The answer to a download request; the result is 0 when it is not the expected one.\<close>

definition sdo_down_answer :: "u16 \<Rightarrow> u16 \<Rightarrow> u8 \<Rightarrow> bool \<Rightarrow> ec_mbxbuf \<Rightarrow> int \<Rightarrow> ecx_context \<Rightarrow> (int \<times> ecx_context) option" where
  "sdo_down_answer slave idx subidx good m wkc c =
     (if good then Some (wkc, c) else do { c \<leftarrow> sdo_unexpected slave idx subidx m c; Some (0, c) })"

definition sdo_down_exp :: "u16 \<Rightarrow> u16 \<Rightarrow> u8 \<Rightarrow> int \<Rightarrow> u8 list \<Rightarrow> int \<Rightarrow> ec_mbxbuf \<Rightarrow> ecx_context \<Rightarrow> (int \<times> ecx_context) option" where
  "sdo_down_exp slave idx subidx psize p timeout MbxIn c = do {
     (cnt, c) \<leftarrow> mbx_session slave c;
     chk (0 \<le> psize);
     bs \<leftarrow> mem_read p 0 (nat psize);
     let cmd = ECT_SDO_DOWN_EXP OR (word_of_int ((4 - psize) * 4) AND 0x0c);
     let MbxOut = put_bytes 0 (sdo_request 0x000a cnt cmd idx subidx @ bs) new_mbx;
     (wkc, MbxIn, c) \<leftarrow> mbx_exchange slave MbxOut MbxIn timeout c;
     if wkc > 0 then
       sdo_down_answer slave idx subidx (coe_service ECT_COES_SDORES MbxIn \<and> mbx16 MbxIn 9 = idx \<and> mbx8 MbxIn 11 = subidx) MbxIn wkc c
     else Some (wkc, c)
   }"

text \<open>Length field, command and size of the next segment of a download of \<open>psize\<close> bytes.\<close>

definition sdo_down_segment :: "int \<Rightarrow> int \<Rightarrow> u16 \<times> u8 \<times> int \<times> bool" where
  "sdo_down_segment maxdata psize =
     (let NotLast = psize > maxdata;
          framedatasize = (if NotLast then maxdata else psize)
      in if \<not> NotLast \<and> framedatasize < 7
         then (0x0a, word_of_int (0x01 + (7 - framedatasize) * 2), framedatasize, NotLast)
         else (word_of_int (framedatasize + 3), if NotLast then 0x00 else 0x01, framedatasize, NotLast))"

type_synonym sdo_down_state = "bool \<times> u8 \<times> nat \<times> int \<times> int \<times> ec_mbxbuf \<times> ec_mbxbuf \<times> ecx_context"

definition sdo_down_body :: "u16 \<Rightarrow> u16 \<Rightarrow> u8 \<Rightarrow> int \<Rightarrow> u8 list \<Rightarrow> int \<Rightarrow> sdo_down_state \<Rightarrow> sdo_down_state option" where
  "sdo_down_body slave idx subidx maxdata p timeout = (\<lambda>(_, toggle, hp, psize, _, MbxIn, MbxOut, c). do {
     let (len, cmd, framedatasize, NotLast) = sdo_down_segment maxdata psize;
     (cnt, c) \<leftarrow> mbx_session slave c;
     let MbxOut = put_bytes 0 (coe_head len cnt (push_bit 12 ECT_COES_SDOREQ) @ [cmd + toggle]) MbxOut;
     chk (0 \<le> framedatasize);
     bs \<leftarrow> mem_read p hp (nat framedatasize);
     MbxOut \<leftarrow> mem_write MbxOut 9 bs;
     (wkc, MbxIn, c) \<leftarrow> mbx_exchange slave MbxOut MbxIn timeout c;
     let good = (coe_service ECT_COES_SDORES MbxIn \<and> mbx8 MbxIn 8 AND 0xe0 = 0x20);
     (wkc', c) \<leftarrow> (if wkc > 0 then sdo_down_answer slave idx subidx good MbxIn wkc c else Some (wkc, c));
     Some (NotLast \<and> \<not> (wkc > 0 \<and> \<not> good), toggle XOR 0x10, hp + nat framedatasize, psize - framedatasize, wkc', MbxIn, MbxOut, c)
   })"

definition sdo_down_normal :: "u16 \<Rightarrow> u16 \<Rightarrow> u8 \<Rightarrow> bool \<Rightarrow> int \<Rightarrow> int \<Rightarrow> u8 list \<Rightarrow> int \<Rightarrow> ec_mbxbuf \<Rightarrow> ecx_context \<Rightarrow> (int \<times> ecx_context) option" where
  "sdo_down_normal slave idx subidx CA maxdata psize p timeout MbxIn c = do {
     let NotLast = psize > maxdata;
     let framedatasize = (if NotLast then maxdata else psize);
     (cnt, c) \<leftarrow> mbx_session slave c;
     let sub = (if CA \<and> subidx > 1 then 1 else subidx);
     let MbxOut = put_bytes 0 (sdo_request (word_of_int (0x0a + framedatasize)) cnt (if CA then ECT_SDO_DOWN_INIT_CA else ECT_SDO_DOWN_INIT)
       idx sub @ enc32 (word_of_int psize)) new_mbx;
     chk (0 \<le> framedatasize);
     bs \<leftarrow> mem_read p 0 (nat framedatasize);
     MbxOut \<leftarrow> mem_write MbxOut 16 bs;
     (wkc, MbxIn, c) \<leftarrow> mbx_exchange slave MbxOut MbxIn timeout c;
     if wkc > 0 then
       if coe_service ECT_COES_SDORES MbxIn \<and> mbx16 MbxIn 9 = idx \<and> mbx8 MbxIn 11 = sub then do {
         (_, _, _, _, wkc, _, _, c) \<leftarrow> while_loop (\<lambda>(NotLast, _). NotLast) (sdo_down_body slave idx subidx (maxdata + 7) p timeout)
           (NotLast, 0, nat framedatasize, psize - framedatasize, wkc, MbxIn, MbxOut, c);
         Some (wkc, c)
       } else sdo_down_answer slave idx subidx False MbxIn wkc c
     else Some (wkc, c)
   }"

definition ecx_SDOwrite :: "u16 \<Rightarrow> u16 \<Rightarrow> u8 \<Rightarrow> bool \<Rightarrow> int \<Rightarrow> u8 list \<Rightarrow> int \<Rightarrow> ecx_context \<Rightarrow> (int \<times> ecx_context) option" where
  "ecx_SDOwrite slave idx subidx CA psize p timeout c = do {
     (MbxIn, c) \<leftarrow> mbx_flush slave c;
     s \<leftarrow> get_slave slave c;
     let maxdata = int (unat (s_mbx_l s)) - 0x10;
     if psize \<le> 4 \<and> \<not> CA then sdo_down_exp slave idx subidx psize p timeout MbxIn c
     else sdo_down_normal slave idx subidx CA maxdata psize p timeout MbxIn c
   }"

section \<open>PDO services\<close>

definition ecx_RxPDO :: "u16 \<Rightarrow> u16 \<Rightarrow> int \<Rightarrow> u8 list \<Rightarrow> ecx_context \<Rightarrow> (int \<times> ecx_context) option" where
  "ecx_RxPDO slave RxPDOnumber psize p c = do {
     (_, c) \<leftarrow> mbx_flush slave c;
     s \<leftarrow> get_slave slave c;
     let maxdata = int (unat (s_mbx_l s)) - 0x08;
     let framedatasize = (if psize > maxdata then maxdata else psize);
     (cnt, c) \<leftarrow> mbx_session slave c;
     let MbxOut = put_bytes 0 (coe_head (word_of_int (0x02 + framedatasize)) cnt
       ((RxPDOnumber AND 0x01ff) + push_bit 12 ECT_COES_RXPDO)) new_mbx;
     chk (0 \<le> framedatasize);
     bs \<leftarrow> mem_read p 0 (nat framedatasize);
     MbxOut \<leftarrow> mem_write MbxOut 8 bs;
     ecx_mbxsend slave MbxOut EC_TIMEOUTTXM c
   }"

definition ecx_TxPDO :: "u16 \<Rightarrow> u16 \<Rightarrow> int \<Rightarrow> u8 list \<Rightarrow> int \<Rightarrow> ecx_context \<Rightarrow> sdo_result option" where
  "ecx_TxPDO slave TxPDOnumber psize p timeout c = do {
     (MbxIn, c) \<leftarrow> mbx_flush slave c;
     (cnt, c) \<leftarrow> mbx_session slave c;
     let MbxOut = put_bytes 0 (coe_head 0x02 cnt ((TxPDOnumber AND 0x01ff) + push_bit 12 ECT_COES_TXPDO_RR)) new_mbx;
     (wkc, MbxIn, c) \<leftarrow> mbx_exchange slave MbxOut MbxIn timeout c;
     if wkc > 0 then
       if coe_service ECT_COES_TXPDO MbxIn then do {
         let framedatasize = mbx16 MbxIn 0 - 2;
         if psize \<ge> int (unat framedatasize) then do {
           bs \<leftarrow> mem_read MbxIn 8 (unat framedatasize);
           p \<leftarrow> mem_write p 0 bs;
           Some (wkc, int (unat framedatasize), p, c)
         } else do {
           c \<leftarrow> ecx_packeterror slave 0 0 3 c;
           Some (0, psize, p, c)
         }
       } else do {
         c \<leftarrow> sdo_unexpected slave 0 0 MbxIn c;
         Some (0, psize, p, c)
       }
     else Some (wkc, psize, p, c)
   }"

end
