(* ===== verification/CoeInfo.thy ===== *)
theory CoeInfo
  imports Coe "HOL-Library.Signed_Division"
begin

text \<open>
  The object dictionary of a slave, \<^verbatim>\<open>soem/ethercatcoe.c\<close>: the SDO information service (the list
  of objects and their descriptions) and the PDO mapping, read object by object or with complete
  access.
\<close>

section \<open>The information service\<close>

abbreviation ECT_GET_ODLIST_REQ :: u8 where "ECT_GET_ODLIST_REQ \<equiv> 0x01"
abbreviation ECT_GET_ODLIST_RES :: u8 where "ECT_GET_ODLIST_RES \<equiv> 0x02"
abbreviation ECT_GET_OD_REQ :: u8 where "ECT_GET_OD_REQ \<equiv> 0x03"
abbreviation ECT_GET_OD_RES :: u8 where "ECT_GET_OD_RES \<equiv> 0x04"
abbreviation ECT_GET_OE_REQ :: u8 where "ECT_GET_OE_REQ \<equiv> 0x05"
abbreviation ECT_GET_OE_RES :: u8 where "ECT_GET_OE_RES \<equiv> 0x06"
abbreviation ECT_SDOINFO_ERROR :: u8 where "ECT_SDOINFO_ERROR \<equiv> 0x07"
abbreviation EC_MAXODLIST :: nat where "EC_MAXODLIST \<equiv> 1024"
abbreviation EC_MAXOELIST :: nat where "EC_MAXOELIST \<equiv> 256"

record ec_ODlist =
  od_Slave :: u16
  od_Entries :: u16
  od_Index :: "u16 list"
  od_DataType :: "u16 list"
  od_ObjectCode :: "u8 list"
  od_MaxSub :: "u8 list"
  od_Name :: "u8 list list"

record ec_OElist =
  oe_Entries :: u16
  oe_ValueInfo :: "u8 list"
  oe_DataType :: "u16 list"
  oe_BitLength :: "u16 list"
  oe_ObjAccess :: "u16 list"
  oe_Name :: "u8 list list"

text \<open>Opcode at byte 8, a reserved byte, the fragments left at 10 and the data from 12 on.\<close>

definition sdoinfo_request :: "u16 \<Rightarrow> u8 \<Rightarrow> u8 \<Rightarrow> u8 list \<Rightarrow> ec_mbxbuf" where
  "sdoinfo_request len cnt opcode bs =
     put_bytes 0 (coe_head len cnt (push_bit 12 ECT_COES_SDOINFO) @ [opcode, 0] @ enc16 0 @ bs) new_mbx"

definition sdoinfo_answer :: "u8 \<Rightarrow> ec_mbxbuf \<Rightarrow> bool" where
  "sdoinfo_answer opcode m \<longleftrightarrow> mbx_kind m = ECT_MBXT_COE \<and> mbx8 m 8 AND 0x7f = opcode"

definition sdoinfo_unexpected :: "u16 \<Rightarrow> u16 \<Rightarrow> u8 \<Rightarrow> ec_mbxbuf \<Rightarrow> ecx_context \<Rightarrow> ecx_context option" where
  "sdoinfo_unexpected slave idx subidx m c =
     (if mbx8 m 8 AND 0x7f = ECT_SDOINFO_ERROR then ecx_SDOinfoerror slave idx subidx (mbx32 m 12) c
      else ecx_packeterror slave idx subidx 1 c)"

text \<open>Flushing the mailbox, counting and sending the request.\<close>

definition sdoinfo_send :: "u16 \<Rightarrow> u16 \<Rightarrow> u8 \<Rightarrow> u8 list \<Rightarrow> ecx_context \<Rightarrow> (int \<times> ec_mbxbuf \<times> ecx_context) option" where
  "sdoinfo_send slave len opcode bs c = do {
     (MbxIn, c) \<leftarrow> mbx_flush slave c;
     (cnt, c) \<leftarrow> mbx_session slave c;
     (wkc, c) \<leftarrow> ecx_mbxsend slave (sdoinfo_request len cnt opcode bs) EC_TIMEOUTTXM c;
     Some (wkc, MbxIn, c)
   }"

text \<open>The words of an answer, from word \<open>i\<close> of its data; leaving the buffer is a fault.\<close>

definition mbx_words :: "ec_mbxbuf \<Rightarrow> nat \<Rightarrow> nat \<Rightarrow> u16 list option" where
  "mbx_words m i n = do {
     chk (n = 0 \<or> 12 + 2 * (i + n) \<le> length m);
     Some (map (\<lambda>k. mbx16 m (12 + 2 * (i + k))) [0..<n])
   }"

definition list_write :: "'a list \<Rightarrow> nat \<Rightarrow> 'a list \<Rightarrow> 'a list option" where
  "list_write xs i ys = do { chk (ys = [] \<or> i + length ys \<le> length xs); Some (take i xs @ ys @ drop (i + length ys) xs) }"

text \<open>One fragment of the list of objects, put behind the \<open>sp\<close> entries that are there.\<close>

definition odlist_fragment :: "u16 \<Rightarrow> ec_mbxbuf \<Rightarrow> bool \<Rightarrow> u16 \<Rightarrow> ec_ODlist \<Rightarrow> ecx_context \<Rightarrow> (u16 \<times> ec_ODlist \<times> ecx_context) option" where
  "odlist_fragment slave m First sp od c = do {
     let n = (word_of_int ((int (unat (mbx16 m 0)) - (if First then 8 else 6)) sdiv 2) :: u16);
     (n, c) \<leftarrow> (if unat sp + unat n > EC_MAXODLIST then do {
         c \<leftarrow> ecx_SDOinfoerror slave 0 0 0xf000000 c;
         Some (of_nat (EC_MAXODLIST + 1) - sp, c)
       } else Some (n, c));
     let n = (if unat (od_Entries od) + unat n > EC_MAXODLIST then of_nat EC_MAXODLIST - od_Entries od else n);
     ws \<leftarrow> mbx_words m (if First then 1 else 0) (unat n);
     ix \<leftarrow> list_write (od_Index od) (unat sp) ws;
     Some (sp + n, od\<lparr>od_Entries := od_Entries od + n, od_Index := ix\<rparr>, c)
   }"

type_synonym odlist_state = "u16 \<times> u16 \<times> bool \<times> int \<times> ec_mbxbuf \<times> ec_ODlist \<times> ecx_context"

definition odlist_body :: "u16 \<Rightarrow> odlist_state \<Rightarrow> (odlist_state \<times> bool) option" where
  "odlist_body slave = (\<lambda>(x, sp, First, _, MbxIn, od, c). do {
     (wkc, MbxIn, c) \<leftarrow> ecx_mbxreceive slave (ec_clearmbx MbxIn) EC_TIMEOUTRXM c;
     if wkc > 0 then
       if sdoinfo_answer ECT_GET_ODLIST_RES MbxIn then do {
         (sp, od, c) \<leftarrow> odlist_fragment slave MbxIn First sp od c;
         let stop = \<not> mbx16 MbxIn 10 > 0;
         let x = x + 1;
         Some ((x, sp, False, wkc, MbxIn, od, c), x \<le> 128 \<and> \<not> stop)
       } else do {
         c \<leftarrow> sdoinfo_unexpected slave 0 0 MbxIn c;
         Some ((x + 20 + 1, sp, First, 0, MbxIn, od, c), False)
       }
     else Some ((x + 1, sp, First, wkc, MbxIn, od, c), False)
   })"

definition ecx_readODlist :: "u16 \<Rightarrow> ec_ODlist \<Rightarrow> ecx_context \<Rightarrow> (int \<times> ec_ODlist \<times> ecx_context) option" where
  "ecx_readODlist slave od c = do {
     let od = od\<lparr>od_Slave := slave, od_Entries := 0\<rparr>;
     (wkc, MbxIn, c) \<leftarrow> sdoinfo_send slave 0x0008 ECT_GET_ODLIST_REQ (enc16 0x01) c;
     if wkc > 0 then do {
       (_, _, _, wkc, _, od, c) \<leftarrow> do_while (odlist_body slave) (0, 0, True, wkc, MbxIn, od, c);
       Some (wkc, od, c)
     } else Some (wkc, od, c)
   }"

definition set_name :: "nat \<Rightarrow> u8 list \<Rightarrow> u8 list \<Rightarrow> u8 list" where
  "set_name n src name = (put_bytes 0 (strncpy n src) name)[n := 0]"

definition ecx_readODdescription :: "u16 \<Rightarrow> ec_ODlist \<Rightarrow> ecx_context \<Rightarrow> (int \<times> ec_ODlist \<times> ecx_context) option" where
  "ecx_readODdescription Item od c = do {
     let slave = od_Slave od;
     let i = unat Item;
     dt \<leftarrow> arr_set (od_DataType od) i 0;
     oc \<leftarrow> arr_set (od_ObjectCode od) i 0;
     ms \<leftarrow> arr_set (od_MaxSub od) i 0;
     name \<leftarrow> arr_get (od_Name od) i;
     let od = od\<lparr>od_DataType := dt, od_ObjectCode := oc, od_MaxSub := ms, od_Name := (od_Name od)[i := name[0 := 0]]\<rparr>;
     idx \<leftarrow> arr_get (od_Index od) i;
     (wkc, MbxIn, c) \<leftarrow> sdoinfo_send slave 0x0008 ECT_GET_OD_REQ (enc16 idx) c;
     if wkc > 0 then do {
       (wkc, MbxIn, c) \<leftarrow> ecx_mbxreceive slave (ec_clearmbx MbxIn) EC_TIMEOUTRXM c;
       if wkc > 0 then
         if sdoinfo_answer ECT_GET_OD_RES MbxIn then do {
           let n = mbx16 MbxIn 0 - 12;
           let n = (if unat n > EC_MAXNAME then EC_MAXNAME else unat n);
           Some (wkc, od\<lparr>od_DataType := (od_DataType od)[i := mbx16 MbxIn 14], od_ObjectCode := (od_ObjectCode od)[i := mbx8 MbxIn 17],
             od_MaxSub := (od_MaxSub od)[i := mbx8 MbxIn 16],
             od_Name := (od_Name od)[i := set_name n (drop 18 MbxIn) (od_Name od ! i)]\<rparr>, c)
         } else do {
           c \<leftarrow> sdoinfo_unexpected slave idx 0 MbxIn c;
           Some (0, od, c)
         }
       else Some (wkc, od, c)
     } else Some (wkc, od, c)
   }"

definition ecx_readOEsingle :: "u16 \<Rightarrow> u8 \<Rightarrow> ec_ODlist \<Rightarrow> ec_OElist \<Rightarrow> ecx_context \<Rightarrow> (int \<times> ec_OElist \<times> ecx_context) option" where
  "ecx_readOEsingle Item SubI od oe c = do {
     let slave = od_Slave od;
     idx \<leftarrow> arr_get (od_Index od) (unat Item);
     (wkc, MbxIn, c) \<leftarrow> sdoinfo_send slave 0x000a ECT_GET_OE_REQ (enc16 idx @ [SubI, 1 + 2 + 4]) c;
     if wkc > 0 then do {
       (wkc, MbxIn, c) \<leftarrow> ecx_mbxreceive slave (ec_clearmbx MbxIn) EC_TIMEOUTRXM c;
       if wkc > 0 then
         if sdoinfo_answer ECT_GET_OE_RES MbxIn then do {
           let n = sint (mbx16 MbxIn 0 - 16);
           let n = (if n > int EC_MAXNAME then int EC_MAXNAME else n);
           let n = nat (if n < 0 then 0 else n);
           let s = unat SubI;
           vi \<leftarrow> arr_set (oe_ValueInfo oe) s (mbx8 MbxIn 15);
           dt \<leftarrow> arr_set (oe_DataType oe) s (mbx16 MbxIn 16);
           bl \<leftarrow> arr_set (oe_BitLength oe) s (mbx16 MbxIn 18);
           oa \<leftarrow> arr_set (oe_ObjAccess oe) s (mbx16 MbxIn 20);
           name \<leftarrow> arr_get (oe_Name oe) s;
           Some (wkc, \<lparr>oe_Entries = oe_Entries oe + 1, oe_ValueInfo = vi, oe_DataType = dt, oe_BitLength = bl, oe_ObjAccess = oa,
             oe_Name = (oe_Name oe)[s := set_name n (drop 22 MbxIn) name]\<rparr>, c)
         } else do {
           c \<leftarrow> sdoinfo_unexpected slave idx SubI MbxIn c;
           Some (0, oe, c)
         }
       else Some (wkc, oe, c)
     } else Some (wkc, oe, c)
   }"

definition ecx_readOE :: "u16 \<Rightarrow> ec_ODlist \<Rightarrow> ec_OElist \<Rightarrow> ecx_context \<Rightarrow> (int \<times> ec_OElist \<times> ecx_context) option" where
  "ecx_readOE Item od oe c = do {
     SubI \<leftarrow> arr_get (od_MaxSub od) (unat Item);
     for_u16 0 (ucast SubI) (\<lambda>SubCount (_, oe, c). ecx_readOEsingle Item (ucast SubCount) od oe c) (0, oe\<lparr>oe_Entries := 0\<rparr>, c)
   }"

section \<open>The PDO mapping, object by object\<close>

abbreviation ECT_SDO_SMCOMMTYPE :: u16 where "ECT_SDO_SMCOMMTYPE \<equiv> 0x1c00"
abbreviation ECT_SDO_PDOASSIGN :: u16 where "ECT_SDO_PDOASSIGN \<equiv> 0x1c10"

text \<open>Reading a single object into a variable of the size of \<open>init\<close>.\<close>

definition sdo_var :: "u16 \<Rightarrow> u16 \<Rightarrow> u8 \<Rightarrow> u8 list \<Rightarrow> ecx_context \<Rightarrow> (int \<times> u8 list \<times> ecx_context) option" where
  "sdo_var slave idx subidx init c = do {
     (wkc, _, b, c) \<leftarrow> ecx_SDOread slave idx subidx False (int (length init)) init EC_TIMEOUTRXM c;
     Some (wkc, b, c)
   }"

definition pdo_entry_size :: "u16 \<Rightarrow> u16 \<Rightarrow> u16 \<Rightarrow> u32 \<times> ecx_context \<Rightarrow> (u32 \<times> ecx_context) option" where
  "pdo_entry_size slave idx subidxloop = (\<lambda>(bsize, c). do {
     (_, b, c) \<leftarrow> sdo_var slave idx (ucast subidxloop) (enc32 0) c;
     let rdat2 = dec32 b;
     Some (bsize + (if rdat2 AND 0xff < 0xff then rdat2 AND 0xff else 0xff), c)
   })"

definition pdo_size :: "u16 \<Rightarrow> u16 \<Rightarrow> u16 \<Rightarrow> u32 \<times> ecx_context \<Rightarrow> (u32 \<times> ecx_context) option" where
  "pdo_size slave assign idxloop = (\<lambda>(bsize, c). do {
     (_, b, c) \<leftarrow> sdo_var slave assign (ucast idxloop) (enc16 0) c;
     let idx = dec16 b;
     if idx > 0 then do {
       (_, b, c) \<leftarrow> sdo_var slave idx 0x00 [0] c;
       for_u16 1 (ucast (b ! 0)) (pdo_entry_size slave idx) (bsize, c)
     } else Some (bsize, c)
   })"

definition ecx_readPDOassign :: "u16 \<Rightarrow> u16 \<Rightarrow> ecx_context \<Rightarrow> (u32 \<times> ecx_context) option" where
  "ecx_readPDOassign slave assign c = do {
     (wkc, b, c) \<leftarrow> sdo_var slave assign 0x00 (enc16 0) c;
     let rdat = dec16 b;
     if wkc > 0 \<and> rdat > 0 then for_u16 1 rdat (pdo_size slave assign) (0, c)
     else Some (0, c)
   }"

text \<open>
  The answers for the types of the sync managers, with the corrections for slaves that count them
  from 0; \<open>bug\<close> is what was to be added after sync manager 2 had announced a mailbox.
\<close>

definition sm_type_fix :: "bool \<Rightarrow> u8 \<Rightarrow> u8 \<Rightarrow> u8 \<Rightarrow> u8 \<times> u8" where
  "sm_type_fix unused iSM tSM bug =
     (let bug = (if iSM = 2 \<and> tSM = 2 then 1 else bug);
          tSM = (if tSM \<noteq> 0 then tSM + bug else tSM);
          tSM = (if unused \<and> iSM = 2 \<and> tSM = 0 then 3 else tSM);
          tSM = (if unused \<and> iSM = 3 \<and> tSM = 0 then 4 else tSM)
      in (tSM, bug))"

abbreviation EC_SMENABLEMASK :: u32 where "EC_SMENABLEMASK \<equiv> 0xfffeffff"

definition upd_SM :: "nat \<Rightarrow> (ec_sm \<Rightarrow> ec_sm) \<Rightarrow> ec_slave \<Rightarrow> ec_slave" where
  "upd_SM i f s = s\<lparr>s_SM := (s_SM s)[i := f (s_SM s ! i)]\<rparr>"

text \<open>Output and input size, and the correction.\<close>

type_synonym pdo_map = "u32 \<times> u32 \<times> u8 \<times> ecx_context"

text \<open>Sync manager \<open>iSM\<close> has type \<open>tSM\<close>: its size is what \<open>assign\<close> finds for it.\<close>

definition sm_mapped :: "(u16 \<Rightarrow> ecx_context \<Rightarrow> (u32 \<times> ecx_context) option) \<Rightarrow> u16 \<Rightarrow> u8 \<Rightarrow> u8 \<Rightarrow> pdo_map \<Rightarrow> pdo_map option" where
  "sm_mapped assign slave iSM tSM = (\<lambda>(Osize, Isize, bug, c). do {
     chk (unat iSM < EC_MAXSM);
     c \<leftarrow> upd_slave slave (\<lambda>s. s\<lparr>s_SMtype := (s_SMtype s)[unat iSM := tSM]\<rparr>) c;
     c \<leftarrow> (if tSM = 0 then upd_slave slave (upd_SM (unat iSM) (\<lambda>m. m\<lparr>SMflags := SMflags m AND EC_SMENABLEMASK\<rparr>)) c else Some c);
     if tSM = 3 \<or> tSM = 4 then do {
       (Tsize, c) \<leftarrow> assign (ECT_SDO_PDOASSIGN + ucast iSM) c;
       if Tsize \<noteq> 0 then do {
         c \<leftarrow> upd_slave slave (upd_SM (unat iSM) (\<lambda>m. m\<lparr>SMlength := ucast ((Tsize + 7) div 8)\<rparr>)) c;
         if tSM = 3 then Some (Osize + Tsize, Isize, bug, c) else Some (Osize, Isize + Tsize, bug, c)
       } else Some (Osize, Isize, bug, c)
     } else Some (Osize, Isize, bug, c)
   })"

definition readPDOmap_body :: "u16 \<Rightarrow> nat \<Rightarrow> pdo_map \<Rightarrow> pdo_map option" where
  "readPDOmap_body slave i = (\<lambda>(Osize, Isize, bug, c). do {
     let iSM = of_nat i;
     (wkc, b, c) \<leftarrow> sdo_var slave ECT_SDO_SMCOMMTYPE (iSM + 1) [0] c;
     if wkc > 0 then do {
       let (tSM, bug) = sm_type_fix True iSM (b ! 0) bug;
       sm_mapped (ecx_readPDOassign slave) slave iSM tSM (Osize, Isize, bug, c)
     } else Some (Osize, Isize, bug, c)
   })"

text \<open>The result with the sizes of outputs and inputs in bits.\<close>

definition ecx_readPDOmap :: "u16 \<Rightarrow> ecx_context \<Rightarrow> (int \<times> u32 \<times> u32 \<times> ecx_context) option" where
  "ecx_readPDOmap slave c = do {
     (wkc, b, c) \<leftarrow> sdo_var slave ECT_SDO_SMCOMMTYPE 0x00 [0] c;
     let nSM = b ! 0;
     (Osize, Isize, _, c) \<leftarrow>
       (if wkc > 0 \<and> nSM > 2 then
          let nSM = (if unat nSM > EC_MAXSM then EC_MAXSM else unat nSM)
          in for_loop (nSM - 2) 2 (readPDOmap_body slave) (0, 0, 0, c)
        else Some (0, 0, 0, c));
     Some (if Isize > 0 \<or> Osize > 0 then 1 else 0, Osize, Isize, c)
   }"

section \<open>The PDO mapping with complete access\<close>

text \<open>The packed structures that complete access fills; there is one of each (\<^verbatim>\<open>EC_MAX_MAPT\<close>).\<close>

definition enc_SMcommtype :: "ec_SMcommtype \<Rightarrow> u8 list" where
  "enc_SMcommtype s = [smc_n s, smc_nu1 s] @ smc_SMtype s"

definition dec_SMcommtype :: "u8 list \<Rightarrow> ec_SMcommtype" where
  "dec_SMcommtype b = \<lparr>smc_n = b ! 0, smc_nu1 = b ! 1, smc_SMtype = drop 2 b\<rparr>"

definition enc_PDOassign :: "ec_PDOassign \<Rightarrow> u8 list" where
  "enc_PDOassign s = [pa_n s, pa_nu1 s] @ concat (map enc16 (pa_index s))"

definition dec_PDOassign :: "u8 list \<Rightarrow> ec_PDOassign" where
  "dec_PDOassign b = \<lparr>pa_n = b ! 0, pa_nu1 = b ! 1, pa_index = map (\<lambda>i. get16 (list_buf b) (2 + 2 * i)) [0..<256]\<rparr>"

definition enc_PDOdesc :: "ec_PDOdesc \<Rightarrow> u8 list" where
  "enc_PDOdesc s = [pd_n s, pd_nu1 s] @ concat (map enc32 (pd_PDO s))"

definition dec_PDOdesc :: "u8 list \<Rightarrow> ec_PDOdesc" where
  "dec_PDOdesc b = \<lparr>pd_n = b ! 0, pd_nu1 = b ! 1, pd_PDO = map (\<lambda>i. get32 (list_buf b) (2 + 4 * i)) [0..<256]\<rparr>"

definition pdo_sizeCA :: "u16 \<Rightarrow> nat \<Rightarrow> u32 \<times> ecx_context \<Rightarrow> (u32 \<times> ecx_context) option" where
  "pdo_sizeCA slave idxloop = (\<lambda>(bsize, c). do {
     idx \<leftarrow> arr_get (pa_index (PDOassign c)) (idxloop - 1);
     if idx > 0 then do {
       let desc = (PDOdesc c)\<lparr>pd_n := 0\<rparr>;
       (_, _, b, c) \<leftarrow> ecx_SDOread slave idx 0x00 True 1026 (enc_PDOdesc desc) EC_TIMEOUTRXM (c\<lparr>PDOdesc := desc\<rparr>);
       let c = c\<lparr>PDOdesc := dec_PDOdesc b\<rparr>;
       for_loop (unat (pd_n (PDOdesc c))) 1 (\<lambda>subidxloop (bsize, c). do {
         d \<leftarrow> arr_get (pd_PDO (PDOdesc c)) (subidxloop - 1);
         Some (bsize + (d AND 0xff), c)
       }) (bsize, c)
     } else Some (bsize, c)
   })"

definition ecx_readPDOassignCA :: "u16 \<Rightarrow> u16 \<Rightarrow> ecx_context \<Rightarrow> (u32 \<times> ecx_context) option" where
  "ecx_readPDOassignCA slave assign c = do {
     let pa = (PDOassign c)\<lparr>pa_n := 0\<rparr>;
     (wkc, _, b, c) \<leftarrow> ecx_SDOread slave assign 0x00 True 514 (enc_PDOassign pa) EC_TIMEOUTRXM (c\<lparr>PDOassign := pa\<rparr>);
     let c = c\<lparr>PDOassign := dec_PDOassign b\<rparr>;
     if wkc > 0 \<and> pa_n (PDOassign c) > 0 then
       for_loop (unat (pa_n (PDOassign c))) 1 (pdo_sizeCA slave) (0, c)
     else Some (0, c)
   }"

definition readPDOmapCA_body :: "u16 \<Rightarrow> nat \<Rightarrow> pdo_map \<Rightarrow> pdo_map option" where
  "readPDOmapCA_body slave i = (\<lambda>(Osize, Isize, bug, c). do {
     let iSM = of_nat i;
     t \<leftarrow> arr_get (smc_SMtype (SMcommtype c)) i;
     let (tSM, bug) = sm_type_fix False iSM t bug;
     sm_mapped (ecx_readPDOassignCA slave) slave iSM tSM (Osize, Isize, bug, c)
   })"

definition ecx_readPDOmapCA :: "u16 \<Rightarrow> ecx_context \<Rightarrow> (int \<times> u32 \<times> u32 \<times> ecx_context) option" where
  "ecx_readPDOmapCA slave c = do {
     let smc = (SMcommtype c)\<lparr>smc_n := 0\<rparr>;
     (wkc, _, b, c) \<leftarrow> ecx_SDOread slave ECT_SDO_SMCOMMTYPE 0x00 True 10 (enc_SMcommtype smc) EC_TIMEOUTRXM (c\<lparr>SMcommtype := smc\<rparr>);
     let c = c\<lparr>SMcommtype := dec_SMcommtype b\<rparr>;
     (Osize, Isize, _, c) \<leftarrow>
       (if wkc > 0 \<and> smc_n (SMcommtype c) > 2 then do {
          let nSM = unat (smc_n (SMcommtype c));
          (nSM, c) \<leftarrow> (if nSM > EC_MAXSM then do {
              c \<leftarrow> ecx_packeterror slave 0 0 10 c;
              Some (EC_MAXSM, c)
            } else Some (nSM, c));
          for_loop (nSM - 2) 2 (readPDOmapCA_body slave) (0, 0, 0, c)
        } else Some (0, 0, 0, c));
     Some (if Isize > 0 \<or> Osize > 0 then 1 else 0, Osize, Isize, c)
   }"

end
