(* ===== verification/MbxWire.thy ===== *)
theory MbxWire
  imports MbxClient
begin

text \<open>
  Mailboxes on a scripted wire: what sending, receiving and a whole exchange of mailboxes do when
  the frames that come back are known, and on a wire on which nothing comes back.
\<close>

section \<open>A wire that answers\<close>

lemma rests_base: "ctx_inv c \<Longrightarrow> at_rest l fs (port c) \<Longrightarrow> rests c l fs c"
  by (simp add: rests_def talks_refl)

lemma FPRD_into_rests:
  assumes "rests c0 l fs c" "fs 0 = Some (answer (next_idx l) ret w)" "unat len = length ret" "length ret \<le> EC_MAXDATA"
    "unat len \<le> length data" "w \<noteq> 0"
  shows "returns (on_port_buf (ecx_FPRD adp ado len data t) c) (\<lambda>(v, d, c').
    (v = uint w \<and> d = ret @ drop (length ret) data) \<and> rests c0 (next_idx l) (script_tl fs) c')"
proof (rule on_port_buf_rests [OF assms(1)])
  have "at_rest l fs (port c)" using assms(1) by (simp add: rests_def)
  from read_into_at_rest [OF this assms(2-5), of EC_CMD_FPRD adp ado t]
  show "returns (ecx_FPRD adp ado len data t (port c)) (\<lambda>(v, d, q). (v = uint w \<and> d = ret @ drop (length ret) data) \<and>
      port_ok (port c) q \<and> at_rest (next_idx l) (script_tl fs) q)"
    unfolding ecx_FPRD_def by (rule returns_mono) (use assms(6) in auto)
qed

lemma mbxempty_rests:
  assumes "rests c0 l fs c" "fs 0 = Some (answer (next_idx l) [st] w)" "w \<noteq> 0" "st AND 0x08 = 0"
    and "unat slave < length (slavelist c)"
  shows "returns (ecx_mbxempty slave t c) (\<lambda>(r, d). r = 1 \<and> rests c0 (next_idx l) (script_tl fs) d)"
proof -
  let ?c = "snd (ctx_timer_start t c)" and ?t = "fst (ctx_timer_start t c)" and ?a = "s_configadr (slavelist c ! unat slave)"
  have sl: "slavelist ?c = slavelist c" using talks_slavelist [OF ctx_timer_start_talks [OF rests_inv [OF assms(1)]]] .
  obtain d where d: "on_port_buf (ecx_FPRD ?a ECT_REG_SM0STAT 1 [0] EC_TIMEOUTRET) ?c = Some (uint w, [st], d)"
      "rests c0 (next_idx l) (script_tl fs) d"
    using FPRD_into_rests [OF rests_timer [OF assms(1)] assms(2), of 1 "[0]" ?a ECT_REG_SM0STAT EC_TIMEOUTRET] assms(3)
    by (auto simp: returns_iff)
  have "mbxempty_body ?a ?t (0, 0, ?c) = Some ((uint w, st, d), False)"
    using d(1) assms(3,4) uint_pos [of w] by (simp add: mbxempty_body_def)
  then have "do_while (mbxempty_body ?a ?t) (0, 0, ?c) = Some (uint w, st, d)" by (rule do_while_stop)
  with d(2) assms(3-5) uint_pos [of w] sl show ?thesis
    by (simp add: ecx_mbxempty_def case_prod_unfold Let_def get_slave_def arr_get_def)
qed

lemma mbxsend_rests:
  assumes "rests c0 l fs c" "fs 0 = Some (answer (next_idx l) [st] w)" "w \<noteq> 0" "st AND 0x08 = 0"
    and "fs 1 = Some (answer (next_idx (next_idx l)) ret u)" "length ret = unat (s_mbx_l (slavelist c ! unat slave))"
    and "0 < s_mbx_l (slavelist c ! unat slave)" "unat (s_mbx_l (slavelist c ! unat slave)) \<le> EC_MAXMBX"
    and "unat slave < length (slavelist c)" "mbx_fit m"
  shows "returns (ecx_mbxsend slave m t c) (\<lambda>(v, d). v = uint u \<and> rests c0 (next_idx (next_idx l)) (script_tl (script_tl fs)) d)"
proof -
  let ?s = "slavelist c ! unat slave"
  obtain d where d: "ecx_mbxempty slave t c = Some (1, d)" "rests c0 (next_idx l) (script_tl fs) d"
    using mbxempty_rests [OF assms(1-4) assms(9), of t] by (auto simp: returns_iff)
  have "returns (on_port (ecx_FPWR (s_configadr ?s) (s_mbx_wo ?s) (s_mbx_l ?s) m EC_TIMEOUTRET3) d)
      (\<lambda>(v, d'). v = uint u \<and> rests c0 (next_idx (next_idx l)) (script_tl (script_tl fs)) d')"
  proof (rule fp.wr_rests [OF d(2)])
    show "length ret \<le> EC_MAXDATA" using assms(6,8) by linarith
  qed (use assms(5,6,8,10) in \<open>simp_all add: mbx_fit_def\<close>)
  with d(1) assms(7-9) show ?thesis
    by (simp add: ecx_mbxsend_def get_slave_def Let_def arr_get_def)
qed

lemma handle_deliverable:
  assumes "deliverable c slave m" "w > 0"
  shows "mbx_handle slave a timer m w st c = Some (w, st, c)"
  using assms by (auto simp: mbx_handle_def deliverable_def split: option.splits)

lemma mbxreceive_rests:
  assumes "rests c0 l fs c" "fs 0 = Some (answer (next_idx l) (enc16 st) w)" "w \<noteq> 0" "st AND 0x08 \<noteq> 0"
    and "fs 1 = Some (answer (next_idx (next_idx l)) ret u)" "u \<noteq> 0" "length ret = unat (s_mbx_rl (slavelist c ! unat slave))"
    and "0 < s_mbx_rl (slavelist c ! unat slave)" "unat (s_mbx_rl (slavelist c ! unat slave)) \<le> EC_MAXMBX"
    and "unat slave < length (slavelist c)" "mbx_fit m" "deliverable c0 slave (ret @ drop (length ret) m)"
  shows "returns (ecx_mbxreceive slave m t c) (\<lambda>(v, m', d). v = uint u \<and> m' = ret @ drop (length ret) m \<and>
    rests c0 (next_idx (next_idx l)) (script_tl (script_tl fs)) d)"
proof -
  let ?s = "slavelist c ! unat slave" and ?m = "ret @ drop (length ret) m"
  let ?c = "snd (ctx_timer_start t c)" and ?t = "fst (ctx_timer_start t c)"
  obtain d where d: "on_port_buf (ecx_FPRD (s_configadr ?s) ECT_REG_SM1STAT 2 (enc16 0) EC_TIMEOUTRET) ?c = Some (uint w, enc16 st, d)"
      "rests c0 (next_idx l) (script_tl fs) d"
    using FPRD_into_rests [OF rests_timer [OF assms(1)] assms(2), of 2 "enc16 0" "s_configadr ?s" ECT_REG_SM1STAT EC_TIMEOUTRET] assms(3)
    by (auto simp: returns_iff)
  have "mbxavail_body True (s_configadr ?s) ?t (0, 0, ?c) = Some ((uint w, st, d), False)"
    using d(1) assms(3,4) uint_pos [of w] by (simp add: mbxavail_body_def)
  then have avail: "do_while (mbxavail_body True (s_configadr ?s) ?t) (0, 0, ?c) = Some (uint w, st, d)" by (rule do_while_stop)
  have "returns (on_port_buf (ecx_FPRD (s_configadr ?s) (s_mbx_ro ?s) (s_mbx_rl ?s) m EC_TIMEOUTRET) d)
      (\<lambda>(v, b, e). (v = uint u \<and> b = ?m) \<and> rests c0 (next_idx (next_idx l)) (script_tl (script_tl fs)) e)"
  proof (rule FPRD_into_rests [OF d(2)])
    show "length ret \<le> EC_MAXDATA" using assms(7,9) by linarith
  qed (use assms(5,6,7,9,11) in \<open>simp_all add: mbx_fit_def\<close>)
  then obtain e where e: "on_port_buf (ecx_FPRD (s_configadr ?s) (s_mbx_ro ?s) (s_mbx_rl ?s) m EC_TIMEOUTRET) d = Some (uint u, ?m, e)"
      "rests c0 (next_idx (next_idx l)) (script_tl (script_tl fs)) e"
    by (auto simp: returns_iff)
  have "deliverable e slave ?m"
    using assms(12) chats_slavelist [OF talks_chats [OF rests_talks [OF e(2)]]] by (simp add: deliverable_def)
  then have h: "mbx_handle slave (s_configadr ?s) ?t ?m (uint u) st e = Some (uint u, st, e)"
    by (rule handle_deliverable) (use assms(6) uint_pos [of u] in simp)
  have "mbxreceive_body slave ?s ?t (uint w, st, m, d) = Some ((uint u, st, ?m, e), False)"
    using e(1) h assms(6) uint_pos [of u] by (simp add: mbxreceive_body_def)
  then have "do_while (mbxreceive_body slave ?s ?t) (uint w, st, m, d) = Some (uint u, st, ?m, e)" by (rule do_while_stop)
  moreover have "0 < st AND 0x08" using assms(4) by (simp add: word_gt_0)
  ultimately show ?thesis
    using avail e(2) assms(3,8-10) uint_pos [of w]
    by (simp add: ecx_mbxreceive_def get_slave_def Let_def case_prod_unfold arr_get_def)
qed

text \<open>
  The six frames of a request: the output mailbox is full and its content is thrown away, the
  input mailbox is empty and takes the request, the output mailbox is full and holds the answer.
\<close>

definition mbx_frames :: "ec_slave \<Rightarrow> u8 \<Rightarrow> u8 list \<Rightarrow> u8 list \<Rightarrow> u8 list option script \<Rightarrow> bool" where
  "mbx_frames s l stale resp fs \<longleftrightarrow> 0 < s_mbx_l s \<and> unat (s_mbx_l s) \<le> EC_MAXMBX \<and> 0 < s_mbx_rl s \<and> unat (s_mbx_rl s) \<le> EC_MAXMBX \<and>
     length stale = unat (s_mbx_rl s) \<and> length resp = unat (s_mbx_rl s) \<and>
     (\<exists>st r. st AND 0x08 \<noteq> 0 \<and> length r = unat (s_mbx_l s) \<and>
       fs 0 = Some (answer ((next_idx ^^ 1) l) (enc16 st) 1) \<and> fs 1 = Some (answer ((next_idx ^^ 2) l) stale 1) \<and>
       fs 2 = Some (answer ((next_idx ^^ 3) l) [0] 1) \<and> fs 3 = Some (answer ((next_idx ^^ 4) l) r 1) \<and>
       fs 4 = Some (answer ((next_idx ^^ 5) l) (enc16 st) 1) \<and> fs 5 = Some (answer ((next_idx ^^ 6) l) resp 1))"

text \<open>A mailbox of \<open>n\<close> bytes as it lies in the buffer of the master.\<close>

definition in_mbx :: "u8 list \<Rightarrow> ec_mbxbuf" where
  "in_mbx bs = bs @ drop (length bs) new_mbx"

lemma in_mbx_fit: "length bs \<le> EC_MAXMBX \<Longrightarrow> mbx_fit (in_mbx bs)"
  by (simp add: in_mbx_def mbx_fit_def new_mbx_def)

lemma clear_in_mbx: "length bs \<le> EC_MAXMBX \<Longrightarrow> ec_clearmbx (in_mbx bs) = new_mbx"
proof -
  assume "length bs \<le> EC_MAXMBX"
  then have "drop EC_MAXMBX (in_mbx bs) = [0]" by (simp add: in_mbx_def new_mbx_def)
  then have "ec_clearmbx (in_mbx bs) = replicate EC_MAXMBX 0 @ replicate 1 0" by (simp add: ec_clearmbx_def)
  then show ?thesis unfolding new_mbx_def replicate_add [symmetric] .
qed

lemma in_mbx_fields:
  "k < length bs \<Longrightarrow> length bs \<le> EC_MAXMBX \<Longrightarrow> mbx8 (in_mbx bs) k = bs ! k"
  "k + 1 < length bs \<Longrightarrow> length bs \<le> EC_MAXMBX \<Longrightarrow> mbx16 (in_mbx bs) k = mk16 (bs ! k) (bs ! (k + 1))"
  "off + n \<le> length bs \<Longrightarrow> length bs \<le> EC_MAXMBX \<Longrightarrow> mem_read (in_mbx bs) off n = Some (take n (drop off bs))"
  by (simp_all add: mbx8_def mbx16_def get16_def list_buf_def in_mbx_def new_mbx_def nth_append mem_read_def)

lemma session_at_rest: "mbx_session slave c = Some (n, d) \<Longrightarrow> at_rest l fs (port c) \<Longrightarrow> at_rest l fs (port d)"
  by (auto simp: mbx_session_def upd_slave_def get_slave_def Let_def arr_get_def split: if_splits)

lemma request_answered:
  assumes c: "ctx_inv c" "slave_valid c slave" "at_rest l fs (port c)"
    and f: "mbx_frames (slavelist c ! unat slave) l stale resp fs"
    and del: "deliverable c slave (in_mbx stale)" "deliverable c slave (in_mbx resp)"
  obtains c1 cnt c2 where "mbx_flush slave c = Some (in_mbx stale, c1)" "mbx_session slave c1 = Some (cnt, c2)" "asks c c2"
    "\<And>out t. mbx_fit out \<Longrightarrow> \<exists>d. mbx_exchange slave out (in_mbx stale) t c2 = Some (1, in_mbx resp, d) \<and> asks c d \<and>
       at_rest ((next_idx ^^ 6) l) (\<lambda>n. fs (n + 6)) (port d)"
proof -
  let ?s = "slavelist c ! unat slave"
  obtain st r where st: "st AND 0x08 \<noteq> 0" "length r = unat (s_mbx_l ?s)"
      "fs 0 = Some (answer (next_idx l) (enc16 st) 1)" "fs 1 = Some (answer (next_idx (next_idx l)) stale 1)"
      "fs 2 = Some (answer ((next_idx ^^ 3) l) [0] 1)" "fs 3 = Some (answer ((next_idx ^^ 4) l) r 1)"
      "fs 4 = Some (answer ((next_idx ^^ 5) l) (enc16 st) 1)" "fs 5 = Some (answer ((next_idx ^^ 6) l) resp 1)"
    using f by (auto simp: mbx_frames_def numeral_2_eq_2)
  have n: "0 < s_mbx_l ?s" "unat (s_mbx_l ?s) \<le> EC_MAXMBX" "0 < s_mbx_rl ?s" "unat (s_mbx_rl ?s) \<le> EC_MAXMBX"
      "length stale = unat (s_mbx_rl ?s)" "length resp = unat (s_mbx_rl ?s)"
    using f by (simp_all add: mbx_frames_def)
  have v: "unat slave < length (slavelist c)" using c(2) by (simp add: slave_valid_def)
  have tl2: "script_tl (script_tl g) = (\<lambda>k. g (k + 2))" for g :: "u8 list option script" by (simp add: script_tl_def fun_eq_iff)
  have tl: "script_tl (script_tl (\<lambda>k. fs (k + 2))) = (\<lambda>k. fs (k + 4))" "script_tl (script_tl (\<lambda>k. fs (k + 4))) = (\<lambda>k. fs (k + 6))"
    by (simp_all add: script_tl_def fun_eq_iff eval_nat_numeral)
  have one: "(1 :: u16) \<noteq> 0" and zero8: "(0 :: u8) AND 0x08 = 0" by simp_all
  have "returns (ecx_mbxreceive slave new_mbx 0 c) (\<lambda>(v, m', d). v = uint (1 :: u16) \<and> m' = stale @ drop (length stale) new_mbx \<and>
      rests c (next_idx (next_idx l)) (script_tl (script_tl fs)) d)"
    by (rule mbxreceive_rests [OF rests_base [OF c(1,3)] st(3) one st(1) st(4) one n(5) n(3,4) v new_mbx_fit])
      (use del(1) in \<open>simp add: in_mbx_def\<close>)
  then obtain c1 where c1: "mbx_flush slave c = Some (in_mbx stale, c1)" "rests c (next_idx (next_idx l)) (\<lambda>k. fs (k + 2)) c1"
    by (auto simp: mbx_flush_def in_mbx_def returns_iff tl2)
  have sl1: "slavelist c1 = slavelist c" using talks_slavelist [OF rests_talks [OF c1(2)]] .
  have a1: "asks c c1" by (rule chats_asks [OF talks_chats [OF rests_talks [OF c1(2)]]])
  have v1: "slave_valid c1 slave" using c(2) sl1 by (simp add: slave_valid_def)
  obtain cnt c2 where c2: "mbx_session slave c1 = Some (cnt, c2)" "asks c1 c2"
    using session_asks [OF asks_inv [OF a1] v1] by (auto simp: returns_iff)
  have a2: "asks c c2" by (rule asks_trans [OF a1 c2(2)])
  have r2: "rests c2 (next_idx (next_idx l)) (\<lambda>k. fs (k + 2)) c2"
    using session_at_rest [OF c2(1)] c1(2) by (intro rests_base asks_inv [OF a2]) (simp add: rests_def)
  obtain k where k: "slavelist c2 ! unat slave = ?s\<lparr>s_mbx_cnt := k\<rparr>" using asks_slave [OF a2 v] by blast
  have n2: "0 < s_mbx_l (slavelist c2 ! unat slave)" "unat (s_mbx_l (slavelist c2 ! unat slave)) \<le> EC_MAXMBX"
      "0 < s_mbx_rl (slavelist c2 ! unat slave)" "unat (s_mbx_rl (slavelist c2 ! unat slave)) \<le> EC_MAXMBX"
      "length r = unat (s_mbx_l (slavelist c2 ! unat slave))" "length resp = unat (s_mbx_rl (slavelist c2 ! unat slave))"
    using n st(2) k by simp_all
  have v2: "unat slave < length (slavelist c2)" using v asks_length [OF a2] by simp
  have ix: "(next_idx ^^ 3) l = next_idx (next_idx (next_idx l))" "(next_idx ^^ 4) l = next_idx (next_idx (next_idx (next_idx l)))"
      "(next_idx ^^ 5) l = next_idx ((next_idx ^^ 4) l)" "(next_idx ^^ 6) l = next_idx (next_idx ((next_idx ^^ 4) l))"
    by (simp_all add: numeral_eq_Suc)
  show thesis
  proof (rule that [OF c1(1) c2(1) a2])
    fix out :: ec_mbxbuf and t :: int
    assume out: "mbx_fit out"
    have "returns (ecx_mbxsend slave out EC_TIMEOUTTXM c2) (\<lambda>(v, d). v = uint (1 :: u16) \<and>
        rests c2 (next_idx (next_idx (next_idx (next_idx l)))) (script_tl (script_tl (\<lambda>k. fs (k + 2)))) d)"
      by (rule mbxsend_rests [OF r2 _ one zero8 _ n2(5,1,2) v2 out]) (use st(5,6) ix in \<open>simp_all add: eval_nat_numeral\<close>)
    then obtain d where d: "ecx_mbxsend slave out EC_TIMEOUTTXM c2 = Some (1, d)" "rests c2 ((next_idx ^^ 4) l) (\<lambda>k. fs (k + 4)) d"
      unfolding tl by (auto simp: returns_iff ix)
    have sd: "slavelist d = slavelist c2" using talks_slavelist [OF rests_talks [OF d(2)]] .
    have "deliverable c2 slave (in_mbx resp)" using del(2) asks_deliverable [OF a2] by simp
    then have "returns (ecx_mbxreceive slave new_mbx t d) (\<lambda>(v, m', e). v = uint (1 :: u16) \<and> m' = resp @ drop (length resp) new_mbx \<and>
        rests c2 (next_idx (next_idx ((next_idx ^^ 4) l))) (script_tl (script_tl (\<lambda>k. fs (k + 4)))) e)"
      by (intro mbxreceive_rests [OF d(2) _ one st(1) _ one _ _ _ _ new_mbx_fit])
        (use st(7,8) ix n2 v2 sd in \<open>simp_all add: numeral_eq_Suc in_mbx_def\<close>)
    then obtain e where e: "ecx_mbxreceive slave new_mbx t d = Some (1, in_mbx resp, e)" "rests c2 ((next_idx ^^ 6) l) (\<lambda>k. fs (k + 6)) e"
      unfolding tl by (auto simp: returns_iff ix in_mbx_def)
    have "length stale \<le> EC_MAXMBX" using n by simp
    with d(1) e(1) have "mbx_exchange slave out (in_mbx stale) t c2 = Some (1, in_mbx resp, e)"
      by (simp add: mbx_exchange_def clear_in_mbx)
    moreover have "asks c e" by (rule asks_trans [OF a2 chats_asks [OF talks_chats [OF rests_talks [OF e(2)]]]])
    ultimately show "\<exists>d. mbx_exchange slave out (in_mbx stale) t c2 = Some (1, in_mbx resp, d) \<and> asks c d \<and>
        at_rest ((next_idx ^^ 6) l) (\<lambda>n. fs (n + 6)) (port d)"
      using e(2) by (auto simp: rests_def)
  qed
qed

section \<open>A silent wire\<close>

definition quiet :: "ecx_context \<Rightarrow> ecx_context \<Rightarrow> bool" where
  "quiet c0 c \<longleftrightarrow> talks c0 c \<and> silent (port c)"

lemma quiet_refl: "ctx_inv c \<Longrightarrow> silent (port c) \<Longrightarrow> quiet c c"
  by (simp add: quiet_def talks_refl)

lemma quiet_timer: "quiet c0 c \<Longrightarrow> quiet c0 (snd (ctx_timer_start t c))"
  using ctx_timer_start_talks [of c t] talks_trans [of c0 c "snd (ctx_timer_start t c)"] talks_inv [of c0 c]
  by (auto simp: quiet_def ctx_timer_start_def case_prod_unfold Let_def port_timer_start_eq silent_def)

lemma quiet_again: "quiet c0 c \<Longrightarrow> quiet c0 (snd (ctx_again b t c))"
  using ctx_again_talks [of c b t] talks_trans [of c0 c "snd (ctx_again b t c)"] talks_inv [of c0 c]
  by (auto simp: quiet_def ctx_again_eq silent_def)

lemma quiet_read:
  assumes q: "quiet c0 c" and n: "unat n \<le> EC_MAXDATA" "unat n \<le> length data"
  shows "returns (on_port_buf (ecx_FPRD adp ado n data t) c) (\<lambda>(w, b, d). w < 0 \<and> quiet c0 d \<and> ctx_left d \<le> ctx_left c)"
proof -
  have c: "talks c0 c" "port_inv (port c)" "silent (port c)"
    using q by (auto simp: quiet_def dest: talks_inv ctx_inv_port)
  obtain w b d where d: "on_port_buf (ecx_FPRD adp ado n data t) c = Some (w, b, d)" "polled c0 c d"
    using read_polled [OF c(1) n, of adp ado t] by (auto simp: returns_iff)
  obtain w' b' p where p: "ecx_FPRD adp ado n data t (port c) = Some (w', b', p)" "w' < 0" "silent p"
    using fp.rd_silent [OF c(2) n c(3), of adp ado t] by (auto simp: returns_iff)
  then have "w = w'" "port d = p" using d(1) by (auto simp: on_port_buf_def)
  with d p show ?thesis by (simp add: quiet_def polled_def)
qed

lemma mbxempty_quiet:
  assumes "quiet c0 c" "unat slave < length (slavelist c)"
  shows "returns (ecx_mbxempty slave t c) (\<lambda>(r, d). r = 0 \<and> quiet c0 d)"
proof -
  let ?c = "snd (ctx_timer_start t c)" and ?t = "fst (ctx_timer_start t c)" and ?a = "s_configadr (slavelist c ! unat slave)"
  have sl: "slavelist ?c = slavelist c"
    using assms(1) talks_slavelist [OF ctx_timer_start_talks [OF talks_inv]] by (auto simp: quiet_def)
  have "returns (do_while (mbxempty_body ?a ?t) (0, 0, ?c)) (\<lambda>(w, st, d). w < 0 \<and> quiet c0 d)"
  proof (rule do_while_returns [where P = "\<lambda>(_, _, d). quiet c0 d" and f = "\<lambda>(_, _, d). ctx_left d"])
    fix s :: "int \<times> u8 \<times> ecx_context" assume "case s of (_, _, d) \<Rightarrow> quiet c0 d"
    then obtain w st e where s: "s = (w, st, e)" "quiet c0 e" by (cases s) auto
    obtain v b d where d: "on_port_buf (ecx_FPRD ?a ECT_REG_SM0STAT 1 [0] EC_TIMEOUTRET) e = Some (v, b, d)" "v < 0" "quiet c0 d" "ctx_left d \<le> ctx_left e"
      using quiet_read [OF s(2), of 1 "[0]" ?a ECT_REG_SM0STAT EC_TIMEOUTRET] by (auto simp: returns_iff)
    have "ctx_inv d" using d(3) by (auto simp: quiet_def dest: talks_inv)
    then show "returns (mbxempty_body ?a ?t s) (\<lambda>(s', again). if again
        then (case s' of (_, _, d) \<Rightarrow> quiet c0 d) \<and> (case s' of (_, _, d) \<Rightarrow> ctx_left d) < (case s of (_, _, d) \<Rightarrow> ctx_left d)
        else case s' of (w, st, d) \<Rightarrow> w < 0 \<and> quiet c0 d)"
      using d quiet_again [OF d(3)] ctx_again_left [of d "v \<le> 0 \<or> b ! 0 AND 0x08 \<noteq> 0" ?t]
      by (auto simp: mbxempty_body_def s(1) case_prod_unfold Let_def)
  qed (use quiet_timer [OF assms(1)] in simp)
  then show ?thesis
    using assms(2) sl by (auto simp: ecx_mbxempty_def case_prod_unfold Let_def get_slave_def arr_get_def returns_iff)
qed

lemma mbxsend_quiet:
  assumes "quiet c0 c" "unat slave < length (slavelist c)"
  shows "returns (ecx_mbxsend slave m t c) (\<lambda>(w, d). w = 0 \<and> quiet c0 d)"
  using mbxempty_quiet [OF assms, of t] assms
  by (auto simp: ecx_mbxsend_def Let_def get_slave_def arr_get_def returns_iff)

lemma exchange_quiet:
  assumes "quiet c0 c" "unat slave < length (slavelist c)"
  shows "returns (mbx_exchange slave out m t c) (\<lambda>(w, m', d). w = 0 \<and> m' = m \<and> quiet c0 d)"
  using mbxsend_quiet [OF assms, of out EC_TIMEOUTTXM] by (auto simp: mbx_exchange_def returns_iff)

text \<open>A context in which nothing comes back any more; asking leaves it so.\<close>

definition mute :: "u16 \<Rightarrow> ecx_context \<Rightarrow> bool" where
  "mute slave c \<longleftrightarrow> ctx_inv c \<and> slave_valid c slave \<and> silent (port c)"

lemma mute_session: "mute slave c \<Longrightarrow> returns (mbx_session slave c) (\<lambda>(n, d). mute slave d)"
  using client.count_law [of c slave]
  by (auto simp: mute_def mbx_session_def slave_valid_def get_slave_def upd_slave_def arr_get_def Let_def dest: asks_inv)

lemma mute_exchange: "mute slave c \<Longrightarrow> returns (mbx_exchange slave out m t c) (\<lambda>(w, m', d). w = 0 \<and> m' = m \<and> mute slave d)"
proof -
  assume c: "mute slave c"
  then have "quiet c c" "unat slave < length (slavelist c)" by (simp_all add: mute_def quiet_refl slave_valid_def)
  from exchange_quiet [OF this, of out m t] show ?thesis
    by (rule returns_mono) (use c in \<open>auto simp: quiet_def mute_def slave_valid_def talks_slavelist dest: talks_inv\<close>)
qed

section \<open>A slave with a mailbox of 32 bytes\<close>

definition demo_mbx_wire :: "u8 list option script \<Rightarrow> ecx_context" where
  "demo_mbx_wire fs = demo_context ((demo_port [])\<lparr>prim := (demo_stack [])\<lparr>rxscript := fs\<rparr>\<rparr>)
     [no_slave, no_slave\<lparr>s_mbx_l := 32, s_mbx_rl := 32, s_configadr := 0x1001\<rparr>]"

definition demo_mbx_frames :: "u8 list \<Rightarrow> u8 list option script" where
  "demo_mbx_frames resp = script_of [Some (answer 1 (enc16 8) 1), Some (answer 2 resp 1), Some (answer 3 [0] 1),
     Some (answer 4 (replicate 32 0) 1), Some (answer 5 (enc16 8) 1), Some (answer 6 resp 1)] None"

text \<open>The same with frames behind them.\<close>

definition demo_mbx_script :: "u8 list \<Rightarrow> u8 list option list \<Rightarrow> u8 list option script" where
  "demo_mbx_script resp ext = script_of ([Some (answer 1 (enc16 8) 1), Some (answer 2 resp 1), Some (answer 3 [0] 1),
     Some (answer 4 (replicate 32 0) 1), Some (answer 5 (enc16 8) 1), Some (answer 6 resp 1)] @ ext) None"

lemma demo_mbx_script:
  assumes "length resp = 32" "\<forall>bs. Some bs \<in> set ext \<longrightarrow> frame_ok bs"
  shows "ctx_inv (demo_mbx_wire (demo_mbx_script resp ext))" "slave_valid (demo_mbx_wire (demo_mbx_script resp ext)) 1"
    "at_rest 0 (demo_mbx_script resp ext) (port (demo_mbx_wire (demo_mbx_script resp ext)))"
    "mbx_frames (slavelist (demo_mbx_wire (demo_mbx_script resp ext)) ! unat (1 :: u16)) 0 resp resp (demo_mbx_script resp ext)"
    "EOEhook (demo_mbx_wire (demo_mbx_script resp ext)) = None" "demo_mbx_script resp ext (n + 6) = script_of ext None n"
proof -
  have ok: "frame_ok bs" if "demo_mbx_script resp ext k = Some bs" for k bs
  proof -
    from that have "Some bs \<in> range (demo_mbx_script resp ext)" by (metis rangeI)
    with assms show ?thesis unfolding demo_mbx_script_def by (auto dest!: range_script_of simp: answer_frame_ok)
  qed
  have "rests (demo_mbx_wire (demo_mbx_script resp ext)) 0 (demo_mbx_script resp ext) (demo_mbx_wire (demo_mbx_script resp ext))"
    by (rule ctx_inv_wire [OF demo_mbx_wire_def]) (rule ok)
  then show "ctx_inv (demo_mbx_wire (demo_mbx_script resp ext))"
      "at_rest 0 (demo_mbx_script resp ext) (port (demo_mbx_wire (demo_mbx_script resp ext)))"
    by (auto simp: rests_def dest: talks_inv)
  show "slave_valid (demo_mbx_wire (demo_mbx_script resp ext)) 1" "EOEhook (demo_mbx_wire (demo_mbx_script resp ext)) = None"
    by (simp_all add: slave_valid_def demo_mbx_wire_def demo_context_def)
  have ix: "(next_idx ^^ 1) 0 = 1" "(next_idx ^^ 2) 0 = 2" "(next_idx ^^ 3) 0 = 3" "(next_idx ^^ 4) 0 = 4" "(next_idx ^^ 5) 0 = 5" "(next_idx ^^ 6) 0 = 6"
    by code_simp+
  have f: "demo_mbx_script resp ext 0 = Some (answer 1 (enc16 8) 1)" "demo_mbx_script resp ext 1 = Some (answer 2 resp 1)"
      "demo_mbx_script resp ext 2 = Some (answer 3 [0] 1)" "demo_mbx_script resp ext 3 = Some (answer 4 (replicate 32 0) 1)"
      "demo_mbx_script resp ext 4 = Some (answer 5 (enc16 8) 1)" "demo_mbx_script resp ext 5 = Some (answer 6 resp 1)"
    by (simp_all add: demo_mbx_script_def numeral_eq_Suc)
  have s: "slavelist (demo_mbx_wire (demo_mbx_script resp ext)) ! unat (1 :: u16) = no_slave\<lparr>s_mbx_l := 32, s_mbx_rl := 32, s_configadr := 0x1001\<rparr>"
    by (simp add: demo_mbx_wire_def demo_context_def)
  show "mbx_frames (slavelist (demo_mbx_wire (demo_mbx_script resp ext)) ! unat (1 :: u16)) 0 resp resp (demo_mbx_script resp ext)"
    unfolding s mbx_frames_def ix f using assms
    by (auto intro!: exI [of _ "8 :: u16"] exI [of _ "replicate 32 0"])
  show "demo_mbx_script resp ext (n + 6) = script_of ext None n" by (simp add: demo_mbx_script_def eval_nat_numeral)
qed

lemma demo_mbx_wire:
  assumes "length resp = 32"
  shows "ctx_inv (demo_mbx_wire (demo_mbx_frames resp))" "slave_valid (demo_mbx_wire (demo_mbx_frames resp)) 1"
    "at_rest 0 (demo_mbx_frames resp) (port (demo_mbx_wire (demo_mbx_frames resp)))"
    "mbx_frames (slavelist (demo_mbx_wire (demo_mbx_frames resp)) ! unat (1 :: u16)) 0 resp resp (demo_mbx_frames resp)"
    "EOEhook (demo_mbx_wire (demo_mbx_frames resp)) = None" "demo_mbx_frames resp (n + 6) = None"
proof -
  have "demo_mbx_script resp [] = demo_mbx_frames resp" by (simp add: demo_mbx_script_def demo_mbx_frames_def)
  with demo_mbx_script [OF assms, of "[]"] show "ctx_inv (demo_mbx_wire (demo_mbx_frames resp))" "slave_valid (demo_mbx_wire (demo_mbx_frames resp)) 1"
    "at_rest 0 (demo_mbx_frames resp) (port (demo_mbx_wire (demo_mbx_frames resp)))"
    "mbx_frames (slavelist (demo_mbx_wire (demo_mbx_frames resp)) ! unat (1 :: u16)) 0 resp resp (demo_mbx_frames resp)"
    "EOEhook (demo_mbx_wire (demo_mbx_frames resp)) = None" "demo_mbx_frames resp (n + 6) = None"
    by simp_all
qed

end
