(* ===== verification/CoeProps.thy ===== *)
theory CoeProps
  imports CoeInfo MbxWire
begin

text \<open>
  What the CANopen services guarantee: writing an object returns whatever the slave answers, a
  transfer in segments can be put together again by the rules for reading one, reading an object
  delivers what the slave sent, and what a slave can do to a master that trusts its lengths.
\<close>

section \<open>Reports\<close>

lemma flagged_push_chats:
  assumes c: "ctx_inv c"
  shows "returns (ecx_pusherror e (c\<lparr>ecaterror := True\<rparr>)) (chats c)"
proof -
  let ?d = "c\<lparr>ecaterror := True\<rparr>"
  have d: "ctx_inv ?d" using c by (simp add: ctx_inv_def)
  have "chats c ?d" using c by (auto simp: chats_def ctx_ok_def ctx_inv_def port_ok_refl
      intro!: reportsI [where p = "port c" and r = "elist c" and b = True])
  then show ?thesis by (blast intro: returns_mono [OF pusherror_chats [OF d]] chats_trans)
qed

lemma SDOinfoerror_from: "asks c0 c \<Longrightarrow> returns (ecx_SDOinfoerror slave i si code c) (asks c0)"
  unfolding ecx_SDOinfoerror_def
  by (rule returns_mono [OF flagged_push_chats [OF asks_inv]]) (auto intro: asks_trans chats_asks)

lemma SDOerror_from: "asks c0 c \<Longrightarrow> returns (ecx_SDOerror slave i si code c) (asks c0)"
proof -
  assume c: "asks c0 c"
  have t: "talks c (snd (ctx_current_time c))" by (rule current_time_talks [OF asks_inv [OF c]])
  have "asks c0 (snd (ctx_current_time c))" by (rule asks_trans [OF c chats_asks [OF talks_chats [OF t]]])
  then show ?thesis
    unfolding ecx_SDOerror_def case_prod_unfold Let_def
    by (intro returns_mono [OF flagged_push_chats [OF talks_inv [OF t]]]) (auto intro: asks_trans chats_asks)
qed

lemma sdo_unexpected_from: "asks c0 c \<Longrightarrow> returns (sdo_unexpected slave i si m c) (asks c0)"
  by (simp add: sdo_unexpected_def SDOerror_from packeterror_from)

lemma sdoinfo_unexpected_from: "asks c0 c \<Longrightarrow> returns (sdoinfo_unexpected slave i si m c) (asks c0)"
  by (simp add: sdoinfo_unexpected_def SDOinfoerror_from packeterror_from)

lemmas coe_steps = client_steps returns_bindI [OF sdo_unexpected_from] returns_bindI [OF sdoinfo_unexpected_from]
  returns_bindI [OF SDOinfoerror_from]

section \<open>Writing an object\<close>

text \<open>Steps without a call, to go on with when the other binds are kept for their rules.\<close>

lemma returns_pure:
  "returns (Option.bind (chk b) f) Q \<longleftrightarrow> b \<and> returns (f ()) Q"
  "returns (Option.bind (mem_read m off n) g) Q \<longleftrightarrow> off + n \<le> length m \<and> returns (g (take n (drop off m))) Q"
  "returns (Option.bind (mem_write m off bs) g) Q \<longleftrightarrow> off + length bs \<le> length m \<and> returns (g (put_bytes off bs m)) Q"
  "returns (Option.bind (arr_get xs i) h) Q \<longleftrightarrow> i < length xs \<and> returns (h (xs ! i)) Q"
  "returns (Option.bind (arr_set xs i x) k) Q \<longleftrightarrow> i < length xs \<and> returns (k (xs[i := x])) Q"
  by simp_all

lemma length_sdo_request [simp]: "length (sdo_request len cnt cmd i si) = 12"
  by (simp add: sdo_request_def coe_head_def)

lemma length_coe_head [simp]: "length (coe_head len cnt svc) = 8"
  by (simp add: coe_head_def)

lemma mbx_fit_length: "mbx_fit m \<Longrightarrow> length m = EC_MAXMBX + 1"
  by (simp add: mbx_fit_def)

lemma down_answer_from: "asks c0 c \<Longrightarrow> returns (sdo_down_answer slave i si good m w c) (\<lambda>r. asks c0 (snd r))"
  using sdo_unexpected_from [of c0 c slave i si m] by (auto simp: sdo_down_answer_def elim!: returns_mono)

lemma sdo_down_exp_from:
  assumes "asks c0 c" "slave_valid c0 slave" "mbx_fit m" "0 \<le> psize" "psize \<le> 4" "psize \<le> int (length p)"
  shows "returns (sdo_down_exp slave i si psize p t m c) (\<lambda>(w, d). asks c0 d)"
proof -
  have n: "nat psize \<le> length p" "nat psize \<le> 4" using assms by linarith+
  show ?thesis
    unfolding sdo_down_exp_def Let_def case_prod_unfold
    by (rule coe_steps [where ?c0.0 = c0]; use assms n in \<open>auto simp: returns_pure down_answer_from case_prod_unfold simp del: returns_bind
      intro!: coe_steps [where ?c0.0 = c0]\<close>)
qed


text \<open>The size of a segment, its length field and its command.\<close>

lemma down_segment:
  assumes "sdo_down_segment maxdata psize = (len, cmd, n, again)" "7 \<le> maxdata" "0 \<le> psize"
  shows "0 \<le> n \<and> n \<le> psize \<and> n \<le> maxdata \<and> again = (psize > maxdata) \<and> (again \<longrightarrow> n = maxdata) \<and> (\<not> again \<longrightarrow> n = psize) \<and>
    (n < 7 \<longrightarrow> \<not> again)"
  using assms by (auto simp: sdo_down_segment_def Let_def split: if_splits)

definition down_state :: "ecx_context \<Rightarrow> u8 list \<Rightarrow> sdo_down_state \<Rightarrow> bool" where
  "down_state c0 p = (\<lambda>(_, _, hp, psize, _, MbxIn, MbxOut, c). asks c0 c \<and> mbx_fit MbxIn \<and> mbx_fit MbxOut \<and>
     0 \<le> psize \<and> int hp + psize \<le> int (length p))"

definition down_left :: "sdo_down_state \<Rightarrow> nat" where
  "down_left = (\<lambda>(_, _, _, psize, _). nat psize)"

lemma sdo_down_body_from:
  assumes s: "down_state c0 p s" "fst s" and v: "slave_valid c0 slave" and m: "7 \<le> maxdata" "maxdata \<le> int EC_MAXMBX - 9"
  shows "returns (sdo_down_body slave i si maxdata p t s) (\<lambda>s'. down_state c0 p s' \<and> (fst s' \<longrightarrow> down_left s' < down_left s))"
proof -
  obtain nl toggle hp psize w MbxIn MbxOut c where st: "s = (nl, toggle, hp, psize, w, MbxIn, MbxOut, c)" by (cases s) auto
  then have c: "asks c0 c" "mbx_fit MbxIn" "mbx_fit MbxOut" "0 \<le> psize" "int hp + psize \<le> int (length p)"
    using s(1) by (auto simp: down_state_def)
  obtain len cmd n again where seg: "sdo_down_segment maxdata psize = (len, cmd, n, again)"
    by (cases "sdo_down_segment maxdata psize") auto
  from down_segment [OF seg m(1) c(4)]
  have n: "0 \<le> n" "hp + nat n \<le> length p" "nat n \<le> 1477" "0 \<le> psize - n" "int (hp + nat n) + (psize - n) \<le> int (length p)"
      "again \<longrightarrow> nat (psize - n) < nat psize"
    using c(4,5) m by linarith+
  show ?thesis
    unfolding st sdo_down_body_def prod.case Let_def seg case_prod_unfold fst_conv snd_conv
    by (rule returns_bindI [OF client.count_from [OF c(1) v]]; use c v n in \<open>auto simp: returns_pure mbx_fit_length down_answer_from case_prod_unfold
        down_state_def down_left_def returns_if simp del: returns_bind
      intro!: coe_steps [where ?c0.0 = c0] returns_bindI [OF down_answer_from [where ?c0.0 = c0]]\<close>)
qed


lemma sdo_down_normal_from:
  assumes c: "asks c0 c" and v: "slave_valid c0 slave" and m: "mbx_fit MbxIn"
    and d: "0 \<le> maxdata" "maxdata \<le> int EC_MAXMBX - 16" and n: "0 \<le> psize" "psize \<le> int (length p)"
  shows "returns (sdo_down_normal slave i si CA maxdata psize p t MbxIn c) (\<lambda>r. asks c0 (snd r))"
proof -
  let ?n = "if psize > maxdata then maxdata else psize"
  have fd: "0 \<le> ?n" "nat ?n \<le> length p" "nat ?n \<le> 1470" "0 \<le> psize - ?n" "int (nat ?n) + (psize - ?n) \<le> int (length p)"
    using d n by (auto split: if_splits)
  have loop: "returns (while_loop fst (sdo_down_body slave i si (maxdata + 7) p t) s) (\<lambda>r. asks c0 (snd (snd (snd (snd (snd (snd (snd r))))))))"
    if "down_state c0 p s" for i si s
  proof -
    have "returns (while_loop fst (sdo_down_body slave i si (maxdata + 7) p t) s) (\<lambda>s. down_state c0 p s \<and> \<not> fst s)"
      by (rule while_loop_returns [where f = down_left]) (use that d in \<open>auto intro: sdo_down_body_from [OF _ _ v]\<close>)
    then show ?thesis by (rule returns_mono) (auto simp: down_state_def)
  qed
  show ?thesis
    unfolding sdo_down_normal_def Let_def case_prod_unfold
    by (rule returns_bindI [OF client.count_from [OF c v]]; use v m fd in \<open>auto simp: returns_pure mbx_fit_length case_prod_unfold
        returns_if down_answer_from simp del: returns_bind split del: if_split
      intro!: returns_bindI [OF exchange_from [where ?c0.0 = c0]]\<close>)
      (auto simp: down_state_def case_prod_unfold down_answer_from intro!: loop)
qed


lemma asks_mbx_l: "asks c d \<Longrightarrow> slave_valid c slave \<Longrightarrow>
    get_slave slave d = Some (slavelist d ! unat slave) \<and> s_mbx_l (slavelist d ! unat slave) = s_mbx_l (slavelist c ! unat slave)"
  using asks_slave [of c d "unat slave"] asks_length [of c d] by (auto simp: slave_valid_def get_slave_def)

text \<open>
  C11: writing an object returns, whatever the slave answers to the request and its segments,
  and changes nothing of the master but the mailbox counter and the error list, provided that
  the mailbox of the slave holds at least a request and fits the buffer of the master.
\<close>

theorem SDOwrite_total:
  assumes "ctx_inv c" "slave_valid c slave" "16 \<le> s_mbx_l (slavelist c ! unat slave)"
    and "unat (s_mbx_l (slavelist c ! unat slave)) \<le> EC_MAXMBX" "0 \<le> psize" "psize \<le> int (length p)"
  shows "returns (ecx_SDOwrite slave i si CA psize p t c) (\<lambda>(w, d). asks c d)"
proof -
  let ?l = "unat (s_mbx_l (slavelist c ! unat slave))"
  have l: "16 \<le> ?l" using assms(3) by (simp add: word_le_nat_alt)
  obtain m d where d: "mbx_flush slave c = Some (m, d)" "asks c d" "mbx_fit m"
    using flush_from [OF asks_refl [OF assms(1)] assms(2)] by (auto simp: returns_iff)
  show ?thesis
  proof (cases "psize \<le> 4 \<and> \<not> CA")
    case True
    with sdo_down_exp_from [OF d(2) assms(2) d(3) assms(5) _ assms(6), of i si t] asks_mbx_l [OF d(2) assms(2)] d(1) show ?thesis
      by (simp add: ecx_SDOwrite_def)
  next
    case False
    have "returns (sdo_down_normal slave i si CA (int ?l - 16) psize p t m d) (\<lambda>r. asks c (snd r))"
      by (rule sdo_down_normal_from [OF d(2) assms(2) d(3) _ _ assms(5,6)]) (use l assms(4) in linarith)+
    with False asks_mbx_l [OF d(2) assms(2)] d(1) show ?thesis
      unfolding ecx_SDOwrite_def by (auto simp: case_prod_unfold Let_def)
  qed
qed

definition demo_mbx_context :: "u16 \<Rightarrow> ecx_context" where
  "demo_mbx_context l = demo_context (demo_port []) [no_slave, no_slave\<lparr>s_mbx_l := l, s_mbx_rl := l, s_configadr := 0x1001\<rparr>]"

lemma demo_mbx_inv: "ctx_inv (demo_mbx_context l)" "slave_valid (demo_mbx_context l) 1"
    "slavelist (demo_mbx_context l) ! 1 = no_slave\<lparr>s_mbx_l := l, s_mbx_rl := l, s_configadr := 0x1001\<rparr>"
  by (simp_all add: demo_mbx_context_def ctx_inv_demo [OF port_inv_demo_nil]) (simp_all add: slave_valid_def demo_context_def)

theorem SDOwrite_total_witness:
  "\<exists>w d. ecx_SDOwrite 1 0x1c12 0 True 200 (replicate 200 7) 700000 (demo_mbx_context 128) = Some (w, d) \<and> ctx_inv d"
  using SDOwrite_total [OF demo_mbx_inv(1,2), of 128 200 "replicate 200 7" "0x1c12" 0 True 700000]
  by (auto simp: returns_iff demo_mbx_inv(3) [simplified] word_le_nat_alt dest: asks_inv)

text \<open>
  The size of the data section is computed without a check that the slave has a mailbox: a
  write of more than four bytes to a slave whose mailbox is smaller than 16 bytes, or which has
  none, copies a negative number of bytes and crashes the master.
\<close>

theorem SDOwrite_without_mailbox_faults:
  assumes "ctx_inv c" "slave_valid c slave" "s_mbx_l (slavelist c ! unat slave) < 16" "psize > 4"
  shows "ecx_SDOwrite slave i si CA psize p t c = None"
proof -
  let ?l = "unat (s_mbx_l (slavelist c ! unat slave))"
  have l: "?l < 16" using assms(3) by (simp add: word_less_nat_alt)
  obtain m d where d: "mbx_flush slave c = Some (m, d)" "asks c d" "mbx_fit m"
    using flush_from [OF asks_refl [OF assms(1)] assms(2)] by (auto simp: returns_iff)
  have more: "int ?l - 16 < psize" "int ?l - 16 < 0" using l assms(4) by linarith+
  then have "sdo_down_normal slave i si CA (int ?l - 16) psize p t m d = None"
    unfolding sdo_down_normal_def by (cases "mbx_session slave d") (simp_all add: Let_def case_prod_unfold)
  with d(1) asks_mbx_l [OF d(2) assms(2)] assms(4) show ?thesis
    unfolding ecx_SDOwrite_def by (simp add: Let_def)
qed

theorem SDOwrite_without_mailbox_faults_witness:
  "ecx_SDOwrite 1 0x1c12 1 False 8 (replicate 8 0) 700000 (demo_mbx_context 0) = None"
  by (rule SDOwrite_without_mailbox_faults [OF demo_mbx_inv(1,2)]) (simp_all add: demo_mbx_inv(3) [simplified])


section \<open>Transfer in segments\<close>

text \<open>
  Answers that carry data the way \<open>sdo_down_segment\<close> cuts it: length field, command with a
  toggle bit, and the bytes of the segment.
\<close>

fun carries :: "int \<Rightarrow> u8 list \<Rightarrow> ec_mbxbuf list \<Rightarrow> bool" where
  "carries maxdata d [] = False"
| "carries maxdata d (m # ms) =
     (case sdo_down_segment maxdata (int (length d)) of (len, cmd, n, again) \<Rightarrow>
        coe_service ECT_COES_SDORES m \<and> mbx16 m 0 = len \<and> (mbx8 m 8 = cmd \<or> mbx8 m 8 = cmd + 0x10) \<and>
        9 + nat n \<le> length m \<and> take (nat n) (drop 9 m) = take (nat n) d \<and>
        (if again then carries maxdata (drop (nat n) d) ms else ms = []))"

text \<open>Taking the segments in, one after the other, as the loop of \<open>ecx_SDOread\<close> does.\<close>

fun take_segments :: "u16 \<Rightarrow> u16 \<Rightarrow> u8 \<Rightarrow> ec_mbxbuf list \<Rightarrow> nat \<Rightarrow> sdo_result \<Rightarrow> ((nat \<times> sdo_result) \<times> bool) option" where
  "take_segments slave i si [] hp r = Some ((hp, r), True)"
| "take_segments slave i si (m # ms) hp r = do {
     ((hp, r), NotLast) \<leftarrow> sdo_up_segment slave i si m hp r;
     if NotLast then take_segments slave i si ms hp r else Some ((hp, r), False)
   }"

lemma low_commands:
  assumes "n < 7" "cmd = word_of_int (1 + (7 - int n) * 2)" "k = cmd \<or> k = cmd + (0x10 :: u8)"
  shows "k AND 0xe0 = 0" "k AND 0x01 > 0" "7 - ucast (drop_bit 1 (k AND 0x0e)) = (of_nat n :: u16)"
proof -
  have "\<forall>n\<in>set [0..<7]. \<forall>k\<in>{word_of_int (1 + (7 - int n) * 2), word_of_int (1 + (7 - int n) * 2) + 0x10 :: u8}.
      k AND 0xe0 = 0 \<and> k AND 0x01 > 0 \<and> 7 - ucast (drop_bit 1 (k AND 0x0e)) = (of_nat n :: u16)"
    by code_simp
  moreover have "n \<in> set [0..<7]" "k \<in> {word_of_int (1 + (7 - int n) * 2), word_of_int (1 + (7 - int n) * 2) + 0x10}"
    using assms by auto
  ultimately have "k AND 0xe0 = 0 \<and> k AND 0x01 > 0 \<and> 7 - ucast (drop_bit 1 (k AND 0x0e)) = (of_nat n :: u16)" by blast
  then show "k AND 0xe0 = 0" "k AND 0x01 > 0" "7 - ucast (drop_bit 1 (k AND 0x0e)) = (of_nat n :: u16)" by simp_all
qed

lemma up_segment_down:
  assumes seg: "sdo_down_segment maxdata (int (length d)) = (len, cmd, n, again)" and m: "7 \<le> maxdata" "maxdata \<le> int EC_MAXMBX"
    and a: "coe_service ECT_COES_SDORES m" "mbx16 m 0 = len" "mbx8 m 8 = cmd \<or> mbx8 m 8 = cmd + 0x10"
      "9 + nat n \<le> length m" "take (nat n) (drop 9 m) = take (nat n) d"
    and p: "hp + length d \<le> length p"
  shows "sdo_up_segment slave i si m hp (w, psize, p, c) =
    Some ((if again then hp + nat n else hp, w, psize + n, put_bytes hp (take (nat n) d) p, c), again)"
proof -
  have n: "0 \<le> n" "n \<le> int (length d)" "n \<le> maxdata" "again = (int (length d) > maxdata)" "again \<longrightarrow> n = maxdata" "\<not> again \<longrightarrow> n = int (length d)"
    using down_segment [OF seg m(1)] by simp_all
  have nn: "nat n \<le> length d" "nat n \<le> 1486" "int (nat n) = n" using n m by linarith+
  have u: "unat (of_nat (nat n) :: u16) = nat n" using nn by (intro unat_of_nat_u16) simp
  have u2: "uint (of_nat (nat n) :: u16) = int (nat n)" unfolding uint_nat u ..
  have fit: "hp + nat n \<le> length p" using p nn(1) by linarith
  obtain k where nk: "n = int k" using n(1) nonneg_int_cases by blast
  have rw: "mem_read m 9 k = Some (take k d)" "mem_write p hp (take k d) = Some (put_bytes hp (take k d) p)"
    using a(4,5) fit nn unfolding nk by (simp_all add: mem_read_def mem_write_Some)
  consider (short) "n < 7" "\<not> again" | (last) "7 \<le> n" "\<not> again" | (more) again using m n by linarith
  then show ?thesis
  proof cases
    case short
    then have "len = 10" "cmd = word_of_int (1 + (7 - int (nat n)) * 2)" using seg n nn by (auto simp: sdo_down_segment_def Let_def)
    moreover from short have "nat n < 7" by simp
    note low_commands [OF this calculation(2) a(3)]
    ultimately show ?thesis
      using short a rw u u2 unfolding nk nat_int by (simp add: sdo_up_segment_def Let_def)
  next
    case last
    then have l: "len = word_of_int (n + 3)" "cmd = 1" using seg n by (auto simp: sdo_down_segment_def Let_def)
    then have k: "mbx8 m 8 AND 0xe0 = 0" "mbx8 m 8 AND 1 > 0" "ucast (drop_bit 1 (mbx8 m 8 AND 0x0e)) = (0 :: u16)" using a(3) by auto
    have F: "mbx16 m 0 - 3 = of_nat (nat n)" using a(2) l(1) unfolding nk by simp
    have "of_nat (nat n) = (7 :: u16) \<longleftrightarrow> nat n = 7" using u by (auto simp: word_unat_eq_iff)
    then show ?thesis
      using last a rw u u2 k F unfolding nk nat_int by (cases "k = 7") (simp_all add: sdo_up_segment_def Let_def)
  next
    case more
    then have l: "len = word_of_int (n + 3)" "cmd = 0" using seg n by (auto simp: sdo_down_segment_def Let_def)
    then have k: "mbx8 m 8 AND 0xe0 = 0" "\<not> mbx8 m 8 AND 1 > 0" using a(3) by auto
    have F: "mbx16 m 0 - 3 = of_nat (nat n)" using a(2) l(1) unfolding nk by simp
    show ?thesis
      using more a rw u u2 k F unfolding nk nat_int by (simp add: sdo_up_segment_def Let_def)
  qed
qed


lemma put_bytes_append:
  assumes "hp + length a + length b \<le> length p"
  shows "put_bytes (hp + length a) b (put_bytes hp a p) = put_bytes hp (a @ b) p"
proof -
  have "length p \<le> hp \<Longrightarrow> a = [] \<and> b = []" using assms by (cases a; cases b) auto
  then show ?thesis using assms by (auto simp: put_bytes_def min_def ac_simps)
qed

text \<open>
  C12: the two directions of the transfer in segments fit together: whatever is cut into
  segments by the rules for writing is put together again by the rules for reading, in the
  memory of the caller one byte after the other, with the size added up, and exactly the last
  segment ends the transfer.
\<close>

theorem segments_roundtrip:
  assumes "carries maxdata d ms" "7 \<le> maxdata" "maxdata \<le> int EC_MAXMBX" "hp + length d \<le> length p"
  shows "\<exists>hp'. take_segments slave i si ms hp (w, psize, p, c) = Some ((hp', w, psize + int (length d), put_bytes hp d p, c), False)"
  using assms(1,4)
proof (induction ms arbitrary: d hp psize p)
  case (Cons m ms)
  obtain len cmd n again where seg: "sdo_down_segment maxdata (int (length d)) = (len, cmd, n, again)"
    by (cases "sdo_down_segment maxdata (int (length d))") auto
  have a: "coe_service ECT_COES_SDORES m" "mbx16 m 0 = len" "mbx8 m 8 = cmd \<or> mbx8 m 8 = cmd + 0x10"
      "9 + nat n \<le> length m" "take (nat n) (drop 9 m) = take (nat n) d" "if again then carries maxdata (drop (nat n) d) ms else ms = []"
    using Cons.prems(1) seg by simp_all
  note up = up_segment_down [OF seg assms(2,3) a(1-5) Cons.prems(2), of slave i si w psize c]
  have n: "0 \<le> n" "n \<le> int (length d)" "\<not> again \<longrightarrow> n = int (length d)" using down_segment [OF seg assms(2)] by simp_all
  show ?case
  proof (cases again)
    case False
    with n have "nat n = length d" by simp
    with False up n show ?thesis by simp
  next
    case True
    let ?k = "nat n"
    have k: "?k \<le> length d" "hp + ?k + (length d - ?k) \<le> length p" using n Cons.prems(2) by linarith+
    have "length (put_bytes hp (take ?k d) p) = length p" using k by simp
    then obtain hp' where "take_segments slave i si ms (hp + ?k) (w, psize + n, put_bytes hp (take ?k d) p, c) =
        Some ((hp', w, psize + n + int (length (drop ?k d)), put_bytes (hp + ?k) (drop ?k d) (put_bytes hp (take ?k d) p), c), False)"
      using Cons.IH [of "drop ?k d" "hp + ?k" "put_bytes hp (take ?k d) p" "psize + n"] a(6) True k by auto
    moreover have "put_bytes (hp + ?k) (drop ?k d) (put_bytes hp (take ?k d) p) = put_bytes hp d p"
      using put_bytes_append [of hp "take ?k d" "drop ?k d" p] k by simp
    moreover have "n + int (length (drop ?k d)) = int (length d)" using n k by simp
    ultimately show ?thesis using up True by (simp add: add.assoc)
  qed
qed simp

definition demo_segment :: "u16 \<Rightarrow> u8 \<Rightarrow> u8 list \<Rightarrow> ec_mbxbuf" where
  "demo_segment len cmd d = enc16 len @ [0, 0, 0, 0x13, 0, 0x30, cmd] @ d @ [0, 0]"

theorem segments_roundtrip_witness:
  "\<exists>hp'. take_segments 1 0x1018 0 [demo_segment 10 0x00 [1, 2, 3, 4, 5, 6, 7], demo_segment 10 0x19 [8, 9, 10]] 2
      (1, 2, [50, 51, 0, 0, 0, 0, 0, 0, 0, 0, 0, 0], demo_mbx_context 32) =
     Some ((hp', 1, 12, [50, 51, 1, 2, 3, 4, 5, 6, 7, 8, 9, 10], demo_mbx_context 32), False)"
proof -
  have "carries 7 [1, 2, 3, 4, 5, 6, 7, 8, 9, 10] [demo_segment 10 0x00 [1, 2, 3, 4, 5, 6, 7], demo_segment 10 0x19 [8, 9, 10]]"
    by code_simp
  from segments_roundtrip [OF this, of 2 "[50, 51, 0, 0, 0, 0, 0, 0, 0, 0, 0, 0]" 1 "0x1018" 0 1 2 "demo_mbx_context 32"]
  show ?thesis by (simp add: put_bytes_def)
qed


section \<open>Reading an object over the wire\<close>

lemma SDOread_answered:
  assumes "ctx_inv c" "slave_valid c slave" "at_rest l fs (port c)" "mbx_frames (slavelist c ! unat slave) l stale resp fs"
    and "deliverable c slave (in_mbx stale)" "deliverable c slave (in_mbx resp)"
  obtains d si' out where "ecx_SDOread slave i si CA psize p t c = sdo_up_answer slave i si' t (in_mbx resp) out (1, psize, p, d)"
    "asks c d" "at_rest ((next_idx ^^ 6) l) (\<lambda>n. fs (n + 6)) (port d)"
proof -
  obtain c1 cnt c2 where 1: "mbx_flush slave c = Some (in_mbx stale, c1)" "mbx_session slave c1 = Some (cnt, c2)" "asks c c2"
    "\<And>out t. mbx_fit out \<Longrightarrow> \<exists>d. mbx_exchange slave out (in_mbx stale) t c2 = Some (1, in_mbx resp, d) \<and> asks c d \<and>
       at_rest ((next_idx ^^ 6) l) (\<lambda>n. fs (n + 6)) (port d)"
    by (rule request_answered [OF assms]) (rule that)
  let ?si = "if CA \<and> si > 1 then 1 else si"
  let ?out = "put_bytes 0 (sdo_request 0x000a cnt (if CA then ECT_SDO_UP_REQ_CA else ECT_SDO_UP_REQ) i ?si @ enc32 0) new_mbx"
  obtain d where d: "mbx_exchange slave ?out (in_mbx stale) t c2 = Some (1, in_mbx resp, d)" "asks c d"
      "at_rest ((next_idx ^^ 6) l) (\<lambda>n. fs (n + 6)) (port d)"
    using 1(4) [of ?out t] by auto
  have "ecx_SDOread slave i si CA psize p t c = sdo_up_answer slave i ?si t (in_mbx resp) ?out (1, psize, p, d)"
    using 1(1,2) d(1) by (simp add: ecx_SDOread_def Let_def cong: if_cong)
  from this d(2,3) show thesis by (rule that)
qed

text \<open>The object that an answer carries when it fits into one mailbox.\<close>

definition sdo_object :: "ec_mbxbuf \<Rightarrow> u8 list option" where
  "sdo_object m =
     (if mbx8 m 8 AND 0x02 > 0 then mem_read m 12 (4 - unat (drop_bit 2 (mbx8 m 8) AND 0x03))
      else if 10 \<le> mbx16 m 0 \<and> unat (mbx32 m 12) + 10 \<le> unat (mbx16 m 0) then mem_read m 16 (unat (mbx32 m 12))
      else None)"

lemma sdo_up_answer_object:
  assumes m: "coe_service ECT_COES_SDORES m" "mbx16 m 9 = i" "sdo_object m = Some bs"
    and fit: "int (length bs) \<le> psize" "length bs \<le> length p"
  shows "sdo_up_answer slave i si t m out (w, psize, p, c) = Some (w, int (length bs), put_bytes 0 bs p, c)"
proof (cases "mbx8 m 8 AND 0x02 > 0")
  case True
  let ?n = "4 - unat (drop_bit 2 (mbx8 m 8) AND 0x03)"
  from m(3) True have r: "mem_read m 12 ?n = Some bs" by (simp add: sdo_object_def)
  then have l: "length bs = ?n" by (auto simp: mem_read_Some)
  have "mem_write p 0 bs = Some (put_bytes 0 bs p)" using fit by (simp add: mem_write_Some)
  then have "sdo_expedited slave i si m (w, psize, p, c) = Some (w, int (length bs), put_bytes 0 bs p, c)"
    unfolding sdo_expedited_def prod.case Let_def using r l fit(1) by simp
  with True m show ?thesis by (simp add: sdo_up_answer_def)
next
  case False
  let ?n = "unat (mbx32 m 12)"
  have h: "10 \<le> mbx16 m 0" "?n + 10 \<le> unat (mbx16 m 0)" "mem_read m 16 ?n = Some bs"
    using m(3) False by (simp_all add: sdo_object_def split: if_splits)
  then have l: "length bs = ?n" by (auto simp: mem_read_Some)
  have s: "sint (mbx32 m 12) = int ?n"
    by (rule sint_small) (use h(2) unsigned_less [of "mbx16 m 0", where 'a = nat] in simp)
  have F: "unat (mbx16 m 0 - 10) = unat (mbx16 m 0) - 10" using h(1) by (simp add: unat_sub_if' word_le_nat_alt)
  have "\<not> int (unat (mbx16 m 0 - 10)) < int ?n" using h(2) F by linarith
  moreover have "mem_write p 0 bs = Some (put_bytes 0 bs p)" using fit by (simp add: mem_write_Some)
  ultimately have "sdo_normal slave i si t m out (w, psize, p, c) = Some (w, int (length bs), put_bytes 0 bs p, c)"
    unfolding sdo_normal_def prod.case Let_def s nat_int using h(3) l fit(1) by simp
  with False m show ?thesis by (simp add: sdo_up_answer_def)
qed

text \<open>
  C10: reading an object whose slave answers delivers the object: what was left in the mailbox
  of the slave before is thrown away, and the bytes of the answer, expedited or normal, are put
  at the start of the memory of the caller, of which nothing else changes, with their number as
  the size.
\<close>

theorem SDOread_reads:
  assumes "ctx_inv c" "slave_valid c slave" "at_rest l fs (port c)" "mbx_frames (slavelist c ! unat slave) l stale resp fs"
    and "deliverable c slave (in_mbx stale)" "deliverable c slave (in_mbx resp)"
    and "coe_service ECT_COES_SDORES (in_mbx resp)" "mbx16 (in_mbx resp) 9 = i" "sdo_object (in_mbx resp) = Some bs"
    and "int (length bs) \<le> psize" "length bs \<le> length p"
  shows "\<exists>d. ecx_SDOread slave i si CA psize p t c = Some (1, int (length bs), put_bytes 0 bs p, d) \<and> asks c d"
proof -
  obtain d si' out where "ecx_SDOread slave i si CA psize p t c = sdo_up_answer slave i si' t (in_mbx resp) out (1, psize, p, d)" "asks c d"
    by (rule SDOread_answered [OF assms(1-6)]) (rule that)
  with sdo_up_answer_object [OF assms(7-11)] show ?thesis by auto
qed


text \<open>An answer of 32 bytes: length field, command and what follows the command.\<close>

definition demo_answer :: "u16 \<Rightarrow> u8 \<Rightarrow> u8 list \<Rightarrow> u8 list" where
  "demo_answer len cmd bs = enc16 len @ [0, 0, 0, 0x13, 0, 0x30, cmd] @ bs @ replicate (23 - length bs) 0"

lemma demo_answer:
  assumes "length bs = 8"
  shows "length (demo_answer len cmd bs) = 32" "coe_service ECT_COES_SDORES (in_mbx (demo_answer len cmd bs))"
    "mbx8 (in_mbx (demo_answer len cmd bs)) 8 = cmd" "mbx16 (in_mbx (demo_answer len cmd bs)) 0 = len"
    "mbx16 (in_mbx (demo_answer len cmd bs)) 9 = mk16 (bs ! 0) (bs ! 1)"
    "mbx32 (in_mbx (demo_answer len cmd bs)) 12 = get32 (list_buf bs) 3"
    "EOEhook c = None \<Longrightarrow> deliverable c s (in_mbx (demo_answer len cmd bs))"
proof -
  obtain a b where bs: "bs = a # b" "length b = 7" using assms by (cases bs) auto
  let ?d = "demo_answer len cmd bs"
  show l: "length ?d = 32" by (simp add: demo_answer_def assms)
  have n: "?d ! 0 = lo8 len" "?d ! 1 = hi8 len" "?d ! 5 = 0x13" "?d ! 6 = 0" "?d ! 7 = 0x30" "?d ! 8 = cmd"
    by (simp_all add: demo_answer_def enc16_def)
  have t: "?d ! (9 + k) = bs ! k" if "k < 8" for k
    using that assms by (simp add: demo_answer_def enc16_def nth_append)
  have kind: "mbx_kind (in_mbx ?d) = ECT_MBXT_COE" using l n by (simp add: mbx_kind_def in_mbx_fields)
  have svc: "mbx16 (in_mbx ?d) 6 = 0x3000" using l n by (simp add: in_mbx_fields mk16_def)
  show "coe_service ECT_COES_SDORES (in_mbx ?d)" by (simp add: coe_service_def kind svc)
  show "mbx8 (in_mbx ?d) 8 = cmd" "mbx16 (in_mbx ?d) 0 = len" using l n by (simp_all add: in_mbx_fields)
  show "mbx16 (in_mbx ?d) 9 = mk16 (bs ! 0) (bs ! 1)" using l t [of 0] t [of 1] by (simp add: in_mbx_fields)
  show "EOEhook c = None \<Longrightarrow> deliverable c s (in_mbx ?d)" by (simp add: deliverable_def kind svc)
  have "mbx16 (in_mbx ?d) 12 = mk16 (bs ! 3) (bs ! 4)" "mbx16 (in_mbx ?d) 14 = mk16 (bs ! 5) (bs ! 6)"
    using l t [of 3] t [of 4] t [of 5] t [of 6] by (simp_all add: in_mbx_fields)
  then show "mbx32 (in_mbx ?d) 12 = get32 (list_buf bs) 3"
    using assms by (simp add: mbx32_def mbx16_def get32_def get16_def list_buf_def)
qed

theorem SDOread_reads_witness:
  "\<exists>d. ecx_SDOread 1 0x1018 1 False 4 [9, 9, 9, 9] 700000 (demo_mbx_wire (demo_mbx_frames (demo_answer 10 0x4b [0x18, 0x10, 1, 0x34, 0x12, 0, 0, 0])))
     = Some (1, 2, [0x34, 0x12, 9, 9], d)"
proof -
  let ?bs = "[0x18, 0x10, 1, 0x34, 0x12, 0, 0, 0] :: u8 list"
  let ?r = "demo_answer 10 0x4b ?bs"
  have l8: "length ?bs = 8" by simp
  note a = demo_answer [OF l8, where len = 10 and cmd = "0x4b"]
  note w = demo_mbx_wire [OF a(1)]
  have idx: "mbx16 (in_mbx ?r) 9 = 0x1018" unfolding a(5) by (simp add: mk16_def)
  have "mem_read (in_mbx ?r) 12 2 = Some (take 2 (drop 12 ?r))" using a(1) by (simp add: in_mbx_fields)
  moreover have "take 2 (drop 12 ?r) = [0x34, 0x12]" by (simp add: demo_answer_def enc16_def)
  moreover have "4 - unat (drop_bit 2 (0x4b :: u8) AND 0x03) = 2" "(0x4b :: u8) AND 0x02 > 0" by code_simp+
  ultimately have obj: "sdo_object (in_mbx ?r) = Some [0x34, 0x12]" by (simp only: sdo_object_def a(3) if_True)
  have "\<exists>d. ecx_SDOread 1 0x1018 1 False 4 [9, 9, 9, 9] 700000 (demo_mbx_wire (demo_mbx_frames ?r)) =
      Some (1, int (length ([0x34, 0x12] :: u8 list)), put_bytes 0 [0x34, 0x12] [9, 9, 9, 9], d) \<and> asks (demo_mbx_wire (demo_mbx_frames ?r)) d"
    by (rule SDOread_reads [OF w(1-4) a(7) a(7) a(2) idx obj]) (simp_all add: w(5))
  then show ?thesis by (auto simp: put_bytes_def)
qed

section \<open>What a slave can do to its master\<close>

lemma ensures_never: "ensures m (\<lambda>_. False) \<Longrightarrow> m = None"
  by (cases m) simp_all

lemma sdo_up_loop_mute:
  assumes "mute slave c"
  shows "do_while (sdo_up_body slave i si t) (toggle, hp, m, out, w, psize, p, c) = None"
proof -
  have "ensures (do_while (sdo_up_body slave i si t) (toggle, hp, m, out, w, psize, p, c)) (\<lambda>_. False)"
  proof (rule do_while_ensures [where P = "\<lambda>(_, _, _, _, _, _, _, c). mute slave c"])
    fix s :: sdo_up_state assume "case s of (_, _, _, _, _, _, _, c) \<Rightarrow> mute slave c"
    then obtain tg hp m out w n p c where s: "s = (tg, hp, m, out, w, n, p, c)" "mute slave c" by (cases s) auto
    obtain cnt d where d: "mbx_session slave c = Some (cnt, d)" "mute slave d"
      using mute_session [OF s(2)] by (auto simp: returns_iff)
    let ?out = "put_bytes 0 (sdo_request 0x000a cnt (ECT_SDO_SEG_UP_REQ + tg) i si @ enc32 0) out"
    obtain e where "mbx_exchange slave ?out m t d = Some (0, m, e)" "mute slave e"
      using mute_exchange [OF d(2), of ?out m t] by (auto simp: returns_iff)
    with d(1) show "ensures (sdo_up_body slave i si t s) (\<lambda>(s', again). if again
        then case s' of (_, _, _, _, _, _, _, c) \<Rightarrow> mute slave c else False)"
      by (simp add: s(1) sdo_up_body_def)
  qed (use assms in simp)
  then show ?thesis by (rule ensures_never)
qed



lemma demo_answer_length:
  assumes "length bs = 8" "bs ! 3 = lo8 n" "bs ! 4 = hi8 n" "bs ! 5 = lo8 k" "bs ! 6 = hi8 k"
  shows "mbx32 (in_mbx (demo_answer len cmd bs)) 12 = ucast n OR push_bit 16 (ucast k)"
  using assms demo_answer(6) [OF assms(1), of len cmd] by (simp add: get32_def get16_def list_buf_def)


text \<open>
  The length of an object is taken from the answer and compared as a signed number: a slave
  that answers with a negative length passes the check against the size of the memory of the
  caller, and the master copies with this length.
\<close>

theorem SDOread_negative_length_faults:
  assumes "ctx_inv c" "slave_valid c slave" "at_rest l fs (port c)" "mbx_frames (slavelist c ! unat slave) l stale resp fs"
    and "deliverable c slave (in_mbx stale)" "deliverable c slave (in_mbx resp)"
    and "coe_service ECT_COES_SDORES (in_mbx resp)" "mbx16 (in_mbx resp) 9 = i" "mbx8 (in_mbx resp) 8 AND 0x02 = 0"
    and "sint (mbx32 (in_mbx resp) 12) < 0" "0 \<le> psize"
  shows "ecx_SDOread slave i si CA psize p t c = None"
proof -
  obtain d si' out where d: "ecx_SDOread slave i si CA psize p t c = sdo_up_answer slave i si' t (in_mbx resp) out (1, psize, p, d)"
    by (rule SDOread_answered [OF assms(1-6)]) (rule that)
  have "\<not> int (unat (mbx16 (in_mbx resp) 0 - 10)) < sint (mbx32 (in_mbx resp) 12)" using assms(10) by linarith
  moreover have "sint (mbx32 (in_mbx resp) 12) \<le> psize" using assms(10,11) by linarith
  ultimately have "sdo_normal slave i si' t (in_mbx resp) out (1, psize, p, d) = None"
    unfolding sdo_normal_def prod.case Let_def using assms(10) by simp
  with d assms(7-9) show ?thesis by (simp add: sdo_up_answer_def)
qed

theorem SDOread_negative_length_faults_witness:
  "ecx_SDOread 1 0x1018 1 False 4 [0, 0, 0, 0] 700000
     (demo_mbx_wire (demo_mbx_frames (demo_answer 10 0x41 [0x18, 0x10, 1, 0xff, 0xff, 0xff, 0xff, 0]))) = None"
proof -
  let ?bs = "[0x18, 0x10, 1, 0xff, 0xff, 0xff, 0xff, 0] :: u8 list"
  let ?r = "demo_answer 10 0x41 ?bs"
  have l8: "length ?bs = 8" by simp
  note a = demo_answer [OF l8, where len = 10 and cmd = "0x41"]
  note w = demo_mbx_wire [OF a(1)]
  have idx: "mbx16 (in_mbx ?r) 9 = 0x1018" unfolding a(5) by (simp add: mk16_def)
  have "mbx32 (in_mbx ?r) 12 = ucast (0xffff :: u16) OR push_bit 16 (ucast (0xffff :: u16))"
    by (rule demo_answer_length) (simp_all add: lo8_def hi8_def)
  moreover have "sint (ucast (0xffff :: u16) OR push_bit 16 (ucast (0xffff :: u16)) :: u32) = -1" by code_simp
  ultimately have n: "sint (mbx32 (in_mbx ?r) 12) < 0" by simp
  have "mbx8 (in_mbx ?r) 8 AND 0x02 = 0" unfolding a(3) by simp
  from SDOread_negative_length_faults [OF w(1-4) a(7) a(7) a(2) idx this n] show ?thesis by (simp add: w(5))
qed

text \<open>
  The number of PDOs that a slave announces counts a 16-bit loop variable: a slave that
  announces 65535 of them keeps the master in the loop for ever, whatever it answers then.
\<close>

theorem readPDOassign_endless:
  assumes "sdo_var slave assign 0 (enc16 0) c = Some (w, enc16 0xffff, d)" "w > 0"
  shows "ecx_readPDOassign slave assign c = None"
  using assms by (simp add: ecx_readPDOassign_def for_u16_endless)

theorem readPDOassign_endless_witness:
  "ecx_readPDOassign 1 0x1c12 (demo_mbx_wire (demo_mbx_frames (demo_answer 10 0x4b [0x12, 0x1c, 0, 0xff, 0xff, 0, 0, 0]))) = None"
proof -
  let ?bs = "[0x12, 0x1c, 0, 0xff, 0xff, 0, 0, 0] :: u8 list"
  let ?r = "demo_answer 10 0x4b ?bs"
  have l8: "length ?bs = 8" by simp
  note a = demo_answer [OF l8, where len = 10 and cmd = "0x4b"]
  note w = demo_mbx_wire [OF a(1)]
  have "mbx16 (in_mbx ?r) 9 = 0x1c12" unfolding a(5) by (simp add: mk16_def)
  moreover have "mem_read (in_mbx ?r) 12 2 = Some (take 2 (drop 12 ?r))" using a(1) by (simp add: in_mbx_fields)
  moreover have "take 2 (drop 12 ?r) = enc16 0xffff" by (simp add: demo_answer_def enc16_def lo8_def hi8_def)
  moreover have "4 - unat (drop_bit 2 (0x4b :: u8) AND 0x03) = 2" "(0x4b :: u8) AND 0x02 > 0" by code_simp+
  ultimately have idx: "mbx16 (in_mbx ?r) 9 = 0x1c12" and obj: "sdo_object (in_mbx ?r) = Some (enc16 0xffff)"
    by (simp_all only: sdo_object_def a(3) if_True)
  obtain d' si' out where d: "ecx_SDOread 1 0x1c12 0 False 2 (enc16 0) EC_TIMEOUTRXM (demo_mbx_wire (demo_mbx_frames ?r)) =
      sdo_up_answer 1 0x1c12 si' EC_TIMEOUTRXM (in_mbx ?r) out (1, 2, enc16 0, d')"
    by (rule SDOread_answered [OF w(1-4) a(7) a(7), of "0x1c12" 0 False 2 "enc16 0" EC_TIMEOUTRXM]) (auto simp: w(5))
  have "sdo_up_answer 1 0x1c12 si' EC_TIMEOUTRXM (in_mbx ?r) out (1, 2, enc16 0, d') = Some (1, 2, enc16 0xffff, d')"
    using sdo_up_answer_object [OF a(2) idx obj, of 2 "enc16 0" 1 si' EC_TIMEOUTRXM out 1 d'] by (simp add: put_bytes_def)
  with d have "sdo_var 1 0x1c12 0 (enc16 0) (demo_mbx_wire (demo_mbx_frames ?r)) = Some (1, enc16 0xffff, d')"
    by (simp add: sdo_var_def)
  from readPDOassign_endless [OF this zero_less_one] show ?thesis .
qed


section \<open>The object dictionary\<close>

definition od_ok :: "ec_ODlist \<Rightarrow> bool" where
  "od_ok od \<longleftrightarrow> length (od_Index od) = EC_MAXODLIST \<and> length (od_DataType od) = EC_MAXODLIST \<and> length (od_ObjectCode od) = EC_MAXODLIST \<and>
     length (od_MaxSub od) = EC_MAXODLIST \<and> length (od_Name od) = EC_MAXODLIST"

definition oe_ok :: "ec_OElist \<Rightarrow> bool" where
  "oe_ok oe \<longleftrightarrow> length (oe_ValueInfo oe) = EC_MAXOELIST \<and> length (oe_DataType oe) = EC_MAXOELIST \<and> length (oe_BitLength oe) = EC_MAXOELIST \<and>
     length (oe_ObjAccess oe) = EC_MAXOELIST \<and> length (oe_Name oe) = EC_MAXOELIST"

lemma sdoinfo_request_fit: "length bs \<le> 16 \<Longrightarrow> mbx_fit (sdoinfo_request len cnt op bs)"
  by (simp add: sdoinfo_request_def)

lemma sdoinfo_send_from:
  assumes "asks c0 c" "slave_valid c0 slave" "length bs \<le> 16"
  shows "returns (sdoinfo_send slave len op bs c) (\<lambda>(w, m, d). asks c0 d \<and> mbx_fit m)"
  using assms
  by (auto simp: sdoinfo_send_def sdoinfo_request_fit case_prod_unfold simp del: returns_bind intro!: coe_steps [where ?c0.0 = c0])

lemma readOEsingle_from:
  assumes "asks c0 c" "slave_valid c0 (od_Slave od)" "oe_ok oe" "unat Item < length (od_Index od)"
  shows "returns (ecx_readOEsingle Item SubI od oe c) (\<lambda>r. oe_ok (fst (snd r)) \<and> asks c0 (snd (snd r)))"
proof -
  have s: "unat SubI < EC_MAXOELIST" using unsigned_less [of SubI, where 'a = nat] by simp
  have send: "returns (sdoinfo_send (od_Slave od) 0x000a ECT_GET_OE_REQ (enc16 (od_Index od ! unat Item) @ [SubI, 7]) c) (\<lambda>(w, m, d). asks c0 d \<and> mbx_fit m)"
    by (rule sdoinfo_send_from [OF assms(1,2)]) simp
  show ?thesis
    using assms s send
    by (auto simp: ecx_readOEsingle_def returns_pure case_prod_unfold Let_def oe_ok_def simp del: returns_bind
        intro!: coe_steps [where ?c0.0 = c0] returns_bindI [OF send])
qed

lemma readOE_from:
  assumes "asks c0 c" "slave_valid c0 (od_Slave od)" "oe_ok oe" "od_ok od" "unat Item < EC_MAXODLIST"
  shows "returns (ecx_readOE Item od oe c) (\<lambda>r. oe_ok (fst (snd r)) \<and> asks c0 (snd (snd r)))"
proof -
  let ?n = "ucast (od_MaxSub od ! unat Item) :: u16"
  let ?P = "\<lambda>i :: u16. \<lambda>r :: int \<times> ec_OElist \<times> ecx_context. oe_ok (fst (snd r)) \<and> asks c0 (snd (snd r))"
  have "unat (od_MaxSub od ! unat Item) < 256" using unsigned_less [of "od_MaxSub od ! unat Item", where 'a = nat] by simp
  then have n: "?n < 0xffff" by (simp add: word_less_nat_alt unsigned_ucast_eq take_bit_nat_eq_self)
  have "returns (for_u16 0 ?n (\<lambda>SubCount (_, oe, c). ecx_readOEsingle Item (ucast SubCount) od oe c) (0, oe\<lparr>oe_Entries := 0\<rparr>, c)) (?P (?n + 1))"
  proof (rule for_u16_returns [where P = ?P, OF _ n])
    fix i s assume "?P i s"
    then show "returns ((\<lambda>(_, oe, c). ecx_readOEsingle Item (ucast i) od oe c) s) (?P (i + 1))"
      using readOEsingle_from [of c0 "snd (snd s)" od "fst (snd s)" Item "ucast i"] assms(2,4,5)
      by (cases s) (simp add: od_ok_def)
  qed (use assms in \<open>simp_all add: oe_ok_def\<close>)
  then show ?thesis using assms(4,5) by (simp add: ecx_readOE_def od_ok_def)
qed


text \<open>
  Reading the description of an object with all its entries returns, whatever the slave
  answers, stays inside the tables of the caller and changes nothing of the master but the
  mailbox counter and the error list.
\<close>

theorem readOE_total:
  assumes "ctx_inv c" "slave_valid c (od_Slave od)" "oe_ok oe" "od_ok od" "unat Item < EC_MAXODLIST"
  shows "returns (ecx_readOE Item od oe c) (\<lambda>(w, oe', d). oe_ok oe' \<and> asks c d)"
  using readOE_from [OF asks_refl [OF assms(1)] assms(2-5)] by (rule returns_mono) auto

definition demo_od :: ec_ODlist where
  "demo_od = \<lparr>od_Slave = 1, od_Entries = 1, od_Index = replicate EC_MAXODLIST 0x1018, od_DataType = replicate EC_MAXODLIST 0,
     od_ObjectCode = replicate EC_MAXODLIST 0, od_MaxSub = replicate EC_MAXODLIST 255, od_Name = replicate EC_MAXODLIST (replicate 41 0)\<rparr>"

definition demo_oe :: ec_OElist where
  "demo_oe = \<lparr>oe_Entries = 0, oe_ValueInfo = replicate EC_MAXOELIST 0, oe_DataType = replicate EC_MAXOELIST 0,
     oe_BitLength = replicate EC_MAXOELIST 0, oe_ObjAccess = replicate EC_MAXOELIST 0, oe_Name = replicate EC_MAXOELIST (replicate 41 0)\<rparr>"

theorem readOE_total_witness: "\<exists>w oe d. ecx_readOE 0 demo_od demo_oe (demo_mbx_context 128) = Some (w, oe, d) \<and> oe_ok oe"
proof -
  have "slave_valid (demo_mbx_context 128) (od_Slave demo_od)" using demo_mbx_inv(2) by (simp add: demo_od_def)
  moreover have "oe_ok demo_oe" "od_ok demo_od" by (simp_all add: oe_ok_def od_ok_def demo_od_def demo_oe_def)
  ultimately show ?thesis using readOE_total [OF demo_mbx_inv(1) [of 128], where od = demo_od and oe = demo_oe and Item = 0] by (auto simp: returns_iff)
qed

lemma half_sdiv: "int k sdiv 2 = int (k div 2)"
  by (cases "k = 0") (simp_all add: signed_divide_int_def zdiv_int)

lemma half_difference: "b \<le> a \<Longrightarrow> (int a - int b) sdiv 2 = int ((a - b) div 2)"
proof -
  assume "b \<le> a"
  then have eq: "int a - int b = int (a - b)" by simp
  show ?thesis unfolding eq by (rule half_sdiv)
qed

text \<open>
  A fragment of the list of objects whose length field does not exceed the mailbox is put
  behind the entries that are there, in their order; the number of entries grows by what the
  fragment holds and never beyond the table of 1024.
\<close>

theorem odlist_fragment_appends:
  assumes "ctx_inv c" "length m = EC_MAXMBX + 1" "od_ok od" "sp = od_Entries od"
    and "n = (unat (mbx16 m 0) - (if First then 8 else 6)) div 2" "(if First then 8 else 6) \<le> unat (mbx16 m 0)" "unat (mbx16 m 0) \<le> 1466"
    and "unat (od_Entries od) + n \<le> EC_MAXODLIST"
  shows "\<exists>sp' od'. odlist_fragment slave m First sp od c = Some (sp', od', c) \<and> sp' = od_Entries od' \<and> od_ok od' \<and>
    unat (od_Entries od') = unat (od_Entries od) + n \<and>
    take (unat (od_Entries od')) (od_Index od') = take (unat (od_Entries od)) (od_Index od) @
      map (\<lambda>k. mbx16 m (12 + 2 * ((if First then 1 else 0) + k))) [0..<n]"
proof -
  let ?e = "unat (od_Entries od)" and ?h = "if First then 8 else (6 :: nat)" and ?o = "if First then 1 else (0 :: nat)"
  have d: "(int (unat (mbx16 m 0)) - int ?h) sdiv 2 = int n"
    unfolding assms(5) by (rule half_difference) (use assms(6) in simp)
  have n: "n \<le> 730" "?o + n \<le> 731" using assms(5,7) by (auto split: if_splits)
  then have u: "unat (of_nat n :: u16) = n" by (intro unat_of_nat_u16) simp
  have e: "unat (od_Entries od + of_nat n) = ?e + n" using u assms(8) by (simp add: unat_plus_if')
  let ?ws = "map (\<lambda>k. mbx16 m (12 + 2 * (?o + k))) [0..<n]"
  let ?ix = "take ?e (od_Index od) @ ?ws @ drop (?e + n) (od_Index od)"
  have w: "mbx_words m ?o n = Some ?ws" using n(2) assms(2) by (simp add: mbx_words_def)
  have l: "list_write (od_Index od) ?e ?ws = Some ?ix" using assms(3,8) by (simp add: list_write_def od_ok_def)
  have "odlist_fragment slave m First sp od c = Some (sp + of_nat n, od\<lparr>od_Entries := od_Entries od + of_nat n, od_Index := ?ix\<rparr>, c)"
    using d u w l assms(8) unfolding odlist_fragment_def Let_def assms(4) by (cases First) (simp_all add: not_less)
  moreover have "od_ok (od\<lparr>od_Entries := od_Entries od + of_nat n, od_Index := ?ix\<rparr>)"
    using assms(3,8) by (simp add: od_ok_def)
  ultimately show ?thesis using assms(3,4,8) e by (simp add: od_ok_def)
qed


definition demo_odlist_answer :: ec_mbxbuf where
  "demo_odlist_answer = put_bytes 0 (enc16 12 @ [0, 0, 0, 0x13, 0, 0x80, 0x82, 0, 0, 0, 1, 0, 0x00, 0x10, 0x18, 0x10]) new_mbx"

theorem odlist_fragment_appends_witness:
  "\<exists>od'. odlist_fragment 1 demo_odlist_answer True 0 (demo_od\<lparr>od_Entries := 0\<rparr>) (demo_mbx_context 128) = Some (2, od', demo_mbx_context 128) \<and>
     take 2 (od_Index od') = [0x1000, 0x1018]"
proof -
  let ?m = demo_odlist_answer and ?od = "demo_od\<lparr>od_Entries := 0\<rparr>"
  have len: "length ?m = EC_MAXMBX + 1" by (simp add: demo_odlist_answer_def new_mbx_def)
  have w: "mbx16 ?m 0 = 12" "mbx16 ?m 14 = 0x1000" "mbx16 ?m 16 = 0x1018"
    by (simp_all add: demo_odlist_answer_def mbx16_def get16_def list_buf_def put_bytes_def enc16_def nth_append mk16_def new_mbx_def lo8_def hi8_def)
  have od: "od_ok ?od" by (simp add: od_ok_def demo_od_def)
  have n: "2 = (unat (mbx16 ?m 0) - (if True then 8 else 6)) div 2" by (simp add: w)
  from odlist_fragment_appends [OF demo_mbx_inv(1) [of 128] len od refl n]
  obtain sp' od' where *: "odlist_fragment 1 ?m True (od_Entries ?od) ?od (demo_mbx_context 128) = Some (sp', od', demo_mbx_context 128)"
      "sp' = od_Entries od'" "unat (od_Entries od') = 2" "take (unat (od_Entries od')) (od_Index od') = map (\<lambda>k. mbx16 ?m (14 + 2 * k)) [0..<2]"
    by (fastforce simp: w)
  have "od_Entries od' = 2" using *(3) by (simp add: word_unat_eq_iff)
  with * show ?thesis by (auto simp: w upt_conv_Cons)
qed

end
