(* ===== verification/Soe.thy ===== *)
theory Soe
  imports CoeProps
begin

text \<open>
  Servo drive profile over EtherCAT, \<^verbatim>\<open>soem/ethercatsoe.c\<close>: reading and writing the elements of
  a parameter (IDN) of one of the drives of a slave, in fragments where they are long, and the
  sizes of the cyclic telegrams that result from the two configuration lists. In an SoE mailbox
  byte 6 holds the operation, the flags of a fragment and of an error and the number of the drive,
  byte 7 the elements, bytes 8 and 9 the IDN or the number of fragments left; data start at 10.
\<close>

section \<open>Operations\<close>

abbreviation ECT_SOE_READREQ :: u8 where "ECT_SOE_READREQ \<equiv> 1"
abbreviation ECT_SOE_READRES :: u8 where "ECT_SOE_READRES \<equiv> 2"
abbreviation ECT_SOE_WRITEREQ :: u8 where "ECT_SOE_WRITEREQ \<equiv> 3"
abbreviation ECT_SOE_WRITERES :: u8 where "ECT_SOE_WRITERES \<equiv> 4"
abbreviation EC_SOE_ATTRIBUTE_B :: u8 where "EC_SOE_ATTRIBUTE_B \<equiv> 0x04"
abbreviation EC_SOE_VALUE_B :: u8 where "EC_SOE_VALUE_B \<equiv> 0x40"
abbreviation EC_IDN_MDTCONFIG :: u16 where "EC_IDN_MDTCONFIG \<equiv> 24"
abbreviation EC_IDN_ATCONFIG :: u16 where "EC_IDN_ATCONFIG \<equiv> 16"
abbreviation EC_SOE_MAXMAPPING :: nat where "EC_SOE_MAXMAPPING \<equiv> 64"
abbreviation EC_SOE_MAX_DRIVES :: nat where "EC_SOE_MAX_DRIVES \<equiv> 8"

definition ecx_SoEerror :: "u16 \<Rightarrow> u16 \<Rightarrow> u16 \<Rightarrow> ecx_context \<Rightarrow> ecx_context option" where
  "ecx_SoEerror slave idn err c =
     (let (t, c) = ctx_current_time c
      in ecx_pusherror (no_error\<lparr>Time := t, Slave := slave, Index := idn, SubIdx := 0,
           Etype := EC_ERR_TYPE_SOE_ERROR, ErrorCode := err\<rparr>) (c\<lparr>ecaterror := True\<rparr>))"

text \<open>The byte of bit fields, and the header up to the IDN.\<close>

definition soe_bits :: "u8 \<Rightarrow> bool \<Rightarrow> u8 \<Rightarrow> u8" where
  "soe_bits opCode incomplete driveNo = opCode OR (if incomplete then 0x08 else 0) OR push_bit 5 driveNo"

definition soe_head :: "u16 \<Rightarrow> u8 \<Rightarrow> u8 \<Rightarrow> u8 \<Rightarrow> u16 \<Rightarrow> u8 list" where
  "soe_head len cnt bits elementflags idn = mbx_header len 0 ECT_MBXT_SOE cnt @ [bits, elementflags] @ enc16 idn"

definition soe_opCode :: "ec_mbxbuf \<Rightarrow> u8" where
  "soe_opCode m = mbx8 m 6 AND 0x07"

definition soe_incomplete :: "ec_mbxbuf \<Rightarrow> bool" where
  "soe_incomplete m = (mbx8 m 6 AND 0x08 \<noteq> 0)"

definition soe_error :: "ec_mbxbuf \<Rightarrow> bool" where
  "soe_error m = (mbx8 m 6 AND 0x10 \<noteq> 0)"

definition soe_driveNo :: "ec_mbxbuf \<Rightarrow> u8" where
  "soe_driveNo m = drop_bit 5 (mbx8 m 6)"

definition soe_answer :: "u8 \<Rightarrow> u8 \<Rightarrow> u8 \<Rightarrow> ec_mbxbuf \<Rightarrow> bool" where
  "soe_answer opCode driveNo elementflags m \<longleftrightarrow> mbx_kind m = ECT_MBXT_SOE \<and> soe_opCode m = opCode \<and> \<not> soe_error m \<and>
     soe_driveNo m = driveNo \<and> mbx8 m 7 = elementflags"

text \<open>Another answer: the error code is the last word of the mailbox by its length field.\<close>

definition soe_unexpected :: "u16 \<Rightarrow> u16 \<Rightarrow> ec_mbxbuf \<Rightarrow> ecx_context \<Rightarrow> ecx_context option" where
  "soe_unexpected slave idn m c =
     (if mbx_kind m = ECT_MBXT_SOE \<and> soe_opCode m = ECT_SOE_READRES \<and> soe_error m then do {
        chk (unat (mbx16 m 0) + 6 \<le> length m);
        ecx_SoEerror slave idn (mbx16 m (unat (mbx16 m 0) + 4)) c
      } else ecx_packeterror slave idn 0 1 c)"

section \<open>Reading\<close>

text \<open>
  What a fragment does to the total size and to the memory of the caller at \<open>bp\<close>; what does not
  fit is cut off. The length field is unsigned, the size computed from it is not: a length below
  four makes \<^verbatim>\<open>memcpy\<close> fail.
\<close>

definition soe_fragment :: "ec_mbxbuf \<Rightarrow> int \<Rightarrow> int \<times> nat \<times> u8 list \<Rightarrow> (int \<times> nat \<times> u8 list) option" where
  "soe_fragment m psize = (\<lambda>(totalsize, bp, p).
     let framedatasize = int (unat (mbx16 m 0)) - 4;
         totalsize = totalsize + framedatasize
     in if totalsize \<le> psize then do {
          chk (0 \<le> framedatasize);
          bs \<leftarrow> mem_read m 10 (nat framedatasize);
          p \<leftarrow> mem_write p bp bs;
          Some (totalsize, bp + nat framedatasize, p)
        } else do {
          let framedatasize = framedatasize - (totalsize - psize);
          if framedatasize > 0 then do {
            bs \<leftarrow> mem_read m 10 (nat framedatasize);
            p \<leftarrow> mem_write p bp bs;
            Some (psize, bp, p)
          } else Some (psize, bp, p)
        })"

text \<open>NotLast, total size, place in the memory of the caller and this memory, size for the caller, result, mailbox.\<close>

type_synonym soe_read_state = "bool \<times> (int \<times> nat \<times> u8 list) \<times> int \<times> int \<times> ec_mbxbuf \<times> ecx_context"

definition soe_read_body :: "u16 \<Rightarrow> u8 \<Rightarrow> u8 \<Rightarrow> u16 \<Rightarrow> int \<Rightarrow> soe_read_state \<Rightarrow> soe_read_state option" where
  "soe_read_body slave driveNo elementflags idn timeout = (\<lambda>(NotLast, f, psize, wkc, MbxIn, c). do {
     (wkc, MbxIn, c) \<leftarrow> ecx_mbxreceive slave (ec_clearmbx MbxIn) timeout c;
     if wkc > 0 then
       if soe_answer ECT_SOE_READRES driveNo elementflags MbxIn then do {
         f \<leftarrow> soe_fragment MbxIn psize f;
         if \<not> soe_incomplete MbxIn then Some (False, f, fst f, wkc, MbxIn, c)
         else Some (NotLast, f, psize, wkc, MbxIn, c)
       } else do {
         c \<leftarrow> soe_unexpected slave idn MbxIn c;
         Some (False, f, psize, 0, MbxIn, c)
       }
     else do {
       c \<leftarrow> ecx_packeterror slave idn 0 4 c;
       Some (False, f, psize, wkc, MbxIn, c)
     }
   })"

definition ecx_SoEread :: "u16 \<Rightarrow> u8 \<Rightarrow> u8 \<Rightarrow> u16 \<Rightarrow> int \<Rightarrow> u8 list \<Rightarrow> int \<Rightarrow> ecx_context \<Rightarrow> (int \<times> int \<times> u8 list \<times> ecx_context) option" where
  "ecx_SoEread slave driveNo elementflags idn psize p timeout c = do {
     (MbxIn, c) \<leftarrow> mbx_flush slave c;
     (cnt, c) \<leftarrow> mbx_session slave c;
     let MbxOut = put_bytes 0 (soe_head 0x0004 cnt (soe_bits ECT_SOE_READREQ False driveNo) elementflags idn) new_mbx;
     (wkc, c) \<leftarrow> ecx_mbxsend slave MbxOut EC_TIMEOUTTXM c;
     if wkc > 0 then do {
       (_, (_, _, p), psize, wkc, _, c) \<leftarrow> while_loop fst (soe_read_body slave driveNo elementflags idn timeout)
         (True, (0, 0, p), psize, wkc, MbxIn, c);
       Some (wkc, psize, p, c)
     } else Some (wkc, psize, p, c)
   }"

section \<open>Writing\<close>

text \<open>Size of the next fragment, whether more follow, and their number.\<close>

definition soe_next :: "int \<Rightarrow> int \<Rightarrow> (int \<times> bool \<times> u16) option" where
  "soe_next maxdata psize =
     (if psize > maxdata then do { chk (maxdata \<noteq> 0); Some (maxdata, True, word_of_int (psize sdiv maxdata)) }
      else Some (psize, False, 0))"

text \<open>NotLast, place in the memory of the caller, bytes left, result, the mailboxes.\<close>

type_synonym soe_write_state = "bool \<times> nat \<times> int \<times> int \<times> ec_mbxbuf \<times> ec_mbxbuf \<times> ecx_context"

definition soe_write_answer :: "u16 \<Rightarrow> u8 \<Rightarrow> u8 \<Rightarrow> u16 \<Rightarrow> int \<Rightarrow> soe_write_state \<Rightarrow> soe_write_state option" where
  "soe_write_answer slave driveNo elementflags idn timeout = (\<lambda>(NotLast, hp, psize, wkc, MbxIn, MbxOut, c). do {
     (wkc, MbxIn, c) \<leftarrow> ecx_mbxreceive slave (ec_clearmbx MbxIn) timeout c;
     if wkc > 0 then
       if soe_answer ECT_SOE_WRITERES driveNo elementflags MbxIn then Some (False, hp, psize, wkc, MbxIn, MbxOut, c)
       else do {
         c \<leftarrow> soe_unexpected slave idn MbxIn c;
         Some (False, hp, psize, 0, MbxIn, MbxOut, c)
       }
     else do {
       c \<leftarrow> ecx_packeterror slave idn 0 4 c;
       Some (NotLast, hp, psize, wkc, MbxIn, MbxOut, c)
     }
   })"

definition soe_write_body :: "u16 \<Rightarrow> u8 \<Rightarrow> u8 \<Rightarrow> u16 \<Rightarrow> int \<Rightarrow> u8 list \<Rightarrow> int \<Rightarrow> soe_write_state \<Rightarrow> soe_write_state option" where
  "soe_write_body slave driveNo elementflags idn maxdata p timeout = (\<lambda>(_, hp, psize, wkc, MbxIn, MbxOut, c). do {
     (framedatasize, NotLast, left) \<leftarrow> soe_next maxdata psize;
     (cnt, c) \<leftarrow> mbx_session slave c;
     let MbxOut = put_bytes 0 (soe_head (word_of_int (4 + framedatasize)) cnt (soe_bits ECT_SOE_WRITEREQ NotLast driveNo)
       elementflags (if NotLast then left else idn)) MbxOut;
     chk (0 \<le> framedatasize);
     bs \<leftarrow> mem_read p hp (nat framedatasize);
     MbxOut \<leftarrow> mem_write MbxOut 10 bs;
     let hp = hp + nat framedatasize;
     let psize = psize - framedatasize;
     (wkc, c) \<leftarrow> ecx_mbxsend slave MbxOut EC_TIMEOUTTXM c;
     if wkc > 0 then
       if \<not> NotLast then soe_write_answer slave driveNo elementflags idn timeout (NotLast, hp, psize, wkc, MbxIn, MbxOut, c)
       else do {
         (empty, c) \<leftarrow> ecx_mbxempty slave timeout c;
         if empty = 0 then soe_write_answer slave driveNo elementflags idn timeout (NotLast, hp, psize, wkc, MbxIn, MbxOut, c)
         else Some (NotLast, hp, psize, wkc, MbxIn, MbxOut, c)
       }
     else Some (NotLast, hp, psize, wkc, MbxIn, MbxOut, c)
   })"

definition ecx_SoEwrite :: "u16 \<Rightarrow> u8 \<Rightarrow> u8 \<Rightarrow> u16 \<Rightarrow> int \<Rightarrow> u8 list \<Rightarrow> int \<Rightarrow> ecx_context \<Rightarrow> (int \<times> ecx_context) option" where
  "ecx_SoEwrite slave driveNo elementflags idn psize p timeout c = do {
     (MbxIn, c) \<leftarrow> mbx_flush slave c;
     s \<leftarrow> get_slave slave c;
     let maxdata = int (unat (s_mbx_l s)) - 10;
     (_, _, _, wkc, _, _, c) \<leftarrow> while_loop fst (soe_write_body slave driveNo elementflags idn maxdata p timeout)
       (True, 0, psize, 0, MbxIn, new_mbx, c);
     Some (wkc, c)
   }"

section \<open>Sizes of the cyclic telegrams\<close>

text \<open>
  The structures the lists and attributes are read into are not initialised; \<open>mp\<close> and \<open>at\<close> are
  what lies in their memory, of 132 and 4 bytes. What an attribute says counts as soon as the
  read was successful.
\<close>

definition soe_attribute_bits :: "u8 list \<Rightarrow> u32" where
  "soe_attribute_bits at = (if at ! 2 AND 0x04 = 0 then push_bit (unat (at ! 2 AND 0x03)) 8 else 0)"

definition soe_add_item :: "u16 \<Rightarrow> u8 \<Rightarrow> u8 list \<Rightarrow> nat \<Rightarrow> u32 \<times> u8 list \<times> ecx_context \<Rightarrow> (u32 \<times> u8 list \<times> ecx_context) option" where
  "soe_add_item slave driveNr mp itemcount = (\<lambda>(bits, at, c). do {
     (wkc, _, at, c) \<leftarrow> ecx_SoEread slave driveNr EC_SOE_ATTRIBUTE_B (mk16 (mp ! (4 + 2 * itemcount)) (mp ! (5 + 2 * itemcount))) 4 at EC_TIMEOUTRXM c;
     Some (if wkc > 0 then bits + soe_attribute_bits at else bits, at, c)
   })"

definition soe_add_list :: "u16 \<Rightarrow> u8 \<Rightarrow> u16 \<Rightarrow> u32 \<Rightarrow> u8 list \<Rightarrow> u8 list \<Rightarrow> ecx_context \<Rightarrow> (u32 \<times> u8 list \<times> u8 list \<times> ecx_context) option" where
  "soe_add_list slave driveNr idn bits mp at c = do {
     (wkc, psize, mp, c) \<leftarrow> ecx_SoEread slave driveNr EC_SOE_VALUE_B idn 132 mp EC_TIMEOUTRXM c;
     let entries = unat (mk16 (mp ! 0) (mp ! 1)) div 2;
     if wkc > 0 \<and> psize \<ge> 4 \<and> entries > 0 \<and> entries \<le> EC_SOE_MAXMAPPING then do {
       (bits, at, c) \<leftarrow> for_loop entries 0 (soe_add_item slave driveNr mp) (bits + 16, at, c);
       Some (bits, mp, at, c)
     } else Some (bits, mp, at, c)
   }"

definition ecx_readIDNmap :: "u16 \<Rightarrow> u8 list \<Rightarrow> u8 list \<Rightarrow> ecx_context \<Rightarrow> (int \<times> u32 \<times> u32 \<times> ecx_context) option" where
  "ecx_readIDNmap slave mp at c = do {
     (Osize, Isize, _, _, c) \<leftarrow> for_loop EC_SOE_MAX_DRIVES 0 (\<lambda>driveNr (Osize, Isize, mp, at, c). do {
       (Osize, mp, at, c) \<leftarrow> soe_add_list slave (of_nat driveNr) EC_IDN_MDTCONFIG Osize mp at c;
       (Isize, mp, at, c) \<leftarrow> soe_add_list slave (of_nat driveNr) EC_IDN_ATCONFIG Isize mp at c;
       Some (Osize, Isize, mp, at, c)
     }) (0, 0, mp, at, c);
     Some (if Isize > 0 \<or> Osize > 0 then 1 else 0, Osize, Isize, c)
   }"

end
