(* ===== verification/Foe.thy ===== *)
theory Foe
  imports MbxWire
begin

text \<open>
  File access over EtherCAT, \<^verbatim>\<open>soem/ethercatfoe.c\<close>: reading and writing a file in packets that
  the receiver acknowledges. In an FoE mailbox the operation is at byte 6, the password, packet
  number or error code at 8 and the file name or the data from 12 on. A progress hook only looks
  at the transfer; its result is not used.
\<close>

section \<open>Operations\<close>

abbreviation ECT_FOE_READ :: u8 where "ECT_FOE_READ \<equiv> 1"
abbreviation ECT_FOE_WRITE :: u8 where "ECT_FOE_WRITE \<equiv> 2"
abbreviation ECT_FOE_DATA :: u8 where "ECT_FOE_DATA \<equiv> 3"
abbreviation ECT_FOE_ACK :: u8 where "ECT_FOE_ACK \<equiv> 4"
abbreviation ECT_FOE_ERROR :: u8 where "ECT_FOE_ERROR \<equiv> 5"
abbreviation ECT_FOE_BUSY :: u8 where "ECT_FOE_BUSY \<equiv> 6"

text \<open>The error types as numbers: negative results name them.\<close>

definition err_number :: "ec_err_type \<Rightarrow> int" where
  "err_number e = (case e of EC_ERR_TYPE_SDO_ERROR \<Rightarrow> 0 | EC_ERR_TYPE_EMERGENCY \<Rightarrow> 1 | EC_ERR_TYPE_PACKET_ERROR \<Rightarrow> 3
     | EC_ERR_TYPE_SDOINFO_ERROR \<Rightarrow> 4 | EC_ERR_TYPE_FOE_ERROR \<Rightarrow> 5 | EC_ERR_TYPE_FOE_BUF2SMALL \<Rightarrow> 6
     | EC_ERR_TYPE_FOE_PACKETNUMBER \<Rightarrow> 7 | EC_ERR_TYPE_SOE_ERROR \<Rightarrow> 8 | EC_ERR_TYPE_MBX_ERROR \<Rightarrow> 9
     | EC_ERR_TYPE_FOE_FILE_NOTFOUND \<Rightarrow> 10 | EC_ERR_TYPE_EOE_INVALID_RX_DATA \<Rightarrow> 11)"

definition ecx_FOEdefinehook :: "(u16 \<Rightarrow> int \<Rightarrow> int \<Rightarrow> int) option \<Rightarrow> ecx_context \<Rightarrow> int \<times> ecx_context" where
  "ecx_FOEdefinehook hook c = (1, c\<lparr>FOEhook := hook\<rparr>)"

text \<open>The header of a packet up to the reserved byte, and the request with the name of the file.\<close>

definition foe_head :: "u16 \<Rightarrow> u8 \<Rightarrow> u8 \<Rightarrow> u8 list" where
  "foe_head len cnt opcode = mbx_header len 0 ECT_MBXT_FOE cnt @ [opcode]"

definition foe_packet :: "u16 \<Rightarrow> u8 \<Rightarrow> u8 \<Rightarrow> u32 \<Rightarrow> ec_mbxbuf \<Rightarrow> ec_mbxbuf" where
  "foe_packet len cnt opcode number m = put_bytes 8 (enc32 number) (put_bytes 0 (foe_head len cnt opcode) m)"

definition foe_request :: "u16 \<Rightarrow> u8 \<Rightarrow> u8 list \<Rightarrow> u32 \<Rightarrow> ecx_context \<Rightarrow> (int \<times> u16 \<times> ec_mbxbuf \<times> ec_mbxbuf \<times> ecx_context) option" where
  "foe_request slave opcode filename password c = do {
     (MbxIn, c) \<leftarrow> mbx_flush slave c;
     s \<leftarrow> get_slave slave c;
     let fnsize = (of_nat (length filename) :: u16);
     let maxdata = s_mbx_l s - 12;
     let fnsize = (if fnsize > maxdata then maxdata else fnsize);
     (cnt, c) \<leftarrow> mbx_session slave c;
     let MbxOut = foe_packet (0x0006 + fnsize) cnt opcode password new_mbx;
     bs \<leftarrow> mem_read filename 0 (unat fnsize);
     MbxOut \<leftarrow> mem_write MbxOut 12 bs;
     (wkc, c) \<leftarrow> ecx_mbxsend slave MbxOut EC_TIMEOUTTXM c;
     Some (wkc, maxdata, MbxIn, MbxOut, c)
   }"

section \<open>Reading a file\<close>

text \<open>Bytes read, packet number, result, size for the caller, his memory, the mailboxes.\<close>

type_synonym foe_read_state = "nat \<times> u32 \<times> int \<times> int \<times> u8 list \<times> ec_mbxbuf \<times> ec_mbxbuf \<times> ecx_context"

definition foe_read_data :: "u16 \<Rightarrow> u16 \<Rightarrow> int \<Rightarrow> foe_read_state \<Rightarrow> (foe_read_state \<times> bool) option" where
  "foe_read_data slave maxdata buffersize = (\<lambda>(dataread, prevpacket, wkc, psize, p, MbxIn, MbxOut, c). do {
     let segmentdata = mbx16 MbxIn 0 - 0x0006;
     let packetnumber = mbx32 MbxIn 8;
     let prevpacket = prevpacket + 1;
     if packetnumber = prevpacket \<and> int dataread + int (unat segmentdata) \<le> buffersize then do {
       bs \<leftarrow> mem_read MbxIn 12 (unat segmentdata);
       p \<leftarrow> mem_write p dataread bs;
       let dataread = dataread + unat segmentdata;
       (cnt, c) \<leftarrow> mbx_session slave c;
       let MbxOut = foe_packet 0x0006 cnt ECT_FOE_ACK packetnumber MbxOut;
       (wkc, c) \<leftarrow> ecx_mbxsend slave MbxOut EC_TIMEOUTTXM c;
       Some ((dataread, prevpacket, wkc, int dataread, p, MbxIn, MbxOut, c), segmentdata = maxdata \<and> \<not> wkc \<le> 0)
     } else Some ((dataread, prevpacket, - err_number EC_ERR_TYPE_FOE_BUF2SMALL, int dataread, p, MbxIn, MbxOut, c), False)
   })"

definition foe_read_body :: "u16 \<Rightarrow> u16 \<Rightarrow> int \<Rightarrow> int \<Rightarrow> foe_read_state \<Rightarrow> (foe_read_state \<times> bool) option" where
  "foe_read_body slave maxdata buffersize timeout = (\<lambda>(dataread, prevpacket, wkc, psize, p, MbxIn, MbxOut, c). do {
     (wkc, MbxIn, c) \<leftarrow> ecx_mbxreceive slave (ec_clearmbx MbxIn) timeout c;
     if wkc > 0 then
       if mbx_kind MbxIn = ECT_MBXT_FOE then
         if mbx8 MbxIn 6 = ECT_FOE_DATA then foe_read_data slave maxdata buffersize (dataread, prevpacket, wkc, psize, p, MbxIn, MbxOut, c)
         else Some ((dataread, prevpacket,
           - err_number (if mbx8 MbxIn 6 = ECT_FOE_ERROR then EC_ERR_TYPE_FOE_ERROR else EC_ERR_TYPE_PACKET_ERROR),
           int dataread, p, MbxIn, MbxOut, c), False)
       else Some ((dataread, prevpacket, - err_number EC_ERR_TYPE_PACKET_ERROR, int dataread, p, MbxIn, MbxOut, c), False)
     else Some ((dataread, prevpacket, wkc, psize, p, MbxIn, MbxOut, c), False)
   })"

definition ecx_FOEread :: "u16 \<Rightarrow> u8 list \<Rightarrow> u32 \<Rightarrow> int \<Rightarrow> u8 list \<Rightarrow> int \<Rightarrow> ecx_context \<Rightarrow> (int \<times> int \<times> u8 list \<times> ecx_context) option" where
  "ecx_FOEread slave filename password psize p timeout c = do {
     (wkc, maxdata, MbxIn, MbxOut, c) \<leftarrow> foe_request slave ECT_FOE_READ filename password c;
     if wkc > 0 then do {
       (_, _, wkc, psize', p, _, _, c) \<leftarrow> do_while (foe_read_body slave maxdata psize timeout) (0, 0, wkc, psize, p, MbxIn, MbxOut, c);
       Some (wkc, psize', p, c)
     } else Some (wkc, psize, p, c)
   }"

section \<open>Writing a file\<close>

text \<open>
  The next packet, when there is one: its size, what is left, and whether an empty packet is
  to follow because the last one was full.
\<close>

definition foe_next :: "u16 \<Rightarrow> int \<Rightarrow> bool \<Rightarrow> (int \<times> int \<times> bool) option" where
  "foe_next maxdata psize dofinalzero =
     (let tsize = (if psize > int (unat maxdata) then int (unat maxdata) else psize)
      in if tsize \<noteq> 0 \<or> dofinalzero
         then Some (tsize, psize - tsize, psize - tsize = 0 \<and> tsize = int (unat maxdata)) else None)"

text \<open>
  Final zero, packet number, size of the last packet, bytes left and their place in the memory
  of the caller, result, the mailboxes.
\<close>

type_synonym foe_write_state = "bool \<times> u32 \<times> int \<times> int \<times> int \<times> int \<times> ec_mbxbuf \<times> ec_mbxbuf \<times> ecx_context"

definition foe_write_ack :: "u16 \<Rightarrow> u16 \<Rightarrow> u8 list \<Rightarrow> foe_write_state \<Rightarrow> (foe_write_state \<times> bool) option" where
  "foe_write_ack slave maxdata p = (\<lambda>(dofinalzero, sendpacket, segmentdata, psize, hp, wkc, MbxIn, MbxOut, c).
     if mbx32 MbxIn 8 = sendpacket then
       case foe_next maxdata psize dofinalzero of
         Some (segmentdata, psize, dofinalzero) \<Rightarrow> do {
           (cnt, c) \<leftarrow> mbx_session slave c;
           let sendpacket = sendpacket + 1;
           let MbxOut = foe_packet (word_of_int (0x0006 + segmentdata)) cnt ECT_FOE_DATA sendpacket MbxOut;
           chk (0 \<le> segmentdata \<and> 0 \<le> hp);
           bs \<leftarrow> mem_read p (nat hp) (nat segmentdata);
           MbxOut \<leftarrow> mem_write MbxOut 12 bs;
           (wkc, c) \<leftarrow> ecx_mbxsend slave MbxOut EC_TIMEOUTTXM c;
           Some ((dofinalzero, sendpacket, segmentdata, psize, hp + segmentdata, wkc, MbxIn, MbxOut, c), \<not> wkc \<le> 0)
         }
       | None \<Rightarrow> Some ((dofinalzero, sendpacket, segmentdata, psize, hp, wkc, MbxIn, MbxOut, c), False)
     else Some ((dofinalzero, sendpacket, segmentdata, psize, hp, - err_number EC_ERR_TYPE_FOE_PACKETNUMBER, MbxIn, MbxOut, c), False))"

definition foe_write_body :: "u16 \<Rightarrow> u16 \<Rightarrow> u8 list \<Rightarrow> int \<Rightarrow> foe_write_state \<Rightarrow> (foe_write_state \<times> bool) option" where
  "foe_write_body slave maxdata p timeout = (\<lambda>(dofinalzero, sendpacket, segmentdata, psize, hp, wkc, MbxIn, MbxOut, c). do {
     (wkc, MbxIn, c) \<leftarrow> ecx_mbxreceive slave (ec_clearmbx MbxIn) timeout c;
     if wkc > 0 then
       if mbx_kind MbxIn = ECT_MBXT_FOE then
         if mbx8 MbxIn 6 = ECT_FOE_ACK then
           foe_write_ack slave maxdata p (dofinalzero, sendpacket, segmentdata, psize, hp, wkc, MbxIn, MbxOut, c)
         else if mbx8 MbxIn 6 = ECT_FOE_BUSY then
           if sendpacket \<noteq> 0 then
             Some ((dofinalzero \<or> psize = 0, sendpacket - 1, segmentdata, psize + segmentdata, hp - segmentdata, wkc, MbxIn, MbxOut, c), False)
           else Some ((dofinalzero, sendpacket, segmentdata, psize, hp, wkc, MbxIn, MbxOut, c), False)
         else if mbx8 MbxIn 6 = ECT_FOE_ERROR then
           Some ((dofinalzero, sendpacket, segmentdata, psize, hp,
             - err_number (if mbx32 MbxIn 8 = 0x8001 then EC_ERR_TYPE_FOE_FILE_NOTFOUND else EC_ERR_TYPE_FOE_ERROR), MbxIn, MbxOut, c), False)
         else Some ((dofinalzero, sendpacket, segmentdata, psize, hp, - err_number EC_ERR_TYPE_PACKET_ERROR, MbxIn, MbxOut, c), False)
       else Some ((dofinalzero, sendpacket, segmentdata, psize, hp, - err_number EC_ERR_TYPE_PACKET_ERROR, MbxIn, MbxOut, c), False)
     else Some ((dofinalzero, sendpacket, segmentdata, psize, hp, wkc, MbxIn, MbxOut, c), False)
   })"

text \<open>\<^verbatim>\<open>segmentdata\<close> is only looked at after a packet was sent, which sets it.\<close>

definition ecx_FOEwrite :: "u16 \<Rightarrow> u8 list \<Rightarrow> u32 \<Rightarrow> int \<Rightarrow> u8 list \<Rightarrow> int \<Rightarrow> ecx_context \<Rightarrow> (int \<times> ecx_context) option" where
  "ecx_FOEwrite slave filename password psize p timeout c = do {
     (wkc, maxdata, MbxIn, MbxOut, c) \<leftarrow> foe_request slave ECT_FOE_WRITE filename password c;
     if wkc > 0 then do {
       (_, _, _, _, _, wkc, _, _, c) \<leftarrow> do_while (foe_write_body slave maxdata p timeout) (False, 0, 0, psize, 0, wkc, MbxIn, MbxOut, c);
       Some (wkc, c)
     } else Some (wkc, c)
   }"

end
