(* ===== verification/FoeProps.thy ===== *)
theory FoeProps
  imports Foe CoeProps
begin

text \<open>
  What file access guarantees: both transfers return whatever the slave answers, a file is cut
  into full packets and a short one that marks its end, and what becomes of a transfer that the
  slave answers with busy.
\<close>

section \<open>The request\<close>

lemma length_foe_head [simp]: "length (foe_head len cnt opcode) = 7"
  by (simp add: foe_head_def)

lemma foe_packet_fit [simp]: "mbx_fit m \<Longrightarrow> mbx_fit (foe_packet len cnt opcode n m)"
  by (simp add: foe_packet_def)

lemma length_foe_packet [simp]: "length m = EC_MAXMBX + 1 \<Longrightarrow> length (foe_packet len cnt opcode n m) = EC_MAXMBX + 1"
  by (simp add: foe_packet_def)

lemma unat_of_nat_le: "unat (of_nat n :: 'a::len word) \<le> n"
  by (simp add: unat_of_nat)

lemma foe_request_from:
  assumes c: "ctx_inv c" and v: "slave_valid c slave" and l: "12 < s_mbx_l (slavelist c ! unat slave)"
    "unat (s_mbx_l (slavelist c ! unat slave)) \<le> EC_MAXMBX"
  shows "returns (foe_request slave opcode filename password c) (\<lambda>(w, maxdata, m, m', d).
    asks c d \<and> maxdata = s_mbx_l (slavelist c ! unat slave) - 12 \<and> mbx_fit m \<and> mbx_fit m')"
proof -
  let ?l = "s_mbx_l (slavelist c ! unat slave)"
  let ?n = "if (of_nat (length filename) :: u16) > ?l - 12 then ?l - 12 else of_nat (length filename)"
  have md: "unat (?l - 12) \<le> 1474" using l by (simp add: unat_sub_if' word_less_nat_alt)
  have n1: "unat ?n \<le> length filename"
    using unat_of_nat_le [of "length filename", where 'a = 16] by (auto simp: word_less_nat_alt)
  have n2: "unat ?n \<le> 1474" using md by (auto simp: word_less_nat_alt)
  obtain m d where d: "mbx_flush slave c = Some (m, d)" "asks c d" "mbx_fit m"
    using flush_from [OF asks_refl [OF c] v] by (auto simp: returns_iff)
  have g: "get_slave slave d = Some (slavelist d ! unat slave)" "s_mbx_l (slavelist d ! unat slave) = ?l"
    using asks_mbx_l [OF d(2) v] by simp_all
  show ?thesis
    unfolding foe_request_def d(1) bind.bind_lunit case_prod_unfold fst_conv snd_conv g Let_def
    by (rule returns_bindI [OF client.count_from [OF d(2) v]]; use d v n1 n2 in \<open>auto simp: returns_pure mbx_fit_length mbx_fit_length [OF new_mbx_fit] case_prod_unfold
        simp del: returns_bind split del: if_split intro!: coe_steps [where ?c0.0 = c]\<close>)
qed

section \<open>Writing a file\<close>

text \<open>
  A packet is no larger than the mailbox allows, and after it less is to be done: bytes, or the
  empty packet at the end.
\<close>

lemma foe_next_decreases:
  assumes "foe_next maxdata psize z = Some (n, psize', z')" "0 < maxdata" "0 \<le> psize"
  shows "0 \<le> n \<and> n \<le> int (unat maxdata) \<and> psize' = psize - n \<and> 0 \<le> psize' \<and>
    2 * nat psize' + of_bool z' < 2 * nat psize + of_bool z"
proof -
  have "0 < uint maxdata" using assms(2) by (simp add: word_less_def)
  moreover have "0 < unat maxdata" using assms(2) by (simp add: word_less_nat_alt)
  ultimately show ?thesis using assms(1,3) by (auto simp: foe_next_def Let_def nat_diff_distrib split: if_splits)
qed

definition foe_write_inv :: "ecx_context \<Rightarrow> u8 list \<Rightarrow> foe_write_state \<Rightarrow> bool" where
  "foe_write_inv c0 p = (\<lambda>(_, _, _, psize, hp, _, MbxIn, MbxOut, c).
     asks c0 c \<and> mbx_fit MbxIn \<and> mbx_fit MbxOut \<and> 0 \<le> psize \<and> 0 \<le> hp \<and> hp + psize \<le> int (length p))"

definition foe_write_left :: "foe_write_state \<Rightarrow> nat" where
  "foe_write_left = (\<lambda>(z, _, _, psize, _). 2 * nat psize + of_bool z)"

lemma foe_write_ack_from:
  assumes s: "foe_write_inv c0 p s" and v: "slave_valid c0 slave" and m: "0 < maxdata" "unat maxdata \<le> EC_MAXMBX - 12"
  shows "returns (foe_write_ack slave maxdata p s) (\<lambda>(s', again). asks c0 (snd (snd (snd (snd (snd (snd (snd (snd s')))))))) \<and>
    (again \<longrightarrow> foe_write_inv c0 p s' \<and> foe_write_left s' < foe_write_left s))"
proof -
  obtain z k seg psize hp w MbxIn MbxOut c where st: "s = (z, k, seg, psize, hp, w, MbxIn, MbxOut, c)" by (cases s) auto
  then have c: "asks c0 c" "mbx_fit MbxIn" "mbx_fit MbxOut" "0 \<le> psize" "0 \<le> hp" "hp + psize \<le> int (length p)"
    using s by (auto simp: foe_write_inv_def)
  show ?thesis
  proof (cases "mbx32 MbxIn 8 = k \<and> foe_next maxdata psize z \<noteq> None")
    case False
    then show ?thesis using c(1) by (cases "foe_next maxdata psize z") (auto simp: st foe_write_ack_def)
  next
    case True
    then obtain n psize' z' where nx: "foe_next maxdata psize z = Some (n, psize', z')" by auto
    note n = foe_next_decreases [OF nx m(1) c(4)]
    have b: "nat hp + nat n \<le> length p" "nat n \<le> 1474" "hp + n + psize' \<le> int (length p)" "0 \<le> hp + n"
      using n c m(2) by linarith+
    from True show ?thesis
      unfolding st foe_write_ack_def prod.case Let_def nx option.case case_prod_unfold fst_conv snd_conv
      by (simp del: returns_bind)
        (rule returns_bindI [OF client.count_from [OF c(1) v]]; use c v n b in \<open>auto simp: returns_pure mbx_fit_length case_prod_unfold
          foe_write_inv_def foe_write_left_def simp del: returns_bind intro!: returns_bindI [OF client.send_from [where ?c0.0 = c0]]\<close>)
  qed
qed

lemma foe_write_body_from:
  assumes s: "foe_write_inv c0 p s" and v: "slave_valid c0 slave" and m: "0 < maxdata" "unat maxdata \<le> EC_MAXMBX - 12"
  shows "returns (foe_write_body slave maxdata p t s) (\<lambda>(s', again). if again then foe_write_inv c0 p s' \<and> foe_write_left s' < foe_write_left s
    else asks c0 (snd (snd (snd (snd (snd (snd (snd (snd s')))))))))"
proof -
  obtain z k seg psize hp w MbxIn MbxOut c where st: "s = (z, k, seg, psize, hp, w, MbxIn, MbxOut, c)" by (cases s) auto
  then have c: "asks c0 c" "mbx_fit MbxIn" "mbx_fit MbxOut" "0 \<le> psize" "0 \<le> hp" "hp + psize \<le> int (length p)"
    using s by (auto simp: foe_write_inv_def)
  obtain w m' d where d: "ecx_mbxreceive slave (ec_clearmbx MbxIn) t c = Some (w, m', d)" "asks c0 d" "mbx_fit m'"
    using client.recv_from [OF c(1) v clearmbx_fit [OF c(2)], of t] by (auto simp: returns_iff)
  have i: "foe_write_inv c0 p (z, k, seg, psize, hp, w, m', MbxOut, d)" using c d by (simp add: foe_write_inv_def)
  show ?thesis
    unfolding st foe_write_body_def prod.case d(1) bind.bind_lunit
    using foe_write_ack_from [OF i v m] d(2)
    by (auto simp: returns_if foe_write_left_def case_prod_unfold elim!: returns_mono)
qed

text \<open>
  C29: writing a file returns, whatever the slave answers, never leaves the memory of the caller
  and changes nothing of the master but the mailbox counter and the error list, provided that the
  mailbox of the slave has room for data and fits the buffer of the master. An acknowledge makes
  the loop go on only when a packet was sent, and packets run out.
\<close>

theorem FOEwrite_total:
  assumes "ctx_inv c" "slave_valid c slave" "12 < s_mbx_l (slavelist c ! unat slave)"
    and "unat (s_mbx_l (slavelist c ! unat slave)) \<le> EC_MAXMBX" "0 \<le> psize" "psize \<le> int (length p)"
  shows "returns (ecx_FOEwrite slave filename password psize p t c) (\<lambda>(w, d). asks c d)"
proof -
  let ?md = "s_mbx_l (slavelist c ! unat slave) - 12"
  have md: "0 < ?md" "unat ?md \<le> EC_MAXMBX - 12"
    using assms(3,4) by (simp_all add: unat_sub_if' word_less_nat_alt)
  obtain w m m' d where d: "foe_request slave ECT_FOE_WRITE filename password c = Some (w, ?md, m, m', d)" "asks c d" "mbx_fit m" "mbx_fit m'"
    using foe_request_from [OF assms(1-4), of ECT_FOE_WRITE filename password] by (auto simp: returns_iff)
  have "returns (do_while (foe_write_body slave ?md p t) (False, 0, 0, psize, 0, w, m, m', d))
      (\<lambda>s. asks c (snd (snd (snd (snd (snd (snd (snd (snd s)))))))))"
    by (rule do_while_returns [where P = "foe_write_inv c p" and f = foe_write_left])
      (use d assms(5,6) foe_write_body_from [OF _ assms(2) md] in \<open>auto simp: foe_write_inv_def\<close>)
  with d show ?thesis by (auto simp: ecx_FOEwrite_def case_prod_unfold)
qed

theorem FOEwrite_total_witness:
  "\<exists>w d. ecx_FOEwrite 1 [102, 119] 0 200 (replicate 200 7) 700000 (demo_mbx_context 128) = Some (w, d) \<and> ctx_inv d"
  using FOEwrite_total [OF demo_mbx_inv(1,2), of 128 200 "replicate 200 7" "[102, 119]" 0 700000]
  by (auto simp: returns_iff demo_mbx_inv(3) [simplified] word_less_nat_alt dest: asks_inv)

section \<open>The packets of a file\<close>

text \<open>The sizes of the packets that follow one another when all of them are acknowledged.\<close>

fun foe_plan :: "u16 \<Rightarrow> int \<Rightarrow> bool \<Rightarrow> int list \<Rightarrow> bool" where
  "foe_plan maxdata psize z [] \<longleftrightarrow> foe_next maxdata psize z = None"
| "foe_plan maxdata psize z (n # ns) \<longleftrightarrow>
     (case foe_next maxdata psize z of Some (n', psize', z') \<Rightarrow> n = n' \<and> foe_plan maxdata psize' z' ns | None \<Rightarrow> False)"

lemma foe_plan_det: "foe_plan maxdata psize z ns \<Longrightarrow> foe_plan maxdata psize z ms \<Longrightarrow> ns = ms"
proof (induction ns arbitrary: psize z ms)
  case Nil
  then show ?case by (cases ms) auto
next
  case (Cons n ns)
  then show ?case by (cases ms) (auto split: option.splits)
qed

lemma foe_plan_full:
  assumes "0 < maxdata" "0 \<le> r" "r < int (unat maxdata)" "0 < q \<or> 0 < r"
  shows "foe_plan maxdata (int q * int (unat maxdata) + r) False (replicate q (int (unat maxdata)) @ [r])"
  using assms(4)
proof (induction q)
  case 0
  then show ?case using assms by (simp add: foe_next_def Let_def)
next
  case (Suc q)
  let ?m = "int (unat maxdata)"
  have m: "0 < ?m" using assms(2,3) by linarith
  have ge: "?m \<le> int (Suc q) * ?m + r" using m assms(2) by (simp add: distrib_right)
  have left: "int (Suc q) * ?m + r - ?m = int q * ?m + r" by (simp add: distrib_right)
  have "foe_next maxdata (int (Suc q) * ?m + r) False = Some (?m, int q * ?m + r, int q * ?m + r = 0)"
    using ge m left unfolding foe_next_def Let_def by (cases "int (Suc q) * ?m + r = ?m") (auto simp: algebra_simps)
  moreover have "foe_plan maxdata (int q * ?m + r) (int q * ?m + r = 0) (replicate q ?m @ [r])"
  proof (cases "q = 0 \<and> r = 0")
    case True
    then show ?thesis using m by (simp add: foe_next_def Let_def)
  next
    case False
    then have "0 < q \<or> 0 < r" using assms(2) by auto
    moreover have "int q * ?m + r \<noteq> 0" using False m assms(2) by (auto simp: add_nonneg_eq_0_iff)
    ultimately show ?thesis using Suc.IH by simp
  qed
  ultimately show ?case by simp
qed

text \<open>
  A file is cut into as many full packets as it fills and one packet that is not full, an
  empty one when nothing is left: the receiver can always tell the end of the file.
\<close>

theorem foe_packets_end_short:
  assumes "0 < maxdata" "0 < psize"
  shows "foe_plan maxdata psize False ns \<longleftrightarrow>
    ns = replicate (nat (psize div int (unat maxdata))) (int (unat maxdata)) @ [psize mod int (unat maxdata)]"
proof -
  let ?m = "int (unat maxdata)" and ?q = "nat (psize div int (unat maxdata))" and ?r = "psize mod int (unat maxdata)"
  have m: "0 < ?m" using assms(1) by (simp add: word_less_def)
  have q: "int ?q = psize div ?m" using m assms(2) by (simp add: pos_imp_zdiv_nonneg_iff)
  have e: "int ?q * ?m + ?r = psize" unfolding q by simp
  have "0 < ?q \<or> 0 < ?r"
  proof (rule ccontr)
    assume "\<not> (0 < ?q \<or> 0 < ?r)"
    with m have z: "?q = 0" "?r = 0" using pos_mod_sign [OF m, of psize] by linarith+
    have "int ?q * ?m + ?r = 0" unfolding z by simp
    with e assms(2) show False by linarith
  qed
  from foe_plan_full [OF assms(1) pos_mod_sign [OF m] pos_mod_bound [OF m] this]
  have "foe_plan maxdata psize False (replicate ?q ?m @ [?r])" unfolding e .
  then show ?thesis using foe_plan_det by blast
qed

theorem foe_packets_end_short_witness:
  "foe_plan 20 40 False [20, 20, 0] \<and> foe_plan 20 50 False [20, 20, 10] \<and> \<not> foe_plan 20 40 False [20, 20]"
proof -
  have u: "int (unat (20 :: u16)) = 20" by simp
  have p: "(0 :: u16) < 20" "(0 :: int) < 40" "(0 :: int) < 50" by simp_all
  have "foe_plan 20 40 False ns \<longleftrightarrow> ns = [20, 20, 0]" "foe_plan 20 50 False ns \<longleftrightarrow> ns = [20, 20, 10]" for ns
    using foe_packets_end_short [OF p(1,2), of ns, unfolded u] foe_packets_end_short [OF p(1,3), of ns, unfolded u] by (simp_all add: numeral_2_eq_2)
  then show ?thesis by (simp del: foe_plan.simps)
qed

section \<open>A slave that is busy\<close>

lemma exchange_sent:
  assumes "mbx_exchange slave out m t c = Some (1, m', e)"
  obtains w d where "ecx_mbxsend slave out EC_TIMEOUTTXM c = Some (w, d)" "w > 0" "ecx_mbxreceive slave (ec_clearmbx m) t d = Some (1, m', e)"
  using assms by (auto simp: mbx_exchange_def Option.bind_eq_Some_conv split: if_splits)

lemma foe_request_sent:
  assumes "mbx_flush slave c = Some (m, c1)" "mbx_session slave c1 = Some (cnt, c2)" "asks c c2"
    "\<And>out. mbx_fit out \<Longrightarrow> \<exists>d. mbx_exchange slave out m t c2 = Some (1, m', d) \<and> Q d"
    and v: "slave_valid c slave" "mbx_fit m" "asks c c1"
    and l: "12 < s_mbx_l (slavelist c ! unat slave)" "unat (s_mbx_l (slavelist c ! unat slave)) \<le> EC_MAXMBX"
  obtains w maxdata out d e where "foe_request slave opcode filename password c = Some (w, maxdata, m, out, d)" "w > 0"
    "ecx_mbxreceive slave (ec_clearmbx m) t d = Some (1, m', e)" "Q e"
proof -
  let ?l = "s_mbx_l (slavelist c ! unat slave)"
  let ?n = "if (of_nat (length filename) :: u16) > ?l - 12 then ?l - 12 else of_nat (length filename)"
  let ?out = "put_bytes 12 (take (unat ?n) filename) (foe_packet (0x0006 + ?n) cnt opcode password new_mbx)"
  have md: "unat (?l - 12) \<le> 1474" using l by (simp add: unat_sub_if' word_less_nat_alt)
  have n: "unat ?n \<le> length filename" "unat ?n \<le> 1474"
    using md unat_of_nat_le [of "length filename", where 'a = 16] by (auto simp: word_less_nat_alt)
  then have "length (take (unat ?n) filename) \<le> 1474" by simp
  then have fit: "mbx_fit ?out" by (intro put_bytes_fit foe_packet_fit new_mbx_fit) simp
  obtain e where e: "mbx_exchange slave ?out m t c2 = Some (1, m', e)" "Q e" using assms(4) [OF fit] by blast
  obtain w d where d: "ecx_mbxsend slave ?out EC_TIMEOUTTXM c2 = Some (w, d)" "w > 0" "ecx_mbxreceive slave (ec_clearmbx m) t d = Some (1, m', e)"
    by (rule exchange_sent [OF e(1)]) (rule that)
  have g: "get_slave slave c1 = Some (slavelist c1 ! unat slave)" "s_mbx_l (slavelist c1 ! unat slave) = ?l"
    using asks_mbx_l [OF v(3) v(1)] by simp_all
  have "foe_request slave opcode filename password c = Some (w, ?l - 12, m, ?out, d)"
    unfolding foe_request_def assms(1,2) bind.bind_lunit prod.case g Let_def
    using n fit d(1) mbx_fit_length [OF new_mbx_fit] by (simp add: mem_read_def mem_write_def put_bytes_def [symmetric] cong: if_cong)
  from this d(2,3) e(2) show thesis by (rule that)
qed

text \<open>
  Busy is not a reason to wait: a slave that answers the request to write a file with busy
  ends the transfer. Nothing of the file has been sent, and the result is that of a success.
\<close>

theorem FOEwrite_busy_success:
  assumes "ctx_inv c" "slave_valid c slave" "at_rest l fs (port c)" "mbx_frames (slavelist c ! unat slave) l stale resp fs"
    and "deliverable c slave (in_mbx stale)" "deliverable c slave (in_mbx resp)"
    and "12 < s_mbx_l (slavelist c ! unat slave)" "mbx_kind (in_mbx resp) = ECT_MBXT_FOE" "mbx8 (in_mbx resp) 6 = ECT_FOE_BUSY"
  shows "returns (ecx_FOEwrite slave filename password psize p t c) (\<lambda>(w, d). w = 1 \<and> asks c d \<and>
    at_rest ((next_idx ^^ 6) l) (\<lambda>n. fs (n + 6)) (port d))"
proof -
  let ?Q = "\<lambda>d. asks c d \<and> at_rest ((next_idx ^^ 6) l) (\<lambda>n. fs (n + 6)) (port d)"
  obtain c1 cnt c2 where 1: "mbx_flush slave c = Some (in_mbx stale, c1)" "mbx_session slave c1 = Some (cnt, c2)" "asks c c2"
    "\<And>out t. mbx_fit out \<Longrightarrow> \<exists>d. mbx_exchange slave out (in_mbx stale) t c2 = Some (1, in_mbx resp, d) \<and> asks c d \<and>
       at_rest ((next_idx ^^ 6) l) (\<lambda>n. fs (n + 6)) (port d)"
    by (rule request_answered [OF assms(1-6)]) (rule that)
  have n: "unat (s_mbx_l (slavelist c ! unat slave)) \<le> EC_MAXMBX" "length stale \<le> EC_MAXMBX" using assms(4) by (auto simp: mbx_frames_def)
  have a1: "asks c c1" "mbx_fit (in_mbx stale)"
    using flush_from [OF asks_refl [OF assms(1)] assms(2)] 1(1) by (auto simp: returns_iff)
  obtain w maxdata out d e where d: "foe_request slave ECT_FOE_WRITE filename password c = Some (w, maxdata, in_mbx stale, out, d)" "w > 0"
      "ecx_mbxreceive slave (ec_clearmbx (in_mbx stale)) t d = Some (1, in_mbx resp, e)" "?Q e"
    by (rule foe_request_sent [where Q = ?Q, OF 1(1-3) _ assms(2) a1(2,1) assms(7) n(1)]) (rule 1(4), assumption, rule that)
  have "do_while (foe_write_body slave maxdata p t) (False, 0, 0, psize, 0, w, in_mbx stale, out, d) =
      Some (False, 0, 0, psize, 0, 1, in_mbx resp, out, e)"
    by (rule do_while_stop) (use d(3) assms(8,9) in \<open>simp add: foe_write_body_def\<close>)
  with d show ?thesis by (simp add: ecx_FOEwrite_def)
qed

definition demo_busy :: "u8 list" where
  "demo_busy = [6, 0, 0, 0, 0, 0x14, 6] @ replicate 25 0"

theorem FOEwrite_busy_success_witness:
  "\<exists>d. ecx_FOEwrite 1 [102, 119] 0 200 (replicate 200 7) 700000 (demo_mbx_wire (demo_mbx_frames demo_busy)) = Some (1, d)"
proof -
  have len: "length demo_busy = 32" by (simp add: demo_busy_def)
  note w = demo_mbx_wire [OF len]
  have k: "mbx_kind (in_mbx demo_busy) = ECT_MBXT_FOE" "mbx8 (in_mbx demo_busy) 6 = ECT_FOE_BUSY"
    by (simp_all add: mbx_kind_def in_mbx_fields len) (simp_all add: demo_busy_def)
  then have "deliverable (demo_mbx_wire (demo_mbx_frames demo_busy)) 1 (in_mbx demo_busy)" by (simp add: deliverable_def w(5))
  moreover have "12 < s_mbx_l (slavelist (demo_mbx_wire (demo_mbx_frames demo_busy)) ! unat (1 :: u16))"
    by (simp add: demo_mbx_wire_def demo_context_def)
  ultimately show ?thesis
    using FOEwrite_busy_success [OF w(1-4) _ _ _ k, of "[102, 119]" 0 200 "replicate 200 7" 700000] by (auto simp: returns_iff)
qed

section \<open>Reading a file\<close>

definition foe_read_inv :: "ecx_context \<Rightarrow> int \<Rightarrow> nat \<Rightarrow> foe_read_state \<Rightarrow> bool" where
  "foe_read_inv c0 bsize n = (\<lambda>(dataread, _, _, _, p, MbxIn, MbxOut, c).
     asks c0 c \<and> mbx_fit MbxIn \<and> mbx_fit MbxOut \<and> int dataread \<le> bsize \<and> length p = n)"

definition foe_read_left :: "int \<Rightarrow> foe_read_state \<Rightarrow> nat" where
  "foe_read_left bsize = (\<lambda>(dataread, _). nat bsize - dataread)"

lemma foe_read_data_from:
  assumes s: "foe_read_inv c0 bsize n s" and v: "slave_valid c0 slave" and m: "0 < maxdata" "bsize \<le> int n" "bsize \<le> int EC_MAXMBX - 11"
  shows "returns (foe_read_data slave maxdata bsize s) (\<lambda>(s', again). asks c0 (snd (snd (snd (snd (snd (snd (snd s'))))))) \<and>
    foe_read_inv c0 bsize n s' \<and> (again \<longrightarrow> foe_read_left bsize s' < foe_read_left bsize s))"
proof -
  obtain dr k w ps p MbxIn MbxOut c where st: "s = (dr, k, w, ps, p, MbxIn, MbxOut, c)" by (cases s) auto
  then have c: "asks c0 c" "mbx_fit MbxIn" "mbx_fit MbxOut" "int dr \<le> bsize" "length p = n"
    using s by (auto simp: foe_read_inv_def)
  let ?n = "mbx16 MbxIn 0 - 0x0006"
  show ?thesis
  proof (cases "mbx32 MbxIn 8 = k + 1 \<and> int dr + int (unat ?n) \<le> bsize")
    case False
    then show ?thesis using c by (auto simp: st foe_read_data_def Let_def foe_read_inv_def)
  next
    case True
    have b: "12 + unat ?n \<le> EC_MAXMBX + 1" "dr + unat ?n \<le> length p" "int (dr + unat ?n) \<le> bsize"
      using True m c(5) by linarith+
    have l: "nat bsize - (dr + unat ?n) < nat bsize - dr" if "?n = maxdata"
    proof -
      have "0 < unat ?n" using that m(1) by (simp add: word_less_nat_alt)
      then show ?thesis using b(3) by linarith
    qed
    from True show ?thesis
      unfolding st foe_read_data_def prod.case Let_def case_prod_unfold fst_conv snd_conv
      by (simp del: returns_bind of_nat_add)
        (auto simp: returns_pure mbx_fit_length c b case_prod_unfold simp del: returns_bind of_nat_add
          intro!: returns_bindI [OF client.count_from [OF c(1) v]] returns_bindI [OF client.send_from [where ?c0.0 = c0]] c v,
          use c b l in \<open>auto simp: foe_read_inv_def foe_read_left_def mbx_fit_length\<close>)
  qed
qed

lemma foe_read_body_from:
  assumes s: "foe_read_inv c0 bsize n s" and v: "slave_valid c0 slave" and m: "0 < maxdata" "bsize \<le> int n" "bsize \<le> int EC_MAXMBX - 11"
  shows "returns (foe_read_body slave maxdata bsize t s) (\<lambda>(s', again). if again then foe_read_inv c0 bsize n s' \<and> foe_read_left bsize s' < foe_read_left bsize s
    else asks c0 (snd (snd (snd (snd (snd (snd (snd s')))))))  \<and> foe_read_inv c0 bsize n s')"
proof -
  obtain dr k w ps p MbxIn MbxOut c where st: "s = (dr, k, w, ps, p, MbxIn, MbxOut, c)" by (cases s) auto
  then have c: "asks c0 c" "mbx_fit MbxIn" "mbx_fit MbxOut" "int dr \<le> bsize" "length p = n"
    using s by (auto simp: foe_read_inv_def)
  obtain w m' d where d: "ecx_mbxreceive slave (ec_clearmbx MbxIn) t c = Some (w, m', d)" "asks c0 d" "mbx_fit m'"
    using client.recv_from [OF c(1) v clearmbx_fit [OF c(2)], of t] by (auto simp: returns_iff)
  have i: "foe_read_inv c0 bsize n (dr, k, w, ps, p, m', MbxOut, d)" using c d by (simp add: foe_read_inv_def)
  show ?thesis
    unfolding st foe_read_body_def prod.case d(1) bind.bind_lunit
    using foe_read_data_from [OF i v m] i d(2)
    by (auto simp: returns_if foe_read_left_def case_prod_unfold foe_read_inv_def elim!: returns_mono)
qed

text \<open>
  Reading a file into a buffer no larger than one mailbox returns, whatever the slave
  answers, stays inside the buffer and changes nothing of the master but the mailbox counter and
  the error list.
\<close>

theorem FOEread_total:
  assumes "ctx_inv c" "slave_valid c slave" "12 < s_mbx_l (slavelist c ! unat slave)"
    and "unat (s_mbx_l (slavelist c ! unat slave)) \<le> EC_MAXMBX" "0 \<le> psize" "psize \<le> int (length p)" "psize \<le> int EC_MAXMBX - 11"
  shows "returns (ecx_FOEread slave filename password psize p t c) (\<lambda>(w, n, p', d). asks c d \<and> length p' = length p)"
proof -
  let ?md = "s_mbx_l (slavelist c ! unat slave) - 12"
  have md: "0 < ?md" using assms(3) by (simp add: unat_sub_if' word_less_nat_alt)
  obtain w m m' d where d: "foe_request slave ECT_FOE_READ filename password c = Some (w, ?md, m, m', d)" "asks c d" "mbx_fit m" "mbx_fit m'"
    using foe_request_from [OF assms(1-4), of ECT_FOE_READ filename password] by (auto simp: returns_iff)
  have "returns (do_while (foe_read_body slave ?md psize t) (0, 0, w, psize, p, m, m', d))
      (\<lambda>s. asks c (snd (snd (snd (snd (snd (snd (snd s))))))) \<and> foe_read_inv c psize (length p) s)"
    by (rule do_while_returns [where P = "foe_read_inv c psize (length p)" and f = "foe_read_left psize"])
      (use d assms(5) foe_read_body_from [OF _ assms(2) md assms(6,7)] in \<open>auto simp: foe_read_inv_def\<close>)
  with d show ?thesis by (auto simp: ecx_FOEread_def case_prod_unfold foe_read_inv_def elim!: returns_mono)
qed

theorem FOEread_total_witness:
  "\<exists>w n p d. ecx_FOEread 1 [102, 119] 0 200 (replicate 200 7) 700000 (demo_mbx_context 128) = Some (w, n, p, d) \<and> length p = 200"
  using FOEread_total [OF demo_mbx_inv(1,2), of 128 200 "replicate 200 7" "[102, 119]" 0 700000]
  by (auto simp: returns_iff demo_mbx_inv(3) [simplified] word_less_nat_alt)

text \<open>The data of a packet: what its length field leaves behind the header.\<close>

definition foe_data :: "ec_mbxbuf \<Rightarrow> u8 list" where
  "foe_data m = take (unat (mbx16 m 0 - 6)) (drop 12 m)"

text \<open>
  A slave that answers the request with a first packet that is not full has sent the whole
  file: its bytes are in the memory of the caller, the rest of which is as it was, the size is
  theirs, and the packet is acknowledged.
\<close>

theorem FOEread_one_packet:
  assumes "ctx_inv c" "slave_valid c slave" "at_rest l fs (port c)" "mbx_frames (slavelist c ! unat slave) l stale resp fs"
    and "deliverable c slave (in_mbx stale)" "deliverable c slave (in_mbx resp)" "12 < s_mbx_l (slavelist c ! unat slave)"
    and "mbx_kind (in_mbx resp) = ECT_MBXT_FOE" "mbx8 (in_mbx resp) 6 = ECT_FOE_DATA" "mbx32 (in_mbx resp) 8 = 1"
    and "mbx16 (in_mbx resp) 0 - 6 \<noteq> s_mbx_l (slavelist c ! unat slave) - 12" "12 + unat (mbx16 (in_mbx resp) 0 - 6) \<le> EC_MAXMBX + 1"
    and "fs 6 = Some (answer ((next_idx ^^ 7) l) [0] 1)" "fs 7 = Some (answer ((next_idx ^^ 8) l) ret 1)"
    and "length ret = unat (s_mbx_l (slavelist c ! unat slave))"
    and "int (length (foe_data (in_mbx resp))) \<le> psize" "length (foe_data (in_mbx resp)) \<le> length p"
  shows "returns (ecx_FOEread slave filename password psize p t c) (\<lambda>(w, n, p', d). w = 1 \<and> n = int (length (foe_data (in_mbx resp))) \<and>
    p' = foe_data (in_mbx resp) @ drop (length (foe_data (in_mbx resp))) p \<and> asks c d)"
proof -
  let ?Q = "\<lambda>d. asks c d \<and> at_rest ((next_idx ^^ 6) l) (\<lambda>n. fs (n + 6)) (port d)"
  let ?l = "s_mbx_l (slavelist c ! unat slave)" and ?m = "in_mbx resp"
  obtain c1 cnt c2 where 1: "mbx_flush slave c = Some (in_mbx stale, c1)" "mbx_session slave c1 = Some (cnt, c2)" "asks c c2"
    "\<And>out t. mbx_fit out \<Longrightarrow> \<exists>d. mbx_exchange slave out (in_mbx stale) t c2 = Some (1, in_mbx resp, d) \<and> asks c d \<and>
       at_rest ((next_idx ^^ 6) l) (\<lambda>n. fs (n + 6)) (port d)"
    by (rule request_answered [OF assms(1-6)]) (rule that)
  have n: "unat ?l \<le> EC_MAXMBX" "length stale \<le> EC_MAXMBX" "length resp \<le> EC_MAXMBX" using assms(4) by (auto simp: mbx_frames_def)
  have a1: "asks c c1" "mbx_fit (in_mbx stale)"
    using flush_from [OF asks_refl [OF assms(1)] assms(2)] 1(1) by (auto simp: returns_iff)
  obtain w maxdata out d e where d: "foe_request slave ECT_FOE_READ filename password c = Some (w, maxdata, in_mbx stale, out, d)" "w > 0"
      "ecx_mbxreceive slave (ec_clearmbx (in_mbx stale)) t d = Some (1, in_mbx resp, e)" "?Q e"
    by (rule foe_request_sent [where Q = ?Q, OF 1(1-3) _ assms(2) a1(2,1) assms(7) n(1)]) (rule 1(4), assumption, rule that)
  have md: "maxdata = ?l - 12" "mbx_fit out"
    using foe_request_from [OF assms(1,2,7) n(1), of ECT_FOE_READ filename password] d(1) by (auto simp: returns_iff)
  have ve: "slave_valid e slave" using asks_length [of c e] d(4) assms(2) by (simp add: slave_valid_def)
  obtain k e1 where e1: "mbx_session slave e = Some (k, e1)" "asks e e1"
    using session_asks [OF asks_inv [of c e] ve] d(4) by (auto simp: returns_iff)
  have a2: "asks c e1" using asks_trans d(4) e1(2) by blast
  have r: "rests e1 ((next_idx ^^ 6) l) (\<lambda>n. fs (n + 6)) e1"
    using session_at_rest [OF e1(1)] d(4) by (intro rests_base asks_inv [OF a2]) simp
  have s1: "s_mbx_l (slavelist e1 ! unat slave) = ?l" using asks_mbx_l [OF a2 assms(2)] by simp
  have ix: "(next_idx ^^ 7) l = next_idx ((next_idx ^^ 6) l)" "(next_idx ^^ 8) l = next_idx (next_idx ((next_idx ^^ 6) l))"
    by (simp_all add: numeral_eq_Suc)
  have len: "length ?m = EC_MAXMBX + 1" by (rule mbx_fit_length [OF in_mbx_fit [OF n(3)]])
  let ?n = "unat (mbx16 ?m 0 - 6)" and ?out = "foe_packet 0x0006 k ECT_FOE_ACK 1 out"
  have nd: "length (foe_data ?m) = ?n" using assms(12) len by (simp add: foe_data_def)
  have "returns (ecx_mbxsend slave ?out EC_TIMEOUTTXM e1) (\<lambda>(v, d). v = uint (1 :: u16) \<and>
      rests e1 (next_idx (next_idx ((next_idx ^^ 6) l))) (script_tl (script_tl (\<lambda>n. fs (n + 6)))) d)"
    by (rule mbxsend_rests [where st = 0 and w = 1 and ret = ret, OF r])
      (use assms(2,7,13-15) n(1) s1 ix ve asks_length [OF a2] md(2) in \<open>simp_all add: slave_valid_def word_less_nat_alt\<close>)
  then obtain g where g: "ecx_mbxsend slave ?out EC_TIMEOUTTXM e1 = Some (1, g)" "talks e1 g"
    by (auto simp: returns_iff dest: rests_talks)
  have ag: "asks c g" by (rule asks_trans [OF a2 chats_asks [OF talks_chats [OF g(2)]]])
  have rd: "mem_read ?m 12 ?n = Some (foe_data ?m)" using assms(12) len by (simp add: mem_read_def foe_data_def)
  have wr: "mem_write p 0 (foe_data ?m) = Some (foe_data ?m @ drop ?n p)" using assms(17) nd by (simp add: mem_write_def)
  have "foe_read_data slave maxdata psize (0, 0, 1, psize, p, ?m, out, e) =
      Some ((?n, 1, 1, int ?n, foe_data ?m @ drop ?n p, ?m, ?out, g), False)"
    unfolding foe_read_data_def prod.case Let_def
    using assms(10,11,16) nd rd wr e1(1) g(1) md(1) by simp
  then have "do_while (foe_read_body slave maxdata psize t) (0, 0, w, psize, p, in_mbx stale, out, d) =
      Some (?n, 1, 1, int ?n, foe_data ?m @ drop ?n p, ?m, ?out, g)"
    by (intro do_while_stop) (use d(3) assms(8,9) in \<open>simp add: foe_read_body_def\<close>)
  with d(1,2) ag nd show ?thesis by (simp add: ecx_FOEread_def)
qed

definition demo_file :: "u8 list" where
  "demo_file = [9, 0, 0, 0, 0, 0x14, 3, 0, 1, 0, 0, 0, 70, 79, 69] @ replicate 17 0"

theorem FOEread_one_packet_witness:
  "\<exists>d. ecx_FOEread 1 [102, 119] 0 5 [1, 2, 3, 4, 5] 700000 (demo_mbx_wire (demo_mbx_script demo_file
      [Some (answer 7 [0] 1), Some (answer 8 (replicate 32 0) 1)])) = Some (1, 3, [70, 79, 69, 4, 5], d)"
proof -
  let ?x = "[Some (answer 7 [0] 1), Some (answer 8 (replicate 32 0) 1)]"
  let ?fs = "demo_mbx_script demo_file ?x" and ?m = "in_mbx demo_file"
  have len: "length demo_file = 32" by (simp add: demo_file_def)
  have "\<forall>bs. Some bs \<in> set ?x \<longrightarrow> frame_ok bs" by (auto simp: answer_frame_ok)
  note w = demo_mbx_script [OF len this]
  have k: "mbx_kind ?m = ECT_MBXT_FOE" "mbx8 ?m 6 = ECT_FOE_DATA" "mbx32 ?m 8 = 1" "mbx16 ?m 0 - 6 = 3"
    by (simp_all add: mbx_kind_def mbx32_def get32_def list_buf_def in_mbx_def len new_mbx_def nth_append mbx8_def mbx16_def get16_def)
      (simp_all add: demo_file_def mk16_def)
  have dat: "foe_data ?m = [70, 79, 69]" unfolding foe_data_def k(4) by (simp add: in_mbx_def demo_file_def)
  have del: "deliverable (demo_mbx_wire ?fs) 1 ?m" using k(1) by (simp add: deliverable_def w(5))
  have s: "s_mbx_l (slavelist (demo_mbx_wire fs) ! Suc 0) = 32" for fs by (simp add: demo_mbx_wire_def demo_context_def)
  have ix: "(next_idx ^^ 7) 0 = 7" "(next_idx ^^ 8) 0 = 8" by code_simp+
  have f: "?fs 6 = Some (answer ((next_idx ^^ 7) 0) [0] 1)" "?fs 7 = Some (answer ((next_idx ^^ 8) 0) (replicate 32 0) 1)"
    unfolding ix using w(6) [where n = 0] w(6) [where n = 1] by simp_all
  have "returns (ecx_FOEread 1 [102, 119] 0 5 [1, 2, 3, 4, 5] 700000 (demo_mbx_wire ?fs)) (\<lambda>(w, n, p', d). w = 1 \<and> n = int (length (foe_data ?m)) \<and>
      p' = foe_data ?m @ drop (length (foe_data ?m)) [1, 2, 3, 4, 5] \<and> asks (demo_mbx_wire ?fs) d)"
    by (rule FOEread_one_packet [OF w(1-4) del del _ k(1-3) _ _ f]) (simp_all add: s k(4) dat)
  then show ?thesis unfolding dat by (auto simp: returns_iff)
qed

end
