(* ===== verification/SoeProps.thy ===== *)
theory SoeProps
  imports Soe FoeProps
begin

text \<open>
  What the servo profile guarantees: fragments are put together in order and cut to the buffer of
  the caller, a parameter that fits into one mailbox is delivered over the wire, and the sizes of
  the cyclic telegrams cannot overflow.
\<close>

section \<open>Fragments\<close>

text \<open>The data of a fragment, and taking in one fragment after the other.\<close>

definition soe_data :: "ec_mbxbuf \<Rightarrow> u8 list" where
  "soe_data m = take (unat (mbx16 m 0) - 4) (drop 10 m)"

fun soe_fragments :: "ec_mbxbuf list \<Rightarrow> int \<Rightarrow> int \<times> nat \<times> u8 list \<Rightarrow> (int \<times> nat \<times> u8 list) option" where
  "soe_fragments [] psize f = Some f"
| "soe_fragments (m # ms) psize f = do { f \<leftarrow> soe_fragment m psize f; soe_fragments ms psize f }"

text \<open>What has been taken in so far: the bytes \<open>d\<close>, of which \<open>n\<close> have room.\<close>

definition soe_taken :: "nat \<Rightarrow> u8 list \<Rightarrow> u8 list \<Rightarrow> int \<times> nat \<times> u8 list \<Rightarrow> bool" where
  "soe_taken n p d = (\<lambda>(totalsize, bp, q). totalsize = int (min n (length d)) \<and> bp \<le> n \<and> (length d \<le> n \<longrightarrow> bp = length d) \<and>
     q = take n d @ drop (min n (length d)) p)"

lemma soe_fragment_taken:
  assumes t: "soe_taken n p d f" and n: "n \<le> length p" and m: "4 \<le> mbx16 m 0" "unat (mbx16 m 0) + 6 \<le> length m"
  shows "returns (soe_fragment m (int n) f) (soe_taken n p (d @ soe_data m))"
proof -
  obtain ts bp q where f: "f = (ts, bp, q)" by (cases f) auto
  let ?k = "unat (mbx16 m 0) - 4"
  have t': "ts = int (min n (length d))" "bp \<le> n \<and> (length d \<le> n \<longrightarrow> bp = length d)" "q = take n d @ drop (min n (length d)) p"
    using t by (simp_all add: soe_taken_def f)
  have k: "4 \<le> unat (mbx16 m 0)" using m(1) by (simp add: word_le_nat_alt)
  then have fd: "int (unat (mbx16 m 0)) - 4 = int ?k" "10 + ?k \<le> length m" using m(2) by linarith+
  have ld: "length (soe_data m) = ?k" using fd(2) by (simp add: soe_data_def)
  have lq: "length q = length p" using t'(3) n by simp
  show ?thesis
  proof (cases "length d + ?k \<le> n")
    case True
    then have 1: "ts = int (length d)" "bp = length d" "q = d @ drop (length d) p" using t' by auto
    have "soe_fragment m (int n) f = Some (int (length d + ?k), length d + ?k, put_bytes bp (soe_data m) q)"
      unfolding soe_fragment_def f prod.case Let_def fd(1)
      using True 1 lq fd(2) n by (simp add: mem_read_def mem_write_def put_bytes_def soe_data_def)
    moreover have "put_bytes bp (soe_data m) q = d @ soe_data m @ drop (length d + ?k) p"
      unfolding 1 put_bytes_def ld using True n by (simp add: add.commute)
    ultimately show ?thesis using True ld by (simp add: soe_taken_def)
  next
    case False
    show ?thesis
    proof (cases "length d < n")
      case True
      with t' have 1: "ts = int (length d)" "bp = length d" "q = d @ drop (length d) p" by auto
      let ?r = "n - length d"
      have r: "int ?k - (int (length d) + int ?k - int n) = int ?r" "0 < ?r" "?r \<le> ?k" "\<not> int (length d) + int ?k \<le> int n"
        using True False by linarith+
      have nn: "nat (int n - int (length d)) = ?r" "10 + n - length d \<le> length m" using True fd(2) r(3) by linarith+
      have tk: "take ?r (drop 10 m) = take ?r (soe_data m)" using r(3) by (simp add: soe_data_def min_def)
      have "soe_fragment m (int n) f = Some (int n, bp, put_bytes bp (take ?r (soe_data m)) q)"
        unfolding soe_fragment_def f prod.case Let_def fd(1) 1(1) r(1) tk [symmetric]
        using r(2-4) 1 lq fd(2) n True nn by (simp add: mem_read_def mem_write_def put_bytes_def)
      moreover have "put_bytes bp (take ?r (soe_data m)) q = d @ take ?r (soe_data m) @ drop n p"
        unfolding 1 put_bytes_def using True n r(3) ld by simp
      moreover have "n < length (d @ soe_data m)" using False ld by simp
      ultimately show ?thesis using True 1 by (simp add: soe_taken_def del: length_append)
    next
      case full: False
      with t' have 1: "ts = int n" "q = take n d @ drop n p" by (auto simp: min_def)
      have "soe_fragment m (int n) f = Some (int n, bp, q)"
      proof (cases "?k = 0")
        case True
        have "bp \<le> length q" using t'(2) lq n False True by auto
        then show ?thesis
          unfolding soe_fragment_def f prod.case Let_def fd(1) 1(1) using True fd(2)
          by (simp add: mem_read_def mem_write_def)
      next
        case k0: False
        then have "\<not> int n + int ?k \<le> int n" "int ?k - (int n + int ?k - int n) = 0" by linarith+
        then show ?thesis unfolding soe_fragment_def f prod.case Let_def fd(1) 1(1) by (simp only: if_False simp_thms less_irrefl)
      qed
      then show ?thesis using full ld 1 t'(2) False by (auto simp: soe_taken_def min_def)
    qed
  qed
qed

text \<open>
  C30: the fragments of an answer are put together in their order, in the memory of the caller one
  behind the other, whatever their number; what does not fit is cut off, the rest of the memory is
  as it was, and the size counts the bytes that were stored.
\<close>

theorem soe_fragments_concat:
  assumes "n \<le> length p" "\<forall>m\<in>set ms. 4 \<le> mbx16 m 0 \<and> unat (mbx16 m 0) + 6 \<le> length m"
  shows "returns (soe_fragments ms (int n) (0, 0, p)) (\<lambda>(totalsize, _, q).
    totalsize = int (min n (length (concat (map soe_data ms)))) \<and>
    q = take n (concat (map soe_data ms)) @ drop (min n (length (concat (map soe_data ms)))) p)"
proof -
  have "returns (soe_fragments ms (int n) f) (soe_taken n p (d @ concat (map soe_data ms)))" if "soe_taken n p d f" for d f
    using that assms(2)
  proof (induction ms arbitrary: d f)
    case (Cons m ms)
    obtain g where g: "soe_fragment m (int n) f = Some g" "soe_taken n p (d @ soe_data m) g"
      using soe_fragment_taken [OF Cons.prems(1) assms(1), of m] Cons.prems(2) by (auto simp: returns_iff)
    from Cons.IH [OF g(2)] Cons.prems(2) g(1) show ?case by simp
  qed simp
  from this [of "[]" "(0, 0, p)"] show ?thesis
    by (auto simp: soe_taken_def elim!: returns_mono)
qed

definition demo_soe :: "u16 \<Rightarrow> u8 list \<Rightarrow> ec_mbxbuf" where
  "demo_soe len d = enc16 len @ [0, 0, 0, 0x15, 2, 0x40, 0, 0] @ d"

theorem soe_fragments_concat_witness:
  "\<exists>bp. soe_fragments [demo_soe 7 [1, 2, 3], demo_soe 6 [4, 5], demo_soe 7 [6, 7, 8]] 6 (0, 0, [0, 0, 0, 0, 0, 0, 9]) =
     Some (6, bp, [1, 2, 3, 4, 5, 6, 9])"
proof -
  let ?ms = "[demo_soe 7 [1, 2, 3], demo_soe 6 [4, 5], demo_soe 7 [6, 7, 8]]"
  have "\<forall>m\<in>set ?ms. 4 \<le> mbx16 m 0 \<and> unat (mbx16 m 0) + 6 \<le> length m" by code_simp
  moreover have "map soe_data ?ms = [[1, 2, 3], [4, 5], [6, 7, 8]]" by code_simp
  ultimately show ?thesis
    using soe_fragments_concat [of 6 "[0, 0, 0, 0, 0, 0, 9]" ?ms]
    by (simp add: returns_iff del: soe_fragments.simps)
qed

section \<open>Reading a parameter over the wire\<close>

text \<open>
  When the slave answers the request with one mailbox for the drive and the elements asked
  for, its data, cut to the size of the buffer, are in the memory of the caller and nothing of the
  master has changed but the mailbox counter of the slave and the driver.
\<close>

theorem SoEread_reads:
  assumes "ctx_inv c" "slave_valid c slave" "at_rest l fs (port c)" "mbx_frames (slavelist c ! unat slave) l stale resp fs"
    and "deliverable c slave (in_mbx stale)" "deliverable c slave (in_mbx resp)"
    and "soe_answer ECT_SOE_READRES driveNo elementflags (in_mbx resp)" "\<not> soe_incomplete (in_mbx resp)"
    and "4 \<le> mbx16 (in_mbx resp) 0" "unat (mbx16 (in_mbx resp) 0) + 6 \<le> EC_MAXMBX" "n \<le> length p"
  shows "returns (ecx_SoEread slave driveNo elementflags idn (int n) p t c) (\<lambda>(w, k, q, d). w = 1 \<and>
    k = int (min n (length (soe_data (in_mbx resp)))) \<and>
    q = take n (soe_data (in_mbx resp)) @ drop (min n (length (soe_data (in_mbx resp)))) p \<and> asks c d)"
proof -
  obtain c1 cnt c2 where 1: "mbx_flush slave c = Some (in_mbx stale, c1)" "mbx_session slave c1 = Some (cnt, c2)" "asks c c2"
    "\<And>out t. mbx_fit out \<Longrightarrow> \<exists>d. mbx_exchange slave out (in_mbx stale) t c2 = Some (1, in_mbx resp, d) \<and> asks c d \<and>
       at_rest ((next_idx ^^ 6) l) (\<lambda>n. fs (n + 6)) (port d)"
    by (rule request_answered [OF assms(1-6)]) (rule that)
  let ?out = "put_bytes 0 (soe_head 0x0004 cnt (soe_bits ECT_SOE_READREQ False driveNo) elementflags idn) new_mbx"
  have "length (soe_head 0x0004 cnt (soe_bits ECT_SOE_READREQ False driveNo) elementflags idn) = 10" by (simp add: soe_head_def)
  then have "mbx_fit ?out" by (intro put_bytes_fit new_mbx_fit) simp
  then obtain e where e: "mbx_exchange slave ?out (in_mbx stale) t c2 = Some (1, in_mbx resp, e)" "asks c e" using 1(4) by blast
  obtain w d where d: "ecx_mbxsend slave ?out EC_TIMEOUTTXM c2 = Some (w, d)" "w > 0"
      "ecx_mbxreceive slave (ec_clearmbx (in_mbx stale)) t d = Some (1, in_mbx resp, e)"
    by (rule exchange_sent [OF e(1)]) (rule that)
  have "length resp \<le> EC_MAXMBX" using assms(4) by (auto simp: mbx_frames_def)
  from mbx_fit_length [OF in_mbx_fit [OF this]] have len: "length (in_mbx resp) = EC_MAXMBX + 1" .
  have t0: "soe_taken n p [] (0, 0, p)" by (simp add: soe_taken_def)
  obtain k bp q where f: "soe_fragment (in_mbx resp) (int n) (0, 0, p) = Some (k, bp, q)" "soe_taken n p (soe_data (in_mbx resp)) (k, bp, q)"
    using soe_fragment_taken [OF t0 assms(11,9)] assms(10) len by (auto simp: returns_iff)
  have "soe_read_body slave driveNo elementflags idn t (True, (0, 0, p), int n, w, in_mbx stale, d) =
      Some (False, (k, bp, q), k, 1, in_mbx resp, e)"
    using d(3) assms(7,8) f(1) by (simp add: soe_read_body_def)
  then have "while_loop fst (soe_read_body slave driveNo elementflags idn t) (True, (0, 0, p), int n, w, in_mbx stale, d) =
      Some (False, (k, bp, q), k, 1, in_mbx resp, e)"
    by (simp add: while_loop_step)
  with 1(1,2) d(1,2) e(2) f(2) show ?thesis by (simp add: ecx_SoEread_def soe_taken_def)
qed

definition demo_idn :: "u8 list" where
  "demo_idn = [6, 0, 0, 0, 0, 0x15, 0x22, 0x40, 24, 0, 7, 8] @ replicate 20 0"

theorem SoEread_reads_witness:
  "\<exists>d. ecx_SoEread 1 1 0x40 24 4 [1, 2, 3, 4] 700000 (demo_mbx_wire (demo_mbx_frames demo_idn)) = Some (1, 2, [7, 8, 3, 4], d)"
proof -
  have len: "length demo_idn = 32" by (simp add: demo_idn_def)
  note w = demo_mbx_wire [OF len]
  let ?m = "in_mbx demo_idn"
  have b: "mbx8 ?m 5 = 0x15" "mbx8 ?m 6 = 0x22" "mbx8 ?m 7 = 0x40" "mbx16 ?m 0 = 6"
    by (simp_all add: in_mbx_fields len) (simp_all add: demo_idn_def mk16_def)
  then have k: "mbx_kind ?m = ECT_MBXT_SOE" "soe_answer ECT_SOE_READRES 1 0x40 ?m" "\<not> soe_incomplete ?m"
    by (simp_all add: mbx_kind_def soe_answer_def soe_opCode_def soe_error_def soe_driveNo_def soe_incomplete_def drop_bit_eq_div)
  have del: "deliverable (demo_mbx_wire (demo_mbx_frames demo_idn)) 1 ?m" using k(1) by (simp add: deliverable_def w(5))
  have dat: "soe_data ?m = [7, 8]" unfolding soe_data_def b(4) by (simp add: in_mbx_def demo_idn_def)
  have "returns (ecx_SoEread 1 1 0x40 24 (int 4) [1, 2, 3, 4] 700000 (demo_mbx_wire (demo_mbx_frames demo_idn))) (\<lambda>(w, k, q, d). w = 1 \<and>
      k = int (min 4 (length (soe_data ?m))) \<and> q = take 4 (soe_data ?m) @ drop (min 4 (length (soe_data ?m))) [1, 2, 3, 4] \<and>
      asks (demo_mbx_wire (demo_mbx_frames demo_idn)) d)"
    by (rule SoEread_reads [OF w(1-4) del del k(2,3)]) (simp_all add: b(4))
  then show ?thesis unfolding dat by (auto simp: returns_iff)
qed

section \<open>Errors\<close>

text \<open>
  An error that the slave reports for a write does not reach the caller: writing looks for
  the operation code of a read, so that the answer counts as an unexpected packet and its error
  code is lost.
\<close>

theorem soe_write_error_unreported:
  assumes "soe_opCode m = ECT_SOE_WRITERES" "soe_error m"
  shows "\<not> soe_answer ECT_SOE_WRITERES driveNo elementflags m \<and> soe_unexpected slave idn m c = ecx_packeterror slave idn 0 1 c"
  using assms by (simp add: soe_answer_def soe_unexpected_def)

theorem soe_write_error_unreported_witness:
  "soe_unexpected 1 24 (enc16 6 @ [0, 0, 0, 0x15, 0x14, 0x40, 24, 0, 0x05, 0x70]) c = ecx_packeterror 1 24 0 1 c"
proof -
  have "soe_opCode (enc16 6 @ [0, 0, 0, 0x15, 0x14, 0x40, 24, 0, 0x05, 0x70]) = ECT_SOE_WRITERES \<and>
      soe_error (enc16 6 @ [0, 0, 0, 0x15, 0x14, 0x40, 24, 0, 0x05, 0x70])"
    by code_simp
  with soe_write_error_unreported [of "enc16 6 @ [0, 0, 0, 0x15, 0x14, 0x40, 24, 0, 0x05, 0x70]" 1 64 1 24 c] show ?thesis by simp
qed

section \<open>The sizes of the telegrams\<close>

lemma ensures_any [simp]: "ensures m (\<lambda>_. True)"
  by (cases m) simp_all

lemma soe_attribute_small: "unat (soe_attribute_bits at) \<le> 64"
proof -
  have "at ! 2 AND 0x03 \<le> 3" by (rule word_and_le1)
  then have "unat (at ! 2 AND 0x03) \<le> 3" by (simp add: word_le_nat_alt)
  then have "unat (at ! 2 AND 0x03) \<in> {0, 1, 2, 3}" by auto
  then show ?thesis by (auto simp: soe_attribute_bits_def push_bit_eq_mult)
qed

lemma unat_add_le: "unat (a + b :: u32) \<le> unat a + unat b"
  by (simp add: unat_word_ariths)

lemma soe_add_item_bound: "ensures (soe_add_item slave driveNr mp i s) (\<lambda>r. unat (fst r) \<le> unat (fst s) + 64)"
proof -
  obtain b at c where s: "s = (b, at, c)" by (cases s) auto
  have "unat (b + soe_attribute_bits x) \<le> unat b + 64" for x
    using unat_add_le [of b "soe_attribute_bits x"] soe_attribute_small [of x] by linarith
  then show ?thesis
    by (auto simp: s soe_add_item_def case_prod_unfold intro!: ensures_mono [OF ensures_any])
qed

lemma soe_add_list_bound:
  assumes "unat bits \<le> k"
  shows "ensures (soe_add_list slave driveNr idn bits mp at c) (\<lambda>r. unat (fst r) \<le> k + 4112)"
proof -
  have loop: "ensures (for_loop n 0 (soe_add_item slave driveNr mp) (bits + 16, at, c)) (\<lambda>r. unat (fst r) \<le> k + 4112)"
    if n: "n \<le> EC_SOE_MAXMAPPING" for n mp c
  proof -
    have "ensures (for_loop n 0 (soe_add_item slave driveNr mp) (bits + 16, at, c)) (\<lambda>r. unat (fst r) \<le> k + 16 + 64 * (0 + n))"
    proof (rule for_loop_ensures)
      show "unat (fst (bits + 16, at, c)) \<le> k + 16 + 64 * 0" using assms unat_add_le [of bits 16] by simp
    qed (auto intro: ensures_mono [OF soe_add_item_bound])
    then show ?thesis by (rule ensures_mono) (use n in auto)
  qed
  show ?thesis
    unfolding soe_add_list_def ensures_bind
    by (rule ensures_mono [OF ensures_any])
      (use assms in \<open>auto simp: Let_def case_prod_unfold intro!: ensures_mono [OF loop]\<close>)
qed

text \<open>
  Whatever the drives answer, the sizes that are found are below 33000 bits and so never
  wrap around, and the result tells whether there are any.
\<close>

theorem readIDNmap_bounds:
  "ensures (ecx_readIDNmap slave mp at c) (\<lambda>(r, Osize, Isize, d).
     unat Osize \<le> 32896 \<and> unat Isize \<le> 32896 \<and> (r = 1 \<longleftrightarrow> Osize \<noteq> 0 \<or> Isize \<noteq> 0))"
proof -
  let ?P = "\<lambda>i (s :: u32 \<times> u32 \<times> u8 list \<times> u8 list \<times> ecx_context). unat (fst s) \<le> 4112 * i \<and> unat (fst (snd s)) \<le> 4112 * i"
  have "ensures (for_loop EC_SOE_MAX_DRIVES 0 (\<lambda>driveNr (Osize, Isize, mp, at, c). do {
       (Osize, mp, at, c) \<leftarrow> soe_add_list slave (of_nat driveNr) EC_IDN_MDTCONFIG Osize mp at c;
       (Isize, mp, at, c) \<leftarrow> soe_add_list slave (of_nat driveNr) EC_IDN_ATCONFIG Isize mp at c;
       Some (Osize, Isize, mp, at, c)
     }) (0, 0, mp, at, c)) (?P (0 + EC_SOE_MAX_DRIVES))"
    by (rule for_loop_ensures) (auto simp: case_prod_unfold intro!: ensures_mono [OF soe_add_list_bound])
  then show ?thesis
    unfolding ecx_readIDNmap_def ensures_bind
    by (rule ensures_mono) (auto simp: case_prod_unfold word_gt_0)
qed

end
