(* ===== verification/Eoe.thy ===== *)
theory Eoe
  imports Foe
begin

text \<open>
  Ethernet over EtherCAT, \<^verbatim>\<open>soem/ethercateoe.c\<close>: setting and getting the network parameters of a
  slave, and sending and receiving Ethernet frames in fragments. In an EoE mailbox the words at 6
  and 8 hold the type, port and flags and, for a fragment, its number, its offset in units of 32
  bytes and the number of the frame, for an answer the result; data start at 10. The machine is
  little endian.
\<close>

section \<open>Header words\<close>

abbreviation EOE_INIT_REQ :: u16 where "EOE_INIT_REQ \<equiv> 2"
abbreviation EOE_INIT_RESP :: u16 where "EOE_INIT_RESP \<equiv> 3"
abbreviation EOE_GET_IP_PARAM_REQ :: u16 where "EOE_GET_IP_PARAM_REQ \<equiv> 6"
abbreviation EOE_GET_IP_PARAM_RESP :: u16 where "EOE_GET_IP_PARAM_RESP \<equiv> 7"
abbreviation EOE_RESULT_SUCCESS :: u16 where "EOE_RESULT_SUCCESS \<equiv> 0"
abbreviation EOE_RESULT_UNSUPPORTED_FRAME_TYPE :: int where "EOE_RESULT_UNSUPPORTED_FRAME_TYPE \<equiv> 2"
abbreviation EOE_DNS_NAME_LENGTH :: nat where "EOE_DNS_NAME_LENGTH \<equiv> 32"

definition eoe_type :: "u16 \<Rightarrow> u16" where
  "eoe_type i1 = i1 AND 0xF"

definition eoe_port :: "u16 \<Rightarrow> u16" where
  "eoe_port i1 = drop_bit 4 i1 AND 0xF"

definition eoe_port_set :: "u8 \<Rightarrow> u16" where
  "eoe_port_set prt = push_bit 4 (ucast prt AND 0xF)"

definition eoe_last :: "u16 \<Rightarrow> bool" where
  "eoe_last i1 = (drop_bit 8 i1 AND 1 \<noteq> 0)"

definition eoe_time_append :: "u16 \<Rightarrow> bool" where
  "eoe_time_append i1 = (drop_bit 9 i1 AND 1 \<noteq> 0)"

definition eoe_frag_no :: "u16 \<Rightarrow> u16" where
  "eoe_frag_no i2 = i2 AND 0x3F"

definition eoe_offset :: "u16 \<Rightarrow> u16" where
  "eoe_offset i2 = drop_bit 6 i2 AND 0x3F"

definition eoe_frame_no :: "u16 \<Rightarrow> u16" where
  "eoe_frame_no i2 = drop_bit 12 i2 AND 0xF"

definition eoe_info2 :: "u16 \<Rightarrow> u16 \<Rightarrow> u16 \<Rightarrow> u16" where
  "eoe_info2 frag off frame = ((frag AND 0x3F) OR push_bit 6 (off AND 0x3F)) OR push_bit 12 (frame AND 0xF)"

definition eoe_head :: "u16 \<Rightarrow> u8 \<Rightarrow> u16 \<Rightarrow> u16 \<Rightarrow> u8 list" where
  "eoe_head len cnt info1 info2 = mbx_header len 0 ECT_MBXT_EOE cnt @ enc16 info1 @ enc16 info2"

definition ecx_EOEdefinehook :: "(u16 \<Rightarrow> ec_mbxbuf \<Rightarrow> int) option \<Rightarrow> ecx_context \<Rightarrow> int \<times> ecx_context" where
  "ecx_EOEdefinehook hook c = (1, c\<lparr>EOEhook := hook\<rparr>)"

section \<open>Network parameters\<close>

text \<open>
  An address keeps its octets in the order of the network; as a number of the machine the first
  octet is the lowest byte.
\<close>

definition EOE_ip_uint32_to_byte :: "u32 \<Rightarrow> u8 list" where
  "EOE_ip_uint32_to_byte ip = rev (enc32 ip)"

definition EOE_MAKEU32 :: "u8 \<Rightarrow> u8 \<Rightarrow> u8 \<Rightarrow> u8 \<Rightarrow> u32" where
  "EOE_MAKEU32 a b c d = push_bit 24 (ucast a) OR push_bit 16 (ucast b) OR push_bit 8 (ucast c) OR ucast d"

definition EOE_HTONL :: "u32 \<Rightarrow> u32" where
  "EOE_HTONL x = push_bit 24 (x AND 0x000000ff) OR push_bit 8 (x AND 0x0000ff00) OR
     drop_bit 8 (x AND 0x00ff0000) OR drop_bit 24 (x AND 0xff000000)"

definition EOE_ip_byte_to_uint32 :: "u8 list \<Rightarrow> u32" where
  "EOE_ip_byte_to_uint32 b = EOE_HTONL (EOE_MAKEU32 (b ! 3) (b ! 2) (b ! 1) (b ! 0))"

record eoe_param =
  mac_set :: bool
  ip_set :: bool
  subnet_set :: bool
  default_gateway_set :: bool
  dns_ip_set :: bool
  dns_name_set :: bool
  eoe_mac :: "u8 list"
  eoe_ip :: u32
  eoe_subnet :: u32
  eoe_default_gateway :: u32
  eoe_dns_ip :: u32
  eoe_dns_name :: "u8 list"

text \<open>The flags of the parameters included, and the parameters one behind the other.\<close>

definition eoe_flags :: "eoe_param \<Rightarrow> u8" where
  "eoe_flags prm = (if mac_set prm then 0x01 else 0) OR (if ip_set prm then 0x02 else 0) OR (if subnet_set prm then 0x04 else 0) OR
     (if default_gateway_set prm then 0x08 else 0) OR (if dns_ip_set prm then 0x10 else 0) OR (if dns_name_set prm then 0x20 else 0)"

definition eoe_params :: "eoe_param \<Rightarrow> u8 list" where
  "eoe_params prm =
     (if mac_set prm then eoe_mac prm else []) @
     (if ip_set prm then EOE_ip_uint32_to_byte (eoe_ip prm) else []) @
     (if subnet_set prm then EOE_ip_uint32_to_byte (eoe_subnet prm) else []) @
     (if default_gateway_set prm then EOE_ip_uint32_to_byte (eoe_default_gateway prm) else []) @
     (if dns_ip_set prm then EOE_ip_uint32_to_byte (eoe_dns_ip prm) else []) @
     (if dns_name_set prm then eoe_dns_name prm else [])"

definition eoe_set_request :: "u8 \<Rightarrow> u8 \<Rightarrow> eoe_param \<Rightarrow> ec_mbxbuf" where
  "eoe_set_request cnt prt prm =
     (let data_offset = 4 + length (eoe_params prm)
      in put_bytes 14 (eoe_params prm)
           (put_bytes 0 (eoe_head (of_nat (4 + data_offset)) cnt (EOE_INIT_REQ OR eoe_port_set prt OR 0x100) 0 @ [eoe_flags prm]) new_mbx))"

definition ecx_EOEsetIp :: "u16 \<Rightarrow> u8 \<Rightarrow> eoe_param \<Rightarrow> int \<Rightarrow> ecx_context \<Rightarrow> (int \<times> ecx_context) option" where
  "ecx_EOEsetIp slave prt prm timeout c = do {
     (MbxIn, c) \<leftarrow> mbx_flush slave c;
     (cnt, c) \<leftarrow> mbx_session slave c;
     (wkc, c) \<leftarrow> ecx_mbxsend slave (eoe_set_request cnt prt prm) EC_TIMEOUTTXM c;
     if wkc > 0 then do {
       (wkc, MbxIn, c) \<leftarrow> ecx_mbxreceive slave (ec_clearmbx MbxIn) timeout c;
       if wkc > 0 then
         if mbx_kind MbxIn = ECT_MBXT_EOE then
           if eoe_type (mbx16 MbxIn 6) \<noteq> EOE_INIT_RESP \<or> mbx16 MbxIn 8 \<noteq> EOE_RESULT_SUCCESS then Some (- int (unat (mbx16 MbxIn 8)), c)
           else Some (wkc, c)
         else Some (- err_number EC_ERR_TYPE_PACKET_ERROR, c)
       else Some (wkc, c)
     } else Some (wkc, c)
   }"

text \<open>
  The parameters of an answer, from the offset reached: the next one is taken when its flag is
  set. The name takes what the length field leaves, at most 32 bytes; when it leaves less than
  nothing, the 16-bit length has wrapped around.
\<close>

definition eoe_take :: "ec_mbxbuf \<Rightarrow> u8 \<Rightarrow> nat \<Rightarrow> (u8 list \<Rightarrow> eoe_param \<Rightarrow> eoe_param) \<Rightarrow> nat \<times> eoe_param \<Rightarrow> nat \<times> eoe_param" where
  "eoe_take m flag n upd = (\<lambda>(data_offset, prm).
     if mbx8 m 10 AND flag \<noteq> 0 then (data_offset + n, upd (take n (drop (10 + data_offset) m)) prm) else (data_offset, prm))"

definition eoe_take_name :: "ec_mbxbuf \<Rightarrow> u16 \<Rightarrow> nat \<times> eoe_param \<Rightarrow> (nat \<times> eoe_param) option" where
  "eoe_take_name m eoedatasize = (\<lambda>(data_offset, prm).
     if mbx8 m 10 AND 0x20 \<noteq> 0 then do {
       let dns_len = (if int (unat eoedatasize) - int data_offset < int EOE_DNS_NAME_LENGTH
         then unat (eoedatasize - of_nat data_offset) else EOE_DNS_NAME_LENGTH);
       bs \<leftarrow> mem_read m (10 + data_offset) dns_len;
       name \<leftarrow> mem_write (eoe_dns_name prm) 0 bs;
       Some (data_offset + EOE_DNS_NAME_LENGTH, prm\<lparr>eoe_dns_name := name, dns_name_set := True\<rparr>)
     } else Some (data_offset, prm))"

definition eoe_parse :: "ec_mbxbuf \<Rightarrow> u16 \<Rightarrow> eoe_param \<Rightarrow> (nat \<times> eoe_param) option" where
  "eoe_parse m eoedatasize prm =
     eoe_take_name m eoedatasize
      (eoe_take m 0x10 4 (\<lambda>b prm. prm\<lparr>eoe_dns_ip := EOE_ip_byte_to_uint32 b, dns_ip_set := True\<rparr>)
      (eoe_take m 0x08 4 (\<lambda>b prm. prm\<lparr>eoe_default_gateway := EOE_ip_byte_to_uint32 b, default_gateway_set := True\<rparr>)
      (eoe_take m 0x04 4 (\<lambda>b prm. prm\<lparr>eoe_subnet := EOE_ip_byte_to_uint32 b, subnet_set := True\<rparr>)
      (eoe_take m 0x02 4 (\<lambda>b prm. prm\<lparr>eoe_ip := EOE_ip_byte_to_uint32 b, ip_set := True\<rparr>)
      (eoe_take m 0x01 6 (\<lambda>b prm. prm\<lparr>eoe_mac := b, mac_set := True\<rparr>) (4, prm))))))"

definition eoe_get_answer :: "ec_mbxbuf \<Rightarrow> int \<Rightarrow> eoe_param \<Rightarrow> (int \<times> eoe_param) option" where
  "eoe_get_answer m wkc prm =
     (if mbx_kind m = ECT_MBXT_EOE then
        if eoe_type (mbx16 m 6) \<noteq> EOE_GET_IP_PARAM_RESP then Some (- EOE_RESULT_UNSUPPORTED_FRAME_TYPE, prm)
        else do {
          let eoedatasize = mbx16 m 0 - 0x0004;
          (data_offset, prm) \<leftarrow> eoe_parse m eoedatasize prm;
          Some (if data_offset > unat eoedatasize then - err_number EC_ERR_TYPE_MBX_ERROR else wkc, prm)
        }
      else Some (- err_number EC_ERR_TYPE_PACKET_ERROR, prm))"

definition ecx_EOEgetIp :: "u16 \<Rightarrow> u8 \<Rightarrow> eoe_param \<Rightarrow> int \<Rightarrow> ecx_context \<Rightarrow> (int \<times> eoe_param \<times> ecx_context) option" where
  "ecx_EOEgetIp slave prt prm timeout c = do {
     (MbxIn, c) \<leftarrow> mbx_flush slave c;
     (cnt, c) \<leftarrow> mbx_session slave c;
     let MbxOut = put_bytes 0 (eoe_head 0x0004 cnt (EOE_GET_IP_PARAM_REQ OR eoe_port_set prt OR 0x100) 0 @ [0]) new_mbx;
     (wkc, c) \<leftarrow> ecx_mbxsend slave MbxOut EC_TIMEOUTTXM c;
     if wkc > 0 then do {
       (wkc, MbxIn, c) \<leftarrow> ecx_mbxreceive slave (ec_clearmbx MbxIn) timeout c;
       if wkc > 0 then do {
         (wkc, prm) \<leftarrow> eoe_get_answer MbxIn wkc prm;
         Some (wkc, prm, c)
       } else Some (wkc, prm, c)
     } else Some (wkc, prm, c)
   }"

section \<open>Sending a frame\<close>

text \<open>The size of the next fragment: what is left, or as many blocks of 32 bytes as fit.\<close>

definition eoe_txsize :: "int \<Rightarrow> int \<Rightarrow> int" where
  "eoe_txsize maxdata left = (if left > maxdata then push_bit 5 (drop_bit 5 maxdata) else left)"

text \<open>The two header words of the fragment: the first carries the size of the frame in blocks.\<close>

definition eoe_txinfo1 :: "u8 \<Rightarrow> bool \<Rightarrow> u16" where
  "eoe_txinfo1 prt NotLast = (if NotLast then eoe_port_set prt else 0x100 OR eoe_port_set prt)"

definition eoe_txinfo2 :: "u8 \<Rightarrow> u8 \<Rightarrow> int \<Rightarrow> int \<Rightarrow> u16" where
  "eoe_txinfo2 txfragmentno txframeno txframeoffset psize =
     eoe_info2 (ucast txfragmentno)
       (word_of_int (if txfragmentno > 0 then drop_bit 5 txframeoffset else drop_bit 5 (psize + 31))) (ucast txframeno)"

text \<open>Fragment, frame number and offset, result, mailbox. The frame number is a static variable.\<close>

type_synonym eoe_send_state = "u8 \<times> u8 \<times> int \<times> int \<times> ec_mbxbuf \<times> ecx_context"

definition eoe_send_body :: "u16 \<Rightarrow> u8 \<Rightarrow> int \<Rightarrow> u8 list \<Rightarrow> int \<Rightarrow> int \<Rightarrow> eoe_send_state \<Rightarrow> (eoe_send_state \<times> bool) option" where
  "eoe_send_body slave prt psize p maxdata timeout = (\<lambda>(txfragmentno, txframeno, txframeoffset, wkc, MbxOut, c). do {
     let txframesize = eoe_txsize maxdata (psize - txframeoffset);
     let NotLast = (txframesize \<noteq> psize - txframeoffset);
     let txframeno = (if txfragmentno > 0 then txframeno else txframeno + 1);
     (cnt, c) \<leftarrow> mbx_session slave c;
     let MbxOut = put_bytes 0 (eoe_head (word_of_int (4 + txframesize)) cnt (eoe_txinfo1 prt NotLast)
       (eoe_txinfo2 txfragmentno txframeno txframeoffset psize)) MbxOut;
     chk (0 \<le> txframesize \<and> 0 \<le> txframeoffset);
     bs \<leftarrow> mem_read p (nat txframeoffset) (nat txframesize);
     MbxOut \<leftarrow> mem_write MbxOut 10 bs;
     (wkc, c) \<leftarrow> ecx_mbxsend slave MbxOut timeout c;
     if NotLast \<and> wkc > 0 then Some ((txfragmentno + 1, txframeno, txframeoffset + txframesize, wkc, MbxOut, c), True)
     else Some ((txfragmentno, txframeno, txframeoffset, wkc, MbxOut, c), False)
   })"

definition ecx_EOEsend :: "u16 \<Rightarrow> u8 \<Rightarrow> int \<Rightarrow> u8 list \<Rightarrow> int \<Rightarrow> u8 \<Rightarrow> ecx_context \<Rightarrow> (int \<times> u8 \<times> ecx_context) option" where
  "ecx_EOEsend slave prt psize p timeout txframeno c = do {
     s \<leftarrow> get_slave slave c;
     let maxdata = int (unat (s_mbx_l s)) - 0x0A;
     (_, txframeno, _, wkc, _, c) \<leftarrow> do_while (eoe_send_body slave prt psize p maxdata timeout) (0, txframeno, 0, 0, new_mbx, c);
     Some (wkc, txframeno, c)
   }"

section \<open>Receiving a frame\<close>

text \<open>NotLast, fragment number, frame number, offset, size for the caller and his memory.\<close>

type_synonym eoe_rx = "bool \<times> u8 \<times> u8 \<times> int \<times> int \<times> u8 list"

text \<open>One mailbox: \<open>Inl\<close> an error that ends the loop.\<close>

definition eoe_recv_fragment :: "u8 \<Rightarrow> int \<Rightarrow> ec_mbxbuf \<Rightarrow> eoe_rx \<Rightarrow> (int + eoe_rx) option" where
  "eoe_recv_fragment prt buffersize m = (\<lambda>(NotLast, rxfragmentno, rxframeno, rxframeoffset, psize, p).
     if mbx_kind m = ECT_MBXT_EOE then
       let eoedatasize = int (unat (mbx16 m 0)) - 4;
           info1 = mbx16 m 6;
           info2 = mbx16 m 8;
           bad = Some (Inl (- err_number EC_ERR_TYPE_EOE_INVALID_RX_DATA))
       in if ucast rxfragmentno \<noteq> eoe_frag_no info2 \<and> eoe_frag_no info2 > 0 then bad
          else if rxfragmentno = 0 \<and> (32 * int (unat (eoe_offset info2)) > buffersize \<or> ucast prt \<noteq> eoe_port info1) then bad
          else if rxfragmentno \<noteq> 0 \<and> (ucast rxframeno \<noteq> eoe_frame_no info2 \<or> rxframeoffset \<noteq> 32 * int (unat (eoe_offset info2))) then bad
          else do {
            let rxframeno = (if rxfragmentno = 0 then ucast (eoe_frame_no info2) else rxframeno);
            (rxfragmentno, rxframeoffset, p) \<leftarrow>
              (if rxframeoffset + eoedatasize \<le> buffersize then do {
                 chk (0 \<le> eoedatasize \<and> 0 \<le> rxframeoffset);
                 bs \<leftarrow> mem_read m 10 (nat eoedatasize);
                 p \<leftarrow> mem_write p (nat rxframeoffset) bs;
                 Some (rxfragmentno + 1, rxframeoffset + eoedatasize, p)
               } else Some (rxfragmentno, rxframeoffset, p));
            if eoe_last info1 then
              let rxframeoffset = (if eoe_time_append info1 then rxframeoffset - 4 else rxframeoffset)
              in Some (Inr (False, rxfragmentno, rxframeno, rxframeoffset, rxframeoffset, p))
            else Some (Inr (NotLast, rxfragmentno, rxframeno, rxframeoffset, psize, p))
          }
     else Some (Inl (- err_number EC_ERR_TYPE_PACKET_ERROR)))"

definition eoe_recv_body :: "u16 \<Rightarrow> u8 \<Rightarrow> int \<Rightarrow> int \<Rightarrow> int \<times> eoe_rx \<times> ec_mbxbuf \<times> ecx_context \<Rightarrow> (int \<times> eoe_rx \<times> ec_mbxbuf \<times> ecx_context) option" where
  "eoe_recv_body slave prt buffersize timeout = (\<lambda>(wkc, rx, MbxIn, c). do {
     r \<leftarrow> eoe_recv_fragment prt buffersize MbxIn rx;
     case r of
       Inl wkc \<Rightarrow> Some (wkc, rx, MbxIn, c)
     | Inr rx \<Rightarrow>
         if fst rx then do {
           (wkc, MbxIn, c) \<leftarrow> ecx_mbxreceive slave MbxIn timeout c;
           Some (wkc, rx, MbxIn, c)
         } else Some (wkc, rx, MbxIn, c)
   })"

definition ecx_EOErecv :: "u16 \<Rightarrow> u8 \<Rightarrow> int \<Rightarrow> u8 list \<Rightarrow> int \<Rightarrow> ecx_context \<Rightarrow> (int \<times> int \<times> u8 list \<times> ecx_context) option" where
  "ecx_EOErecv slave prt psize p timeout c = do {
     (wkc, MbxIn, c) \<leftarrow> ecx_mbxreceive slave new_mbx timeout c;
     (wkc, (_, _, _, _, psize, p), _, c) \<leftarrow> while_loop (\<lambda>(wkc, rx, _). wkc > 0 \<and> fst rx) (eoe_recv_body slave prt psize timeout)
       (wkc, (True, 0, 0xff, 0, psize, p), MbxIn, c);
     Some (wkc, psize, p, c)
   }"

text \<open>The state of a reception that is driven by a hook, and one mailbox of it.\<close>

record eoe_reassembly =
  rxfragmentno :: u8
  rxframesize :: u16
  rxframeoffset :: u16
  rxframeno :: u16

definition eoe_idle :: eoe_reassembly where
  "eoe_idle = \<lparr>rxfragmentno = 0, rxframesize = 0, rxframeoffset = 0, rxframeno = 0\<rparr>"

definition ecx_EOEreadfragment :: "ec_mbxbuf \<Rightarrow> eoe_reassembly \<Rightarrow> int \<Rightarrow> u8 list \<Rightarrow> (int \<times> eoe_reassembly \<times> int \<times> u8 list) option" where
  "ecx_EOEreadfragment MbxIn r psize p =
     (if mbx_kind MbxIn = ECT_MBXT_EOE then
        let eoedatasize = mbx16 MbxIn 0 - 0x0004;
            info1 = mbx16 MbxIn 6;
            info2 = mbx16 MbxIn 8;
            wrong = (ucast (rxfragmentno r) \<noteq> eoe_frag_no info2);
            r = (if wrong \<and> rxfragmentno r \<noteq> 0 then eoe_idle else r)
        in if wrong \<and> eoe_frag_no info2 > 0 then Some (- err_number EC_ERR_TYPE_EOE_INVALID_RX_DATA, r, psize, p)
           else if rxfragmentno r \<noteq> 0 \<and> (rxframeno r \<noteq> eoe_frame_no info2 \<or> rxframeoffset r \<noteq> push_bit 5 (eoe_offset info2)) then
             Some (- err_number EC_ERR_TYPE_EOE_INVALID_RX_DATA, eoe_idle, psize, p)
           else do {
             let r = (if rxfragmentno r = 0 then r\<lparr>rxframesize := push_bit 5 (eoe_offset info2), rxframeoffset := 0, rxframeno := eoe_frame_no info2\<rparr> else r);
             (r, p) \<leftarrow>
               (if unat (rxframeoffset r) + unat eoedatasize \<le> unat (rxframesize r) \<and> int (unat (rxframeoffset r) + unat eoedatasize) \<le> psize then do {
                  bs \<leftarrow> mem_read MbxIn 10 (unat eoedatasize);
                  p \<leftarrow> mem_write p (unat (rxframeoffset r)) bs;
                  Some (r\<lparr>rxframeoffset := rxframeoffset r + eoedatasize, rxfragmentno := rxfragmentno r + 1\<rparr>, p)
                } else Some (r, p));
             if eoe_last info1 then
               let off = (if eoe_time_append info1 then rxframeoffset r - 4 else rxframeoffset r)
               in Some (1, eoe_idle, int (unat off), p)
             else Some (0, r, psize, p)
           }
      else Some (- err_number EC_ERR_TYPE_PACKET_ERROR, r, psize, p))"

end
