(* ===== verification/EoeProps.thy ===== *)
theory EoeProps
  imports Eoe FoeProps
begin

text \<open>
  What Ethernet over EtherCAT guarantees: the parameters written read back, the fragments of a
  frame are put together again from any state of the receiver, sending ends, and two ways in which
  it goes wrong: mailboxes too small for a block, and a length that wraps around.
\<close>

section \<open>Network parameters\<close>

lemma ip_bytes [simp]: "length (EOE_ip_uint32_to_byte ip) = 4"
  by (simp add: EOE_ip_uint32_to_byte_def)

lemma HTONL_MAKEU32: "EOE_HTONL (EOE_MAKEU32 a b c d) = push_bit 24 (ucast d) OR push_bit 16 (ucast c) OR push_bit 8 (ucast b) OR ucast a"
proof -
  have m: "(0x000000ff :: u32) = mask 8" "(0x0000ff00 :: u32) = push_bit 8 (mask 8)" "(0x00ff0000 :: u32) = push_bit 16 (mask 8)"
      "(0xff000000 :: u32) = push_bit 24 (mask 8)"
    by (simp_all add: mask_eq_exp_minus_1 push_bit_eq_mult)
  have b: "bit (ucast x :: u32) n \<longleftrightarrow> n < 8 \<and> bit x n" for x :: u8 and n
    by (auto simp: bit_simps dest: bit_imp_le_length)
  show ?thesis
    unfolding EOE_HTONL_def EOE_MAKEU32_def m
  proof (rule bit_word_eqI)
    fix n assume "n < LENGTH(32)"
    then consider "n < 8" | "8 \<le> n" "n < 16" | "16 \<le> n" "n < 24" | "24 \<le> n" "n < 32" by fastforce
    then show "bit (push_bit 24 ((push_bit 24 (ucast a) OR push_bit 16 (ucast b) OR push_bit 8 (ucast c) OR ucast d) AND mask 8) OR
        push_bit 8 ((push_bit 24 (ucast a) OR push_bit 16 (ucast b) OR push_bit 8 (ucast c) OR ucast d) AND push_bit 8 (mask 8)) OR
        drop_bit 8 ((push_bit 24 (ucast a) OR push_bit 16 (ucast b) OR push_bit 8 (ucast c) OR ucast d) AND push_bit 16 (mask 8)) OR
        drop_bit 24 ((push_bit 24 (ucast a) OR push_bit 16 (ucast b) OR push_bit 8 (ucast c) OR ucast d) AND push_bit 24 (mask 8)) :: u32) n =
      bit (push_bit 24 (ucast d) OR push_bit 16 (ucast c) OR push_bit 8 (ucast b) OR ucast a :: u32) n"
      by cases (auto simp: bit_or_iff bit_and_iff bit_push_bit_iff bit_drop_bit_eq bit_mask_iff b)
  qed
qed

lemma ip_roundtrip: "EOE_ip_byte_to_uint32 (EOE_ip_uint32_to_byte ip) = ip"
proof -
  have "EOE_ip_byte_to_uint32 (EOE_ip_uint32_to_byte ip) = dec32 (enc32 ip)"
    by (simp add: EOE_ip_byte_to_uint32_def EOE_ip_uint32_to_byte_def enc32_def enc16_def HTONL_MAKEU32 dec32_def get32_def get16_def
        list_buf_def mk16_def lo8_def hi8_def)
      (rule bit_word_eqI, auto simp: bit_simps)
  then show ?thesis by simp
qed

lemma eoe_flags_bits:
  "eoe_flags prm AND 0x01 \<noteq> 0 \<longleftrightarrow> mac_set prm" "eoe_flags prm AND 0x02 \<noteq> 0 \<longleftrightarrow> ip_set prm"
  "eoe_flags prm AND 0x04 \<noteq> 0 \<longleftrightarrow> subnet_set prm" "eoe_flags prm AND 0x08 \<noteq> 0 \<longleftrightarrow> default_gateway_set prm"
  "eoe_flags prm AND 0x10 \<noteq> 0 \<longleftrightarrow> dns_ip_set prm" "eoe_flags prm AND 0x20 \<noteq> 0 \<longleftrightarrow> dns_name_set prm"
proof -
  have i: "(if b then x else 0) AND y = (if b then x AND y else 0)" for b and x y :: u8 by simp
  show "eoe_flags prm AND 0x01 \<noteq> 0 \<longleftrightarrow> mac_set prm" "eoe_flags prm AND 0x02 \<noteq> 0 \<longleftrightarrow> ip_set prm"
    "eoe_flags prm AND 0x04 \<noteq> 0 \<longleftrightarrow> subnet_set prm" "eoe_flags prm AND 0x08 \<noteq> 0 \<longleftrightarrow> default_gateway_set prm"
    "eoe_flags prm AND 0x10 \<noteq> 0 \<longleftrightarrow> dns_ip_set prm" "eoe_flags prm AND 0x20 \<noteq> 0 \<longleftrightarrow> dns_name_set prm"
    unfolding eoe_flags_def word_ao_dist i by simp_all
qed

lemma take_inside: "take (length (pre @ bs @ post)) (drop k m) = pre @ bs @ post \<Longrightarrow> take (length bs) (drop (k + length pre) m) = bs"
proof -
  assume a: "take (length (pre @ bs @ post)) (drop k m) = pre @ bs @ post"
  have "take (length bs) (drop (length pre) (take (length (pre @ bs @ post)) (drop k m))) = bs" unfolding a by simp
  then show ?thesis by (simp add: drop_take add.commute)
qed

lemma eoe_take_step:
  assumes "take (length (pre @ (if b then x else []) @ post)) (drop 14 m) = pre @ (if b then x else []) @ post"
    and "mbx8 m 10 AND flag \<noteq> 0 \<longleftrightarrow> b" "b \<Longrightarrow> length x = n"
  shows "eoe_take m flag n upd (4 + length pre, q) = (4 + length (pre @ (if b then x else [])), if b then upd x q else q)"
proof (cases b)
  case True
  then have "take (length x) (drop (14 + length pre) m) = x" using assms(1) take_inside [of pre x post 14 m] by simp
  with True assms(2,3) show ?thesis by (simp add: eoe_take_def add.assoc [symmetric])
next
  case False
  then show ?thesis using assms(2) by (simp add: eoe_take_def)
qed

lemma eoe_take_name_step:
  assumes "mbx8 m 10 AND 0x20 \<noteq> 0 \<longleftrightarrow> b"
    and "b \<Longrightarrow> take 32 (drop (14 + L) m) = name \<and> length name = 32 \<and> 14 + L + 32 \<le> length m \<and> sz = of_nat (36 + L) \<and> L < 1000"
    and "length (eoe_dns_name x) = EOE_DNS_NAME_LENGTH"
  shows "eoe_take_name m sz (4 + L, x) =
    Some (4 + L + (if b then 32 else 0), if b then x\<lparr>eoe_dns_name := name, dns_name_set := True\<rparr> else x)"
proof (cases b)
  case True
  then have a: "take 32 (drop (14 + L) m) = name" "length name = 32" "14 + L + 32 \<le> length m" "sz = of_nat (36 + L)" "L < 1000"
    using assms(2) by simp_all
  have u: "unat sz = 36 + L" unfolding a(4) by (rule unat_of_nat_u16) (use a(5) in simp)
  have n: "\<not> int (36 + L) - int (4 + L) < int EOE_DNS_NAME_LENGTH" by simp
  have "mem_read m (10 + (4 + L)) EOE_DNS_NAME_LENGTH = Some name" using a(1,3) by (simp add: mem_read_def)
  moreover have "mem_write (eoe_dns_name x) 0 name = Some name" using a(2) assms(3) by (simp add: mem_write_def)
  moreover have "mbx8 m 10 AND 0x20 \<noteq> 0" using assms(1) True by simp
  ultimately show ?thesis
    unfolding eoe_take_name_def prod.case u Let_def if_not_P [OF n] using True by simp
next
  case False
  then show ?thesis using assms(1) by (simp add: eoe_take_name_def)
qed

text \<open>The parameters known after those of \<open>prm\<close> have been received.\<close>

definition eoe_learn :: "eoe_param \<Rightarrow> eoe_param \<Rightarrow> eoe_param" where
  "eoe_learn prm q = q\<lparr>mac_set := mac_set prm \<or> mac_set q, ip_set := ip_set prm \<or> ip_set q, subnet_set := subnet_set prm \<or> subnet_set q,
     default_gateway_set := default_gateway_set prm \<or> default_gateway_set q, dns_ip_set := dns_ip_set prm \<or> dns_ip_set q,
     dns_name_set := dns_name_set prm \<or> dns_name_set q,
     eoe_mac := (if mac_set prm then eoe_mac prm else eoe_mac q), eoe_ip := (if ip_set prm then eoe_ip prm else eoe_ip q),
     eoe_subnet := (if subnet_set prm then eoe_subnet prm else eoe_subnet q),
     eoe_default_gateway := (if default_gateway_set prm then eoe_default_gateway prm else eoe_default_gateway q),
     eoe_dns_ip := (if dns_ip_set prm then eoe_dns_ip prm else eoe_dns_ip q),
     eoe_dns_name := (if dns_name_set prm then eoe_dns_name prm else eoe_dns_name q)\<rparr>"

definition param_ok :: "eoe_param \<Rightarrow> bool" where
  "param_ok prm \<longleftrightarrow> length (eoe_mac prm) = 6 \<and> length (eoe_dns_name prm) = EOE_DNS_NAME_LENGTH"

lemma length_eoe_params: "param_ok prm \<Longrightarrow> length (eoe_params prm) \<le> 54"
  by (simp add: eoe_params_def param_ok_def)

lemma set_request:
  assumes "param_ok prm"
  shows "length (eoe_set_request cnt prt prm) = EC_MAXMBX + 1"
    "take (length (eoe_params prm)) (drop 14 (eoe_set_request cnt prt prm)) = eoe_params prm"
    "mbx8 (eoe_set_request cnt prt prm) 10 = eoe_flags prm" "mbx16 (eoe_set_request cnt prt prm) 0 = of_nat (8 + length (eoe_params prm))"
proof -
  note l = length_eoe_params [OF assms] mbx_fit_length [OF new_mbx_fit]
  let ?h = "eoe_head (of_nat (8 + length (eoe_params prm))) cnt (EOE_INIT_REQ OR eoe_port_set prt OR 0x100) 0 @ [eoe_flags prm]"
  have h: "length ?h = 11" "?h ! 10 = eoe_flags prm" "?h ! 0 = lo8 (of_nat (8 + length (eoe_params prm)))"
      "?h ! 1 = hi8 (of_nat (8 + length (eoe_params prm)))"
    by (simp_all add: eoe_head_def mbx_header_def enc16_def)
  have m: "eoe_set_request cnt prt prm = put_bytes 14 (eoe_params prm) (put_bytes 0 ?h new_mbx)"
    by (simp add: eoe_set_request_def Let_def)
  show "length (eoe_set_request cnt prt prm) = EC_MAXMBX + 1" "take (length (eoe_params prm)) (drop 14 (eoe_set_request cnt prt prm)) = eoe_params prm"
    unfolding m using l h(1) by (simp_all add: drop_take_put_bytes)
  show "mbx8 (eoe_set_request cnt prt prm) 10 = eoe_flags prm" "mbx16 (eoe_set_request cnt prt prm) 0 = of_nat (8 + length (eoe_params prm))"
    unfolding m mbx8_def mbx16_def get16_def list_buf_def using l h by (simp_all add: nth_put_bytes)
qed

text \<open>
  C32: a slave that answers with the parameters in the form in which the master writes them is
  understood: every parameter that was included is learnt with its value, the others stay as they
  were, and the offset reached is the size announced.
\<close>

theorem eoe_params_roundtrip:
  assumes "param_ok prm" "length (eoe_dns_name q) = EOE_DNS_NAME_LENGTH"
  shows "eoe_parse (eoe_set_request cnt prt prm) (mbx16 (eoe_set_request cnt prt prm) 0 - 4) q =
    Some (4 + length (eoe_params prm), eoe_learn prm q)"
proof -
  let ?m = "eoe_set_request cnt prt prm"
  let ?a = "if mac_set prm then eoe_mac prm else []" and ?b = "if ip_set prm then EOE_ip_uint32_to_byte (eoe_ip prm) else []"
  let ?c = "if subnet_set prm then EOE_ip_uint32_to_byte (eoe_subnet prm) else []"
  let ?d = "if default_gateway_set prm then EOE_ip_uint32_to_byte (eoe_default_gateway prm) else []"
  let ?e = "if dns_ip_set prm then EOE_ip_uint32_to_byte (eoe_dns_ip prm) else []"
  let ?f = "if dns_name_set prm then eoe_dns_name prm else []"
  note r = set_request [OF assms(1), of cnt prt]
  note fl = eoe_flags_bits [of prm, folded r(3)]
  have all: "take (length (eoe_params prm)) (drop 14 ?m) = eoe_params prm" by (rule r(2))
  have 1: "eoe_take ?m 0x01 6 u (4, q) = (4 + length ?a, if mac_set prm then u (eoe_mac prm) q else q)" for u
    using eoe_take_step [of "[]" "mac_set prm" "eoe_mac prm" "?b @ ?c @ ?d @ ?e @ ?f" ?m "0x01" 6 u q] all fl(1) assms(1)
    by (simp add: eoe_params_def param_ok_def)
  have 2: "eoe_take ?m 0x02 4 u (4 + length ?a, x) = (4 + length (?a @ ?b), if ip_set prm then u (EOE_ip_uint32_to_byte (eoe_ip prm)) x else x)" for u x
    by (rule eoe_take_step [where post = "?c @ ?d @ ?e @ ?f"]) (use all fl(2) in \<open>simp_all only: eoe_params_def append_assoc ip_bytes\<close>)
  have 3: "eoe_take ?m 0x04 4 u (4 + length (?a @ ?b), x) =
      (4 + length ((?a @ ?b) @ ?c), if subnet_set prm then u (EOE_ip_uint32_to_byte (eoe_subnet prm)) x else x)" for u x
    by (rule eoe_take_step [where post = "?d @ ?e @ ?f"]) (use all fl(3) in \<open>simp_all only: eoe_params_def append_assoc ip_bytes\<close>)
  have 4: "eoe_take ?m 0x08 4 u (4 + length ((?a @ ?b) @ ?c), x) =
      (4 + length (((?a @ ?b) @ ?c) @ ?d), if default_gateway_set prm then u (EOE_ip_uint32_to_byte (eoe_default_gateway prm)) x else x)" for u x
    by (rule eoe_take_step [where post = "?e @ ?f"]) (use all fl(4) in \<open>simp_all only: eoe_params_def append_assoc ip_bytes\<close>)
  have 5: "eoe_take ?m 0x10 4 u (4 + length (((?a @ ?b) @ ?c) @ ?d), x) =
      (4 + length ((((?a @ ?b) @ ?c) @ ?d) @ ?e), if dns_ip_set prm then u (EOE_ip_uint32_to_byte (eoe_dns_ip prm)) x else x)" for u x
    by (rule eoe_take_step [where post = ?f]) (use all fl(5) in \<open>simp_all only: eoe_params_def append_assoc ip_bytes\<close>)
  let ?p = "(((?a @ ?b) @ ?c) @ ?d) @ ?e"
  have P: "eoe_params prm = ?p @ ?f" by (simp add: eoe_params_def)
  have 6: "eoe_take_name ?m (mbx16 ?m 0 - 4) (4 + length ?p, x) =
      Some (4 + length (eoe_params prm), if dns_name_set prm then x\<lparr>eoe_dns_name := eoe_dns_name prm, dns_name_set := True\<rparr> else x)"
    if x: "length (eoe_dns_name x) = EOE_DNS_NAME_LENGTH" for x
  proof -
    have le: "length (eoe_params prm) = length ?p + (if dns_name_set prm then 32 else 0)"
      unfolding P length_append using assms(1) by (simp add: param_ok_def)
    have t: "dns_name_set prm \<Longrightarrow> take (length (eoe_dns_name prm)) (drop (14 + length ?p) ?m) = eoe_dns_name prm"
      by (rule take_inside [where post = "[]"]) (use all P in simp)
    have "length (eoe_params prm) \<le> 54" by (rule length_eoe_params [OF assms(1)])
    with t le r(1,4) assms(1) have c: "dns_name_set prm \<Longrightarrow> take 32 (drop (14 + length ?p) ?m) = eoe_dns_name prm \<and> length (eoe_dns_name prm) = 32 \<and>
        14 + length ?p + 32 \<le> length ?m \<and> mbx16 ?m 0 - 4 = of_nat (36 + length ?p) \<and> length ?p < 1000"
      by (simp only: if_True param_ok_def) simp
    from eoe_take_name_step [OF fl(6) c x] show ?thesis unfolding le by (simp only: add.assoc)
  qed
  show ?thesis
    unfolding eoe_parse_def 1 2 3 4 5
    by (subst 6) (use assms(2) in \<open>auto simp: eoe_learn_def ip_roundtrip\<close>)
qed

definition demo_param :: eoe_param where
  "demo_param = \<lparr>mac_set = True, ip_set = True, subnet_set = False, default_gateway_set = True, dns_ip_set = False, dns_name_set = True,
     eoe_mac = [1, 2, 3, 4, 5, 6], eoe_ip = 0x0101A8C0, eoe_subnet = 0, eoe_default_gateway = 0xFE01A8C0, eoe_dns_ip = 0,
     eoe_dns_name = [97, 98] @ replicate 30 0\<rparr>"

theorem eoe_params_roundtrip_witness:
  "\<exists>r. eoe_parse (eoe_set_request 1 0 demo_param) (mbx16 (eoe_set_request 1 0 demo_param) 0 - 4)
       (demo_param\<lparr>eoe_ip := 0, eoe_subnet := 0x00FFFFFF\<rparr>) = Some (50, r) \<and>
     eoe_ip r = 0x0101A8C0 \<and> eoe_subnet r = 0x00FFFFFF"
proof -
  have "param_ok demo_param" "length (eoe_dns_name (demo_param\<lparr>eoe_ip := 0, eoe_subnet := 0x00FFFFFF\<rparr>)) = EOE_DNS_NAME_LENGTH"
    by (simp_all add: param_ok_def demo_param_def)
  from eoe_params_roundtrip [OF this, of 1 0] show ?thesis
    by (simp add: eoe_learn_def) (simp add: demo_param_def eoe_params_def)
qed

section \<open>Frames in fragments\<close>

lemma info2_fields [simp]:
  "eoe_frag_no (eoe_info2 a b c) = a AND 0x3F" "eoe_offset (eoe_info2 a b c) = b AND 0x3F" "eoe_frame_no (eoe_info2 a b c) = c AND 0xF"
proof -
  have m: "(0x3F :: u16) = mask 6" "(0xF :: u16) = mask 4" by (simp_all add: mask_eq_exp_minus_1)
  show "eoe_frag_no (eoe_info2 a b c) = a AND 0x3F" "eoe_offset (eoe_info2 a b c) = b AND 0x3F" "eoe_frame_no (eoe_info2 a b c) = c AND 0xF"
    unfolding eoe_frag_no_def eoe_offset_def eoe_frame_no_def eoe_info2_def m
    by (rule bit_word_eqI; auto simp: bit_or_iff bit_and_iff bit_push_bit_iff bit_drop_bit_eq bit_mask_iff)+
qed

lemma drop_bit_1: "drop_bit k w AND 1 \<noteq> 0 \<longleftrightarrow> bit w k" for w :: u16
  by (simp add: and_one_eq bit_iff_odd_drop_bit odd_iff_mod_2_eq_one)

lemma txinfo1_fields [simp]: "eoe_last (eoe_txinfo1 prt NotLast) \<longleftrightarrow> \<not> NotLast" "\<not> eoe_time_append (eoe_txinfo1 prt NotLast)"
  by (simp_all add: eoe_last_def eoe_time_append_def drop_bit_1 eoe_txinfo1_def eoe_port_set_def bit_or_iff bit_push_bit_iff bit_and_iff)

text \<open>The size of a fragment: the rest of the frame, or full blocks.\<close>

lemma txsize:
  assumes "32 \<le> maxdata" "0 \<le> left"
  shows "0 \<le> eoe_txsize maxdata left" "eoe_txsize maxdata left \<le> left" "eoe_txsize maxdata left \<le> maxdata"
    "eoe_txsize maxdata left \<noteq> left \<Longrightarrow> 32 \<le> eoe_txsize maxdata left \<and> eoe_txsize maxdata left mod 32 = 0 \<and> eoe_txsize maxdata left < left"
proof -
  have e: "push_bit 5 (drop_bit 5 maxdata) = maxdata div 32 * 32" by (simp add: push_bit_eq_mult drop_bit_eq_div)
  have b: "32 \<le> maxdata div 32 * 32" "maxdata div 32 * 32 \<le> maxdata" using assms(1) by presburger+
  show "0 \<le> eoe_txsize maxdata left" "eoe_txsize maxdata left \<le> left" "eoe_txsize maxdata left \<le> maxdata"
    "eoe_txsize maxdata left \<noteq> left \<Longrightarrow> 32 \<le> eoe_txsize maxdata left \<and> eoe_txsize maxdata left mod 32 = 0 \<and> eoe_txsize maxdata left < left"
    unfolding eoe_txsize_def e using b assms by (auto split: if_splits)
qed

text \<open>Mailboxes that carry a frame the way \<open>ecx_EOEsend\<close> cuts it.\<close>

fun eoe_carries :: "int \<Rightarrow> u8 \<Rightarrow> u8 \<Rightarrow> u8 list \<Rightarrow> u8 \<Rightarrow> nat \<Rightarrow> ec_mbxbuf list \<Rightarrow> bool" where
  "eoe_carries maxdata prt frame d k off [] = False"
| "eoe_carries maxdata prt frame d k off (m # ms) =
     (let n = eoe_txsize maxdata (int (length d) - int off); NotLast = (n \<noteq> int (length d) - int off)
      in mbx_kind m = ECT_MBXT_EOE \<and> mbx16 m 0 = word_of_int (4 + n) \<and> mbx16 m 6 = eoe_txinfo1 prt NotLast \<and>
         mbx16 m 8 = eoe_txinfo2 k frame (int off) (int (length d)) \<and>
         10 + nat n \<le> length m \<and> take (nat n) (drop 10 m) = take (nat n) (drop off d) \<and>
         (if NotLast then eoe_carries maxdata prt frame d (k + 1) (off + nat n) ms else ms = []))"

fun eoe_read_fragments :: "ec_mbxbuf list \<Rightarrow> eoe_reassembly \<Rightarrow> int \<Rightarrow> u8 list \<Rightarrow> (int \<times> eoe_reassembly \<times> int \<times> u8 list) option" where
  "eoe_read_fragments [] r psize p = Some (0, r, psize, p)"
| "eoe_read_fragments (m # ms) r psize p = do {
     (w, r, psize, p) \<leftarrow> ecx_EOEreadfragment m r psize p;
     if w = 0 then eoe_read_fragments ms r psize p else Some (w, r, psize, p)
   }"

text \<open>The receiver before fragment \<open>k\<close> at \<open>off\<close> of a frame of \<open>len\<close> bytes; before the first one it may be anything.\<close>

definition eoe_at :: "u8 \<Rightarrow> nat \<Rightarrow> u8 \<Rightarrow> nat \<Rightarrow> eoe_reassembly \<Rightarrow> bool" where
  "eoe_at frame len k off r \<longleftrightarrow> (if k = 0 then off = 0 else rxfragmentno r = k \<and> rxframesize r = of_nat (32 * ((len + 31) div 32)) \<and>
     rxframeoffset r = of_nat off \<and> rxframeno r = ucast frame AND 0xF \<and> off mod 32 = 0 \<and> off < len) \<and> 32 * unat k \<le> off \<and> off \<le> len"

lemma and_3F_small: "w < 0x40 \<Longrightarrow> w AND 0x3F = w" for w :: u16
proof -
  assume "w < 0x40"
  moreover have "(0x40 :: u16) = 2 ^ 6" "(0x3F :: u16) = mask 6" by (simp_all add: mask_eq_exp_minus_1)
  ultimately show ?thesis by (simp only: less_mask_eq)
qed

lemma unat_ucast_16 [simp]: "unat (ucast w :: u16) = unat w" for w :: u8
  using unsigned_less [of w, where 'a = nat] by (simp add: unsigned_ucast_eq take_bit_nat_eq_self)

lemma eoe_step:
  assumes carry: "mbx_kind m = ECT_MBXT_EOE" "mbx16 m 0 = word_of_int (4 + n)" "mbx16 m 6 = eoe_txinfo1 prt NotLast"
      "mbx16 m 8 = eoe_txinfo2 k frame (int off) (int (length d))" "10 + nat n \<le> length m" "take (nat n) (drop 10 m) = take (nat n) (drop off d)"
    and n: "n = eoe_txsize maxdata (int (length d) - int off)" "NotLast = (n \<noteq> int (length d) - int off)"
    and b: "32 \<le> maxdata" "maxdata \<le> 1477" "length d \<le> 2016" "int (length d) \<le> psize" "length d \<le> length p"
    and at: "eoe_at frame (length d) k off r"
  shows "returns (ecx_EOEreadfragment m r psize p) (\<lambda>(w, r', psize', p'). p' = put_bytes off (take (nat n) (drop off d)) p \<and>
    (if NotLast then w = 0 \<and> psize' = psize \<and> eoe_at frame (length d) (k + 1) (off + nat n) r'
     else w = 1 \<and> psize' = int (length d) \<and> r' = eoe_idle \<and> off + nat n = length d))"
proof -
  let ?len = "length d" and ?fs = "32 * ((length d + 31) div 32)"
  have off: "off \<le> ?len" "32 * unat k \<le> off" and k0: "k = 0 \<Longrightarrow> off = 0"
    and kn: "k \<noteq> 0 \<Longrightarrow> rxfragmentno r = k \<and> rxframesize r = of_nat ?fs \<and> rxframeoffset r = of_nat off \<and>
      rxframeno r = ucast frame AND 0xF \<and> off mod 32 = 0 \<and> off < ?len"
    using at by (auto simp: eoe_at_def split: if_splits)
  note sz = txsize [OF b(1), of "int ?len - int off", folded n(1)]
  have nb: "0 \<le> n" "off + nat n \<le> ?len" "n \<le> 1477" using sz(1-3) off(1) b(2) by linarith+
  have fs: "?fs \<le> 2016" "?len \<le> ?fs" 
  proof -
    have "(?len + 31) div 32 \<le> 2047 div 32" by (rule div_le_mono) (use b(3) in simp)
    then show "?fs \<le> 2016" by simp
    have "(?len + 31) div 32 * 32 + (?len + 31) mod 32 = ?len + 31" "(?len + 31) mod 32 < 32" by simp_all
    then show "?len \<le> ?fs" by linarith
  qed
  have u: "unat (mbx16 m 0 - 4) = nat n"
  proof -
    have "mbx16 m 0 - 4 = of_nat (nat n)" unfolding carry(2) using nb(1) by simp
    then show ?thesis using unat_of_nat_u16 [of "nat n"] nb(3) by simp
  qed
  have k64: "unat k < 64" using off b(3) by linarith
  have kw: "ucast k AND 0x3F = (ucast k :: u16)"
    by (rule and_3F_small) (use k64 in \<open>simp add: word_less_nat_alt\<close>)
  have fw: "word_of_int ((int ?len + 31) div 32) AND 0x3F = (of_nat ((?len + 31) div 32) :: u16)"
  proof -
    have e: "(int ?len + 31) div 32 = int ((?len + 31) div 32)" by (simp add: zdiv_int)
    have "(?len + 31) div 32 < 64" using fs(1) by linarith
    then show ?thesis unfolding e
      using and_3F_small [of "of_nat ((?len + 31) div 32)"] unat_of_nat_u16 [of "(?len + 31) div 32"] by (simp add: word_less_nat_alt)
  qed
  have ow: "word_of_int (int off div 32) AND 0x3F = (of_nat (off div 32) :: u16)"
  proof -
    have e: "int off div 32 = int (off div 32)" by (simp add: zdiv_int)
    have "off div 32 \<le> 2016 div 32" by (rule div_le_mono) (use off(1) b(3) in linarith)
    then have "off div 32 < 64" by simp
    then show ?thesis unfolding e
      using and_3F_small [of "of_nat (off div 32)"] unat_of_nat_u16 [of "off div 32"] by (simp add: word_less_nat_alt)
  qed
  have p5: "push_bit 5 (of_nat x :: u16) = of_nat (32 * x)" for x by (simp add: push_bit_eq_mult mult.commute)
  have k_pos: "k > 0 \<longleftrightarrow> k \<noteq> 0" by (simp add: word_gt_0)
  have p2: "(2 :: int) ^ 5 = 32" by simp
  have o: "eoe_offset (mbx16 m 8) = (if k = 0 then of_nat ((?len + 31) div 32) else of_nat (off div 32))"
    unfolding carry(4) eoe_txinfo2_def info2_fields drop_bit_eq_div k_pos p2
    using fw ow by (simp only: if_not_P if_P split: if_split) simp
  have m32: "k \<noteq> 0 \<Longrightarrow> 32 * (off div 32) = off" using kn by (simp add: dvd_div_mult_self mult.commute [of 32] flip: dvd_eq_mod_eq_0)
  have info2: "eoe_frag_no (mbx16 m 8) = ucast k" "eoe_frame_no (mbx16 m 8) = ucast frame AND 0xF"
    unfolding carry(4) eoe_txinfo2_def info2_fields kw by simp_all
  have offs: "push_bit 5 (eoe_offset (mbx16 m 8)) = (if k = 0 then of_nat ?fs else of_nat off)"
    unfolding o using m32 by (cases "k = 0") (simp_all only: p5 if_True if_False refl not_False_eq_True)
  let ?r = "\<lparr>rxfragmentno = k, rxframesize = of_nat ?fs, rxframeoffset = of_nat off, rxframeno = ucast frame AND 0xF\<rparr>"
  have uo: "unat (of_nat off :: u16) = off" "unat (of_nat ?fs :: u16) = ?fs"
    by (rule unat_of_nat_u16; use off(1) b(3) fs(1) in linarith)+
  have rd: "mem_read m 10 (nat n) = Some (take (nat n) (drop off d))" using carry(5,6) by (simp add: mem_read_def)
  have wr: "mem_write p off (take (nat n) (drop off d)) = Some (put_bytes off (take (nat n) (drop off d)) p)"
    using nb(2) b(5) by (simp add: mem_write_Some)
  have room: "off + nat n \<le> ?fs" "int (off + nat n) \<le> psize" using nb(2) fs(2) b(4) by linarith+
  let ?n2 = "\<lparr>rxfragmentno = k + 1, rxframesize = of_nat ?fs, rxframeoffset = of_nat off + (mbx16 m 0 - 4), rxframeno = ucast frame AND 0xF\<rparr>"
  have step: "ecx_EOEreadfragment m r psize p = (if NotLast then Some (0, ?n2, psize, put_bytes off (take (nat n) (drop off d)) p)
      else Some (1, eoe_idle, int (unat (rxframeoffset ?n2)), put_bytes off (take (nat n) (drop off d)) p))"
  proof (cases "k = 0")
    case True
    let ?wrong = "(ucast (rxfragmentno r) :: u16) \<noteq> eoe_frag_no (mbx16 m 8)"
    let ?q = "if ?wrong \<and> rxfragmentno r \<noteq> 0 then eoe_idle else r"
    have f0: "eoe_frag_no (mbx16 m 8) = 0" "push_bit 5 (eoe_offset (mbx16 m 8)) = of_nat ?fs" using info2(1) offs True by simp_all
    have inj: "(ucast (rxfragmentno r) :: u16) = 0 \<Longrightarrow> rxfragmentno r = 0"
      by (simp add: word_unat_eq_iff)
    have q0: "rxfragmentno ?q = 0" using f0 inj by (auto simp: eoe_idle_def)
    have q: "?q\<lparr>rxframesize := of_nat ?fs, rxframeoffset := 0, rxframeno := ucast frame AND 0xF\<rparr> = ?r"
      using q0 True k0 by (cases ?q) simp
    show ?thesis
      unfolding ecx_EOEreadfragment_def Let_def carry(3) if_P [OF q0] f0(2) info2(2) q
      using carry(1) f0(1) q0 u uo room rd wr True by simp
  next
    case False
    with kn have r: "r = ?r" by (cases r) simp
    have k: "eoe_frag_no (mbx16 m 8) = ucast k" "k \<noteq> 0" "push_bit 5 (eoe_offset (mbx16 m 8)) = of_nat off" using info2 offs False by simp_all
    show ?thesis
      unfolding ecx_EOEreadfragment_def Let_def carry(3) r eoe_reassembly.simps
      using carry(1) k info2(2) u uo room rd wr by simp
  qed
  have o2: "of_nat off + (mbx16 m 0 - 4) = (of_nat (off + nat n) :: u16)" unfolding carry(2) using nb(1) by simp
  have u2: "unat (of_nat (off + nat n) :: u16) = off + nat n" by (rule unat_of_nat_u16) (use nb(2) b(3) in linarith)
  show ?thesis
  proof (cases NotLast)
    case True
    then have more: "32 \<le> n" "n mod 32 = 0" "n < int ?len - int off" using sz(4) n(2) off(1) by auto
    have k1: "unat (k + 1) = unat k + 1" using k64 by (simp add: unat_word_ariths)
    then have "k + 1 \<noteq> 0" by (metis add_is_0 unat_0 zero_neq_one)
    moreover have "(off + nat n) mod 32 = 0"
    proof -
      have "off mod 32 = 0" using k0 kn by (cases "k = 0") auto
      moreover have "nat n mod 32 = 0" using more by (simp add: nat_mod_distrib [symmetric, of n 32, simplified])
      ultimately show ?thesis by (simp add: mod_add_eq [symmetric])
    qed
    moreover have "32 \<le> nat n" using more(1) by simp
    then have "off + nat n < ?len" "32 * unat k + 32 \<le> off + nat n" using more(3) off(2) by linarith+
    ultimately have "eoe_at frame ?len (k + 1) (off + nat n) ?n2" unfolding eoe_at_def o2 k1 by (simp add: distrib_left)
    with True step show ?thesis by simp
  next
    case False
    then have "off + nat n = ?len" using n(2) nb(1,2) by linarith
    with False show ?thesis unfolding step eoe_reassembly.simps o2 u2 by simp
  qed
qed

lemma eoe_fragments_from:
  assumes "eoe_carries maxdata prt frame d k off ms" "eoe_at frame (length d) k off r"
    and b: "32 \<le> maxdata" "maxdata \<le> 1477" "length d \<le> 2016" "int (length d) \<le> psize" "length d \<le> length p"
  shows "eoe_read_fragments ms r psize (take off d @ drop off p) = Some (1, eoe_idle, int (length d), d @ drop (length d) p)"
  using assms(1,2)
proof (induction ms arbitrary: k off r)
  case (Cons m ms)
  define n where "n = eoe_txsize maxdata (int (length d) - int off)"
  define NotLast where "NotLast = (n \<noteq> int (length d) - int off)"
  let ?p = "take off d @ drop off p"
  have off: "off \<le> length d" using Cons.prems(2) by (simp add: eoe_at_def)
  have carry: "mbx_kind m = ECT_MBXT_EOE" "mbx16 m 0 = word_of_int (4 + n)" "mbx16 m 6 = eoe_txinfo1 prt NotLast"
      "mbx16 m 8 = eoe_txinfo2 k frame (int off) (int (length d))" "10 + nat n \<le> length m" "take (nat n) (drop 10 m) = take (nat n) (drop off d)"
      "if NotLast then eoe_carries maxdata prt frame d (k + 1) (off + nat n) ms else ms = []"
    using Cons.prems(1) unfolding eoe_carries.simps Let_def n_def [symmetric] NotLast_def [symmetric] by simp_all
  have lp: "length d \<le> length ?p" using off b(5) by simp
  obtain w r' psize' p' where s: "ecx_EOEreadfragment m r psize ?p = Some (w, r', psize', p')" "p' = put_bytes off (take (nat n) (drop off d)) ?p"
      "if NotLast then w = 0 \<and> psize' = psize \<and> eoe_at frame (length d) (k + 1) (off + nat n) r'
       else w = 1 \<and> psize' = int (length d) \<and> r' = eoe_idle \<and> off + nat n = length d"
    using eoe_step [OF carry(1-6) n_def NotLast_def b(1-4) lp Cons.prems(2)] by (auto simp: returns_iff)
  have n: "off + nat n \<le> length d" using txsize(1,2) [OF b(1), of "int (length d) - int off"] off unfolding n_def by linarith
  then have p': "p' = take (off + nat n) d @ drop (off + nat n) p"
    unfolding s(2) put_bytes_def using off b(5) by (simp add: take_add ac_simps)
  show ?case
  proof (cases NotLast)
    case True
    with s carry(7) have "eoe_read_fragments (m # ms) r psize ?p = eoe_read_fragments ms r' psize p'" by simp
    then show ?thesis unfolding p' using Cons.IH [of "k + 1" "off + nat n" r'] s(3) carry(7) True by simp
  next
    case False
    with s p' show ?thesis by simp
  qed
qed simp

text \<open>
  C31: what sending a frame cuts into fragments is put together again by the receiver that a hook
  drives: the last fragment completes the frame with its size and its bytes, the rest of the
  buffer is as it was, and the receiver is idle again. Whatever state an earlier frame that broke
  off has left in the receiver does not matter. Frames may have 2016 bytes, the most that the
  offset field can name.
\<close>

theorem eoe_fragments_roundtrip:
  assumes "eoe_carries maxdata prt frame d 0 0 ms" "32 \<le> maxdata" "maxdata \<le> 1477"
    and "length d \<le> 2016" "int (length d) \<le> psize" "length d \<le> length p"
  shows "eoe_read_fragments ms r psize p = Some (1, eoe_idle, int (length d), d @ drop (length d) p)"
  using eoe_fragments_from [OF assms(1) _ assms(2-6), of r] by (simp add: eoe_at_def)

definition demo_eoe :: "u16 \<Rightarrow> u16 \<Rightarrow> u16 \<Rightarrow> u8 list \<Rightarrow> ec_mbxbuf" where
  "demo_eoe len i1 i2 d = enc16 len @ [0, 0, 0, 0x12] @ enc16 i1 @ enc16 i2 @ d"

theorem eoe_fragments_roundtrip_witness:
  "eoe_read_fragments [demo_eoe 36 0x0010 0x3080 (replicate 32 5), demo_eoe 12 0x0110 0x3041 (replicate 8 6)]
     \<lparr>rxfragmentno = 3, rxframesize = 96, rxframeoffset = 64, rxframeno = 9\<rparr> 100 (replicate 41 0) =
   Some (1, eoe_idle, 40, replicate 32 5 @ replicate 8 6 @ [0])"
proof -
  have "eoe_carries 32 1 3 (replicate 32 5 @ replicate 8 6) 0 0
      [demo_eoe 36 0x0010 0x3080 (replicate 32 5), demo_eoe 12 0x0110 0x3041 (replicate 8 6)]"
    by code_simp
  from eoe_fragments_roundtrip [OF this, of 100 "replicate 41 0"] show ?thesis by (simp add: append_assoc del: eoe_read_fragments.simps)
qed

section \<open>Sending ends, or does not\<close>

definition eoe_send_inv :: "ecx_context \<Rightarrow> int \<Rightarrow> eoe_send_state \<Rightarrow> bool" where
  "eoe_send_inv c0 psize = (\<lambda>(_, _, off, _, MbxOut, c). asks c0 c \<and> mbx_fit MbxOut \<and> 0 \<le> off \<and> off \<le> psize)"

definition eoe_send_left :: "int \<Rightarrow> eoe_send_state \<Rightarrow> nat" where
  "eoe_send_left psize = (\<lambda>(_, _, off, _). nat (psize - off))"

lemma length_eoe_head [simp]: "length (eoe_head len cnt i1 i2) = 10"
  by (simp add: eoe_head_def)

lemma eoe_send_body_from:
  assumes s: "eoe_send_inv c0 psize s" and v: "slave_valid c0 slave" and m: "32 \<le> maxdata" "maxdata \<le> 1477" "psize \<le> int (length p)"
  shows "returns (eoe_send_body slave prt psize p maxdata t s) (\<lambda>(s', again).
    if again then eoe_send_inv c0 psize s' \<and> eoe_send_left psize s' < eoe_send_left psize s else asks c0 (snd (snd (snd (snd (snd s'))))))"
proof -
  obtain k fr off w MbxOut c where st: "s = (k, fr, off, w, MbxOut, c)" by (cases s) auto
  then have c: "asks c0 c" "mbx_fit MbxOut" "0 \<le> off" "off \<le> psize" using s by (auto simp: eoe_send_inv_def)
  define n where "n = eoe_txsize maxdata (psize - off)"
  have n: "0 \<le> n" "nat off + nat n \<le> length p" "10 + nat n \<le> EC_MAXMBX + 1"
    using txsize(1-3) [OF m(1), of "psize - off"] c(3,4) m(2,3) unfolding n_def by linarith+
  have more: "off + n \<le> psize \<and> nat (psize - (off + n)) < nat (psize - off)" if "n \<noteq> psize - off"
    using txsize(4) [OF m(1), of "psize - off"] that c(4) unfolding n_def by linarith
  show ?thesis
    unfolding st eoe_send_body_def prod.case Let_def n_def [symmetric] case_prod_unfold fst_conv snd_conv
    by (rule returns_bindI [OF client.count_from [OF c(1) v]]; use c v n more in \<open>auto simp: returns_pure mbx_fit_length case_prod_unfold
      eoe_send_inv_def eoe_send_left_def simp del: returns_bind intro!: returns_bindI [OF client.send_from [where ?c0.0 = c0]]\<close>)
qed

text \<open>
  Sending a frame ends, for mailboxes that hold at least one block of 32 bytes of data and
  fit the buffer of the master, whatever becomes of the fragments, and changes nothing of the
  master but the mailbox counter and the error list.
\<close>

theorem EOEsend_total:
  assumes "ctx_inv c" "slave_valid c slave" "42 \<le> s_mbx_l (slavelist c ! unat slave)"
    and "unat (s_mbx_l (slavelist c ! unat slave)) \<le> EC_MAXMBX" "0 \<le> psize" "psize \<le> int (length p)"
  shows "returns (ecx_EOEsend slave prt psize p t frame c) (\<lambda>(w, _, d). asks c d)"
proof -
  let ?md = "int (unat (s_mbx_l (slavelist c ! unat slave))) - 10"
  have "42 \<le> unat (s_mbx_l (slavelist c ! unat slave))" using assms(3) by (simp add: word_le_nat_alt)
  then have md: "32 \<le> ?md" "?md \<le> 1477" using assms(4) by linarith+
  have "returns (do_while (eoe_send_body slave prt psize p ?md t) (0, frame, 0, 0, new_mbx, c))
      (\<lambda>s. asks c (snd (snd (snd (snd (snd s))))))"
    by (rule do_while_returns [where P = "eoe_send_inv c psize" and f = "eoe_send_left psize"])
      (use assms(1,5) asks_refl eoe_send_body_from [OF _ assms(2) md assms(6)] in \<open>auto simp: eoe_send_inv_def\<close>)
  with assms(2) show ?thesis
    by (auto simp: ecx_EOEsend_def Let_def slave_valid_def get_slave_def case_prod_unfold elim!: returns_mono)
qed

theorem EOEsend_total_witness:
  "\<exists>w k d. ecx_EOEsend 1 0 200 (replicate 200 7) 700000 4 (demo_mbx_context 128) = Some (w, k, d) \<and> ctx_inv d"
  using EOEsend_total [OF demo_mbx_inv(1,2), of 128 200 "replicate 200 7" 0 700000 4]
  by (auto simp: returns_iff demo_mbx_inv(3) [simplified] word_le_nat_alt dest: asks_inv)

text \<open>
  A mailbox with room for less than one block makes the size of every fragment but the last
  zero. A frame that does not fit as a whole is then sent as one empty fragment after the other,
  and the loop ends only when sending one of them fails: a success is never reported.
\<close>

theorem EOEsend_small_mailbox_never_succeeds:
  assumes "10 \<le> s_mbx_l (slavelist c ! unat slave)" "s_mbx_l (slavelist c ! unat slave) < 42"
    and "psize > int (unat (s_mbx_l (slavelist c ! unat slave))) - 10"
  shows "ensures (ecx_EOEsend slave prt psize p t frame c) (\<lambda>(w, _). w \<le> 0)"
proof -
  let ?md = "int (unat (s_mbx_l (slavelist c ! unat slave))) - 10"
  have "10 \<le> unat (s_mbx_l (slavelist c ! unat slave))" "unat (s_mbx_l (slavelist c ! unat slave)) < 42"
    using assms(1,2) by (simp_all add: word_le_nat_alt word_less_nat_alt)
  then have md: "0 \<le> ?md" "?md < 32" by linarith+
  then have z: "push_bit 5 (drop_bit 5 ?md) = 0" by (simp only: push_bit_eq_mult drop_bit_eq_div) simp
  have n: "eoe_txsize ?md (psize - 0) = 0" unfolding eoe_txsize_def z using assms(3) by simp
  have ne: "0 \<noteq> psize - 0" using md(1) assms(3) by linarith
  have "ensures (do_while (eoe_send_body slave prt psize p ?md t) (0, frame, 0, 0, new_mbx, c)) (\<lambda>s. fst (snd (snd (snd s))) \<le> 0)"
  proof (rule do_while_ensures [where P = "\<lambda>s. fst (snd (snd s)) = 0"])
    fix s :: eoe_send_state assume "fst (snd (snd s)) = 0"
    then obtain k fr w m d where s: "s = (k, fr, 0, w, m, d)" by (cases s) auto
    show "ensures (eoe_send_body slave prt psize p ?md t s) (\<lambda>(s', again).
        if again then fst (snd (snd s')) = 0 else fst (snd (snd (snd s'))) \<le> 0)"
      unfolding s eoe_send_body_def prod.case Let_def n using ne
      by (auto simp: ensures_iff Option.bind_eq_Some_conv split: if_splits)
  qed simp
  then show ?thesis
    by (auto simp: ecx_EOEsend_def Let_def get_slave_def case_prod_unfold elim!: ensures_mono)
qed

theorem EOEsend_small_mailbox_never_succeeds_witness:
  "ensures (ecx_EOEsend 1 0 60 (replicate 60 7) 700000 4 (demo_mbx_context 32)) (\<lambda>(w, _). w \<le> 0)"
  by (rule EOEsend_small_mailbox_never_succeeds) (simp_all add: demo_mbx_inv(3) [simplified])

section \<open>A length that wraps around\<close>

text \<open>
  An answer that announces a name but is too short for the parameters it flags makes the
  length of the name wrap around to more than 65000 bytes, which are copied over the 32 bytes of
  the name and whatever lies behind: the master crashes.
\<close>

theorem EOEgetIp_short_name_faults:
  assumes "ctx_inv c" "slave_valid c slave" "at_rest l fs (port c)" "mbx_frames (slavelist c ! unat slave) l stale resp fs"
    and "deliverable c slave (in_mbx stale)" "deliverable c slave (in_mbx resp)"
    and "mbx_kind (in_mbx resp) = ECT_MBXT_EOE" "eoe_type (mbx16 (in_mbx resp) 6) = EOE_GET_IP_PARAM_RESP"
    and "mbx8 (in_mbx resp) 10 AND 0x20 \<noteq> 0" "4 \<le> mbx16 (in_mbx resp) 0" "mbx16 (in_mbx resp) 0 < 8"
  shows "ecx_EOEgetIp slave prt prm t c = None"
proof -
  let ?m = "in_mbx resp"
  obtain c1 cnt c2 where 1: "mbx_flush slave c = Some (in_mbx stale, c1)" "mbx_session slave c1 = Some (cnt, c2)" "asks c c2"
    "\<And>out t. mbx_fit out \<Longrightarrow> \<exists>d. mbx_exchange slave out (in_mbx stale) t c2 = Some (1, in_mbx resp, d) \<and> asks c d \<and>
       at_rest ((next_idx ^^ 6) l) (\<lambda>n. fs (n + 6)) (port d)"
    by (rule request_answered [OF assms(1-6)]) (rule that)
  let ?out = "put_bytes 0 (eoe_head 0x0004 cnt (EOE_GET_IP_PARAM_REQ OR eoe_port_set prt OR 0x100) 0 @ [0]) new_mbx"
  have "mbx_fit ?out" by (intro put_bytes_fit new_mbx_fit) simp
  then obtain e where e: "mbx_exchange slave ?out (in_mbx stale) t c2 = Some (1, ?m, e)" using 1(4) by blast
  obtain w d where d: "ecx_mbxsend slave ?out EC_TIMEOUTTXM c2 = Some (w, d)" "w > 0"
      "ecx_mbxreceive slave (ec_clearmbx (in_mbx stale)) t d = Some (1, ?m, e)"
    by (rule exchange_sent [OF e(1)]) (rule that)
  have "length resp \<le> EC_MAXMBX" using assms(4) by (auto simp: mbx_frames_def)
  from mbx_fit_length [OF in_mbx_fit [OF this]] have len: "length ?m = EC_MAXMBX + 1" .
  let ?sz = "mbx16 ?m 0 - 4"
  have sz: "unat ?sz < 4" using assms(10,11) by (simp add: unat_sub_if' word_le_nat_alt word_less_nat_alt)
  have wrap: "unat (z - of_nat off) = 65536 + unat z - off" if "unat z < 4" "4 \<le> off" "off \<le> 26" for z :: u16 and off
  proof -
    have o: "unat (of_nat off :: u16) = off" by (rule unat_of_nat_u16) (use that in simp)
    then have "\<not> of_nat off \<le> z" using that by (simp add: word_le_nat_alt)
    then show ?thesis using that o by (simp add: unat_sub_if' word_le_nat_alt)
  qed
  have step: "4 \<le> fst (eoe_take ?m f n u x) \<and> fst (eoe_take ?m f n u x) \<le> h + n" if "4 \<le> fst x \<and> fst x \<le> h" for f n u x h
    using that by (cases x) (auto simp: eoe_take_def)
  have name: "eoe_take_name ?m ?sz x = None" if h: "4 \<le> fst x \<and> fst x \<le> 4 + 6 + 4 + 4 + 4 + 4" for x
  proof -
    obtain off q where x: "x = (off, q)" "4 \<le> off" "off \<le> 26" using h by (cases x) auto
    have "unat (?sz - of_nat off) = 65536 + unat ?sz - off" by (rule wrap [OF sz x(2,3)])
    then have "\<not> 10 + off + unat (?sz - of_nat off) \<le> length ?m" "int (unat ?sz) - int off < int EOE_DNS_NAME_LENGTH"
      using x(2,3) sz len by linarith+
    then show ?thesis unfolding x(1) eoe_take_name_def using assms(9) by (simp add: mem_read_def)
  qed
  have "4 \<le> fst (4 :: nat, prm) \<and> fst (4 :: nat, prm) \<le> 4" by simp
  then have "eoe_parse ?m ?sz prm = None"
    unfolding eoe_parse_def by (intro name step)
  then have "eoe_get_answer ?m 1 prm = None" using assms(7,8) by (simp add: eoe_get_answer_def)
  with 1(1,2) d show ?thesis by (simp add: ecx_EOEgetIp_def)
qed

definition demo_short_name :: "u8 list" where
  "demo_short_name = [4, 0, 0, 0, 0, 0x12, 7, 1, 0, 0, 0x20] @ replicate 21 0"

theorem EOEgetIp_short_name_faults_witness:
  "ecx_EOEgetIp 1 0 demo_param 700000 (demo_mbx_wire (demo_mbx_frames demo_short_name)) = None"
proof -
  have len: "length demo_short_name = 32" by (simp add: demo_short_name_def)
  note w = demo_mbx_wire [OF len]
  let ?m = "in_mbx demo_short_name"
  have b: "mbx8 ?m 5 = 0x12" "mbx8 ?m 10 = 0x20" "mbx16 ?m 0 = 4" "mbx16 ?m 6 = 0x0107"
    by (simp_all add: in_mbx_fields len) (simp_all add: demo_short_name_def mk16_def)
  then have k: "mbx_kind ?m = ECT_MBXT_EOE" "eoe_type (mbx16 ?m 6) = EOE_GET_IP_PARAM_RESP" "mbx8 ?m 10 AND 0x20 \<noteq> 0"
    by (simp_all add: mbx_kind_def eoe_type_def)
  have del: "deliverable (demo_mbx_wire (demo_mbx_frames demo_short_name)) 1 ?m"
    using k(1) by (simp add: deliverable_def w(5))
  show ?thesis
    by (rule EOEgetIp_short_name_faults [OF w(1-4) del del k]) (simp_all add: b)
qed

end
