(* ===== verification/Config.thy ===== *)
theory Config
  imports ProcessData Soe
begin

text \<open>
  Finding and initialising the slaves, the first half of \<^verbatim>\<open>soem/ethercatconfig.c\<close>: the table of
  known slaves, the reset of the context and of all slaves, the enumeration with node addresses,
  the parameters read from the EEPROM of every slave, its links and its parent, and the default
  configuration of its mailboxes and sync managers.
\<close>

section \<open>Registers and formats\<close>

abbreviation ECT_REG_TYPE :: u16 where "ECT_REG_TYPE \<equiv> 0x0000"
abbreviation ECT_REG_PORTDES :: u16 where "ECT_REG_PORTDES \<equiv> 0x0007"
abbreviation ECT_REG_ESCSUP :: u16 where "ECT_REG_ESCSUP \<equiv> 0x0008"
abbreviation ECT_REG_STADR :: u16 where "ECT_REG_STADR \<equiv> 0x0010"
abbreviation ECT_REG_ALIAS :: u16 where "ECT_REG_ALIAS \<equiv> 0x0012"
abbreviation ECT_REG_DLCTL :: u16 where "ECT_REG_DLCTL \<equiv> 0x0100"
abbreviation ECT_REG_DLPORT :: u16 where "ECT_REG_DLPORT \<equiv> 0x0101"
abbreviation ECT_REG_DLALIAS :: u16 where "ECT_REG_DLALIAS \<equiv> 0x0103"
abbreviation ECT_REG_DLSTAT :: u16 where "ECT_REG_DLSTAT \<equiv> 0x0110"
abbreviation ECT_REG_PDICTL :: u16 where "ECT_REG_PDICTL \<equiv> 0x0140"
abbreviation ECT_REG_IRQMASK :: u16 where "ECT_REG_IRQMASK \<equiv> 0x0200"
abbreviation ECT_REG_RXERR :: u16 where "ECT_REG_RXERR \<equiv> 0x0300"
abbreviation ECT_REG_FMMU0 :: u16 where "ECT_REG_FMMU0 \<equiv> 0x0600"
abbreviation ECT_REG_SM0 :: u16 where "ECT_REG_SM0 \<equiv> 0x0800"
abbreviation ECT_REG_SM1 :: u16 where "ECT_REG_SM1 \<equiv> 0x0808"
abbreviation ECT_REG_DCSPEEDCNT :: u16 where "ECT_REG_DCSPEEDCNT \<equiv> 0x0930"
abbreviation ECT_REG_DCTIMEFILT :: u16 where "ECT_REG_DCTIMEFILT \<equiv> 0x0934"
abbreviation ECT_REG_DCSYNCACT' :: u16 where "ECT_REG_DCSYNCACT' \<equiv> 0x0981"
abbreviation ECT_SII_GENERAL :: u16 where "ECT_SII_GENERAL \<equiv> 30"
abbreviation ECT_SII_MANUF :: u16 where "ECT_SII_MANUF \<equiv> 0x0008"
abbreviation ECT_SII_ID :: u16 where "ECT_SII_ID \<equiv> 0x000a"
abbreviation ECT_SII_REV :: u16 where "ECT_SII_REV \<equiv> 0x000c"
abbreviation ECT_SII_RXMBXADR :: u16 where "ECT_SII_RXMBXADR \<equiv> 0x0018"
abbreviation ECT_SII_TXMBXADR :: u16 where "ECT_SII_TXMBXADR \<equiv> 0x001a"
abbreviation ECT_SII_MBXPROTO :: u16 where "ECT_SII_MBXPROTO \<equiv> 0x001c"
abbreviation EC_TIMEOUTSAFE :: int where "EC_TIMEOUTSAFE \<equiv> 20000"
abbreviation EC_TIMEOUTSTATE :: int where "EC_TIMEOUTSTATE \<equiv> 2000000"
abbreviation EC_STATE_ACK :: u16 where "EC_STATE_ACK \<equiv> 0x10"
abbreviation EC_SLAVECOUNTEXCEEDED :: int where "EC_SLAVECOUNTEXCEEDED \<equiv> -4"
abbreviation EC_NODEOFFSET :: u16 where "EC_NODEOFFSET \<equiv> 0x1000"
abbreviation EC_CONFIGEND :: u32 where "EC_CONFIGEND \<equiv> 0xffffffff"
abbreviation EC_DEFAULTMBXSM0 :: u32 where "EC_DEFAULTMBXSM0 \<equiv> 0x00010026"
abbreviation EC_DEFAULTMBXSM1 :: u32 where "EC_DEFAULTMBXSM1 \<equiv> 0x00010022"
abbreviation EC_DEFAULTDOSM0 :: u32 where "EC_DEFAULTDOSM0 \<equiv> 0x00010044"

definition enc_sm :: "ec_sm \<Rightarrow> u8 list" where
  "enc_sm m = enc16 (StartAddr m) @ enc16 (SMlength m) @ enc32 (SMflags m)"

definition set_sm :: "nat \<Rightarrow> ec_sm \<Rightarrow> ec_slave \<Rightarrow> ec_slave" where
  "set_sm k m s = s\<lparr>s_SM := (s_SM s)[k := m]\<rparr>"

definition set_smtype :: "nat \<Rightarrow> u8 \<Rightarrow> ec_slave \<Rightarrow> ec_slave" where
  "set_smtype k t s = s\<lparr>s_SMtype := (s_SMtype s)[k := t]\<rparr>"

definition set_fmmu :: "nat \<Rightarrow> (ec_fmmu \<Rightarrow> ec_fmmu) \<Rightarrow> ec_slave \<Rightarrow> ec_slave" where
  "set_fmmu k f s = s\<lparr>s_FMMU := (s_FMMU s)[k := f (s_FMMU s ! k)]\<rparr>"

definition set_fmmufunc :: "nat \<Rightarrow> u8 \<Rightarrow> ec_slave \<Rightarrow> ec_slave" where
  "set_fmmufunc k t s = s\<lparr>s_FMMUfunc := (s_FMMUfunc s)[k := t]\<rparr>"

text \<open>
  \<^verbatim>\<open>for (slave = 1; slave <= *(context->slavecount); slave++)\<close> with a 16-bit counter, which never
  passes a count of 65535 and more.
\<close>

definition for_slaves :: "int \<Rightarrow> (u16 \<Rightarrow> 's \<Rightarrow> 's option) \<Rightarrow> 's \<Rightarrow> 's option" where
  "for_slaves n body s = do { chk (n < 0xffff); for_loop (nat n) 1 (\<lambda>i. body (of_nat i)) s }"

section \<open>The table of known slaves\<close>

record ec_configlist_t =
  cl_man :: u32
  cl_id :: u32
  cl_name :: "u8 list"
  cl_Dtype :: u8
  cl_Ibits :: u16
  cl_Obits :: u16
  cl_SM2a :: u16
  cl_SM2f :: u32
  cl_SM3a :: u16
  cl_SM3f :: u32
  cl_FM0ac :: u8
  cl_FM1ac :: u8

definition configentry :: "u32 \<Rightarrow> u32 \<Rightarrow> u8 list \<Rightarrow> u8 \<Rightarrow> u16 \<Rightarrow> u16 \<Rightarrow> u16 \<Rightarrow> u32 \<Rightarrow> u16 \<Rightarrow> u32 \<Rightarrow> u8 \<Rightarrow> u8 \<Rightarrow> ec_configlist_t" where
  "configentry man i name dtype ib ob a2 f2 a3 f3 c0 c1 = \<lparr>cl_man = man, cl_id = i, cl_name = name, cl_Dtype = dtype, cl_Ibits = ib,
     cl_Obits = ob, cl_SM2a = a2, cl_SM2f = f2, cl_SM3a = a3, cl_SM3f = f3, cl_FM0ac = c0, cl_FM1ac = c1\<rparr>"

definition ec_configlist :: "ec_configlist_t list" where
  "ec_configlist = [
     configentry 0x00000000 0x00000000 [] 0 0 0 0 0 0 0 0 0,
     configentry 0x00000002 0x044c2c52 [69, 75, 49, 49, 48, 48] 1 0 0 0 0 0 0 0 0,
     configentry 0x00000002 0x03ea3052 [69, 76, 49, 48, 48, 50] 2 2 0 0 0 0 0 0 0,
     configentry 0x00000002 0x03ec3052 [69, 76, 49, 48, 48, 52] 2 4 0 0 0 0 0 0 0,
     configentry 0x00000002 0x03f43052 [69, 76, 49, 48, 49, 50] 2 2 0 0 0 0 0 0 0,
     configentry 0x00000002 0x03f63052 [69, 76, 49, 48, 49, 52] 2 4 0 0 0 0 0 0 0,
     configentry 0x00000002 0x03fa3052 [69, 76, 49, 48, 49, 56] 2 8 0 0 0 0 0 0 0,
     configentry 0x00000002 0x07d23052 [69, 76, 50, 48, 48, 50] 3 0 2 0 0 0 0 0 0,
     configentry 0x00000002 0x07d43052 [69, 76, 50, 48, 48, 52] 3 0 4 0 0 0 0 0 0,
     configentry 0x00000002 0x07d83052 [69, 76, 50, 48, 48, 56] 3 0 8 0 0 0 0 0 0,
     configentry 0x00000002 0x07f03052 [69, 76, 50, 48, 51, 50] 6 2 2 0 0 0 0 0 0,
     configentry 0x00000002 0x0c1e3052 [69, 76, 51, 49, 48, 50] 4 48 0 0x1000 0x00000024 0x1100 0x00010020 0 1,
     configentry 0x00000002 0x0c283052 [69, 76, 51, 49, 49, 50] 4 48 0 0x1000 0x00000024 0x1100 0x00010020 0 1,
     configentry 0x00000002 0x0c323052 [69, 76, 51, 49, 50, 50] 4 48 0 0x1000 0x00000024 0x1100 0x00010020 0 1,
     configentry 0x00000002 0x0c463052 [69, 76, 51, 49, 52, 50] 4 48 0 0x1000 0x00000024 0x1100 0x00010020 0 1,
     configentry 0x00000002 0x0c503052 [69, 76, 51, 49, 53, 50] 4 48 0 0x1000 0x00000024 0x1100 0x00010020 0 1,
     configentry 0x00000002 0x0c5a3052 [69, 76, 51, 49, 54, 50] 4 48 0 0x1000 0x00000024 0x1100 0x00010020 0 1,
     configentry 0x00000002 0x0fc03052 [69, 76, 52, 48, 51, 50] 5 0 32 0x1100 0x00010024 0x1180 0x00000022 1 0,
     configentry 0x00000002 0x10063052 [69, 76, 52, 49, 48, 50] 5 0 32 0x1000 0x00010024 0x1100 0x00000022 1 0,
     configentry 0x00000002 0x10103052 [69, 76, 52, 49, 49, 50] 5 0 32 0x1000 0x00010024 0x1100 0x00000022 1 0,
     configentry 0x00000002 0x101a3052 [69, 76, 52, 49, 50, 50] 5 0 32 0x1000 0x00010024 0x1100 0x00000022 1 0,
     configentry 0x00000002 0x10243052 [69, 76, 52, 49, 51, 50] 5 0 32 0x1000 0x00010024 0x1100 0x00000022 1 0,
     configentry 0x00000002 0x13ed3052 [69, 76, 53, 49, 48, 49] 7 40 24 0x1000 0x00010024 0x1100 0x00010020 1 1,
     configentry EC_CONFIGEND 0x00000000 [] 0 0 0 0 0 0 0 0 0
   ]"

definition findconfig_body :: "u32 \<Rightarrow> u32 \<Rightarrow> nat \<Rightarrow> (nat \<times> bool) option" where
  "findconfig_body man i k = do {
     e \<leftarrow> arr_get ec_configlist (k + 1);
     Some (k + 1, cl_man e \<noteq> EC_CONFIGEND \<and> (cl_man e \<noteq> man \<or> cl_id e \<noteq> i))
   }"

definition ec_findconfig :: "u32 \<Rightarrow> u32 \<Rightarrow> nat option" where
  "ec_findconfig man i = do {
     k \<leftarrow> do_while (findconfig_body man i) 0;
     e \<leftarrow> arr_get ec_configlist k;
     Some (if cl_man e = EC_CONFIGEND then 0 else k)
   }"

text \<open>The number of bytes of so many bits.\<close>

definition bytes_of :: "u16 \<Rightarrow> nat" where
  "bytes_of bits = (unat bits + 7) div 8"

text \<open>The outputs and the inputs of an entry of the table.\<close>

definition config_outputs :: "ec_configlist_t \<Rightarrow> ec_slave \<Rightarrow> ec_slave" where
  "config_outputs e s =
     (let s = set_sm 2 \<lparr>StartAddr = cl_SM2a e, SMlength = SMlength (s_SM s ! 2), SMflags = cl_SM2f e\<rparr> s;
          len = of_nat (bytes_of (s_Obits s))
      in if s_Obits s \<noteq> 0 \<and> cl_SM2a e = 0
         then set_smtype 0 3 (set_fmmu 0 (\<lambda>f. f\<lparr>FMMUactive := 1, FMMUtype := 2\<rparr>)
                (set_sm 0 \<lparr>StartAddr = 0x0f00, SMlength = len, SMflags = EC_DEFAULTDOSM0\<rparr> s))
         else set_smtype 2 3 (set_sm 2 ((s_SM s ! 2)\<lparr>SMlength := len\<rparr>) s))"

definition config_inputs :: "ec_configlist_t \<Rightarrow> ec_slave \<Rightarrow> ec_slave" where
  "config_inputs e s =
     (let s = set_sm 3 \<lparr>StartAddr = cl_SM3a e, SMlength = SMlength (s_SM s ! 3), SMflags = cl_SM3f e\<rparr> s;
          len = of_nat (bytes_of (s_Ibits s))
      in if s_Ibits s \<noteq> 0 \<and> cl_SM3a e = 0
         then set_smtype 1 4 (set_fmmu 1 (\<lambda>f. f\<lparr>FMMUactive := 1, FMMUtype := 1\<rparr>)
                (set_sm 1 \<lparr>StartAddr = 0x1000, SMlength = len, SMflags = 0\<rparr> s))
         else set_smtype 3 4 (set_sm 3 ((s_SM s ! 3)\<lparr>SMlength := len\<rparr>) s))"

definition config_entry :: "ec_configlist_t \<Rightarrow> ec_slave \<Rightarrow> ec_slave" where
  "config_entry e s =
     (let s = s\<lparr>s_Dtype := ucast (cl_Dtype e), s_name := put_bytes 0 (cl_name e @ [0]) (s_name s), s_Ibits := cl_Ibits e, s_Obits := cl_Obits e\<rparr>;
          s = (if s_Obits s \<noteq> 0 then set_fmmufunc 0 1 s else s);
          s = (if s_Ibits s \<noteq> 0 then set_fmmufunc 1 2 s else s);
          s = set_fmmu 1 (\<lambda>f. f\<lparr>FMMUactive := cl_FM1ac e\<rparr>) (set_fmmu 0 (\<lambda>f. f\<lparr>FMMUactive := cl_FM0ac e\<rparr>) s)
      in config_inputs e (config_outputs e s))"

definition ecx_config_from_table :: "u16 \<Rightarrow> ecx_context \<Rightarrow> (nat \<times> ecx_context) option" where
  "ecx_config_from_table slave c = do {
     s \<leftarrow> get_slave slave c;
     k \<leftarrow> ec_findconfig (s_eep_man s) (s_eep_id s);
     e \<leftarrow> arr_get ec_configlist k;
     c \<leftarrow> upd_slave slave (\<lambda>s. let s = s\<lparr>s_configindex := of_nat k\<rparr> in if k \<noteq> 0 then config_entry e s else s) c;
     Some (k, c)
   }"

section \<open>Reset and detection\<close>

definition cfg_bwr :: "u16 \<Rightarrow> u8 list \<Rightarrow> ecx_context \<Rightarrow> ecx_context option" where
  "cfg_bwr reg bs c = do {
     (_, c) \<leftarrow> on_port (ecx_BWR 0 reg (of_nat (length bs)) bs EC_TIMEOUTRET3) c;
     Some c
   }"

definition ecx_init_context :: "ecx_context \<Rightarrow> ecx_context option" where
  "ecx_init_context c = do {
     chk (nat (maxslave c) \<le> length (slavelist c) \<and> nat (maxgroup c) \<le> length (grouplist c));
     let c = c\<lparr>slavecount := 0, slavelist := replicate (nat (maxslave c)) no_slave @ drop (nat (maxslave c)) (slavelist c),
       grouplist := replicate (nat (maxgroup c)) no_group @ drop (nat (maxgroup c)) (grouplist c)\<rparr>;
     (_, c) \<leftarrow> ecx_siigetbyte 0 (of_nat EC_MAXEEPBUF) c;
     gs \<leftarrow> for_loop (nat (maxgroup c)) 0 (\<lambda>lp gs. do {
       g \<leftarrow> arr_get gs lp;
       Some (gs[lp := g\<lparr>g_logstartaddr := push_bit 16 (of_nat lp)\<rparr>])
     }) (grouplist c);
     Some (c\<lparr>grouplist := gs\<rparr>)
   }"

definition ecx_detect_slaves :: "ecx_context \<Rightarrow> (int \<times> ecx_context) option" where
  "ecx_detect_slaves c = do {
     c \<leftarrow> cfg_bwr ECT_REG_DLALIAS [0] c;
     c \<leftarrow> cfg_bwr ECT_REG_ALCTL [ucast (EC_STATE_INIT OR EC_STATE_ACK)] c;
     c \<leftarrow> cfg_bwr ECT_REG_ALCTL [ucast (EC_STATE_INIT OR EC_STATE_ACK)] c;
     (wkc, _, c) \<leftarrow> on_port_buf (ecx_BRD 0 ECT_REG_TYPE 2 (enc16 0) EC_TIMEOUTSAFE) c;
     if wkc > 0 then
       if wkc < maxslave c then Some (wkc, c\<lparr>slavecount := wkc\<rparr>) else Some (EC_SLAVECOUNTEXCEEDED, c)
     else Some (wkc, c)
   }"

definition ecx_set_slaves_to_default :: "ecx_context \<Rightarrow> ecx_context option" where
  "ecx_set_slaves_to_default c = do {
     c \<leftarrow> cfg_bwr ECT_REG_DLPORT [0] c;
     c \<leftarrow> cfg_bwr ECT_REG_IRQMASK (enc16 0x0004) c;
     c \<leftarrow> cfg_bwr ECT_REG_RXERR (replicate 8 0) c;
     c \<leftarrow> cfg_bwr ECT_REG_FMMU0 (replicate (16 * 3) 0) c;
     c \<leftarrow> cfg_bwr ECT_REG_SM0 (replicate (8 * 4) 0) c;
     c \<leftarrow> cfg_bwr ECT_REG_DCSYNCACT' [0] c;
     c \<leftarrow> cfg_bwr ECT_REG_DCSYSTIME (replicate 4 0) c;
     c \<leftarrow> cfg_bwr ECT_REG_DCSPEEDCNT (enc16 0x1000) c;
     c \<leftarrow> cfg_bwr ECT_REG_DCTIMEFILT (enc16 0x0c00) c;
     c \<leftarrow> cfg_bwr ECT_REG_DLALIAS [0] c;
     c \<leftarrow> cfg_bwr ECT_REG_ALCTL [ucast (EC_STATE_INIT OR EC_STATE_ACK)] c;
     c \<leftarrow> cfg_bwr ECT_REG_EEPCFG [2] c;
     cfg_bwr ECT_REG_EEPCFG [0] c
   }"

section \<open>Enumeration\<close>

text \<open>
  The node address, alias and EEPROM interface of a slave. \<^verbatim>\<open>aliasadr\<close> and \<^verbatim>\<open>estat\<close> keep the
  values of the previous slave when their read fails; before the first slave they are not
  initialised.
\<close>

definition cfg_identify :: "u16 \<Rightarrow> u16 \<times> u16 \<times> ecx_context \<Rightarrow> (u16 \<times> u16 \<times> ecx_context) option" where
  "cfg_identify slave = (\<lambda>(aliasadr, estat, c). do {
     let ADPh = 1 - slave;
     (val16, c) \<leftarrow> on_port (ecx_APRDw ADPh ECT_REG_PDICTL EC_TIMEOUTRET3) c;
     c \<leftarrow> upd_slave slave (\<lambda>s. s\<lparr>s_Itype := val16\<rparr>) c;
     (_, c) \<leftarrow> on_port (ecx_APWRw ADPh ECT_REG_STADR (slave + EC_NODEOFFSET) EC_TIMEOUTRET3) c;
     (_, c) \<leftarrow> on_port (ecx_APWRw ADPh ECT_REG_DLCTL (if slave = 1 then 1 else 0) EC_TIMEOUTRET3) c;
     (configadr, c) \<leftarrow> on_port (ecx_APRDw ADPh ECT_REG_STADR EC_TIMEOUTRET3) c;
     c \<leftarrow> upd_slave slave (\<lambda>s. s\<lparr>s_configadr := configadr\<rparr>) c;
     (_, b, c) \<leftarrow> on_port_buf (ecx_FPRD configadr ECT_REG_ALIAS 2 (enc16 aliasadr) EC_TIMEOUTRET3) c;
     let aliasadr = dec16 b;
     c \<leftarrow> upd_slave slave (\<lambda>s. s\<lparr>s_aliasadr := aliasadr\<rparr>) c;
     (_, b, c) \<leftarrow> on_port_buf (ecx_FPRD configadr ECT_REG_EEPSTAT 2 (enc16 estat) EC_TIMEOUTRET3) c;
     let estat = dec16 b;
     c \<leftarrow> (if estat AND EC_ESTAT_R64 \<noteq> 0 then upd_slave slave (\<lambda>s. s\<lparr>s_eep_8byte := 1\<rparr>) c else Some c);
     c \<leftarrow> ecx_readeeprom1 slave ECT_SII_MANUF c;
     Some (aliasadr, estat, c)
   })"

text \<open>
  The result of the read of the EEPROM that was started before is stored, and the next one is
  started, for all slaves in turn.
\<close>

definition cfg_eeprom :: "(u32 \<Rightarrow> ec_slave \<Rightarrow> ec_slave) \<Rightarrow> u16 \<Rightarrow> u16 \<Rightarrow> ecx_context \<Rightarrow> ecx_context option" where
  "cfg_eeprom store adr slave c = do {
     (eedat, c) \<leftarrow> ecx_readeeprom2 slave EC_TIMEOUTEEP c;
     c \<leftarrow> upd_slave slave (store eedat) c;
     ecx_readeeprom1 slave adr c
   }"

definition cfg_mbx_write :: "u16 \<Rightarrow> ecx_context \<Rightarrow> ecx_context option" where
  "cfg_mbx_write slave c = do {
     (eedat, c) \<leftarrow> ecx_readeeprom2 slave EC_TIMEOUTEEP c;
     c \<leftarrow> upd_slave slave (\<lambda>s. s\<lparr>s_mbx_wo := LO_WORD eedat, s_mbx_l := HI_WORD eedat\<rparr>) c;
     s \<leftarrow> get_slave slave c;
     if s_mbx_l s > 0 then ecx_readeeprom1 slave ECT_SII_TXMBXADR c else Some c
   }"

definition cfg_mbx_read :: "u16 \<Rightarrow> ecx_context \<Rightarrow> ecx_context option" where
  "cfg_mbx_read slave c = do {
     s \<leftarrow> get_slave slave c;
     if s_mbx_l s > 0 then
       cfg_eeprom (\<lambda>eedat s. s\<lparr>s_mbx_ro := LO_WORD eedat, s_mbx_rl := (if HI_WORD eedat = 0 then s_mbx_l s else HI_WORD eedat)\<rparr>)
         ECT_SII_MBXPROTO slave c
     else Some c
   }"

section \<open>Links\<close>

text \<open>The number of ports with a link and a communication, and their bits.\<close>

definition cfg_ports :: "u16 \<Rightarrow> u8 \<times> u8" where
  "cfg_ports topology =
     (let port = (\<lambda>mask v b (h, bs). if topology AND mask = v then (h + 1, bs OR b) else (h, bs))
      in port 0xc000 0x8000 0x08 (port 0x3000 0x2000 0x04 (port 0x0c00 0x0800 0x02 (port 0x0300 0x0200 0x01 (0, 0)))))"

text \<open>
  The search for the parent goes back from the slave and counts open ends: an end point closes
  one, a split and a cross open more. The counter and the index are signed 16-bit numbers.
\<close>

definition topo_count :: "u8 \<Rightarrow> u16 \<Rightarrow> u16" where
  "topo_count topology topoc = (if topology = 1 then topoc - 1 else if topology = 3 then topoc + 1 else if topology = 4 then topoc + 2 else topoc)"

definition parent_body :: "ec_slave list \<Rightarrow> u16 \<times> nat \<times> u16 \<Rightarrow> ((u16 \<times> nat \<times> u16) \<times> bool) option" where
  "parent_body list = (\<lambda>(topoc, slavec, parent). do {
     s \<leftarrow> arr_get list slavec;
     let topoc = topo_count (s_topology s) topoc;
     let found = ((sint topoc \<ge> 0 \<and> s_topology s > 1) \<or> slavec = 1);
     let parent = (if found then of_nat slavec else parent);
     let slavec = (if found then 1 else slavec) - 1;
     Some ((topoc, slavec, parent), slavec > 0)
   })"

definition find_parent :: "u16 \<Rightarrow> ec_slave list \<Rightarrow> u16 option" where
  "find_parent slave list =
     (if slave > 1 then do {
        chk (unat slave - 1 < 0x8000);
        (_, _, parent) \<leftarrow> do_while (parent_body list) (0, unat slave - 1, 0);
        Some parent
      } else Some 0)"

definition cfg_links :: "u16 \<Rightarrow> ecx_context \<Rightarrow> ecx_context option" where
  "cfg_links slave c = do {
     s \<leftarrow> get_slave slave c;
     let configadr = s_configadr s;
     (val16, c) \<leftarrow> on_port (ecx_FPRDw configadr ECT_REG_ESCSUP EC_TIMEOUTRET3) c;
     c \<leftarrow> upd_slave slave (\<lambda>s. s\<lparr>s_hasdc := (val16 AND 0x04 > 0)\<rparr>) c;
     (topology, c) \<leftarrow> on_port (ecx_FPRDw configadr ECT_REG_DLSTAT EC_TIMEOUTRET3) c;
     let (h, b) = cfg_ports topology;
     (val16, c) \<leftarrow> on_port (ecx_FPRDw configadr ECT_REG_PORTDES EC_TIMEOUTRET3) c;
     c \<leftarrow> upd_slave slave (\<lambda>s. s\<lparr>s_ptype := ucast val16, s_topology := h, s_activeports := b\<rparr>) c;
     parent \<leftarrow> find_parent slave (slavelist c);
     upd_slave slave (\<lambda>s. s\<lparr>s_parent := parent\<rparr>) c
   }"

section \<open>The parameters of a slave\<close>

text \<open>
  The search for a slave with the same identity before \<open>slave\<close>; the comparison reads the table
  before the bound is checked, and ends at the slave itself.
\<close>

definition same_id :: "ec_slave \<Rightarrow> ec_slave \<Rightarrow> bool" where
  "same_id a b \<longleftrightarrow> s_eep_man a = s_eep_man b \<and> s_eep_id a = s_eep_id b \<and> s_eep_rev a = s_eep_rev b"

definition prev_body :: "nat \<Rightarrow> ec_slave list \<Rightarrow> nat \<Rightarrow> (nat \<times> bool) option" where
  "prev_body slave list i = do {
     a \<leftarrow> arr_get list i;
     b \<leftarrow> arr_get list slave;
     if \<not> same_id a b \<and> i < slave then Some (i + 1, True) else Some (i, False)
   }"

definition find_prev :: "u16 \<Rightarrow> ecx_context \<Rightarrow> nat option option" where
  "find_prev slave c =
     (if slave > 1 \<and> slavecount c > 0 then do {
        i \<leftarrow> do_while (prev_body (unat slave) (slavelist c)) 1;
        Some (if i < unat slave then Some i else None)
      } else Some None)"

definition copy_sii :: "ec_slave \<Rightarrow> ec_slave \<Rightarrow> ec_slave" where
  "copy_sii p s = s\<lparr>s_CoEdetails := s_CoEdetails p, s_FoEdetails := s_FoEdetails p, s_EoEdetails := s_EoEdetails p,
     s_SoEdetails := s_SoEdetails p, s_blockLRW := (if s_blockLRW p > 0 then 1 else s_blockLRW s),
     s_Ebuscurrent := s_Ebuscurrent p, s_name := s_name p, s_SM := s_SM p, s_FMMUfunc := s_FMMUfunc p\<rparr>"

definition ecx_lookup_prev_sii :: "u16 \<Rightarrow> ecx_context \<Rightarrow> (int \<times> ecx_context) option" where
  "ecx_lookup_prev_sii slave c = do {
     i \<leftarrow> find_prev slave c;
     case i of
       None \<Rightarrow> Some (0, c)
     | Some i \<Rightarrow> do {
         p \<leftarrow> arr_get (slavelist c) i;
         c \<leftarrow> upd_slave slave (copy_sii p) c;
         c \<leftarrow> upd_slave 0 (\<lambda>m. m\<lparr>s_blockLRW := (if s_blockLRW p > 0 then s_blockLRW m + 1 else s_blockLRW m),
                s_Ebuscurrent := s_Ebuscurrent m + s_Ebuscurrent p\<rparr>) c;
         Some (1, c)
       }
   }"

text \<open>The general section of the EEPROM.\<close>

definition cfg_general :: "u16 \<Rightarrow> u16 \<Rightarrow> ecx_context \<Rightarrow> ecx_context option" where
  "cfg_general slave ssigen c = do {
     (b, c) \<leftarrow> ecx_siigetbyte slave (ssigen + 0x07) c;
     c \<leftarrow> upd_slave slave (\<lambda>s. s\<lparr>s_CoEdetails := b\<rparr>) c;
     (b, c) \<leftarrow> ecx_siigetbyte slave (ssigen + 0x08) c;
     c \<leftarrow> upd_slave slave (\<lambda>s. s\<lparr>s_FoEdetails := b\<rparr>) c;
     (b, c) \<leftarrow> ecx_siigetbyte slave (ssigen + 0x09) c;
     c \<leftarrow> upd_slave slave (\<lambda>s. s\<lparr>s_EoEdetails := b\<rparr>) c;
     (b, c) \<leftarrow> ecx_siigetbyte slave (ssigen + 0x0a) c;
     c \<leftarrow> upd_slave slave (\<lambda>s. s\<lparr>s_SoEdetails := b\<rparr>) c;
     (b, c) \<leftarrow> ecx_siigetbyte slave (ssigen + 0x0d) c;
     c \<leftarrow> (if b AND 0x02 > 0 then do {
         c \<leftarrow> upd_slave slave (\<lambda>s. s\<lparr>s_blockLRW := 1\<rparr>) c;
         upd_slave 0 (\<lambda>m. m\<lparr>s_blockLRW := s_blockLRW m + 1\<rparr>) c
       } else Some c);
     (lo, c) \<leftarrow> ecx_siigetbyte slave (ssigen + 0x0e) c;
     (hi, c) \<leftarrow> ecx_siigetbyte slave (ssigen + 0x0f) c;
     let cur = ucast lo + push_bit 8 (ucast hi);
     c \<leftarrow> upd_slave slave (\<lambda>s. s\<lparr>s_Ebuscurrent := cur\<rparr>) c;
     upd_slave 0 (\<lambda>m. m\<lparr>s_Ebuscurrent := s_Ebuscurrent m + cur\<rparr>) c
   }"

text \<open>\<^verbatim>\<open>sprintf\<close> with \<^verbatim>\<open>%8.8x\<close>: eight hexadecimal digits.\<close>

definition hex_digit :: "nat \<Rightarrow> u8" where
  "hex_digit d = of_nat (if d < 10 then 48 + d else 87 + d)"

definition hex8 :: "u32 \<Rightarrow> u8 list" where
  "hex8 w = map (\<lambda>i. hex_digit (unat w div 16 ^ i mod 16)) [7, 6, 5, 4, 3, 2, 1, 0]"

definition made_up_name :: "u32 \<Rightarrow> u32 \<Rightarrow> u8 list" where
  "made_up_name man i = [63, 32, 77, 58] @ hex8 man @ [32, 73, 58] @ hex8 i"

text \<open>The name: the section is there when its address, a signed 16-bit number, is positive.\<close>

definition cfg_name :: "u16 \<Rightarrow> ecx_context \<Rightarrow> ecx_context option" where
  "cfg_name slave c = do {
     (a, c) \<leftarrow> ecx_siifind slave ECT_SII_STRING c;
     if 0 <s a then do {
       (str, c) \<leftarrow> ecx_siistring slave 1 c;
       upd_slave slave (\<lambda>s. s\<lparr>s_name := put_bytes 0 (case str of None \<Rightarrow> [] | Some bs \<Rightarrow> bs) (s_name s)\<rparr>) c
     } else upd_slave slave (\<lambda>s. s\<lparr>s_name := put_bytes 0 (made_up_name (s_eep_man s) (s_eep_id s) @ [0]) (s_name s)\<rparr>) c
   }"

text \<open>
  The sync managers. \<^verbatim>\<open>context->eepSM\<close> is filled by \<^verbatim>\<open>ecx_siiSM\<close> before it is read, so that its
  former contents do not matter.
\<close>

definition no_eepSM :: ec_eepromSM where
  "no_eepSM = \<lparr>m_Startpos = 0, m_nSM = 0, m_PhStart = 0, m_Plength = 0, m_Creg = 0, m_Sreg = 0, m_Activate = 0, m_PDIctrl = 0\<rparr>"

definition sm_of_eep :: "ec_eepromSM \<Rightarrow> ec_sm" where
  "sm_of_eep M = \<lparr>StartAddr = m_PhStart M, SMlength = m_Plength M, SMflags = ucast (m_Creg M) + push_bit 16 (ucast (m_Activate M))\<rparr>"

definition cfg_sms_body :: "u16 \<Rightarrow> nat \<times> ec_eepromSM \<times> ecx_context \<Rightarrow> ((nat \<times> ec_eepromSM \<times> ecx_context) \<times> bool) option" where
  "cfg_sms_body slave = (\<lambda>(SMc, M, c).
     if SMc < EC_MAXSM then do {
       (r, M, c) \<leftarrow> ecx_siiSMnext slave M (of_nat SMc) c;
       if r \<noteq> 0 then do {
         c \<leftarrow> upd_slave slave (set_sm SMc (sm_of_eep M)) c;
         Some ((SMc + 1, M, c), True)
       } else Some ((SMc, M, c), False)
     } else Some ((SMc, M, c), False))"

definition cfg_sms :: "u16 \<Rightarrow> ecx_context \<Rightarrow> ecx_context option" where
  "cfg_sms slave c = do {
     (M, c) \<leftarrow> ecx_siiSM slave no_eepSM c;
     if m_nSM M > 0 then do {
       c \<leftarrow> upd_slave slave (set_sm 0 (sm_of_eep M)) c;
       (_, _, c) \<leftarrow> do_while (cfg_sms_body slave) (1, M, c);
       Some c
     } else Some c
   }"

definition fmmu_func :: "nat \<Rightarrow> u8 \<Rightarrow> ec_slave \<Rightarrow> ec_slave" where
  "fmmu_func k f s = (if f \<noteq> 0xff then set_fmmufunc k f s else s)"

definition cfg_fmmus :: "u16 \<Rightarrow> ecx_context \<Rightarrow> ecx_context option" where
  "cfg_fmmus slave c = do {
     (F, c) \<leftarrow> ecx_siiFMMU slave c;
     if f_nFMMU F \<noteq> 0 then
       upd_slave slave (\<lambda>s. fmmu_func 3 (f_FMMU3 F) (fmmu_func 2 (f_FMMU2 F) (fmmu_func 1 (f_FMMU1 F) (fmmu_func 0 (f_FMMU0 F) s)))) c
     else Some c
   }"

definition cfg_sii :: "u16 \<Rightarrow> ecx_context \<Rightarrow> ecx_context option" where
  "cfg_sii slave c = do {
     (ssigen, c) \<leftarrow> ecx_siifind slave ECT_SII_GENERAL c;
     c \<leftarrow> (if ssigen \<noteq> 0 then cfg_general slave ssigen c else Some c);
     c \<leftarrow> cfg_name slave c;
     c \<leftarrow> cfg_sms slave c;
     cfg_fmmus slave c
   }"

section \<open>Configuration\<close>

definition default_mbx :: "ec_slave \<Rightarrow> ec_slave" where
  "default_mbx s =
     set_sm 1 \<lparr>StartAddr = s_mbx_ro s, SMlength = s_mbx_rl s, SMflags = EC_DEFAULTMBXSM1\<rparr>
       (set_sm 0 \<lparr>StartAddr = s_mbx_wo s, SMlength = s_mbx_l s, SMflags = EC_DEFAULTMBXSM0\<rparr>
         (set_smtype 3 4 (set_smtype 2 3 (set_smtype 1 2 (set_smtype 0 1 s)))))"

definition cfg_mbx_default :: "u16 \<Rightarrow> ecx_context \<Rightarrow> ecx_context option" where
  "cfg_mbx_default slave c = do {
     s \<leftarrow> get_slave slave c;
     if s_mbx_l s > 0 then do {
       c \<leftarrow> upd_slave slave default_mbx c;
       (eedat, c) \<leftarrow> ecx_readeeprom2 slave EC_TIMEOUTEEP c;
       upd_slave slave (\<lambda>s. s\<lparr>s_mbx_proto := ucast eedat\<rparr>) c
     } else Some c
   }"

text \<open>A mailbox without an address gets one, and both sync managers are written in one datagram.\<close>

definition repair_sm :: "nat \<Rightarrow> u16 \<Rightarrow> u32 \<Rightarrow> u8 \<Rightarrow> ec_slave \<Rightarrow> ec_slave" where
  "repair_sm k adr flags t s =
     (if StartAddr (s_SM s ! k) = 0 then set_smtype k t (set_sm k \<lparr>StartAddr = adr, SMlength = 0x0080, SMflags = flags\<rparr> s) else s)"

definition cfg_mbx_program :: "u16 \<Rightarrow> ecx_context \<Rightarrow> ecx_context option" where
  "cfg_mbx_program slave c = do {
     s \<leftarrow> get_slave slave c;
     if s_mbx_l s > 0 then do {
       c \<leftarrow> upd_slave slave (\<lambda>s. repair_sm 1 0x1080 EC_DEFAULTMBXSM1 2 (repair_sm 0 0x1000 EC_DEFAULTMBXSM0 1 s)) c;
       s \<leftarrow> get_slave slave c;
       (_, c) \<leftarrow> on_port (ecx_FPWR (s_configadr s) ECT_REG_SM0 16 (enc_sm (s_SM s ! 0) @ enc_sm (s_SM s ! 1)) EC_TIMEOUTRET3) c;
       Some c
     } else Some c
   }"

definition cfg_slave :: "bool \<Rightarrow> u16 \<Rightarrow> ecx_context \<Rightarrow> ecx_context option" where
  "cfg_slave usetable slave c = do {
     c \<leftarrow> cfg_mbx_read slave c;
     s \<leftarrow> get_slave slave c;
     let configadr = s_configadr s;
     c \<leftarrow> cfg_links slave c;
     (_, c) \<leftarrow> ecx_statecheck slave EC_STATE_INIT EC_TIMEOUTSTATE c;
     c \<leftarrow> cfg_mbx_default slave c;
     (cindex, c) \<leftarrow> (if usetable then ecx_config_from_table slave c else Some (0, c));
     (known, c) \<leftarrow> (if cindex = 0 then ecx_lookup_prev_sii slave c else Some (1, c));
     c \<leftarrow> (if known = 0 then cfg_sii slave c else Some c);
     c \<leftarrow> cfg_mbx_program slave c;
     (_, c) \<leftarrow> ecx_eeprom2pdi slave c;
     if manualstatechange c = 0 then do {
       (_, c) \<leftarrow> on_port (ecx_FPWRw configadr ECT_REG_ALCTL (EC_STATE_PRE_OP OR EC_STATE_ACK) EC_TIMEOUTRET3) c;
       Some c
     } else Some c
   }"

text \<open>\<open>aliasadr\<close> and \<open>estat\<close> are what the local variables hold before they are first read.\<close>

definition ecx_config_init :: "bool \<Rightarrow> u16 \<Rightarrow> u16 \<Rightarrow> ecx_context \<Rightarrow> (int \<times> ecx_context) option" where
  "ecx_config_init usetable aliasadr estat c = do {
     c \<leftarrow> ecx_init_context c;
     (wkc, c) \<leftarrow> ecx_detect_slaves c;
     if wkc > 0 then do {
       c \<leftarrow> ecx_set_slaves_to_default c;
       let n = slavecount c;
       (_, _, c) \<leftarrow> for_slaves n cfg_identify (aliasadr, estat, c);
       c \<leftarrow> for_slaves n (cfg_eeprom (\<lambda>d s. s\<lparr>s_eep_man := d\<rparr>) ECT_SII_ID) c;
       c \<leftarrow> for_slaves n (cfg_eeprom (\<lambda>d s. s\<lparr>s_eep_id := d\<rparr>) ECT_SII_REV) c;
       c \<leftarrow> for_slaves n (cfg_eeprom (\<lambda>d s. s\<lparr>s_eep_rev := d\<rparr>) ECT_SII_RXMBXADR) c;
       c \<leftarrow> for_slaves n cfg_mbx_write c;
       c \<leftarrow> for_slaves n (cfg_slave usetable) c;
       Some (wkc, c)
     } else Some (wkc, c)
   }"

end
