(* ===== verification/ConfigProps.thy ===== *)
theory ConfigProps
  imports Config
begin

text \<open>
  What holds of the enumeration: the search for the parent of a slave finds the parent in every
  tree of slaves that are numbered in the order in which a frame passes them, the table of known
  slaves is searched completely, the search for a slave with the same identity finds the first
  one, and the number of slaves found fits the list.
\<close>

section \<open>Trees of slaves\<close>

text \<open>
  A slave with the slaves at its further ports. \<open>tops\<close> is the number of links of every slave in
  the order in which the frames pass them: one link to the parent and one to each child.
  \<open>pars p n\<close> is the number of the parent of every slave when the first one has number \<open>n\<close>
  and parent \<open>p\<close>.
\<close>

datatype bus = Slave "bus list"

fun tops :: "bus list \<Rightarrow> nat list" where
  "tops [] = []"
| "tops (Slave ch # bs) = (1 + length ch) # tops ch @ tops bs"

fun pars :: "nat \<Rightarrow> nat \<Rightarrow> bus list \<Rightarrow> nat list" where
  "pars p n [] = []"
| "pars p n (Slave ch # bs) = p # pars n (n + 1) ch @ pars p (n + 1 + length (tops ch)) bs"

lemma length_pars [simp]: "length (pars p n bs) = length (tops bs)"
  by (induction p n bs rule: pars.induct) auto

text \<open>The links beyond two of every slave, summed up: each complete tree counts for -1.\<close>

definition excess :: "nat list \<Rightarrow> int" where
  "excess ts = (\<Sum>t\<leftarrow>ts. int t - 2)"

lemma excess_simps [simp]: "excess [] = 0" "excess (t # ts) = int t - 2 + excess ts" "excess (ts @ us) = excess ts + excess us"
  by (simp_all add: excess_def)

lemma excess_tops [simp]: "excess (tops bs) = - int (length bs)"
  by (induction bs rule: tops.induct) auto

lemma excess_suffix: "j < length (tops bs) \<Longrightarrow> excess (drop j (tops bs)) < 0"
proof (induction bs arbitrary: j rule: tops.induct)
  case (2 ch bs)
  show ?case
  proof (cases j)
    case (Suc i)
    have "excess (drop i (tops ch)) \<le> 0"
      using "2.IH"(1) [of i] by (cases "i < length (tops ch)") auto
    moreover have "excess (drop (i - length (tops ch)) (tops bs)) < 0" if "length (tops ch) \<le> i"
      using "2.IH"(2) [of "i - length (tops ch)"] "2.prems" Suc that by simp
    ultimately show ?thesis
      using "2.IH"(1) [of i] Suc by (cases "i < length (tops ch)") auto
  qed auto
qed simp

text \<open>
  Before the slave number \<open>k\<close> of a row of trees there is its parent, and between the two there
  are only complete trees, as many as the parent has children before it.
\<close>

lemma parent_split:
  assumes "k < length (tops bs)"
  shows "(pars p n bs ! k = p \<and> (\<exists>D. take k (tops bs) = tops D \<and> length D < length bs)) \<or>
    (\<exists>A t D. take k (tops bs) = A @ t # tops D \<and> length D + 2 \<le> t \<and> pars p n bs ! k = n + length A)"
  using assms
proof (induction p n bs arbitrary: k rule: pars.induct)
  case (2 p n ch bs)
  consider "k = 0" | i where "k = Suc i" "i < length (tops ch)" | i where "k = Suc (length (tops ch) + i)" "i < length (tops bs)"
  proof (cases k)
    case (Suc j)
    show ?thesis
    proof (cases "j < length (tops ch)")
      case False
      then have "k = Suc (length (tops ch) + (j - length (tops ch)))" "j - length (tops ch) < length (tops bs)"
        using Suc "2.prems" by auto
      then show ?thesis by (rule that(3))
    qed (use Suc that(2) in auto)
  qed (rule that(1))
  then show ?case
  proof cases
    case 1
    then show ?thesis by (auto intro!: exI [of _ "[]"])
  next
    case 2
    note k = this
    from "2.IH"(1) [OF k(2)] show ?thesis
    proof (elim disjE exE conjE)
      fix D assume "pars n (n + 1) ch ! i = n" "take i (tops ch) = tops D" "length D < length ch"
      then show ?thesis using k by (intro disjI2 exI [of _ "[]"]) (auto simp: nth_append)
    next
      fix A t D assume "take i (tops ch) = A @ t # tops D" "length D + 2 \<le> t" "pars n (n + 1) ch ! i = n + 1 + length A"
      then show ?thesis
        using k by (intro disjI2 exI [of _ "(1 + length ch) # A"] exI [of _ t] exI [of _ D]) (auto simp: nth_append)
    qed
  next
    case 3
    note k = this
    from "2.IH"(2) [OF k(2)] show ?thesis
    proof (elim disjE exE conjE)
      fix D assume "pars p (n + 1 + length (tops ch)) bs ! i = p" "take i (tops bs) = tops D" "length D < length bs"
      then show ?thesis using k by (intro disjI1 conjI exI [of _ "Slave ch # D"]) (auto simp: nth_append)
    next
      fix A t D assume "take i (tops bs) = A @ t # tops D" "length D + 2 \<le> t"
        "pars p (n + 1 + length (tops ch)) bs ! i = n + 1 + length (tops ch) + length A"
      then show ?thesis
        using k by (intro disjI2 exI [of _ "(1 + length ch) # tops ch @ A"] exI [of _ t] exI [of _ D]) (auto simp: nth_append)
    qed
  qed
qed simp

section \<open>The walk back\<close>

lemma sint_of_int16: "- 32768 \<le> i \<Longrightarrow> i < 32768 \<Longrightarrow> sint (of_int i :: u16) = i"
  by (simp add: sint_sbintrunc' signed_take_bit_int_eq_self)

lemma topo_count_int:
  assumes "unat t \<le> 4" "t \<noteq> 0"
  shows "topo_count t (of_int i) = of_int (i + int (unat t) - 2)"
proof -
  have "unat t = 1 \<or> unat t = 2 \<or> unat t = 3 \<or> unat t = 4"
    using assms unat_eq_zero [of t] by linarith
  then have "t = 1 \<or> t = 2 \<or> t = 3 \<or> t = 4"
    by (auto simp: word_unat_eq_iff)
  then show ?thesis by (auto simp: topo_count_def)
qed

text \<open>The links of the slaves of a list, from slave 1 on.\<close>

definition links_match :: "ec_slave list \<Rightarrow> nat list \<Rightarrow> bool" where
  "links_match list ts \<longleftrightarrow> length ts < length list \<and> length ts < 0x8000 \<and>
     (\<forall>i < length ts. unat (s_topology (list ! Suc i)) = ts ! i \<and> 0 < ts ! i \<and> ts ! i \<le> 4)"

lemma links_at:
  assumes "links_match list (Q @ t # R)"
  shows "Suc (length Q) < length list" "unat (s_topology (list ! Suc (length Q))) = t" "t \<le> 4" "s_topology (list ! Suc (length Q)) \<noteq> 0"
proof -
  show "Suc (length Q) < length list" using assms by (simp add: links_match_def)
  have "unat (s_topology (list ! Suc (length Q))) = (Q @ t # R) ! length Q \<and> 0 < (Q @ t # R) ! length Q \<and> (Q @ t # R) ! length Q \<le> 4"
    using assms unfolding links_match_def by (metis length_append length_Cons less_add_Suc1 add_Suc_right)
  then have t: "unat (s_topology (list ! Suc (length Q))) = t" "0 < t" "t \<le> 4" by (simp_all add: nth_append)
  then show "unat (s_topology (list ! Suc (length Q))) = t" "t \<le> 4" by simp_all
  show "s_topology (list ! Suc (length Q)) \<noteq> 0" using t(1,2) by auto
qed

lemma links_sum_le: "links_match list (Q @ S) \<Longrightarrow> - int (length S) \<le> excess S"
proof (induction S arbitrary: Q)
  case (Cons t S)
  from links_at(2,4) [OF Cons.prems] have "0 < t" by (metis unat_eq_zero gr0I)
  with Cons.IH [of "Q @ [t]"] Cons.prems show ?case by simp
qed simp

lemma parent_body_step:
  assumes m: "links_match list (Q @ t # R)" and a: "- 32768 \<le> a + int t - 2" "a + int t - 2 < 32768"
  shows "parent_body list (of_int a, Suc (length Q), r) =
    (if (a + int t - 2 \<ge> 0 \<and> t > 1) \<or> Q = [] then Some ((of_int (a + int t - 2), 0, of_nat (Suc (length Q))), False)
     else Some ((of_int (a + int t - 2), length Q, r), True))"
proof -
  note l = links_at [OF m]
  define v where "v = (of_int (a + int t - 2) :: u16)"
  have tc: "topo_count (s_topology (list ! Suc (length Q))) (of_int a) = v"
    using topo_count_int [of "s_topology (list ! Suc (length Q))" a] l(2,3,4) by (simp add: v_def)
  have sv: "sint v = a + int t - 2" using sint_of_int16 [OF a] by (simp only: v_def)
  have "s_topology (list ! Suc (length Q)) > 1 \<longleftrightarrow> t > 1"
    using l(2) by (simp add: word_less_nat_alt)
  with l(1) sv show ?thesis
    unfolding v_def [symmetric] by (simp add: parent_body_def tc Let_def arr_get_def)
qed

text \<open>Complete trees are passed without a parent being found.\<close>

lemma walk_over:
  assumes "links_match list (Q @ S @ R)" "Q \<noteq> []" "a \<le> 0" "- 32768 \<le> a - int (length S)"
    and "\<And>j. j < length S \<Longrightarrow> a + excess (drop j S) < 0"
  shows "do_while (parent_body list) (of_int a, length (Q @ S), r) = do_while (parent_body list) (of_int (a + excess S), length Q, r)"
  using assms
proof (induction S arbitrary: a R rule: rev_induct)
  case (snoc t S)
  have m: "links_match list ((Q @ S) @ t # R)" using snoc.prems(1) by simp
  have neg: "a + (int t - 2) < 0" using snoc.prems(5) [of "length S"] by simp
  have t: "0 < t" using links_at(2,4) [OF m] by (metis unat_eq_zero gr0I)
  have "parent_body list (of_int a, Suc (length (Q @ S)), r) = Some ((of_int (a + int t - 2), length (Q @ S), r), True)"
    using parent_body_step [OF m, of a r] neg t snoc.prems(2,4) by simp
  then have "do_while (parent_body list) (of_int a, length (Q @ S @ [t]), r) = do_while (parent_body list) (of_int (a + int t - 2), length (Q @ S), r)"
    using do_while_unfold [of "parent_body list" "(of_int a, Suc (length (Q @ S)), r)"] by simp
  also have "\<dots> = do_while (parent_body list) (of_int (a + int t - 2 + excess S), length Q, r)"
  proof (rule snoc.IH [of "t # R"])
    show "links_match list (Q @ S @ t # R)" using m by simp
    show "a + int t - 2 + excess (drop j S) < 0" if "j < length S" for j
      using snoc.prems(5) [of j] that by simp
  qed (use snoc.prems neg t in auto)
  finally show ?case by (simp add: algebra_simps)
qed simp

section \<open>Properties\<close>

lemma tops_le: "k < length (tops bs) \<Longrightarrow> 0 < tops bs ! k"
proof (induction bs arbitrary: k rule: tops.induct)
  case (2 ch bs)
  then show ?case by (cases k) (auto simp: nth_append)
qed simp

text \<open>
  C15: the parent of a slave is found from nothing but the number of links of the slaves before
  it. When the links of the slaves 1, 2, ... are those of a tree of slaves in the order in which
  frames pass them, the search gives the parent in that tree, for every tree and every slave.
\<close>

theorem find_parent_correct:
  assumes m: "links_match list (tops [b])" and k: "0 < k" "k \<le> length (tops [b])"
  shows "find_parent (of_nat k) list = Some (of_nat (pars 0 1 [b] ! (k - 1)))"
proof -
  have len: "length (tops [b]) < 0x8000" using m by (simp add: links_match_def)
  have u: "unat (of_nat k :: u16) = k" using k len by (simp add: unat_of_nat take_bit_nat_eq_self)
  show ?thesis
  proof (cases "k = 1")
    case True
    then show ?thesis by (cases b) (simp add: find_parent_def)
  next
    case False
    have gt: "(1 :: u16) < of_nat k" using u False k(1) by (simp add: word_less_nat_alt)
    have k1: "k - 1 < length (tops [b])" using k by simp
    have n0: "\<not> (\<exists>D. take (k - 1) (tops [b]) = tops D \<and> length D < length [b])"
    proof
      assume "\<exists>D. take (k - 1) (tops [b]) = tops D \<and> length D < length [b]"
      then have "take (k - 1) (tops [b]) = []" by auto
      with False k show False by auto
    qed
    with parent_split [OF k1, of 0 1] obtain A t D where
      s: "take (k - 1) (tops [b]) = A @ t # tops D" "length D + 2 \<le> t" "pars 0 1 [b] ! (k - 1) = 1 + length A" by blast
    define R where "R = drop (k - 1) (tops [b])"
    have "tops [b] = A @ t # tops D @ R"
      using s(1) append_take_drop_id [of "k - 1" "tops [b]"] by (simp add: R_def)
    with m have m': "links_match list (A @ t # tops D @ R)" by simp
    have l: "k - 1 = length ((A @ [t]) @ tops D)"
      using arg_cong [OF s(1), of length] k1 by simp
    have "do_while (parent_body list) (of_int 0, length ((A @ [t]) @ tops D), 0) =
        do_while (parent_body list) (of_int (0 + excess (tops D)), length (A @ [t]), 0)"
    proof (rule walk_over)
      show "links_match list ((A @ [t]) @ tops D @ R)" using m' by simp
      show "- 32768 \<le> 0 - int (length (tops D))" using l k len by simp
    qed (use excess_suffix in auto)
    also have "\<dots> = Some (of_int (int t - 2 - int (length D)), 0, of_nat (Suc (length A)))"
    proof -
      have "t \<le> 4" using links_at(3) [OF m'] .
      then have "parent_body list (of_int (- int (length D)), Suc (length A), 0) =
          Some ((of_int (int t - 2 - int (length D)), 0, of_nat (Suc (length A))), False)"
        using parent_body_step [OF m', of "- int (length D)" 0] s(2) by (auto simp: algebra_simps)
      then show ?thesis by (simp add: do_while_stop)
    qed
    finally have w: "do_while (parent_body list) (0, k - 1, 0) = Some (of_int (int t - 2 - int (length D)), 0, of_nat (Suc (length A)))"
      using l by simp
    have "k - 1 < 0x8000" using k len by simp
    with w gt s(3) show ?thesis unfolding find_parent_def u by (simp del: One_nat_def)
  qed
qed

text \<open>A split with two branches of two and one slaves, behind a slave with two links.\<close>

definition demo_bus :: bus where
  "demo_bus = Slave [Slave [Slave [Slave []], Slave []]]"

definition demo_links :: "ec_slave list" where
  "demo_links = no_slave # map (\<lambda>t. no_slave\<lparr>s_topology := t\<rparr>) [2, 3, 2, 1, 1]"

theorem find_parent_correct_witness:
  "find_parent 5 demo_links = Some 2 \<and> find_parent 4 demo_links = Some 3"
proof -
  have m: "links_match demo_links (tops [demo_bus])"
    by (simp add: links_match_def demo_bus_def demo_links_def nth_Cons' less_Suc_eq)
  have p: "tops [demo_bus] = [2, 3, 2, 1, 1]" "pars 0 1 [demo_bus] = [0, 1, 2, 3, 2]"
    by (simp_all add: demo_bus_def)
  show ?thesis
    using find_parent_correct [OF m, of 5] find_parent_correct [OF m, of 4] unfolding p by (simp add: nth_Cons')
qed

section \<open>The table of known slaves\<close>

lemma findconfig_scan:
  assumes "k < i" "i < length ec_configlist" "cl_man (ec_configlist ! i) = EC_CONFIGEND \<or> cl_man (ec_configlist ! i) = man \<and> cl_id (ec_configlist ! i) = eid"
    and "\<forall>j. k < j \<and> j < i \<longrightarrow> cl_man (ec_configlist ! j) \<noteq> EC_CONFIGEND \<and> \<not> (cl_man (ec_configlist ! j) = man \<and> cl_id (ec_configlist ! j) = eid)"
  shows "do_while (findconfig_body man eid) k = Some i"
  using assms
proof (induction "i - k" arbitrary: k)
  case (Suc d)
  have len: "Suc k < length ec_configlist" using Suc.prems by simp
  show ?case
  proof (cases "Suc k = i")
    case True
    then have "findconfig_body man eid k = Some (i, False)"
      using Suc.prems(3) len by (auto simp: findconfig_body_def arr_get_def)
    then show ?thesis by (simp add: do_while_stop)
  next
    case False
    with Suc.prems have "findconfig_body man eid k = Some (Suc k, True)"
      using len by (auto simp: findconfig_body_def arr_get_def)
    then have "do_while (findconfig_body man eid) k = do_while (findconfig_body man eid) (Suc k)"
      by (simp add: do_while_unfold)
    also have "\<dots> = Some i"
      using Suc.hyps(2) Suc.prems False by (intro Suc.hyps(1)) auto
    finally show ?thesis .
  qed
qed simp

lemma configlist_length: "length ec_configlist = 24"
  by (simp add: ec_configlist_def)

lemma configlist_inner: "i < 23 \<Longrightarrow> cl_man (ec_configlist ! i) \<noteq> EC_CONFIGEND"
proof -
  have "list_all (\<lambda>e. cl_man e \<noteq> EC_CONFIGEND) (take 23 ec_configlist)" by (simp add: ec_configlist_def configentry_def)
  then show "i < 23 \<Longrightarrow> ?thesis" by (auto simp: list_all_length configlist_length)
qed

lemma configlist_end: "cl_man (ec_configlist ! 23) = EC_CONFIGEND"
  by (simp add: ec_configlist_def configentry_def)

text \<open>
  The search in the table of known slaves ends for every manufacturer and identity. Its
  result is 0 exactly when the table has no such slave, and otherwise the first entry for it.
\<close>

theorem findconfig_first:
  assumes "man \<noteq> EC_CONFIGEND"
  shows "\<exists>k. ec_findconfig man eid = Some k \<and> k < 23 \<and>
    (k = 0 \<longleftrightarrow> (\<forall>j. 0 < j \<and> j < 23 \<longrightarrow> \<not> (cl_man (ec_configlist ! j) = man \<and> cl_id (ec_configlist ! j) = eid))) \<and>
    (k \<noteq> 0 \<longrightarrow> cl_man (ec_configlist ! k) = man \<and> cl_id (ec_configlist ! k) = eid \<and>
       (\<forall>j. 0 < j \<and> j < k \<longrightarrow> \<not> (cl_man (ec_configlist ! j) = man \<and> cl_id (ec_configlist ! j) = eid)))"
proof -
  define hit where "hit = (\<lambda>j. cl_man (ec_configlist ! j) = man \<and> cl_id (ec_configlist ! j) = eid)"
  show ?thesis
  proof (cases "\<exists>j. 0 < j \<and> j < 23 \<and> hit j")
    case True
    define i where "i = (LEAST j. 0 < j \<and> j < 23 \<and> hit j)"
    have i: "0 < i" "i < 23" "hit i" using LeastI_ex [OF True] by (simp_all add: i_def)
    have before: "\<not> hit j" if "0 < j" "j < i" for j
      using not_less_Least [of j "\<lambda>j. 0 < j \<and> j < 23 \<and> hit j"] that i(2) by (auto simp: i_def [symmetric])
    have "do_while (findconfig_body man eid) 0 = Some i"
      using i before configlist_inner by (intro findconfig_scan) (auto simp: configlist_length hit_def)
    then have "ec_findconfig man eid = Some i"
      using i configlist_inner [of i] by (simp add: ec_findconfig_def arr_get_def configlist_length)
    with i before show ?thesis by (auto simp: hit_def)
  next
    case False
    have "do_while (findconfig_body man eid) 0 = Some 23"
      using False configlist_inner configlist_end by (intro findconfig_scan) (auto simp: configlist_length hit_def)
    then have "ec_findconfig man eid = Some 0"
      by (simp add: ec_findconfig_def arr_get_def configlist_length configlist_end)
    with False show ?thesis by (auto simp: hit_def)
  qed
qed

theorem findconfig_first_witness: "\<exists>k. ec_findconfig 2 0x0fc03052 = Some k \<and> k < 23"
  using findconfig_first [where man = 2 and eid = "0x0fc03052"] by auto

section \<open>Detection\<close>

lemma cfg_bwr_talks:
  assumes "talks c0 c" "length bs \<le> 48"
  shows "returns (cfg_bwr reg bs c) (talks c0)"
proof -
  have n: "unat (of_nat (length bs) :: u16) = length bs" using assms(2) by (intro unat_of_nat_u16) simp
  have "returns (on_port (ecx_BWR 0 reg (of_nat (length bs)) bs EC_TIMEOUTRET3) c) (\<lambda>(w, d). talks c d \<and> True)"
    by (rule on_port_returns [where Q = "\<lambda>_. True", OF talks_inv [OF assms(1)]])
      (use n assms(2) ctx_inv_port [OF talks_inv [OF assms(1)]] in \<open>auto simp: ecx_BWR_def intro!: returns_mono [OF write_primitive_returns]\<close>)
  then show ?thesis using talks_trans [OF assms(1)] by (auto simp: cfg_bwr_def returns_iff)
qed

lemma detect_slaves_returns:
  assumes "ctx_inv c"
  shows "returns (ecx_detect_slaves c) (\<lambda>(r, d). ctx_inv d \<and> slavelist d = slavelist c \<and>
    (if 0 < r then slavecount d = r \<and> r < maxslave c else slavecount d = slavecount c \<and> r \<le> 0))"
proof -
  have w: "returns (cfg_bwr reg [b] d) (talks c)" if "talks c d" for reg b d
    by (rule cfg_bwr_talks [OF that]) simp
  obtain c1 where c1: "cfg_bwr ECT_REG_DLALIAS [0] c = Some c1" "talks c c1"
    using w [OF talks_refl [OF assms]] by (auto simp: returns_iff)
  obtain c2 where c2: "cfg_bwr ECT_REG_ALCTL [17] c1 = Some c2" "talks c c2"
    using w [OF c1(2)] by (auto simp: returns_iff)
  obtain c3 where c3: "cfg_bwr ECT_REG_ALCTL [17] c2 = Some c3" "talks c c3"
    using w [OF c2(2)] by (auto simp: returns_iff)
  obtain r b d where d: "on_port_buf (ecx_BRD 0 ECT_REG_TYPE 2 (enc16 0) EC_TIMEOUTSAFE) c3 = Some (r, b, d)" "talks c3 d"
    using ctx_reads(2) [OF talks_inv [OF c3(2)], of 2 "enc16 0" 0 ECT_REG_TYPE EC_TIMEOUTSAFE] by (auto simp: returns_iff)
  have t: "talks c d" by (rule talks_trans [OF c3(2) d(2)])
  then have e: "maxslave d = maxslave c" "slavecount d = slavecount c" "slavelist d = slavelist c"
    by (auto simp: talks_def ctx_same_def)
  have "ctx_inv (d\<lparr>slavecount := n\<rparr>)" for n using talks_inv [OF t] by (simp add: ctx_inv_def)
  with e talks_inv [OF t] show ?thesis
    unfolding ecx_detect_slaves_def by (simp add: c1(1) c2(1) c3(1) d(1))
qed

text \<open>
  The detection returns whatever the wire does. The number of slaves it finds is taken over
  only when they all fit the list; otherwise the error is reported and the number stays as it was.
\<close>

theorem detect_slaves_fit:
  assumes "ctx_inv c"
  shows "returns (ecx_detect_slaves c) (\<lambda>(r, d). ctx_inv d \<and> slavelist d = slavelist c \<and>
    (if 0 < r then slavecount d = r \<and> r < maxslave c else slavecount d = slavecount c \<and> r \<le> 0))"
  by (rule detect_slaves_returns [OF assms])

theorem detect_slaves_fit_witness:
  "\<exists>r d. ecx_detect_slaves (demo_context (demo_port []) [no_slave]) = Some (r, d) \<and> slavelist d = [no_slave]"
  using detect_slaves_fit [OF ctx_inv_demo [OF port_inv_demo_nil], where sl1 = "[no_slave]"]
  by (auto simp: returns_iff demo_context_def)

section \<open>Slaves with the same identity\<close>

lemma prev_scan:
  assumes "i \<le> k" "k < length list"
  shows "returns (do_while (prev_body k list) i) (\<lambda>r. i \<le> r \<and> r \<le> k \<and> (r < k \<longrightarrow> same_id (list ! r) (list ! k)) \<and>
    (\<forall>j. i \<le> j \<and> j < r \<longrightarrow> \<not> same_id (list ! j) (list ! k)))"
proof (rule do_while_returns [where P = "\<lambda>m. i \<le> m \<and> m \<le> k \<and> (\<forall>j. i \<le> j \<and> j < m \<longrightarrow> \<not> same_id (list ! j) (list ! k))" and f = "\<lambda>m. k - m"])
  fix m assume m: "i \<le> m \<and> m \<le> k \<and> (\<forall>j. i \<le> j \<and> j < m \<longrightarrow> \<not> same_id (list ! j) (list ! k))"
  show "returns (prev_body k list m) (\<lambda>(m', again).
      if again then (i \<le> m' \<and> m' \<le> k \<and> (\<forall>j. i \<le> j \<and> j < m' \<longrightarrow> \<not> same_id (list ! j) (list ! k))) \<and> k - m' < k - m
      else i \<le> m' \<and> m' \<le> k \<and> (m' < k \<longrightarrow> same_id (list ! m') (list ! k)) \<and> (\<forall>j. i \<le> j \<and> j < m' \<longrightarrow> \<not> same_id (list ! j) (list ! k)))"
    using m assms(2) by (auto simp: prev_body_def less_Suc_eq)
qed (use assms in auto)

text \<open>
  A slave gets its parameters from an earlier slave exactly when one has the same
  manufacturer, identity and revision; it is the first of them, and its current is added to the
  sum in entry 0.
\<close>

theorem lookup_prev_first:
  assumes "1 < slave" "unat slave < length (slavelist c)" "0 < slavecount c"
  shows "returns (ecx_lookup_prev_sii slave c) (\<lambda>(r, d). let l = slavelist c; k = unat slave in
    if \<exists>j. 1 \<le> j \<and> j < k \<and> same_id (l ! j) (l ! k)
    then r = 1 \<and> (\<exists>i. 1 \<le> i \<and> i < k \<and> same_id (l ! i) (l ! k) \<and> (\<forall>j. 1 \<le> j \<and> j < i \<longrightarrow> \<not> same_id (l ! j) (l ! k)) \<and>
      slavelist d ! k = copy_sii (l ! i) (l ! k) \<and> s_Ebuscurrent (slavelist d ! 0) = s_Ebuscurrent (l ! 0) + s_Ebuscurrent (l ! i))
    else r = 0 \<and> d = c)"
proof -
  let ?l = "slavelist c" and ?k = "unat slave"
  have k: "1 < ?k" using assms(1) by (simp add: word_less_nat_alt)
  obtain i where i: "do_while (prev_body ?k ?l) 1 = Some i" "1 \<le> i" "i \<le> ?k" "i < ?k \<longrightarrow> same_id (?l ! i) (?l ! ?k)"
      "\<forall>j. 1 \<le> j \<and> j < i \<longrightarrow> \<not> same_id (?l ! j) (?l ! ?k)"
    using prev_scan [of 1 ?k ?l] k assms(2) by (auto simp: returns_iff)
  have f: "find_prev slave c = Some (if i < ?k then Some i else None)"
    using assms(1,3) i(1) by (simp add: find_prev_def)
  show ?thesis
  proof (cases "i < ?k")
    case True
    have ne: "slavelist c \<noteq> []" using assms(2) by auto
    have "returns (ecx_lookup_prev_sii slave c) (\<lambda>(r, d). r = 1 \<and> slavelist d ! ?k = copy_sii (?l ! i) (?l ! ?k) \<and>
        s_Ebuscurrent (slavelist d ! 0) = s_Ebuscurrent (?l ! 0) + s_Ebuscurrent (?l ! i))"
      using True f k assms(2) ne by (simp add: ecx_lookup_prev_sii_def upd_slave_def get_slave_def arr_get_def)
    then show ?thesis
      using True i k by (auto simp: returns_iff Let_def)
  next
    case False
    then have "\<not> (\<exists>j. 1 \<le> j \<and> j < ?k \<and> same_id (?l ! j) (?l ! ?k))" using i(3,5) by auto
    with False f show ?thesis by (simp add: ecx_lookup_prev_sii_def)
  qed
qed

definition demo_pair :: ecx_context where
  "demo_pair = (demo_context (demo_port []) [no_slave, no_slave\<lparr>s_eep_id := 5, s_CoEdetails := 3, s_Ebuscurrent := 100\<rparr>, no_slave\<lparr>s_eep_id := 5\<rparr>])\<lparr>slavecount := 2\<rparr>"

theorem lookup_prev_first_witness:
  "\<exists>d. ecx_lookup_prev_sii 2 demo_pair = Some (1, d) \<and> s_Ebuscurrent (slavelist d ! 0) = 100"
proof -
  have l: "slavelist demo_pair = [no_slave, no_slave\<lparr>s_eep_id := 5, s_CoEdetails := 3, s_Ebuscurrent := 100\<rparr>, no_slave\<lparr>s_eep_id := 5\<rparr>]"
    "slavecount demo_pair = 2" by (simp_all add: demo_pair_def demo_context_def)
  have one: "\<exists>j. 1 \<le> j \<and> j < 2 \<and> same_id (slavelist demo_pair ! j) (slavelist demo_pair ! 2)"
    by (rule exI [of _ 1]) (simp add: l same_id_def no_slave_def)
  have i: "i = 1" if "1 \<le> i" "i < 2" for i :: nat using that by simp
  show ?thesis
    using lookup_prev_first [of 2 demo_pair] one
    by (auto simp: returns_iff Let_def l no_slave_def dest!: i)
qed

end
