(* ===== verification/ConfigMap.thy ===== *)
theory ConfigMap
  imports Config CoeInfo
begin

text \<open>
  Mapping the process data of the slaves into the IO map, the second half of
  \<^verbatim>\<open>soem/ethercatconfig.c\<close>: finding the sizes over CoE, SoE and the EEPROM, programming the sync
  managers, laying the outputs and the inputs of all slaves out over logical addresses and FMMUs,
  cutting the image into segments, and the recovery of a slave. The mapper is compiled for one
  thread (\<^verbatim>\<open>EC_MAX_MAPT\<close> is 1). The hooks \<^verbatim>\<open>PO2SOconfig\<close> and \<^verbatim>\<open>PO2SOconfigx\<close> of the application are
  one parameter. \<^verbatim>\<open>pIOmap\<close> is an offset into the bytes of the application.
\<close>

abbreviation ECT_MBXPROT_COE :: u16 where "ECT_MBXPROT_COE \<equiv> 0x0004"
abbreviation ECT_MBXPROT_SOE :: u16 where "ECT_MBXPROT_SOE \<equiv> 0x0010"
abbreviation ECT_COEDET_SDOCA :: u8 where "ECT_COEDET_SDOCA \<equiv> 0x20"
abbreviation EC_TEMPNODE :: u16 where "EC_TEMPNODE \<equiv> 0xffff"
abbreviation EC_MAXSEGMENT :: u32 where "EC_MAXSEGMENT \<equiv> 1466"

definition enc_fmmu :: "ec_fmmu \<Rightarrow> u8 list" where
  "enc_fmmu f = enc32 (LogStart f) @ enc16 (LogLength f) @ [LogStartbit f, LogEndbit f] @ enc16 (PhysStart f) @
     [PhysStartBit f, FMMUtype f, FMMUactive f, fmmu_unused1 f] @ enc16 (fmmu_unused2 f)"

definition upd_group :: "u8 \<Rightarrow> (ec_group \<Rightarrow> ec_group) \<Rightarrow> ecx_context \<Rightarrow> ecx_context option" where
  "upd_group grp f c = do {
     g \<leftarrow> get_group grp c;
     Some (c\<lparr>grouplist := (grouplist c)[unat grp := f g]\<rparr>)
   }"

section \<open>The sizes\<close>

definition copy_mapping :: "ec_slave \<Rightarrow> ec_slave \<Rightarrow> ec_slave" where
  "copy_mapping p s = s\<lparr>s_SM := map (\<lambda>(m, n). m\<lparr>SMlength := SMlength n\<rparr>) (zip (s_SM s) (s_SM p)),
     s_SMtype := s_SMtype p, s_Obits := s_Obits p, s_Ibits := s_Ibits p\<rparr>"

definition ecx_lookup_mapping :: "u16 \<Rightarrow> u32 \<Rightarrow> u32 \<Rightarrow> ecx_context \<Rightarrow> (int \<times> u32 \<times> u32 \<times> ecx_context) option" where
  "ecx_lookup_mapping slave Osize Isize c = do {
     i \<leftarrow> find_prev slave c;
     case i of
       None \<Rightarrow> Some (0, Osize, Isize, c)
     | Some i \<Rightarrow> do {
         p \<leftarrow> arr_get (slavelist c) i;
         c \<leftarrow> upd_slave slave (copy_mapping p) c;
         Some (1, ucast (s_Obits p), ucast (s_Ibits p), c)
       }
   }"

text \<open>The CoE part and the SoE part; \<open>mp\<close> and \<open>at\<close> are the local buffers of \<^verbatim>\<open>ecx_readIDNmap\<close>.\<close>

definition map_coe :: "u16 \<Rightarrow> ecx_context \<Rightarrow> (u32 \<times> u32 \<times> ecx_context) option" where
  "map_coe slave c = do {
     s \<leftarrow> get_slave slave c;
     if s_mbx_proto s AND ECT_MBXPROT_COE \<noteq> 0 then do {
       (rval, Osize, Isize, c) \<leftarrow> (if s_CoEdetails s AND ECT_COEDET_SDOCA \<noteq> 0 then ecx_readPDOmapCA slave c else Some (0, 0, 0, c));
       (_, Osize, Isize, c) \<leftarrow> (if rval = 0 then ecx_readPDOmap slave c else Some (rval, Osize, Isize, c));
       Some (Osize, Isize, c)
     } else Some (0, 0, c)
   }"

definition map_soe :: "u8 list \<Rightarrow> u8 list \<Rightarrow> u16 \<Rightarrow> ecx_context \<Rightarrow> (u32 \<times> u32 \<times> ecx_context) option" where
  "map_soe mp at slave c = do {
     (_, Osize, Isize, c) \<leftarrow> ecx_readIDNmap slave mp at c;
     c \<leftarrow> upd_slave slave (\<lambda>s. upd_SM 3 (\<lambda>m. m\<lparr>SMlength := ucast ((Isize + 7) div 8)\<rparr>)
            (upd_SM 2 (\<lambda>m. m\<lparr>SMlength := ucast ((Osize + 7) div 8)\<rparr>) s)) c;
     Some (Osize, Isize, c)
   }"

definition ecx_map_coe_soe :: "(u16 \<Rightarrow> ecx_context \<Rightarrow> ecx_context option) \<Rightarrow> u8 list \<Rightarrow> u8 list \<Rightarrow> u16 \<Rightarrow> ecx_context \<Rightarrow> ecx_context option" where
  "ecx_map_coe_soe po2so mp at slave c = do {
     (_, c) \<leftarrow> ecx_statecheck slave EC_STATE_PRE_OP EC_TIMEOUTSTATE c;
     c \<leftarrow> po2so slave c;
     s \<leftarrow> get_slave slave c;
     if s_configindex s = 0 then do {
       (Osize, Isize, c) \<leftarrow> map_coe slave c;
       s \<leftarrow> get_slave slave c;
       (Osize, Isize, c) \<leftarrow> (if Isize = 0 \<and> Osize = 0 \<and> s_mbx_proto s AND ECT_MBXPROT_SOE \<noteq> 0 then map_soe mp at slave c else Some (Osize, Isize, c));
       upd_slave slave (\<lambda>s. s\<lparr>s_Obits := ucast Osize, s_Ibits := ucast Isize\<rparr>) c
     } else Some c
   }"

text \<open>The sync managers for which the EEPROM lists PDOs get a length and the type \<open>t\<close>.\<close>

definition sii_sizes :: "ec_eepromPDO \<Rightarrow> u8 \<Rightarrow> ec_slave \<Rightarrow> ec_slave" where
  "sii_sizes P t s = fold (\<lambda>k s. if p_SMbitsize P k > 0
     then set_smtype k t (upd_SM k (\<lambda>m. m\<lparr>SMlength := of_nat (bytes_of (p_SMbitsize P k))\<rparr>) s) else s) [0..<EC_MAXSM] s"

definition clear_PDO :: ec_eepromPDO where
  "clear_PDO = \<lparr>p_Startpos = 0, p_Length = 0, p_nPDO = 0, p_Index = (\<lambda>_. 0), p_SyncM = (\<lambda>_. 0), p_BitSize = (\<lambda>_. 0), p_SMbitsize = (\<lambda>_. 0)\<rparr>"

definition ecx_map_sii :: "u16 \<Rightarrow> ecx_context \<Rightarrow> ecx_context option" where
  "ecx_map_sii slave c = do {
     s \<leftarrow> get_slave slave c;
     let Osize = (ucast (s_Obits s) :: u32);
     let Isize = (ucast (s_Ibits s) :: u32);
     (Osize, Isize, c) \<leftarrow> (if Isize = 0 \<and> Osize = 0 then do {
         (_, Osize, Isize, c) \<leftarrow> ecx_lookup_mapping slave Osize Isize c;
         Some (Osize, Isize, c)
       } else Some (Osize, Isize, c));
     (Osize, Isize, c) \<leftarrow> (if Isize = 0 \<and> Osize = 0 then do {
         (Is, P, c) \<leftarrow> ecx_siiPDO slave clear_PDO 0 c;
         c \<leftarrow> upd_slave slave (sii_sizes P 4) c;
         (Os, P, c) \<leftarrow> ecx_siiPDO slave P 1 c;
         c \<leftarrow> upd_slave slave (sii_sizes P 3) c;
         Some (ucast Os, ucast Is, c)
       } else Some (Osize, Isize, c));
     upd_slave slave (\<lambda>s. s\<lparr>s_Obits := ucast Osize, s_Ibits := ucast Isize\<rparr>) c
   }"

section \<open>The sync managers\<close>

definition write_sm :: "u16 \<Rightarrow> u16 \<Rightarrow> nat \<Rightarrow> int \<Rightarrow> ecx_context \<Rightarrow> ecx_context option" where
  "write_sm slave configadr k t c = do {
     s \<leftarrow> get_slave slave c;
     (_, c) \<leftarrow> on_port (ecx_FPWR configadr (ECT_REG_SM0 + of_nat (8 * k)) 8 (enc_sm (s_SM s ! k)) t) c;
     Some c
   }"

text \<open>The enable flag is on exactly for the sync managers with a length.\<close>

definition sm_enable :: "ec_sm \<Rightarrow> ec_sm" where
  "sm_enable m = m\<lparr>SMflags := (if SMlength m = 0 then SMflags m AND EC_SMENABLEMASK else SMflags m OR NOT EC_SMENABLEMASK)\<rparr>"

definition ecx_map_sm :: "u16 \<Rightarrow> ecx_context \<Rightarrow> ecx_context option" where
  "ecx_map_sm slave c = do {
     s \<leftarrow> get_slave slave c;
     let configadr = s_configadr s;
     c \<leftarrow> (if s_mbx_l s = 0 \<and> StartAddr (s_SM s ! 0) \<noteq> 0 then write_sm slave configadr 0 EC_TIMEOUTRET3 c else Some c);
     c \<leftarrow> (if s_mbx_l s = 0 \<and> StartAddr (s_SM s ! 1) \<noteq> 0 then write_sm slave configadr 1 EC_TIMEOUTRET3 c else Some c);
     c \<leftarrow> for_loop (EC_MAXSM - 2) 2 (\<lambda>k c. do {
       s \<leftarrow> get_slave slave c;
       if StartAddr (s_SM s ! k) \<noteq> 0 then do {
         c \<leftarrow> upd_slave slave (upd_SM k sm_enable) c;
         write_sm slave configadr k EC_TIMEOUTRET3 c
       } else Some c
     }) c;
     upd_slave slave (\<lambda>s. s\<lparr>s_Ibytes := (if s_Ibits s > 7 then of_nat (bytes_of (s_Ibits s)) else s_Ibytes s),
       s_Obytes := (if s_Obits s > 7 then of_nat (bytes_of (s_Obits s)) else s_Obytes s)\<rparr>) c
   }"

definition in_group :: "u8 \<Rightarrow> u16 \<Rightarrow> ecx_context \<Rightarrow> bool option" where
  "in_group grp slave c = do { s \<leftarrow> get_slave slave c; Some (grp = 0 \<or> grp = s_group s) }"

definition ecx_config_find_mappings :: "(u16 \<Rightarrow> ecx_context \<Rightarrow> ecx_context option) \<Rightarrow> u8 list \<Rightarrow> u8 list \<Rightarrow> u8 \<Rightarrow> ecx_context \<Rightarrow> ecx_context option" where
  "ecx_config_find_mappings po2so mp at grp c = do {
     c \<leftarrow> for_slaves (slavecount c) (\<lambda>slave c. do {
       mine \<leftarrow> in_group grp slave c;
       if mine then ecx_map_coe_soe po2so mp at slave c else Some c
     }) c;
     for_slaves (slavecount c) (\<lambda>slave c. do {
       mine \<leftarrow> in_group grp slave c;
       if mine then do { c \<leftarrow> ecx_map_sii slave c; ecx_map_sm slave c } else Some c
     }) c
   }"

section \<open>One slave over its FMMUs\<close>

text \<open>The outputs and the inputs of a slave are mapped by two copies of the same code.\<close>

datatype io_dir = Outputs | Inputs

definition dir_bits :: "io_dir \<Rightarrow> ec_slave \<Rightarrow> u16" where
  "dir_bits d s = (case d of Outputs \<Rightarrow> s_Obits s | Inputs \<Rightarrow> s_Ibits s)"

definition dir_bytes :: "io_dir \<Rightarrow> ec_slave \<Rightarrow> u32" where
  "dir_bytes d s = (case d of Outputs \<Rightarrow> s_Obytes s | Inputs \<Rightarrow> s_Ibytes s)"

definition dir_smtype :: "io_dir \<Rightarrow> u8" where
  "dir_smtype d = (case d of Outputs \<Rightarrow> 3 | Inputs \<Rightarrow> 4)"

definition dir_fmmutype :: "io_dir \<Rightarrow> u8" where
  "dir_fmmutype d = (case d of Outputs \<Rightarrow> 2 | Inputs \<Rightarrow> 1)"

definition dir_data :: "io_dir \<Rightarrow> ec_slave \<Rightarrow> nat option" where
  "dir_data d s = (case d of Outputs \<Rightarrow> s_outputs s | Inputs \<Rightarrow> s_inputs s)"

definition set_data :: "io_dir \<Rightarrow> nat \<Rightarrow> u8 \<Rightarrow> ec_slave \<Rightarrow> ec_slave" where
  "set_data d a b s = (case d of Outputs \<Rightarrow> s\<lparr>s_outputs := Some a, s_Ostartbit := b\<rparr> | Inputs \<Rightarrow> s\<lparr>s_inputs := Some a, s_Istartbit := b\<rparr>)"

definition add_wkc :: "io_dir \<Rightarrow> ec_group \<Rightarrow> ec_group" where
  "add_wkc d g = (case d of Outputs \<Rightarrow> g\<lparr>g_outputsWKC := g_outputsWKC g + 1\<rparr> | Inputs \<Rightarrow> g\<lparr>g_inputsWKC := g_inputsWKC g + 1\<rparr>)"

text \<open>The next sync manager of a type, at most the last one.\<close>

function seek_sm :: "u8 list \<Rightarrow> u8 \<Rightarrow> nat \<Rightarrow> nat" where
  "seek_sm types t k = (if k < EC_MAXSM - 1 \<and> types ! k \<noteq> t then seek_sm types t (k + 1) else k)"
  by pat_completeness auto
termination by (relation "measure (\<lambda>(types, t, k). EC_MAXSM - k)") auto

declare seek_sm.simps [simp del]

text \<open>
  Sync managers that connect share an FMMU. The state is the sync manager, the bits and the bytes
  found, both counted over all FMMUs of the slave, and the address at which the last one ends.
\<close>

type_synonym sm_span = "nat \<times> int \<times> u16 \<times> u16"

definition take_sm :: "ec_slave \<Rightarrow> nat \<Rightarrow> int \<Rightarrow> u16 \<Rightarrow> sm_span" where
  "take_sm s k BitCount ByteCount =
     (let m = s_SM s ! k in (k, BitCount + int (unat (SMlength m)) * 8, ByteCount + SMlength m, StartAddr m + SMlength m))"

definition more_body :: "io_dir \<Rightarrow> ec_slave \<Rightarrow> sm_span \<Rightarrow> (sm_span \<times> bool) option" where
  "more_body d s = (\<lambda>(SMc, BitCount, ByteCount, EndAddr).
     if BitCount < int (unat (dir_bits d s)) \<and> SMc < EC_MAXSM - 1 then
       let SMc = seek_sm (s_SMtype s) (dir_smtype d) (SMc + 1)
       in if StartAddr (s_SM s ! SMc) > EndAddr then Some ((SMc, BitCount, ByteCount, EndAddr), False)
          else Some (take_sm s SMc BitCount ByteCount, True)
     else Some ((SMc, BitCount, ByteCount, EndAddr), False))"

text \<open>A logical position: the address and the bit.\<close>

type_synonym log_pos = "u32 \<times> u8"

definition carry :: "log_pos \<Rightarrow> log_pos" where
  "carry = (\<lambda>(LogAddr, BitPos). if BitPos > 7 then (LogAddr + 1, BitPos - 8) else (LogAddr, BitPos))"

definition fmmu_bits :: "u16 \<Rightarrow> log_pos \<Rightarrow> ec_fmmu \<Rightarrow> log_pos \<times> u16 \<times> ec_fmmu" where
  "fmmu_bits bits = (\<lambda>(LogAddr, BitPos) f.
     let start = LogAddr; startbit = BitPos;
         (LogAddr, BitPos) = carry (LogAddr, BitPos + ucast (bits - 1));
         FMMUsize = ucast (LogAddr - start + 1);
         f = f\<lparr>LogStart := start, LogStartbit := startbit, LogLength := FMMUsize, LogEndbit := BitPos\<rparr>
     in (carry (LogAddr, BitPos + 1), FMMUsize, f))"

definition fmmu_bytes :: "u32 \<Rightarrow> u16 \<Rightarrow> int \<Rightarrow> log_pos \<Rightarrow> ec_fmmu \<Rightarrow> log_pos \<times> u16 \<times> ec_fmmu" where
  "fmmu_bytes bytes ByteCount FMMUdone = (\<lambda>(LogAddr, BitPos) f.
     let LogAddr = (if BitPos \<noteq> 0 then LogAddr + 1 else LogAddr);
         FMMUsize = (if int (unat ByteCount) + FMMUdone > sint bytes then ucast (bytes - of_int FMMUdone) else ByteCount)
     in ((LogAddr + ucast FMMUsize, 0), FMMUsize,
         f\<lparr>LogStart := LogAddr, LogStartbit := 0, LogLength := FMMUsize, LogEndbit := 7\<rparr>))"

text \<open>
  One FMMU. The state is the sync manager, the FMMU, the bytes done, the bits and bytes found,
  the logical position, whether an FMMU has become active, and the context.
\<close>

type_synonym map_state = "nat \<times> nat \<times> int \<times> int \<times> u16 \<times> log_pos \<times> bool \<times> ecx_context"

definition write_fmmu :: "u16 \<Rightarrow> u16 \<Rightarrow> nat \<Rightarrow> int \<Rightarrow> ecx_context \<Rightarrow> ecx_context option" where
  "write_fmmu slave configadr k t c = do {
     s \<leftarrow> get_slave slave c;
     f \<leftarrow> arr_get (s_FMMU s) k;
     (_, c) \<leftarrow> on_port (ecx_FPWR configadr (ECT_REG_FMMU0 + of_nat (16 * k)) 16 (enc_fmmu f) t) c;
     Some c
   }"

definition point_data :: "io_dir \<Rightarrow> nat \<Rightarrow> u8 \<Rightarrow> u16 \<Rightarrow> ec_fmmu \<Rightarrow> ecx_context \<Rightarrow> ecx_context option" where
  "point_data d io grp slave f c = do {
     s \<leftarrow> get_slave slave c;
     if dir_data d s = None then do {
       g \<leftarrow> get_group grp c;
       let base = (if grp \<noteq> 0 then unat (g_logstartaddr g) else 0);
       chk (base \<le> io + unat (LogStart f));
       upd_slave slave (set_data d (io + unat (LogStart f) - base) (LogStartbit f)) c
     } else Some c
   }"

definition map_fmmu_body :: "io_dir \<Rightarrow> nat \<Rightarrow> u8 \<Rightarrow> u16 \<Rightarrow> u16 \<Rightarrow> map_state \<Rightarrow> (map_state \<times> bool) option" where
  "map_fmmu_body d io grp slave configadr = (\<lambda>(SMc, FMMUc, FMMUdone, BitCount, ByteCount, pos, added, c). do {
     s \<leftarrow> get_slave slave c;
     if SMc < EC_MAXSM \<and> FMMUdone < int (bytes_of (dir_bits d s)) then do {
       f \<leftarrow> arr_get (s_FMMU s) FMMUc;
       let SMc = seek_sm (s_SMtype s) (dir_smtype d) SMc;
       let f = f\<lparr>PhysStart := StartAddr (s_SM s ! SMc)\<rparr>;
       (SMc, BitCount, ByteCount, _) \<leftarrow> do_while (more_body d s) (take_sm s SMc BitCount ByteCount);
       let (pos, FMMUsize, f) = (if dir_bytes d s = 0 then fmmu_bits (dir_bits d s) pos f
                                 else fmmu_bytes (dir_bytes d s) ByteCount FMMUdone pos f);
       let active = (LogLength f \<noteq> 0);
       let f = (if active then f\<lparr>PhysStartBit := 0, FMMUtype := dir_fmmutype d, FMMUactive := 1\<rparr> else f);
       c \<leftarrow> upd_slave slave (set_fmmu FMMUc (\<lambda>_. f)) c;
       c \<leftarrow> (if active then write_fmmu slave configadr FMMUc EC_TIMEOUTRET3 c else Some c);
       c \<leftarrow> point_data d io grp slave f c;
       Some ((SMc, FMMUc + 1, FMMUdone + int (unat FMMUsize), BitCount, ByteCount, pos, added \<or> active, c), True)
     } else Some ((SMc, FMMUc, FMMUdone, BitCount, ByteCount, pos, added, c), False)
   })"

definition free_fmmu_body :: "ec_slave \<Rightarrow> nat \<Rightarrow> (nat \<times> bool) option" where
  "free_fmmu_body s k = do {
     f \<leftarrow> arr_get (s_FMMU s) k;
     Some (if LogStart f \<noteq> 0 then (k + 1, True) else (k, False))
   }"

definition create_mappings :: "io_dir \<Rightarrow> nat \<Rightarrow> u8 \<Rightarrow> u16 \<Rightarrow> log_pos \<Rightarrow> ecx_context \<Rightarrow> (log_pos \<times> ecx_context) option" where
  "create_mappings d io grp slave pos c = do {
     chk (unat slave < 0x8000);
     s \<leftarrow> get_slave slave c;
     let configadr = s_configadr s;
     FMMUc \<leftarrow> (if d = Inputs \<and> s_Obits s \<noteq> 0 then do_while (free_fmmu_body s) (unat (s_FMMUunused s)) else Some (unat (s_FMMUunused s)));
     (_, FMMUc, _, _, _, pos, added, c) \<leftarrow> do_while (map_fmmu_body d io grp slave configadr) (0, FMMUc, 0, 0, 0, pos, False, c);
     c \<leftarrow> upd_slave slave (\<lambda>s. s\<lparr>s_FMMUunused := of_nat FMMUc\<rparr>) c;
     c \<leftarrow> (if added then upd_group grp (add_wkc d) c else Some c);
     Some (pos, c)
   }"

definition ecx_config_create_input_mappings :: "nat \<Rightarrow> u8 \<Rightarrow> u16 \<Rightarrow> log_pos \<Rightarrow> ecx_context \<Rightarrow> (log_pos \<times> ecx_context) option" where
  "ecx_config_create_input_mappings = create_mappings Inputs"

definition ecx_config_create_output_mappings :: "nat \<Rightarrow> u8 \<Rightarrow> u16 \<Rightarrow> log_pos \<Rightarrow> ecx_context \<Rightarrow> (log_pos \<times> ecx_context) option" where
  "ecx_config_create_output_mappings = create_mappings Outputs"

section \<open>A group\<close>

text \<open>
  The segments: the numbers of bytes of the frames. When all entries are used up, the last one
  stops growing.
\<close>

definition seg_add :: "u8 \<Rightarrow> u32 \<Rightarrow> nat \<times> u32 \<times> ecx_context \<Rightarrow> (nat \<times> u32 \<times> ecx_context) option" where
  "seg_add grp diff = (\<lambda>(cur, sz, c).
     if sz + diff > EC_MAXSEGMENT then do {
       g \<leftarrow> get_group grp c;
       chk (cur < length (g_IOsegment g));
       c \<leftarrow> upd_group grp (\<lambda>g. g\<lparr>g_IOsegment := (g_IOsegment g)[cur := sz]\<rparr>) c;
       if cur < EC_MAXIOSEGMENTS - 1 then Some (cur + 1, diff, c) else Some (cur, sz, c)
     } else Some (cur, sz + diff, c))"

text \<open>The state is the logical position, its last value, and the segments.\<close>

type_synonym group_state = "log_pos \<times> u32 \<times> nat \<times> u32 \<times> ecx_context"

definition map_slave :: "io_dir \<Rightarrow> nat \<Rightarrow> u8 \<Rightarrow> u16 \<Rightarrow> group_state \<Rightarrow> group_state option" where
  "map_slave d io grp slave = (\<lambda>(pos, oLogAddr, cur, sz, c). do {
     s \<leftarrow> get_slave slave c;
     if dir_bits d s \<noteq> 0 then do {
       (pos, c) \<leftarrow> create_mappings d io grp slave pos c;
       (cur, sz, c) \<leftarrow> seg_add grp (fst pos - oLogAddr) (cur, sz, c);
       Some (pos, fst pos, cur, sz, c)
     } else Some (pos, oLogAddr, cur, sz, c)
   })"

text \<open>An open byte at the end is closed.\<close>

definition close_byte :: "u8 \<Rightarrow> group_state \<Rightarrow> group_state option" where
  "close_byte grp = (\<lambda>((LogAddr, BitPos), oLogAddr, cur, sz, c).
     if BitPos \<noteq> 0 then do {
       (cur, sz, c) \<leftarrow> seg_add grp 1 (cur, sz, c);
       Some ((LogAddr + 1, 0), LogAddr + 1, cur, sz, c)
     } else Some ((LogAddr, BitPos), oLogAddr, cur, sz, c))"

text \<open>The slave is asked for SAFE_OP and counted in its group.\<close>

definition join_group :: "u8 \<Rightarrow> u16 \<Rightarrow> ecx_context \<Rightarrow> ecx_context option" where
  "join_group grp slave c = do {
     s \<leftarrow> get_slave slave c;
     let configadr = s_configadr s;
     (_, c) \<leftarrow> ecx_eeprom2pdi slave c;
     c \<leftarrow> (if manualstatechange c = 0 then do {
         (_, c) \<leftarrow> on_port (ecx_FPWRw configadr ECT_REG_ALCTL EC_STATE_SAFE_OP EC_TIMEOUTRET3) c; Some c
       } else Some c);
     s \<leftarrow> get_slave slave c;
     upd_group grp (\<lambda>g. g\<lparr>g_blockLRW := (if s_blockLRW s \<noteq> 0 then g_blockLRW g + 1 else g_blockLRW g),
       g_Ebuscurrent := g_Ebuscurrent g + s_Ebuscurrent s\<rparr>) c
   }"

definition map_outputs :: "nat \<Rightarrow> u8 \<Rightarrow> group_state \<Rightarrow> group_state option" where
  "map_outputs io grp st = do {
     st \<leftarrow> for_slaves (slavecount (snd (snd (snd (snd st))))) (\<lambda>slave (pos, oL, cur, sz, c). do {
       mine \<leftarrow> in_group grp slave c;
       if mine then map_slave Outputs io grp slave (pos, oL, cur, sz, c) else Some (pos, oL, cur, sz, c)
     }) st;
     close_byte grp st
   }"

definition map_inputs :: "nat \<Rightarrow> u8 \<Rightarrow> group_state \<Rightarrow> group_state option" where
  "map_inputs io grp st = do {
     st \<leftarrow> for_slaves (slavecount (snd (snd (snd (snd st))))) (\<lambda>slave (pos, oL, cur, sz, c). do {
       mine \<leftarrow> in_group grp slave c;
       if mine then do {
         (pos, oL, cur, sz, c) \<leftarrow> map_slave Inputs io grp slave (pos, oL, cur, sz, c);
         c \<leftarrow> join_group grp slave c;
         Some (pos, oL, cur, sz, c)
       } else Some (pos, oL, cur, sz, c)
     }) st;
     close_byte grp st
   }"

definition start_group :: "u8 \<Rightarrow> ecx_context \<Rightarrow> ecx_context option" where
  "start_group grp c = upd_group grp (\<lambda>g. g\<lparr>g_nsegments := 0, g_outputsWKC := 0, g_inputsWKC := 0\<rparr>) c"

text \<open>The outputs and the inputs as two blocks, the laying out after the sizes are found.\<close>

definition map_group_from :: "nat \<Rightarrow> u8 \<Rightarrow> u32 \<Rightarrow> ecx_context \<Rightarrow> (u32 \<times> ecx_context) option" where
  "map_group_from io grp start c = do {
     ((LogAddr, BitPos), oL, cur, sz, c) \<leftarrow> map_outputs io grp ((start, 0), start, 0, 0, c);
     c \<leftarrow> upd_group grp (\<lambda>g. g\<lparr>g_outputs := Some io, g_Obytes := LogAddr - g_logstartaddr g,
            g_nsegments := of_nat cur + 1, g_Isegment := of_nat cur, g_Ioffset := ucast sz\<rparr>) c;
     g \<leftarrow> get_group grp c;
     c \<leftarrow> (if grp = 0 then upd_slave 0 (\<lambda>s. s\<lparr>s_outputs := Some io, s_Obytes := LogAddr - g_logstartaddr g\<rparr>) c else Some c);
     ((LogAddr, BitPos), oL, cur, sz, c) \<leftarrow> map_inputs io grp ((LogAddr, BitPos), oL, cur, sz, c);
     g \<leftarrow> get_group grp c;
     chk (cur < length (g_IOsegment g));
     c \<leftarrow> upd_group grp (\<lambda>g. g\<lparr>g_IOsegment := (g_IOsegment g)[cur := sz], g_nsegments := of_nat cur + 1,
            g_inputs := Some (io + unat (g_Obytes g)), g_Ibytes := LogAddr - g_logstartaddr g - g_Obytes g\<rparr>) c;
     c \<leftarrow> (if grp = 0 then upd_slave 0 (\<lambda>s. s\<lparr>s_inputs := Some (io + unat (s_Obytes s)),
            s_Ibytes := LogAddr - g_logstartaddr g - s_Obytes s\<rparr>) c else Some c);
     Some (LogAddr - g_logstartaddr g, c)
   }"

definition ecx_config_map_group :: "(u16 \<Rightarrow> ecx_context \<Rightarrow> ecx_context option) \<Rightarrow> u8 list \<Rightarrow> u8 list \<Rightarrow> nat \<Rightarrow> u8 \<Rightarrow> ecx_context \<Rightarrow> (u32 \<times> ecx_context) option" where
  "ecx_config_map_group po2so mp at io grp c =
     (if slavecount c > 0 \<and> int (unat grp) < maxgroup c then do {
        g \<leftarrow> get_group grp c;
        c \<leftarrow> start_group grp c;
        c \<leftarrow> ecx_config_find_mappings po2so mp at grp c;
        map_group_from io grp (g_logstartaddr g) c
      } else Some (0, c))"

section \<open>A group with overlapping outputs and inputs\<close>

text \<open>The outputs and the inputs of a slave start at the same address, each with whole bytes.\<close>

definition overlap_half :: "io_dir \<Rightarrow> nat \<Rightarrow> u8 \<Rightarrow> u16 \<Rightarrow> u32 \<times> u8 \<times> ecx_context \<Rightarrow> (u32 \<times> u8 \<times> ecx_context) option" where
  "overlap_half d io grp slave = (\<lambda>(LogAddr, BitPos, c). do {
     s \<leftarrow> get_slave slave c;
     if dir_bits d s \<noteq> 0 then do {
       ((LogAddr, BitPos), c) \<leftarrow> create_mappings d io grp slave (LogAddr, BitPos) c;
       Some (if BitPos \<noteq> 0 then (LogAddr + 1, 0, c) else (LogAddr, BitPos, c))
     } else Some (LogAddr, BitPos, c)
   })"

text \<open>The state is the address, the last ends of inputs and outputs, the bit, and the segments.\<close>

type_synonym overlap_state = "u32 \<times> u32 \<times> u32 \<times> u8 \<times> nat \<times> u32 \<times> ecx_context"

definition overlap_slave :: "nat \<Rightarrow> u8 \<Rightarrow> u16 \<Rightarrow> overlap_state \<Rightarrow> overlap_state option" where
  "overlap_slave io grp slave = (\<lambda>(mLogAddr, _, _, BitPos, cur, sz, c). do {
     mine \<leftarrow> in_group grp slave c;
     if mine then do {
       (soLogAddr, BitPos, c) \<leftarrow> overlap_half Outputs io grp slave (mLogAddr, BitPos, c);
       (siLogAddr, BitPos, c) \<leftarrow> overlap_half Inputs io grp slave (mLogAddr, BitPos, c);
       let temp = (if siLogAddr > soLogAddr then siLogAddr else soLogAddr);
       (cur, sz, c) \<leftarrow> seg_add grp (temp - mLogAddr) (cur, sz, c);
       c \<leftarrow> join_group grp slave c;
       Some (temp, siLogAddr, soLogAddr, BitPos, cur, sz, c)
     } else Some (mLogAddr, mLogAddr, mLogAddr, BitPos, cur, sz, c)
   })"

definition move_inputs :: "u8 \<Rightarrow> nat \<Rightarrow> u16 \<Rightarrow> ecx_context \<Rightarrow> ecx_context option" where
  "move_inputs grp n slave c = do {
     mine \<leftarrow> in_group grp slave c;
     s \<leftarrow> get_slave slave c;
     if mine \<and> s_Ibits s > 0 then upd_slave slave (\<lambda>s. s\<lparr>s_inputs := ptr_add (s_inputs s) n\<rparr>) c else Some c
   }"

definition ecx_config_overlap_map_group :: "(u16 \<Rightarrow> ecx_context \<Rightarrow> ecx_context option) \<Rightarrow> u8 list \<Rightarrow> u8 list \<Rightarrow> nat \<Rightarrow> u8 \<Rightarrow> ecx_context \<Rightarrow> (u32 \<times> ecx_context) option" where
  "ecx_config_overlap_map_group po2so mp at io grp c =
     (if slavecount c > 0 \<and> int (unat grp) < maxgroup c then do {
        g \<leftarrow> get_group grp c;
        let start = g_logstartaddr g;
        c \<leftarrow> start_group grp c;
        c \<leftarrow> ecx_config_find_mappings po2so mp at grp c;
        (_, siLogAddr, soLogAddr, _, cur, sz, c) \<leftarrow> for_slaves (slavecount c) (overlap_slave io grp) (start, start, start, 0, 0, 0, c);
        g \<leftarrow> get_group grp c;
        chk (cur < length (g_IOsegment g));
        let Ob = soLogAddr - g_logstartaddr g;
        let Ib = siLogAddr - g_logstartaddr g;
        c \<leftarrow> upd_group grp (\<lambda>g. g\<lparr>g_IOsegment := (g_IOsegment g)[cur := sz], g_nsegments := of_nat cur + 1,
               g_Isegment := 0, g_Ioffset := 0, g_Obytes := Ob, g_Ibytes := Ib, g_outputs := Some io, g_inputs := Some (io + unat Ob)\<rparr>) c;
        c \<leftarrow> for_slaves (slavecount c) (move_inputs grp (unat Ob)) c;
        c \<leftarrow> (if grp = 0 then upd_slave 0 (\<lambda>s. s\<lparr>s_outputs := Some io, s_Obytes := Ob, s_inputs := Some (io + unat Ob), s_Ibytes := Ib\<rparr>) c else Some c);
        Some (Ob + Ib, c)
      } else Some (0, c))"

section \<open>A slave that was lost\<close>

text \<open>Is the slave at the temporary address the one that was configured?\<close>

definition same_slave :: "u16 \<Rightarrow> int \<Rightarrow> ecx_context \<Rightarrow> (bool \<times> ecx_context) option" where
  "same_slave slave t c = do {
     s \<leftarrow> get_slave slave c;
     (a, c) \<leftarrow> on_port (ecx_FPRDw EC_TEMPNODE ECT_REG_ALIAS t) c;
     if a \<noteq> s_aliasadr s then Some (False, c)
     else do {
       (v, c) \<leftarrow> ecx_readeeprom slave ECT_SII_ID EC_TIMEOUTEEP c;
       if v \<noteq> s_eep_id s then Some (False, c)
       else do {
         (v, c) \<leftarrow> ecx_readeeprom slave ECT_SII_MANUF EC_TIMEOUTEEP c;
         if v \<noteq> s_eep_man s then Some (False, c)
         else do {
           (v, c) \<leftarrow> ecx_readeeprom slave ECT_SII_REV EC_TIMEOUTEEP c;
           Some (v = s_eep_rev s, c)
         }
       }
     }
   }"

definition ecx_recover_slave :: "u16 \<Rightarrow> int \<Rightarrow> ecx_context \<Rightarrow> (int \<times> ecx_context) option" where
  "ecx_recover_slave slave t c = do {
     s \<leftarrow> get_slave slave c;
     let configadr = s_configadr s;
     let ADPh = 1 - slave;
     (wkc, b, c) \<leftarrow> on_port_buf (ecx_APRD ADPh ECT_REG_STADR 2 (enc16 0xfffe) t) c;
     if dec16 b = configadr then Some (1, c)
     else if wkc > 0 \<and> dec16 b = 0 then do {
       (_, c) \<leftarrow> on_port (ecx_FPWRw EC_TEMPNODE ECT_REG_STADR 0 0) c;
       (wkc, c) \<leftarrow> on_port (ecx_APWRw ADPh ECT_REG_STADR EC_TEMPNODE t) c;
       if wkc \<le> 0 then do {
         (_, c) \<leftarrow> on_port (ecx_FPWRw EC_TEMPNODE ECT_REG_STADR 0 0) c;
         Some (0, c)
       } else do {
         c \<leftarrow> upd_slave slave (\<lambda>s. s\<lparr>s_configadr := EC_TEMPNODE\<rparr>) c;
         (_, c) \<leftarrow> ecx_eeprom2master slave c;
         (same, c) \<leftarrow> same_slave slave t c;
         (rval, c) \<leftarrow> (if same then on_port (ecx_FPWRw EC_TEMPNODE ECT_REG_STADR configadr t) c
           else do {
             (_, c) \<leftarrow> on_port (ecx_FPWRw EC_TEMPNODE ECT_REG_STADR 0 t) c;
             Some (0, c)
           });
         c \<leftarrow> upd_slave slave (\<lambda>s. s\<lparr>s_configadr := configadr\<rparr>) c;
         Some (rval, c)
       }
     } else Some (0, c)
   }"

definition ecx_reconfig_slave :: "(u16 \<Rightarrow> ecx_context \<Rightarrow> ecx_context option) \<Rightarrow> u16 \<Rightarrow> int \<Rightarrow> ecx_context \<Rightarrow> (u16 \<times> ecx_context) option" where
  "ecx_reconfig_slave po2so slave t c = do {
     s \<leftarrow> get_slave slave c;
     let configadr = s_configadr s;
     (wkc, c) \<leftarrow> on_port (ecx_FPWRw configadr ECT_REG_ALCTL EC_STATE_INIT t) c;
     if wkc \<le> 0 then Some (0, c)
     else do {
       (_, c) \<leftarrow> ecx_eeprom2pdi slave c;
       (state, c) \<leftarrow> ecx_statecheck slave EC_STATE_INIT EC_TIMEOUTSTATE c;
       if state = EC_STATE_INIT then do {
         c \<leftarrow> for_loop EC_MAXSM 0 (\<lambda>k c. do {
           s \<leftarrow> get_slave slave c;
           if StartAddr (s_SM s ! k) \<noteq> 0 then write_sm slave configadr k t c else Some c
         }) c;
         (_, c) \<leftarrow> on_port (ecx_FPWRw configadr ECT_REG_ALCTL EC_STATE_PRE_OP t) c;
         (state, c) \<leftarrow> ecx_statecheck slave EC_STATE_PRE_OP EC_TIMEOUTSTATE c;
         if state = EC_STATE_PRE_OP then do {
           c \<leftarrow> po2so slave c;
           (_, c) \<leftarrow> on_port (ecx_FPWRw configadr ECT_REG_ALCTL EC_STATE_SAFE_OP t) c;
           (state, c) \<leftarrow> ecx_statecheck slave EC_STATE_SAFE_OP EC_TIMEOUTSTATE c;
           s \<leftarrow> get_slave slave c;
           c \<leftarrow> for_loop (unat (s_FMMUunused s)) 0 (\<lambda>k. write_fmmu slave configadr k t) c;
           Some (state, c)
         } else Some (state, c)
       } else Some (state, c)
     }
   }"

end
