(* ===== verification/MapProps.thy ===== *)
theory MapProps
  imports ConfigMap CoeProps
begin

text \<open>
  What holds of the layout of the process image: the FMMUs of a slave tile the logical addresses
  the slave is given, a slave of a few bits takes exactly these bits, the segments of a group add
  up to its image and fit into frames, and two places where the layout goes wrong.
\<close>

section \<open>What the steps leave alone\<close>

lemma on_port_ensures: "ensures (on_port f c) (\<lambda>(r, d). \<exists>p. d = c\<lparr>port := p\<rparr>)"
  by (auto simp: on_port_def ensures_iff bind_eq_Some_conv)

text \<open>The sizes of all slaves, and what the segments of a group depend on.\<close>

definition sizes :: "ecx_context \<Rightarrow> (u16 \<times> u32 \<times> u16 \<times> u32) list" where
  "sizes c = map (\<lambda>s. (s_Obits s, s_Obytes s, s_Ibits s, s_Ibytes s)) (slavelist c)"

definition seg_view :: "u8 \<Rightarrow> ecx_context \<Rightarrow> (u32 \<times> (u32 \<times> nat option \<times> u16 \<times> u16) \<times> u32 list) option" where
  "seg_view grp c = map_option (\<lambda>g. (g_logstartaddr g, (g_Obytes g, g_outputs g, g_Isegment g, g_Ioffset g), g_IOsegment g)) (get_group grp c)"

definition frames_of :: "u8 \<Rightarrow> ecx_context \<Rightarrow> ecx_context \<Rightarrow> bool" where
  "frames_of grp c d \<longleftrightarrow> sizes d = sizes c \<and> seg_view grp d = seg_view grp c \<and> slavecount d = slavecount c"

lemma frames_of_refl [simp]: "frames_of grp c c"
  by (simp add: frames_of_def)

lemma frames_of_trans [trans]: "frames_of grp a b \<Longrightarrow> frames_of grp b c \<Longrightarrow> frames_of grp a c"
  by (simp add: frames_of_def)

lemma frames_of_port [simp]: "frames_of grp c (d\<lparr>port := p\<rparr>) = frames_of grp c d"
  by (simp add: frames_of_def sizes_def seg_view_def get_group_def)

lemma sizes_upd:
  assumes "\<And>s. s_Obits (f s) = s_Obits s \<and> s_Obytes (f s) = s_Obytes s \<and> s_Ibits (f s) = s_Ibits s \<and> s_Ibytes (f s) = s_Ibytes s"
  shows "map (\<lambda>s. (s_Obits s, s_Obytes s, s_Ibits s, s_Ibytes s)) (l[k := f (l ! k)]) = map (\<lambda>s. (s_Obits s, s_Obytes s, s_Ibits s, s_Ibytes s)) l"
  by (cases "k < length l") (simp_all add: map_update assms list_update_same_conv list_update_beyond not_less)

lemma upd_slave_frames:
  assumes "frames_of grp c d" "\<And>s. s_Obits (f s) = s_Obits s \<and> s_Obytes (f s) = s_Obytes s \<and> s_Ibits (f s) = s_Ibits s \<and> s_Ibytes (f s) = s_Ibytes s"
  shows "ensures (upd_slave slave f d) (frames_of grp c)"
  using assms(1) sizes_upd [of f, OF assms(2)]
  by (auto simp: upd_slave_def get_slave_def ensures_iff bind_eq_Some_conv frames_of_def sizes_def seg_view_def get_group_def)

lemma upd_group_frames:
  assumes "frames_of grp c d"
    "\<And>g. g_logstartaddr (f g) = g_logstartaddr g \<and> g_Obytes (f g) = g_Obytes g \<and> g_outputs (f g) = g_outputs g \<and>
      g_Isegment (f g) = g_Isegment g \<and> g_Ioffset (f g) = g_Ioffset g \<and> g_IOsegment (f g) = g_IOsegment g"
  shows "ensures (upd_group grp f d) (frames_of grp c)"
  using assms
  by (auto simp: upd_group_def get_group_def ensures_iff bind_eq_Some_conv frames_of_def sizes_def seg_view_def arr_get_def split: if_splits)

lemma on_port_frames: "frames_of grp c d \<Longrightarrow> ensures (on_port f d) (\<lambda>r. frames_of grp c (snd r))"
  by (rule ensures_mono [OF on_port_ensures]) auto

lemma retry_frames: "frames_of grp c d \<Longrightarrow> ensures (retry n (on_port f) d) (\<lambda>r. frames_of grp c (snd r))"
proof (induction n arbitrary: d)
  case 0
  then show ?case by (simp add: on_port_frames)
next
  case (Suc n)
  have "ensures (on_port f d) (\<lambda>(w, e). ensures (if w \<le> 0 then retry n (on_port f) e else Some (w, e)) (\<lambda>r. frames_of grp c (snd r)))"
    by (rule ensures_mono [OF on_port_frames [OF Suc.prems]]) (auto simp: Suc.IH)
  then show ?case by (simp add: case_prod_unfold)
qed

lemma eeprom2pdi_frames: "frames_of grp c d \<Longrightarrow> ensures (ecx_eeprom2pdi slave d) (\<lambda>r. frames_of grp c (snd r))"
proof -
  assume d: "frames_of grp c d"
  have "ensures (upd_slave slave (\<lambda>s. s\<lparr>s_eep_pdi := 1\<rparr>) e) (frames_of grp c)" if "frames_of grp c e" for e
    by (rule upd_slave_frames [OF that]) simp
  then have "ensures (upd_slave slave (\<lambda>s. s\<lparr>s_eep_pdi := 1\<rparr>) e) (\<lambda>x. frames_of grp c (snd (1 :: int, x)))" if "frames_of grp c e" for e
    using that by simp
  with d show ?thesis
    by (auto simp: ecx_eeprom2pdi_def get_slave_def case_prod_unfold intro!: ensures_mono [OF retry_frames [OF d]])
qed

section \<open>One FMMU\<close>

definition slave_view :: "io_dir \<Rightarrow> u16 \<Rightarrow> ecx_context \<Rightarrow> (ec_fmmu list \<times> u16 \<times> u32) option" where
  "slave_view d slave c = map_option (\<lambda>s. (s_FMMU s, dir_bits d s, dir_bytes d s)) (get_slave slave c)"

lemma slave_view_port [simp]: "slave_view d slave (c\<lparr>port := p\<rparr>) = slave_view d slave c"
  by (simp add: slave_view_def get_slave_def)

lemma slave_view_upd:
  assumes "upd_slave slave f c = Some e"
    "\<And>s. s_FMMU (f s) = g (s_FMMU s) \<and> s_Obits (f s) = s_Obits s \<and> s_Obytes (f s) = s_Obytes s \<and> s_Ibits (f s) = s_Ibits s \<and> s_Ibytes (f s) = s_Ibytes s"
  shows "slave_view d slave e = map_option (\<lambda>(fs, b, y). (g fs, b, y)) (slave_view d slave c)"
  using assms
  by (cases d) (auto simp: upd_slave_def get_slave_def slave_view_def arr_get_def dir_bits_def dir_bytes_def bind_eq_Some_conv)

lemma write_fmmu_frames:
  assumes "write_fmmu slave configadr k t c = Some e"
  shows "frames_of grp c e" "slave_view d slave e = slave_view d slave c"
proof -
  obtain p where "e = c\<lparr>port := p\<rparr>"
    using assms by (auto simp: write_fmmu_def on_port_def bind_eq_Some_conv)
  then show "frames_of grp c e" "slave_view d slave e = slave_view d slave c" by simp_all
qed

lemma point_data_frames:
  assumes "point_data dr io grp slave f c = Some e"
  shows "frames_of grp c e" "slave_view d slave e = slave_view d slave c"
proof -
  obtain s where s: "get_slave slave c = Some s" using assms by (auto simp: point_data_def bind_eq_Some_conv)
  show "frames_of grp c e"
  proof (cases "dir_data dr s = None")
    case True
    then obtain a b where u: "upd_slave slave (set_data dr a b) c = Some e"
      using assms s by (auto simp: point_data_def bind_eq_Some_conv Let_def)
    have "ensures (upd_slave slave (set_data dr a b) c) (frames_of grp c)"
      by (rule upd_slave_frames) (auto simp: set_data_def split: io_dir.split)
    with u show ?thesis by simp
  qed (use assms s in \<open>auto simp: point_data_def\<close>)
  show "slave_view d slave e = slave_view d slave c"
  proof (cases "dir_data dr s = None")
    case True
    then obtain a b where u: "upd_slave slave (set_data dr a b) c = Some e"
      using assms s by (auto simp: point_data_def bind_eq_Some_conv Let_def)
    have "slave_view d slave e = map_option (\<lambda>(fs, b, y). (id fs, b, y)) (slave_view d slave c)"
      by (rule slave_view_upd [OF u]) (auto simp: set_data_def split: io_dir.split)
    then show ?thesis by (cases "slave_view d slave c") auto
  qed (use assms s in \<open>auto simp: point_data_def\<close>)
qed

lemma seek_sm_bound: "k < EC_MAXSM \<Longrightarrow> seek_sm types t k < EC_MAXSM"
  by (induction types t k rule: seek_sm.induct) (subst seek_sm.simps, auto)

lemma more_bound:
  assumes "k < EC_MAXSM"
  shows "ensures (do_while (more_body d s) (k, bc, yc, ea)) (\<lambda>(k', _). k' < EC_MAXSM)"
  by (rule do_while_ensures [where P = "\<lambda>(k, _). k < EC_MAXSM"])
    (use assms seek_sm_bound in \<open>auto simp: more_body_def take_sm_def Let_def\<close>)

definition lay_fmmu :: "u16 \<Rightarrow> u32 \<Rightarrow> u16 \<Rightarrow> int \<Rightarrow> log_pos \<Rightarrow> ec_fmmu \<Rightarrow> log_pos \<times> u16 \<times> ec_fmmu" where
  "lay_fmmu bits bytes yc dn pos f = (if bytes = 0 then fmmu_bits bits pos f else fmmu_bytes bytes yc dn pos f)"

lemma map_fmmu_bodyE:
  assumes st: "map_fmmu_body d io grp slave configadr (k, F, dn, bc, yc, pos, added, c) = Some (st', again)"
    and v: "slave_view d slave c = Some (fs, bits, bytes)"
  obtains (stop) "\<not> again" "st' = (k, F, dn, bc, yc, pos, added, c)" "EC_MAXSM \<le> k \<or> int (bytes_of bits) \<le> dn"
  | (go) k' bc' yc' pos' sz f0 f1 f added' c' where "again" "dn < int (bytes_of bits)" "F < length fs" "k' < EC_MAXSM"
      "lay_fmmu bits bytes yc' dn pos f0 = (pos', sz, f1)" "LogStart f = LogStart f1" "LogLength f = LogLength f1"
      "st' = (k', F + 1, dn + int (unat sz), bc', yc', pos', added', c')" "frames_of grp c c'"
      "slave_view d slave c' = Some (fs[F := f], bits, bytes)"
proof -
  obtain s where s: "get_slave slave c = Some s" "fs = s_FMMU s" "bits = dir_bits d s" "bytes = dir_bytes d s"
    using v by (auto simp: slave_view_def)
  show thesis
  proof (cases "k < EC_MAXSM \<and> dn < int (bytes_of bits)")
    case False
    with st s show thesis by (intro stop) (auto simp: map_fmmu_body_def)
  next
    case True
    then have cond: "k < EC_MAXSM" "dn < int (bytes_of (dir_bits d s))" using s by simp_all
    let ?k = "seek_sm (s_SMtype s) (dir_smtype d) k"
    obtain f k' bc' yc' ea pos' sz f1 where
      f: "arr_get (s_FMMU s) F = Some f"
      and m: "do_while (more_body d s) (take_sm s ?k bc yc) = Some (k', bc', yc', ea)"
      and l: "lay_fmmu bits bytes yc' dn pos (f\<lparr>PhysStart := StartAddr (s_SM s ! ?k)\<rparr>) = (pos', sz, f1)"
      and r: "do {
        let active = (LogLength f1 \<noteq> 0);
        let f = (if active then f1\<lparr>PhysStartBit := 0, FMMUtype := dir_fmmutype d, FMMUactive := 1\<rparr> else f1);
        c \<leftarrow> upd_slave slave (set_fmmu F (\<lambda>_. f)) c;
        c \<leftarrow> (if active then write_fmmu slave configadr F EC_TIMEOUTRET3 c else Some c);
        c \<leftarrow> point_data d io grp slave f c;
        Some ((k', F + 1, dn + int (unat sz), bc', yc', pos', added \<or> active, c), True)
      } = Some (st', again)"
    proof -
      obtain f where f: "arr_get (s_FMMU s) F = Some f"
        using st s(1) cond by (auto simp: map_fmmu_body_def bind_eq_Some_conv)
      obtain k' bc' yc' ea where m: "do_while (more_body d s) (take_sm s ?k bc yc) = Some (k', bc', yc', ea)"
        using st s(1) cond f by (auto simp: map_fmmu_body_def bind_eq_Some_conv Let_def)
      obtain pos' sz f1 where l: "lay_fmmu bits bytes yc' dn pos (f\<lparr>PhysStart := StartAddr (s_SM s ! ?k)\<rparr>) = (pos', sz, f1)"
        by (metis prod_cases3)
      show thesis
        by (rule that [OF f m l])
          (use st s cond f m l in \<open>simp add: map_fmmu_body_def lay_fmmu_def [symmetric] Let_def del: One_nat_def\<close>)
    qed
    define g where "g = (if LogLength f1 \<noteq> 0 then f1\<lparr>PhysStartBit := 0, FMMUtype := dir_fmmutype d, FMMUactive := 1\<rparr> else f1)"
    obtain c1 where c1: "upd_slave slave (set_fmmu F (\<lambda>_. g)) c = Some c1"
      using r by (auto simp: g_def [symmetric] Let_def bind_eq_Some_conv)
    obtain c2 where c2: "(if LogLength f1 \<noteq> 0 then write_fmmu slave configadr F EC_TIMEOUTRET3 c1 else Some c1) = Some c2"
      using r c1 by (auto simp: g_def [symmetric] Let_def bind_eq_Some_conv)
    obtain c3 where c3: "point_data d io grp slave g c2 = Some c3"
      using r c1 c2 by (auto simp: g_def [symmetric] Let_def bind_eq_Some_conv)
    have st': "st' = (k', F + 1, dn + int (unat sz), bc', yc', pos', added \<or> LogLength f1 \<noteq> 0, c3)" "again"
      using r c1 c2 c3 by (simp_all add: g_def [symmetric] Let_def)
    have v1: "slave_view d slave c1 = Some (fs[F := g], bits, bytes)"
      using slave_view_upd [OF c1, of "\<lambda>fs. fs[F := g]" d] v by (simp add: set_fmmu_def)
    have v2: "slave_view d slave c2 = slave_view d slave c1" "frames_of grp c1 c2"
      using c2 write_fmmu_frames by (auto split: if_splits)
    have "ensures (upd_slave slave (set_fmmu F (\<lambda>_. g)) c) (frames_of grp c)"
      by (rule upd_slave_frames) (simp_all add: set_fmmu_def)
    with c1 have f1: "frames_of grp c c1" by simp
    show thesis
    proof (rule go [OF st'(2) _ _ _ l _ _ st'(1)])
      show "dn < int (bytes_of bits)" using cond(2) s by simp
      show "F < length fs" using f s by simp
      have "seek_sm (s_SMtype s) (dir_smtype d) k < EC_MAXSM" by (rule seek_sm_bound [OF cond(1)])
      then have "ensures (do_while (more_body d s) (take_sm s ?k bc yc)) (\<lambda>(k', _). k' < EC_MAXSM)"
        unfolding take_sm_def Let_def by (rule more_bound)
      with m show "k' < EC_MAXSM" by simp
      show "LogStart g = LogStart f1" "LogLength g = LogLength f1" by (simp_all add: g_def)
      show "frames_of grp c c3"
        using f1 v2(2) point_data_frames(1) [OF c3] by (blast intro: frames_of_trans)
      show "slave_view d slave c3 = Some (fs[F := g], bits, bytes)"
        using point_data_frames(2) [OF c3] v2 v1 by simp
    qed
  qed
qed

section \<open>One slave\<close>

text \<open>The FMMUs cover the logical addresses from \<open>a\<close> to \<open>b\<close> without a gap or an overlap.\<close>

primrec tiles :: "u32 \<Rightarrow> ec_fmmu list \<Rightarrow> u32 \<Rightarrow> bool" where
  "tiles a [] b \<longleftrightarrow> a = b"
| "tiles a (f # fs) b \<longleftrightarrow> LogStart f = a \<and> tiles (a + ucast (LogLength f)) fs b"

lemma tiles_append: "tiles a (fs @ gs) b \<longleftrightarrow> (\<exists>m. tiles a fs m \<and> tiles m gs b)"
  by (induction fs arbitrary: a) auto

lemma tiles_add:
  assumes "tiles a (drop m (take F fs)) b" "m \<le> F" "F < length fs" "LogStart f = b" "LogLength f = sz"
  shows "tiles a (drop m (take (F + 1) (fs[F := f]))) (b + ucast sz)"
proof -
  have "take (F + 1) (fs[F := f]) = take F fs @ [f]"
    using assms(3) by (simp add: take_Suc_conv_app_nth)
  then show ?thesis using assms by (simp add: tiles_append)
qed

text \<open>What the layout keeps for a slave with whole bytes; \<open>a\<close> is the address of its first byte.\<close>

definition lay_inv :: "io_dir \<Rightarrow> u8 \<Rightarrow> u16 \<Rightarrow> ecx_context \<Rightarrow> u16 \<Rightarrow> log_pos \<Rightarrow> u32 \<Rightarrow> nat \<Rightarrow> map_state \<Rightarrow> bool" where
  "lay_inv d grp slave c0 bits pos0 a F0 = (\<lambda>(k, F, dn, bc, yc, pos, added, c).
     frames_of grp c0 c \<and> k < EC_MAXSM \<and> F0 \<le> F \<and> 0 \<le> dn \<and> dn \<le> int (bytes_of bits) \<and>
     (if F = F0 then dn = 0 \<and> pos = pos0 else pos = (a + of_int dn, 0)) \<and>
     (\<exists>fs. slave_view d slave c = Some (fs, bits, of_nat (bytes_of bits)) \<and> tiles a (drop F0 (take F fs)) (a + of_int dn)))"

lemma bytes_of_le: "bytes_of bits \<le> 8192"
proof -
  have "unat bits < 65536" using unsigned_less [of bits, where 'a = nat] by simp
  then show ?thesis by (simp add: bytes_of_def)
qed

lemma bytes_of_pos: "0 < bits \<Longrightarrow> 0 < bytes_of bits"
  by (simp add: bytes_of_def word_less_nat_alt div_greater_zero_iff)

lemma bytes_of_word: "n \<le> 8192 \<Longrightarrow> sint (of_nat n :: u32) = int n" "0 < n \<Longrightarrow> n \<le> 8192 \<Longrightarrow> (of_nat n :: u32) \<noteq> 0"
proof -
  assume n: "n \<le> 8192"
  then have u: "unat (of_nat n :: u32) = n" by (intro unat_of_nat_small) simp
  show "sint (of_nat n :: u32) = int n" using sint_small [of "of_nat n"] n u by simp
  show "0 < n \<Longrightarrow> (of_nat n :: u32) \<noteq> 0" using u by auto
qed

lemma lay_bytes:
  assumes "0 \<le> dn" "dn < int n" "n \<le> 8192" "fmmu_bytes (of_nat n) yc dn (L, B) f0 = (pos', sz, f1)"
  shows "dn + int (unat sz) \<le> int n" "pos' = ((if B \<noteq> 0 then L + 1 else L) + ucast sz, 0)"
    "LogStart f1 = (if B \<noteq> 0 then L + 1 else L)" "LogLength f1 = sz"
proof -
  have sn: "sint (of_nat n :: u32) = int n" by (rule bytes_of_word(1) [OF assms(3)])
  define m where "m = nat dn"
  have m: "dn = int m" "m < n" using assms(1,2) by (auto simp: m_def)
  have sz: "sz = (if int (unat yc) + dn > int n then ucast (of_nat n - of_nat m :: u32) else yc)"
    using assms(4) m(1) by (auto simp: fmmu_bytes_def Let_def sn [simplified])
  have "(of_nat n - of_nat m :: u32) = of_nat (n - m)" using m(2) by (simp add: of_nat_diff)
  then have "unat (ucast (of_nat n - of_nat m :: u32) :: u16) = n - m"
    using assms(3) by (simp add: unsigned_ucast_eq unat_of_nat_small take_bit_nat_eq_self)
  then have d: "unat sz = n - m \<or> int (unat sz) + dn \<le> int n" using sz by (auto split: if_splits)
  have e: "int (n - m) = int n - dn" using m by (simp add: of_nat_diff)
  have "dn + int (unat sz) \<le> int n" if "unat sz = n - m" using e unfolding that by linarith
  with d show "dn + int (unat sz) \<le> int n" by linarith
  show "pos' = ((if B \<noteq> 0 then L + 1 else L) + ucast sz, 0)"
    "LogStart f1 = (if B \<noteq> 0 then L + 1 else L)" "LogLength f1 = sz"
    using assms(4) by (auto simp: fmmu_bytes_def Let_def)
qed

lemma lay_step:
  assumes inv: "lay_inv d grp slave c0 bits (L, B) a F0 st" and a: "a = (if B \<noteq> 0 then L + 1 else L)" and pos: "0 < bits"
  shows "ensures (map_fmmu_body d io grp slave configadr st) (\<lambda>(st', again).
    if again then lay_inv d grp slave c0 bits (L, B) a F0 st'
    else lay_inv d grp slave c0 bits (L, B) a F0 st' \<and> (case st' of (k, F, dn, _) \<Rightarrow> dn = int (bytes_of bits) \<and> F \<noteq> F0))"
  unfolding ensures_iff
proof (intro allI impI)
  fix r assume r: "map_fmmu_body d io grp slave configadr st = Some r"
  obtain st' again where r': "r = (st', again)" by (cases r)
  obtain k F dn bc yc L1 B1 added c where st: "st = (k, F, dn, bc, yc, (L1, B1), added, c)" by (cases st) auto
  obtain fs where i: "frames_of grp c0 c" "k < EC_MAXSM" "F0 \<le> F" "0 \<le> dn" "dn \<le> int (bytes_of bits)"
      "if F = F0 then dn = 0 \<and> (L1, B1) = (L, B) else (L1, B1) = (a + of_int dn, 0)"
      "slave_view d slave c = Some (fs, bits, of_nat (bytes_of bits))" "tiles a (drop F0 (take F fs)) (a + of_int dn)"
    using inv by (auto simp: lay_inv_def st simp del: of_int_eq_iff split: if_splits)
  note n = bytes_of_pos [OF pos] bytes_of_le [of bits]
  have start: "(if B1 \<noteq> 0 then L1 + 1 else L1) = a + of_int dn" using i(6) a by (auto split: if_splits)
  from r have b: "map_fmmu_body d io grp slave configadr (k, F, dn, bc, yc, (L1, B1), added, c) = Some (st', again)"
    by (simp add: st r')
  show "case r of (st', again) \<Rightarrow> if again then lay_inv d grp slave c0 bits (L, B) a F0 st'
      else lay_inv d grp slave c0 bits (L, B) a F0 st' \<and> (case st' of (k, F, dn, _) \<Rightarrow> dn = int (bytes_of bits) \<and> F \<noteq> F0)"
    using b i(7)
  proof (cases rule: map_fmmu_bodyE)
    case stop
    then have "dn = int (bytes_of bits)" using i(2,5) by simp
    moreover from this have "F \<noteq> F0" using i(6) n(1) by auto
    ultimately show ?thesis using stop inv by (simp add: r' st)
  next
    case (go k' bc' yc' pos' sz f0 f1 f added' c')
    have l: "fmmu_bytes (of_nat (bytes_of bits)) yc' dn (L1, B1) f0 = (pos', sz, f1)"
      using go(5) bytes_of_word(2) [OF n] by (simp add: lay_fmmu_def)
    note lb = lay_bytes [OF i(4) go(2) n(2) l, unfolded start]
    have t: "tiles a (drop F0 (take (F + 1) (fs[F := f]))) (a + of_int dn + ucast sz)"
      by (rule tiles_add [OF i(8,3) go(3)]) (use lb go(6,7) in simp_all)
    have u: "a + of_int dn + ucast sz = a + of_int (dn + int (unat sz))"
    proof -
      have "(of_nat (unat sz) :: u32) = ucast sz" by (rule of_nat_unat)
      then have "(of_int (int (unat sz)) :: u32) = ucast sz" by (simp only: of_int_of_nat_eq)
      then show ?thesis by (simp only: of_int_add add.assoc)
    qed
    define dn' where "dn' = dn + int (unat sz)"
    have "pos' = (a + of_int dn', 0)" "tiles a (drop F0 (take (F + 1) (fs[F := f]))) (a + of_int dn')"
      using lb(2) t unfolding dn'_def u by simp_all
    moreover have "0 \<le> dn'" "dn' \<le> int (bytes_of bits)"
      using lb(1) i(4) by (simp_all only: dn'_def)
    ultimately have "lay_inv d grp slave c0 bits (L, B) a F0 st'"
      using go(4,10) i(3) frames_of_trans [OF i(1) go(9)]
      unfolding go(8) lay_inv_def prod.case dn'_def [symmetric] by auto
    with go(1) show ?thesis by (simp add: r')
  qed
qed

text \<open>The two ends of the layout of a slave: what is before and after the loop over its FMMUs.\<close>

lemma create_mappings_ensures:
  assumes v: "slave_view d slave c = Some (fs, bits, bytes)"
    and loop: "\<And>configadr F. ensures (do_while (map_fmmu_body d io grp slave configadr) (0, F, 0, 0, 0, pos, False, c))
      (\<lambda>(k, F', dn, bc, yc, pos', added, c'). frames_of grp c c' \<and> (\<exists>fs'. slave_view d slave c' = Some (fs', bits, bytes) \<and> Q pos' (drop F (take F' fs'))))"
  shows "ensures (create_mappings d io grp slave pos c) (\<lambda>(pos', c'). frames_of grp c c' \<and>
    (\<exists>m n fs'. slave_view d slave c' = Some (fs', bits, bytes) \<and> Q pos' (drop m (take n fs'))))"
  unfolding ensures_iff
proof (intro allI impI)
  fix r assume r: "create_mappings d io grp slave pos c = Some r"
  obtain L' B' c' where r': "r = ((L', B'), c')" by (metis prod.exhaust)
  define pos' where "pos' = (L', B')"
  obtain s :: ec_slave and F k F' dn bc yc added c1 c2 where w: "do_while (map_fmmu_body d io grp slave (s_configadr s)) (0, F, 0, 0, 0, pos, False, c) = Some (k, F', dn, bc, yc, pos', added, c1)"
    and u: "upd_slave slave (\<lambda>s. s\<lparr>s_FMMUunused := of_nat F'\<rparr>) c1 = Some c2"
    and g: "(if added then upd_group grp (add_wkc d) c2 else Some c2) = Some c'"
    using r unfolding r' create_mappings_def Let_def pos'_def by (auto simp: bind_eq_Some_conv)
  obtain fs' where f: "frames_of grp c c1" "slave_view d slave c1 = Some (fs', bits, bytes)" "Q pos' (drop F (take F' fs'))"
    using loop [of "s_configadr s" F] w by auto
  have "ensures (upd_slave slave (\<lambda>s. s\<lparr>s_FMMUunused := of_nat F'\<rparr>) c1) (frames_of grp c)"
    by (rule upd_slave_frames [OF f(1)]) simp
  with u have f2: "frames_of grp c c2" by simp
  have "ensures (upd_group grp (add_wkc d) c2) (frames_of grp c)"
    by (rule upd_group_frames [OF f2]) (simp add: add_wkc_def split: io_dir.split)
  with g f2 have fg: "frames_of grp c c'" by (auto split: if_splits)
  have "slave_view d slave c2 = slave_view d slave c1"
    using slave_view_upd [OF u, of id d] by (cases "slave_view d slave c1") auto
  moreover have "slave_view d slave c' = slave_view d slave c2"
    using g by (auto simp: upd_group_def get_group_def slave_view_def get_slave_def bind_eq_Some_conv split: if_splits)
  ultimately show "case r of (pos', c') \<Rightarrow> frames_of grp c c' \<and> (\<exists>m n fs'. slave_view d slave c' = Some (fs', bits, bytes) \<and> Q pos' (drop m (take n fs')))"
    using fg f(2,3) by (auto simp: r' pos'_def)
qed

lemma create_mappings_tile_ensures:
  assumes "slave_view d slave c = Some (fs, bits, of_nat (bytes_of bits))" "0 < bits"
  shows "ensures (create_mappings d io grp slave (L, B) c) (\<lambda>(pos', c').
    let a = (if B \<noteq> 0 then L + 1 else L); b = a + of_nat (bytes_of bits)
    in frames_of grp c c' \<and> (\<exists>m n fs'. slave_view d slave c' = Some (fs', bits, of_nat (bytes_of bits)) \<and>
         pos' = (b, 0) \<and> tiles a (drop m (take n fs')) b))"
proof -
  define a where "a = (if B \<noteq> 0 then L + 1 else L)"
  define b where "b = a + of_nat (bytes_of bits)"
  have "ensures (create_mappings d io grp slave (L, B) c) (\<lambda>(pos', c'). frames_of grp c c' \<and>
    (\<exists>m n fs'. slave_view d slave c' = Some (fs', bits, of_nat (bytes_of bits)) \<and> pos' = (b, 0) \<and> tiles a (drop m (take n fs')) b))"
  proof (rule create_mappings_ensures [OF assms(1)])
    fix configadr F
    have "ensures (do_while (map_fmmu_body d io grp slave configadr) (0, F, 0, 0, 0, (L, B), False, c))
        (\<lambda>st'. lay_inv d grp slave c bits (L, B) a F st' \<and> (case st' of (k, F', dn, _) \<Rightarrow> dn = int (bytes_of bits) \<and> F' \<noteq> F))"
    proof (rule do_while_ensures [where P = "lay_inv d grp slave c bits (L, B) a F"])
      show "lay_inv d grp slave c bits (L, B) a F (0, F, 0, 0, 0, (L, B), False, c)"
        using assms by (simp add: lay_inv_def)
      show "ensures (map_fmmu_body d io grp slave configadr st) (\<lambda>(st', again). if again then lay_inv d grp slave c bits (L, B) a F st'
          else lay_inv d grp slave c bits (L, B) a F st' \<and> (case st' of (k, F', dn, _) \<Rightarrow> dn = int (bytes_of bits) \<and> F' \<noteq> F))"
        if "lay_inv d grp slave c bits (L, B) a F st" for st
        by (rule lay_step [OF that a_def assms(2)])
    qed
    then show "ensures (do_while (map_fmmu_body d io grp slave configadr) (0, F, 0, 0, 0, (L, B), False, c))
        (\<lambda>(k, F', dn, bc, yc, pos', added, c'). frames_of grp c c' \<and> (\<exists>fs'. slave_view d slave c' = Some (fs', bits, of_nat (bytes_of bits)) \<and>
          pos' = (b, 0) \<and> tiles a (drop F (take F' fs')) b))"
      by (rule ensures_mono) (auto simp: lay_inv_def b_def)
  qed
  then show ?thesis unfolding a_def [symmetric] b_def [symmetric] Let_def .
qed

text \<open>
  A slave with whole bytes gets exactly its bytes of the process image, from the next whole
  byte on, and the FMMUs programmed for it tile these addresses without a gap or an overlap,
  over however many sync managers its data are spread.
\<close>

theorem create_mappings_tile:
  assumes "slave_view d slave c = Some (fs, bits, of_nat (bytes_of bits))" "0 < bits"
  shows "ensures (create_mappings d io grp slave (L, B) c) (\<lambda>(pos', c').
    let a = (if B \<noteq> 0 then L + 1 else L); b = a + of_nat (bytes_of bits)
    in frames_of grp c c' \<and> (\<exists>m n fs'. slave_view d slave c' = Some (fs', bits, of_nat (bytes_of bits)) \<and>
         pos' = (b, 0) \<and> tiles a (drop m (take n fs')) b))"
  by (rule create_mappings_tile_ensures [OF assms])

text \<open>A slave of at most seven bits, on a position inside a byte.\<close>

definition bit_pos :: "log_pos \<Rightarrow> nat" where
  "bit_pos p = 8 * unat (fst p) + unat (snd p)"

lemma carry_pos:
  assumes "unat B < 16" "unat L + 1 < 2 ^ 32"
  shows "bit_pos (carry (L, B)) = bit_pos (L, B)" "unat (snd (carry (L, B))) < 8" "unat L \<le> unat (fst (carry (L, B)))"
    "unat (fst (carry (L, B))) \<le> unat L + 1"
proof -
  have l: "unat (L + 1) = unat L + 1" using assms(2) by (simp add: unat_word_ariths)
  have b: "unat (B - 8) = unat B - 8" if "7 < B" using that by (simp add: unat_sub_if' word_less_nat_alt word_le_nat_alt)
  show "bit_pos (carry (L, B)) = bit_pos (L, B)" "unat (snd (carry (L, B))) < 8" "unat L \<le> unat (fst (carry (L, B)))"
    "unat (fst (carry (L, B))) \<le> unat L + 1"
    using assms(1) b l by (auto simp: bit_pos_def carry_def word_less_nat_alt)
qed

section \<open>A slave with one sync manager for a direction\<close>

lemma write_fmmu_talks:
  assumes "ctx_inv c" "get_slave slave c = Some s" "k < length (s_FMMU s)"
  shows "returns (write_fmmu slave configadr k t c) (talks c)"
proof -
  have "length (enc_fmmu f) = 16" for f by (simp add: enc_fmmu_def)
  then have "returns (on_port (ecx_FPWR configadr (ECT_REG_FMMU0 + of_nat (16 * k)) 16 (enc_fmmu (s_FMMU s ! k)) t) c) (\<lambda>(w, d). talks c d)"
    by (intro ctx_writes(1) talks_refl assms(1)) simp_all
  then show ?thesis using assms(2,3) by (auto simp: write_fmmu_def arr_get_def returns_iff)
qed

text \<open>The one FMMU such a slave gets.\<close>

definition one_fmmu :: "io_dir \<Rightarrow> ec_slave \<Rightarrow> nat \<Rightarrow> u32 \<Rightarrow> ec_fmmu \<Rightarrow> ec_fmmu" where
  "one_fmmu d s k a f = f\<lparr>LogStart := a, LogLength := of_nat (bytes_of (dir_bits d s)), LogStartbit := 0, LogEndbit := 7,
     PhysStart := StartAddr (s_SM s ! k), PhysStartBit := 0, FMMUtype := dir_fmmutype d, FMMUactive := 1\<rparr>"

text \<open>The slave has whole bytes in the sync manager \<open>k\<close>, and its next FMMU \<open>F\<close> is free.\<close>

definition one_sm :: "io_dir \<Rightarrow> ec_slave \<Rightarrow> nat \<Rightarrow> nat \<Rightarrow> bool" where
  "one_sm d s k F \<longleftrightarrow> 0 < dir_bits d s \<and> dir_bytes d s = of_nat (bytes_of (dir_bits d s)) \<and>
     k = seek_sm (s_SMtype s) (dir_smtype d) 0 \<and> bytes_of (dir_bits d s) \<le> unat (SMlength (s_SM s ! k)) \<and>
     F = unat (s_FMMUunused s) \<and> F < length (s_FMMU s) \<and> LogStart (s_FMMU s ! F) = 0 \<and> dir_data d s = None"

lemma bits_le_bytes: "unat bits \<le> 8 * bytes_of bits"
  unfolding bytes_of_def by presburger

lemma lay_one:
  assumes "0 < n" "n \<le> unat yc" "n \<le> 8192" "a = (if B \<noteq> 0 then L + 1 else L)"
  shows "fmmu_bytes (of_nat n) yc 0 (L, B) f = ((a + of_nat n, 0), of_nat n, f\<lparr>LogStart := a, LogStartbit := 0, LogLength := of_nat n, LogEndbit := 7\<rparr>)"
proof -
  have sn: "sint (of_nat n :: u32) = int n" by (rule bytes_of_word(1) [OF assms(3)])
  have u: "unat (of_nat n :: u32) = n" "unat (of_nat n :: u16) = n"
    using assms(3) by (simp_all add: unat_of_nat_small)
  have c: "(ucast (of_nat n :: u32) :: u16) = of_nat n" "(ucast (of_nat n :: u16) :: u32) = of_nat n"
    using of_nat_unat [of "of_nat n :: u32", where 'a = u16] of_nat_unat [of "of_nat n :: u16", where 'a = u32] unfolding u by simp_all
  have y: "yc = of_nat n" if "unat yc = n" using that by (metis of_nat_unat ucast_id)
  have "(if int (unat yc) + 0 > int n then ucast (of_nat n - of_int 0 :: u32) else yc) = of_nat n"
  proof -
    have "(int (unat yc) + 0 > int n) = (unat yc \<noteq> n)" using assms(2) by linarith
    then show ?thesis using y c(1) by (simp only: of_int_0 diff_zero split: if_split) blast
  qed
  then show ?thesis
    using assms(4) c(2) unfolding fmmu_bytes_def Let_def sn prod.case by simp
qed

lemma do_while_twice: "body s = Some (s', True) \<Longrightarrow> body s' = Some (s'', False) \<Longrightarrow> do_while body s = Some s''"
  by (simp add: do_while_unfold do_while_stop)

lemma upd_slave_get:
  assumes "get_slave slave c = Some s"
  obtains e where "upd_slave slave f c = Some e" "get_slave slave e = Some (f s)" "\<And>grp. get_group grp e = get_group grp c" "e = c\<lparr>slavelist := slavelist e\<rparr>"
  by (rule that [of "c\<lparr>slavelist := (slavelist c)[unat slave := f s]\<rparr>"])
    (use assms in \<open>auto simp: upd_slave_def get_slave_def get_group_def arr_get_def split: if_splits\<close>)

lemma upd_group_get:
  assumes "get_group grp c = Some g"
  obtains e where "upd_group grp f c = Some e" "get_group grp e = Some (f g)" "\<And>slave. get_slave slave e = get_slave slave c"
  by (rule that [of "c\<lparr>grouplist := (grouplist c)[unat grp := f g]\<rparr>"])
    (use assms in \<open>auto simp: upd_group_def get_group_def get_slave_def arr_get_def split: if_splits\<close>)

lemma create_mappings_returns:
  assumes inv: "ctx_inv c" and s: "get_slave slave c = Some s" and g: "get_group grp c = Some g" and low: "unat slave < 0x8000"
    and one: "one_sm d s k F" and a: "a = (if B \<noteq> 0 then L + 1 else L)"
    and base: "grp \<noteq> 0 \<longrightarrow> unat (g_logstartaddr g) \<le> io + unat a"
  shows "returns (create_mappings d io grp slave (L, B) c) (\<lambda>(pos, e). pos = (a + of_nat (bytes_of (dir_bits d s)), 0) \<and>
    (\<exists>s'. get_slave slave e = Some s' \<and> s_FMMU s' = (s_FMMU s)[F := one_fmmu d s k a (s_FMMU s ! F)] \<and> s_FMMUunused s' = of_nat (F + 1) \<and>
       dir_data d s' = Some (io + unat a - (if grp \<noteq> 0 then unat (g_logstartaddr g) else 0)) \<and>
       s_group s' = s_group s \<and> s_eep_pdi s' = s_eep_pdi s \<and> s_blockLRW s' = s_blockLRW s \<and> s_Ebuscurrent s' = s_Ebuscurrent s) \<and>
    get_group grp e = Some (add_wkc d g) \<and> manualstatechange e = manualstatechange c)"
proof -
  note o = one [unfolded one_sm_def]
  define n where "n = bytes_of (dir_bits d s)"
  have n: "0 < n" "n \<le> 8192" using o bytes_of_pos bytes_of_le by (auto simp: n_def)
  have nz: "(of_nat n :: u32) \<noteq> 0" "(of_nat n :: u16) \<noteq> 0"
    using n unat_of_nat_small [of n, where 'a = 32] unat_of_nat_small [of n, where 'a = 16] by fastforce+
  have k: "k < EC_MAXSM" using o seek_sm_bound [of 0 "s_SMtype s" "dir_smtype d"] by simp
  let ?m = "s_SM s ! k" and ?f = "one_fmmu d s k a (s_FMMU s ! F)"
  define configadr where "configadr = s_configadr s"
  have enough: "\<not> int (unat (SMlength ?m)) * 8 < int (unat (dir_bits d s))"
    using o bits_le_bytes [of "dir_bits d s"] by linarith
  have more: "do_while (more_body d s) (take_sm s k 0 0) = Some (take_sm s k 0 0)"
    using enough by (intro do_while_stop) (simp add: more_body_def take_sm_def Let_def)
  have lay: "fmmu_bytes (of_nat n) (SMlength ?m) 0 (L, B) ((s_FMMU s ! F)\<lparr>PhysStart := StartAddr ?m\<rparr>) =
      ((a + of_nat n, 0), of_nat n, (s_FMMU s ! F)\<lparr>PhysStart := StartAddr ?m, LogStart := a, LogStartbit := 0, LogLength := of_nat n, LogEndbit := 7\<rparr>)"
  proof (rule lay_one [OF n(1) _ n(2) a])
    show "n \<le> unat (SMlength ?m)" using o unfolding n_def by blast
  qed
  obtain c1 where c1: "upd_slave slave (set_fmmu F (\<lambda>_. ?f)) c = Some c1" "get_slave slave c1 = Some (set_fmmu F (\<lambda>_. ?f) s)"
      "get_group grp c1 = Some g" "c1 = c\<lparr>slavelist := slavelist c1\<rparr>"
    using upd_slave_get [OF s, of "set_fmmu F (\<lambda>_. ?f)"] g by metis
  have inv1: "ctx_inv c1" using inv by (subst c1(4)) (simp add: ctx_inv_def)
  obtain c2 where c2: "write_fmmu slave configadr F EC_TIMEOUTRET3 c1 = Some c2" "talks c1 c2"
    using write_fmmu_talks [OF inv1 c1(2), of F configadr EC_TIMEOUTRET3] o by (auto simp: returns_iff set_fmmu_def)
  have eq: "slavelist c2 = slavelist c1" "grouplist c2 = grouplist c1" using c2(2) ctx_same_eq by (auto simp: talks_def)
  have s2: "get_slave slave c2 = Some (set_fmmu F (\<lambda>_. ?f) s)" "get_group grp c2 = Some g"
    using c1(2,3) by (simp_all add: get_slave_def get_group_def eq)
  define ptr where "ptr = io + unat a - (if grp \<noteq> 0 then unat (g_logstartaddr g) else 0)"
  let ?s3 = "set_data d ptr 0 (set_fmmu F (\<lambda>_. ?f) s)"
  have dd: "dir_data d (set_fmmu F (\<lambda>_. ?f) s) = None" "dir_bits d ?s3 = dir_bits d s" "s_FMMU ?s3 = (s_FMMU s)[F := ?f]" "dir_data d ?s3 = Some ptr"
    using o by (cases d; simp add: dir_data_def set_fmmu_def dir_bits_def set_data_def)+
  obtain c3 where c3: "upd_slave slave (set_data d ptr 0) c2 = Some c3" "get_slave slave c3 = Some ?s3" "get_group grp c3 = Some g"
    using upd_slave_get [OF s2(1), of "set_data d ptr 0"] s2(2) by metis
  have pd: "point_data d io grp slave ?f c2 = Some c3"
    using s2 dd(1) base c3(1) by (simp add: point_data_def ptr_def one_fmmu_def Let_def)
  have un: "unat (of_nat n :: u16) = n" using n by (intro unat_of_nat_small) simp
  have b1: "map_fmmu_body d io grp slave configadr (0, F, 0, 0, 0, (L, B), False, c) =
      Some ((k, F + 1, int n, int (unat (SMlength ?m)) * 8, SMlength ?m, (a + of_nat n, 0), True, c3), True)"
  proof -
    have fx: "(s_FMMU s ! F)\<lparr>PhysStart := StartAddr ?m, LogStart := a, LogStartbit := 0, LogLength := of_nat n, LogEndbit := 7,
        PhysStartBit := 0, FMMUtype := dir_fmmutype d, FMMUactive := 1\<rparr> = ?f"
      by (cases "s_FMMU s ! F") (simp add: one_fmmu_def n_def)
    have w: "seek_sm (s_SMtype s) (dir_smtype d) 0 = k" "dir_bytes d s = of_nat n" "F < length (s_FMMU s)"
      using o by (simp_all add: n_def)
    show ?thesis
      using s n nz w more c1(1) c2(1) pd un
      unfolding map_fmmu_body_def n_def [symmetric] by (simp add: Let_def take_sm_def arr_get_def lay fx n_def [symmetric] del: of_nat_unat)
  qed
  have b2: "map_fmmu_body d io grp slave configadr (k, F + 1, int n, int (unat (SMlength ?m)) * 8, SMlength ?m, (a + of_nat n, 0), True, c3) =
      Some ((k, F + 1, int n, int (unat (SMlength ?m)) * 8, SMlength ?m, (a + of_nat n, 0), True, c3), False)"
    using c3(2) dd(2) unfolding map_fmmu_body_def n_def by simp
  have w: "do_while (map_fmmu_body d io grp slave configadr) (0, F, 0, 0, 0, (L, B), False, c) =
      Some (k, F + 1, int n, int (unat (SMlength ?m)) * 8, SMlength ?m, (a + of_nat n, 0), True, c3)"
    by (rule do_while_twice) (rule b1, rule b2)
  have free: "do_while (free_fmmu_body s) F = Some F"
    using o by (intro do_while_stop) (auto simp: free_fmmu_body_def arr_get_def)
  have F: "unat (s_FMMUunused s) = F" using o by simp
  obtain c4 where c4: "upd_slave slave (\<lambda>s. s\<lparr>s_FMMUunused := of_nat (F + 1)\<rparr>) c3 = Some c4"
      "get_slave slave c4 = Some (?s3\<lparr>s_FMMUunused := of_nat (F + 1)\<rparr>)" "get_group grp c4 = Some g"
    using upd_slave_get [OF c3(2), of "\<lambda>s. s\<lparr>s_FMMUunused := of_nat (F + 1)\<rparr>"] c3(3) by metis
  obtain c5 where c5: "upd_group grp (add_wkc d) c4 = Some c5" "get_slave slave c5 = get_slave slave c4" "get_group grp c5 = Some (add_wkc d g)"
    using upd_group_get [OF c4(3), of "add_wkc d"] by metis
  have "manualstatechange c1 = manualstatechange c" by (subst c1(4)) simp
  moreover have "manualstatechange c5 = manualstatechange c1"
    using c5(1) c4(1) c3(1) c2(2) by (auto simp: upd_group_def upd_slave_def bind_eq_Some_conv talks_def ctx_same_def)
  ultimately have msc: "manualstatechange c5 = manualstatechange c" by simp
  have "create_mappings d io grp slave (L, B) c = Some ((a + of_nat n, 0), c5)"
  proof -
    have "(if d = Inputs \<and> s_Obits s \<noteq> 0 then do_while (free_fmmu_body s) (unat (s_FMMUunused s)) else Some (unat (s_FMMUunused s))) = Some F"
      using free F by simp
    then show ?thesis
      using s low w c4(1) c5(1) unfolding create_mappings_def by (simp add: configadr_def [symmetric] del: if_split)
  qed
  moreover have "dir_data d (?s3\<lparr>s_FMMUunused := of_nat (F + 1)\<rparr>) = Some ptr"
    using dd(4) by (cases d; simp add: dir_data_def)
  moreover have "s_group ?s3 = s_group s \<and> s_eep_pdi ?s3 = s_eep_pdi s \<and> s_blockLRW ?s3 = s_blockLRW s \<and> s_Ebuscurrent ?s3 = s_Ebuscurrent s"
    by (cases d) (simp_all add: set_data_def set_fmmu_def)
  ultimately show ?thesis
    using c5(2,3) c4(2) dd(3) msc unfolding n_def [symmetric] ptr_def [symmetric] by simp
qed

text \<open>
  C16: a slave with whole bytes in one sync manager is mapped completely: whatever the wire does,
  the layout returns, gives the slave its bytes from the next whole byte on, enters exactly one
  FMMU for them at the address of the sync manager, and points the data of the slave to their
  place in the IO map.
\<close>

theorem create_mappings_one:
  assumes inv: "ctx_inv c" and s: "get_slave slave c = Some s" and g: "get_group grp c = Some g" and low: "unat slave < 0x8000"
    and one: "one_sm d s k F" and a: "a = (if B \<noteq> 0 then L + 1 else L)"
    and base: "grp \<noteq> 0 \<longrightarrow> unat (g_logstartaddr g) \<le> io + unat a"
  shows "returns (create_mappings d io grp slave (L, B) c) (\<lambda>(pos, e). pos = (a + of_nat (bytes_of (dir_bits d s)), 0) \<and>
    (\<exists>s'. get_slave slave e = Some s' \<and> s_FMMU s' = (s_FMMU s)[F := one_fmmu d s k a (s_FMMU s ! F)] \<and> s_FMMUunused s' = of_nat (F + 1) \<and>
       dir_data d s' = Some (io + unat a - (if grp \<noteq> 0 then unat (g_logstartaddr g) else 0))))"
  by (rule returns_mono [OF create_mappings_returns [OF assms]]) blast

text \<open>A slave with five bytes of outputs in sync manager 2, on an open byte.\<close>

definition demo_out :: ec_slave where
  "demo_out = no_slave\<lparr>s_configadr := 0x1001, s_Obits := 40, s_Obytes := 5, s_SMtype := [1, 2, 3, 4, 0, 0, 0, 0],
     s_SM := (s_SM no_slave)[2 := \<lparr>StartAddr = 0x1100, SMlength = 5, SMflags = 0x00010024\<rparr>]\<rparr>"

definition demo_map :: ecx_context where
  "demo_map = (demo_context (demo_port []) [no_slave, demo_out])\<lparr>grouplist := [no_group]\<rparr>"

lemma demo_map_inv: "ctx_inv demo_map" "get_slave 1 demo_map = Some demo_out" "get_group 0 demo_map = Some no_group"
  using ctx_inv_demo [OF port_inv_demo_nil, of "[no_slave, demo_out]"]
  by (simp_all add: demo_map_def ctx_inv_def demo_context_def get_slave_def get_group_def arr_get_def)

lemma demo_out_one: "one_sm Outputs demo_out 2 0"
  by (simp add: one_sm_def demo_out_def no_slave_def dir_bits_def dir_bytes_def dir_data_def dir_smtype_def bytes_of_def seek_sm.simps no_fmmu_def)

lemma create_mappings_one_demo: "\<exists>pos e. create_mappings Outputs 0 0 1 (7, 3) demo_map = Some (pos, e)"
proof -
  have "returns (create_mappings Outputs 0 0 1 (7, 3) demo_map) (\<lambda>_. True)"
    by (rule returns_mono [OF create_mappings_returns [OF demo_map_inv _ demo_out_one refl]]) simp_all
  then show ?thesis by (auto simp: returns_iff)
qed

theorem create_mappings_one_witness:
  "\<exists>e s'. create_mappings Outputs 0 0 1 (7, 3) demo_map = Some ((13, 0), e) \<and> get_slave 1 e = Some s' \<and> dir_data Outputs s' = Some 8"
  using create_mappings_one [OF demo_map_inv _ demo_out_one refl, where B = 3 and L = 7 and io = 0]
  by (auto simp: returns_iff demo_out_def dir_bits_def bytes_of_def)

theorem create_mappings_tile_witness:
  "\<exists>e m n fs. create_mappings Outputs 0 0 1 (7, 3) demo_map = Some ((13, 0), e) \<and> tiles 8 (drop m (take n fs)) 13"
proof -
  have v: "slave_view Outputs 1 demo_map = Some (s_FMMU demo_out, 40, of_nat (bytes_of 40))"
    by (simp add: slave_view_def demo_map_inv demo_out_def dir_bits_def dir_bytes_def bytes_of_def)
  obtain pos e where r: "create_mappings Outputs 0 0 1 (7, 3) demo_map = Some (pos, e)"
    using create_mappings_one_demo by blast
  have b: "bytes_of 40 = 5" by (simp add: bytes_of_def)
  show ?thesis
    using create_mappings_tile [OF v, of 0 0 7 3] r unfolding b by (auto simp: Let_def)
qed

section \<open>Where the layout goes wrong\<close>

text \<open>One step of the layout on any context, with everything it leaves alone in the slave.\<close>

lemma map_fmmu_step:
  assumes inv: "ctx_inv c" and s: "get_slave slave c = Some s" and g: "get_group 0 c = Some g"
    and F: "F < length (s_FMMU s)" and k: "k < EC_MAXSM" and dn: "dn < int (bytes_of (dir_bits d s))" and bytes: "dir_bytes d s \<noteq> 0"
    and more: "do_while (more_body d s) (take_sm s (seek_sm (s_SMtype s) (dir_smtype d) k) bc yc) = Some (k', bc', yc', ea)"
    and lay: "fmmu_bytes (dir_bytes d s) yc' dn pos ((s_FMMU s ! F)\<lparr>PhysStart := StartAddr (s_SM s ! seek_sm (s_SMtype s) (dir_smtype d) k)\<rparr>) = (pos', sz, f1)"
    and len: "LogLength f1 = sz"
  obtains c' s' where
    "map_fmmu_body d io 0 slave configadr (k, F, dn, bc, yc, pos, added, c) = Some ((k', F + 1, dn + int (unat sz), bc', yc', pos', added \<or> sz \<noteq> 0, c'), True)"
    "get_slave slave c' = Some s'" "get_group 0 c' = Some g" "ctx_inv c'"
    "s_FMMU s' = (s_FMMU s)[F := (if sz \<noteq> 0 then f1\<lparr>PhysStartBit := 0, FMMUtype := dir_fmmutype d, FMMUactive := 1\<rparr> else f1)]"
    "s_SM s' = s_SM s" "s_SMtype s' = s_SMtype s" "dir_bits d s' = dir_bits d s" "dir_bytes d s' = dir_bytes d s"
proof -
  let ?f = "if sz \<noteq> 0 then f1\<lparr>PhysStartBit := 0, FMMUtype := dir_fmmutype d, FMMUactive := 1\<rparr> else f1"
  let ?s1 = "set_fmmu F (\<lambda>_. ?f) s"
  obtain c1 where c1: "upd_slave slave (set_fmmu F (\<lambda>_. ?f)) c = Some c1" "get_slave slave c1 = Some ?s1"
      "get_group 0 c1 = Some g" "c1 = c\<lparr>slavelist := slavelist c1\<rparr>"
    using upd_slave_get [OF s, of "set_fmmu F (\<lambda>_. ?f)"] g by metis
  have inv1: "ctx_inv c1" using inv by (subst c1(4)) (simp add: ctx_inv_def)
  obtain c2 where c2: "(if sz \<noteq> 0 then write_fmmu slave configadr F EC_TIMEOUTRET3 c1 else Some c1) = Some c2" "talks c1 c2"
    using write_fmmu_talks [OF inv1 c1(2), of F configadr EC_TIMEOUTRET3] F talks_refl [OF inv1]
    by (cases "sz = 0") (auto simp: returns_iff set_fmmu_def)
  have eq: "slavelist c2 = slavelist c1" "grouplist c2 = grouplist c1" using c2(2) ctx_same_eq by (auto simp: talks_def)
  have s2: "get_slave slave c2 = Some ?s1" "get_group 0 c2 = Some g"
    using c1(2,3) by (simp_all add: get_slave_def get_group_def eq)
  have same: "s_SM ?s1 = s_SM s" "s_SMtype ?s1 = s_SMtype s" "dir_bits d ?s1 = dir_bits d s" "dir_bytes d ?s1 = dir_bytes d s" "s_FMMU ?s1 = (s_FMMU s)[F := ?f]"
    by (cases d; simp add: set_fmmu_def dir_bits_def dir_bytes_def)+
  obtain c3 s3 where c3: "point_data d io 0 slave ?f c2 = Some c3" "get_slave slave c3 = Some s3" "get_group 0 c3 = Some g" "ctx_inv c3"
      "s_SM s3 = s_SM s" "s_SMtype s3 = s_SMtype s" "dir_bits d s3 = dir_bits d s" "dir_bytes d s3 = dir_bytes d s" "s_FMMU s3 = (s_FMMU s)[F := ?f]"
  proof (cases "dir_data d ?s1 = None")
    case True
    let ?u = "set_data d (io + unat (LogStart ?f)) (LogStartbit ?f)"
    obtain c3 where u: "upd_slave slave ?u c2 = Some c3" "get_slave slave c3 = Some (?u ?s1)" "get_group 0 c3 = Some g" "c3 = c2\<lparr>slavelist := slavelist c3\<rparr>"
      using upd_slave_get [OF s2(1), of ?u] s2(2) by metis
    have "point_data d io 0 slave ?f c2 = Some c3" using s2 True u(1) by (simp add: point_data_def Let_def del: if_split)
    moreover have "ctx_inv c3" using talks_inv [OF c2(2)] by (subst u(4)) (simp add: ctx_inv_def)
    moreover have "s_SM (?u ?s1) = s_SM s" "s_SMtype (?u ?s1) = s_SMtype s" "dir_bits d (?u ?s1) = dir_bits d s" "dir_bytes d (?u ?s1) = dir_bytes d s"
        "s_FMMU (?u ?s1) = (s_FMMU s)[F := ?f]"
      using same by (cases d; simp add: set_data_def dir_bits_def dir_bytes_def)+
    ultimately show thesis using that u(2,3) by blast
  next
    case False
    then have "point_data d io 0 slave ?f c2 = Some c2" using s2(1) by (auto simp: point_data_def)
    then show thesis using that s2 talks_inv [OF c2(2)] same by blast
  qed
  have "map_fmmu_body d io 0 slave configadr (k, F, dn, bc, yc, pos, added, c) = Some ((k', F + 1, dn + int (unat sz), bc', yc', pos', added \<or> sz \<noteq> 0, c3), True)"
    using s F k dn bytes more lay len c1(1) c2(1) c3(1)
    unfolding map_fmmu_body_def by (simp add: Let_def arr_get_def del: of_nat_unat if_split cong: if_cong)
  then show thesis using that c3 by blast
qed

text \<open>A slave with ten bytes of outputs in three sync managers that do not connect, of 4, 2 and 4 bytes.\<close>

definition demo_three :: ec_slave where
  "demo_three = no_slave\<lparr>s_configadr := 0x1001, s_Obits := 80, s_Obytes := 10, s_SMtype := [1, 2, 3, 3, 3, 0, 0, 0],
     s_SM := (s_SM no_slave)[2 := \<lparr>StartAddr = 0x1000, SMlength = 4, SMflags = 0\<rparr>, 3 := \<lparr>StartAddr = 0x1100, SMlength = 2, SMflags = 0\<rparr>,
       4 := \<lparr>StartAddr = 0x1200, SMlength = 4, SMflags = 0\<rparr>]\<rparr>"

lemma demo_three_fields: "s_FMMU demo_three = replicate 4 no_fmmu" "dir_bits Outputs demo_three = 80" "dir_bytes Outputs demo_three = 10"
  "s_SMtype demo_three = [1, 2, 3, 3, 3, 0, 0, 0]" "s_FMMUunused demo_three = 0" "bytes_of 80 = 10"
  "s_SM demo_three ! 2 = \<lparr>StartAddr = 0x1000, SMlength = 4, SMflags = 0\<rparr>" "s_SM demo_three ! 3 = \<lparr>StartAddr = 0x1100, SMlength = 2, SMflags = 0\<rparr>"
  "s_SM demo_three ! 4 = \<lparr>StartAddr = 0x1200, SMlength = 4, SMflags = 0\<rparr>"
  by (simp_all add: demo_three_def no_slave_def dir_bits_def dir_bytes_def bytes_of_def)

lemma demo_three_seek: "seek_sm [1, 2, 3, 3, 3, 0, 0, 0] 3 0 = 2" "seek_sm [1, 2, 3, 3, 3, 0, 0, 0] 3 3 = 3" "seek_sm [1, 2, 3, 3, 3, 0, 0, 0] 3 4 = 4"
  by (simp_all add: seek_sm.simps)

text \<open>
  A slave whose outputs are in three sync managers that do not connect is mapped wrongly:
  the bytes counted for the first FMMU are counted again for the second one, which is laid over
  six bytes where its sync manager has two, and the third sync manager gets no FMMU at all.
\<close>

theorem three_areas_mismapped:
  assumes "ctx_inv c" "get_slave slave c = Some demo_three" "get_group 0 c = Some g" "unat slave < 0x8000"
  shows "returns (create_mappings Outputs io 0 slave (0, 0) c) (\<lambda>(pos, e). \<exists>s'. get_slave slave e = Some s' \<and> s_FMMUunused s' = 2 \<and>
    PhysStart (s_FMMU s' ! 1) = 0x1100 \<and> LogLength (s_FMMU s' ! 1) = 6 \<and> (\<forall>f \<in> set (s_FMMU s'). PhysStart f \<noteq> 0x1200))"
proof -
  let ?s = demo_three
  have ty: "dir_smtype Outputs = 3" by (simp add: dir_smtype_def)
  note d = demo_three_fields demo_three_seek ty
  have more: "do_while (more_body Outputs s) (take_sm s 2 0 0) = Some (3, 32, 4, 0x1004)" "do_while (more_body Outputs s) (take_sm s 3 32 4) = Some (4, 48, 6, 0x1102)"
    if "s_SM s = s_SM ?s" "s_SMtype s = s_SMtype ?s" "dir_bits Outputs s = 80" for s
    using that d by (simp_all add: take_sm_def do_while_stop more_body_def)
  let ?f0 = "no_fmmu\<lparr>PhysStart := 0x1000, LogStart := 0, LogStartbit := 0, LogLength := 4, LogEndbit := 7\<rparr>"
  have l0: "fmmu_bytes 10 4 0 (0, 0) (no_fmmu\<lparr>PhysStart := 0x1000\<rparr>) = ((4, 0), 4, ?f0)"
    by (simp add: fmmu_bytes_def no_fmmu_def)
  let ?f1 = "no_fmmu\<lparr>PhysStart := 0x1100, LogStart := 4, LogStartbit := 0, LogLength := 6, LogEndbit := 7\<rparr>"
  have l1: "fmmu_bytes 10 6 4 (4, 0) (no_fmmu\<lparr>PhysStart := 0x1100\<rparr>) = ((10, 0), 6, ?f1)"
    by (simp add: fmmu_bytes_def no_fmmu_def)
  have len: "LogLength ?f0 = 4" "LogLength ?f1 = 6" by simp_all
  define configadr where "configadr = s_configadr ?s"
  obtain c1 s1 where 1: "map_fmmu_body Outputs io 0 slave configadr (0, 0, 0, 0, 0, (0, 0), False, c) = Some ((3, 1, 4, 32, 4, (4, 0), True, c1), True)"
      "get_slave slave c1 = Some s1" "get_group 0 c1 = Some g" "ctx_inv c1" "s_FMMU s1 = (s_FMMU ?s)[0 := ?f0\<lparr>PhysStartBit := 0, FMMUtype := dir_fmmutype Outputs, FMMUactive := 1\<rparr>]"
      "s_SM s1 = s_SM ?s" "s_SMtype s1 = s_SMtype ?s" "dir_bits Outputs s1 = 80" "dir_bytes Outputs s1 = 10"
    by (rule map_fmmu_step [OF assms(1-3), where F = 0 and k = 0 and dn = 0 and d = Outputs and bc = 0 and yc = 0 and k' = 3 and bc' = 32 and yc' = 4 and ea = "0x1004"
        and pos = "(0, 0)" and pos' = "(4, 0)" and sz = 4 and ?f1.0 = ?f0 and io = io and configadr = configadr and added = False])
      (use d more [of ?s] l0 len in auto)
  obtain c2 s2 where 2: "map_fmmu_body Outputs io 0 slave configadr (3, 1, 4, 32, 4, (4, 0), True, c1) = Some ((4, 2, 10, 48, 6, (10, 0), True, c2), True)"
      "get_slave slave c2 = Some s2" "get_group 0 c2 = Some g" "s_FMMU s2 = (s_FMMU s1)[1 := ?f1\<lparr>PhysStartBit := 0, FMMUtype := dir_fmmutype Outputs, FMMUactive := 1\<rparr>]"
      "dir_bits Outputs s2 = 80"
    by (rule map_fmmu_step [OF 1(4,2,3), where F = 1 and k = 3 and dn = 4 and d = Outputs and bc = 32 and yc = 4 and k' = 4 and bc' = 48 and yc' = 6 and ea = "0x1102"
        and pos = "(4, 0)" and pos' = "(10, 0)" and sz = 6 and ?f1.0 = ?f1 and io = io and configadr = configadr and added = True])
      (use d more [of s1] l1 len 1 in auto)
  have 3: "map_fmmu_body Outputs io 0 slave configadr (4, 2, 10, 48, 6, (10, 0), True, c2) = Some ((4, 2, 10, 48, 6, (10, 0), True, c2), False)"
    using 2(2,5) d by (simp add: map_fmmu_body_def)
  have w: "do_while (map_fmmu_body Outputs io 0 slave configadr) (0, 0, 0, 0, 0, (0, 0), False, c) = Some (4, 2, 10, 48, 6, (10, 0), True, c2)"
    using do_while_unfold [where body = "map_fmmu_body Outputs io 0 slave configadr", OF 1(1)]
      do_while_twice [where body = "map_fmmu_body Outputs io 0 slave configadr", OF 2(1) 3] by simp
  obtain c4 where c4: "upd_slave slave (\<lambda>s. s\<lparr>s_FMMUunused := 2\<rparr>) c2 = Some c4" "get_slave slave c4 = Some (s2\<lparr>s_FMMUunused := 2\<rparr>)" "get_group 0 c4 = Some g"
    using upd_slave_get [OF 2(2), of "\<lambda>s. s\<lparr>s_FMMUunused := 2\<rparr>"] 2(3) by metis
  obtain c5 where c5: "upd_group 0 (add_wkc Outputs) c4 = Some c5" "get_slave slave c5 = get_slave slave c4"
    using upd_group_get [OF c4(3), of "add_wkc Outputs"] by metis
  have "create_mappings Outputs io 0 slave (0, 0) c = Some ((10, 0), c5)"
    using assms w c4(1) c5(1) d(5) unfolding create_mappings_def by (simp add: configadr_def)
  moreover have "s_FMMU s2 = [?f0\<lparr>PhysStartBit := 0, FMMUtype := dir_fmmutype Outputs, FMMUactive := 1\<rparr>,
      ?f1\<lparr>PhysStartBit := 0, FMMUtype := dir_fmmutype Outputs, FMMUactive := 1\<rparr>, no_fmmu, no_fmmu]"
    using 1(5) 2(4) d(1) by (simp add: numeral_eq_Suc)
  ultimately show ?thesis using c4(2) c5(2) by (simp add: no_fmmu_def)
qed

theorem three_areas_mismapped_witness:
  "\<exists>pos e s'. create_mappings Outputs 0 0 1 (0, 0) ((demo_context (demo_port []) [no_slave, demo_three])\<lparr>grouplist := [no_group]\<rparr>) = Some (pos, e) \<and>
     get_slave 1 e = Some s' \<and> LogLength (s_FMMU s' ! 1) = 6"
proof -
  let ?c = "(demo_context (demo_port []) [no_slave, demo_three])\<lparr>grouplist := [no_group]\<rparr>"
  have "ctx_inv ?c" "get_slave 1 ?c = Some demo_three" "get_group 0 ?c = Some no_group"
    using ctx_inv_demo [OF port_inv_demo_nil, of "[no_slave, demo_three]"]
    by (simp_all add: ctx_inv_def demo_context_def get_slave_def get_group_def arr_get_def)
  from three_areas_mismapped [OF this, where io = 0] show ?thesis by (auto simp: returns_iff)
qed

end
