(* ===== verification/SegProps.thy ===== *)
theory SegProps
  imports MapProps
begin

text \<open>
  What holds of the image of a whole group: a slave of a few bits takes exactly these bits, and
  the segments into which the image is cut add up to it and fit into frames.
\<close>

section \<open>A slave of a few bits\<close>

definition after_bits :: "u16 \<Rightarrow> log_pos \<Rightarrow> log_pos" where
  "after_bits bits = (\<lambda>(L, B). if unat B + unat bits < 8 then (L, B + ucast bits) else (L + 1, B + ucast bits - 8))"

lemma small_words:
  "unat (B :: u8) \<le> 7 \<Longrightarrow> B \<in> {0, 1, 2, 3, 4, 5, 6, 7}" "0 < bits \<Longrightarrow> bits \<le> 7 \<Longrightarrow> (bits :: u16) \<in> {1, 2, 3, 4, 5, 6, 7}"
proof -
  assume "unat B \<le> 7"
  then have "unat B = 0 \<or> unat B = 1 \<or> unat B = 2 \<or> unat B = 3 \<or> unat B = 4 \<or> unat B = 5 \<or> unat B = 6 \<or> unat B = 7" by arith
  then show "B \<in> {0, 1, 2, 3, 4, 5, 6, 7}" by (auto simp: word_unat_eq_iff)
next
  assume "0 < bits" "bits \<le> 7"
  then have "0 < unat bits" "unat bits \<le> 7" by (simp_all add: word_less_nat_alt word_le_nat_alt)
  then have "unat bits = 1 \<or> unat bits = 2 \<or> unat bits = 3 \<or> unat bits = 4 \<or> unat bits = 5 \<or> unat bits = 6 \<or> unat bits = 7" by arith
  then show "bits \<in> {1, 2, 3, 4, 5, 6, 7}" by (auto simp: word_unat_eq_iff)
qed

lemma fmmu_bits_after:
  assumes "unat B \<le> 7" "0 < bits" "bits \<le> 7" "fmmu_bits bits (L, B) f = (pos', sz, f1)"
  shows "pos' = after_bits bits (L, B)" "0 < unat sz" "unat (snd pos') \<le> 7"
proof -
  have "pos' = after_bits bits (L, B) \<and> 0 < unat sz \<and> unat (snd pos') \<le> 7"
    using small_words(1) [OF assms(1)] small_words(2) [OF assms(2,3)] assms(4)
    by (elim insertE emptyE) (auto simp: fmmu_bits_def after_bits_def carry_def Let_def)
  then show "pos' = after_bits bits (L, B)" "0 < unat sz" "unat (snd pos') \<le> 7" by blast+
qed

lemma bytes_of_few: "0 < bits \<Longrightarrow> bits \<le> 7 \<Longrightarrow> bytes_of bits = 1"
  using small_words(2) [of bits] by (auto simp: bytes_of_def)

lemma create_mappings_bits:
  assumes v: "slave_view d slave c = Some (fs, bits, 0)" and b: "0 < bits" "bits \<le> 7" "unat B \<le> 7"
  shows "ensures (create_mappings d io grp slave (L, B) c) (\<lambda>(pos', c'). frames_of grp c c' \<and> pos' = after_bits bits (L, B) \<and> unat (snd pos') \<le> 7)"
proof -
  have "ensures (create_mappings d io grp slave (L, B) c) (\<lambda>(pos', c'). frames_of grp c c' \<and>
    (\<exists>(m :: nat) (n :: nat) fs'. slave_view d slave c' = Some (fs', bits, 0) \<and> pos' = after_bits bits (L, B) \<and> unat (snd pos') \<le> 7))"
  proof (rule create_mappings_ensures [OF v, where Q = "\<lambda>pos' _. pos' = after_bits bits (L, B) \<and> unat (snd pos') \<le> 7"])
    fix configadr F
    let ?P = "\<lambda>(k :: nat, F' :: nat, dn :: int, bc :: int, yc :: u16, pos :: log_pos, added :: bool, c'). frames_of grp c c' \<and> (\<exists>fs'. slave_view d slave c' = Some (fs', bits, 0)) \<and> k < EC_MAXSM \<and>
      (if dn < 1 then dn = 0 \<and> pos = (L, B) else pos = after_bits bits (L, B) \<and> unat (snd pos) \<le> 7)"
    have "ensures (do_while (map_fmmu_body d io grp slave configadr) (0, F, 0, 0, 0, (L, B), False, c))
        (\<lambda>st. ?P st \<and> (case st of (k, F', dn, _) \<Rightarrow> \<not> dn < 1))"
    proof (rule do_while_ensures [where P = ?P])
      fix st :: map_state assume st: "?P st"
      obtain k F' dn bc yc pos added c1 where e: "st = (k, F', dn, bc, yc, pos, added, c1)" by (cases st) auto
      obtain fs' where i: "frames_of grp c c1" "slave_view d slave c1 = Some (fs', bits, 0)" "k < EC_MAXSM"
          "if dn < 1 then dn = 0 \<and> pos = (L, B) else pos = after_bits bits (L, B) \<and> unat (snd pos) \<le> 7"
        using st e by auto
      show "ensures (map_fmmu_body d io grp slave configadr st) (\<lambda>(st', again). if again then ?P st' else ?P st' \<and> (case st' of (k, F', dn, _) \<Rightarrow> \<not> dn < 1))"
        unfolding ensures_iff
      proof (intro allI impI)
        fix r assume r: "map_fmmu_body d io grp slave configadr st = Some r"
        obtain st' again where r': "r = (st', again)" by (cases r)
        have "map_fmmu_body d io grp slave configadr (k, F', dn, bc, yc, pos, added, c1) = Some (st', again)" using r e r' by simp
        then show "case r of (st', again) \<Rightarrow> if again then ?P st' else ?P st' \<and> (case st' of (k, F', dn, _) \<Rightarrow> \<not> dn < 1)"
          using i(2)
        proof (cases rule: map_fmmu_bodyE)
          case stop
          have "int (bytes_of bits) \<le> dn" using stop(3) i(3) by simp
          then have "\<not> dn < 1" using bytes_of_few [OF b(1,2)] by simp
          with stop(1,2) st show ?thesis unfolding r' e by auto
        next
          case (go k' bc' yc' pos' sz f0 f1 f added' c')
          have dn: "dn = 0" "pos = (L, B)" using go(2) i(4) bytes_of_few [OF b(1,2)] by (auto split: if_splits)
          have "fmmu_bits bits (L, B) f0 = (pos', sz, f1)" using go(5) dn(2) by (simp add: lay_fmmu_def)
          note fa = fmmu_bits_after [OF b(3,1,2) this]
          have "\<not> int (unat sz) < 1" using fa(2) by linarith
          with fa frames_of_trans [OF i(1) go(9)] go(1,4,10) show ?thesis
            unfolding r' go(8) dn by simp
        qed
      qed
    qed (use v in simp)
    then show "ensures (do_while (map_fmmu_body d io grp slave configadr) (0, F, 0, 0, 0, (L, B), False, c))
        (\<lambda>(k, F', dn, bc, yc, pos', added, c'). frames_of grp c c' \<and> (\<exists>fs'. slave_view d slave c' = Some (fs', bits, 0) \<and>
          pos' = after_bits bits (L, B) \<and> unat (snd pos') \<le> 7))"
      by (rule ensures_mono) (auto, metis snd_conv)
  qed
  then show ?thesis by (rule ensures_mono) auto
qed

section \<open>Segments\<close>

lemma for_slaves_ensures:
  assumes "P s" "\<And>slave s. slave \<noteq> 0 \<Longrightarrow> P s \<Longrightarrow> ensures (body slave s) P"
  shows "ensures (for_slaves n body s) P"
proof (cases "n < 0xffff")
  case True
  have "(of_nat i :: u16) \<noteq> 0" if "1 \<le> i" "i < 1 + nat n" for i
  proof
    assume "(of_nat i :: u16) = 0"
    moreover have "unat (of_nat i :: u16) = i" using that True by (intro unat_of_nat_u16) linarith
    ultimately show False using that by simp
  qed
  then show ?thesis
    using assms for_loop_ensures [of "\<lambda>_. P" 1 s "nat n" "\<lambda>i. body (of_nat i)"] by (simp add: for_slaves_def)
qed (simp add: for_slaves_def)

text \<open>
  What the bytes of all slaves of the list must be for their frames to be filled properly: whole
  bytes from eight bits on, and few enough for one frame.
\<close>

definition fits_frame :: "u16 \<Rightarrow> u32 \<Rightarrow> bool" where
  "fits_frame bits bytes \<longleftrightarrow> bits \<le> 11720 \<and> bytes = (if bits > 7 then of_nat (bytes_of bits) else 0)"

definition all_fit :: "ecx_context \<Rightarrow> bool" where
  "all_fit c \<longleftrightarrow> (\<forall>(ob, oy, ib, iy) \<in> set (tl (sizes c)). fits_frame ob oy \<and> fits_frame ib iy)"

lemma all_fit_frames: "frames_of grp c d \<Longrightarrow> all_fit d = all_fit c"
  by (simp add: all_fit_def frames_of_def)

lemma tl_memI: "0 < n \<Longrightarrow> n < length xs \<Longrightarrow> xs ! n \<in> set (tl xs)"
  by (cases xs; cases n) auto

lemma all_fit_slave:
  assumes "all_fit c" "get_slave slave c = Some s" "slave \<noteq> 0"
  shows "fits_frame (dir_bits d s) (dir_bytes d s)"
proof -
  have k: "unat slave < length (slavelist c)" "s = slavelist c ! unat slave"
    using assms(2) by (auto simp: get_slave_def arr_get_def split: if_splits)
  have "0 < unat slave" using assms(3) by (simp add: unat_gt_0)
  then have "sizes c ! unat slave \<in> set (tl (sizes c))" using k(1) by (intro tl_memI) (auto simp: sizes_def)
  then have "(s_Obits s, s_Obytes s, s_Ibits s, s_Ibytes s) \<in> set (tl (sizes c))" using k by (simp add: sizes_def)
  with assms(1) show ?thesis by (cases d) (auto simp: all_fit_def dir_bits_def dir_bytes_def)
qed

lemma bytes_of_fit: "bits \<le> 11720 \<Longrightarrow> bytes_of bits \<le> 1465"
proof -
  assume "bits \<le> 11720"
  then have "unat bits \<le> 11720" by (simp add: word_le_nat_alt)
  then show ?thesis unfolding bytes_of_def by presburger
qed

text \<open>A slave moves the position by at most one frame.\<close>

lemma create_mappings_moves:
  assumes s: "get_slave slave c = Some s" "slave \<noteq> 0" and fit: "all_fit c" and nz: "dir_bits d s \<noteq> 0" and B: "unat B \<le> 7"
  shows "ensures (create_mappings d io grp slave (L, B) c) (\<lambda>(pos', c'). frames_of grp c c' \<and> unat (snd pos') \<le> 7 \<and> fst pos' - L \<le> EC_MAXSEGMENT)"
proof -
  note ff = all_fit_slave [OF fit s, of d, unfolded fits_frame_def]
  have pos: "0 < dir_bits d s" using nz by (simp add: word_greater_zero_iff)
  show ?thesis
  proof (cases "dir_bits d s > 7")
    case True
    have v: "slave_view d slave c = Some (s_FMMU s, dir_bits d s, of_nat (bytes_of (dir_bits d s)))"
      using s ff True by (simp add: slave_view_def)
    let ?n = "bytes_of (dir_bits d s)"
    have n: "?n \<le> 1465" using ff bytes_of_fit by blast
    have u: "unat (of_nat ?n :: u32) = ?n" using n by (intro unat_of_nat_small) simp
    have u1: "unat (of_nat (?n + 1) :: u32) = ?n + 1" using n by (intro unat_of_nat_small) simp
    have e1: "(of_nat ?n + 1 :: u32) = of_nat (?n + 1)" by (simp only: of_nat_add of_nat_1)
    have "unat (of_nat ?n :: u32) \<le> unat EC_MAXSEGMENT" "unat (of_nat ?n + 1 :: u32) \<le> unat EC_MAXSEGMENT"
      unfolding u e1 u1 using n by simp_all
    then have le: "(of_nat ?n :: u32) \<le> EC_MAXSEGMENT" "(of_nat ?n + 1 :: u32) \<le> EC_MAXSEGMENT"
      unfolding word_le_nat_alt by blast+
    show ?thesis
    proof (rule ensures_mono [OF create_mappings_tile_ensures [OF v pos]])
      fix r :: "log_pos \<times> ecx_context" assume "case r of (pos', c') \<Rightarrow> let a = (if B \<noteq> 0 then L + 1 else L); b = a + of_nat ?n in frames_of grp c c' \<and>
        (\<exists>m n fs'. slave_view d slave c' = Some (fs', dir_bits d s, of_nat ?n) \<and> pos' = (b, 0) \<and> tiles a (drop m (take n fs')) b)"
      then have r: "frames_of grp c (snd r)" "fst r = ((if B \<noteq> 0 then L + 1 else L) + of_nat ?n, 0)"
        by (auto simp: Let_def split_beta)
      have "(if B \<noteq> 0 then L + 1 else L) + of_nat ?n - L \<le> EC_MAXSEGMENT"
      proof (cases "B = 0")
        case False
        have "L + 1 + of_nat ?n - L = of_nat ?n + 1" by (simp add: algebra_simps)
        with False le(2) show ?thesis by (simp only: if_True not_False_eq_True)
      qed (use le(1) in simp)
      with r show "case r of (pos', c') \<Rightarrow> frames_of grp c c' \<and> unat (snd pos') \<le> 7 \<and> fst pos' - L \<le> EC_MAXSEGMENT"
        by (simp add: split_beta)
    qed
  next
    case False
    then have v: "slave_view d slave c = Some (s_FMMU s, dir_bits d s, 0)"
      using s ff by (simp add: slave_view_def)
    show ?thesis
      by (rule ensures_mono [OF create_mappings_bits [OF v pos _ B]]) (use False in \<open>auto simp: after_bits_def split: if_splits\<close>)
  qed
qed

text \<open>
  The segments up to the current one and the bytes collected for it add up to the bytes laid out
  so far, and each fits into a frame, as long as the table is not full.
\<close>

definition segs :: "u8 \<Rightarrow> u32 \<Rightarrow> u32 \<times> nat option \<times> u16 \<times> u16 \<Rightarrow> u32 list \<Rightarrow> u32 \<Rightarrow> nat \<times> u32 \<times> ecx_context \<Rightarrow> bool" where
  "segs grp start x pre L = (\<lambda>(cur, sz, c). cur < EC_MAXIOSEGMENTS \<and> (\<exists>seg. seg_view grp c = Some (start, x, seg) \<and> (cur < EC_MAXIOSEGMENTS - 1 \<longrightarrow>
     cur \<le> length seg \<and> (\<exists>post. take cur seg = pre @ post) \<and> sz \<le> EC_MAXSEGMENT \<and> (\<forall>y \<in> set (take cur seg). y \<le> EC_MAXSEGMENT) \<and>
     sum_list (take cur seg) + sz = L - start)))"

lemma segs_frames: "frames_of grp c d \<Longrightarrow> segs grp start x pre L (cur, sz, d) = segs grp start x pre L (cur, sz, c)"
  by (simp add: segs_def frames_of_def)

lemma seg_add_segs:
  assumes "segs grp start x pre L (cur, sz, c)" "diff \<le> EC_MAXSEGMENT" "L' = L + diff"
  shows "ensures (seg_add grp diff (cur, sz, c)) (\<lambda>(cur', sz', c'). segs grp start x pre L' (cur', sz', c') \<and> sizes c' = sizes c \<and> slavecount c' = slavecount c)"
proof -
  obtain seg where cur: "cur < EC_MAXIOSEGMENTS" and v: "seg_view grp c = Some (start, x, seg)"
    and i: "cur < EC_MAXIOSEGMENTS - 1 \<Longrightarrow> cur \<le> length seg \<and> (\<exists>post. take cur seg = pre @ post) \<and> sz \<le> EC_MAXSEGMENT \<and> (\<forall>y \<in> set (take cur seg). y \<le> EC_MAXSEGMENT) \<and>
     sum_list (take cur seg) + sz = L - start"
    using assms(1) by (auto simp: segs_def)
  have L': "L' - start = (L - start) + diff" using assms(3) by simp
  show ?thesis
  proof (cases "sz + diff > EC_MAXSEGMENT")
    case False
    then show ?thesis
      using cur v i L' by (auto simp: seg_add_def segs_def add.assoc)
  next
    case True
    obtain g where g: "get_group grp c = Some g" "g_IOsegment g = seg" using v by (auto simp: seg_view_def)
    show ?thesis
      unfolding ensures_iff
    proof (intro allI impI)
      fix r assume r: "seg_add grp diff (cur, sz, c) = Some r"
      let ?f = "\<lambda>g :: ec_group. g\<lparr>g_IOsegment := (g_IOsegment g)[cur := sz]\<rparr>"
      obtain e where e: "cur < length seg" "upd_group grp ?f c = Some e"
          "r = (if cur < EC_MAXIOSEGMENTS - 1 then (cur + 1, diff, e) else (cur, sz, e))"
        using r True g by (auto simp: seg_add_def bind_eq_Some_conv chk_def split: if_splits)
      have ge: "get_group grp e = Some (?f g)"
        by (rule upd_group_get [OF g(1), where f = ?f]) (use e(2) in simp)
      have ve: "seg_view grp e = Some (start, x, seg[cur := sz])" using v ge g by (simp add: seg_view_def)
      have se: "sizes e = sizes c" "slavecount e = slavecount c"
        using e(2) by (auto simp: upd_group_def bind_eq_Some_conv sizes_def)
      have t: "take (Suc cur) (seg[cur := sz]) = take cur seg @ [sz]"
        using e(1) by (simp add: take_Suc_conv_app_nth)
      show "case r of (cur', sz', c') \<Rightarrow> segs grp start x pre L' (cur', sz', c') \<and> sizes c' = sizes c \<and> slavecount c' = slavecount c"
      proof (cases "cur < EC_MAXIOSEGMENTS - 1")
        case True
        have "segs grp start x pre L' (cur + 1, diff, e)"
          using i [OF True] True e(1) assms(2) L' unfolding segs_def by (auto simp: ve t)
        with True e(3) se show ?thesis by simp
      next
        case False
        with e(3) se ve cur show ?thesis by (simp add: segs_def)
      qed
    qed
  qed
qed

text \<open>The invariant of the passes over the slaves of a group.\<close>

definition pass_inv :: "u8 \<Rightarrow> u32 \<Rightarrow> u32 \<times> nat option \<times> u16 \<times> u16 \<Rightarrow> u32 list \<Rightarrow> group_state \<Rightarrow> bool" where
  "pass_inv grp start x pre = (\<lambda>(pos, oL, cur, sz, c). all_fit c \<and> oL = fst pos \<and> unat (snd pos) \<le> 7 \<and> segs grp start x pre oL (cur, sz, c))"

lemma all_fit_cong: "sizes d = sizes c \<Longrightarrow> all_fit d = all_fit c"
  by (simp add: all_fit_def)

lemma map_slave_pass:
  assumes "slave \<noteq> 0" "pass_inv grp start x pre st"
  shows "ensures (map_slave d io grp slave st) (pass_inv grp start x pre)"
proof -
  obtain L B oL cur sz c where st: "st = ((L, B), oL, cur, sz, c)" by (cases st) auto
  have i: "all_fit c" "oL = L" "unat B \<le> 7" "segs grp start x pre L (cur, sz, c)"
    using assms(2) by (auto simp: st pass_inv_def)
  show ?thesis
  proof (cases "get_slave slave c")
    case (Some s)
    show ?thesis
    proof (cases "dir_bits d s = 0")
      case True
      with Some assms(2) show ?thesis by (simp add: st map_slave_def)
    next
      case nz: False
      have "ensures (create_mappings d io grp slave (L, B) c) (\<lambda>(pos, c'). ensures (seg_add grp (fst pos - L) (cur, sz, c'))
          (\<lambda>(cur', sz', c''). pass_inv grp start x pre (pos, fst pos, cur', sz', c'')))"
      proof (rule ensures_mono [OF create_mappings_moves [OF Some assms(1) i(1) nz i(3)]])
        fix r :: "log_pos \<times> ecx_context"
        assume "case r of (pos', c') \<Rightarrow> frames_of grp c c' \<and> unat (snd pos') \<le> 7 \<and> fst pos' - L \<le> EC_MAXSEGMENT"
        then obtain pos c' where r: "r = (pos, c')" "frames_of grp c c'" "unat (snd pos) \<le> 7" "fst pos - L \<le> EC_MAXSEGMENT" by (cases r) simp
        have "segs grp start x pre L (cur, sz, c')" using i(4) segs_frames [OF r(2)] by simp
        from seg_add_segs [OF this r(4), of "fst pos"] have "ensures (seg_add grp (fst pos - L) (cur, sz, c'))
            (\<lambda>(cur', sz', c''). segs grp start x pre (fst pos) (cur', sz', c'') \<and> sizes c'' = sizes c' \<and> slavecount c'' = slavecount c')" by simp
        then have "ensures (seg_add grp (fst pos - L) (cur, sz, c')) (\<lambda>(cur', sz', c''). pass_inv grp start x pre (pos, fst pos, cur', sz', c''))"
        proof (rule ensures_mono)
          fix q :: "nat \<times> u32 \<times> ecx_context"
          assume "case q of (cur', sz', c'') \<Rightarrow> segs grp start x pre (fst pos) (cur', sz', c'') \<and> sizes c'' = sizes c' \<and> slavecount c'' = slavecount c'"
          moreover have "all_fit c'" using i(1) all_fit_frames [OF r(2)] by simp
          ultimately show "case q of (cur', sz', c'') \<Rightarrow> pass_inv grp start x pre (pos, fst pos, cur', sz', c'')"
            using r(3) by (auto simp: pass_inv_def intro: all_fit_cong [THEN iffD2])
        qed
        with r(1) show "case r of (pos, c') \<Rightarrow> ensures (seg_add grp (fst pos - L) (cur, sz, c'))
            (\<lambda>(cur', sz', c''). pass_inv grp start x pre (pos, fst pos, cur', sz', c''))" by simp
      qed
      with Some nz i(2) show ?thesis by (simp add: st map_slave_def case_prod_unfold)
    qed
  qed (simp add: st map_slave_def)
qed

lemma close_byte_pass:
  assumes "pass_inv grp start x pre st"
  shows "ensures (close_byte grp st) (\<lambda>st'. pass_inv grp start x pre st' \<and> snd (fst st') = 0)"
proof -
  obtain L B oL cur sz c where st: "st = ((L, B), oL, cur, sz, c)" by (cases st) auto
  have i: "all_fit c" "oL = L" "unat B \<le> 7" "segs grp start x pre L (cur, sz, c)"
    using assms by (auto simp: st pass_inv_def)
  show ?thesis
  proof (cases "B = 0")
    case False
    have "ensures (seg_add grp 1 (cur, sz, c)) (\<lambda>(cur', sz', c'). pass_inv grp start x pre ((L + 1, 0), L + 1, cur', sz', c'))"
      by (rule ensures_mono [OF seg_add_segs [OF i(4), of 1 "L + 1"]]) (use i(1) in \<open>auto simp: pass_inv_def intro: all_fit_cong [THEN iffD2]\<close>)
    with False show ?thesis by (simp add: st close_byte_def case_prod_unfold)
  qed (use assms in \<open>simp add: st close_byte_def\<close>)
qed

lemma join_group_frames: "ensures (join_group grp slave c) (frames_of grp c)"
proof -
  have up: "ensures (upd_group grp (\<lambda>g. g\<lparr>g_blockLRW := (if b then g_blockLRW g + 1 else g_blockLRW g), g_Ebuscurrent := g_Ebuscurrent g + k\<rparr>) d) (frames_of grp c)"
    if "frames_of grp c d" for d b k
    by (rule upd_group_frames [OF that]) simp
  have sl: "ensures (get_slave slave d) Q" if "\<And>s. Q s" for d and Q :: "ec_slave \<Rightarrow> bool"
    using that by (simp add: ensures_iff)
  show ?thesis
    unfolding join_group_def
    by (auto simp: case_prod_unfold Let_def intro!: sl ensures_mono [OF eeprom2pdi_frames [OF frames_of_refl]] ensures_mono [OF on_port_frames] up)
qed

lemma frames_pass: "frames_of grp c d \<Longrightarrow> pass_inv grp start x pre (pos, oL, cur, sz, d) = pass_inv grp start x pre (pos, oL, cur, sz, c)"
  by (simp add: pass_inv_def all_fit_frames segs_frames)

lemma map_outputs_pass:
  assumes "pass_inv grp start x pre st"
  shows "ensures (map_outputs io grp st) (\<lambda>st'. pass_inv grp start x pre st' \<and> snd (fst st') = 0)"
  unfolding map_outputs_def ensures_bind
  by (rule ensures_mono [OF for_slaves_ensures [where P = "pass_inv grp start x pre", OF assms]])
    (auto simp: ensures_iff bind_eq_Some_conv split: if_splits dest!: map_slave_pass [of _ _ _ _ _ _ Outputs, unfolded ensures_iff, rule_format, rotated 2] close_byte_pass [unfolded ensures_iff, rule_format, rotated])

lemma map_inputs_pass:
  assumes "pass_inv grp start x pre st"
  shows "ensures (map_inputs io grp st) (\<lambda>st'. pass_inv grp start x pre st' \<and> snd (fst st') = 0)"
proof -
  have step: "ensures (map_slave Inputs io grp slave st') (\<lambda>(pos, oL, cur, sz, c). ensures (join_group grp slave c) (\<lambda>c'. pass_inv grp start x pre (pos, oL, cur, sz, c')))"
    if "slave \<noteq> 0" "pass_inv grp start x pre st'" for slave st'
    by (rule ensures_mono [OF map_slave_pass [OF that]]) (auto intro!: ensures_mono [OF join_group_frames] simp: frames_pass)
  show ?thesis
    unfolding map_inputs_def ensures_bind
    by (rule ensures_mono [OF for_slaves_ensures [where P = "pass_inv grp start x pre", OF assms]])
      (auto simp: ensures_iff bind_eq_Some_conv split: if_splits dest!: step [unfolded ensures_iff, rule_format, rotated 2]
        close_byte_pass [unfolded ensures_iff, rule_format, rotated])
qed

lemma upd_slave_0_fit:
  assumes "upd_slave 0 f c = Some d"
  shows "all_fit d = all_fit c" "get_group grp d = get_group grp c"
proof -
  have d: "d = c\<lparr>slavelist := (slavelist c)[0 := f (slavelist c ! 0)]\<rparr>"
    using assms by (auto simp: upd_slave_def get_slave_def arr_get_def bind_eq_Some_conv split: if_splits)
  then have "tl (sizes d) = tl (sizes c)" by (cases "slavelist c") (auto simp: sizes_def)
  with d show "all_fit d = all_fit c" "get_group grp d = get_group grp c" by (simp_all add: all_fit_def get_group_def)
qed

lemma upd_group_fit: "upd_group grp f c = Some d \<Longrightarrow> all_fit d = all_fit c"
  by (auto simp: upd_group_def bind_eq_Some_conv all_fit_def sizes_def)

lemma upd_group_new: "upd_group grp f c = Some d \<Longrightarrow> get_group grp c = Some g \<Longrightarrow> get_group grp d = Some (f g)"
  by (rule upd_group_get [of grp c g f]) auto

lemma upd_group_ex: "get_group grp c = Some g \<Longrightarrow> \<exists>d. upd_group grp f c = Some d"
  by (auto simp: upd_group_def get_group_def arr_get_def split: if_splits)

lemma upd_group_slave: "upd_group grp f c = Some d \<Longrightarrow> get_slave slave d = get_slave slave c"
  by (auto simp: upd_group_def bind_eq_Some_conv get_slave_def)

lemma upd_slave_ex: "get_slave slave c = Some s \<Longrightarrow> \<exists>d. upd_slave slave f c = Some d"
  by (auto simp: upd_slave_def)

lemma upd_slave_new: "upd_slave slave f c = Some d \<Longrightarrow> get_slave slave c = Some s \<Longrightarrow> get_slave slave d = Some (f s)"
  by (auto simp: upd_slave_def get_slave_def arr_get_def bind_eq_Some_conv split: if_splits)

text \<open>Between the passes the sizes of the outputs are stored.\<close>

lemma between_passes:
  assumes i: "pass_inv grp start x [] ((L, B), oL, cur, sz, c)" and B: "B = 0"
    and u: "upd_group grp (\<lambda>g. g\<lparr>g_outputs := Some io, g_Obytes := L - g_logstartaddr g,
            g_nsegments := of_nat cur + 1, g_Isegment := of_nat cur, g_Ioffset := ucast sz\<rparr>) c = Some d"
    and e: "get_group grp e = get_group grp d" "all_fit e = all_fit d"
  obtains pre where "pass_inv grp start (L - start, Some io, of_nat cur, ucast sz) pre ((L, B), oL, cur, sz, e)"
    "length pre < EC_MAXIOSEGMENTS - 1 \<Longrightarrow> length pre = unat (of_nat cur :: u16) \<and> sum_list pre + ucast (ucast sz :: u16) = L - start"
proof -
  obtain seg where fit: "all_fit c" "oL = L" and cur: "cur < EC_MAXIOSEGMENTS" and v: "seg_view grp c = Some (start, x, seg)"
    and s: "cur < EC_MAXIOSEGMENTS - 1 \<Longrightarrow> cur \<le> length seg \<and> sz \<le> EC_MAXSEGMENT \<and> (\<forall>y \<in> set (take cur seg). y \<le> EC_MAXSEGMENT) \<and>
      sum_list (take cur seg) + sz = L - start"
    using i by (auto simp: pass_inv_def segs_def)
  obtain g where g: "get_group grp c = Some g" "g_logstartaddr g = start" "g_IOsegment g = seg" using v by (auto simp: seg_view_def)
  have ve: "seg_view grp e = Some (start, (L - start, Some io, of_nat cur, ucast sz), seg)"
    using upd_group_new [OF u g(1)] e(1) g(2,3) by (simp add: seg_view_def)
  have fe: "all_fit e" using e(2) upd_group_fit [OF u] fit by simp
  let ?pre = "if cur < EC_MAXIOSEGMENTS - 1 then take cur seg else replicate EC_MAXIOSEGMENTS 0"
  show ?thesis
  proof (rule that [of ?pre])
    show "pass_inv grp start (L - start, Some io, of_nat cur, ucast sz) ?pre ((L, B), oL, cur, sz, e)"
      using ve fe fit cur s B by (auto simp: pass_inv_def segs_def)
    assume "length ?pre < EC_MAXIOSEGMENTS - 1"
    then have c: "cur < EC_MAXIOSEGMENTS - 1" by (simp split: if_splits)
    from s [OF c] have le: "unat sz \<le> 1466" by (simp add: word_le_nat_alt)
    have "unat (ucast (ucast sz :: u16) :: u32) = unat sz"
      using le by (simp add: unsigned_ucast_eq unsigned_take_bit_eq take_bit_nat_eq_self)
    then have "(ucast (ucast sz :: u16) :: u32) = sz" by (simp add: word_unat_eq_iff)
    moreover have "unat (of_nat cur :: u16) = cur" using c by (intro unat_of_nat_u16) simp
    ultimately show "length ?pre = unat (of_nat cur :: u16) \<and> sum_list ?pre + ucast (ucast sz :: u16) = L - start"
      using s [OF c] c by simp
  qed
qed

lemma map_group_segments_ensures:
  assumes g: "get_group grp c = Some g" and fit: "all_fit c"
  shows "ensures (map_group_from io grp (g_logstartaddr g) c) (\<lambda>(n, d). \<exists>h. get_group grp d = Some h \<and>
    g_outputs h = Some io \<and> g_inputs h = Some (io + unat (g_Obytes h)) \<and> g_Obytes h + g_Ibytes h = n \<and>
    (unat (g_nsegments h) < EC_MAXIOSEGMENTS \<longrightarrow> (\<forall>y \<in> set (take (unat (g_nsegments h)) (g_IOsegment h)). y \<le> EC_MAXSEGMENT) \<and>
      sum_list (take (unat (g_nsegments h)) (g_IOsegment h)) = n \<and>
      sum_list (take (unat (g_Isegment h)) (g_IOsegment h)) + ucast (g_Ioffset h) = g_Obytes h))"
  unfolding ensures_iff
proof (intro allI impI)
  fix r assume r: "map_group_from io grp (g_logstartaddr g) c = Some r"
  define start where "start = g_logstartaddr g"
  obtain L B oL cur sz c1 c2 c3 L' B' oL' cur' sz' c4 g4 c5 c6 where
      o: "map_outputs io grp ((start, 0), start, 0, 0, c) = Some ((L, B), oL, cur, sz, c1)"
    and u2: "upd_group grp (\<lambda>g. g\<lparr>g_outputs := Some io, g_Obytes := L - g_logstartaddr g,
            g_nsegments := of_nat cur + 1, g_Isegment := of_nat cur, g_Ioffset := ucast sz\<rparr>) c1 = Some c2"
    and u3: "\<exists>f. (if grp = 0 then upd_slave 0 f c2 else Some c2) = Some c3"
    and i: "map_inputs io grp ((L, B), oL, cur, sz, c3) = Some ((L', B'), oL', cur', sz', c4)"
    and g4: "get_group grp c4 = Some g4" and len: "cur' < length (g_IOsegment g4)"
    and u5: "upd_group grp (\<lambda>g. g\<lparr>g_IOsegment := (g_IOsegment g)[cur' := sz'], g_nsegments := of_nat cur' + 1,
            g_inputs := Some (io + unat (g_Obytes g)), g_Ibytes := L' - g_logstartaddr g - g_Obytes g\<rparr>) c4 = Some c5"
    and u6: "\<exists>f. (if grp = 0 then upd_slave 0 f c5 else Some c5) = Some c6"
    and r': "r = (L' - g_logstartaddr g4, c6)"
    using r unfolding map_group_from_def start_def [symmetric]
    by (clarsimp simp: bind_eq_Some_conv split del: if_split) (rule that, (assumption | rule refl exI)+)
  have "pass_inv grp start (g_Obytes g, g_outputs g, g_Isegment g, g_Ioffset g) [] ((start, 0), start, 0, 0, c)"
    using g fit by (simp add: pass_inv_def segs_def seg_view_def start_def)
  from map_outputs_pass [OF this, of io] o
  have i1: "pass_inv grp start (g_Obytes g, g_outputs g, g_Isegment g, g_Ioffset g) [] ((L, B), oL, cur, sz, c1)" "B = 0" by auto
  have e3: "get_group grp c3 = get_group grp c2" "all_fit c3 = all_fit c2"
    using u3 upd_slave_0_fit by (auto split: if_splits)
  show "case r of (n, d) \<Rightarrow> \<exists>h. get_group grp d = Some h \<and>
    g_outputs h = Some io \<and> g_inputs h = Some (io + unat (g_Obytes h)) \<and> g_Obytes h + g_Ibytes h = n \<and>
    (unat (g_nsegments h) < EC_MAXIOSEGMENTS \<longrightarrow> (\<forall>y \<in> set (take (unat (g_nsegments h)) (g_IOsegment h)). y \<le> EC_MAXSEGMENT) \<and>
      sum_list (take (unat (g_nsegments h)) (g_IOsegment h)) = n \<and>
      sum_list (take (unat (g_Isegment h)) (g_IOsegment h)) + ucast (g_Ioffset h) = g_Obytes h)"
  proof (rule between_passes [OF i1 u2 e3])
    fix pre
    assume p: "pass_inv grp start (L - start, Some io, of_nat cur, ucast sz) pre ((L, B), oL, cur, sz, c3)"
      and pre: "length pre < EC_MAXIOSEGMENTS - 1 \<Longrightarrow> length pre = unat (of_nat cur :: u16) \<and> sum_list pre + ucast (ucast sz :: u16) = L - start"
    from map_inputs_pass [OF p, of io] i
    have i4: "pass_inv grp start (L - start, Some io, of_nat cur, ucast sz) pre ((L', B'), oL', cur', sz', c4)" by auto
    then have v: "g_logstartaddr g4 = start" "g_Obytes g4 = L - start" "g_outputs g4 = Some io" "g_Isegment g4 = of_nat cur" "g_Ioffset g4 = ucast sz"
      and cur': "cur' < EC_MAXIOSEGMENTS"
      and s: "cur' < EC_MAXIOSEGMENTS - 1 \<Longrightarrow> (\<exists>post. take cur' (g_IOsegment g4) = pre @ post) \<and> sz' \<le> EC_MAXSEGMENT \<and>
        (\<forall>y \<in> set (take cur' (g_IOsegment g4)). y \<le> EC_MAXSEGMENT) \<and> sum_list (take cur' (g_IOsegment g4)) + sz' = L' - start"
      using g4 by (auto simp: pass_inv_def segs_def seg_view_def)
    define h where "h = g4\<lparr>g_IOsegment := (g_IOsegment g4)[cur' := sz'], g_nsegments := of_nat cur' + 1,
            g_inputs := Some (io + unat (g_Obytes g4)), g_Ibytes := L' - g_logstartaddr g4 - g_Obytes g4\<rparr>"
    have "get_group grp c5 = Some h" unfolding h_def by (rule upd_group_new [OF u5 g4])
    then have hg: "get_group grp c6 = Some h" using u6 upd_slave_0_fit(2) [of _ c5 c6] by (auto split: if_splits)
    have "g_nsegments h = of_nat (Suc cur')" by (simp add: h_def)
    moreover have "unat (of_nat (Suc cur') :: u16) = Suc cur'" using cur' by (intro unat_of_nat_u16) simp
    ultimately have ns: "unat (g_nsegments h) = Suc cur'" by metis
    have tk: "take (Suc cur') (g_IOsegment h) = take cur' (g_IOsegment g4) @ [sz']" using len by (simp add: h_def take_Suc_conv_app_nth)
    have hv: "g_outputs h = Some io" "g_inputs h = Some (io + unat (g_Obytes h))" "g_Obytes h + g_Ibytes h = L' - start" "g_Obytes h = L - start"
        "g_Isegment h = of_nat cur" "g_Ioffset h = ucast sz"
      using v by (simp_all add: h_def)
    have "(\<forall>y \<in> set (take (unat (g_nsegments h)) (g_IOsegment h)). y \<le> EC_MAXSEGMENT) \<and>
      sum_list (take (unat (g_nsegments h)) (g_IOsegment h)) = L' - start \<and>
      sum_list (take (unat (g_Isegment h)) (g_IOsegment h)) + ucast (g_Ioffset h) = g_Obytes h" if "unat (g_nsegments h) < EC_MAXIOSEGMENTS"
    proof -
      have c': "cur' < EC_MAXIOSEGMENTS - 1" using that ns by simp
      obtain post where post: "take cur' (g_IOsegment g4) = pre @ post" using s [OF c'] by blast
      have lp: "length pre \<le> cur'" using arg_cong [OF post, of length] by simp
      then have pr: "length pre = unat (of_nat cur :: u16)" "sum_list pre + ucast (ucast sz :: u16) = L - start" using pre c' by auto
      have "take (length pre) (g_IOsegment h) = take (length pre) (take cur' (g_IOsegment g4))" using lp by (simp add: h_def min_absorb1)
      also have "\<dots> = pre" by (simp add: post)
      finally have "take (unat (g_Isegment h)) (g_IOsegment h) = pre" using pr(1) hv(5) by simp
      with pr(2) hv(4,6) have "sum_list (take (unat (g_Isegment h)) (g_IOsegment h)) + ucast (g_Ioffset h) = g_Obytes h" by simp
      with s [OF c'] show ?thesis unfolding ns tk by auto
    qed
    with hg hv v show ?thesis unfolding r' by auto
  qed
qed

text \<open>
  C7: the segments of a group are its process image: however the wire answers, if the slaves have
  whole bytes, or fewer than eight bits, and none has more than 1465 bytes, then after the mapping
  the outputs and the inputs of the group lie one after the other in the IO map and make up the
  size returned, and, unless the table of segments is full, the segments in use add up to that
  size, none is larger than a frame, and the segment and the offset stored for the start of the
  inputs are the place where the bytes of the outputs end.
\<close>

theorem map_group_segments:
  assumes "get_group grp c = Some g" "all_fit c"
  shows "ensures (map_group_from io grp (g_logstartaddr g) c) (\<lambda>(n, d). \<exists>h. get_group grp d = Some h \<and>
    g_outputs h = Some io \<and> g_inputs h = Some (io + unat (g_Obytes h)) \<and> g_Obytes h + g_Ibytes h = n \<and>
    (unat (g_nsegments h) < EC_MAXIOSEGMENTS \<longrightarrow> (\<forall>y \<in> set (take (unat (g_nsegments h)) (g_IOsegment h)). y \<le> EC_MAXSEGMENT) \<and>
      sum_list (take (unat (g_nsegments h)) (g_IOsegment h)) = n \<and>
      sum_list (take (unat (g_Isegment h)) (g_IOsegment h)) + ucast (g_Ioffset h) = g_Obytes h))"
  by (rule map_group_segments_ensures [OF assms])

text \<open>A group of one slave with five bytes of outputs, whose state is changed by the user.\<close>

definition demo_seg :: ecx_context where
  "demo_seg = demo_map\<lparr>slavelist := [no_slave, demo_out\<lparr>s_eep_pdi := 1\<rparr>], manualstatechange := 1\<rparr>"

lemma demo_seg_inv: "ctx_inv demo_seg" "get_slave 1 demo_seg = Some (demo_out\<lparr>s_eep_pdi := 1\<rparr>)" "get_group 0 demo_seg = Some no_group"
    "slavecount demo_seg = 1" "manualstatechange demo_seg = 1" "sizes demo_seg = [(0, 0, 0, 0), (40, 5, 0, 0)]"
  using demo_map_inv
  by (simp_all add: demo_seg_def demo_map_def ctx_inv_def demo_context_def get_slave_def get_group_def arr_get_def sizes_def demo_out_def no_slave_def)

lemma demo_seg_one: "one_sm Outputs (demo_out\<lparr>s_eep_pdi := 1\<rparr>) 2 0"
  using demo_out_one by (simp add: one_sm_def dir_bits_def dir_bytes_def dir_data_def)

lemma demo_seg_create:
  "\<exists>e s'. create_mappings Outputs 0 0 1 (0, 0) demo_seg = Some ((5, 0), e) \<and> get_slave 1 e = Some s' \<and> s_group s' = 0 \<and> s_eep_pdi s' = 1 \<and>
     dir_bits Inputs s' = 0 \<and> get_slave 0 e \<noteq> None \<and> get_group 0 e = Some (add_wkc Outputs no_group) \<and> manualstatechange e = 1 \<and> slavecount e = 1"
proof -
  have b: "bytes_of 40 = 5" by (simp add: bytes_of_def)
  obtain e s' where e: "create_mappings Outputs 0 0 1 (0, 0) demo_seg = Some ((5, 0), e)" "get_slave 1 e = Some s'" "s_group s' = 0" "s_eep_pdi s' = 1"
      "get_group 0 e = Some (add_wkc Outputs no_group)" "manualstatechange e = 1"
    using create_mappings_returns [OF demo_seg_inv(1-3) _ demo_seg_one refl, where B = 0 and L = 0 and io = 0]
    by (auto simp: returns_iff dir_bits_def demo_out_def no_slave_def b demo_seg_inv)
  have v: "slave_view Outputs 1 demo_seg = Some (s_FMMU demo_out, 40, of_nat (bytes_of 40))"
    by (simp add: slave_view_def demo_seg_inv demo_out_def dir_bits_def dir_bytes_def b)
  have "frames_of 0 demo_seg e"
    using create_mappings_tile_ensures [OF v, of 0 0 0 0] e(1) by (auto simp: Let_def)
  then have z: "sizes e = [(0, 0, 0, 0), (40, 5, 0, 0)]" "slavecount e = 1" by (simp_all add: frames_of_def demo_seg_inv)
  then have "length (slavelist e) = 2" "sizes e ! 1 = (40, 5, 0, 0)" by (auto simp: sizes_def dest: arg_cong [of _ _ length])
  moreover have "dir_bits Inputs s' = 0" using e(2) z(1) by (auto simp: get_slave_def arr_get_def sizes_def dir_bits_def split: if_splits)
  ultimately show ?thesis using e z by (auto simp: get_slave_def arr_get_def)
qed

lemma demo_seg_maps: "\<exists>d. map_group_from 0 0 0 demo_seg = Some (5, d)"
proof -
  obtain e and s' :: ec_slave where e: "create_mappings Outputs 0 0 1 (0, 0) demo_seg = Some ((5, 0), e)" "get_slave 1 e = Some s'"
      "s_group s' = 0" "s_eep_pdi s' = 1" "dir_bits Inputs s' = 0" "get_slave 0 e \<noteq> None" "get_group 0 e = Some (add_wkc Outputs no_group)"
      "manualstatechange e = 1" "slavecount e = 1"
    using demo_seg_create by blast
  obtain s0 where s0: "get_slave 0 e = Some s0" using e(6) by blast
  have b: "dir_bits Outputs (demo_out\<lparr>s_eep_pdi := 1\<rparr>) = 40" by (simp add: dir_bits_def demo_out_def)
  have o: "map_outputs 0 0 ((0, 0), 0, 0, 0, demo_seg) = Some ((5, 0), 5, 0, 5, e)"
    by (simp add: map_outputs_def for_slaves_def demo_seg_inv in_group_def map_slave_def b e(1) seg_add_def close_byte_def)
  define g1 where "g1 = (add_wkc Outputs no_group)\<lparr>g_outputs := Some 0, g_Obytes := 5, g_nsegments := 1, g_Isegment := 0, g_Ioffset := 5\<rparr>"
  have z: "g_logstartaddr (add_wkc Outputs no_group) = 0" "g_logstartaddr g1 = 0" "g_IOsegment g1 = replicate EC_MAXIOSEGMENTS 0"
    by (simp_all add: add_wkc_def no_group_def g1_def)
  let ?f = "\<lambda>g. g\<lparr>g_outputs := Some 0, g_Obytes := 5 - g_logstartaddr g, g_nsegments := 1, g_Isegment := 0, g_Ioffset := 5\<rparr>"
  obtain d1 where d1: "upd_group 0 ?f e = Some d1" using upd_group_ex [OF e(7), of ?f] by blast
  note d1 = d1 upd_group_new [OF d1 e(7), simplified z diff_zero, folded g1_def] upd_group_slave [OF d1]
  have k1: "manualstatechange d1 = 1" "slavecount d1 = 1"
    using d1(1) e(8,9) by (auto simp: upd_group_def bind_eq_Some_conv)
  let ?h = "\<lambda>s. s\<lparr>s_outputs := Some 0, s_Obytes := 5\<rparr>"
  have d1_0: "get_slave 0 d1 = Some s0" using d1(3) s0 by simp
  obtain d2 where d2: "upd_slave 0 ?h d1 = Some d2" using upd_slave_ex [OF d1_0, of ?h] by blast
  note d2 = d2 upd_slave_new [OF d2 d1_0] upd_slave_0_fit(2) [OF d2, of 0, unfolded d1(2)]
  have k2: "manualstatechange d2 = 1" "slavecount d2 = 1" "get_slave 1 d2 = Some s'"
    using d2(1) k1 d1(3) [of 1] e(2) by (auto simp: upd_slave_def get_slave_def arr_get_def bind_eq_Some_conv split: if_splits)
  let ?j = "\<lambda>g. g\<lparr>g_blockLRW := (if s_blockLRW s' \<noteq> 0 then g_blockLRW g + 1 else g_blockLRW g), g_Ebuscurrent := g_Ebuscurrent g + s_Ebuscurrent s'\<rparr>"
  obtain d3 where d3: "upd_group 0 ?j d2 = Some d3" using upd_group_ex [OF d2(3), of ?j] by blast
  note d3 = d3 upd_group_new [OF d3 d2(3)] upd_group_slave [OF d3]
  have j: "join_group 0 1 d2 = Some d3"
    using k2 e(4) d3(1) by (simp add: join_group_def ecx_eeprom2pdi_def)
  have i: "map_inputs 0 0 ((5, 0), 5, 0, 5, d2) = Some ((5, 0), 5, 0, 5, d3)"
    by (simp add: map_inputs_def for_slaves_def in_group_def map_slave_def k2 e(5) j close_byte_def)
  let ?k = "\<lambda>g. g\<lparr>g_IOsegment := (g_IOsegment g)[0 := 5], g_nsegments := 1, g_inputs := Some (unat (g_Obytes g)), g_Ibytes := 5 - g_logstartaddr g - g_Obytes g\<rparr>"
  obtain d4 where d4: "upd_group 0 ?k d3 = Some d4" using upd_group_ex [OF d3(2), of ?k] by blast
  let ?l = "\<lambda>s. s\<lparr>s_inputs := Some (unat (s_Obytes s)), s_Ibytes := 5 - s_Obytes s\<rparr>"
  have "get_slave 0 d4 = Some (?h s0)" using upd_group_slave [OF d4, of 0] d3(3) [of 0] d2(2) by simp
  then obtain d5 where d5: "upd_slave 0 ?l d4 = Some d5" using upd_slave_ex [of 0 d4 _ ?l] by blast
  have "map_group_from 0 0 0 demo_seg = Some (5, d5)"
    using d1(1,2) d2(1) d3(2) d4(1) d5 z by (simp add: map_group_from_def o i)
  then show ?thesis by blast
qed

theorem map_group_segments_witness:
  "\<exists>d h. map_group_from 0 0 0 demo_seg = Some (5, d) \<and> get_group 0 d = Some h \<and> g_outputs h = Some 0 \<and> g_Obytes h + g_Ibytes h = 5"
proof -
  obtain d where d: "map_group_from 0 0 0 demo_seg = Some (5, d)" using demo_seg_maps by blast
  have "all_fit demo_seg" by (simp add: all_fit_def demo_seg_inv fits_frame_def bytes_of_def)
  from map_group_segments [OF demo_seg_inv(3) this, of 0] d show ?thesis by (auto simp: no_group_def)
qed

end
