(* ===== verification/CText.thy ===== *)
theory CText
  imports EcPrelude
begin

text \<open>
  The texts that the code builds with \<^verbatim>\<open>sprintf\<close> and reads with \<^verbatim>\<open>sscanf\<close>: numbers in decimal and
  hexadecimal digits, a precision, the scan of a hexadecimal number of limited width, and
  the digits of a sum of seconds and microseconds in double precision.
\<close>

section \<open>Digits\<close>

definition digit :: "bool \<Rightarrow> nat \<Rightarrow> char" where
  "digit upper n = (if upper then ''0123456789ABCDEF'' else ''0123456789abcdef'') ! n"

fun digits :: "bool \<Rightarrow> nat \<Rightarrow> nat \<Rightarrow> string" where
  "digits upper b n = (if n < b \<or> b < 2 then [digit upper n] else digits upper b (n div b) @ [digit upper (n mod b)])"

declare digits.simps [simp del]

text \<open>A text is filled with zeros, or with blanks, on the left.\<close>

definition fill :: "char \<Rightarrow> nat \<Rightarrow> string \<Rightarrow> string" where
  "fill ch w s = replicate (w - length s) ch @ s"

definition fmt_d :: "nat \<Rightarrow> string" where
  "fmt_d n = digits False 10 n"

definition fmt_x :: "nat \<Rightarrow> nat \<Rightarrow> string" where
  "fmt_x w n = fill CHR ''0'' w (digits False 16 n)"

definition fmt_X :: "nat \<Rightarrow> nat \<Rightarrow> string" where
  "fmt_X w n = fill CHR ''0'' w (digits True 16 n)"

lemma length_fill [simp]: "length (fill ch w s) = max w (length s)"
  by (simp add: fill_def)

lemma digits_nonempty [simp]: "digits u b n \<noteq> []"
  by (subst digits.simps) simp

lemma digits_length:
  assumes "2 \<le> b" "n < b ^ k" "0 < k"
  shows "length (digits u b n) \<le> k"
  using assms(2,3)
proof (induction k arbitrary: n)
  case (Suc k)
  show ?case
  proof (cases "n < b")
    case True
    then show ?thesis by (subst digits.simps) simp
  next
    case False
    then have "0 < k" using Suc.prems(1) by (cases k) auto
    moreover have "n div b < b ^ k" using Suc.prems(1) assms(1) by (simp add: less_mult_imp_div_less mult.commute)
    ultimately have "length (digits u b (n div b)) \<le> k" using Suc.IH by blast
    then show ?thesis using False assms(1) by (subst digits.simps) simp
  qed
qed simp

lemma fmt_d_length: "n < 10 ^ k \<Longrightarrow> 0 < k \<Longrightarrow> length (fmt_d n) \<le> k"
  unfolding fmt_d_def by (rule digits_length) simp_all

lemma fmt_d_pos: "0 < length (fmt_d n)"
  by (simp add: fmt_d_def)

lemma fmt_x_length: "n < 16 ^ w \<Longrightarrow> 0 < w \<Longrightarrow> length (fmt_x w n) = w"
  using digits_length [of 16 n w False] by (simp add: fmt_x_def)

lemma fmt_X_length: "n < 16 ^ w \<Longrightarrow> 0 < w \<Longrightarrow> length (fmt_X w n) = w"
  using digits_length [of 16 n w True] by (simp add: fmt_X_def)

section \<open>Time\<close>

text \<open>Division of natural numbers, rounded to the nearest and to even in the middle.\<close>

definition round_div :: "nat \<Rightarrow> nat \<Rightarrow> nat" where
  "round_div a b = (let q = a div b; r = a mod b in if 2 * r < b \<or> 2 * r = b \<and> even q then q else q + 1)"

lemma round_div_le: "round_div a b \<le> a div b + 1"
  by (simp add: round_div_def Let_def)

lemma round_div_mult_le: "round_div a b * b \<le> a + b"
proof -
  have "round_div a b * b \<le> (a div b + 1) * b" by (rule mult_le_mono1 [OF round_div_le])
  also have "\<dots> \<le> a + b" by (simp add: add_mult_distrib)
  finally show ?thesis .
qed

text \<open>
  A positive number is kept in double precision as a numerator \<open>n\<close> of 53 bits over a power of
  two: the least \<open>k\<close> for which \<open>a * 2 ^ k / b\<close> has 53 bits, and the numerator with the bits
  rounded off that are beyond 53.
\<close>

fun scale :: "nat \<Rightarrow> nat \<Rightarrow> nat \<Rightarrow> nat" where
  "scale fuel a b = (if fuel = 0 \<or> 2 ^ 52 * b \<le> a then 0 else Suc (scale (fuel - 1) (2 * a) b))"

fun excess :: "nat \<Rightarrow> nat \<Rightarrow> nat" where
  "excess fuel n = (if fuel = 0 \<or> n < 2 ^ 53 then 0 else Suc (excess (fuel - 1) (n div 2)))"

declare scale.simps [simp del] excess.simps [simp del]

text \<open>
  \<^verbatim>\<open>sec + (usec / 1000000.0)\<close> as a number of \<open>2 ^ k\<close>-ths, both operations rounded. A quotient that
  is not 0 is at least \<open>10 ^ -6\<close>, so that 72 doublings are enough for its 53 bits; a numerator is
  below \<open>2 ^ 256\<close>.
\<close>

definition time_double :: "nat \<Rightarrow> nat \<Rightarrow> nat \<times> nat" where
  "time_double sec usec =
     (let k = scale 128 usec 1000000;
          m = round_div (usec * 2 ^ k) 1000000;
          n = sec * 2 ^ k + m;
          d = excess 256 n
      in (round_div n (2 ^ d) * 2 ^ d, k))"

definition fmt_12_3f :: "nat \<times> nat \<Rightarrow> string" where
  "fmt_12_3f x =
     (let t = round_div (fst x * 1000) (2 ^ snd x)
      in fill CHR '' '' 12 (digits False 10 (t div 1000) @ ''.'' @ fill CHR ''0'' 3 (digits False 10 (t mod 1000))))"

lemma excess_le: "2 ^ excess fuel n \<le> max 1 n"
proof (induction fuel n rule: excess.induct)
  case (1 fuel n)
  show ?case
  proof (cases "fuel = 0 \<or> n < 2 ^ 53")
    case False
    then have "2 ^ excess (fuel - 1) (n div 2) \<le> max 1 (n div 2)" using 1 by simp
    moreover have "1 \<le> n div 2" using False by (simp add: Suc_le_eq div_greater_zero_iff)
    ultimately have "2 * 2 ^ excess (fuel - 1) (n div 2) \<le> n" by (simp add: max_def)
    then show ?thesis using False by (subst excess.simps) simp
  qed (subst excess.simps, simp)
qed

lemma time_text_length:
  assumes "sec < 2 ^ 32" "usec < 2 ^ 32"
  shows "length (fmt_12_3f (time_double sec usec)) \<in> {12..14}"
proof -
  define k where "k = scale 128 usec 1000000"
  define m where "m = round_div (usec * 2 ^ k) 1000000"
  define n where "n = sec * 2 ^ k + m"
  define d where "d = excess 256 n"
  define v where "v = round_div n (2 ^ d) * 2 ^ d"
  define t where "t = round_div (v * 1000) (2 ^ k)"
  let ?K = "2 ^ k :: nat"
  have K: "1 \<le> ?K" by simp
  have "m \<le> usec * ?K div 1000000 + 1" unfolding m_def by (rule round_div_le)
  also have "usec * ?K div 1000000 \<le> 4295 * ?K"
  proof -
    have "usec \<le> 4295 * 1000000" using assms(2) by simp
    then have "usec * ?K \<le> 4295 * 1000000 * ?K" by (rule mult_le_mono1)
    then have "usec * ?K div 1000000 \<le> 4295 * 1000000 * ?K div 1000000" by (rule div_le_mono)
    then show ?thesis by simp
  qed
  finally have m: "m \<le> 4296 * ?K" using K by linarith
  have "sec * ?K \<le> 4294967295 * ?K" using assms(1) by (intro mult_le_mono1) simp
  then have n: "n \<le> 4294971591 * ?K" unfolding n_def using m by linarith
  have "v \<le> n + 2 ^ d" unfolding v_def by (rule round_div_mult_le)
  also have "2 ^ d \<le> max 1 n" unfolding d_def by (rule excess_le)
  also have "n + max 1 n \<le> 2 * n + 1" by simp
  also have "2 * n + 1 \<le> 8589943183 * ?K" using n K by linarith
  finally have v: "v * 1000 \<le> 8589943183000 * ?K" by simp
  have "t \<le> v * 1000 div ?K + 1" unfolding t_def by (rule round_div_le)
  also have "v * 1000 div ?K \<le> 8589943183000 * ?K div ?K" by (rule div_le_mono [OF v])
  finally have "t div 1000 < 10 ^ 10" by simp
  from digits_length [OF _ this, of False] have "length (digits False 10 (t div 1000)) \<le> 10" by simp
  moreover have "length (digits False 10 (t mod 1000)) \<le> 3" using digits_length [of 10 "t mod 1000" 3 False] by simp
  moreover have "time_double sec usec = (v, k)"
    by (simp add: time_double_def Let_def k_def m_def n_def d_def v_def)
  ultimately show ?thesis by (simp add: fmt_12_3f_def Let_def t_def max_def)
qed

section \<open>Scanning\<close>

definition isspace :: "char \<Rightarrow> bool" where
  "isspace ch \<longleftrightarrow> ch \<in> set [CHR '' '', CHR 0x09, CHR 0x0A, CHR 0x0B, CHR 0x0C, CHR 0x0D]"

definition hex_value :: "char \<Rightarrow> nat option" where
  "hex_value ch = map_of (zip ''0123456789abcdefABCDEF'' ([0..<16] @ [10..<16])) ch"

definition hex_number :: "string \<Rightarrow> nat" where
  "hex_number s = foldl (\<lambda>n ch. 16 * n + (case hex_value ch of None \<Rightarrow> 0 | Some v \<Rightarrow> v)) 0 s"

text \<open>
  \<^verbatim>\<open>%<w>x\<close>: blanks are skipped, a sign and the prefix \<^verbatim>\<open>0x\<close> count for the width, and a prefix without
  a digit does not match. The input may end before the number.
\<close>

datatype 'a scan = Scan_end | Scan_fail | Scanned 'a string

definition scan_sign :: "nat \<Rightarrow> string \<Rightarrow> bool \<times> nat \<times> string" where
  "scan_sign w s = (case s of
     [] \<Rightarrow> (False, w, s)
   | ch # s' \<Rightarrow> if 0 < w \<and> (ch = CHR ''-'' \<or> ch = CHR ''+'') then (ch = CHR ''-'', w - 1, s') else (False, w, s))"

definition scan_prefix :: "nat \<Rightarrow> string \<Rightarrow> nat \<times> string" where
  "scan_prefix w s = (case s of
     a # b # s' \<Rightarrow> if 2 \<le> w \<and> a = CHR ''0'' \<and> (b = CHR ''x'' \<or> b = CHR ''X'') then (w - 2, s') else (w, s)
   | _ \<Rightarrow> (w, s))"

definition scan_x :: "nat \<Rightarrow> string \<Rightarrow> int scan" where
  "scan_x w s =
     (let s = dropWhile isspace s
      in if s = [] then Scan_end
         else let (neg, w, s) = scan_sign w s;
                  (w, s) = scan_prefix w s;
                  ds = takeWhile (\<lambda>ch. hex_value ch \<noteq> None) (take w s)
              in if ds = [] then Scan_fail
                 else Scanned (if neg then - int (hex_number ds) else int (hex_number ds)) (drop (length ds) s))"

text \<open>Numbers with a fixed number of digits are scanned to their value.\<close>

lemma digit_range: "n < 16 \<Longrightarrow> n \<in> set [0..<16]" for n :: nat
  by simp

lemma digit_facts:
  assumes "n < 16"
  shows "hex_value (digit True n) = Some n" "\<not> isspace (digit True n)"
    "digit True n \<noteq> CHR ''-''" "digit True n \<noteq> CHR ''+''" "digit True n \<noteq> CHR ''x''" "digit True n \<noteq> CHR ''X''"
    "digit True n \<noteq> CHR 0x0A" "digit True n \<noteq> CHR 0x00"
proof -
  have "\<forall>n \<in> set [0..<16]. hex_value (digit True n) = Some n \<and> \<not> isspace (digit True n) \<and>
    digit True n \<noteq> CHR ''-'' \<and> digit True n \<noteq> CHR ''+'' \<and> digit True n \<noteq> CHR ''x'' \<and> digit True n \<noteq> CHR ''X'' \<and>
    digit True n \<noteq> CHR 0x0A \<and> digit True n \<noteq> CHR 0x00" by code_simp
  then show "hex_value (digit True n) = Some n" "\<not> isspace (digit True n)"
    "digit True n \<noteq> CHR ''-''" "digit True n \<noteq> CHR ''+''" "digit True n \<noteq> CHR ''x''" "digit True n \<noteq> CHR ''X''"
    "digit True n \<noteq> CHR 0x0A" "digit True n \<noteq> CHR 0x00"
    using digit_range [OF assms] by blast+
qed

lemma fmt_X_Suc:
  assumes "n < 16 ^ Suc w"
  shows "fmt_X (Suc w) n = (if w = 0 then [] else fmt_X w (n div 16)) @ [digit True (n mod 16)]"
proof (cases "n < 16")
  case True
  then have "digits True 16 n = [digit True n]" by (subst digits.simps) simp
  moreover have "digits True 16 0 = [CHR ''0'']" by (subst digits.simps) (simp add: digit_def)
  ultimately show ?thesis using True by (cases w) (simp_all add: fmt_X_def fill_def replicate_append_same [symmetric])
next
  case False
  then have w: "w \<noteq> 0" using assms by (cases w) auto
  have "digits True 16 n = digits True 16 (n div 16) @ [digit True (n mod 16)]" using False by (subst digits.simps) simp
  then show ?thesis using w by (simp add: fmt_X_def fill_def)
qed

lemma fmt_X_step:
  "n < 16 ^ w \<Longrightarrow> 2 \<le> w \<Longrightarrow> fmt_X w n = fmt_X (w - 1) (n div 16) @ [digit True (n mod 16)]"
  using fmt_X_Suc [of n "w - 1"] by simp

lemma fmt_X_1: "n < 16 \<Longrightarrow> fmt_X 1 n = [digit True n]"
  using fmt_X_Suc [of n 0] by simp

lemma fmt_X_2: "n < 256 \<Longrightarrow> fmt_X 2 n = [digit True (n div 16), digit True (n mod 16)]"
  using fmt_X_step [of n 2] fmt_X_1 [of "n div 16"] by (simp add: less_mult_imp_div_less)

lemma fmt_X_4:
  assumes "n < 65536"
  shows "fmt_X 4 n = [digit True (n div 4096), digit True (n div 256 mod 16), digit True (n div 16 mod 16), digit True (n mod 16)]"
proof -
  have "n div 256 < 256" "n div 16 < 4096" using assms by (simp_all add: less_mult_imp_div_less)
  then show ?thesis
    using fmt_X_step [of n 4] fmt_X_step [of "n div 16" 3] fmt_X_2 [of "n div 256"] assms
    by (simp add: div_mult2_eq [symmetric])
qed

lemma scan_X_digits:
  assumes "list_all (\<lambda>n. n < 16) ns" "ns \<noteq> []" "length ns = w"
  shows "scan_x w (map (digit True) ns @ s) = Scanned (int (foldl (\<lambda>m n. 16 * m + n) 0 ns)) s"
proof -
  obtain n ns' where ns: "ns = n # ns'" using assms(2) by (cases ns) auto
  then have n: "n < 16" using assms(1) by simp
  note f = digit_facts [OF n]
  let ?s = "map (digit True) ns @ s"
  have 1: "dropWhile isspace ?s = ?s" using f(2) ns by simp
  have 2: "scan_sign w ?s = (False, w, ?s)" using f(3,4) ns by (simp add: scan_sign_def)
  have 3: "scan_prefix w ?s = (w, ?s)"
  proof (cases ns')
    case Nil
    then show ?thesis using assms(3) ns by (cases s) (simp_all add: scan_prefix_def)
  next
    case (Cons m ms)
    then have "m < 16" using assms(1) ns by simp
    from digit_facts(5,6) [OF this] show ?thesis using ns Cons by (simp add: scan_prefix_def)
  qed
  have h: "hex_value (digit True m) = Some m" if "m \<in> set ns" for m
    using assms(1) that by (auto simp: list_all_iff intro: digit_facts(1))
  have 4: "takeWhile (\<lambda>ch. hex_value ch \<noteq> None) (take w ?s) = map (digit True) ns"
    using assms(3) h by (auto simp: takeWhile_eq_all_conv)
  have 5: "foldl (\<lambda>n ch. 16 * n + (case hex_value ch of None \<Rightarrow> 0 | Some v \<Rightarrow> v)) k (map (digit True) ms) = foldl (\<lambda>m n. 16 * m + n) k ms"
    if "set ms \<subseteq> set ns" for ms k
    using that h by (induction ms arbitrary: k) auto
  define t where "t = ?s"
  have t: "dropWhile isspace t = t" "scan_sign w t = (False, w, t)" "scan_prefix w t = (w, t)" "t \<noteq> []"
      "takeWhile (\<lambda>ch. hex_value ch \<noteq> None) (take w t) = map (digit True) ns" "drop (length ns) t = s"
      "hex_number (map (digit True) ns) = foldl (\<lambda>m n. 16 * m + n) 0 ns"
    using 1 2 3 4 5 [of ns 0] ns by (simp_all add: t_def hex_number_def del: foldl.simps)
  have "scan_x w t = Scanned (int (foldl (\<lambda>m n. 16 * m + n) 0 ns)) s"
    unfolding scan_x_def Let_def t(1,2) using t(3-7) assms(2) by (simp del: not_None_eq)
  then show ?thesis by (simp only: t_def)
qed

lemma scan_X_2: "n < 256 \<Longrightarrow> scan_x 2 (fmt_X 2 n @ s) = Scanned (int n) s"
  using scan_X_digits [of "[n div 16, n mod 16]" 2 s] by (simp add: fmt_X_2 less_mult_imp_div_less)

lemma scan_X_4:
  assumes "n < 65536"
  shows "scan_x 4 (fmt_X 4 n @ s) = Scanned (int n) s"
proof -
  have "n = n div 16 * 16 + n mod 16" "n div 16 = n div 256 * 16 + n div 16 mod 16" "n div 256 = n div 4096 * 16 + n div 256 mod 16"
    using div_mult_mod_eq [of "n div 16" 16] div_mult_mod_eq [of "n div 256" 16] by (simp_all add: div_mult2_eq [symmetric])
  then have "n = 4096 * (n div 4096) + 256 * (n div 256 mod 16) + 16 * (n div 16 mod 16) + n mod 16" by linarith
  then show ?thesis
    using scan_X_digits [of "[n div 4096, n div 256 mod 16, n div 16 mod 16, n mod 16]" 4 s] assms
    by (simp add: fmt_X_4 less_mult_imp_div_less)
qed

end
