(* ===== verification/Print.thy ===== *)
theory Print
  imports CText ErrorRing
begin

text \<open>
  The readable texts of errors, \<^verbatim>\<open>soem/ethercatprint.c\<close>: the tables of the codes, the search in
  them, and the text of an entry of the error list, which is built in the buffer \<^verbatim>\<open>estring\<close>.
  The tables are lists of pairs of a code and its text, as in the source; a text that does not fit
  its buffer makes the operation fail.
\<close>

abbreviation EC_MAXERRORNAME :: nat where "EC_MAXERRORNAME \<equiv> 127"

section \<open>The tables\<close>

definition ec_sdoerrorlist :: "(u32 \<times> string) list" where
  "ec_sdoerrorlist =
    [(0x00000000, ''No error''),
     (0x05030000, ''Toggle bit not changed''),
     (0x05040000, ''SDO protocol timeout''),
     (0x05040001, ''Client/Server command specifier not valid or unknown''),
     (0x05040005, ''Out of memory''),
     (0x06010000, ''Unsupported access to an object''),
     (0x06010001, ''Attempt to read to a write only object''),
     (0x06010002, ''Attempt to write to a read only object''),
     (0x06010003, ''Subindex can not be written, SI0 must be 0 for write access''),
     (0x06010004, ''SDO Complete access not supported for variable length objects''),
     (0x06010005, ''Object length exceeds mailbox size''),
     (0x06010006, ''Object mapped to RxPDO, SDO download blocked''),
     (0x06020000, ''The object does not exist in the object directory''),
     (0x06040041, ''The object can not be mapped into the PDO''),
     (0x06040042, ''The number and length of the objects to be mapped would exceed the PDO length''),
     (0x06040043, ''General parameter incompatibility reason''),
     (0x06040047, ''General internal incompatibility in the device''),
     (0x06060000, ''Access failed due to a hardware error''),
     (0x06070010, ''Data type does not match, length of service parameter does not match''),
     (0x06070012, ''Data type does not match, length of service parameter too high''),
     (0x06070013, ''Data type does not match, length of service parameter too low''),
     (0x06090011, ''Subindex does not exist''),
     (0x06090030, ''Value range of parameter exceeded (only for write access)''),
     (0x06090031, ''Value of parameter written too high''),
     (0x06090032, ''Value of parameter written too low''),
     (0x06090036, ''Maximum value is less than minimum value''),
     (0x08000000, ''General error''),
     (0x08000020, ''Data cannot be transferred or stored to the application''),
     (0x08000021, ''Data cannot be transferred or stored to the application because of local control''),
     (0x08000022, ''Data cannot be transferred or stored to the application because of the present device state''),
     (0x08000023, ''Object dictionary dynamic generation fails or no object dictionary is present''),
     (0xffffffff, ''Unknown'')]"

definition ec_ALstatuscodelist :: "(u16 \<times> string) list" where
  "ec_ALstatuscodelist =
    [(0x0000, ''No error''),
     (0x0001, ''Unspecified error''),
     (0x0002, ''No memory''),
     (0x0011, ''Invalid requested state change''),
     (0x0012, ''Unknown requested state''),
     (0x0013, ''Bootstrap not supported''),
     (0x0014, ''No valid firmware''),
     (0x0015, ''Invalid mailbox configuration''),
     (0x0016, ''Invalid mailbox configuration''),
     (0x0017, ''Invalid sync manager configuration''),
     (0x0018, ''No valid inputs available''),
     (0x0019, ''No valid outputs''),
     (0x001A, ''Synchronization error''),
     (0x001B, ''Sync manager watchdog''),
     (0x001C, ''Invalid sync Manager types''),
     (0x001D, ''Invalid output configuration''),
     (0x001E, ''Invalid input configuration''),
     (0x001F, ''Invalid watchdog configuration''),
     (0x0020, ''Slave needs cold start''),
     (0x0021, ''Slave needs INIT''),
     (0x0022, ''Slave needs PREOP''),
     (0x0023, ''Slave needs SAFEOP''),
     (0x0024, ''Invalid input mapping''),
     (0x0025, ''Invalid output mapping''),
     (0x0026, ''Inconsistent settings''),
     (0x0027, ''Freerun not supported''),
     (0x0028, ''Synchronisation not supported''),
     (0x0029, ''Freerun needs 3buffer mode''),
     (0x002A, ''Background watchdog''),
     (0x002B, ''No valid Inputs and Outputs''),
     (0x002C, ''Fatal sync error''),
     (0x002D, ''No sync error''),
     (0x002E, ''Invalid input FMMU configuration''),
     (0x0030, ''Invalid DC SYNC configuration''),
     (0x0031, ''Invalid DC latch configuration''),
     (0x0032, ''PLL error''),
     (0x0033, ''DC sync IO error''),
     (0x0034, ''DC sync timeout error''),
     (0x0035, ''DC invalid sync cycle time''),
     (0x0036, ''DC invalid sync0 cycle time''),
     (0x0037, ''DC invalid sync1 cycle time''),
     (0x0041, ''MBX_AOE''),
     (0x0042, ''MBX_EOE''),
     (0x0043, ''MBX_COE''),
     (0x0044, ''MBX_FOE''),
     (0x0045, ''MBX_SOE''),
     (0x004F, ''MBX_VOE''),
     (0x0050, ''EEPROM no access''),
     (0x0051, ''EEPROM error''),
     (0x0060, ''Slave restarted locally''),
     (0x0061, ''Device identification value updated''),
     (0x00f0, ''Application controller available''),
     (0xffff, ''Unknown'')]"

definition ec_soeerrorlist :: "(u16 \<times> string) list" where
  "ec_soeerrorlist =
    [(0x0000, ''No error''),
     (0x1001, ''No IDN''),
     (0x1009, ''Invalid access to element 1''),
     (0x2001, ''No Name''),
     (0x2002, ''Name transmission too short''),
     (0x2003, ''Name transmission too long''),
     (0x2004, ''Name cannot be changed (read only)''),
     (0x2005, ''Name is write-protected at this time''),
     (0x3002, ''Attribute transmission too short''),
     (0x3003, ''Attribute transmission too long''),
     (0x3004, ''Attribute cannot be changed (read only)''),
     (0x3005, ''Attribute is write-protected at this time''),
     (0x4001, ''No units''),
     (0x4002, ''Unit transmission too short''),
     (0x4003, ''Unit transmission too long''),
     (0x4004, ''Unit cannot be changed (read only)''),
     (0x4005, ''Unit is write-protected at this time''),
     (0x5001, ''No minimum input value''),
     (0x5002, ''Minimum input value transmission too short''),
     (0x5003, ''Minimum input value transmission too long''),
     (0x5004, ''Minimum input value cannot be changed (read only)''),
     (0x5005, ''Minimum input value is write-protected at this time''),
     (0x6001, ''No maximum input value''),
     (0x6002, ''Maximum input value transmission too short''),
     (0x6003, ''Maximum input value transmission too long''),
     (0x6004, ''Maximum input value cannot be changed (read only)''),
     (0x6005, ''Maximum input value is write-protected at this time''),
     (0x7002, ''Operation data transmission too short''),
     (0x7003, ''Operation data transmission too long''),
     (0x7004, ''Operation data cannot be changed (read only)''),
     (0x7005, ''Operation data is write-protected at this time (state)''),
     (0x7006, ''Operation data is smaller than the minimum input value''),
     (0x7007, ''Operation data is smaller than the maximum input value''),
     (0x7008, ''Invalid operation data:Configured IDN will not be supported''),
     (0x7009, ''Operation data write protected by a password''),
     (0x700A, ''Operation data is write protected, it is configured cyclically''),
     (0x700B, ''Invalid indirect addressing: (e.g., data container, list handling)''),
     (0x700C, ''Operation data is write protected, due to other settings''),
     (0x700D, ''Reserved''),
     (0x7010, ''Procedure command already active''),
     (0x7011, ''Procedure command not interruptible''),
     (0x7012, ''Procedure command at this time not executable (state)''),
     (0x7013, ''Procedure command not executable (invalid or false parameters)''),
     (0x7014, ''No data state''),
     (0x8001, ''No default value''),
     (0x8002, ''Default value transmission too long''),
     (0x8004, ''Default value cannot be changed, read only''),
     (0x800A, ''Invalid drive number''),
     (0x800A, ''General error''),
     (0x800A, ''No element addressed''),
     (0xffff, ''Unknown'')]"

definition ec_mbxerrorlist :: "(u16 \<times> string) list" where
  "ec_mbxerrorlist =
    [(0x0000, ''No error''),
     (0x0001, ''Syntax of 6 octet Mailbox Header is wrong''),
     (0x0002, ''The mailbox protocol is not supported''),
     (0x0003, ''Channel Field contains wrong value''),
     (0x0004, ''The service is no supported''),
     (0x0005, ''Invalid mailbox header''),
     (0x0006, ''Length of received mailbox data is too short''),
     (0x0007, ''No more memory in slave''),
     (0x0008, ''The length of data is inconsistent''),
     (0xffff, ''Unknown'')]"

section \<open>The search\<close>

text \<open>The loop over the entries, up to the one with the code \<open>e\<close> that ends the table.\<close>

definition lookup_body :: "('a \<times> string) list \<Rightarrow> 'a \<Rightarrow> 'a \<Rightarrow> nat \<Rightarrow> (nat \<times> bool) option" where
  "lookup_body tbl e code i = do {
     (c, _) \<leftarrow> arr_get tbl i;
     if c \<noteq> e \<and> c \<noteq> code then Some (i + 1, True) else Some (i, False)
   }"

definition lookup_text :: "('a \<times> string) list \<Rightarrow> 'a \<Rightarrow> 'a \<Rightarrow> string option" where
  "lookup_text tbl e code = do {
     i \<leftarrow> do_while (lookup_body tbl e code) 0;
     (_, s) \<leftarrow> arr_get tbl i;
     Some s
   }"

definition ec_sdoerror2string :: "u32 \<Rightarrow> string option" where
  "ec_sdoerror2string = lookup_text ec_sdoerrorlist 0xffffffff"

definition ec_ALstatuscode2string :: "u16 \<Rightarrow> string option" where
  "ec_ALstatuscode2string = lookup_text ec_ALstatuscodelist 0xffff"

definition ec_soeerror2string :: "u16 \<Rightarrow> string option" where
  "ec_soeerror2string = lookup_text ec_soeerrorlist 0xffff"

definition ec_mbxerror2string :: "u16 \<Rightarrow> string option" where
  "ec_mbxerror2string = lookup_text ec_mbxerrorlist 0xffff"

section \<open>The text of an error\<close>

text \<open>\<^verbatim>\<open>timestr\<close>, 20 bytes with the final zero.\<close>

definition time_string :: "ec_timet \<Rightarrow> string option" where
  "time_string t = do {
     let s = ''Time:'' @ fmt_12_3f (time_double (unat (t_sec t)) (unat (t_usec t)));
     chk (length s < 20);
     Some s
   }"

definition err_text :: "string \<Rightarrow> ec_error \<Rightarrow> string option" where
  "err_text time e =
     (let slave = fmt_d (unat (Slave e));
          index = fmt_x 4 (unat (Index e)) @ ''.'' @ fmt_x 2 (unat (SubIdx e))
      in case Etype e of
        EC_ERR_TYPE_SDO_ERROR \<Rightarrow> do {
          s \<leftarrow> ec_sdoerror2string (AbortCode e);
          Some (time @ '' SDO slave:'' @ slave @ '' index:'' @ index @ '' error:'' @ fmt_x 8 (unat (AbortCode e)) @ '' '' @ s @ ''\<newline>'')
        }
      | EC_ERR_TYPE_EMERGENCY \<Rightarrow>
          Some (time @ '' EMERGENCY slave:'' @ slave @ '' error:'' @ fmt_x 4 (unat (ErrorCode e)) @ ''\<newline>'')
      | EC_ERR_TYPE_PACKET_ERROR \<Rightarrow>
          Some (time @ '' PACKET slave:'' @ slave @ '' index:'' @ index @ '' error:'' @ fmt_d (unat (ErrorCode e)) @ ''\<newline>'')
      | EC_ERR_TYPE_SDOINFO_ERROR \<Rightarrow> do {
          s \<leftarrow> ec_sdoerror2string (AbortCode e);
          Some (time @ '' SDO slave:'' @ slave @ '' index:'' @ index @ '' error:'' @ fmt_x 8 (unat (AbortCode e)) @ '' '' @ s @ ''\<newline>'')
        }
      | EC_ERR_TYPE_SOE_ERROR \<Rightarrow> do {
          s \<leftarrow> ec_soeerror2string (ErrorCode e);
          Some (time @ '' SoE slave:'' @ slave @ '' IDN:'' @ fmt_x 4 (unat (Index e)) @ '' error:'' @ fmt_x 4 (unat (AbortCode e)) @ '' '' @ s @ ''\<newline>'')
        }
      | EC_ERR_TYPE_MBX_ERROR \<Rightarrow> do {
          s \<leftarrow> ec_mbxerror2string (ErrorCode e);
          Some (time @ '' MBX slave:'' @ slave @ '' error:'' @ fmt_x 4 (unat (ErrorCode e)) @ '' '' @ s @ ''\<newline>'')
        }
      | _ \<Rightarrow> Some (time @ '' error:'' @ fmt_x 8 (unat (AbortCode e)) @ ''\<newline>''))"

definition ecx_err2string :: "ec_error \<Rightarrow> string option" where
  "ecx_err2string e = do {
     time \<leftarrow> time_string (Time e);
     s \<leftarrow> err_text time e;
     chk (length s < EC_MAXERRORNAME);
     Some s
   }"

definition ecx_elist2string :: "ecx_context \<Rightarrow> (string \<times> ecx_context) option" where
  "ecx_elist2string c = do {
     (r, Ec, c) \<leftarrow> ecx_poperror c;
     if r then do {
       s \<leftarrow> ecx_err2string Ec;
       Some (s, c)
     } else Some ([], c)
   }"

section \<open>Properties\<close>

lemma lookup_loop:
  assumes "tbl = pre @ post @ [(e, s)]" "e \<notin> fst ` set post"
  shows "\<exists>j. do_while (lookup_body tbl e code) (length pre) = Some j \<and>
    arr_get tbl j = Some (case map_of post code of None \<Rightarrow> (e, s) | Some t \<Rightarrow> (code, t))"
  using assms
proof (induction post arbitrary: pre)
  case Nil
  then show ?case
    by (intro exI [of _ "length pre"]) (simp add: do_while_stop lookup_body_def arr_get_def nth_append)
next
  case (Cons a post)
  obtain c t where a: "a = (c, t)" by fastforce
  have get: "arr_get tbl (length pre) = Some (c, t)" using Cons.prems(1) a by (simp add: arr_get_def nth_append)
  show ?case
  proof (cases "c = code")
    case True
    have "lookup_body tbl e code (length pre) = Some (length pre, False)" using get True by (simp add: lookup_body_def del: arr_get_Some)
    then show ?thesis using get a True by (intro exI [of _ "length pre"]) (simp add: do_while_stop del: arr_get_Some)
  next
    case False
    have "c \<noteq> e" using Cons.prems(2) a by auto
    then have "lookup_body tbl e code (length pre) = Some (length (pre @ [a]), True)"
      using get False by (simp add: lookup_body_def del: arr_get_Some)
    then have "do_while (lookup_body tbl e code) (length pre) = do_while (lookup_body tbl e code) (length (pre @ [a]))"
      by (simp only: do_while_unfold if_True)
    moreover have "tbl = (pre @ [a]) @ post @ [(e, s)]" "e \<notin> fst ` set post" using Cons.prems by simp_all
    ultimately show ?thesis using Cons.IH [of "pre @ [a]"] False a by simp
  qed
qed

lemma lookup_first:
  assumes "tbl = post @ [(e, s)]" "e \<notin> fst ` set post"
  shows "lookup_text tbl e code = Some (case map_of tbl code of None \<Rightarrow> s | Some t \<Rightarrow> t)"
proof -
  obtain j where "do_while (lookup_body tbl e code) 0 = Some j"
      "arr_get tbl j = Some (case map_of post code of None \<Rightarrow> (e, s) | Some t \<Rightarrow> (code, t))"
    using lookup_loop [of tbl "[]" post e s code] assms by auto
  then have "lookup_text tbl e code = Some (case map_of post code of None \<Rightarrow> s | Some t \<Rightarrow> t)"
    by (simp add: lookup_text_def del: arr_get_Some split: option.splits)
  then show ?thesis using assms(1) by (simp add: map_add_def split: option.splits)
qed

lemma error_texts:
  "ec_sdoerror2string a = Some (case map_of ec_sdoerrorlist a of None \<Rightarrow> ''Unknown'' | Some s \<Rightarrow> s)"
  "ec_ALstatuscode2string b = Some (case map_of ec_ALstatuscodelist b of None \<Rightarrow> ''Unknown'' | Some s \<Rightarrow> s)"
  "ec_soeerror2string b = Some (case map_of ec_soeerrorlist b of None \<Rightarrow> ''Unknown'' | Some s \<Rightarrow> s)"
  "ec_mbxerror2string b = Some (case map_of ec_mbxerrorlist b of None \<Rightarrow> ''Unknown'' | Some s \<Rightarrow> s)"
proof -
  have first: "lookup_text tbl e code = Some (case map_of tbl code of None \<Rightarrow> s | Some t \<Rightarrow> t)"
    if "tbl \<noteq> []" "last tbl = (e, s)" "e \<notin> fst ` set (butlast tbl)" for tbl and e code :: 'x and s
    by (rule lookup_first [of tbl "butlast tbl"]) (use that append_butlast_last_id [of tbl] in simp_all)
  show "ec_sdoerror2string a = Some (case map_of ec_sdoerrorlist a of None \<Rightarrow> ''Unknown'' | Some s \<Rightarrow> s)"
    unfolding ec_sdoerror2string_def by (rule first) (simp_all add: ec_sdoerrorlist_def)
  show "ec_ALstatuscode2string b = Some (case map_of ec_ALstatuscodelist b of None \<Rightarrow> ''Unknown'' | Some s \<Rightarrow> s)"
    unfolding ec_ALstatuscode2string_def by (rule first) (simp_all add: ec_ALstatuscodelist_def)
  show "ec_soeerror2string b = Some (case map_of ec_soeerrorlist b of None \<Rightarrow> ''Unknown'' | Some s \<Rightarrow> s)"
    unfolding ec_soeerror2string_def by (rule first) (simp_all add: ec_soeerrorlist_def)
  show "ec_mbxerror2string b = Some (case map_of ec_mbxerrorlist b of None \<Rightarrow> ''Unknown'' | Some s \<Rightarrow> s)"
    unfolding ec_mbxerror2string_def by (rule first) (simp_all add: ec_mbxerrorlist_def)
qed

text \<open>
  The search in each of the four tables always ends inside the table and gives the text of
  the first entry with the code, and the text for unknown codes when there is none.
\<close>

theorem error_texts_first:
  "ec_sdoerror2string a = Some (case map_of ec_sdoerrorlist a of None \<Rightarrow> ''Unknown'' | Some s \<Rightarrow> s) \<and>
   ec_ALstatuscode2string b = Some (case map_of ec_ALstatuscodelist b of None \<Rightarrow> ''Unknown'' | Some s \<Rightarrow> s) \<and>
   ec_soeerror2string c = Some (case map_of ec_soeerrorlist c of None \<Rightarrow> ''Unknown'' | Some s \<Rightarrow> s) \<and>
   ec_mbxerror2string d = Some (case map_of ec_mbxerrorlist d of None \<Rightarrow> ''Unknown'' | Some s \<Rightarrow> s)"
  by (simp add: error_texts)

text \<open>The lengths of the texts.\<close>

definition long_codes :: "u32 list" where
  "long_codes = [0x06040042, 0x06070010, 0x08000021, 0x08000022, 0x08000023]"

lemma map_of_texts:
  assumes "list_all (\<lambda>(c, s). P c s) tbl" "P code d"
  shows "P code (case map_of tbl code of None \<Rightarrow> d | Some s \<Rightarrow> s)"
  using assms by (auto simp: list_all_iff split: option.splits dest: map_of_SomeD)

lemma sdo_text_length:
  "if a \<in> set long_codes then 68 \<le> length (case map_of ec_sdoerrorlist a of None \<Rightarrow> ''Unknown'' | Some s \<Rightarrow> s)
   else length (case map_of ec_sdoerrorlist a of None \<Rightarrow> ''Unknown'' | Some s \<Rightarrow> s) \<le> 62"
proof (cases "a \<in> set long_codes")
  case True
  then show ?thesis by (auto simp: long_codes_def ec_sdoerrorlist_def)
next
  case False
  have "a \<notin> set long_codes \<longrightarrow> length (case map_of ec_sdoerrorlist a of None \<Rightarrow> ''Unknown'' | Some s \<Rightarrow> s) \<le> 62"
    by (rule map_of_texts [where P = "\<lambda>a s. a \<notin> set long_codes \<longrightarrow> length s \<le> 62"]) (simp_all add: ec_sdoerrorlist_def long_codes_def)
  with False show ?thesis by simp
qed

lemma soe_text_length: "length (case map_of ec_soeerrorlist a of None \<Rightarrow> ''Unknown'' | Some s \<Rightarrow> s) \<le> 66"
  by (rule map_of_texts [where P = "\<lambda>_ s. length s \<le> 66"]) (simp_all add: ec_soeerrorlist_def)

lemma mbx_text_length: "length (case map_of ec_mbxerrorlist a of None \<Rightarrow> ''Unknown'' | Some s \<Rightarrow> s) \<le> 44"
  by (rule map_of_texts [where P = "\<lambda>_ s. length s \<le> 44"]) (simp_all add: ec_mbxerrorlist_def)

lemma time_string_returns: "\<exists>t. time_string ts = Some t \<and> 17 \<le> length t \<and> length t \<le> 19"
proof -
  have "unat (t_sec ts) < 2 ^ 32" "unat (t_usec ts) < 2 ^ 32"
    by (rule less_le_trans [OF unsigned_less], simp)+
  from time_text_length [OF this] show ?thesis by (auto simp: time_string_def)
qed

lemma fmt_x_word:
  "length (fmt_x 4 (unat (i :: u16))) = 4" "length (fmt_x 2 (unat (j :: u8))) = 2" "length (fmt_x 8 (unat (k :: u32))) = 8"
  by (rule fmt_x_length, rule less_le_trans [OF unsigned_less], simp_all)+

lemma fmt_d_word: "length (fmt_d (unat (i :: u16))) \<le> 5"
proof (rule fmt_d_length)
  have "unat i < 65536" by (rule less_le_trans [OF unsigned_less]) simp
  then show "unat i < 10 ^ 5" by simp
qed simp

text \<open>
  C35: with slave numbers below 1000, the text of an error overruns the 127 bytes of \<^verbatim>\<open>estring\<close>
  exactly when it reports one of five abort codes of an object access, among them "because of the
  present device state"; every other entry of the error list has a text that fits, and the text of
  the time always fits its 20 bytes.
\<close>

theorem err2string_overflow:
  assumes "Slave e < 1000" "AbortCode e < 0x10000 \<or> Etype e \<noteq> EC_ERR_TYPE_SOE_ERROR"
  shows "ecx_err2string e = None \<longleftrightarrow> (Etype e = EC_ERR_TYPE_SDO_ERROR \<or> Etype e = EC_ERR_TYPE_SDOINFO_ERROR) \<and>
    AbortCode e \<in> {0x06040042, 0x06070010, 0x08000021, 0x08000022, 0x08000023}"
proof -
  obtain t where t: "time_string (Time e) = Some t" "17 \<le> length t" "length t \<le> 19" using time_string_returns by blast
  have s: "length (fmt_d (unat (Slave e))) \<le> 3" "1 \<le> length (fmt_d (unat (Slave e)))"
    using assms(1) fmt_d_pos [of "unat (Slave e)"] by (auto simp: word_less_nat_alt Suc_le_eq intro!: fmt_d_length)
  have a: "length (fmt_x 4 (unat (AbortCode e))) = 4" if "Etype e = EC_ERR_TYPE_SOE_ERROR"
    using assms(2) that by (intro fmt_x_length) (simp_all add: word_less_nat_alt)
  have five: "AbortCode e \<in> {0x06040042, 0x06070010, 0x08000021, 0x08000022, 0x08000023} \<longleftrightarrow> AbortCode e \<in> set long_codes"
    by (simp add: long_codes_def)
  note lens = sdo_text_length [of "AbortCode e"] soe_text_length [of "ErrorCode e"] mbx_text_length [of "ErrorCode e"] fmt_d_word [of "ErrorCode e"]
  show ?thesis
    unfolding five
    by (cases "Etype e") (use t s a lens in \<open>simp_all add: ecx_err2string_def err_text_def Let_def error_texts fmt_x_word split: if_splits\<close>)
qed

theorem err2string_overflow_witness:
  "ecx_err2string (set_AbortCode 0x08000022 (no_error\<lparr>Slave := 1\<rparr>)) = None"
proof -
  have "AbortCode (no_error\<lparr>Slave := 1\<rparr>) = 0"
    by (simp add: AbortCode_def no_error_def dec32_def get32_def get16_def mk16_def list_buf_def enc16_def lo8_def hi8_def)
  then show ?thesis
    using err2string_overflow [of "set_AbortCode 0x08000022 (no_error\<lparr>Slave := 1\<rparr>)"] by (simp add: set_AbortCode_def [symmetric])
      (simp add: set_AbortCode_def no_error_def)
qed

text \<open>The text of a time and of an emergency.\<close>

lemma time_double_demo: "time_double 12 345678 = (222399963361744512, 54)"
  by (simp add: time_double_def round_div_def scale.simps excess.simps Let_def split del: if_split)

lemma time_string_demo: "time_string \<lparr>t_sec = 12, t_usec = 345678\<rparr> = Some ''Time:      12.346''"
proof -
  have "fmt_12_3f (time_double 12 345678) = ''      12.346''"
    unfolding time_double_demo
    by (simp add: fmt_12_3f_def round_div_def digits.simps digit_def fill_def Let_def split del: if_split) (simp add: numeral_eq_Suc)
  then show ?thesis by (simp add: time_string_def)
qed

lemma emergency_text_demo:
  "err_text ''Time:      12.346'' (no_error\<lparr>Etype := EC_ERR_TYPE_EMERGENCY, Slave := 3, ErrorCode := 0x8110\<rparr>) =
    Some ''Time:      12.346 EMERGENCY slave:3 error:8110\<newline>''"
proof -
  have "fmt_d 3 = ''3''" "fmt_x 4 0x8110 = ''8110''"
    by (simp_all add: fmt_d_def fmt_x_def digits.simps digit_def fill_def split del: if_split)
  then show ?thesis by (simp add: err_text_def)
qed

end
