(* ===== verification/Drive.thy ===== *)
theory Drive
  imports CoeInfo Print
begin

text \<open>
  The control of the servo drive in the application \<^verbatim>\<open>test/linux/simple_test/simple_test.c\<close>: the
  state of the drive read from its status word, the control word chosen for it, the commands in
  the outputs \<^verbatim>\<open>opPDO\<close>, the set-up of the drive with its process data objects, and the
  synchronisation of the cycle with the distributed clock. Of what is printed only the texts of
  errors are modelled.
\<close>

section \<open>Constants\<close>

abbreviation STATE_MACHINE_STAT_UNKNOWN :: u16 where "STATE_MACHINE_STAT_UNKNOWN \<equiv> 0"
abbreviation STATE_MACHINE_STAT_NOT_RDY_TO_SWITCH_ON :: u16 where "STATE_MACHINE_STAT_NOT_RDY_TO_SWITCH_ON \<equiv> 1"
abbreviation STATE_MACHINE_STAT_SWITCH_ON_DISABLED :: u16 where "STATE_MACHINE_STAT_SWITCH_ON_DISABLED \<equiv> 2"
abbreviation STATE_MACHINE_STAT_RDY_TO_SWITCH_ON :: u16 where "STATE_MACHINE_STAT_RDY_TO_SWITCH_ON \<equiv> 3"
abbreviation STATE_MACHINE_STAT_SWITCHED_ON :: u16 where "STATE_MACHINE_STAT_SWITCHED_ON \<equiv> 4"
abbreviation STATE_MACHINE_STAT_OPERATION_ENABLED :: u16 where "STATE_MACHINE_STAT_OPERATION_ENABLED \<equiv> 5"
abbreviation STATE_MACHINE_STAT_FAULT :: u16 where "STATE_MACHINE_STAT_FAULT \<equiv> 6"
abbreviation STATE_MACHINE_STAT_FAULT_REACTION_ACTIVE :: u16 where "STATE_MACHINE_STAT_FAULT_REACTION_ACTIVE \<equiv> 7"
abbreviation STATE_MACHINE_STAT_QUICK_STOP_ACTIVE :: u16 where "STATE_MACHINE_STAT_QUICK_STOP_ACTIVE \<equiv> 8"
abbreviation STATE_MACHINE_STAT_SWITCH_ON_DISABLED_WITH_VE :: u16 where "STATE_MACHINE_STAT_SWITCH_ON_DISABLED_WITH_VE \<equiv> 9"

abbreviation CTL_WD_SHUT_DOWN :: u16 where "CTL_WD_SHUT_DOWN \<equiv> 1"
abbreviation CTL_WD_SWITCH_ON :: u16 where "CTL_WD_SWITCH_ON \<equiv> 2"
abbreviation CTL_WD_DISABLE_VTG :: u16 where "CTL_WD_DISABLE_VTG \<equiv> 3"
abbreviation CTL_WD_QUICK_STOP :: u16 where "CTL_WD_QUICK_STOP \<equiv> 4"
abbreviation CTL_WD_DISABLE_OPN :: u16 where "CTL_WD_DISABLE_OPN \<equiv> 5"
abbreviation CTL_WD_ENABLE_OPN :: u16 where "CTL_WD_ENABLE_OPN \<equiv> 6"
abbreviation CTL_WD_ENABLE_IP :: u16 where "CTL_WD_ENABLE_IP \<equiv> 7"
abbreviation CTL_WD_FAULT_RESET :: u16 where "CTL_WD_FAULT_RESET \<equiv> 8"
abbreviation CTL_WD_STOP :: u16 where "CTL_WD_STOP \<equiv> 9"
abbreviation CTL_WD_NEW_SET_POINT :: u16 where "CTL_WD_NEW_SET_POINT \<equiv> 11"
abbreviation CTL_WD_PP_MODE :: u16 where "CTL_WD_PP_MODE \<equiv> 12"

abbreviation INPUT_OFFSET_ERRCODE :: nat where "INPUT_OFFSET_ERRCODE \<equiv> 0"
abbreviation INPUT_OFFSET_STATUSWORD :: nat where "INPUT_OFFSET_STATUSWORD \<equiv> 2"
abbreviation INPUT_OFFSET_MODE_OF_OPN_DISP :: nat where "INPUT_OFFSET_MODE_OF_OPN_DISP \<equiv> 4"
abbreviation INPUT_OFFSET_POSN_ACTUAL_VALUE :: nat where "INPUT_OFFSET_POSN_ACTUAL_VALUE \<equiv> 5"
abbreviation INPUT_OFFSET_VEL_ACTUAL_VALUE :: nat where "INPUT_OFFSET_VEL_ACTUAL_VALUE \<equiv> 9"
abbreviation INPUT_OFFSET_TQ_ACTUAL_VALUE :: nat where "INPUT_OFFSET_TQ_ACTUAL_VALUE \<equiv> 11"

abbreviation OUTPUT_OFFSET_CTLWD :: nat where "OUTPUT_OFFSET_CTLWD \<equiv> 0"
abbreviation OUTPUT_OFFSET_MODE_OF_OPN :: nat where "OUTPUT_OFFSET_MODE_OF_OPN \<equiv> 2"
abbreviation OUTPUT_OFFSET_TARGET_TQ :: nat where "OUTPUT_OFFSET_TARGET_TQ \<equiv> 3"
abbreviation OUTPUT_OFFSET_MAX_TQ :: nat where "OUTPUT_OFFSET_MAX_TQ \<equiv> 5"
abbreviation OUTPUT_OFFSET_TARGET_POSN :: nat where "OUTPUT_OFFSET_TARGET_POSN \<equiv> 7"
abbreviation OUTPUT_OFFSET_MAX_MOTOR_SPEED :: nat where "OUTPUT_OFFSET_MAX_MOTOR_SPEED \<equiv> 11"

abbreviation MANUFACTURER_ID :: u32 where "MANUFACTURER_ID \<equiv> 0x0000066F"
abbreviation PRODUCT_ID :: u32 where "PRODUCT_ID \<equiv> 0x60380008"

section \<open>The state of the drive\<close>

text \<open>The variables of the application that belong to the drive.\<close>

record drive =
  uiDriveStatus :: u16
  uiErrorFlag :: u16
  uiSetPtAck :: u16
  uiInterpolationEnableFlag :: u32
  uiInterpolationActive :: u32
  uiTargetReachedFlag :: u32
  uiDelMeStatus :: u16
  uiCtlWd :: u16
  uiOpnEnabled :: u32
  opPDO :: "u8 list"
  getReasonForLossOfOperationalMode :: int
  scanCntr :: int
  updatePrintCntr :: int

definition drive_init :: drive where
  "drive_init = \<lparr>uiDriveStatus = 0, uiErrorFlag = 0, uiSetPtAck = 0, uiInterpolationEnableFlag = 0, uiInterpolationActive = 0,
     uiTargetReachedFlag = 0, uiDelMeStatus = 0, uiCtlWd = 0, uiOpnEnabled = 0, opPDO = replicate 19 0,
     getReasonForLossOfOperationalMode = 0, scanCntr = 0, updatePrintCntr = 0\<rparr>"

text \<open>One test of the status word: when it holds, the state is set and marked as updated.\<close>

definition status_test :: "u16 \<Rightarrow> u16 \<Rightarrow> u16 \<Rightarrow> u16 \<Rightarrow> u16 \<times> bool \<Rightarrow> u16 \<times> bool" where
  "status_test st msk val res = (\<lambda>(d, updated). if st AND msk = val then (res, True) else (d, updated))"

definition updateStatus :: "u16 \<Rightarrow> drive \<Rightarrow> drive" where
  "updateStatus st v = (
     let r = (uiDriveStatus v, False);
         r = status_test st 0x4F 0x00 STATE_MACHINE_STAT_NOT_RDY_TO_SWITCH_ON r;
         r = status_test st 0x4F 0x40 STATE_MACHINE_STAT_SWITCH_ON_DISABLED r;
         r = status_test st 0x6F 0x21 STATE_MACHINE_STAT_RDY_TO_SWITCH_ON r;
         r = status_test st 0x6F 0x23 STATE_MACHINE_STAT_SWITCHED_ON r;
         r = status_test st 0x6F 0x27 STATE_MACHINE_STAT_OPERATION_ENABLED r;
         r = status_test st 0x6F 0x07 STATE_MACHINE_STAT_QUICK_STOP_ACTIVE r;
         r = status_test st 0x6F 0x0F STATE_MACHINE_STAT_FAULT_REACTION_ACTIVE r;
         (d, updated) = status_test st 0x4F 0x08 STATE_MACHINE_STAT_FAULT r
     in v\<lparr>uiDriveStatus := (if updated then d else STATE_MACHINE_STAT_UNKNOWN),
          uiDelMeStatus := (if st AND 0x6F = 0x27 then st else uiDelMeStatus v),
          uiErrorFlag := (if st AND 0x80 = 0x80 then 1 else 0),
          uiSetPtAck := (if st AND 0x1000 = 0x1000 then 1 else 0),
          uiInterpolationActive := (if uiInterpolationEnableFlag v = 1 then if st AND 0x1000 = 0x1000 then 1 else 0
            else uiInterpolationActive v),
          uiTargetReachedFlag := (if st AND 0x400 = 0x400 then 1 else 0)\<rparr>)"

section \<open>The control word\<close>

text \<open>
  The new control word and the new \<^verbatim>\<open>uiOpnEnabled\<close>. Where the code works on the halves of the
  word, the high byte is cleared and the bits are set in the low byte alone.
\<close>

definition control_word :: "u16 \<Rightarrow> u16 \<Rightarrow> u32 \<Rightarrow> u16 \<times> u32" where
  "control_word desired w en =
     (if desired = CTL_WD_SHUT_DOWN then (6, 0)
      else if desired = CTL_WD_SWITCH_ON then (0x07, 0)
      else if desired = CTL_WD_DISABLE_VTG then (0, 0)
      else if desired = CTL_WD_QUICK_STOP then (ucast ((lo8 w OR 0x02) AND NOT 0x04), 0)
      else if desired = CTL_WD_DISABLE_OPN then (w, 0)
      else if desired = CTL_WD_ENABLE_OPN then (0x0F, if en = 0 then 1 else en)
      else if desired = CTL_WD_PP_MODE then (0x1F, en)
      else if desired = CTL_WD_ENABLE_IP then (ucast (lo8 w OR 0x1F), 0)
      else if desired = CTL_WD_FAULT_RESET then (ucast (lo8 w OR 0x80), 0)
      else if desired = CTL_WD_STOP then (ucast (lo8 w OR lo8 0x100), 0)
      else if desired = CTL_WD_NEW_SET_POINT then (w OR 0x10, en)
      else (w, en))"

definition modifyControlWord :: "u16 \<Rightarrow> drive \<Rightarrow> drive" where
  "modifyControlWord desired v =
     (let (w, en) = control_word desired (uiCtlWd v) (uiOpnEnabled v)
      in v\<lparr>uiCtlWd := w,
           opPDO := (opPDO v)[OUTPUT_OFFSET_CTLWD := lo8 w, OUTPUT_OFFSET_CTLWD + 1 := hi8 w,
             OUTPUT_OFFSET_TARGET_TQ := 0, OUTPUT_OFFSET_TARGET_TQ + 1 := 0xFF,
             OUTPUT_OFFSET_MAX_TQ := 0, OUTPUT_OFFSET_MAX_TQ + 1 := 0xFF],
           uiOpnEnabled := (if en = 1 then 2 else en)\<rparr>)"

text \<open>The command for the state of the drive; 0 leaves the control word as it is.\<close>

definition desired_control :: "u16 \<Rightarrow> u16" where
  "desired_control st =
     (if st = STATE_MACHINE_STAT_SWITCH_ON_DISABLED then CTL_WD_SHUT_DOWN
      else if st = STATE_MACHINE_STAT_RDY_TO_SWITCH_ON then CTL_WD_SWITCH_ON
      else if st = STATE_MACHINE_STAT_SWITCHED_ON then CTL_WD_ENABLE_OPN
      else if st = STATE_MACHINE_STAT_OPERATION_ENABLED then 0
      else if st = STATE_MACHINE_STAT_QUICK_STOP_ACTIVE \<or> st = STATE_MACHINE_STAT_NOT_RDY_TO_SWITCH_ON then 0
      else if st = STATE_MACHINE_STAT_FAULT then CTL_WD_FAULT_RESET
      else if st = STATE_MACHINE_STAT_SWITCH_ON_DISABLED_WITH_VE then CTL_WD_DISABLE_VTG
      else CTL_WD_SWITCH_ON)"

definition DriveEnable :: "drive \<Rightarrow> drive" where
  "DriveEnable v =
     modifyControlWord (desired_control (uiDriveStatus v))
       (if uiDriveStatus v = STATE_MACHINE_STAT_SWITCH_ON_DISABLED \<and> getReasonForLossOfOperationalMode v = 1
        then v\<lparr>getReasonForLossOfOperationalMode := 0\<rparr> else v)"

definition StopDrive :: "drive \<Rightarrow> drive" where
  "StopDrive = modifyControlWord CTL_WD_STOP"

definition ShutDownDrive :: "drive \<Rightarrow> drive" where
  "ShutDownDrive = modifyControlWord CTL_WD_SHUT_DOWN"

text \<open>The report of the main loop resets an error of the drive.\<close>

definition printStatus :: "drive \<Rightarrow> drive" where
  "printStatus v =
     (let v = (if uiErrorFlag v = 1 then modifyControlWord CTL_WD_FAULT_RESET v else v)
      in v\<lparr>scanCntr := scanCntr v + 1,
           updatePrintCntr := (if updatePrintCntr v + 1 = 100000 then 0 else updatePrintCntr v + 1)\<rparr>)"

text \<open>A value outside its limits is replaced; the result tells whether it was inside.\<close>

definition ValidateInteger :: "u32 \<Rightarrow> u32 \<Rightarrow> u32 \<Rightarrow> u32 \<Rightarrow> u32 \<times> u32" where
  "ValidateInteger v lo hi fillval =
     (let ret = (if v < lo then 0 else 1); ret = (if v > hi then 0 else ret)
      in (ret, if ret = 0 then fillval else v))"

section \<open>The set-up of the drive\<close>

text \<open>A write of an object: index, subindex and the bytes; the results are added up and not used.\<close>

type_synonym sdo_write = "u16 \<times> u8 \<times> u8 list"

fun sdo_writes :: "u16 \<Rightarrow> sdo_write list \<Rightarrow> ecx_context \<Rightarrow> ecx_context option" where
  "sdo_writes slave [] c = Some c"
| "sdo_writes slave ((idx, subidx, bs) # ws) c = do {
     (_, c) \<leftarrow> ecx_SDOwrite slave idx subidx False (int (length bs)) bs EC_TIMEOUTRXM c;
     sdo_writes slave ws c
   }"

definition dc_mode_writes :: "sdo_write list" where
  "dc_mode_writes = [(0x1C32, 0x01, enc16 2), (0x1C32, 0x02, enc32 2000000), (0x1C33, 0x01, enc16 2), (0x1C33, 0x03, enc32 0), (0x6060, 0x00, [1])]"

definition setDCModeSetup :: "u16 \<Rightarrow> ecx_context \<Rightarrow> ecx_context option" where
  "setDCModeSetup slave = sdo_writes slave dc_mode_writes"

definition position_limit_writes :: "u32 \<Rightarrow> u32 \<Rightarrow> sdo_write list" where
  "position_limit_writes l1 l2 = [(0x607D, 0x01, enc32 l1), (0x607D, 0x02, enc32 l2), (0x607D, 0x00, [2])]"

definition setSoftwarePositionLimit :: "u16 \<Rightarrow> u32 \<Rightarrow> u32 \<Rightarrow> ecx_context \<Rightarrow> ecx_context option" where
  "setSoftwarePositionLimit slave l1 l2 = sdo_writes slave (position_limit_writes l1 l2)"

definition output_pdo_writes :: "sdo_write list" where
  "output_pdo_writes = [(0x1c12, 0, [0]), (0x1600, 0, [0]), (0x1601, 0, [0]), (0x1602, 0, [0]), (0x1603, 0, [0]),
     (0x1600, 1, enc32 0x60400010), (0x1600, 2, enc32 0x60600008), (0x1600, 3, enc32 0x60710010), (0x1600, 4, enc32 0x60720010),
     (0x1600, 5, enc32 0x607A0020), (0x1600, 6, enc32 0x60800020), (0x1600, 7, enc32 0x60FF0020),
     (0x1600, 0, [7]), (0x1C12, 0, [1]), (0x1C12, 1, enc16 0x1600)]"

definition setFlexibleOutputPDO :: "u16 \<Rightarrow> ecx_context \<Rightarrow> ecx_context option" where
  "setFlexibleOutputPDO slave = sdo_writes slave output_pdo_writes"

definition input_pdo_writes :: "sdo_write list" where
  "input_pdo_writes = [(0x1c13, 0, [0]), (0x1A00, 0, [0]), (0x1A01, 0, [0]), (0x1A02, 0, [0]), (0x1A03, 0, [0]),
     (0x1A00, 1, enc32 0x603F0010), (0x1A00, 2, enc32 0x60410010), (0x1A00, 3, enc32 0x60610008), (0x1A00, 4, enc32 0x60640020),
     (0x1A00, 5, enc32 0x606C0020), (0x1A00, 6, enc32 0x606C0020),
     (0x1A00, 0, [6]), (0x1C13, 0, [1]), (0x1C13, 1, enc16 0x1A00)]"

definition setFlexibleInputPDO :: "u16 \<Rightarrow> ecx_context \<Rightarrow> ecx_context option" where
  "setFlexibleInputPDO slave = sdo_writes slave input_pdo_writes"

text \<open>The one-object versions of the last two, which the application does not call.\<close>

definition setOutputPDO :: "u16 \<Rightarrow> u16 \<Rightarrow> ecx_context \<Rightarrow> ecx_context option" where
  "setOutputPDO slave pdo = sdo_writes slave [(0x1c12, 0, [0]), (0x1c12, 1, enc16 pdo), (0x1c12, 0, [1])]"

definition setInputPDO :: "u16 \<Rightarrow> u16 \<Rightarrow> ecx_context \<Rightarrow> ecx_context option" where
  "setInputPDO slave pdo = sdo_writes slave [(0x1c13, 0, [0]), (0x1c13, 1, enc16 pdo), (0x1c13, 0, [1])]"

text \<open>The errors are printed: the text of one is made as long as \<^verbatim>\<open>EcatError\<close> is set.\<close>

definition print_errors :: "ecx_context \<Rightarrow> ecx_context option" where
  "print_errors = while_loop ecaterror (\<lambda>c. do { (_, c) \<leftarrow> ecx_elist2string c; Some c })"

definition PanasonicSetup :: "u16 \<Rightarrow> ecx_context \<Rightarrow> ecx_context option" where
  "PanasonicSetup slave c = do {
     c \<leftarrow> setDCModeSetup slave c;
     c \<leftarrow> setSoftwarePositionLimit slave 0 0 c;
     c \<leftarrow> setFlexibleOutputPDO slave c;
     c \<leftarrow> setFlexibleInputPDO slave c;
     print_errors c
   }"

text \<open>The hook is set for the slaves with the identity of the drive.\<close>

definition panasonic_hook :: "u16 \<Rightarrow> ecx_context \<Rightarrow> ecx_context option" where
  "panasonic_hook slave c = do {
     s \<leftarrow> get_slave slave c;
     if s_eep_man s = MANUFACTURER_ID \<and> s_eep_id s = PRODUCT_ID then PanasonicSetup slave c else Some c
   }"

section \<open>The synchronisation with the clock\<close>

abbreviation NSEC_PER_SEC :: int where "NSEC_PER_SEC \<equiv> 1000000000"

text \<open>Seconds and nanoseconds; division and remainder are those of C.\<close>

definition add_timespec :: "int \<times> int \<Rightarrow> int \<Rightarrow> int \<times> int" where
  "add_timespec ts addtime =
     (let nsec = addtime smod NSEC_PER_SEC;
          sec = (addtime - nsec) sdiv NSEC_PER_SEC;
          s = fst ts + sec; n = snd ts + nsec
      in if n \<ge> NSEC_PER_SEC then (s + (n - n smod NSEC_PER_SEC) sdiv NSEC_PER_SEC, n smod NSEC_PER_SEC) else (s, n))"

text \<open>The arguments are the clock, the cycle and the static \<^verbatim>\<open>integral\<close>; the results the offset, \<^verbatim>\<open>gl_delta\<close> and \<^verbatim>\<open>integral\<close>.\<close>

definition ec_sync :: "int \<Rightarrow> int \<Rightarrow> int \<Rightarrow> (int \<times> int \<times> int) option" where
  "ec_sync reftime cycletime integral = do {
     chk (cycletime \<noteq> 0);
     let delta = (reftime - 50000) smod cycletime;
     let delta = (if delta > cycletime sdiv 2 then delta - cycletime else delta);
     let integral = (if delta > 0 then integral + 1 else integral);
     let integral = (if delta < 0 then integral - 1 else integral);
     Some (- (delta sdiv 100) - integral sdiv 20, delta, integral)
   }"

end
