(* ===== verification/App.thy ===== *)
theory App
  imports Drive ConfigMap ProcessData SlaveState Dc
begin

text \<open>
  The application \<^verbatim>\<open>test/linux/simple_test/simple_test.c\<close> over the master: the thread that exchanges
  the process data and controls the drive, the thread that watches the states of the slaves, the
  main thread that starts the network and reports, and the interleaving of the three. A pass of a
  thread through its loop is one step; the pauses between the passes and the output are left out.
\<close>

abbreviation EC_TIMEOUTMON :: int where "EC_TIMEOUTMON \<equiv> 500"
abbreviation SOCKET_SCAN_CYCLES :: int where "SOCKET_SCAN_CYCLES \<equiv> 20"

section \<open>The state\<close>

text \<open>The pointer \<^verbatim>\<open>ec_slave[0].outputs\<close> ends up at an array of the application.\<close>

datatype out_target = In_IOmap nat | In_opPDO

text \<open>Where the main thread and the thread of the process data are.\<close>

datatype main_pc = M_request | M_wait nat | M_cyclic | M_stop | M_end

datatype rt_pc = R_start | R_loop

record app =
  master :: ecx_context
  drv :: drive
  expectedWKC :: int
  wkc :: int
  needlf :: bool
  inOP :: bool
  currentgroup :: u8
  dorun :: int
  rtcnt :: int
  iErrCode :: u16
  uiStatusWd :: u16
  iPosActualValue :: u32
  ui8ModesOfOpnDisplay :: u8
  uiTqActual :: u16
  ui32RtThreadSpeedCntr :: u32
  uiLoopCntr :: u32
  toff :: int
  gl_delta :: int
  integral :: int
  uiActualPosn :: u32
  uiActualTq :: u32
  iSocketElapsedCntr :: int
  slave0_outputs :: "out_target option"
  mpc :: main_pc
  rpc :: rt_pc

section \<open>The thread of the process data\<close>

text \<open>What is read from the inputs: an access outside the IO map, or without a pointer, fails.\<close>

definition in_byte :: "ecx_context \<Rightarrow> nat \<Rightarrow> nat \<Rightarrow> u8 option" where
  "in_byte c p k = arr_get (iomap c) (p + k)"

definition read_inputs :: "app \<Rightarrow> app option" where
  "read_inputs a = do {
     let c = master a;
     s \<leftarrow> get_slave 0 c;
     p \<leftarrow> s_inputs s;
     e0 \<leftarrow> in_byte c p INPUT_OFFSET_ERRCODE;
     e1 \<leftarrow> in_byte c p (INPUT_OFFSET_ERRCODE + 1);
     s0 \<leftarrow> in_byte c p INPUT_OFFSET_STATUSWORD;
     s1 \<leftarrow> in_byte c p (INPUT_OFFSET_STATUSWORD + 1);
     let v = updateStatus (mk16 s0 s1) (drv a);
     p0 \<leftarrow> in_byte c p INPUT_OFFSET_POSN_ACTUAL_VALUE;
     p1 \<leftarrow> in_byte c p (INPUT_OFFSET_POSN_ACTUAL_VALUE + 1);
     p2 \<leftarrow> in_byte c p (INPUT_OFFSET_POSN_ACTUAL_VALUE + 2);
     p3 \<leftarrow> in_byte c p (INPUT_OFFSET_POSN_ACTUAL_VALUE + 3);
     m \<leftarrow> in_byte c p INPUT_OFFSET_MODE_OF_OPN_DISP;
     t0 \<leftarrow> in_byte c p INPUT_OFFSET_TQ_ACTUAL_VALUE;
     t1 \<leftarrow> in_byte c p (INPUT_OFFSET_TQ_ACTUAL_VALUE + 1);
     Some (a\<lparr>iErrCode := mk16 e0 e1, uiStatusWd := mk16 s0 s1, drv := v, iPosActualValue := dec32 [p0, p1, p2, p3],
       ui8ModesOfOpnDisplay := m, uiTqActual := mk16 t0 t1, ui32RtThreadSpeedCntr := ui32RtThreadSpeedCntr a + 1\<rparr>)
   }"

definition rt_sync :: "int \<Rightarrow> app \<Rightarrow> app option" where
  "rt_sync cycletime a = do {
     s \<leftarrow> get_slave 0 (master a);
     if s_hasdc s then do {
       (t, d, i) \<leftarrow> ec_sync (sint (DCtime (master a))) cycletime (integral a);
       Some (a\<lparr>toff := t, gl_delta := d, integral := i\<rparr>)
     } else Some a
   }"

text \<open>The part that runs while \<^verbatim>\<open>dorun\<close> is set: the first byte of the IO map is counted up.\<close>

definition rt_exchange :: "int \<Rightarrow> app \<Rightarrow> app option" where
  "rt_exchange cycletime a = do {
     let c = master a;
     b \<leftarrow> arr_get (iomap c) 0;
     let c = c\<lparr>iomap := (iomap c)[0 := b + 1]\<rparr>;
     let a = a\<lparr>dorun := dorun a + 1, slave0_outputs := Some In_opPDO,
               drv := (drv a)\<lparr>opPDO := (opPDO (drv a))[OUTPUT_OFFSET_MODE_OF_OPN := 1]\<rparr>\<rparr>;
     (w, c) \<leftarrow> ecx_receive_processdata EC_TIMEOUTRET c;
     a \<leftarrow> rt_sync cycletime (a\<lparr>wkc := w, master := c\<rparr>);
     (_, c) \<leftarrow> ecx_send_processdata (master a);
     read_inputs (a\<lparr>master := c, rtcnt := rtcnt a + 1\<rparr>)
   }"

definition rt_cycle :: "int \<Rightarrow> app \<Rightarrow> app option" where
  "rt_cycle cycletime a = do {
     a \<leftarrow> (if dorun a > 0 then rt_exchange cycletime a else Some a);
     let a = (if inOP a then a\<lparr>drv := DriveEnable (drv a)\<rparr> else a);
     Some (a\<lparr>uiLoopCntr := uiLoopCntr a + 1\<rparr>)
   }"

text \<open>What the thread does before its loop.\<close>

definition rt_start :: "app \<Rightarrow> app option" where
  "rt_start a = do {
     (_, c) \<leftarrow> ecx_send_processdata (master a);
     Some (a\<lparr>toff := 0, dorun := 0, master := c\<rparr>)
   }"

section \<open>The thread that watches the states\<close>

text \<open>One slave; the hook is run when it is configured again.\<close>

definition check_state :: "u8 \<Rightarrow> u16 \<Rightarrow> ecx_context \<Rightarrow> ecx_context option" where
  "check_state grp slave c = do {
     s \<leftarrow> get_slave slave c;
     if s_group s = grp \<and> s_state s \<noteq> EC_STATE_OPERATIONAL then do {
       c \<leftarrow> upd_group grp (\<lambda>g. g\<lparr>g_docheckstate := True\<rparr>) c;
       if s_state s = EC_STATE_SAFE_OP + EC_STATE_ERROR then do {
         c \<leftarrow> upd_slave slave (\<lambda>s. s\<lparr>s_state := EC_STATE_SAFE_OP + EC_STATE_ACK\<rparr>) c;
         (_, c) \<leftarrow> ecx_writestate slave c;
         Some c
       } else if s_state s = EC_STATE_SAFE_OP then do {
         c \<leftarrow> upd_slave slave (\<lambda>s. s\<lparr>s_state := EC_STATE_OPERATIONAL\<rparr>) c;
         (_, c) \<leftarrow> ecx_writestate slave c;
         Some c
       } else if s_state s > EC_STATE_NONE then do {
         (r, c) \<leftarrow> ecx_reconfig_slave panasonic_hook slave EC_TIMEOUTMON c;
         if r \<noteq> 0 then upd_slave slave (\<lambda>s. s\<lparr>s_islost := False\<rparr>) c else Some c
       } else if \<not> s_islost s then do {
         (_, c) \<leftarrow> ecx_statecheck slave EC_STATE_OPERATIONAL EC_TIMEOUTRET c;
         s \<leftarrow> get_slave slave c;
         if s_state s = EC_STATE_NONE then upd_slave slave (\<lambda>s. s\<lparr>s_islost := True\<rparr>) c else Some c
       } else Some c
     } else Some c
   }"

definition check_lost :: "u16 \<Rightarrow> ecx_context \<Rightarrow> ecx_context option" where
  "check_lost slave c = do {
     s \<leftarrow> get_slave slave c;
     if s_islost s then
       if s_state s = EC_STATE_NONE then do {
         (r, c) \<leftarrow> ecx_recover_slave slave EC_TIMEOUTMON c;
         if r \<noteq> 0 then upd_slave slave (\<lambda>s. s\<lparr>s_islost := False\<rparr>) c else Some c
       } else upd_slave slave (\<lambda>s. s\<lparr>s_islost := False\<rparr>) c
     else Some c
   }"

definition check_slaves :: "u8 \<Rightarrow> ecx_context \<Rightarrow> ecx_context option" where
  "check_slaves grp c = do {
     c \<leftarrow> upd_group grp (\<lambda>g. g\<lparr>g_docheckstate := False\<rparr>) c;
     (_, c) \<leftarrow> ecx_readstate c;
     for_slaves (slavecount c) (\<lambda>slave c. do { c \<leftarrow> check_state grp slave c; check_lost slave c }) c
   }"

definition ecatcheck :: "app \<Rightarrow> app option" where
  "ecatcheck a =
     (if inOP a then do {
        g \<leftarrow> get_group (currentgroup a) (master a);
        if wkc a < expectedWKC a \<or> g_docheckstate g then do {
          c \<leftarrow> check_slaves (currentgroup a) (master a);
          Some (a\<lparr>needlf := False, master := c\<rparr>)
        } else Some a
      } else Some a)"

section \<open>The main thread\<close>

text \<open>
  The start up to the creation of the thread: the interface is opened with the results \<open>fd\<close> and
  \<open>bound\<close> of the system, \<open>aliasadr\<close>, \<open>estat\<close>, \<open>mp\<close>, \<open>at\<close> and \<open>hrt\<close> are the contents of variables
  the master does not initialise.
\<close>

definition simpletest_start :: "int \<Rightarrow> int \<Rightarrow> u16 \<Rightarrow> u16 \<Rightarrow> u8 list \<Rightarrow> u8 list \<Rightarrow> u64 \<Rightarrow> app \<Rightarrow> app option" where
  "simpletest_start fd bound aliasadr estat mp at hrt a = do {
     let a = a\<lparr>needlf := False, inOP := False\<rparr>;
     let (rval, p) = ecx_setupnic fd bound False (port (master a));
     let c = (master a)\<lparr>port := p\<rparr>;
     if rval > 0 then do {
       (n, c) \<leftarrow> ecx_config_init False aliasadr estat c;
       if n > 0 then do {
         (_, c) \<leftarrow> ecx_config_map_group panasonic_hook mp at 0 0 c;
         (_, c) \<leftarrow> ecx_configdc hrt c;
         (_, c) \<leftarrow> ecx_statecheck 0 EC_STATE_SAFE_OP (EC_TIMEOUTSTATE * 4) c;
         g \<leftarrow> get_group 0 c;
         c \<leftarrow> upd_slave 0 (\<lambda>s. s\<lparr>s_state := EC_STATE_OPERATIONAL\<rparr>) c;
         (_, c) \<leftarrow> ecx_send_processdata c;
         (_, c) \<leftarrow> ecx_receive_processdata EC_TIMEOUTRET c;
         s \<leftarrow> get_slave 0 c;
         Some (a\<lparr>master := c, expectedWKC := int (unat (g_outputsWKC g)) * 2 + int (unat (g_inputsWKC g)),
           slave0_outputs := map_option In_IOmap (s_outputs s), mpc := M_request, rpc := R_start\<rparr>)
       } else Some (a\<lparr>master := c, mpc := M_end\<rparr>)
     } else Some (a\<lparr>master := c, mpc := M_end\<rparr>)
   }"

text \<open>The request for OP, a round of the wait for it, and a round of the report.\<close>

definition main_request :: "app \<Rightarrow> app option" where
  "main_request a = do {
     (_, c) \<leftarrow> ecx_writestate 0 (master a);
     Some (a\<lparr>master := c, dorun := 1, mpc := M_wait 40\<rparr>)
   }"

definition main_wait :: "nat \<Rightarrow> app \<Rightarrow> app option" where
  "main_wait k a = do {
     (_, c) \<leftarrow> ecx_statecheck 0 EC_STATE_OPERATIONAL 50000 (master a);
     s \<leftarrow> get_slave 0 c;
     if k \<noteq> 0 \<and> s_state s \<noteq> EC_STATE_OPERATIONAL then Some (a\<lparr>master := c, mpc := M_wait (k - 1)\<rparr>)
     else if s_state s = EC_STATE_OPERATIONAL then Some (a\<lparr>master := c, inOP := True, mpc := M_cyclic\<rparr>)
     else do {
       (_, c) \<leftarrow> ecx_readstate c;
       Some (a\<lparr>master := c, mpc := M_stop\<rparr>)
     }
   }"

definition main_cyclic :: "app \<Rightarrow> app" where
  "main_cyclic a =
     (let n = iSocketElapsedCntr a + 1;
          a = a\<lparr>iSocketElapsedCntr := (if n > SOCKET_SCAN_CYCLES then 0 else n)\<rparr>;
          a = (if wkc a \<ge> expectedWKC a then a\<lparr>needlf := True, uiActualPosn := iPosActualValue a, uiActualTq := ucast (uiTqActual a),
                 drv := printStatus (drv a)\<rparr> else a)
      in a\<lparr>drv := printStatus (drv a)\<rparr>)"

definition main_stop :: "app \<Rightarrow> app option" where
  "main_stop a = do {
     c \<leftarrow> upd_slave 0 (\<lambda>s. s\<lparr>s_state := EC_STATE_INIT\<rparr>) (master a);
     (_, c) \<leftarrow> ecx_writestate 0 c;
     Some (a\<lparr>master := c, mpc := M_end\<rparr>)
   }"

section \<open>The three threads\<close>

inductive app_step :: "int \<Rightarrow> app \<Rightarrow> app \<Rightarrow> bool" for cycletime where
  step_rt_start: "rpc a = R_start \<Longrightarrow> rt_start a = Some b \<Longrightarrow> app_step cycletime a (b\<lparr>rpc := R_loop\<rparr>)"
| step_rt_cycle: "rpc a = R_loop \<Longrightarrow> rt_cycle cycletime a = Some b \<Longrightarrow> app_step cycletime a b"
| step_check: "ecatcheck a = Some b \<Longrightarrow> app_step cycletime a b"
| step_request: "mpc a = M_request \<Longrightarrow> main_request a = Some b \<Longrightarrow> app_step cycletime a b"
| step_wait: "mpc a = M_wait k \<Longrightarrow> main_wait k a = Some b \<Longrightarrow> app_step cycletime a b"
| step_cyclic: "mpc a = M_cyclic \<Longrightarrow> app_step cycletime a (main_cyclic a)"
| step_stop: "mpc a = M_stop \<Longrightarrow> main_stop a = Some b \<Longrightarrow> app_step cycletime a b"

inductive app_reach :: "int \<Rightarrow> app \<Rightarrow> app \<Rightarrow> bool" for cycletime where
  reach_start: "app_reach cycletime a a"
| reach_step: "app_reach cycletime a b \<Longrightarrow> app_step cycletime b d \<Longrightarrow> app_reach cycletime a d"

end
