(* ===== verification/DriveProps.thy ===== *)
theory DriveProps
  imports Drive CoeProps
begin

text \<open>
  What holds of the control of the drive: the tests of the status word are a classification, the
  control law brings a drive into operation, a fault is reset at most once, the set-up of the
  drive returns and its layout agrees with the offsets of the application, but for the torque,
  and the synchronisation keeps the distance to the clock within half a cycle.
\<close>

section \<open>The state of the drive\<close>

text \<open>The states of a drive by mask and value of the status word.\<close>

definition ds402_table :: "(u16 \<times> u16 \<times> u16) list" where
  "ds402_table = [(0x4F, 0x00, 1), (0x4F, 0x40, 2), (0x6F, 0x21, 3), (0x6F, 0x23, 4), (0x6F, 0x27, 5), (0x4F, 0x08, 6), (0x6F, 0x0F, 7), (0x6F, 0x07, 8)]"

definition row_matches :: "u16 \<Rightarrow> u16 \<times> u16 \<times> u16 \<Rightarrow> bool" where
  "row_matches st = (\<lambda>(m, v, _). st AND m = v)"

definition classify :: "(u16 \<times> u16 \<times> u16) list \<Rightarrow> u16 \<Rightarrow> u16" where
  "classify tbl st = (case find (row_matches st) tbl of None \<Rightarrow> STATE_MACHINE_STAT_UNKNOWN | Some (_, _, r) \<Rightarrow> r)"

text \<open>No status word matches two rows: the common bits of the masks tell them apart.\<close>

lemma rows_apart: "\<forall>(m, v, r) \<in> set ds402_table. \<forall>(m', v', r') \<in> set ds402_table. (m, v, r) = (m', v', r') \<or> v AND m' \<noteq> v' AND m"
  by (simp add: ds402_table_def)

lemma row_unique:
  assumes "t \<in> set ds402_table" "t' \<in> set ds402_table" "row_matches st t" "row_matches st t'"
  shows "t = t'"
proof (rule ccontr)
  assume "t \<noteq> t'"
  obtain m v r m' v' r' where t: "t = (m, v, r)" "t' = (m', v', r')" by (cases t, cases t')
  have "v AND m' = v' AND m" using assms(3,4) by (auto simp: row_matches_def t ac_simps)
  with rows_apart assms(1,2) \<open>t \<noteq> t'\<close> show False by (auto simp: t)
qed

lemma classify_row:
  assumes "set tbl = set ds402_table" "t \<in> set ds402_table" "row_matches st t"
  shows "classify tbl st = snd (snd t)"
proof -
  have "find (row_matches st) tbl \<noteq> None" using assms unfolding find_None_iff by blast
  then obtain u where u: "find (row_matches st) tbl = Some u" by blast
  then have "u \<in> set ds402_table" "row_matches st u" using assms(1) by (auto simp: find_Some_iff set_conv_nth)
  with row_unique assms(2,3) have "u = t" by blast
  with u show ?thesis by (simp add: classify_def case_prod_beta)
qed

lemma status_rows:
  "uiDriveStatus (updateStatus st v) =
    (if st AND 0x4F = 0x08 then 6 else if st AND 0x6F = 0x0F then 7 else if st AND 0x6F = 0x07 then 8 else if st AND 0x6F = 0x27 then 5
     else if st AND 0x6F = 0x23 then 4 else if st AND 0x6F = 0x21 then 3 else if st AND 0x4F = 0x40 then 2 else if st AND 0x4F = 0 then 1 else 0)"
  by (simp add: updateStatus_def status_test_def Let_def)

lemma status_row:
  "(\<exists>t \<in> set ds402_table. row_matches st t \<and> uiDriveStatus (updateStatus st v) = snd (snd t)) \<or>
   uiDriveStatus (updateStatus st v) = 0 \<and> (\<forall>t \<in> set ds402_table. \<not> row_matches st t)"
  unfolding status_rows ds402_table_def row_matches_def by simp

lemma status_classified:
  assumes "set tbl = set ds402_table"
  shows "uiDriveStatus (updateStatus st v) = classify tbl st"
  using status_row [of st v]
proof (elim disjE bexE conjE)
  fix t assume "t \<in> set ds402_table" "row_matches st t" "uiDriveStatus (updateStatus st v) = snd (snd t)"
  with classify_row [OF assms] show ?thesis by simp
next
  assume "uiDriveStatus (updateStatus st v) = 0" "\<forall>t \<in> set ds402_table. \<not> row_matches st t"
  moreover from this(2) have "find (row_matches st) tbl = None" using assms unfolding find_None_iff by blast
  ultimately show ?thesis by (simp add: classify_def)
qed



section \<open>Bringing the drive into operation\<close>

definition drive_state :: "u16 \<Rightarrow> u16" where
  "drive_state st = uiDriveStatus (updateStatus st drive_init)"

lemma drive_state [simp]: "uiDriveStatus (updateStatus st v) = drive_state st"
  by (simp add: drive_state_def status_rows)

lemmas drive_state_rows = drive_state_def [unfolded status_rows]

lemma updateStatus_keeps [simp]:
  "uiCtlWd (updateStatus st v) = uiCtlWd v" "uiOpnEnabled (updateStatus st v) = uiOpnEnabled v" "opPDO (updateStatus st v) = opPDO v"
  by (simp_all add: updateStatus_def Let_def case_prod_unfold)

lemma DriveEnable_word: "uiCtlWd (DriveEnable v) = fst (control_word (desired_control (uiDriveStatus v)) (uiCtlWd v) (uiOpnEnabled v))"
  by (simp add: DriveEnable_def modifyControlWord_def case_prod_unfold Let_def)

text \<open>
  The transitions of a drive on the way into operation, as its manual documents them: what the
  drive does with a control word, in the states the application has names for.
\<close>

definition servo_obeys :: "('d \<Rightarrow> u16) \<Rightarrow> ('d \<Rightarrow> u16 \<Rightarrow> 'd) \<Rightarrow> bool" where
  "servo_obeys status react \<longleftrightarrow> (\<forall>d w.
     (drive_state (status d) = STATE_MACHINE_STAT_SWITCH_ON_DISABLED \<and> w AND 0x87 = 0x06 \<longrightarrow>
        drive_state (status (react d w)) = STATE_MACHINE_STAT_RDY_TO_SWITCH_ON) \<and>
     (drive_state (status d) = STATE_MACHINE_STAT_RDY_TO_SWITCH_ON \<and> w AND 0x8F = 0x07 \<longrightarrow>
        drive_state (status (react d w)) = STATE_MACHINE_STAT_SWITCHED_ON) \<and>
     (drive_state (status d) = STATE_MACHINE_STAT_SWITCHED_ON \<and> w AND 0x8F = 0x0F \<longrightarrow>
        drive_state (status (react d w)) = STATE_MACHINE_STAT_OPERATION_ENABLED) \<and>
     (drive_state (status d) = STATE_MACHINE_STAT_OPERATION_ENABLED \<and> w AND 0x8F = 0x0F \<longrightarrow>
        drive_state (status (react d w)) = STATE_MACHINE_STAT_OPERATION_ENABLED))"

text \<open>A round: the status is read, the control word is chosen, and the drive gets it.\<close>

definition enable_round :: "('d \<Rightarrow> u16) \<Rightarrow> ('d \<Rightarrow> u16 \<Rightarrow> 'd) \<Rightarrow> 'd \<times> drive \<Rightarrow> 'd \<times> drive" where
  "enable_round status react = (\<lambda>(d, v). let v = DriveEnable (updateStatus (status d) v) in (react d (uiCtlWd v), v))"

lemma enable_steps:
  assumes "servo_obeys status react"
  shows "drive_state (status d) = 2 \<Longrightarrow> enable_round status react (d, v) = (e, u) \<Longrightarrow> drive_state (status e) = 3"
    and "drive_state (status d) = 3 \<Longrightarrow> enable_round status react (d, v) = (e, u) \<Longrightarrow> drive_state (status e) = 4"
    and "drive_state (status d) = 4 \<Longrightarrow> enable_round status react (d, v) = (e, u) \<Longrightarrow> drive_state (status e) = 5 \<and> uiCtlWd u = 0x0F"
    and "drive_state (status d) = 5 \<and> uiCtlWd v = 0x0F \<Longrightarrow> enable_round status react (d, v) = (e, u) \<Longrightarrow> drive_state (status e) = 5 \<and> uiCtlWd u = 0x0F"
  using assms [unfolded servo_obeys_def]
  by (auto simp: enable_round_def Let_def DriveEnable_word desired_control_def control_word_def)

lemma enabled_stays:
  assumes "servo_obeys status react" "drive_state (status (fst x)) = 5 \<and> uiCtlWd (snd x) = 0x0F"
  shows "drive_state (status (fst ((enable_round status react ^^ n) x))) = 5 \<and> uiCtlWd (snd ((enable_round status react ^^ n) x)) = 0x0F"
proof (induction n)
  case (Suc n)
  obtain d v where x: "(enable_round status react ^^ n) x = (d, v)" by fastforce
  obtain e u where y: "enable_round status react (d, v) = (e, u)" by fastforce
  from enable_steps(4) [OF assms(1) _ y] Suc x y show ?case by simp
qed (use assms(2) in simp)


text \<open>A drive whose state is its status word.\<close>

definition demo_servo :: "u16 \<Rightarrow> u16 \<Rightarrow> u16" where
  "demo_servo st w = (if st = 0x0240 \<and> w AND 0x87 = 0x06 then 0x0221 else if st = 0x0221 \<and> w AND 0x8F = 0x07 then 0x0223
     else if st = 0x0223 \<and> w AND 0x8F = 0x0F then 0x0227 else st)"

definition demo_status :: "u16 \<Rightarrow> u16" where
  "demo_status st = (if st = 0x0240 \<or> st = 0x0221 \<or> st = 0x0223 \<or> st = 0x0227 then st else 0)"

lemma demo_servo_obeys: "servo_obeys demo_status demo_servo"
  unfolding servo_obeys_def
proof (intro allI)
  fix d w :: u16
  have st: "drive_state 0x0240 = 2" "drive_state 0x0221 = 3" "drive_state 0x0223 = 4" "drive_state 0x0227 = 5" "drive_state 0 = 1"
    by (simp_all add: drive_state_rows)
  show "(drive_state (demo_status d) = 2 \<and> w AND 0x87 = 0x06 \<longrightarrow> drive_state (demo_status (demo_servo d w)) = 3) \<and>
     (drive_state (demo_status d) = 3 \<and> w AND 0x8F = 0x07 \<longrightarrow> drive_state (demo_status (demo_servo d w)) = 4) \<and>
     (drive_state (demo_status d) = 4 \<and> w AND 0x8F = 0x0F \<longrightarrow> drive_state (demo_status (demo_servo d w)) = 5) \<and>
     (drive_state (demo_status d) = 5 \<and> w AND 0x8F = 0x0F \<longrightarrow> drive_state (demo_status (demo_servo d w)) = 5)"
  proof (cases "d \<in> {0x0240, 0x0221, 0x0223, 0x0227}")
    case True
    then show ?thesis by (auto simp: demo_status_def demo_servo_def st)
  next
    case False
    then show ?thesis by (auto simp: demo_status_def st)
  qed
qed


section \<open>Resetting a fault\<close>

text \<open>The control words of the rounds in which the status words \<open>sts\<close> are read; a drive resets a fault on a rising edge of bit 7.\<close>

fun control_words :: "u16 list \<Rightarrow> drive \<Rightarrow> u16 list" where
  "control_words [] v = []"
| "control_words (st # sts) v = (let v = DriveEnable (updateStatus st v) in uiCtlWd v # control_words sts v)"

fun rising_edges :: "u16 list \<Rightarrow> nat" where
  "rising_edges (w # w' # ws) = (if w AND 0x80 = 0 \<and> w' AND 0x80 \<noteq> 0 then 1 else 0) + rising_edges (w' # ws)"
| "rising_edges ws = 0"

lemma fault_word: "drive_state st = 6 \<Longrightarrow> uiCtlWd (DriveEnable (updateStatus st v)) AND 0x80 \<noteq> 0"
proof -
  assume "drive_state st = 6"
  then have w: "uiCtlWd (DriveEnable (updateStatus st v)) = ucast (lo8 (uiCtlWd v) OR 0x80)"
    by (simp add: DriveEnable_word desired_control_def control_word_def)
  have "bit (ucast (lo8 (uiCtlWd v) OR 0x80) AND 0x80 :: u16) 7" by (simp add: bit_simps bit_numeral_word_iff)
  then show ?thesis unfolding w by auto
qed

lemma fault_no_edge:
  assumes "\<forall>st \<in> set sts. drive_state st = 6" "w AND 0x80 \<noteq> 0"
  shows "rising_edges (w # control_words sts v) = 0"
  using assms
proof (induction sts arbitrary: v w)
  case (Cons st sts)
  then show ?case using fault_word [of st v] by (simp add: Let_def)
qed simp



text \<open>
  The halt bit is the lowest bit of the high byte; setting it in the low byte has no effect, so
  that stopping the drive leaves the motion running.
\<close>

theorem StopDrive_no_halt:
  "uiCtlWd (StopDrive v) AND 0x100 = 0"
proof -
  have "lo8 0x100 = 0" by (simp add: lo8_def)
  then have "uiCtlWd (StopDrive v) = ucast (lo8 (uiCtlWd v))"
    by (simp add: StopDrive_def modifyControlWord_def control_word_def Let_def case_prod_unfold)
  moreover have "bit (0x100 :: u16) n \<Longrightarrow> n = 8" for n using bit_exp_iff [where 'a = "16 word", of 8 n] by simp
  then have "(ucast (lo8 (uiCtlWd v)) :: u16) AND 0x100 = 0"
    by (intro bit_word_eqI) (auto simp: lo8_def bit_simps)
  ultimately show ?thesis by simp
qed

section \<open>The layout of the process data\<close>

text \<open>The entries written to the mapping object \<open>idx\<close>, and where each starts: the low byte of an entry is its number of bits.\<close>

definition mapped :: "u16 \<Rightarrow> sdo_write list \<Rightarrow> u32 list" where
  "mapped idx ws = map (\<lambda>(_, _, bs). dec32 bs) (filter (\<lambda>(i, si, _). i = idx \<and> si \<noteq> 0) ws)"

fun offsets :: "nat \<Rightarrow> u32 list \<Rightarrow> (u16 \<times> nat) list" where
  "offsets bits [] = [(0, bits div 8)]"
| "offsets bits (w # ws) = (ucast (drop_bit 16 w), bits div 8) # offsets (bits + unat (w AND 0xFF)) ws"

text \<open>
  The outputs that the drive is told to expect are those the application fills: the control
  word, the mode of operation, the target torque, the maximal torque, the target position and the
  maximal speed lie at the offsets of the application, and together with the target velocity they
  take exactly the bytes of \<^verbatim>\<open>opPDO\<close>.
\<close>

theorem output_layout:
  "offsets 0 (mapped 0x1600 output_pdo_writes) =
    [(0x6040, OUTPUT_OFFSET_CTLWD), (0x6060, OUTPUT_OFFSET_MODE_OF_OPN), (0x6071, OUTPUT_OFFSET_TARGET_TQ), (0x6072, OUTPUT_OFFSET_MAX_TQ),
     (0x607A, OUTPUT_OFFSET_TARGET_POSN), (0x6080, OUTPUT_OFFSET_MAX_MOTOR_SPEED), (0x60FF, 15), (0, length (opPDO drive_init))]"
  by (simp add: output_pdo_writes_def mapped_def drive_init_def)

text \<open>
  The inputs of the drive lie at the offsets of the application, but for the torque: the
  entry that should map the torque maps the velocity a second time, no entry maps the torque, and
  the two bytes taken as the torque are the upper half of the velocity.
\<close>

theorem input_layout:
  "offsets 0 (mapped 0x1A00 input_pdo_writes) =
    [(0x603F, INPUT_OFFSET_ERRCODE), (0x6041, INPUT_OFFSET_STATUSWORD), (0x6061, INPUT_OFFSET_MODE_OF_OPN_DISP), (0x6064, INPUT_OFFSET_POSN_ACTUAL_VALUE),
     (0x606C, INPUT_OFFSET_VEL_ACTUAL_VALUE), (0x606C, INPUT_OFFSET_VEL_ACTUAL_VALUE + 4), (0, 17)] \<and>
   0x6077 \<notin> fst ` set (offsets 0 (mapped 0x1A00 input_pdo_writes)) \<and> INPUT_OFFSET_TQ_ACTUAL_VALUE = INPUT_OFFSET_VEL_ACTUAL_VALUE + 2"
  by (simp add: input_pdo_writes_def mapped_def)

section \<open>The set-up returns\<close>

lemma SDOwrite_exp_from:
  assumes "asks c0 c" "slave_valid c0 slave" "length bs \<le> 4"
  shows "returns (ecx_SDOwrite slave i si False (int (length bs)) bs t c) (\<lambda>(w, d). asks c0 d)"
proof -
  obtain m d where d: "mbx_flush slave c = Some (m, d)" "asks c0 d" "mbx_fit m"
    using flush_from [OF assms(1,2)] by (auto simp: returns_iff)
  have "slave_valid d slave" using assms(2) d(2) asks_length by (simp add: slave_valid_def)
  then obtain s where "get_slave slave d = Some s" by (auto simp: slave_valid_def get_slave_def arr_get_def)
  with d sdo_down_exp_from [OF d(2) assms(2) d(3), of "int (length bs)" bs i si t] assms(3) show ?thesis
    by (simp add: ecx_SDOwrite_def)
qed

lemma sdo_writes_from:
  "asks c0 c \<Longrightarrow> slave_valid c0 slave \<Longrightarrow> \<forall>(_, _, bs) \<in> set ws. length bs \<le> 4 \<Longrightarrow> returns (sdo_writes slave ws c) (asks c0)"
proof (induction ws arbitrary: c)
  case (Cons w ws)
  obtain i si bs where w: "w = (i, si, bs)" by (cases w)
  show ?case
    unfolding w sdo_writes.simps returns_bind
    by (rule returns_mono [OF SDOwrite_exp_from [OF Cons.prems(1,2)]]) (use Cons w in auto)
qed simp

lemma poperror_asks:
  assumes "asks c0 c" "ecx_poperror c = Some (ok, e, d)"
  shows "asks c0 d"
proof -
  have inv: "ctx_inv c" by (rule asks_inv [OF assms(1)])
  have r: "ring_inv (elist d)" using poperror_returns [of c] inv assms(2) by (auto simp: ctx_inv_def returns_iff)
  have d: "d = c\<lparr>port := port c, elist := elist d, ecaterror := ecaterror d\<rparr>"
    using assms(2) by (auto simp: ecx_poperror_def Let_def bind_eq_Some_conv split: if_splits)
  then obtain q b where e: "d = c\<lparr>port := port c, elist := q, ecaterror := b\<rparr>" by blast
  have "ctx_inv d" "ctx_ok c d" using inv r ctx_ok_refl [OF inv] by (simp_all add: e ctx_inv_def ctx_ok_def)
  then have "chats c d" using reportsI [OF e] by (simp add: chats_def)
  then show ?thesis using asks_trans [OF assms(1) chats_asks] by blast
qed

text \<open>Printing ends with the list empty, unless a text overruns its buffer.\<close>

definition printable :: "ecx_context \<Rightarrow> bool" where
  "printable c \<longleftrightarrow> (ecaterror c \<longrightarrow> (\<forall>e \<in> set (errors c). ecx_err2string e \<noteq> None))"

lemma print_errors_step:
  "ecaterror c \<Longrightarrow> print_errors c = do { (_, c) \<leftarrow> ecx_elist2string c; print_errors c }"
  unfolding print_errors_def by (subst while_loop_unfold) (simp add: case_prod_unfold)

lemma print_errors_end: "\<not> ecaterror c \<Longrightarrow> print_errors c = Some c"
  by (simp add: print_errors_def)

lemma print_errors_outcome:
  assumes "asks c0 c"
  shows "if printable c then returns (print_errors c) (\<lambda>d. asks c0 d \<and> \<not> ecaterror d) else print_errors c = None"
  using assms
proof (induction "errors c" arbitrary: c)
  case Nil
  then have "ring_inv (elist c)" using asks_inv [of c0 c] by (simp add: ctx_inv_def)
  from poperror_returns [OF this] Nil.hyps obtain e d where d: "ecx_poperror c = Some (False, e, d)" "\<not> ecaterror d"
    by (auto simp: returns_iff)
  have a: "asks c0 d" by (rule poperror_asks [OF Nil.prems d(1)])
  have p: "printable c" using Nil.hyps [symmetric] by (simp add: printable_def)
  show ?case
  proof (cases "ecaterror c")
    case True
    have "print_errors c = Some d" using d by (simp add: print_errors_step [OF True] ecx_elist2string_def print_errors_end)
    then show ?thesis using a d p by simp
  qed (use p Nil.prems in \<open>simp add: print_errors_end\<close>)
next
  case (Cons e es)
  then have "ring_inv (elist c)" using asks_inv [of c0 c] by (simp add: ctx_inv_def)
  note p = poperror_returns [OF this]
  have ec: "errors c = e # es" using Cons.hyps(2) by simp
  from p obtain d where d: "ecx_poperror c = Some (True, e, d)" "ecaterror d = ecaterror c" "es = errors d"
    unfolding ec by (auto simp: returns_iff)
  note ih = Cons.hyps(1) [OF d(3) poperror_asks [OF Cons.prems d(1)]]
  show ?case
  proof (cases "ecaterror c")
    case True
    have "print_errors c = (case ecx_err2string e of None \<Rightarrow> None | Some _ \<Rightarrow> print_errors d)"
      using d(1) by (simp add: print_errors_step [OF True] ecx_elist2string_def split: option.splits)
    moreover have "printable c \<longleftrightarrow> ecx_err2string e \<noteq> None \<and> printable d"
      using True d(2,3) ec by (auto simp: printable_def)
    ultimately show ?thesis using ih by (cases "ecx_err2string e") auto
  next
    case False
    then show ?thesis using Cons.prems by (simp add: printable_def print_errors_end)
  qed
qed

lemma setup_writes_small:
  "\<forall>(_, _, bs) \<in> set (dc_mode_writes @ position_limit_writes a b @ output_pdo_writes @ input_pdo_writes). length bs \<le> 4"
  by (simp add: dc_mode_writes_def position_limit_writes_def output_pdo_writes_def input_pdo_writes_def)

lemma sdo_writes_append: "sdo_writes slave (ws @ vs) c = do { c \<leftarrow> sdo_writes slave ws c; sdo_writes slave vs c }"
  by (induction ws arbitrary: c) (auto simp: case_prod_unfold)

text \<open>The writes of the set-up.\<close>

definition setup_writes :: "u16 \<Rightarrow> ecx_context \<Rightarrow> ecx_context option" where
  "setup_writes slave c = do {
     c \<leftarrow> setDCModeSetup slave c;
     c \<leftarrow> setSoftwarePositionLimit slave 0 0 c;
     c \<leftarrow> setFlexibleOutputPDO slave c;
     setFlexibleInputPDO slave c
   }"

lemma PanasonicSetup_writes: "PanasonicSetup slave c = Option.bind (setup_writes slave c) print_errors"
  by (simp add: PanasonicSetup_def setup_writes_def)

lemma setup_writes_from:
  assumes "asks c0 c" "slave_valid c0 slave"
  shows "returns (setup_writes slave c) (asks c0)"
proof -
  have ws: "returns (sdo_writes slave ws e) (asks c0)" if "asks c0 e" "set ws \<subseteq> set (dc_mode_writes @ position_limit_writes 0 0 @ output_pdo_writes @ input_pdo_writes)" for ws e
    using that setup_writes_small [of 0 0] by (intro sdo_writes_from [OF _ assms(2)]) blast+
  show ?thesis
    unfolding setup_writes_def setDCModeSetup_def setSoftwarePositionLimit_def setFlexibleOutputPDO_def setFlexibleInputPDO_def returns_bind
    by (rule returns_mono, rule ws, rule assms(1), fastforce, (rule returns_mono, rule ws, assumption, fastforce)+)
qed

lemma panasonic_hook_from:
  assumes "asks c0 c" "slave_valid c0 slave"
  shows "ensures (panasonic_hook slave c) (asks c0)"
proof -
  have "ensures (PanasonicSetup slave c) (asks c0)"
    unfolding PanasonicSetup_writes ensures_bind
  proof (rule ensures_mono [OF returns_ensures [OF setup_writes_from [OF assms]]])
    fix d assume "asks c0 d"
    from print_errors_outcome [OF this] show "ensures (print_errors d) (asks c0)"
      by (cases "printable d") (auto simp: returns_iff ensures_iff)
  qed
  then show ?thesis
    unfolding panasonic_hook_def using assms(1) by (auto simp: ensures_iff bind_eq_Some_conv split: if_splits)
qed



section \<open>The synchronisation\<close>

lemma smod_pos: "0 \<le> a \<Longrightarrow> 0 < b \<Longrightarrow> a smod b = a mod b" for a b :: int
  by (cases "a = 0") (simp_all add: signed_modulo_int_def)

lemma sdiv_pos: "0 \<le> a \<Longrightarrow> 0 < b \<Longrightarrow> a sdiv b = a div b" for a b :: int
  by (cases "a = 0") (simp_all add: signed_divide_int_def)

lemma sdiv_neg: "a \<le> 0 \<Longrightarrow> 0 < b \<Longrightarrow> a sdiv b = - ((- a) div b)" for a b :: int
  by (cases "a = 0") (simp_all add: signed_divide_int_def sgn_if)

text \<open>
  The synchronisation measures the distance of the clock of the slaves from the start of the
  cycle, 50 us after it, as a value within half a cycle on either side, counts its sign in the
  integral part, and steers against it: when the distance and the integral part agree in their
  sign, the offset has the other one.
\<close>

theorem ec_sync_bounded:
  assumes "0 < cyc" "50000 \<le> ref"
  shows "\<exists>t d j. ec_sync ref cyc i = Some (t, d, j) \<and> (ref - 50000 - d) mod cyc = 0 \<and> - cyc < 2 * d \<and> 2 * d \<le> cyc \<and> j = i + sgn d \<and>
    (0 < d \<and> 0 \<le> i \<longrightarrow> t \<le> 0) \<and> (d < 0 \<and> i \<le> 0 \<longrightarrow> 0 \<le> t)"
proof -
  define e where "e = (ref - 50000) mod cyc"
  define d where "d = (if e > cyc div 2 then e - cyc else e)"
  define j where "j = i + sgn d"
  define t where "t = - (d sdiv 100) - j sdiv 20"
  have e: "(ref - 50000) smod cyc = e" "0 \<le> e" "e < cyc" using assms by (simp_all add: smod_pos e_def)
  have "cyc sdiv 2 = cyc div 2" using assms by (simp add: sdiv_pos)
  then have "ec_sync ref cyc i = Some (t, d, j)"
    using assms e(1) by (auto simp: ec_sync_def Let_def d_def j_def t_def sgn_if)
  moreover have "(ref - 50000 - d) mod cyc = 0"
  proof -
    have "ref - 50000 - e = cyc * ((ref - 50000) div cyc)" by (simp add: e_def minus_mod_eq_mult_div)
    then have "ref - 50000 - d = cyc * ((ref - 50000) div cyc) \<or> ref - 50000 - d = cyc * ((ref - 50000) div cyc + 1)"
      by (auto simp: d_def algebra_simps)
    then show ?thesis by (elim disjE) (simp_all only: mod_mult_self1_is_0)
  qed
  moreover have "- cyc < 2 * d" "2 * d \<le> cyc" using e assms by (auto simp: d_def)
  moreover have "t \<le> 0" if "0 < d" "0 \<le> i"
  proof -
    have "0 \<le> d div 100" "0 \<le> (i + 1) div 20" using that by (simp_all add: pos_imp_zdiv_nonneg_iff)
    then show ?thesis using that by (simp add: t_def j_def sdiv_pos)
  qed
  moreover have "0 \<le> t" if "d < 0" "i \<le> 0"
  proof -
    have "0 \<le> - d div 100" "0 \<le> (1 - i) div 20" using that by (simp_all add: pos_imp_zdiv_nonneg_iff)
    then show ?thesis using that by (simp add: t_def j_def sdiv_neg)
  qed
  ultimately show ?thesis by (intro exI [of _ t] exI [of _ d] exI [of _ j]) (simp add: j_def)
qed

theorem ec_sync_bounded_witness:
  "\<exists>t d j. ec_sync 3750000 2000000 0 = Some (t, d, j) \<and> d = -300000 \<and> 0 \<le> t"
  using ec_sync_bounded [of 2000000 3750000 0] by (auto simp: ec_sync_def smod_pos sdiv_pos sdiv_neg)

text \<open>Adding a time that is not negative keeps the time stamp normal; a negative one may not.\<close>

theorem add_timespec_adds:
  assumes "0 \<le> n" "n < NSEC_PER_SEC" "0 \<le> d" "add_timespec (s, n) d = (s', n')"
  shows "s' * NSEC_PER_SEC + n' = s * NSEC_PER_SEC + n + d \<and> 0 \<le> n' \<and> n' < NSEC_PER_SEC"
proof -
  define N :: int where "N = NSEC_PER_SEC"
  define q r where "q = d div N" and "r = d mod N"
  have N: "0 < N" by (simp add: N_def)
  have d: "d = q * N + r" "0 \<le> r" "r < N" "0 \<le> q" using assms(3) N by (simp_all add: q_def r_def pos_imp_zdiv_nonneg_iff)
  have 1: "d smod N = r" using assms(3) N by (simp add: smod_pos r_def)
  have 2: "(d - r) sdiv N = q" using d N by (simp add: sdiv_pos)
  have 3: "(n + r) smod N = n + r - N" if "n + r \<ge> N"
  proof -
    have "(n + r) mod N = (n + r - N) mod N" by (simp only: minus_mod_self2)
    also have "\<dots> = n + r - N" using that assms(2) d(3) by (intro mod_pos_pos_trivial) (simp_all add: N_def)
    finally show ?thesis using that N by (simp add: smod_pos)
  qed
  have 4: "N sdiv N = 1" using N by (simp add: sdiv_pos)
  have "add_timespec (s, n) d = (if n + r \<ge> N then (s + q + 1, n + r - N) else (s + q, n + r))"
    unfolding add_timespec_def Let_def fst_conv snd_conv N_def [symmetric] 1 2 using 3 4 by simp
  with assms(4) have "(s', n') = (if n + r \<ge> N then (s + q + 1, n + r - N) else (s + q, n + r))" by simp
  with assms(1,2) d(2,3) show ?thesis unfolding d(1) N_def [symmetric] by (auto simp: algebra_simps split: if_splits)
qed

end
