(* ===== verification/AppProps.thy ===== *)
theory AppProps
  imports App DriveProps
begin

text \<open>
  What holds of the three threads of the application in every interleaving of their passes: the
  control words stay within those that switch the drive on and off, nothing of the control ever
  reaches the master, and the exchange of process data is lost for ever when the thread of the
  process data starts after the main thread has released it.
\<close>

section \<open>The control words\<close>

text \<open>
  The bits for new set-points, halt and the modes of operation are clear, the outputs start with
  the control word, and from the target position on they are zero.
\<close>

definition drive_ok :: "drive \<Rightarrow> bool" where
  "drive_ok v \<longleftrightarrow> uiCtlWd v AND 0xFF70 = 0 \<and> length (opPDO v) = 19 \<and> take 2 (opPDO v) = enc16 (uiCtlWd v) \<and>
     drop OUTPUT_OFFSET_TARGET_POSN (opPDO v) = replicate 12 0 \<and> uiOpnEnabled v \<le> 2"

lemma enc16_bytes: "enc16 w = [lo8 w, hi8 w]"
  by (simp add: enc16_def)

lemma drive_init_ok: "drive_ok drive_init"
  by (simp add: drive_ok_def drive_init_def enc16_bytes lo8_def hi8_def eval_nat_numeral)

lemma fault_word_ok: "w AND 0xFF70 = 0 \<Longrightarrow> ucast (lo8 w OR 0x80) AND 0xFF70 = (0 :: u16)"
proof -
  assume "w AND 0xFF70 = 0"
  then have "ucast (lo8 w) AND 0xFF70 = (0 :: u16)" by (auto simp: bit_eq_iff lo8_def bit_simps)
  moreover have "ucast (0x80 :: u8) AND 0xFF70 = (0 :: u16)" by simp
  moreover have "(ucast (lo8 w OR 0x80) :: u16) = ucast (lo8 w) OR ucast (0x80 :: u8)" by (rule unsigned_or_eq)
  ultimately show ?thesis by (simp only: bit.conj_disj_distrib2) simp
qed

lemma modifyControlWord_ok:
  assumes "drive_ok v" "desired \<in> {0, CTL_WD_SHUT_DOWN, CTL_WD_SWITCH_ON, CTL_WD_DISABLE_VTG, CTL_WD_ENABLE_OPN, CTL_WD_FAULT_RESET}"
  shows "drive_ok (modifyControlWord desired v)"
proof -
  obtain w en where c: "control_word desired (uiCtlWd v) (uiOpnEnabled v) = (w, en)" by fastforce
  have w: "w AND 0xFF70 = 0 \<and> en \<le> 2"
    using assms c fault_word_ok [of "uiCtlWd v"] by (auto simp: control_word_def drive_ok_def split: if_splits)
  have l: "length (opPDO v) = 19" "drop 7 (opPDO v) = replicate 12 0" using assms(1) by (simp_all add: drive_ok_def)
  then obtain b0 b1 b2 b3 b4 b5 b6 bs where o: "opPDO v = b0 # b1 # b2 # b3 # b4 # b5 # b6 # bs" "bs = replicate 12 0"
    by (auto simp: length_Suc_conv eval_nat_numeral)
  show ?thesis
    using w c by (auto simp: modifyControlWord_def drive_ok_def Let_def o enc16_bytes)
qed

lemma drive_ok_steps:
  assumes "drive_ok v"
  shows "drive_ok (DriveEnable v)" "drive_ok (printStatus v)" "drive_ok (updateStatus st v)"
    "drive_ok (v\<lparr>opPDO := (opPDO v)[OUTPUT_OFFSET_MODE_OF_OPN := 1]\<rparr>)"
proof -
  have "drive_ok (v\<lparr>getReasonForLossOfOperationalMode := 0\<rparr>)" using assms by (simp add: drive_ok_def)
  then show "drive_ok (DriveEnable v)" using assms by (auto simp: DriveEnable_def desired_control_def intro!: modifyControlWord_ok)
  have "drive_ok (u\<lparr>scanCntr := i, updatePrintCntr := j\<rparr>)" if "drive_ok u" for u i j using that by (simp add: drive_ok_def)
  then show "drive_ok (printStatus v)" using assms modifyControlWord_ok [OF assms, of CTL_WD_FAULT_RESET] by (auto simp: printStatus_def Let_def)
  show "drive_ok (updateStatus st v)" using assms by (simp add: drive_ok_def)
  show "drive_ok (v\<lparr>opPDO := (opPDO v)[OUTPUT_OFFSET_MODE_OF_OPN := 1]\<rparr>)"
    using assms by (auto simp: drive_ok_def)
qed

text \<open>What the passes do to the drive: the operations above, and nothing else.\<close>

lemma read_inputs_drive: "read_inputs a = Some b \<Longrightarrow> (\<exists>st. drv b = updateStatus st (drv a)) \<and> dorun b = dorun a \<and> rtcnt b = rtcnt a \<and> mpc b = mpc a \<and> rpc b = rpc a"
  by (auto simp: read_inputs_def Let_def bind_eq_Some_conv)

lemma rt_sync_drive: "rt_sync cyc a = Some b \<Longrightarrow> drv b = drv a \<and> dorun b = dorun a \<and> rtcnt b = rtcnt a \<and> mpc b = mpc a \<and> rpc b = rpc a"
  by (auto simp: rt_sync_def bind_eq_Some_conv split: if_splits)

lemma rt_exchange_drive:
  assumes "rt_exchange cyc a = Some b"
  shows "(\<exists>st. drv b = updateStatus st ((drv a)\<lparr>opPDO := (opPDO (drv a))[OUTPUT_OFFSET_MODE_OF_OPN := 1]\<rparr>)) \<and> mpc b = mpc a \<and> rpc b = rpc a"
  using assms by (auto simp: rt_exchange_def Let_def bind_eq_Some_conv dest!: rt_sync_drive read_inputs_drive)

lemma app_step_ok:
  assumes "app_step cyc a b" "drive_ok (drv a)"
  shows "drive_ok (drv b)"
  using assms
proof (cases rule: app_step.cases)
  case (step_rt_start b')
  then show ?thesis using assms(2) by (auto simp: rt_start_def bind_eq_Some_conv)
next
  case step_rt_cycle
  then obtain a1 where a1: "(if dorun a > 0 then rt_exchange cyc a else Some a) = Some a1"
      "drv b = (if inOP a1 then DriveEnable (drv a1) else drv a1)"
    by (auto simp: rt_cycle_def bind_eq_Some_conv Let_def)
  have "drive_ok (drv a1)"
    using a1(1) assms(2) rt_exchange_drive [of cyc a a1] drive_ok_steps by (auto split: if_splits)
  then show ?thesis using a1(2) drive_ok_steps(1) by auto
next
  case step_check
  then show ?thesis using assms(2) by (auto simp: ecatcheck_def bind_eq_Some_conv split: if_splits)
next
  case step_request
  then show ?thesis using assms(2) by (auto simp: main_request_def bind_eq_Some_conv)
next
  case (step_wait k)
  then show ?thesis using assms(2) by (auto simp: main_wait_def bind_eq_Some_conv split: if_splits)
next
  case step_cyclic
  then show ?thesis using assms(2) by (auto simp: main_cyclic_def Let_def intro!: drive_ok_steps)
next
  case step_stop
  then show ?thesis using assms(2) by (auto simp: main_stop_def bind_eq_Some_conv)
qed

lemma app_reach_ok: "app_reach cyc a b \<Longrightarrow> drive_ok (drv a) \<Longrightarrow> drive_ok (drv b)"
  by (induction rule: app_reach.induct) (auto intro: app_step_ok)


text \<open>The application over a network without slaves, in operation.\<close>

definition demo_app :: app where
  "demo_app = \<lparr>master = (demo_context (demo_port []) [no_slave])\<lparr>grouplist := [no_group]\<rparr>, drv = drive_init, expectedWKC = 0, wkc = 0, needlf = False, inOP = False,
     currentgroup = 0, dorun = 0, rtcnt = 0, iErrCode = 0, uiStatusWd = 0, iPosActualValue = 0, ui8ModesOfOpnDisplay = 0, uiTqActual = 0,
     ui32RtThreadSpeedCntr = 0, uiLoopCntr = 0, toff = 0, gl_delta = 0, integral = 0, uiActualPosn = 0, uiActualTq = 0, iSocketElapsedCntr = 0,
     slave0_outputs = None, mpc = M_request, rpc = R_start\<rparr>"

lemma demo_app_run:
  "app_reach 1000 (demo_app\<lparr>rpc := R_loop, mpc := M_cyclic, inOP := True\<rparr>)
     (demo_app\<lparr>rpc := R_loop, mpc := M_cyclic, inOP := True, drv := DriveEnable drive_init, uiLoopCntr := 1\<rparr>)"
proof (rule reach_step [OF reach_start], rule step_rt_cycle)
  show "rt_cycle 1000 (demo_app\<lparr>rpc := R_loop, mpc := M_cyclic, inOP := True\<rparr>) =
      Some (demo_app\<lparr>rpc := R_loop, mpc := M_cyclic, inOP := True, drv := DriveEnable drive_init, uiLoopCntr := 1\<rparr>)"
    by (simp add: rt_cycle_def demo_app_def)
qed simp


section \<open>The control does not reach the slaves\<close>

text \<open>A pass with another drive does the same to everything else.\<close>

lemma read_inputs_other: "read_inputs a = Some b \<Longrightarrow> \<exists>w. read_inputs (a\<lparr>drv := v\<rparr>) = Some (b\<lparr>drv := w\<rparr>)"
  by (cases a) (auto simp: read_inputs_def Let_def bind_eq_Some_conv)

lemma rt_sync_other: "rt_sync cyc a = Some b \<Longrightarrow> rt_sync cyc (a\<lparr>drv := v\<rparr>) = Some (b\<lparr>drv := v\<rparr>)"
  by (cases a) (auto simp: rt_sync_def bind_eq_Some_conv split: if_splits)

lemma rt_exchange_other:
  assumes "rt_exchange cyc a = Some b"
  shows "\<exists>w. rt_exchange cyc (a\<lparr>drv := v\<rparr>) = Some (b\<lparr>drv := w\<rparr>)"
proof -
  let ?c = "master a"
  obtain x w c a2 n c2 where s: "arr_get (iomap ?c) 0 = Some x"
      "ecx_receive_processdata EC_TIMEOUTRET (?c\<lparr>iomap := (iomap ?c)[0 := x + 1]\<rparr>) = Some (w, c)"
      "rt_sync cyc (a\<lparr>dorun := dorun a + 1, slave0_outputs := Some In_opPDO, drv := (drv a)\<lparr>opPDO := (opPDO (drv a))[OUTPUT_OFFSET_MODE_OF_OPN := 1]\<rparr>, wkc := w, master := c\<rparr>) = Some a2"
      "ecx_send_processdata (master a2) = Some (n, c2)" "read_inputs (a2\<lparr>master := c2, rtcnt := rtcnt a2 + 1\<rparr>) = Some b"
    using assms by (auto simp: rt_exchange_def Let_def bind_eq_Some_conv)
  let ?v = "v\<lparr>opPDO := (opPDO v)[OUTPUT_OFFSET_MODE_OF_OPN := 1]\<rparr>"
  have "rt_sync cyc (a\<lparr>dorun := dorun a + 1, slave0_outputs := Some In_opPDO, drv := ?v, wkc := w, master := c\<rparr>) = Some (a2\<lparr>drv := ?v\<rparr>)"
    using rt_sync_other [OF s(3), of ?v] by (cases a) simp
  moreover obtain u where "read_inputs (a2\<lparr>drv := ?v, master := c2, rtcnt := rtcnt a2 + 1\<rparr>) = Some (b\<lparr>drv := u\<rparr>)"
    using read_inputs_other [OF s(5), of ?v] by (cases a2) auto
  ultimately have "rt_exchange cyc (a\<lparr>drv := v\<rparr>) = Some (b\<lparr>drv := u\<rparr>)"
    using s(1,2,4) by (simp add: rt_exchange_def Let_def del: arr_get_Some)
  then show ?thesis by blast
qed

lemma rt_cycle_other:
  assumes "rt_cycle cyc a = Some b"
  shows "\<exists>w. rt_cycle cyc (a\<lparr>drv := v\<rparr>) = Some (b\<lparr>drv := w\<rparr>)"
proof -
  obtain a1 where a1: "(if dorun a > 0 then rt_exchange cyc a else Some a) = Some a1"
      "b = (if inOP a1 then a1\<lparr>drv := DriveEnable (drv a1)\<rparr> else a1)\<lparr>uiLoopCntr := uiLoopCntr a1 + 1\<rparr>"
    using assms by (auto simp: rt_cycle_def bind_eq_Some_conv Let_def split: if_splits)
  obtain w where w: "(if dorun a > 0 then rt_exchange cyc (a\<lparr>drv := v\<rparr>) else Some (a\<lparr>drv := v\<rparr>)) = Some (a1\<lparr>drv := w\<rparr>)"
    using a1(1) rt_exchange_other [of cyc a a1 v] by (auto split: if_splits)
  have "rt_cycle cyc (a\<lparr>drv := v\<rparr>) = Some (b\<lparr>drv := (if inOP a1 then DriveEnable w else w)\<rparr>)"
    using w unfolding a1(2) by (cases a1) (simp add: rt_cycle_def)
  then show ?thesis by blast
qed

lemma ecatcheck_other:
  assumes "ecatcheck a = Some b"
  shows "ecatcheck (a\<lparr>drv := v\<rparr>) = Some (b\<lparr>drv := v\<rparr>)"
proof (cases "inOP a")
  case True
  then obtain g where g: "get_group (currentgroup a) (master a) = Some g" using assms by (auto simp: ecatcheck_def bind_eq_Some_conv)
  show ?thesis
  proof (cases "wkc a < expectedWKC a \<or> g_docheckstate g")
    case check: True
    then obtain c where c: "check_slaves (currentgroup a) (master a) = Some c" "b = a\<lparr>needlf := False, master := c\<rparr>"
      using assms True g by (auto simp: ecatcheck_def bind_eq_Some_conv)
    have "a\<lparr>drv := v, needlf := False, master := c\<rparr> = b\<lparr>drv := v\<rparr>" unfolding c(2) by (cases a) simp
    then show ?thesis using True g check c(1) by (simp add: ecatcheck_def)
  qed (use assms True g in \<open>simp add: ecatcheck_def\<close>)
qed (use assms in \<open>simp add: ecatcheck_def\<close>)

lemma main_wait_other:
  assumes "main_wait k a = Some b"
  shows "main_wait k (a\<lparr>drv := v\<rparr>) = Some (b\<lparr>drv := v\<rparr>)"
proof -
  obtain w c s where c: "ecx_statecheck 0 EC_STATE_OPERATIONAL 50000 (master a) = Some (w, c)" "get_slave 0 c = Some s"
    using assms by (auto simp: main_wait_def bind_eq_Some_conv)
  have e: "(a\<lparr>drv := v, master := d, mpc := p\<rparr>) = a\<lparr>master := d, mpc := p\<rparr>\<lparr>drv := v\<rparr>"
      "(a\<lparr>drv := v, master := d, inOP := True, mpc := p\<rparr>) = a\<lparr>master := d, inOP := True, mpc := p\<rparr>\<lparr>drv := v\<rparr>" for d p
    by (cases a; simp)+
  show ?thesis
  proof (cases "ecx_readstate c")
    case None
    with assms c show ?thesis by (simp add: main_wait_def e split: if_splits)
  next
    case (Some r)
    with assms c show ?thesis by (cases r) (simp add: main_wait_def e split: if_splits)
  qed
qed

lemma app_step_other:
  assumes "app_step cyc a b"
  shows "\<exists>w. app_step cyc (a\<lparr>drv := v\<rparr>) (b\<lparr>drv := w\<rparr>)"
  using assms
proof (cases rule: app_step.cases)
  case (step_rt_start b')
  then have "rt_start (a\<lparr>drv := v\<rparr>) = Some (b'\<lparr>drv := v\<rparr>)" by (auto simp: rt_start_def bind_eq_Some_conv)
  then have "app_step cyc (a\<lparr>drv := v\<rparr>) (b'\<lparr>drv := v\<rparr>\<lparr>rpc := R_loop\<rparr>)" using step_rt_start(2) by (intro app_step.step_rt_start) simp_all
  moreover have "b'\<lparr>drv := v\<rparr>\<lparr>rpc := R_loop\<rparr> = b\<lparr>drv := v\<rparr>" using step_rt_start(1) by (cases b') simp
  ultimately show ?thesis by metis
next
  case step_rt_cycle
  then obtain w where w: "rt_cycle cyc (a\<lparr>drv := v\<rparr>) = Some (b\<lparr>drv := w\<rparr>)" using rt_cycle_other by blast
  have "app_step cyc (a\<lparr>drv := v\<rparr>) (b\<lparr>drv := w\<rparr>)" by (rule app_step.step_rt_cycle) (use step_rt_cycle w in simp_all)
  then show ?thesis by blast
next
  case step_check
  then have "ecatcheck (a\<lparr>drv := v\<rparr>) = Some (b\<lparr>drv := v\<rparr>)" by (rule ecatcheck_other)
  then have "app_step cyc (a\<lparr>drv := v\<rparr>) (b\<lparr>drv := v\<rparr>)" by (rule app_step.step_check)
  then show ?thesis by blast
next
  case step_request
  then have "main_request (a\<lparr>drv := v\<rparr>) = Some (b\<lparr>drv := v\<rparr>)" by (cases a) (auto simp: main_request_def bind_eq_Some_conv)
  then have "app_step cyc (a\<lparr>drv := v\<rparr>) (b\<lparr>drv := v\<rparr>)" using step_request(1) by (intro app_step.step_request) simp_all
  then show ?thesis by blast
next
  case (step_wait k)
  then have "main_wait k (a\<lparr>drv := v\<rparr>) = Some (b\<lparr>drv := v\<rparr>)" by (intro main_wait_other)
  then have "app_step cyc (a\<lparr>drv := v\<rparr>) (b\<lparr>drv := v\<rparr>)" using step_wait(1) by (intro app_step.step_wait) simp_all
  then show ?thesis by blast
next
  case step_cyclic
  then have "main_cyclic (a\<lparr>drv := v\<rparr>) = b\<lparr>drv := drv (main_cyclic (a\<lparr>drv := v\<rparr>))\<rparr>" by (auto simp: main_cyclic_def Let_def)
  moreover have "app_step cyc (a\<lparr>drv := v\<rparr>) (main_cyclic (a\<lparr>drv := v\<rparr>))" using step_cyclic by (intro app_step.step_cyclic) simp
  ultimately show ?thesis by metis
next
  case step_stop
  then have "main_stop (a\<lparr>drv := v\<rparr>) = Some (b\<lparr>drv := v\<rparr>)" by (cases a) (auto simp: main_stop_def bind_eq_Some_conv)
  then have "app_step cyc (a\<lparr>drv := v\<rparr>) (b\<lparr>drv := v\<rparr>)" using step_stop(1) by (intro app_step.step_stop) simp_all
  then show ?thesis by blast
qed



section \<open>The thread that starts late\<close>

lemma idle_step:
  assumes "app_step cyc a b" "dorun a = 0" "rpc a = R_loop" "mpc a \<noteq> M_request"
  shows "dorun b = 0 \<and> rtcnt b = rtcnt a \<and> rpc b = R_loop \<and> mpc b \<noteq> M_request"
  using assms
proof (cases rule: app_step.cases)
  case step_rt_cycle
  then show ?thesis using assms(2-4) by (auto simp: rt_cycle_def Let_def split: if_splits)
next
  case step_check
  then show ?thesis using assms(2-4) by (auto simp: ecatcheck_def bind_eq_Some_conv split: if_splits)
next
  case (step_wait k)
  then show ?thesis using assms(2-4) by (auto simp: main_wait_def bind_eq_Some_conv split: if_splits)
next
  case step_cyclic
  then show ?thesis using assms(2-4) by (auto simp: main_cyclic_def Let_def)
next
  case step_stop
  then show ?thesis using assms(2-4) by (auto simp: main_stop_def bind_eq_Some_conv)
qed (use assms in auto)

lemma idle_reach:
  "app_reach cyc a b \<Longrightarrow> dorun a = 0 \<Longrightarrow> rpc a = R_loop \<Longrightarrow> mpc a \<noteq> M_request \<Longrightarrow>
    dorun b = 0 \<and> rtcnt b = rtcnt a \<and> rpc b = R_loop \<and> mpc b \<noteq> M_request"
proof (induction rule: app_reach.induct)
  case (reach_step a b d)
  then show ?case using idle_step [OF reach_step.hyps(2)] by simp
qed simp

text \<open>
  C21: the thread of the process data may start late: when the main thread has released the
  exchange before the thread of the process data has run its first lines, that thread clears the
  release, and whatever happens later, no process data are exchanged any more.
\<close>

theorem late_thread_never_exchanges:
  assumes "mpc a = M_request" "rpc a = R_start" "main_request a = Some b" "rt_start b = Some d"
  shows "app_reach cyc a (d\<lparr>rpc := R_loop\<rparr>) \<and> (\<forall>e. app_reach cyc (d\<lparr>rpc := R_loop\<rparr>) e \<longrightarrow> dorun e = 0 \<and> rtcnt e = rtcnt a)"
proof -
  have b: "app_step cyc a b" "rpc b = R_start" "mpc b = M_wait 40" "rtcnt b = rtcnt a"
    using assms by (auto simp: main_request_def bind_eq_Some_conv intro: step_request)
  have d: "app_step cyc b (d\<lparr>rpc := R_loop\<rparr>)" by (rule step_rt_start [OF b(2) assms(4)])
  have "dorun d = 0" "mpc d = M_wait 40" "rtcnt d = rtcnt a" using assms(4) b(3,4) by (auto simp: rt_start_def bind_eq_Some_conv)
  then have "dorun e = 0 \<and> rtcnt e = rtcnt a" if "app_reach cyc (d\<lparr>rpc := R_loop\<rparr>) e" for e
    using idle_reach [OF that] by simp
  with reach_step [OF reach_step [OF reach_start b(1)] d] show ?thesis by blast
qed

lemma demo_app_late: "\<exists>b d. main_request demo_app = Some b \<and> rt_start b = Some d"
proof -
  have inv: "ctx_inv (master demo_app)" using ctx_inv_demo [OF port_inv_demo_nil, of "[no_slave]"] by (simp add: demo_app_def ctx_inv_def demo_context_def)
  have "get_slave 0 (master demo_app) = Some no_slave" by (simp add: demo_app_def demo_context_def get_slave_def arr_get_def)
  moreover obtain w c where c: "on_port (ecx_BWR 0 ECT_REG_ALCTL 2 (enc16 (s_state no_slave)) EC_TIMEOUTRET3) (master demo_app) = Some (w, c)" "talks (master demo_app) c"
    using ctx_writes(2) [OF talks_refl [OF inv], of 2 "enc16 (s_state no_slave)" 0 ECT_REG_ALCTL EC_TIMEOUTRET3] by (auto simp: returns_iff)
  ultimately have b: "main_request demo_app = Some (demo_app\<lparr>master := c, dorun := 1, mpc := M_wait 40\<rparr>)"
    by (simp add: main_request_def ecx_writestate_def)
  have "grouplist c = [no_group]" using c(2) by (auto simp: talks_def ctx_same_def demo_app_def)
  then have "\<exists>n e. ecx_send_processdata c = Some (n, e)"
    by (simp add: ecx_send_processdata_def ecx_send_processdata_group_def ecx_main_send_processdata_def get_group_def arr_get_def no_group_def Let_def)
  then show ?thesis using b by (auto simp: rt_start_def)
qed

theorem late_thread_never_exchanges_witness:
  "\<exists>e. app_reach 1000 demo_app e \<and> dorun e = 0 \<and> rpc e = R_loop"
proof -
  obtain b d where "main_request demo_app = Some b" "rt_start b = Some d" using demo_app_late by blast
  from late_thread_never_exchanges [OF _ _ this, of 1000] have "app_reach 1000 demo_app (d\<lparr>rpc := R_loop\<rparr>)" "dorun (d\<lparr>rpc := R_loop\<rparr>) = 0"
    by (auto simp: demo_app_def intro: reach_start)
  then show ?thesis by (intro exI [of _ "d\<lparr>rpc := R_loop\<rparr>"]) simp
qed

end
