(* ===== verification/CheckProps.thy ===== *)
theory CheckProps
  imports AppProps MapProps
begin

text \<open>
  What holds of the thread of the application that watches the states of the slaves: each slave is
  treated on its own, and when the thread reports that all slaves are operational again, they are.
\<close>

section \<open>What the treatment of one slave leaves alone\<close>

text \<open>
  The groups, the number of slaves and the group of every slave, and the state of every other
  slave; and the invariants of the master hold.
\<close>

definition watch :: "nat \<Rightarrow> ecx_context \<Rightarrow> ecx_context \<Rightarrow> bool" where
  "watch k c d \<longleftrightarrow> ctx_ok c d \<and> grouplist d = grouplist c \<and> map s_group (slavelist d) = map s_group (slavelist c) \<and>
     (\<forall>j. j \<noteq> k \<longrightarrow> j < length (slavelist c) \<longrightarrow> s_state (slavelist d ! j) = s_state (slavelist c ! j))"

lemma watch_refl: "ctx_inv c \<Longrightarrow> watch k c c"
  by (simp add: watch_def ctx_ok_refl)

lemma watch_trans: "watch k a b \<Longrightarrow> watch k b c \<Longrightarrow> watch k a c"
  by (auto simp: watch_def intro: ctx_ok_trans) (simp add: ctx_ok_def)

lemma watch_inv: "watch k a b \<Longrightarrow> ctx_inv b"
  by (auto simp: watch_def dest: ctx_ok_inv)

lemma watch_length: "watch k a b \<Longrightarrow> length (slavelist b) = length (slavelist a)"
  by (simp add: watch_def ctx_ok_def)

lemma talks_watch: "watch k a c \<Longrightarrow> talks c d \<Longrightarrow> watch k a d"
proof -
  assume w: "watch k a c" and t: "talks c d"
  obtain p where "d = c\<lparr>port := p\<rparr>" using t by (auto simp: talks_def ctx_same_def)
  then have "watch k c d" using talks_ok [OF t] by (simp add: watch_def)
  with w show ?thesis by (rule watch_trans)
qed

lemma asks_watch: "watch k a c \<Longrightarrow> asks c d \<Longrightarrow> watch k a d"
proof -
  assume w: "watch k a c" and q: "asks c d"
  have "grouplist (nocnt d) = grouplist (nocnt c)" using q by (auto simp: asks_def chats_def reports_def)
  then have g: "grouplist d = grouplist c" by (simp add: nocnt_def)
  have s: "s_group (slavelist d ! j) = s_group (slavelist c ! j) \<and> s_state (slavelist d ! j) = s_state (slavelist c ! j)" if "j < length (slavelist c)" for j
    using asks_slave [OF q that] by auto
  then have "map s_group (slavelist d) = map s_group (slavelist c)" using asks_length [OF q] by (intro nth_equalityI) auto
  with g s asks_ok [OF q] have "watch k c d" by (simp add: watch_def)
  with w show ?thesis by (rule watch_trans)
qed

lemma upd_watch:
  assumes "watch (unat slave) a c" "\<And>s. s_group (f s) = s_group s"
  shows "ensures (upd_slave slave f c) (watch (unat slave) a)"
  unfolding ensures_iff
proof (intro allI impI)
  fix d assume "upd_slave slave f c = Some d"
  then have l: "unat slave < length (slavelist c)" and d: "d = c\<lparr>slavelist := (slavelist c)[unat slave := f (slavelist c ! unat slave)]\<rparr>"
    by (auto simp: upd_slave_def get_slave_def arr_get_def bind_eq_Some_conv split: if_splits)
  have "ctx_ok c d" unfolding d by (rule ctx_ok_slavelist [OF ctx_ok_refl [OF watch_inv [OF assms(1)]]]) simp
  moreover have "map s_group (slavelist d) = map s_group (slavelist c)"
    unfolding d using l by (simp add: map_update assms(2) list_update_same_conv)
  ultimately have "watch (unat slave) c d" by (simp add: watch_def d)
  with assms(1) show "watch (unat slave) a d" by (rule watch_trans)
qed

text \<open>The accesses.\<close>

lemma write_watch:
  assumes "watch k a c"
  shows "ensures (on_port (ecx_FPWRw adp ado w t) c) (\<lambda>r. watch k a (snd r))"
    "unat n \<le> EC_MAXDATA \<Longrightarrow> unat n \<le> length bs \<Longrightarrow> ensures (on_port (ecx_FPWR adp ado n bs t) c) (\<lambda>r. watch k a (snd r))"
    "ensures (on_port (ecx_APWRw adp ado w t) c) (\<lambda>r. watch k a (snd r))"
proof -
  note t = talks_refl [OF watch_inv [OF assms]]
  show F: "unat n \<le> EC_MAXDATA \<Longrightarrow> unat n \<le> length bs \<Longrightarrow> ensures (on_port (ecx_FPWR adp ado n bs t) c) (\<lambda>r. watch k a (snd r))" for n bs
    using returns_ensures [OF ctx_writes(1) [OF t]] by (rule ensures_mono) (auto intro: talks_watch [OF assms])
  then show "ensures (on_port (ecx_FPWRw adp ado w t) c) (\<lambda>r. watch k a (snd r))"
    by (simp add: ecx_FPWRw_def [abs_def])
  have "ensures (on_port (ecx_APWR adp ado 2 (enc16 w) t) c) (\<lambda>r. watch k a (snd r))"
    using returns_ensures [OF ap.wr_heard [OF ap.heard_refl [OF watch_inv [OF assms]], of False 2 "enc16 w" adp ado t]]
    by (auto elim!: ensures_mono simp: ap.heard_def intro: talks_watch [OF assms])
  then show "ensures (on_port (ecx_APWRw adp ado w t) c) (\<lambda>r. watch k a (snd r))"
    by (simp add: ecx_APWRw_def [abs_def])
qed

lemma read_watch:
  assumes "watch k a c"
  shows "ensures (on_port (ecx_FPRDw adp ado t) c) (\<lambda>r. watch k a (snd r))"
    "ensures (on_port_buf (ecx_APRD adp ado 2 (enc16 w) t) c) (\<lambda>r. watch k a (snd (snd r)))"
proof -
  note inv = watch_inv [OF assms]
  have "ensures (on_port_buf (ecx_FPRD adp ado 2 (enc16 0) t) c) (\<lambda>r. watch k a (snd (snd r)))"
    using returns_ensures [OF fp.rd_heard [OF fp.heard_refl [OF inv], of False 2 "enc16 0" adp ado t]]
    by (auto elim!: ensures_mono simp: fp.heard_def intro: talks_watch [OF assms])
  then show "ensures (on_port (ecx_FPRDw adp ado t) c) (\<lambda>r. watch k a (snd r))"
    by (auto simp: ecx_FPRDw_def on_port_def on_port_buf_def ensures_iff bind_eq_Some_conv)
  show "ensures (on_port_buf (ecx_APRD adp ado 2 (enc16 w) t) c) (\<lambda>r. watch k a (snd (snd r)))"
    using returns_ensures [OF ap.rd_heard [OF ap.heard_refl [OF inv], of False 2 "enc16 w" adp ado t]]
    by (auto elim!: ensures_mono simp: ap.heard_def intro: talks_watch [OF assms])
qed

lemma retry_watch:
  assumes "watch k a c" "unat n \<le> EC_MAXDATA" "unat n \<le> length bs"
  shows "ensures (retry m (on_port (ecx_FPWR adp ado n bs t)) c) (\<lambda>r. watch k a (snd r))"
  using returns_ensures [OF fp.wr_retry [OF fp.heard_refl [OF watch_inv [OF assms(1)]] assms(2,3), of False m adp ado t]]
  by (auto elim!: ensures_mono simp: fp.heard_def intro: talks_watch [OF assms(1)])

lemma get_any: "(\<And>s. Q s) \<Longrightarrow> ensures (get_slave slave c) Q"
  by (simp add: ensures_iff)

lemma eeprom_watch:
  assumes "watch (unat slave) a c"
  shows "ensures (ecx_eeprom2pdi slave c) (\<lambda>r. watch (unat slave) a (snd r))"
    "ensures (ecx_eeprom2master slave c) (\<lambda>r. watch (unat slave) a (snd r))"
    "ensures (ecx_readeeprom slave e t c) (\<lambda>r. watch (unat slave) a (snd r))"
proof -
  have pdi: "ensures (ecx_eeprom2pdi slave d) (\<lambda>r. watch (unat slave) a (snd r))" if "watch (unat slave) a d" for d
    unfolding ecx_eeprom2pdi_def
    by (auto simp: case_prod_unfold that intro!: get_any ensures_mono [OF retry_watch [OF that]] ensures_mono [OF upd_watch])
  have m: "ensures (ecx_eeprom2master slave d) (\<lambda>r. watch (unat slave) a (snd r))" if "watch (unat slave) a d" for d
    unfolding ecx_eeprom2master_def
    by (auto simp: case_prod_unfold that intro!: get_any ensures_mono [OF retry_watch] ensures_mono [OF upd_watch])
  show "ensures (ecx_eeprom2pdi slave c) (\<lambda>r. watch (unat slave) a (snd r))" by (rule pdi [OF assms])
  show "ensures (ecx_eeprom2master slave c) (\<lambda>r. watch (unat slave) a (snd r))" by (rule m [OF assms])
  show "ensures (ecx_readeeprom slave e t c) (\<lambda>r. watch (unat slave) a (snd r))"
    unfolding ecx_readeeprom_def ensures_bind
  proof (rule ensures_mono [OF m [OF assms]])
    fix r :: "int \<times> ecx_context" assume r: "watch (unat slave) a (snd r)"
    have "ensures (ecx_readeepromFP adr e t (snd r)) (\<lambda>x. watch (unat slave) a (snd x))" for adr
      unfolding ecx_readeepromFP_def
      by (rule ensures_mono [OF fp.readeeprom_ensures [OF watch_inv [OF r]]]) (auto intro: talks_watch [OF r])
    then have "ensures (ecx_readeepromFP adr e t (snd r)) (\<lambda>x. ensures (case x of (e, c) \<Rightarrow> Some (ucast e :: u32, c)) (\<lambda>r. watch (unat slave) a (snd r)))" for adr
      by (rule ensures_mono) (simp add: case_prod_unfold)
    then show "ensures (case r of (uu, c) \<Rightarrow> do { s \<leftarrow> get_slave slave c; (e, c) \<leftarrow> ecx_readeepromFP (s_configadr s) e t c; Some (ucast e, c) })
        (\<lambda>r. watch (unat slave) a (snd r))"
      by (auto simp: case_prod_unfold intro!: get_any)
  qed
qed

lemma statecheck_watch:
  assumes "watch (unat slave) a c" "unat slave < length (slavelist a)"
  shows "ensures (ecx_statecheck slave st t c) (\<lambda>r. watch (unat slave) a (snd r))"
proof -
  have read: "ensures (statecheck_read slave adr d) (\<lambda>r. watch (unat slave) a (snd r))" if w: "watch (unat slave) a d" for adr d
  proof -
    note inv = watch_inv [OF w]
    have "ensures (on_port_buf (ecx_FPRD adr ECT_REG_ALSTAT 6 (enc_alstatus no_alstatus) EC_TIMEOUTRET) d) (\<lambda>r. watch (unat slave) a (snd (snd r)))"
         "ensures (on_port_buf (ecx_BRD 0 ECT_REG_ALSTAT 2 (enc16 0) EC_TIMEOUTRET) d) (\<lambda>r. watch (unat slave) a (snd (snd r)))"
      using returns_ensures [OF ctx_reads(1) [OF inv, of 6 "enc_alstatus no_alstatus" adr ECT_REG_ALSTAT EC_TIMEOUTRET]]
        returns_ensures [OF ctx_reads(2) [OF inv, of 2 "enc16 0" 0 ECT_REG_ALSTAT EC_TIMEOUTRET]]
      by (auto elim!: ensures_mono intro: talks_watch [OF w])
    then show ?thesis
      by (auto simp: statecheck_read_def case_prod_unfold elim!: ensures_mono intro!: ensures_mono [OF upd_watch])
  qed
  have body: "ensures (statecheck_body slave adr st timer s) (\<lambda>(s', again). watch (unat slave) a (snd s'))" if "watch (unat slave) a (snd s)" for adr timer s
    unfolding statecheck_body_def case_prod_unfold ensures_bind
    by (rule ensures_mono [OF read [OF that]]) (auto simp: Let_def case_prod_unfold intro: talks_watch ctx_again_talks watch_inv)
  have loop: "ensures (do_while (statecheck_body slave adr st timer) s) (\<lambda>s. watch (unat slave) a (snd s))" if "watch (unat slave) a (snd s)" for adr timer s
    by (rule do_while_ensures [where P = "\<lambda>s. watch (unat slave) a (snd s)", OF that]) (auto elim!: ensures_mono dest!: body)
  have "watch (unat slave) a (snd (ctx_timer_start t c))"
    by (rule talks_watch [OF assms(1) ctx_timer_start_talks [OF watch_inv [OF assms(1)]]])
  then show ?thesis
    unfolding ecx_statecheck_def
    by (auto simp: assms(1) Let_def case_prod_unfold intro!: get_any ensures_mono [OF loop] ensures_mono [OF upd_watch])
qed

lemma hook_watch:
  assumes "watch (unat slave) a c" "unat slave < length (slavelist a)"
  shows "ensures (panasonic_hook slave c) (watch (unat slave) a)"
proof -
  have "slave_valid c slave" using assms watch_length [OF assms(1)] by (simp add: slave_valid_def)
  from panasonic_hook_from [OF asks_refl [OF watch_inv [OF assms(1)]] this] show ?thesis
    by (rule ensures_mono) (rule asks_watch [OF assms(1)])
qed

lemma write_sm_watch: "watch (unat slave) a c \<Longrightarrow> ensures (write_sm slave adr k t c) (watch (unat slave) a)"
  unfolding write_sm_def by (auto simp: case_prod_unfold enc_sm_def intro!: get_any ensures_mono [OF write_watch(2)])

lemma write_fmmu_watch:
  assumes "watch (unat slave) a c"
  shows "ensures (write_fmmu slave adr k t c) (watch (unat slave) a)"
proof -
  have "length (enc_fmmu f) = 16" for f by (simp add: enc_fmmu_def)
  then show ?thesis
    unfolding write_fmmu_def
    by (auto simp: case_prod_unfold intro!: get_any ensures_mono [OF write_watch(2) [OF assms]])
qed

lemma loop_watch:
  assumes "watch k a c" "\<And>i d. watch k a d \<Longrightarrow> ensures (body i d) (watch k a)"
  shows "ensures (for_loop n m body c) (watch k a)"
  using for_loop_ensures [where P = "\<lambda>_. watch k a", OF assms(1)] assms(2) by simp

lemma reconfig_watch:
  assumes "watch (unat slave) a c" "unat slave < length (slavelist a)"
  shows "ensures (ecx_reconfig_slave panasonic_hook slave t c) (\<lambda>r. watch (unat slave) a (snd r))"
  unfolding ecx_reconfig_slave_def
  by (auto simp: case_prod_unfold Let_def assms intro!: get_any ensures_mono [OF write_watch(1)] ensures_mono [OF eeprom_watch(1)]
      ensures_mono [OF statecheck_watch] ensures_mono [OF loop_watch] ensures_mono [OF hook_watch] write_sm_watch write_fmmu_watch)

lemma same_watch:
  assumes "watch (unat slave) a c"
  shows "ensures (same_slave slave t c) (\<lambda>r. watch (unat slave) a (snd r))"
  unfolding same_slave_def
  by (auto simp: case_prod_unfold intro!: get_any ensures_mono [OF read_watch(1) [OF assms]] ensures_mono [OF eeprom_watch(3)])

lemma recover_watch:
  assumes "watch (unat slave) a c"
  shows "ensures (ecx_recover_slave slave t c) (\<lambda>r. watch (unat slave) a (snd r))"
  unfolding ecx_recover_slave_def
  by (auto simp: case_prod_unfold Let_def intro!: get_any ensures_mono [OF read_watch(2) [OF assms]] ensures_mono [OF write_watch(1)]
      ensures_mono [OF write_watch(3)] ensures_mono [OF upd_watch] ensures_mono [OF eeprom_watch(2)] ensures_mono [OF same_watch])

lemma writestate_watch:
  assumes "watch (unat slave) a c" "slave \<noteq> 0"
  shows "ensures (ecx_writestate slave c) (\<lambda>r. watch (unat slave) a (snd r))"
  unfolding ecx_writestate_def using assms(2) by (auto intro!: get_any write_watch(1) [OF assms(1)])

section \<open>One slave\<close>

definition busy :: "u8 \<Rightarrow> ecx_context \<Rightarrow> bool" where
  "busy grp c \<longleftrightarrow> (\<exists>g. get_group grp c = Some g \<and> g_docheckstate g)"

definition ok_slave :: "u8 \<Rightarrow> ecx_context \<Rightarrow> nat \<Rightarrow> bool" where
  "ok_slave grp c k \<longleftrightarrow> (s_group (slavelist c ! k) = grp \<longrightarrow> s_state (slavelist c ! k) = EC_STATE_OPERATIONAL)"

lemma watch_group: "watch k a c \<Longrightarrow> j < length (slavelist a) \<Longrightarrow> s_group (slavelist c ! j) = s_group (slavelist a ! j)"
proof -
  assume w: "watch k a c" and j: "j < length (slavelist a)"
  have "map s_group (slavelist c) ! j = map s_group (slavelist a) ! j" using w by (simp add: watch_def)
  with j watch_length [OF w] show ?thesis by simp
qed

lemma watch_ok: "watch k a c \<Longrightarrow> j < length (slavelist a) \<Longrightarrow> j \<noteq> k \<Longrightarrow> ok_slave grp c j = ok_slave grp a j"
  by (simp add: ok_slave_def watch_group) (simp add: watch_def)

lemma watch_busy: "watch k a c \<Longrightarrow> busy grp c = busy grp a"
  by (simp add: busy_def get_group_def watch_def)

lemma check_lost_watch:
  assumes "watch (unat slave) a c" "unat slave < length (slavelist a)"
  shows "ensures (check_lost slave c) (\<lambda>d. watch (unat slave) a d \<and> (ok_slave grp c (unat slave) \<longrightarrow> ok_slave grp d (unat slave)))"
proof -
  let ?k = "unat slave"
  have k: "?k < length (slavelist c)" using assms watch_length by simp
  let ?s = "slavelist c ! ?k"
  have get: "get_slave slave c = Some ?s" using k by (simp add: get_slave_def)
  consider "\<not> s_islost ?s" | "s_islost ?s" "s_state ?s = EC_STATE_NONE" | "s_islost ?s" "s_state ?s \<noteq> EC_STATE_NONE" by blast
  then show ?thesis
  proof cases
    case 2
    have w: "ensures (check_lost slave c) (watch ?k c)"
      using 2 unfolding check_lost_def get
      by (auto simp: case_prod_unfold intro!: ensures_mono [OF recover_watch [OF watch_refl [OF watch_inv [OF assms(1)]]]] ensures_mono [OF upd_watch])
    have "ok_slave grp d ?k" if "watch ?k c d" "ok_slave grp c ?k" for d
      using that(2) 2(2) watch_group [OF that(1) k] by (auto simp: ok_slave_def)
    with w show ?thesis by (rule_tac ensures_mono [OF w]) (auto intro: watch_trans [OF assms(1)])
  next
    case 3
    have "ensures (upd_slave slave (\<lambda>s. s\<lparr>s_islost := False\<rparr>) c) (watch ?k a)" by (rule upd_watch [OF assms(1)]) simp
    moreover have "upd_slave slave (\<lambda>s. s\<lparr>s_islost := False\<rparr>) c = Some (c\<lparr>slavelist := (slavelist c)[?k := ?s\<lparr>s_islost := False\<rparr>]\<rparr>)"
      using get by (simp add: upd_slave_def)
    ultimately show ?thesis using 3 get k by (simp add: check_lost_def ok_slave_def)
  qed (use get assms(1) in \<open>simp add: check_lost_def\<close>)
qed

lemma check_state_watch:
  assumes "ctx_inv c" "unat slave < length (slavelist c)" "slave \<noteq> 0"
  shows "ensures (check_state grp slave c) (\<lambda>d. d = c \<and> ok_slave grp c (unat slave) \<or>
    (\<exists>c1. upd_group grp (\<lambda>g. g\<lparr>g_docheckstate := True\<rparr>) c = Some c1 \<and> watch (unat slave) c1 d))"
proof -
  let ?k = "unat slave" and ?s = "slavelist c ! unat slave"
  have get: "get_slave slave c = Some ?s" using assms(2) by (simp add: get_slave_def)
  show ?thesis
  proof (cases "s_group ?s = grp \<and> s_state ?s \<noteq> EC_STATE_OPERATIONAL")
    case False
    then show ?thesis using get by (auto simp: check_state_def ok_slave_def)
  next
    case True
    show ?thesis
    proof (cases "upd_group grp (\<lambda>g. g\<lparr>g_docheckstate := True\<rparr>) c")
      case None
      then show ?thesis using get True by (simp add: check_state_def)
    next
      case (Some c1)
      have "slavelist c1 = slavelist c" "ctx_inv c1"
        using Some assms(1) by (auto simp: upd_group_def bind_eq_Some_conv ctx_inv_def)
      note w = watch_refl [OF this(2), of ?k] and k = assms(2) [folded this(1)]
      have "ensures (check_state grp slave c) (watch ?k c1)"
        unfolding check_state_def get using True Some
        by (auto simp: case_prod_unfold assms(3) k intro!: w get_any ensures_mono [OF upd_watch [OF w]] ensures_mono [OF writestate_watch] ensures_mono [OF upd_watch]
            ensures_mono [OF reconfig_watch [OF w]] ensures_mono [OF statecheck_watch [OF w]])
      then show ?thesis by (rule ensures_mono) (use Some in blast)
    qed
  qed
qed

section \<open>A pass over the slaves\<close>

text \<open>Before slave \<open>i\<close>: a check is still due, or the slaves before are operational.\<close>

definition pass_ok :: "u8 \<Rightarrow> ecx_context \<Rightarrow> nat \<Rightarrow> ecx_context \<Rightarrow> bool" where
  "pass_ok grp c i d \<longleftrightarrow> ctx_inv d \<and> length (slavelist d) = length (slavelist c) \<and> slavecount d = slavecount c \<and>
     (busy grp d \<or> (\<forall>k. 1 \<le> k \<longrightarrow> k < i \<longrightarrow> ok_slave grp d k))"

lemma check_slave_pass:
  assumes "pass_ok grp c0 (unat slave) c" "unat slave < length (slavelist c0)" "slave \<noteq> 0"
  shows "ensures (do { c \<leftarrow> check_state grp slave c; check_lost slave c }) (pass_ok grp c0 (Suc (unat slave)))"
proof -
  let ?k = "unat slave"
  have inv: "ctx_inv c" and k: "?k < length (slavelist c)" and c: "length (slavelist c) = length (slavelist c0)" "slavecount c = slavecount c0"
    and p: "busy grp c \<or> (\<forall>k. 1 \<le> k \<longrightarrow> k < ?k \<longrightarrow> ok_slave grp c k)"
    using assms(1,2) by (auto simp: pass_ok_def)
  show ?thesis
    unfolding ensures_bind
  proof (rule ensures_mono [OF check_state_watch [OF inv k assms(3), of grp]])
    fix d assume "d = c \<and> ok_slave grp c ?k \<or> (\<exists>c1. upd_group grp (\<lambda>g. g\<lparr>g_docheckstate := True\<rparr>) c = Some c1 \<and> watch ?k c1 d)"
    then show "ensures (check_lost slave d) (pass_ok grp c0 (Suc ?k))"
    proof (elim disjE conjE exE)
      assume d: "d = c" "ok_slave grp c ?k"
      show ?thesis
        unfolding d(1)
      proof (rule ensures_mono [OF check_lost_watch [OF watch_refl [OF inv] k, of grp]])
        fix e assume e: "watch ?k c e \<and> (ok_slave grp c ?k \<longrightarrow> ok_slave grp e ?k)"
        then have w: "watch ?k c e" and o: "ok_slave grp e ?k" using d(2) by blast+
        have "busy grp e \<or> (\<forall>j. 1 \<le> j \<longrightarrow> j < Suc ?k \<longrightarrow> ok_slave grp e j)"
        proof (cases "busy grp c")
          case False
          then have "ok_slave grp e j" if "1 \<le> j" "j < ?k" for j
            using p that k watch_ok [OF w, of j grp] by simp
          with o show ?thesis by (auto simp: less_Suc_eq)
        qed (simp add: watch_busy [OF w])
        then show "pass_ok grp c0 (Suc ?k) e"
          using watch_inv [OF w] watch_length [OF w] w c by (simp add: pass_ok_def watch_def ctx_ok_def)
      qed
    next
      fix c1 assume c1: "upd_group grp (\<lambda>g. g\<lparr>g_docheckstate := True\<rparr>) c = Some c1" and w: "watch ?k c1 d"
      have b: "busy grp c1" "slavelist c1 = slavelist c" "slavecount c1 = slavecount c"
        using c1 by (auto simp: busy_def upd_group_def get_group_def arr_get_def bind_eq_Some_conv split: if_splits)
      show ?thesis
      proof (rule ensures_mono [OF check_lost_watch [OF w, of grp]])
        fix e assume "watch ?k c1 e \<and> (ok_slave grp d ?k \<longrightarrow> ok_slave grp e ?k)"
        then have w: "watch ?k c1 e" by blast
        show "pass_ok grp c0 (Suc ?k) e"
          using watch_inv [OF w] watch_length [OF w] watch_busy [OF w] w b c by (simp add: pass_ok_def watch_def ctx_ok_def)
      qed (use k b(2) in simp)
    qed
  qed
qed

lemma check_slaves_pass:
  assumes "ctx_inv c" "1 \<le> slavecount c" "slavecount c < int (length (slavelist c))" "slavecount c < 0x7fff"
  shows "ensures (check_slaves grp c) (\<lambda>d. slavecount d = slavecount c \<and> (busy grp d \<or> (\<forall>k. 1 \<le> k \<longrightarrow> int k \<le> slavecount c \<longrightarrow> ok_slave grp d k)))"
  unfolding ensures_iff
proof (intro allI impI)
  fix r assume r: "check_slaves grp c = Some r"
  obtain c1 w c2 where s: "upd_group grp (\<lambda>g. g\<lparr>g_docheckstate := False\<rparr>) c = Some c1" "ecx_readstate c1 = Some (w, c2)"
      "for_slaves (slavecount c2) (\<lambda>slave c. do { c \<leftarrow> check_state grp slave c; check_lost slave c }) c2 = Some r"
    using r by (auto simp: check_slaves_def bind_eq_Some_conv)
  have c1: "ctx_inv c1" "slavelist c1 = slavelist c" "slavecount c1 = slavecount c"
    using s(1) assms(1) by (auto simp: upd_group_def bind_eq_Some_conv ctx_inv_def)
  have "ctx_ok c1 c2" using readstate_lowest [OF c1(1)] assms(2-4) s(2) c1(2,3) by (auto simp: returns_iff)
  then have c2: "ctx_inv c2" "length (slavelist c2) = length (slavelist c)" "slavecount c2 = slavecount c"
    using c1 by (auto simp: ctx_ok_def)
  let ?body = "\<lambda>slave c. do { c \<leftarrow> check_state grp slave c; check_lost slave c }"
  have "ensures (for_loop (nat (slavecount c)) 1 (\<lambda>i. ?body (of_nat i)) c2) (pass_ok grp c2 (1 + nat (slavecount c)))"
  proof (rule for_loop_ensures)
    show "pass_ok grp c2 1 c2" using c2(1) by (simp add: pass_ok_def)
    fix i d assume i: "1 \<le> i" "i < 1 + nat (slavecount c)" and d: "pass_ok grp c2 i d"
    have u: "unat (of_nat i :: u16) = i" using i assms(4) by (intro unat_of_nat_u16) linarith
    then have "(of_nat i :: u16) \<noteq> 0" using i(1) by (metis not_one_le_zero unat_0)
    moreover have "unat (of_nat i :: u16) < length (slavelist c2)" using u i assms(3) c2(2) by linarith
    ultimately show "ensures (?body (of_nat i) d) (pass_ok grp c2 (Suc i))"
      using check_slave_pass [of grp c2 "of_nat i" d] d u by simp
  qed
  then have "pass_ok grp c2 (1 + nat (slavecount c)) r"
    using s(3) c2(3) by (auto simp: for_slaves_def bind_eq_Some_conv ensures_iff)
  then show "slavecount r = slavecount c \<and> (busy grp r \<or> (\<forall>k. 1 \<le> k \<longrightarrow> int k \<le> slavecount c \<longrightarrow> ok_slave grp r k))"
    using c2(3) unfolding pass_ok_def by auto
qed

section \<open>Properties\<close>

text \<open>
  C22: when a pass of the watching thread over a group comes back with \<^verbatim>\<open>docheckstate\<close>
  cleared -- the application then prints that all slaves have resumed \<^verbatim>\<open>OPERATIONAL\<close> --
  every slave of that group is stored as operational, whatever happened on the wire and
  whatever was done about the slaves before and after it. (That a pass comes back is not
  claimed: the recovery of a lost slave reads its EEPROM, and that read can go on for ever.)
\<close>

theorem check_slaves_truthful:
  assumes "ctx_inv c" "1 \<le> slavecount c" "slavecount c < int (length (slavelist c))" "slavecount c < 0x7fff"
  shows "ensures (check_slaves grp c) (\<lambda>d. slavecount d = slavecount c \<and>
    ((\<exists>g. get_group grp d = Some g \<and> g_docheckstate g) \<or>
     (\<forall>k. 1 \<le> k \<longrightarrow> int k \<le> slavecount c \<longrightarrow> s_group (slavelist d ! k) = grp \<longrightarrow>
        s_state (slavelist d ! k) = EC_STATE_OPERATIONAL)))"
  using check_slaves_pass [OF assms, of grp] by (simp add: busy_def ok_slave_def)

text \<open>
  One slave that was in \<^verbatim>\<open>SAFE_OP\<close> and whose group is marked for a check; on the wire is the
  answer of a slave that is operational.
\<close>

definition demo_check :: ecx_context where
  "demo_check = (demo_context (demo_port [Some (demo_frame 7 1 [8, 0] 1)]) [no_slave, no_slave\<lparr>s_state := 4\<rparr>])
     \<lparr>slavecount := 1, grouplist := [no_group\<lparr>g_docheckstate := True\<rparr>]\<rparr>"

lemma demo_check_runs:
  "map_option (\<lambda>d. (map_option g_docheckstate (get_group 0 d), s_group (slavelist d ! 1))) (check_slaves 0 demo_check) = Some (Some False, 0)"
  by code_simp

lemma demo_check_inv: "ctx_inv demo_check" "slavecount demo_check = 1" "length (slavelist demo_check) = 2"
proof -
  have "port_inv (demo_port [Some (demo_frame 7 1 [8, 0] 1)])"
    by (rule port_inv_demo) (simp add: frame_ok_def demo_frame_def frame_len_def list_buf_def mk16_def get16_def)
  from ctx_inv_demo [OF this, of "[no_slave, no_slave\<lparr>s_state := 4\<rparr>]"] show "ctx_inv demo_check"
    by (simp add: ctx_inv_def demo_check_def)
qed (simp_all add: demo_check_def demo_context_def)

theorem check_slaves_truthful_witness:
  "\<exists>d. check_slaves 0 demo_check = Some d \<and> s_state (slavelist d ! 1) = EC_STATE_OPERATIONAL"
proof -
  obtain d where d: "check_slaves 0 demo_check = Some d" "s_group (slavelist d ! 1) = 0" "\<not> (\<exists>g. get_group 0 d = Some g \<and> g_docheckstate g)"
    using demo_check_runs by auto
  with check_slaves_truthful [of demo_check 0] demo_check_inv show ?thesis by (auto simp: ensures_iff)
qed

end
