(* ===== verification/EepromTool.thy ===== *)
theory EepromTool
  imports Config CText
begin

text \<open>
  The tool that reads and writes the EEPROM of a slave, \<^verbatim>\<open>test/linux/eepromtool/eepromtool.c\<close>: the
  checksum of the EEPROM, the files in binary and in Intel hex format, the transfer between the
  buffer \<^verbatim>\<open>ebuf\<close> and the slave, and the run of the tool. A file is its content, \<open>None\<close> when it
  cannot be opened; a file to be written can always be opened. What is printed on the screen is left out.
\<close>

abbreviation MAXBUF :: int where "MAXBUF \<equiv> 524288"
abbreviation MINBUF :: int where "MINBUF \<equiv> 128"
abbreviation CRCBUF :: int where "CRCBUF \<equiv> 14"
abbreviation MAXSLENGTH :: nat where "MAXSLENGTH \<equiv> 256"
abbreviation IHEXLENGTH :: nat where "IHEXLENGTH \<equiv> 0x20"

section \<open>The checksum\<close>

definition crc_shift :: "u8 \<Rightarrow> u8" where
  "crc_shift crc = (if crc AND 0x80 \<noteq> 0 then push_bit 1 crc XOR 0x07 else push_bit 1 crc)"

definition calc_crc :: "u8 \<Rightarrow> u8 \<Rightarrow> u8" where
  "calc_crc crc b = (crc_shift ^^ 8) (crc XOR b)"

definition SIIcrc :: "buf \<Rightarrow> u16" where
  "SIIcrc e = ucast (foldl (\<lambda>crc i. calc_crc crc (e i)) 0xff [0..<14])"

section \<open>Files\<close>

fun read_bytes :: "nat \<Rightarrow> u8 list \<Rightarrow> buf \<Rightarrow> nat \<times> buf" where
  "read_bytes cc [] e = (cc, e)"
| "read_bytes cc (b # bs) e = (if int cc < MAXBUF then read_bytes (cc + 1) bs (e(cc := b)) else (cc, e))"

text \<open>The length read and the buffer, when the file can be opened.\<close>

definition input_bin :: "u8 list option \<Rightarrow> buf \<Rightarrow> (int \<times> buf) option" where
  "input_bin file e = map_option (\<lambda>bs. case read_bytes 0 bs e of (cc, e) \<Rightarrow> (int cc, e)) file"

definition output_bin :: "int \<Rightarrow> buf \<Rightarrow> u8 list option" where
  "output_bin len e = do {
     chk (len \<le> MAXBUF);
     Some (map e [0..<nat len])
   }"

text \<open>A line of at most \<open>n\<close> characters, the character that ended it, and the rest of the file.\<close>

fun read_line :: "nat \<Rightarrow> string \<Rightarrow> string \<times> char option \<times> string" where
  "read_line n [] = ([], None, [])"
| "read_line n (ch # cs) =
    (if ch = CHR 0x0A \<or> n = 0 then ([], Some ch, cs)
     else let (line, t, rest) = read_line (n - 1) cs in (ch # line, t, rest))"

text \<open>A number is scanned inside \<^verbatim>\<open>sline\<close>, up to the zero that ends the text there.\<close>

definition scan_at :: "nat \<Rightarrow> string \<Rightarrow> nat \<Rightarrow> int scan option" where
  "scan_at w line p = do {
     chk (p < MAXSLENGTH);
     Some (scan_x w (takeWhile (\<lambda>ch. ch \<noteq> CHR 0x00) (drop p line)))
   }"

text \<open>The length, the address and the type of a record, when all three are there.\<close>

definition hex_header :: "string \<Rightarrow> (int \<times> int \<times> int) option" where
  "hex_header line = (case scan_x 2 (takeWhile (\<lambda>ch. ch \<noteq> CHR 0x00) (drop 1 line)) of
     Scanned ll s \<Rightarrow> (case scan_x 4 s of
       Scanned ladr s \<Rightarrow> (case scan_x 2 s of
         Scanned lt s \<Rightarrow> Some (ll, ladr, lt)
       | _ \<Rightarrow> None)
     | _ \<Rightarrow> None)
   | _ \<Rightarrow> None)"

record hexin =
  hstart :: int
  hlength :: int
  lval :: int
  hbuf :: buf

definition scan_or :: "int \<Rightarrow> int scan \<Rightarrow> int" where
  "scan_or v r = (case r of Scanned w _ \<Rightarrow> w | _ \<Rightarrow> v)"

definition hex_byte :: "string \<Rightarrow> int \<Rightarrow> nat \<Rightarrow> buf \<times> int \<times> int \<Rightarrow> (buf \<times> int \<times> int) option" where
  "hex_byte line ladr i s = (case s of (e, acc, v) \<Rightarrow> do {
     r \<leftarrow> scan_at 2 line (9 + 2 * i);
     let v = scan_or v r;
     let a = ladr + int i;
     chk (0 \<le> a \<and> a < MAXBUF);
     Some (e(nat a := word_of_int v), acc + uint (word_of_int v :: u8), v)
   })"

text \<open>One line; the result tells whether to go on.\<close>

definition hex_record :: "string \<Rightarrow> hexin \<Rightarrow> (bool \<times> hexin) option" where
  "hex_record line h = (case hex_header line of
     None \<Rightarrow> Some (True, h)
   | Some (ll, ladr, lt) \<Rightarrow>
       if ladr + ll \<le> MAXBUF \<and> lt = 0 then do {
         let acc = ll + ladr div 256 + ladr mod 256 + lt;
         let start = (if ladr < hstart h then ladr else hstart h);
         (e, acc, v) \<leftarrow> for_loop (nat ll) 0 (hex_byte line ladr) (hbuf h, acc, lval h);
         let len = (if ladr + ll - start > hlength h then ladr + ll - start else hlength h);
         r \<leftarrow> scan_at 2 line (9 + 2 * nat ll);
         let v = scan_or v r;
         Some (r \<noteq> Scan_fail \<and> (0x100 - acc) mod 0x100 = v, \<lparr>hstart = start, hlength = len, lval = v, hbuf = e\<rparr>)
       } else Some (True, h))"

lemma read_line_rest: "read_line n s = (line, Some ch, rest) \<Longrightarrow> length rest < length s"
proof (induction n s arbitrary: line rest rule: read_line.induct)
  case (2 n c cs)
  then show ?case by (auto split: if_splits prod.splits dest: less_SucI)
qed simp

function hex_lines :: "string \<Rightarrow> hexin \<Rightarrow> (bool \<times> hexin) option" where
  "hex_lines file h = (case read_line (MAXSLENGTH - 1) file of
     (line, None, rest) \<Rightarrow> Some (True, h)
   | (line, Some _, rest) \<Rightarrow>
       if length line < 11 \<or> line ! 0 \<noteq> CHR '':'' then Some (False, h)
       else do {
         (go, h) \<leftarrow> hex_record line h;
         if go then hex_lines rest h else Some (False, h)
       })"
  by pat_completeness auto
termination
  by (relation "measure (\<lambda>(file, h). length file)") (auto dest: read_line_rest [OF sym] read_line_rest)

declare hex_lines.simps [simp del]

text \<open>
  \<open>v\<close> is the content of the variable \<^verbatim>\<open>lval\<close>, which is not initialised. The results are whether the
  file was read, the start and the length, and the buffer.
\<close>

definition input_intelhex :: "int \<Rightarrow> string option \<Rightarrow> buf \<Rightarrow> (bool \<times> int \<times> int \<times> buf) option" where
  "input_intelhex v file e = (case file of
     None \<Rightarrow> Some (False, 0, 0, e)
   | Some s \<Rightarrow> do {
       (ok, h) \<leftarrow> hex_lines s \<lparr>hstart = MAXBUF, hlength = 0, lval = v, hbuf = e\<rparr>;
       Some (ok, hstart h, hlength h, hbuf h)
     })"

text \<open>A record of the \<open>ll\<close> bytes from \<open>cc\<close> on.\<close>

definition hex_line :: "buf \<Rightarrow> nat \<Rightarrow> nat \<Rightarrow> string" where
  "hex_line e cc ll =
     (let acc = ll + cc div 256 + cc mod 256 + sum_list (map (\<lambda>i. unat (e (cc + i))) [0..<ll])
      in '':'' @ fmt_X 2 ll @ fmt_X 4 cc @ ''00'' @ concat (map (\<lambda>i. fmt_X 2 (unat (e (cc + i)))) [0..<ll]) @
        fmt_X 2 (nat ((0x100 - int acc) mod 0x100)) @ [CHR 0x0A])"

function hex_output :: "buf \<Rightarrow> nat \<Rightarrow> nat \<Rightarrow> string" where
  "hex_output e cc len =
     (if cc < len then let ll = min (len - cc) IHEXLENGTH in hex_line e cc ll @ hex_output e (cc + ll) len else [])"
  by pat_completeness auto
termination by (relation "measure (\<lambda>(e, cc, len). len - cc)") auto

declare hex_output.simps [simp del]

definition output_intelhex :: "int \<Rightarrow> buf \<Rightarrow> string option" where
  "output_intelhex len e = do {
     chk (len \<le> MAXBUF);
     Some (hex_output e 0 (nat len) @ '':00000001FF'' @ [CHR 0x0A])
   }"

section \<open>The transfer\<close>

definition eep_owner :: "u16 \<Rightarrow> ecx_context \<Rightarrow> ecx_context option" where
  "eep_owner aiadr c = do {
     (_, c) \<leftarrow> on_port (ecx_APWR aiadr ECT_REG_EEPCFG 1 [2] EC_TIMEOUTRET) c;
     (_, c) \<leftarrow> on_port (ecx_APWR aiadr ECT_REG_EEPCFG 1 [0] EC_TIMEOUTRET) c;
     Some c
   }"

text \<open>The words of the EEPROM are addressed with 16 bits, so that the address wraps around.\<close>

definition eep_read_chunk :: "bool \<Rightarrow> u16 \<Rightarrow> int \<times> buf \<times> ecx_context \<Rightarrow> (int \<times> buf \<times> ecx_context) option" where
  "eep_read_chunk wide aiadr s = (case s of (i, e, c) \<Rightarrow> do {
     (b8, c) \<leftarrow> ecx_readeepromAP aiadr (word_of_int (i div 2)) EC_TIMEOUTEEP c;
     let bs = (if wide then enc64 b8 else enc32 (ucast b8));
     chk (0 \<le> i \<and> i + int (length bs) \<le> MAXBUF);
     Some (i + int (length bs), blit_list e (nat i) bs, c)
   })"

definition eeprom_read :: "int \<Rightarrow> int \<Rightarrow> int \<Rightarrow> buf \<Rightarrow> ecx_context \<Rightarrow> (bool \<times> buf \<times> ecx_context) option" where
  "eeprom_read slave start len e c =
     (if slavecount c \<ge> slave \<and> slave > 0 \<and> start + len \<le> MAXBUF then do {
        let aiadr = word_of_int (1 - slave);
        c \<leftarrow> eep_owner aiadr c;
        (_, st, c) \<leftarrow> on_port_buf (ecx_APRD aiadr ECT_REG_EEPSTAT 2 (enc16 0) EC_TIMEOUTRET) c;
        let wide = (dec16 st AND EC_ESTAT_R64 \<noteq> 0);
        (_, e, c) \<leftarrow> while_loop (\<lambda>(i, _). i < start + len) (eep_read_chunk wide aiadr) (start, e, c);
        Some (True, e, c)
      } else Some (False, e, c))"

definition eep_write_word :: "u16 \<Rightarrow> buf \<Rightarrow> int \<times> ecx_context \<Rightarrow> (int \<times> ecx_context) option" where
  "eep_write_word aiadr e s = (case s of (i, c) \<Rightarrow> do {
     let w = i div 2;
     chk (0 \<le> w \<and> 2 * w + 1 < MAXBUF);
     (_, c) \<leftarrow> ecx_writeeepromAP aiadr (word_of_int w) (mk16 (e (nat (2 * w))) (e (nat (2 * w + 1)))) EC_TIMEOUTEEP c;
     Some (i + 2, c)
   })"

definition eeprom_write :: "int \<Rightarrow> int \<Rightarrow> int \<Rightarrow> buf \<Rightarrow> ecx_context \<Rightarrow> (bool \<times> ecx_context) option" where
  "eeprom_write slave start len e c =
     (if slavecount c \<ge> slave \<and> slave > 0 \<and> start + len \<le> MAXBUF then do {
        let aiadr = word_of_int (1 - slave);
        c \<leftarrow> eep_owner aiadr c;
        (_, c) \<leftarrow> while_loop (\<lambda>(i, _). i < start + len) (eep_write_word aiadr e) (start, c);
        Some (True, c)
      } else Some (False, c))"

definition eeprom_writealias :: "int \<Rightarrow> int \<Rightarrow> u16 \<Rightarrow> ecx_context \<Rightarrow> (int \<times> ecx_context) option" where
  "eeprom_writealias slave alias crc c =
     (if slavecount c \<ge> slave \<and> slave > 0 \<and> alias \<le> 0xffff then do {
        let aiadr = word_of_int (1 - slave);
        c \<leftarrow> eep_owner aiadr c;
        (ret, c) \<leftarrow> ecx_writeeepromAP aiadr 0x04 (word_of_int alias) EC_TIMEOUTEEP c;
        if ret \<noteq> 0 then ecx_writeeepromAP aiadr 0x07 crc EC_TIMEOUTEEP c else Some (ret, c)
      } else Some (0, c))"

section \<open>The tool\<close>

text \<open>The mode with its argument: the file to read, or the alias address.\<close>

datatype tool_mode =
    MODE_NONE
  | MODE_READBIN
  | MODE_READINTEL
  | MODE_WRITEBIN "u8 list option"
  | MODE_WRITEINTEL "string option"
  | MODE_WRITEALIAS int
  | MODE_INFO

text \<open>The file that is written.\<close>

datatype tool_file = No_file | Bin_file "u8 list" | Hex_file string

definition tool_read :: "tool_mode \<Rightarrow> int \<Rightarrow> buf \<Rightarrow> ecx_context \<Rightarrow> (tool_file \<times> buf \<times> ecx_context) option" where
  "tool_read mode slave e c = do {
     (_, e, c) \<leftarrow> eeprom_read slave 0 MINBUF e c;
     let esize = (uint (mk16 (e 0x7C) (e 0x7D)) + 1) * 128;
     let esize = (if esize > MAXBUF then MAXBUF else esize);
     if mode = MODE_INFO then Some (No_file, e, c)
     else do {
       (e, c) \<leftarrow> (if esize > MINBUF then do {
           (_, e, c) \<leftarrow> eeprom_read slave MINBUF (esize - MINBUF) e c;
           Some (e, c)
         } else Some (e, c));
       file \<leftarrow> (if mode = MODE_READINTEL then map_option Hex_file (output_intelhex esize e) else map_option Bin_file (output_bin esize e));
       Some (file, e, c)
     }
   }"

definition tool_alias :: "int \<Rightarrow> int \<Rightarrow> buf \<Rightarrow> ecx_context \<Rightarrow> (buf \<times> ecx_context) option" where
  "tool_alias slave alias e c = do {
     (ok, e, c) \<leftarrow> eeprom_read slave 0 CRCBUF e c;
     if ok then do {
       let e = blit_list e 8 (enc16 (word_of_int alias));
       (_, c) \<leftarrow> eeprom_writealias slave alias (SIIcrc e) c;
       Some (e, c)
     } else Some (e, c)
   }"

text \<open>
  The results \<open>fd\<close> and \<open>bound\<close> of the system open the interface, \<open>v\<close> is the variable that is
  not initialised.
\<close>

definition eepromtool :: "int \<Rightarrow> int \<Rightarrow> int \<Rightarrow> int \<Rightarrow> tool_mode \<Rightarrow> buf \<Rightarrow> ecx_context \<Rightarrow> (tool_file \<times> buf \<times> ecx_context) option" where
  "eepromtool fd bound v slave mode e c = (
     let (rval, p) = ecx_setupnic fd bound False (port c); c = c\<lparr>port := p\<rparr>
     in if rval > 0 then do {
          (wkc, _, c) \<leftarrow> on_port_buf (ecx_BRD 0 ECT_REG_TYPE 4 [0, 0, 0, 0] EC_TIMEOUTSAFE) c;
          if wkc > 0 then do {
            let c = c\<lparr>slavecount := wkc\<rparr>;
            if slavecount c \<ge> slave \<and> slave > 0 then (case mode of
                MODE_NONE \<Rightarrow> Some (No_file, e, c)
              | MODE_WRITEBIN file \<Rightarrow> (case input_bin file e of
                  None \<Rightarrow> Some (No_file, e, c)
                | Some (esize, e) \<Rightarrow> do { (_, c) \<leftarrow> eeprom_write slave 0 esize e c; Some (No_file, e, c) })
              | MODE_WRITEINTEL file \<Rightarrow> do {
                  (ok, estart, esize, e) \<leftarrow> input_intelhex v file e;
                  if ok then do { (_, c) \<leftarrow> eeprom_write slave estart esize e c; Some (No_file, e, c) } else Some (No_file, e, c)
                }
              | MODE_WRITEALIAS alias \<Rightarrow> do { (e, c) \<leftarrow> tool_alias slave alias e c; Some (No_file, e, c) }
              | _ \<Rightarrow> tool_read mode slave e c)
            else Some (No_file, e, c)
          } else Some (No_file, e, c)
        } else Some (No_file, e, c))"

end
