(* ===== verification/ToolProps.thy ===== *)
theory ToolProps
  imports EepromTool
begin

text \<open>
  What holds of the EEPROM tool: its checksum finds every damaged byte, and a file that it writes
  in Intel hex format reads back as the bytes that were written.
\<close>

section \<open>The checksum\<close>

lemma bit_crc_shift: "n < 8 \<Longrightarrow> bit (crc_shift a) n \<longleftrightarrow> ((0 < n \<and> bit a (n - 1)) \<noteq> (bit a 7 \<and> n < 3))"
proof -
  assume n: "n < 8"
  have m: "(0x07 :: u8) = mask 3" by (simp add: mask_eq_exp_minus_1)
  have "a AND 0x80 \<noteq> 0 \<longleftrightarrow> bit a 7" using and_exp_eq_0_iff_not_bit [of a 7] by simp
  moreover have "bit (push_bit 1 a) n \<longleftrightarrow> 0 < n \<and> bit a (n - 1)" using n bit_push_bit_iff [of 1 a n] by auto
  moreover have "bit (mask 3 :: u8) n \<longleftrightarrow> n < 3" using n by (auto simp: bit_mask_iff)
  ultimately show ?thesis unfolding crc_shift_def m by (simp add: bit_xor_iff)
qed

lemma crc_shift_inj: "crc_shift a = crc_shift b \<Longrightarrow> a = b"
proof (rule bit_word_eqI)
  fix n assume eq: "crc_shift a = crc_shift b" and n: "n < LENGTH(8)"
  have b: "((0 < k \<and> bit a (k - 1)) \<noteq> (bit a 7 \<and> k < 3)) = ((0 < k \<and> bit b (k - 1)) \<noteq> (bit b 7 \<and> k < 3))" if "k < 8" for k
    using bit_crc_shift [OF that, of a] bit_crc_shift [OF that, of b] eq by simp
  have seven: "bit a 7 = bit b 7" using b [of 0] by simp
  show "bit a n = bit b n"
  proof (cases "n = 7")
    case False
    then have "Suc n < 8" using n by simp
    from b [OF this] seven show ?thesis by auto
  qed (simp add: seven)
qed

lemma crc_shift_pow_inj: "(crc_shift ^^ k) a = (crc_shift ^^ k) b \<Longrightarrow> a = b"
  by (induction k) (auto dest: crc_shift_inj)

lemma calc_crc_inj: "calc_crc a x = calc_crc b y \<Longrightarrow> a XOR x = b XOR y"
  unfolding calc_crc_def by (rule crc_shift_pow_inj)

lemma xor_cancel: "a XOR x = a XOR y \<longleftrightarrow> x = y" "x XOR a = y XOR a \<longleftrightarrow> x = y" for a x y :: u8
proof -
  have "a XOR (a XOR x) = x" for x by (simp add: xor.assoc [symmetric])
  then show "a XOR x = a XOR y \<longleftrightarrow> x = y" by metis
  then show "x XOR a = y XOR a \<longleftrightarrow> x = y" by (simp add: xor.commute)
qed

lemma crc_same_suffix:
  assumes "foldl (\<lambda>crc i. calc_crc crc (e i)) a is = foldl (\<lambda>crc i. calc_crc crc (e i)) b is"
  shows "a = b"
  using assms
proof (induction "is" arbitrary: a b)
  case (Cons i "is")
  then have "calc_crc a (e i) = calc_crc b (e i)" by simp
  then show ?case by (auto dest!: calc_crc_inj simp: xor_cancel)
qed simp

text \<open>
  The checksum over the first 14 bytes of an EEPROM finds every damage to a single byte:
  two contents that differ in exactly one of these bytes never have the same checksum.
\<close>

theorem SIIcrc_detects:
  assumes "k < 14" "\<forall>i<14. i \<noteq> k \<longrightarrow> e i = f i" "e k \<noteq> f k"
  shows "SIIcrc e \<noteq> SIIcrc f"
proof
  assume eq: "SIIcrc e = SIIcrc f"
  let ?c = "\<lambda>e a is. foldl (\<lambda>crc i. calc_crc crc (e i)) a is :: u8"
  have same: "?c e a is = ?c f a is" if "set is \<subseteq> {..<14} - {k}" for a "is"
    using that assms(2) by (induction "is" arbitrary: a) auto
  have "(ucast (?c e 0xff [0..<14]) :: u16) = ucast (?c f 0xff [0..<14])" using eq by (simp only: SIIcrc_def)
  moreover have "ucast (ucast x :: u16) = x" for x :: u8 by (rule bit_word_eqI) (simp add: bit_simps)
  ultimately have "?c e 0xff [0..<14] = ?c f 0xff [0..<14]" by metis
  moreover have split: "[0..<14] = [0..<k] @ k # [Suc k..<14]"
    using assms(1) upt_add_eq_append [of 0 k "14 - k"] by (simp add: upt_conv_Cons)
  ultimately have "?c e (calc_crc (?c e 0xff [0..<k]) (e k)) [Suc k..<14] = ?c f (calc_crc (?c f 0xff [0..<k]) (f k)) [Suc k..<14]"
    by (simp only: foldl_append foldl_Cons)
  moreover have "?c f a [0..<k] = ?c e a [0..<k]" "?c f a [Suc k..<14] = ?c e a [Suc k..<14]" for a
    using assms(1) by (auto intro!: same [symmetric])
  ultimately have "?c e (calc_crc (?c e 0xff [0..<k]) (e k)) [Suc k..<14] = ?c e (calc_crc (?c e 0xff [0..<k]) (f k)) [Suc k..<14]"
    by metis
  from crc_same_suffix [OF this] have "e k = f k" by (auto dest!: calc_crc_inj simp: xor_cancel)
  with assms(3) show False by simp
qed

theorem SIIcrc_detects_witness:
  "SIIcrc (\<lambda>i. of_nat i) \<noteq> SIIcrc ((\<lambda>i. of_nat i)(5 := 7))"
  by (rule SIIcrc_detects [where k = 5]) simp_all

section \<open>The records of a file\<close>

lemma read_line_line:
  "CHR 0x0A \<notin> set l \<Longrightarrow> length l \<le> n \<Longrightarrow> read_line n (l @ CHR 0x0A # s) = (l, Some (CHR 0x0A), s)"
  by (induction l arbitrary: n) (auto split: prod.splits)

lemma fmt_X_plain:
  assumes "n < 256"
  shows "set (fmt_X 2 n) \<inter> {CHR 0x0A, CHR 0x00} = {}"
proof -
  have "n div 16 < 16" "n mod 16 < 16" using assms by (simp_all add: less_mult_imp_div_less)
  then show ?thesis using digit_facts(7,8) by (simp add: fmt_X_2 [OF assms])
qed

lemma fmt_X_plain4:
  assumes "n < 65536"
  shows "set (fmt_X 4 n) \<inter> {CHR 0x0A, CHR 0x00} = {}"
proof -
  have "n div 4096 < 16" "n div 256 mod 16 < 16" "n div 16 mod 16 < 16" "n mod 16 < 16" using assms by (simp_all add: less_mult_imp_div_less)
  then show ?thesis using digit_facts(7,8) by (simp add: fmt_X_4 [OF assms])
qed

lemma fmt_X_lengths: "n < 256 \<Longrightarrow> length (fmt_X 2 n) = 2" "m < 65536 \<Longrightarrow> length (fmt_X 4 m) = 4"
  by (simp_all add: fmt_X_length)

text \<open>The byte that makes the sum of a record 0.\<close>

definition check_of :: "nat \<Rightarrow> int" where
  "check_of a = (0x100 - int a) mod 0x100"

definition hex_body :: "buf \<Rightarrow> nat \<Rightarrow> nat \<Rightarrow> string" where
  "hex_body e cc ll =
     '':'' @ fmt_X 2 ll @ fmt_X 4 cc @ ''00'' @ concat (map (\<lambda>i. fmt_X 2 (unat (e (cc + i)))) [0..<ll]) @
       fmt_X 2 (nat (check_of (ll + cc div 256 + cc mod 256 + sum_list (map (\<lambda>i. unat (e (cc + i))) [0..<ll]))))"

lemma hex_line_body: "hex_line e cc ll = hex_body e cc ll @ [CHR 0x0A]"
  by (simp add: hex_line_def hex_body_def check_of_def)

lemma unat_u8: "unat (x :: u8) < 256"
  by (rule less_le_trans [OF unsigned_less]) simp

lemma check_byte: "nat (check_of a) < 256" "0 \<le> check_of a"
  using pos_mod_bound [of 256 "0x100 - int a"] pos_mod_sign [of 256 "0x100 - int a"] unfolding check_of_def by linarith+

lemma drop_bytes:
  assumes "i \<le> n" "\<And>j. length (f j) = 2"
  shows "drop (2 * i) (concat (map f [0..<n]) @ s) = concat (map f [i..<n]) @ s"
proof -
  have "length (concat (map f [0..<i])) = 2 * i" using assms(2) by (induction i) simp_all
  moreover have "[0..<n] = [0..<i] @ [i..<n]" using assms(1) upt_add_eq_append [of 0 i "n - i"] by simp
  ultimately show ?thesis by simp
qed

text \<open>The text of a record has the length of its bytes, no end of a line and no zero; its fields are read back.\<close>

lemma hex_body_shape:
  assumes "cc + ll \<le> 65536" "0 < ll" "ll \<le> 32"
  shows "length (hex_body e cc ll) = 11 + 2 * ll" "hex_body e cc ll ! 0 = CHR '':''"
    "set (hex_body e cc ll) \<inter> {CHR 0x0A, CHR 0x00} = {}"
proof -
  have "length (concat (map (\<lambda>i. fmt_X 2 (unat (e (cc + i)))) [0..<ll])) = 2 * ll"
    by (induction ll) (simp_all add: fmt_X_lengths unat_u8)
  then show "length (hex_body e cc ll) = 11 + 2 * ll"
    using assms by (simp add: hex_body_def fmt_X_lengths check_byte)
  show "hex_body e cc ll ! 0 = CHR '':''" by (simp add: hex_body_def)
  have "ll < 256" "cc < 65536" using assms by simp_all
  then have "x \<noteq> CHR 0x0A \<and> x \<noteq> CHR 0x00" if x: "x \<in> set (hex_body e cc ll)" for x
    using x fmt_X_plain [OF unat_u8] fmt_X_plain [OF check_byte(1)] fmt_X_plain [of ll] fmt_X_plain4 [of cc]
    unfolding hex_body_def set_append Un_iff set_concat set_map UN_iff image_iff by (elim disjE bexE) auto
  then show "set (hex_body e cc ll) \<inter> {CHR 0x0A, CHR 0x00} = {}" by blast
qed

lemma plain_take: "set s \<inter> {CHR 0x0A, CHR 0x00} = {} \<Longrightarrow> takeWhile (\<lambda>ch. ch \<noteq> CHR 0x00) (drop p s) = drop p s"
  by (auto simp: takeWhile_eq_all_conv dest: in_set_dropD)

lemma hex_body_header:
  assumes "cc + ll \<le> 65536" "0 < ll" "ll \<le> 32"
  shows "hex_header (hex_body e cc ll) = Some (int ll, int cc, 0)"
proof -
  have z: "''00'' @ s = fmt_X 2 0 @ s" for s by (simp add: fmt_X_2 digit_def)
  have "ll < 256" "cc < 65536" using assms by simp_all
  note scan = scan_X_2 [OF this(1)] scan_X_4 [OF this(2)] scan_X_2 [of 0]
  show ?thesis
    unfolding hex_header_def plain_take [OF hex_body_shape(3) [OF assms]]
    unfolding hex_body_def z by (simp add: scan del: append_assoc)
qed

lemma hex_body_byte:
  assumes "cc + ll \<le> 65536" "0 < ll" "ll \<le> 32" "i \<le> ll"
  shows "\<exists>s. scan_at 2 (hex_body e cc ll) (9 + 2 * i) = Some (Scanned (if i < ll then int (unat (e (cc + i)))
    else check_of (ll + cc div 256 + cc mod 256 + sum_list (map (\<lambda>i. unat (e (cc + i))) [0..<ll]))) s)"
proof -
  let ?f = "\<lambda>i. fmt_X 2 (unat (e (cc + i)))"
  let ?c = "check_of (ll + cc div 256 + cc mod 256 + sum_list (map (\<lambda>i. unat (e (cc + i))) [0..<ll]))"
  have l: "ll < 256" "cc < 65536" using assms by simp_all
  have len: "length (?f j) = 2" for j by (simp add: fmt_X_lengths unat_u8)
  let ?p = "'':'' @ fmt_X 2 ll @ fmt_X 4 cc @ ''00''"
  have "hex_body e cc ll = ?p @ concat (map ?f [0..<ll]) @ fmt_X 2 (nat ?c)"
    by (simp add: hex_body_def)
  moreover have "drop (9 + 2 * i) (?p @ t) = drop (2 * i) t" for t
  proof -
    have "length ?p = 9" using l by (simp add: fmt_X_lengths)
    then show ?thesis by (simp only: drop_append) simp
  qed
  ultimately have "drop (9 + 2 * i) (hex_body e cc ll) = drop (2 * i) (concat (map ?f [0..<ll]) @ fmt_X 2 (nat ?c))"
    by (simp only:)
  also have "\<dots> = concat (map ?f [i..<ll]) @ fmt_X 2 (nat ?c)" by (rule drop_bytes [OF assms(4) len])
  finally have d: "scan_at 2 (hex_body e cc ll) (9 + 2 * i) = Some (scan_x 2 (concat (map ?f [i..<ll]) @ fmt_X 2 (nat ?c)))"
    unfolding scan_at_def plain_take [OF hex_body_shape(3) [OF assms(1-3)]] using assms(3,4) by simp
  show ?thesis
  proof (cases "i < ll")
    case True
    then have "[i..<ll] = i # [Suc i..<ll]" by (simp add: upt_conv_Cons)
    then show ?thesis using d True scan_X_2 [OF unat_u8] by simp
  next
    case False
    then show ?thesis using d scan_X_2 [OF check_byte(1), of _ "[]"] check_byte(2) by simp
  qed
qed

section \<open>Writing and reading back\<close>

lemma hex_body_data:
  assumes "cc + ll \<le> 65536" "0 < ll" "ll \<le> 32"
  shows "\<exists>w. for_loop ll 0 (hex_byte (hex_body e cc ll) (int cc)) (g, a, v) =
    Some (\<lambda>x. if cc \<le> x \<and> x < cc + ll then e x else g x, a + int (sum_list (map (\<lambda>i. unat (e (cc + i))) [0..<ll])), w)"
proof -
  let ?P = "\<lambda>i (f, b :: int, w :: int). f = (\<lambda>x. if cc \<le> x \<and> x < cc + i then e x else g x) \<and>
    b = a + int (sum_list (map (\<lambda>i. unat (e (cc + i))) [0..<i]))"
  have "returns (for_loop ll 0 (hex_byte (hex_body e cc ll) (int cc)) (g, a, v)) (?P (0 + ll))"
  proof (rule for_loop_returns)
    fix i s assume i: "i < 0 + ll" and s: "?P i s"
    obtain f b w where fbw: "s = (f, b, w)" by (cases s) auto
    obtain t where t: "scan_at 2 (hex_body e cc ll) (9 + 2 * i) = Some (Scanned (int (unat (e (cc + i)))) t)"
      using hex_body_byte [OF assms, of i e] i by auto
    have "word_of_int (int (unat (e (cc + i)))) = e (cc + i)" by simp
    moreover have "nat (int cc + int i) = cc + i" by simp
    moreover have "f(cc + i := e (cc + i)) = (\<lambda>x. if cc \<le> x \<and> x < cc + Suc i then e x else g x)"
      using s fbw by (auto simp: fun_eq_iff)
    ultimately show "returns (hex_byte (hex_body e cc ll) (int cc) i s) (?P (Suc i))"
      using t s fbw i assms(1) by (simp add: hex_byte_def scan_or_def Let_def)
  qed (auto simp: fun_eq_iff)
  then show ?thesis by (auto simp: returns_iff)
qed

text \<open>The state of the reader before the record of address \<open>cc\<close>.\<close>

definition read_to :: "buf \<Rightarrow> buf \<Rightarrow> nat \<Rightarrow> hexin \<Rightarrow> bool" where
  "read_to e g cc h \<longleftrightarrow> hstart h = (if cc = 0 then MAXBUF else 0) \<and> hlength h = int cc \<and> hbuf h = (\<lambda>x. if x < cc then e x else g x)"

lemma hex_record_read:
  assumes "cc + ll \<le> 65536" "0 < ll" "ll \<le> 32" "read_to e g cc h"
  shows "\<exists>h'. hex_record (hex_body e cc ll) h = Some (True, h') \<and> read_to e g (cc + ll) h'"
proof -
  let ?acc = "ll + cc div 256 + cc mod 256 + sum_list (map (\<lambda>i. unat (e (cc + i))) [0..<ll])"
  obtain w where w: "for_loop ll 0 (hex_byte (hex_body e cc ll) (int cc)) (hbuf h, int ll + int cc div 256 + int cc mod 256, lval h) =
      Some (\<lambda>x. if cc \<le> x \<and> x < cc + ll then e x else hbuf h x,
        int ll + int cc div 256 + int cc mod 256 + int (sum_list (map (\<lambda>i. unat (e (cc + i))) [0..<ll])), w)"
    using hex_body_data [OF assms(1-3)] by blast
  obtain t where t: "scan_at 2 (hex_body e cc ll) (9 + 2 * ll) = Some (Scanned (check_of ?acc) t)"
    using hex_body_byte [OF assms(1-3), of ll e] by auto
  have acc: "(0x100 - (int ll + int cc div 256 + int cc mod 256 + int (sum_list (map (\<lambda>i. unat (e (cc + i))) [0..<ll])))) mod 0x100 = check_of ?acc"
    by (simp add: check_of_def zdiv_int zmod_int)
  have buf: "(\<lambda>x. if cc \<le> x \<and> x < cc + ll then e x else hbuf h x) = (\<lambda>x. if x < cc + ll then e x else g x)"
    using assms(4) by (auto simp: read_to_def fun_eq_iff)
  show ?thesis
    using assms w t acc buf unfolding hex_record_def hex_body_header [OF assms(1-3)]
    by (auto simp: scan_or_def read_to_def Let_def)
qed

lemma hex_lines_read:
  assumes "0 < n" "n \<le> 65536" "cc \<le> n" "read_to e g cc h"
  shows "\<exists>h'. hex_lines (hex_output e cc n @ '':00000001FF'' @ [CHR 0x0A]) h = Some (True, h') \<and> read_to e g n h'"
  using assms(3,4)
proof (induction "n - cc" arbitrary: cc h rule: less_induct)
  case less
  show ?case
  proof (cases "cc < n")
    case True
    define ll where "ll = min (n - cc) 32"
    have l: "cc + ll \<le> 65536" "0 < ll" "ll \<le> 32" "cc + ll \<le> n" using True assms(2) by (auto simp: ll_def)
    note shape = hex_body_shape [OF l(1-3), of e]
    let ?s = "hex_output e (cc + ll) n @ '':00000001FF'' @ [CHR 0x0A]"
    obtain h' where h': "hex_record (hex_body e cc ll) h = Some (True, h')" "read_to e g (cc + ll) h'"
      using hex_record_read [OF l(1-3) less.prems(2)] by blast
    have "hex_output e cc n = hex_line e cc ll @ hex_output e (cc + ll) n"
      using True by (subst hex_output.simps) (simp add: ll_def Let_def)
    then have "hex_output e cc n @ '':00000001FF'' @ [CHR 0x0A] = hex_body e cc ll @ CHR 0x0A # ?s" by (simp add: hex_line_body)
    moreover have "read_line (MAXSLENGTH - 1) (hex_body e cc ll @ CHR 0x0A # ?s) = (hex_body e cc ll, Some (CHR 0x0A), ?s)"
      using shape l(3) by (intro read_line_line) auto
    ultimately have "hex_lines (hex_output e cc n @ '':00000001FF'' @ [CHR 0x0A]) h = hex_lines ?s h'"
      using shape(1,2) h'(1) by (subst hex_lines.simps) simp
    then show ?thesis using less.hyps [OF _ l(4) h'(2)] l(2) True by simp
  next
    case False
    then have cc: "cc = n" using less.prems(1) by simp
    have "hex_output e cc n = []" using False by (subst hex_output.simps) simp
    moreover have "read_line (MAXSLENGTH - 1) ('':00000001FF'' @ [CHR 0x0A]) = ('':00000001FF'', Some (CHR 0x0A), [])"
      using read_line_line [of "'':00000001FF''" "MAXSLENGTH - 1" "[]"] by simp
    moreover have "hex_record '':00000001FF'' h = Some (True, h)"
    proof -
      have "fmt_X 2 0 = ''00''" "fmt_X 4 0 = ''0000''" "fmt_X 2 1 = ''01''" by (simp_all add: fmt_X_2 fmt_X_4 digit_def)
      then have "hex_header '':00000001FF'' = Some (0, 0, 1)"
        using scan_X_2 [of 0 "''000001FF''"] scan_X_4 [of 0 "''01FF''"] scan_X_2 [of 1 "''FF''"] by (simp add: hex_header_def)
      then show ?thesis by (simp add: hex_record_def)
    qed
    moreover have "hex_lines [] h = Some (True, h)" by (subst hex_lines.simps) simp
    ultimately show ?thesis using less.prems(2) cc by (subst hex_lines.simps) simp
  qed
qed

text \<open>
  C36: a file in Intel hex format reads back: for up to 64 kB, what the tool writes it reads
  again, with the start 0, the length written, and every byte of the buffer as it was, whatever
  the buffer held before; no other byte of the buffer is touched.
\<close>

theorem intelhex_roundtrip:
  assumes "0 < n" "n \<le> 0x10000"
  shows "\<exists>s. output_intelhex n e = Some s \<and>
    input_intelhex v (Some s) g = Some (True, 0, n, \<lambda>i. if int i < n then e i else g i)"
proof -
  have n: "0 < nat n" "nat n \<le> 65536" using assms by simp_all
  have "read_to e g 0 \<lparr>hstart = MAXBUF, hlength = 0, lval = v, hbuf = g\<rparr>" by (simp add: read_to_def)
  from hex_lines_read [OF n _ this] obtain h where h: "hex_lines (hex_output e 0 (nat n) @ '':00000001FF'' @ [CHR 0x0A]) \<lparr>hstart = MAXBUF, hlength = 0, lval = v, hbuf = g\<rparr> = Some (True, h)"
      "read_to e g (nat n) h"
    by blast
  have "(\<lambda>x. if x < nat n then e x else g x) = (\<lambda>i. if int i < n then e i else g i)" by (auto simp: fun_eq_iff)
  then show ?thesis using h assms by (auto simp: output_intelhex_def input_intelhex_def read_to_def)
qed

theorem intelhex_roundtrip_witness:
  "\<exists>s. output_intelhex 40 (\<lambda>i. of_nat i) = Some s \<and>
    input_intelhex 0 (Some s) (\<lambda>_. 0) = Some (True, 0, 40, \<lambda>i. if int i < 40 then of_nat i else 0)"
  by (rule intelhex_roundtrip) simp_all

end
