(* ===== verification/Oshw.thy ===== *)
theory Oshw
  imports EcPrelude
begin

text \<open>
  The list of the network adapters and the byte order of the network, \<^verbatim>\<open>oshw/linux/oshw.c\<close>. The
  adapters are records that \<^verbatim>\<open>malloc\<close> provides, linked by their addresses: the store is explicit,
  an address is a number, and 0 is the null pointer.
\<close>

abbreviation EC_MAXLEN_ADAPTERNAME :: nat where "EC_MAXLEN_ADAPTERNAME \<equiv> 128"

section \<open>Byte order\<close>

text \<open>The host is little endian.\<close>

definition oshw_htons :: "u16 \<Rightarrow> u16" where
  "oshw_htons host = mk16 (hi8 host) (lo8 host)"

definition oshw_ntohs :: "u16 \<Rightarrow> u16" where
  "oshw_ntohs network = mk16 (hi8 network) (lo8 network)"

section \<open>The store\<close>

record ec_adapter =
  a_name :: "u8 list"
  a_desc :: "u8 list"
  a_next :: nat

text \<open>\<open>mallocs\<close> are the results of the next calls of \<^verbatim>\<open>malloc\<close>.\<close>

record heap =
  cells :: "nat \<Rightarrow> ec_adapter option"
  mallocs :: "nat script"

definition heap_get :: "nat \<Rightarrow> heap \<Rightarrow> ec_adapter option" where
  "heap_get a h = (if a = 0 then None else cells h a)"

definition heap_upd :: "nat \<Rightarrow> (ec_adapter \<Rightarrow> ec_adapter) \<Rightarrow> heap \<Rightarrow> heap option" where
  "heap_upd a f h = do { x \<leftarrow> heap_get a h; Some (h\<lparr>cells := (cells h)(a := Some (f x))\<rparr>) }"

text \<open>A new record, whose content is not defined; none when there is no memory left.\<close>

definition heap_malloc :: "ec_adapter \<Rightarrow> heap \<Rightarrow> nat \<times> heap" where
  "heap_malloc garbage h =
     (let a = mallocs h 0; h = h\<lparr>mallocs := script_tl (mallocs h)\<rparr>
      in if a = 0 then (0, h) else (a, h\<lparr>cells := (cells h)(a := Some garbage)\<rparr>))"

text \<open>Only what was allocated and not freed yet can be freed.\<close>

definition heap_free :: "nat \<Rightarrow> heap \<Rightarrow> heap option" where
  "heap_free a h = do { _ \<leftarrow> heap_get a h; Some (h\<lparr>cells := (cells h)(a := None)\<rparr>) }"

section \<open>The adapters\<close>

text \<open>\<^verbatim>\<open>strncpy\<close> into an array of \<open>n\<close> bytes and the final zero; a string has no zero in it.\<close>

definition copy_name :: "u8 list \<Rightarrow> u8 list" where
  "copy_name s = (take EC_MAXLEN_ADAPTERNAME s @ replicate (EC_MAXLEN_ADAPTERNAME - length s) 0)[EC_MAXLEN_ADAPTERNAME - 1 := 0]"

text \<open>One interface of the table of the system: the index, and the name, which may be missing.\<close>

type_synonym if_entry = "nat \<times> u8 list option"

definition adapter_body :: "ec_adapter \<Rightarrow> if_entry list \<Rightarrow> nat \<times> nat \<times> nat \<times> heap \<Rightarrow> ((nat \<times> nat \<times> nat \<times> heap) \<times> bool) option" where
  "adapter_body garbage ids s = (case s of (i, prev, ret, h) \<Rightarrow> do {
     (index, name) \<leftarrow> arr_get ids i;
     if index \<noteq> 0 then do {
       let (a, h) = heap_malloc garbage h;
       (ret, h) \<leftarrow> (if prev \<noteq> 0 then do { h \<leftarrow> heap_upd prev (\<lambda>x. x\<lparr>a_next := a\<rparr>) h; Some (ret, h) } else Some (a, h));
       h \<leftarrow> heap_upd a (\<lambda>x. x\<lparr>a_next := 0\<rparr>) h;
       h \<leftarrow> (case name of
           Some n \<Rightarrow> heap_upd a (\<lambda>x. x\<lparr>a_name := copy_name n, a_desc := copy_name n\<rparr>) h
         | None \<Rightarrow> heap_upd a (\<lambda>x. x\<lparr>a_name := (a_name x)[0 := 0], a_desc := (a_desc x)[0 := 0]\<rparr>) h);
       Some ((i + 1, a, ret, h), True)
     } else Some ((i, prev, ret, h), False)
   })"

text \<open>\<open>ids\<close> is the table that \<^verbatim>\<open>if_nameindex\<close> returns, \<open>None\<close> when it fails.\<close>

definition oshw_find_adapters :: "ec_adapter \<Rightarrow> if_entry list option \<Rightarrow> heap \<Rightarrow> (nat \<times> heap) option" where
  "oshw_find_adapters garbage ids h = do {
     ids \<leftarrow> ids;
     (_, _, ret, h) \<leftarrow> do_while (adapter_body garbage ids) (0, 0, 0, h);
     Some (ret, h)
   }"

definition free_body :: "nat \<times> heap \<Rightarrow> (nat \<times> heap) option" where
  "free_body s = (case s of (a, h) \<Rightarrow> do {
     x \<leftarrow> heap_get a h;
     h \<leftarrow> heap_free a h;
     Some (a_next x, h)
   })"

definition oshw_free_adapters :: "nat \<Rightarrow> heap \<Rightarrow> heap option" where
  "oshw_free_adapters a h =
     (if a \<noteq> 0 then do {
        x \<leftarrow> heap_get a h;
        h \<leftarrow> heap_free a h;
        (_, h) \<leftarrow> while_loop (\<lambda>(a, _). a \<noteq> 0) free_body (a_next x, h);
        Some h
      } else Some h)"

section \<open>Properties\<close>

lemma byte_order_roundtrip: "oshw_ntohs (oshw_htons w) = w"
  by (simp add: oshw_htons_def oshw_ntohs_def)

text \<open>The record of an interface; without a name only the first bytes are written.\<close>

definition adapter_of :: "ec_adapter \<Rightarrow> u8 list option \<Rightarrow> nat \<Rightarrow> ec_adapter" where
  "adapter_of garbage name nx = (case name of
     Some n \<Rightarrow> \<lparr>a_name = copy_name n, a_desc = copy_name n, a_next = nx\<rparr>
   | None \<Rightarrow> \<lparr>a_name = (a_name garbage)[0 := 0], a_desc = (a_desc garbage)[0 := 0], a_next = nx\<rparr>)"

text \<open>The store after the first \<open>i\<close> of the interfaces \<open>es\<close>.\<close>

definition laid :: "ec_adapter \<Rightarrow> if_entry list \<Rightarrow> heap \<Rightarrow> nat \<Rightarrow> heap \<Rightarrow> bool" where
  "laid garbage es h0 i h \<longleftrightarrow> mallocs h = (\<lambda>k. mallocs h0 (i + k)) \<and>
     (\<forall>j<i. cells h (mallocs h0 j) = Some (adapter_of garbage (snd (es ! j)) (if Suc j < i then mallocs h0 (Suc j) else 0))) \<and>
     (\<forall>x. x \<notin> mallocs h0 ` {..<i} \<longrightarrow> cells h x = cells h0 x)"

text \<open>Memory for \<open>n\<close> records is left: \<^verbatim>\<open>malloc\<close> provides addresses that are not in use.\<close>

definition memory :: "nat \<Rightarrow> heap \<Rightarrow> bool" where
  "memory n h \<longleftrightarrow> inj_on (mallocs h) {..<n} \<and> (\<forall>i<n. mallocs h i \<noteq> 0 \<and> cells h (mallocs h i) = None)"

lemma adapter_step:
  assumes m: "memory (length es) h0" and i: "i < length es" and e: "\<forall>e \<in> set es. fst e \<noteq> 0" and l: "laid garbage es h0 i h"
  shows "\<exists>h'. adapter_body garbage (es @ [(0, z)]) (i, if i = 0 then 0 else mallocs h0 (i - 1), if i = 0 then 0 else mallocs h0 0, h) =
    Some ((Suc i, mallocs h0 i, mallocs h0 0, h'), True) \<and> laid garbage es h0 (Suc i) h'"
proof -
  let ?a = "mallocs h0 i" and ?p = "mallocs h0 (i - 1)"
  obtain ix name where en: "es ! i = (ix, name)" by fastforce
  then have ix: "arr_get (es @ [(0, z)]) i = Some (ix, name)" "ix \<noteq> 0"
    using i e nth_mem [OF i] by (auto simp: arr_get_def nth_append)
  have a: "?a \<noteq> 0" "mallocs h 0 = ?a" "mallocs h0 j \<noteq> ?a" if "j < i" for j
    using m i l that by (auto simp: memory_def laid_def inj_on_def)
  have a0: "?a \<noteq> 0" "mallocs h 0 = ?a" using m i l by (auto simp: memory_def laid_def)
  let ?h1 = "h\<lparr>mallocs := script_tl (mallocs h), cells := (cells h)(?a := Some garbage)\<rparr>"
  have malloc: "heap_malloc garbage h = (?a, ?h1)" using a0 by (simp add: heap_malloc_def Let_def)
  let ?new = "adapter_of garbage name 0"
  let ?cells = "if i = 0 then (cells h)(?a := Some ?new) else (cells h)(?p := Some (adapter_of garbage (snd (es ! (i - 1))) ?a), ?a := Some ?new)"
  let ?h' = "h\<lparr>mallocs := script_tl (mallocs h), cells := ?cells\<rparr>"
  have p: "?p \<noteq> 0 \<and> ?p \<noteq> ?a \<and> cells h ?p = Some (adapter_of garbage (snd (es ! (i - 1))) 0)" if "0 < i"
    using m i l that a(3) [of "i - 1"] by (auto simp: memory_def laid_def)
  have "adapter_body garbage (es @ [(0, z)]) (i, if i = 0 then 0 else ?p, if i = 0 then 0 else mallocs h0 0, h) =
    Some ((Suc i, ?a, mallocs h0 0, ?h'), True)"
  proof (cases "i = 0")
    case True
    then show ?thesis using ix malloc a0 True
      by (cases garbage; cases name) (simp_all add: adapter_body_def heap_upd_def heap_get_def adapter_of_def del: arr_get_Some)
  next
    case False
    then have "0 < i" by simp
    note q = p [OF this]
    show ?thesis using ix malloc a0 False q
      by (cases garbage; cases name; cases "snd (es ! (i - 1))") (simp_all add: adapter_body_def heap_upd_def heap_get_def adapter_of_def fun_upd_twist del: arr_get_Some)
  qed
  moreover have "laid garbage es h0 (Suc i) ?h'"
    unfolding laid_def
  proof (intro conjI allI impI)
    show "mallocs ?h' = (\<lambda>k. mallocs h0 (Suc i + k))" using l by (auto simp: laid_def fun_eq_iff)
  next
    fix j assume j: "j < Suc i"
    show "cells ?h' (mallocs h0 j) = Some (adapter_of garbage (snd (es ! j)) (if Suc j < Suc i then mallocs h0 (Suc j) else 0))"
    proof (cases "j = i")
      case True
      then show ?thesis using en by simp
    next
      case False
      then have ji: "j < i" using j by simp
      show ?thesis
      proof (cases "Suc j = i")
        case True
        then have "i - 1 = j" "i \<noteq> 0" by auto
        then show ?thesis using a(3) [OF ji] True by simp
      next
        case False
        then have "j \<noteq> i - 1" "j < length es" "i - 1 < length es" using i ji by auto
        then have "mallocs h0 j \<noteq> ?p" using m by (auto simp: memory_def dest: inj_onD)
        then show ?thesis using a(3) [OF ji] l ji False by (auto simp: laid_def)
      qed
    qed
  next
    fix x assume x: "x \<notin> mallocs h0 ` {..<Suc i}"
    then have "x \<noteq> ?a" "0 < i \<longrightarrow> x \<noteq> ?p" "x \<notin> mallocs h0 ` {..<i}" by auto
    then show "cells ?h' x = cells h0 x" using l by (auto simp: laid_def)
  qed
  ultimately show ?thesis by blast
qed

lemma find_laid:
  assumes m: "memory (length es) h0" and e: "\<forall>e \<in> set es. fst e \<noteq> 0"
  shows "\<exists>h. oshw_find_adapters garbage (Some (es @ [(0, z)])) h0 = Some (if es = [] then 0 else mallocs h0 0, h) \<and> laid garbage es h0 (length es) h"
proof -
  let ?s = "\<lambda>i h. (i, if i = 0 then 0 else mallocs h0 (i - 1), if i = 0 then 0 else mallocs h0 0, h)"
  let ?P = "\<lambda>s. \<exists>i h. s = ?s i h \<and> i \<le> length es \<and> laid garbage es h0 i h"
  have "returns (do_while (adapter_body garbage (es @ [(0, z)])) (?s 0 h0)) (\<lambda>s. \<exists>h. s = ?s (length es) h \<and> laid garbage es h0 (length es) h)"
  proof (rule do_while_returns [where P = ?P and f = "\<lambda>s. length es - fst s"])
    show "?P (?s 0 h0)" by (intro exI [of _ 0] exI [of _ h0]) (simp add: laid_def)
    fix s assume "?P s"
    then obtain i h where s: "s = ?s i h" "i \<le> length es" "laid garbage es h0 i h" by blast
    show "returns (adapter_body garbage (es @ [(0, z)]) s)
      (\<lambda>(s', again). if again then ?P s' \<and> length es - fst s' < length es - fst s else \<exists>h. s' = ?s (length es) h \<and> laid garbage es h0 (length es) h)"
    proof (cases "i < length es")
      case True
      obtain h' where h': "adapter_body garbage (es @ [(0, z)]) (?s i h) = Some ((Suc i, mallocs h0 i, mallocs h0 0, h'), True)"
          "laid garbage es h0 (Suc i) h'"
        using adapter_step [OF m True e s(3)] by blast
      have "(Suc i, mallocs h0 i, mallocs h0 0, h') = ?s (Suc i) h'" by simp
      then have "?P (Suc i, mallocs h0 i, mallocs h0 0, h')" using h'(2) True Suc_leI by blast
      then show ?thesis unfolding s(1) h'(1) using True by simp
    next
      case False
      then have "i = length es" using s(2) by simp
      then show ?thesis using s(3) unfolding s(1) by (simp add: adapter_body_def arr_get_def)
    qed
  qed
  then show ?thesis by (auto simp: oshw_find_adapters_def returns_iff)
qed

text \<open>The records at the addresses \<open>xs\<close> are linked, from \<open>a\<close> on.\<close>

fun chain :: "heap \<Rightarrow> nat \<Rightarrow> nat list \<Rightarrow> bool" where
  "chain h a [] \<longleftrightarrow> a = 0"
| "chain h a (x # xs) \<longleftrightarrow> a = x \<and> x \<noteq> 0 \<and> (\<exists>r. cells h x = Some r \<and> chain h (a_next r) xs)"

lemma chain_frame: "chain h a xs \<Longrightarrow> y \<notin> set xs \<Longrightarrow> chain (h\<lparr>cells := (cells h)(y := v)\<rparr>) a xs"
  by (induction xs arbitrary: a) auto

lemma free_loop:
  "chain h a xs \<Longrightarrow> distinct xs \<Longrightarrow>
    while_loop (\<lambda>(a, _). a \<noteq> 0) free_body (a, h) = Some (0, h\<lparr>cells := (\<lambda>x. if x \<in> set xs then None else cells h x)\<rparr>)"
proof (induction xs arbitrary: a h)
  case (Cons x xs)
  then obtain r where r: "a = x" "x \<noteq> 0" "cells h x = Some r" "chain h (a_next r) xs" "x \<notin> set xs" by auto
  let ?h = "h\<lparr>cells := (cells h)(x := None)\<rparr>"
  have "free_body (a, h) = Some (a_next r, ?h)" using r by (simp add: free_body_def heap_get_def heap_free_def)
  then have "while_loop (\<lambda>(a, _). a \<noteq> 0) free_body (a, h) = while_loop (\<lambda>(a, _). a \<noteq> 0) free_body (a_next r, ?h)"
    using r(1,2) by (intro while_loop_step) simp_all
  also have "\<dots> = Some (0, ?h\<lparr>cells := (\<lambda>x. if x \<in> set xs then None else cells ?h x)\<rparr>)"
    using Cons.IH [OF chain_frame [OF r(4,5)]] Cons.prems(2) by simp
  finally show ?case by (simp add: fun_eq_iff)
qed simp

lemma free_chain:
  assumes "chain h a xs" "distinct xs"
  shows "oshw_free_adapters a h = Some (h\<lparr>cells := (\<lambda>x. if x \<in> set xs then None else cells h x)\<rparr>)"
proof (cases xs)
  case (Cons x ys)
  then obtain r where r: "a = x" "x \<noteq> 0" "cells h x = Some r" "chain h (a_next r) ys" "x \<notin> set ys" "distinct ys"
    using assms by auto
  from free_loop [OF chain_frame [OF r(4,5)] r(6), of None] r show ?thesis
    by (simp add: oshw_free_adapters_def heap_get_def heap_free_def Cons fun_eq_iff cong: if_cong)
qed (use assms in \<open>simp add: oshw_free_adapters_def\<close>)

lemma laid_chain:
  assumes "memory (length es) h0" "laid garbage es h0 (length es) h" "k \<le> length es"
  shows "chain h (if k < length es then mallocs h0 k else 0) (map (mallocs h0) [k..<length es])"
  using assms(3)
proof (induction k rule: inc_induct)
  case (step k)
  then have "[k..<length es] = k # [Suc k..<length es]" by (simp add: upt_conv_Cons)
  moreover have "a_next (adapter_of g n x) = x" for g n x by (simp add: adapter_of_def split: option.splits)
  ultimately show ?case using step assms(1,2) by (auto simp: laid_def memory_def)
qed simp

text \<open>
  C37: the adapters of the system become a list linked in their order, with the names cut to
  127 bytes, and freeing this list gives back every record exactly once: the store is again what
  it was before the search. (\<^verbatim>\<open>malloc\<close> is documented to provide addresses that are not in use.)
\<close>

theorem adapters_found_and_freed:
  assumes "memory (length es) h" "\<forall>e \<in> set es. fst e \<noteq> 0"
  shows "\<exists>a h1 h2 xs. oshw_find_adapters garbage (Some (es @ [(0, z)])) h = Some (a, h1) \<and> chain h1 a xs \<and> length xs = length es \<and>
    (\<forall>i<length es. \<forall>n. snd (es ! i) = Some n \<longrightarrow> (\<exists>x. cells h1 (xs ! i) = Some x \<and> a_name x = copy_name n)) \<and>
    oshw_free_adapters a h1 = Some h2 \<and> cells h2 = cells h"
proof -
  let ?xs = "map (mallocs h) [0..<length es]"
  obtain h1 where h1: "oshw_find_adapters garbage (Some (es @ [(0, z)])) h = Some (if es = [] then 0 else mallocs h 0, h1)" "laid garbage es h (length es) h1"
    using find_laid [OF assms] by blast
  have c: "chain h1 (if es = [] then 0 else mallocs h 0) ?xs" using laid_chain [OF assms(1) h1(2), of 0] by (cases es) simp_all
  have d: "distinct ?xs" using assms(1) by (auto simp: distinct_map memory_def inj_on_def)
  have "(if x \<in> set ?xs then None else cells h1 x) = cells h x" for x
    using h1(2) assms(1) by (auto simp: laid_def memory_def atLeast0LessThan)
  then have "cells (h1\<lparr>cells := (\<lambda>x. if x \<in> set ?xs then None else cells h1 x)\<rparr>) = cells h" by (simp add: fun_eq_iff)
  moreover have "\<exists>x. cells h1 (?xs ! i) = Some x \<and> a_name x = copy_name n" if "i < length es" "snd (es ! i) = Some n" for i n
    using h1(2) that by (simp add: laid_def adapter_of_def)
  ultimately show ?thesis
    using h1(1) c free_chain [OF c d]
    by (intro exI [of _ "if es = [] then 0 else mallocs h 0"] exI [of _ h1] exI [of _ ?xs]
        exI [of _ "h1\<lparr>cells := (\<lambda>x. if x \<in> set ?xs then None else cells h1 x)\<rparr>"] conjI allI impI) simp_all
qed

theorem adapters_found_and_freed_witness:
  "\<exists>a h1 h2 xs. oshw_find_adapters \<lparr>a_name = [], a_desc = [], a_next = 5\<rparr> (Some [(1, Some [108, 111]), (2, Some [101]), (0, None)])
      \<lparr>cells = (\<lambda>_. None), mallocs = (\<lambda>n. n + 8)\<rparr> = Some (a, h1) \<and>
    chain h1 a xs \<and> length xs = 2 \<and> oshw_free_adapters a h1 = Some h2 \<and> cells h2 = (\<lambda>_. None)"
proof -
  have m: "memory (length [(1 :: nat, Some [108, 111 :: u8]), (2, Some [101])]) \<lparr>cells = (\<lambda>_. None), mallocs = (\<lambda>n. n + 8)\<rparr>"
    by (simp add: memory_def inj_on_def)
  have e: "\<forall>e \<in> set [(1 :: nat, Some [108, 111 :: u8]), (2, Some [101])]. fst e \<noteq> 0" by simp
  show ?thesis
    using adapters_found_and_freed [OF m e, of "\<lparr>a_name = [], a_desc = [], a_next = 5\<rparr>" None]
    by (elim exE conjE, intro exI conjI) (assumption | simp)+
qed

end
