(* ===== verification/Wrappers.thy ===== *)
theory Wrappers
  imports Config ConfigMap ConfigProps CoeInfo Foe Soe Eoe Dc ProcessData SlaveState Sii Print Oshw
begin

text \<open>
  The single context of the library (\<^verbatim>\<open>ecx_context\<close> in \<^verbatim>\<open>soem/ethercatmain.c\<close>) with the contents of
  static memory, the opening of one interface or of two, and the functions under \<^verbatim>\<open>EC_VER1\<close> that
  pass this context on. The global state is the argument and the result of each function here.
\<close>

abbreviation EC_MAXSLAVE :: nat where "EC_MAXSLAVE \<equiv> 200"
abbreviation EC_MAXGROUP :: nat where "EC_MAXGROUP \<equiv> 2"

section \<open>Static memory\<close>

text \<open>
  \<open>clk\<close>, \<open>rx\<close> and \<open>snds\<close> are the environment: the clock, what the socket receives, and the
  results of sending.
\<close>

definition ec_stack0 :: "u8 list option script \<Rightarrow> int option script \<Rightarrow> ec_stack" where
  "ec_stack0 rx snds = \<lparr>sock = 0, rxbuf = (\<lambda>_ _. 0), rxbufstat = (\<lambda>_. EC_BUF_EMPTY), rxsa = (\<lambda>_. 0),
     tempinbuf = (\<lambda>_. 0), rxscript = rx, sndscript = snds\<rparr>"

definition ecx_port0 :: "osal_clock \<Rightarrow> u8 list option script \<Rightarrow> int option script \<Rightarrow> ecx_port" where
  "ecx_port0 clk rx snds = \<lparr>prim = ec_stack0 rx snds, redport = None, tempinbufs = 0, txbuf = (\<lambda>_ _. 0),
     txbuflength = (\<lambda>_. 0), txbuf2 = (\<lambda>_. 0), txbuflength2 = 0, lastidx = 0, redstate = ECT_RED_NONE,
     osclock = clk, txlog = []\<rparr>"

definition ecx_context0 :: "ecx_port \<Rightarrow> ecx_context" where
  "ecx_context0 p = \<lparr>port = p, slavelist = replicate EC_MAXSLAVE no_slave, slavecount = 0, maxslave = int EC_MAXSLAVE,
     grouplist = replicate EC_MAXGROUP no_group, maxgroup = int EC_MAXGROUP, esibuf = (\<lambda>_. 0), esimap = (\<lambda>_. 0), esislave = 0,
     elist = \<lparr>ehead = 0, etail = 0, Error = replicate (EC_MAXELIST + 1) no_error\<rparr>,
     idxstack = \<lparr>pushed = 0, pulled = 0, is_idx = replicate EC_MAXBUF 0, is_data = replicate EC_MAXBUF None,
       is_length = replicate EC_MAXBUF 0, is_dcoffset = replicate EC_MAXBUF 0\<rparr>,
     ecaterror = False, DCtime = 0, SMcommtype = \<lparr>smc_n = 0, smc_nu1 = 0, smc_SMtype = []\<rparr>,
     PDOassign = \<lparr>pa_n = 0, pa_nu1 = 0, pa_index = []\<rparr>, PDOdesc = \<lparr>pd_n = 0, pd_nu1 = 0, pd_PDO = []\<rparr>,
     FOEhook = None, EOEhook = None, manualstatechange = 0, iomap = []\<rparr>"

section \<open>Opening the interfaces\<close>

text \<open>\<open>fd\<close> and \<open>bound\<close> are the results of the system for an interface.\<close>

definition ecx_init :: "int \<Rightarrow> int \<Rightarrow> ecx_context \<Rightarrow> int \<times> ecx_context" where
  "ecx_init fd bound c = (let (r, p) = ecx_setupnic fd bound False (port c) in (r, c\<lparr>port := p\<rparr>))"

text \<open>\<open>rp\<close> is the second port; the result for the first interface is not used.\<close>

definition ecx_init_redundant :: "ec_stack \<Rightarrow> int \<Rightarrow> int \<Rightarrow> int \<Rightarrow> int \<Rightarrow> ecx_context \<Rightarrow> (int \<times> ecx_context) option" where
  "ecx_init_redundant rp fd bound fd2 bound2 c = do {
     let p = (port c)\<lparr>redport := Some rp\<rparr>;
     let (_, p) = ecx_setupnic fd bound False p;
     let (rval, p) = ecx_setupnic fd2 bound2 True p;
     let p = p\<lparr>txbuf2 := put16be (txbuf2 p) 8 secMAC\<rparr>;
     p \<leftarrow> ecx_setupdatagram Tx2 EC_CMD_BRD 0 0x0000 0x0000 2 [0, 0, 0, 0] p;
     let p = p\<lparr>txbuflength2 := int (ETH_HEADERSIZE + EC_HEADERSIZE + EC_WKCSIZE + 2)\<rparr>;
     Some (rval, c\<lparr>port := p\<rparr>)
   }"

section \<open>The functions for the single context\<close>

definition ec_init where
  "ec_init = ecx_init"

definition ec_init_redundant where
  "ec_init_redundant = ecx_init_redundant"

subsection \<open>The functions of \<^verbatim>\<open>ethercatmain.c\<close>\<close>

definition ec_pusherror where
  "ec_pusherror = ecx_pusherror"

definition ec_poperror where
  "ec_poperror = ecx_poperror"

definition ec_iserror where
  "ec_iserror = ecx_iserror"

definition ec_packeterror where
  "ec_packeterror = ecx_packeterror"

definition ec_siigetbyte where
  "ec_siigetbyte = ecx_siigetbyte"

definition ec_siifind where
  "ec_siifind = ecx_siifind"

definition ec_siistring where
  "ec_siistring = ecx_siistring"

definition ec_siiFMMU where
  "ec_siiFMMU = ecx_siiFMMU"

definition ec_siiSM where
  "ec_siiSM = ecx_siiSM"

definition ec_siiSMnext where
  "ec_siiSMnext = ecx_siiSMnext"

definition ec_siiPDO where
  "ec_siiPDO = ecx_siiPDO"

definition ec_readstate where
  "ec_readstate = ecx_readstate"

definition ec_writestate where
  "ec_writestate = ecx_writestate"

definition ec_statecheck where
  "ec_statecheck = ecx_statecheck"

definition ec_mbxempty where
  "ec_mbxempty = ecx_mbxempty"

definition ec_mbxsend where
  "ec_mbxsend = ecx_mbxsend"

definition ec_mbxreceive where
  "ec_mbxreceive = ecx_mbxreceive"

definition ec_esidump where
  "ec_esidump = ecx_esidump"

definition ec_readeeprom where
  "ec_readeeprom = ecx_readeeprom"

definition ec_writeeeprom where
  "ec_writeeeprom = ecx_writeeeprom"

definition ec_eeprom2master where
  "ec_eeprom2master = ecx_eeprom2master"

definition ec_eeprom2pdi where
  "ec_eeprom2pdi = ecx_eeprom2pdi"

definition ec_eeprom_waitnotbusyAP where
  "ec_eeprom_waitnotbusyAP = ecx_eeprom_waitnotbusyAP"

definition ec_readeepromAP where
  "ec_readeepromAP = ecx_readeepromAP"

definition ec_writeeepromAP where
  "ec_writeeepromAP = ecx_writeeepromAP"

definition ec_eeprom_waitnotbusyFP where
  "ec_eeprom_waitnotbusyFP = ecx_eeprom_waitnotbusyFP"

definition ec_readeepromFP where
  "ec_readeepromFP = ecx_readeepromFP"

definition ec_writeeepromFP where
  "ec_writeeepromFP = ecx_writeeepromFP"

definition ec_readeeprom1 where
  "ec_readeeprom1 = ecx_readeeprom1"

definition ec_readeeprom2 where
  "ec_readeeprom2 = ecx_readeeprom2"

definition ec_send_processdata_group where
  "ec_send_processdata_group = ecx_send_processdata_group"

definition ec_send_overlap_processdata_group where
  "ec_send_overlap_processdata_group = ecx_send_overlap_processdata_group"

definition ec_receive_processdata_group where
  "ec_receive_processdata_group = ecx_receive_processdata_group"

definition ec_send_processdata where
  "ec_send_processdata = ecx_send_processdata"

definition ec_send_overlap_processdata where
  "ec_send_overlap_processdata = ecx_send_overlap_processdata"

definition ec_receive_processdata where
  "ec_receive_processdata = ecx_receive_processdata"

subsection \<open>The functions of \<^verbatim>\<open>ethercatbase.c\<close>, which take the port of the context\<close>

definition ec_setupdatagram where
  "ec_setupdatagram frame com idx ADP ADO len data c = map_option (\<lambda>p. c\<lparr>port := p\<rparr>) (ecx_setupdatagram frame com idx ADP ADO len data (port c))"

definition ec_adddatagram where
  "ec_adddatagram frame com idx follows ADP ADO len data = on_port (ecx_adddatagram frame com idx follows ADP ADO len data)"

definition ec_BWR where
  "ec_BWR ADP ADO len data timeout = on_port (ecx_BWR ADP ADO len data timeout)"

definition ec_BRD where
  "ec_BRD ADP ADO len data timeout = on_port_buf (ecx_BRD ADP ADO len data timeout)"

definition ec_APRD where
  "ec_APRD ADP ADO len data timeout = on_port_buf (ecx_APRD ADP ADO len data timeout)"

definition ec_ARMW where
  "ec_ARMW ADP ADO len data timeout = on_port_buf (ecx_ARMW ADP ADO len data timeout)"

definition ec_FRMW where
  "ec_FRMW ADP ADO len data timeout = on_port_buf (ecx_FRMW ADP ADO len data timeout)"

definition ec_APRDw where
  "ec_APRDw ADP ADO timeout c = do { (_, w, c) \<leftarrow> ec_APRD ADP ADO 2 (enc16 0) timeout c; Some (dec16 w, c) }"

definition ec_FPRD where
  "ec_FPRD ADP ADO len data timeout = on_port_buf (ecx_FPRD ADP ADO len data timeout)"

definition ec_FPRDw where
  "ec_FPRDw ADP ADO timeout c = do { (_, w, c) \<leftarrow> ec_FPRD ADP ADO 2 (enc16 0) timeout c; Some (dec16 w, c) }"

definition ec_APWR where
  "ec_APWR ADP ADO len data timeout = on_port (ecx_APWR ADP ADO len data timeout)"

definition ec_APWRw where
  "ec_APWRw ADP ADO data timeout = ec_APWR ADP ADO 2 (enc16 data) timeout"

definition ec_FPWR where
  "ec_FPWR ADP ADO len data timeout = on_port (ecx_FPWR ADP ADO len data timeout)"

definition ec_FPWRw where
  "ec_FPWRw ADP ADO data timeout = ec_FPWR ADP ADO 2 (enc16 data) timeout"

definition ec_LRW where
  "ec_LRW LogAdr len data timeout = on_port_buf (ecx_LRW LogAdr len data timeout)"

definition ec_LRD where
  "ec_LRD LogAdr len data timeout = on_port_buf (ecx_LRD LogAdr len data timeout)"

definition ec_LWR where
  "ec_LWR LogAdr len data timeout = on_port (ecx_LWR LogAdr len data timeout)"

definition ec_LRWDC where
  "ec_LRWDC ptrsize LogAdr len data DCrs time timeout c = do {
     (wkc, bs, t, p) \<leftarrow> ecx_LRWDC ptrsize LogAdr len data DCrs time timeout (port c);
     Some (wkc, bs, t, c\<lparr>port := p\<rparr>)
   }"

subsection \<open>The functions of \<^verbatim>\<open>ethercatconfig.c\<close>\<close>

definition ec_config_init where
  "ec_config_init = ecx_config_init"

definition ec_config_map_group where
  "ec_config_map_group = ecx_config_map_group"

definition ec_config_overlap_map_group where
  "ec_config_overlap_map_group = ecx_config_overlap_map_group"

definition ec_config_map where
  "ec_config_map po2so mp at pIOmap = ec_config_map_group po2so mp at pIOmap 0"

definition ec_config_overlap_map where
  "ec_config_overlap_map po2so mp at pIOmap = ec_config_overlap_map_group po2so mp at pIOmap 0"

text \<open>The slaves are mapped whenever the result is not 0, a negative one included.\<close>

definition ec_config where
  "ec_config po2so aliasadr estat mp at usetable pIOmap c = do {
     (wkc, c) \<leftarrow> ec_config_init usetable aliasadr estat c;
     if wkc \<noteq> 0 then do { (_, c) \<leftarrow> ec_config_map po2so mp at pIOmap c; Some (wkc, c) } else Some (wkc, c)
   }"

definition ec_config_overlap where
  "ec_config_overlap po2so aliasadr estat mp at usetable pIOmap c = do {
     (wkc, c) \<leftarrow> ec_config_init usetable aliasadr estat c;
     if wkc \<noteq> 0 then do { (_, c) \<leftarrow> ec_config_overlap_map po2so mp at pIOmap c; Some (wkc, c) } else Some (wkc, c)
   }"

definition ec_recover_slave where
  "ec_recover_slave = ecx_recover_slave"

definition ec_reconfig_slave where
  "ec_reconfig_slave = ecx_reconfig_slave"

subsection \<open>The functions of \<^verbatim>\<open>ethercatcoe.c\<close>\<close>

definition ec_SDOerror where
  "ec_SDOerror = ecx_SDOerror"

definition ec_SDOread where
  "ec_SDOread = ecx_SDOread"

definition ec_SDOwrite where
  "ec_SDOwrite = ecx_SDOwrite"

definition ec_RxPDO where
  "ec_RxPDO = ecx_RxPDO"

definition ec_TxPDO where
  "ec_TxPDO = ecx_TxPDO"

definition ec_readPDOassign where
  "ec_readPDOassign = ecx_readPDOassign"

definition ec_readPDOassignCA where
  "ec_readPDOassignCA = ecx_readPDOassignCA"

definition ec_readPDOmap where
  "ec_readPDOmap = ecx_readPDOmap"

definition ec_readPDOmapCA where
  "ec_readPDOmapCA = ecx_readPDOmapCA"

definition ec_readODlist where
  "ec_readODlist = ecx_readODlist"

definition ec_readODdescription where
  "ec_readODdescription = ecx_readODdescription"

definition ec_readOEsingle where
  "ec_readOEsingle = ecx_readOEsingle"

definition ec_readOE where
  "ec_readOE = ecx_readOE"

subsection \<open>The functions of \<^verbatim>\<open>ethercatfoe.c\<close>\<close>

definition ec_FOEdefinehook where
  "ec_FOEdefinehook = ecx_FOEdefinehook"

definition ec_FOEread where
  "ec_FOEread = ecx_FOEread"

definition ec_FOEwrite where
  "ec_FOEwrite = ecx_FOEwrite"

subsection \<open>The functions of \<^verbatim>\<open>ethercatsoe.c\<close>\<close>

definition ec_SoEread where
  "ec_SoEread = ecx_SoEread"

definition ec_SoEwrite where
  "ec_SoEwrite = ecx_SoEwrite"

definition ec_readIDNmap where
  "ec_readIDNmap = ecx_readIDNmap"

subsection \<open>The functions of \<^verbatim>\<open>ethercatdc.c\<close>\<close>

definition ec_dcsync0 where
  "ec_dcsync0 = ecx_dcsync0"

definition ec_dcsync01 where
  "ec_dcsync01 = ecx_dcsync01"

definition ec_configdc where
  "ec_configdc = ecx_configdc"

subsection \<open>The functions of \<^verbatim>\<open>ethercatprint.c\<close>\<close>

definition ec_elist2string where
  "ec_elist2string = ecx_elist2string"

subsection \<open>The adapters\<close>

definition ec_find_adapters where
  "ec_find_adapters = oshw_find_adapters"

definition ec_free_adapters where
  "ec_free_adapters = oshw_free_adapters"

section \<open>Properties\<close>

text \<open>What the scripts of the environment must provide: frames that are complete, and a clock that goes on.\<close>

definition env_ok :: "osal_clock \<Rightarrow> u8 list option script \<Rightarrow> bool" where
  "env_ok clk rx \<longleftrightarrow> (\<forall>bs. Some bs \<in> range rx \<longrightarrow> frame_ok bs) \<and> clock_live clk"

lemma port0_setup:
  assumes "env_ok clk rx" "ecx_setupnic fd bound False (ecx_port0 clk rx snds) = (r, p)"
  shows "port_inv p" "r = 1 \<longleftrightarrow> bound = 0"
  using assms
  by (auto simp: env_ok_def ecx_setupnic_def ecx_port0_def ec_stack0_def Let_def port_inv_def stack_inv_def red_ok_def ecx_clear_rxbufstat_def
      split: if_splits)

lemma context0_ready:
  "port_inv p \<Longrightarrow> ctx_inv ((ecx_context0 q)\<lparr>port := p\<rparr>)"
  by (simp add: ctx_inv_def ecx_context0_def ring_inv_def idxstack_inv_def)

lemma init_ready:
  assumes "env_ok clk rx" "ec_init fd bound (ecx_context0 (ecx_port0 clk rx snds)) = (r, c)"
  shows "ctx_inv c" "slavelist c = replicate EC_MAXSLAVE no_slave" "slavecount c = 0" "maxslave c = int EC_MAXSLAVE"
    "grouplist c = replicate EC_MAXGROUP no_group" "r = 1 \<longleftrightarrow> bound = 0" "errors c = []" "\<not> ecaterror c"
proof -
  obtain p where p: "ecx_setupnic fd bound False (ecx_port0 clk rx snds) = (r, p)" "c = (ecx_context0 (ecx_port0 clk rx snds))\<lparr>port := p\<rparr>"
    using assms(2) by (auto simp: ec_init_def ecx_init_def ecx_context0_def split: prod.splits)
  note q = port0_setup [OF assms(1) p(1)]
  show "ctx_inv c" unfolding p(2) by (rule context0_ready [OF q(1)])
  show "r = 1 \<longleftrightarrow> bound = 0" by (rule q(2))
  show "slavelist c = replicate EC_MAXSLAVE no_slave" "slavecount c = 0" "maxslave c = int EC_MAXSLAVE"
      "grouplist c = replicate EC_MAXGROUP no_group" "errors c = []" "\<not> ecaterror c"
    by (simp_all add: p(2) ecx_context0_def errors_def ring_content_def ring_len_def)
qed



end
