(* ===== verification/Spec2Isabelle.thy ===== *)
theory Spec2Isabelle
  imports FrameLife Dc CoeProps SoeProps EoeProps ConfigProps SegProps CheckProps ToolProps Wrappers
begin

text \<open>
  A verification development for the EtherCAT master \<^verbatim>\<open>SOEM\<close> in \<^verbatim>\<open>src/SOEM\<close>, built for Linux, with the
  drive application \<^verbatim>\<open>test/linux/simple_test/simple_test.c\<close> that uses it.

  \<^bold>\<open>The program.\<close> The application calls the functions \<^verbatim>\<open>ec_...\<close> of the library, which pass one
  global context on to functions \<^verbatim>\<open>ecx_...\<close>. At the bottom a driver keeps sixteen transmit buffers,
  named by a frame index, and matches what the socket delivers to the index that somebody waits for
  (\<^verbatim>\<open>oshw/linux/nicdrv.c\<close>); it measures time with \<^verbatim>\<open>osal/linux/osal.c\<close>. Above it a datagram primitive
  allocates an index, builds a frame, sends it, waits for it, takes the data out and releases the
  index (\<^verbatim>\<open>soem/ethercatbase.c\<close>). The master (\<^verbatim>\<open>soem/ethercatmain.c\<close>) uses the primitives for the EEPROM
  of the slaves, their states, their mailboxes and the cyclic process data, and keeps a ring of error
  records. The protocols CoE, FoE, SoE and EoE exchange mailboxes; \<^verbatim>\<open>soem/ethercatconfig.c\<close> finds the
  slaves, reads their EEPROM and lays their process data out in one image (the IO map) that is cut
  into segments of at most one frame; \<^verbatim>\<open>soem/ethercatdc.c\<close> measures the delays of the distributed
  clocks; \<^verbatim>\<open>soem/ethercatprint.c\<close> turns error records into text. The application runs three threads
  over the context: one exchanges process data and controls the drive, one watches the states of the
  slaves, the main thread starts and stops them.

  \<^bold>\<open>Theories and sources.\<close> In the order of the layers:

  \<^item> EcPrelude: machine integers of \<^verbatim>\<open>osal/osal.h\<close>, byte order, buffers, loops, and the collections of
    rules for operations that return. Osal: clocks and timers of \<^verbatim>\<open>osal.c\<close>.
  \<^item> Nicdrv, NicdrvProps: \<^verbatim>\<open>nicdrv.c\<close>, from \<^verbatim>\<open>ecx_setupnic\<close> and \<^verbatim>\<open>ecx_getindex\<close> to \<^verbatim>\<open>ecx_inframe\<close>,
    \<^verbatim>\<open>ecx_waitinframe_red\<close> and \<^verbatim>\<open>ecx_srconfirm\<close>. FrameLife: tasks that share one port, as the step
    relation \<^verbatim>\<open>frame_reach\<close> whose steps are the critical sections of the driver.
  \<^item> Datagram, DatagramProps: \<^verbatim>\<open>ethercatbase.c\<close>. FrameFormat: what a reader of the wire sees in a
    buffer. Wire: ports whose incoming frames are known (scripts), for functional properties.
  \<^item> EcContext: the types of \<^verbatim>\<open>ethercatmain.h\<close> and \<^verbatim>\<open>ethercattype.h\<close>. Then \<^verbatim>\<open>ethercatmain.c\<close> in six
    parts: ErrorRing (\<^verbatim>\<open>ecx_pusherror\<close>, \<^verbatim>\<open>ecx_poperror\<close> and the reports), Eeprom (\<^verbatim>\<open>ecx_readeepromFP\<close> and
    its relatives), Sii (\<^verbatim>\<open>ecx_siigetbyte\<close>, \<^verbatim>\<open>ecx_siifind\<close>, \<^verbatim>\<open>ecx_siiPDO\<close>), SlaveState (\<^verbatim>\<open>ecx_readstate\<close>,
    \<^verbatim>\<open>ecx_writestate\<close>, \<^verbatim>\<open>ecx_statecheck\<close>), Mailbox (\<^verbatim>\<open>ecx_mbxsend\<close>, \<^verbatim>\<open>ecx_mbxreceive\<close>) and ProcessData
    (\<^verbatim>\<open>ecx_send_processdata\<close>, \<^verbatim>\<open>ecx_receive_processdata\<close>).
  \<^item> MbxClient: what the protocols share; MbxWire: mailboxes on a scripted wire. Coe, CoeInfo, CoeProps:
    \<^verbatim>\<open>ethercatcoe.c\<close>; Foe, FoeProps: \<^verbatim>\<open>ethercatfoe.c\<close>; Soe, SoeProps: \<^verbatim>\<open>ethercatsoe.c\<close>; Eoe, EoeProps:
    \<^verbatim>\<open>ethercateoe.c\<close>.
  \<^item> Config, ConfigMap: the two halves of \<^verbatim>\<open>ethercatconfig.c\<close>, with the table of \<^verbatim>\<open>ethercatconfiglist.h\<close>;
    ConfigProps, MapProps, SegProps: enumeration, layout of a slave, layout of a group. Dc:
    \<^verbatim>\<open>ethercatdc.c\<close>.
  \<^item> CText: the conversions of \<^verbatim>\<open>sprintf\<close> and \<^verbatim>\<open>sscanf\<close> that the code uses; Print: \<^verbatim>\<open>ethercatprint.c\<close>;
    Oshw: \<^verbatim>\<open>oshw/linux/oshw.c\<close>; Wrappers: the static context, \<^verbatim>\<open>ecx_init\<close>, \<^verbatim>\<open>ecx_init_redundant\<close> and the
    functions \<^verbatim>\<open>ec_...\<close>; EepromTool, ToolProps: \<^verbatim>\<open>test/linux/eepromtool/eepromtool.c\<close>.
  \<^item> Drive, DriveProps: the control of the drive in \<^verbatim>\<open>simple_test.c\<close>; App, AppProps, CheckProps: its
    threads and their interleaving, the step relation \<^verbatim>\<open>app_step\<close>.

  \<^bold>\<open>State.\<close> A struct is a record with the fields of the source (\<^verbatim>\<open>ecx_portt\<close> is \<^verbatim>\<open>ecx_port\<close>, \<^verbatim>\<open>ecx_contextt\<close>
  is \<^verbatim>\<open>ecx_context\<close>, \<^verbatim>\<open>ec_slavet\<close> is \<^verbatim>\<open>ec_slave\<close>), an integer a word of its width, a table a list, a
  buffer of constant size a function from offsets to bytes. Global state is an argument and a result
  of every operation. An operation is a function into an option type: the value \<^verbatim>\<open>None\<close> means that the
  C program leaves an array, divides by zero or never returns; error codes are ordinary results. A
  pointer into the IO map is an offset into the field \<^verbatim>\<open>iomap\<close>. Only Oshw has records that \<^verbatim>\<open>malloc\<close>
  links with each other; there the store is explicit.

  \<^bold>\<open>Environment.\<close> What the C library and the network do is an argument: the clock is a sequence of
  readings and a counter of those used (\<^verbatim>\<open>osal_clock\<close>), each socket has a sequence of received frames
  and one of results of \<^verbatim>\<open>send\<close> (\<^verbatim>\<open>rxscript\<close>, \<^verbatim>\<open>sndscript\<close>), and the frames sent are logged (\<^verbatim>\<open>txlog\<close>). The
  contents of uninitialised variables, the addresses that \<^verbatim>\<open>malloc\<close> returns, the results of \<^verbatim>\<open>socket\<close> and
  \<^verbatim>\<open>bind\<close>, files and the hooks of the application are arguments too. The usual hypothesis \<^verbatim>\<open>port_inv\<close> says
  that the clock runs, that the lengths of the buffers are in bounds and that the length
  field of a received frame does not lead outside the receive buffer, as the frames of slaves do
  not: they have the length of the frame sent. Nothing is assumed of the content of the answers unless a property says so.

  \<^bold>\<open>Loops.\<close> A loop of the source is \<^verbatim>\<open>do_while\<close> or \<^verbatim>\<open>while_loop\<close>, defined by
  \<^verbatim>\<open>partial_function\<close>, without fuel, so that a loop that never ends has the value \<^verbatim>\<open>None\<close>, or
  \<^verbatim>\<open>for_loop\<close> with a count that is known when it starts. The statement
  \<^verbatim>\<open>returns f Q\<close> says that an operation returns and its result satisfies \<^verbatim>\<open>Q\<close> (total correctness), and
  \<^verbatim>\<open>ensures f Q\<close> is the partial form. Termination is proved with measures, mostly the time left on a
  timer; the loops that need not end are stated as such. The only bounds are those of the
  conversion of times in CText: 128 doublings, where 72 are enough for any number of microseconds,
  and 256 halvings of a number below the power 256 of two. The counters \<^verbatim>\<open>rtcnt\<close> and \<^verbatim>\<open>dorun\<close> of the
  application and the sums of the clock arithmetic are unbounded integers; the model does not show
  their overflow after years of operation.

  \<^bold>\<open>Interfaces.\<close> A client and its provider meet in a locale: \<^verbatim>\<open>slave_access\<close> and \<^verbatim>\<open>wired_access\<close> (the
  registers of a slave, interpreted for access by configured address and by position), \<^verbatim>\<open>sii_rom\<close> (the
  cache of the EEPROM as a memory), \<^verbatim>\<open>drop_oldest\<close> (the error list), \<^verbatim>\<open>mbx_transport\<close> and its extension
  \<^verbatim>\<open>mbx_client\<close> (the mailbox link with the session counter, on which the four protocols rest) and
  \<^verbatim>\<open>bounded_fifo\<close> (the stack of the frames of a cycle). Each is interpreted on the operations of the
  model in the theory of the provider.

  \<^bold>\<open>What is shown.\<close>

  \<^item> Driver and datagrams: waiting for a frame ends; a frame index never has two owners while the
    interface accepts frames; frames out of order and the redundant ring; a frame built datagram by
    datagram reads back; what a read returns came from one frame that answers it.
  \<^item> Master: the error list keeps its last entries; EEPROM reads return the content, directly and
    through the cache, and the search follows the chain of categories; the lowest slave state is that
    of a slave; a mailbox with a positive result is never an error reply; a cycle sends each byte of
    the image once, ends, and releases its frames.
  \<^item> Protocols: transfers return whatever the slave answers, where that is so, and slaves on which they
    do not return; round trips of segments, fragments and parameters; objects delivered over the wire.
  \<^item> Configuration: the parent of each slave of each tree, FMMUs, segments, clocks linked both ways.
  \<^item> Application: the control words in all reachable states, the classification of the status word, the
    way into operation, the report of the watching thread, and how the exchange and the control fail.
  \<^item> Tools: texts of errors against the size of their buffer, Intel hex files, the list of adapters.

  Several theorems state a fault of the code as it is (an endless loop, an overrun, a command that
  never arrives); they are proved for the same definitions as the others.

  \<^bold>\<open>Not modelled.\<close> The ports to other operating systems; the other example programs, which print what
  the library delivers; \<^verbatim>\<open>ec_close\<close> and the options of the sockets, which are calls of the system;
  printing, but for the texts of errors; of \<^verbatim>\<open>simple_test.c\<close> the motion helpers and conversions of
  floating-point numbers that no running code calls, and the socket server that is commented out.
  \<^verbatim>\<open>osal_usleep\<close> has no counterpart, as any time may pass between two readings of the clock. The
  critical sections of the driver are atomic steps; threads interleave at these steps in FrameLife
  and at whole passes of their loops in App.
\<close>

end
